(* ===== verification/Float64.thy ===== *)
theory Float64
  imports Complex_Main "HOL-Library.Log_Nat"
begin

text \<open>
  Go's \<open>float64\<close>: IEEE 754 binary64 with round to nearest, ties to even, as the
  engine's prices, quantities and money amounts use it. A finite value is the rational
  number it stands for; an operation computes the exact rational and rounds it once.
  The two zeros are one value (the engine never tells them apart: it only compares,
  adds and multiplies them); NaN and the infinities are values of their own, so that
  comparisons with NaN are false as in Go. Every definition computes.
\<close>

section \<open>Rounding a rational to 53 significant bits\<close>

text \<open>\<open>flog2 q\<close> is the exponent \<open>e\<close> with \<open>2^e \<le> q < 2^(e+1)\<close>, for positive \<open>q\<close>.\<close>

definition flog2 :: "rat \<Rightarrow> int" where
  "flog2 q = (if 1 \<le> q then bitlen \<lfloor>q\<rfloor> - 1 else - bitlen (\<lceil>1 / q\<rceil> - 1))"

text \<open>Nearest integer, ties to even.\<close>

definition rne :: "rat \<Rightarrow> int" where
  "rne x = (let f = \<lfloor>x\<rfloor>; d = x - of_int f in
     if d < 1/2 then f else if 1/2 < d then f + 1 else if even f then f else f + 1)"

text \<open>Exponent of the last place of the doubles around \<open>q\<close>; -1074 is the subnormal limit.\<close>

definition fexp :: "rat \<Rightarrow> int" where
  "fexp q = max (flog2 \<bar>q\<bar> - 52) (-1074)"

definition rnd :: "rat \<Rightarrow> rat" where
  "rnd q = (if q = 0 then 0 else of_int (rne (q / 2 powi fexp q)) * 2 powi fexp q)"

text \<open>The rationals a double can stand for (before the overflow bound).\<close>

definition frep :: "rat \<Rightarrow> bool" where
  "frep q \<longleftrightarrow> (\<exists>m e. q = of_int m * 2 powi e \<and> \<bar>m\<bar> \<le> 2 ^ 53 \<and> -1074 \<le> e)"

subsection \<open>The binary exponent\<close>

lemma powi2_pos [simp]: "0 < (2::rat) powi e"
  by (simp add: power_int_def)

lemma powi2_nz [simp]: "(2::rat) powi e \<noteq> 0"
  using powi2_pos[of e] by linarith

lemma powi2_mono: "e \<le> f \<Longrightarrow> (2::rat) powi e \<le> 2 powi f"
  by (rule power_int_increasing) auto

lemma powi2_add: "(2::rat) powi (e + f) = 2 powi e * 2 powi f"
  by (simp add: power_int_add)

lemma powi2_diff_nat: "f \<le> e \<Longrightarrow> (2::rat) powi e / 2 powi f = of_int (2 ^ nat (e - f))"
proof -
  assume "f \<le> e"
  then have "(2::rat) powi e = 2 powi (e - f) * 2 powi f"
    by (simp flip: powi2_add)
  moreover have "(2::rat) powi (e - f) = of_int (2 ^ nat (e - f))"
    using \<open>f \<le> e\<close> by (simp add: power_int_def)
  ultimately show ?thesis by simp
qed

lemma powi2_less_iff [simp]: "(2::rat) powi e < 2 powi f \<longleftrightarrow> e < f"
  by (metis linorder_not_less one_less_numeral_iff power_int_strict_increasing powi2_mono
      semiring_norm(76))

lemma flog2_bounds:
  assumes "0 < q"
  shows "2 powi flog2 q \<le> q \<and> q < 2 powi (flog2 q + 1)"
proof (cases "1 \<le> q")
  case True
  define n where "n = \<lfloor>q\<rfloor>"
  have n: "1 \<le> n" "of_int n \<le> q" "q < of_int n + 1"
    using True unfolding n_def by linarith+
  have b: "2 ^ nat (bitlen n - 1) \<le> n" "n < 2 ^ nat (bitlen n)" "1 \<le> bitlen n"
    using bitlen_bounds[of n] n(1) by (auto simp: bitlen_ge_iff_power)
  have "(2::rat) powi flog2 q = of_int (2 ^ nat (bitlen n - 1))"
    using True b(3) by (simp add: flog2_def n_def power_int_def)
  moreover have "(2::rat) powi (flog2 q + 1) = of_int (2 ^ nat (bitlen n))"
    using True b(3) by (simp add: flog2_def n_def power_int_def)
  moreover have "(of_int (2 ^ nat (bitlen n - 1)) :: rat) \<le> of_int n"
    using b(1) by (simp only: of_int_le_iff)
  moreover have "(of_int n + 1 :: rat) \<le> of_int (2 ^ nat (bitlen n))"
    using b(2) by (metis (mono_tags) of_int_1 of_int_add of_int_le_iff zless_imp_add1_zle)
  ultimately show ?thesis using n by linarith
next
  case False
  define n where "n = \<lceil>1 / q\<rceil> - 1"
  have q: "0 < q" "q < 1" using assms False by auto
  have c: "1 / q \<le> of_int n + 1" "of_int n < 1 / q"
    unfolding n_def by linarith+
  have "1 < 1 / q" using q by simp
  then have "2 \<le> \<lceil>1 / q\<rceil>" by linarith
  then have n1: "1 \<le> n" by (simp add: n_def)
  have b: "2 ^ nat (bitlen n - 1) \<le> n" "n < 2 ^ nat (bitlen n)" "1 \<le> bitlen n"
    using bitlen_bounds[of n] n1 by (auto simp: bitlen_ge_iff_power)
  have f: "flog2 q = - bitlen n" using False by (simp add: flog2_def n_def)
  have lo: "(2::rat) powi flog2 q = 1 / of_int (2 ^ nat (bitlen n))"
    using b(3) by (simp add: f power_int_def inverse_eq_divide power_one_over)
  have hi: "(2::rat) powi (flog2 q + 1) = 1 / of_int (2 ^ nat (bitlen n - 1))"
    using b(3) by (auto simp: f power_int_def inverse_eq_divide power_one_over)
  have "1 / q \<le> of_int (2 ^ nat (bitlen n))"
    using b(2) c(1) by (metis (mono_tags) of_int_1 of_int_add of_int_le_iff order_trans zless_imp_add1_zle)
  then have "1 / of_int (2 ^ nat (bitlen n)) \<le> q"
    using q by (simp add: field_simps)
  moreover have "of_int (2 ^ nat (bitlen n - 1)) < 1 / q"
    using b(1) c(2) by (metis le_less_trans of_int_le_iff)
  then have "q < 1 / of_int (2 ^ nat (bitlen n - 1))"
    using q by (simp add: field_simps)
  ultimately show ?thesis by (simp add: lo hi)
qed

lemma flog2_mono: "0 < p \<Longrightarrow> p \<le> q \<Longrightarrow> flog2 p \<le> flog2 q"
proof -
  assume "0 < p" "p \<le> q"
  then have "(2::rat) powi flog2 p < 2 powi (flog2 q + 1)"
    using flog2_bounds[of p] flog2_bounds[of q] by linarith
  then show ?thesis by simp
qed

subsection \<open>Rounding to an integer\<close>

lemma rne_near: "\<bar>of_int (rne x) - x\<bar> \<le> 1/2"
  by (simp add: rne_def Let_def abs_if) linarith

lemma rne_of_int [simp]: "rne (of_int n) = n"
  by (simp add: rne_def)

lemma rne_floor: "\<lfloor>x\<rfloor> \<le> rne x \<and> rne x \<le> \<lfloor>x\<rfloor> + 1"
  by (auto simp: rne_def Let_def)

lemma rne_mono: "x \<le> y \<Longrightarrow> rne x \<le> rne y"
proof -
  assume le: "x \<le> y"
  then have f: "\<lfloor>x\<rfloor> \<le> \<lfloor>y\<rfloor>" by (rule floor_mono)
  show ?thesis
  proof (cases "\<lfloor>x\<rfloor> = \<lfloor>y\<rfloor>")
    case True
    then show ?thesis using le by (auto simp: rne_def Let_def)
  next
    case False
    then show ?thesis using f rne_floor[of x] rne_floor[of y] by linarith
  qed
qed

lemma rne_minus: "rne (- x) = - rne x"
proof (cases "x = of_int \<lfloor>x\<rfloor>")
  case True
  then show ?thesis by (metis of_int_minus rne_of_int)
next
  case False
  then have fl: "\<lfloor>- x\<rfloor> = - \<lfloor>x\<rfloor> - 1" by linarith
  show ?thesis by (auto simp: rne_def Let_def fl)
qed

lemma rne_le: "x \<le> of_int n \<Longrightarrow> rne x \<le> n"
  using rne_mono[of x "of_int n"] by simp

lemma rne_ge: "of_int n \<le> x \<Longrightarrow> n \<le> rne x"
  using rne_mono[of "of_int n" x] by simp

subsection \<open>Rounding to a double\<close>

lemma fexp_minus [simp]: "fexp (- q) = fexp q"
  by (simp add: fexp_def)

lemma rnd_0 [simp]: "rnd 0 = 0"
  by (simp add: rnd_def)

lemma rnd_minus: "rnd (- q) = - rnd q"
  by (simp add: rnd_def rne_minus)

lemma fexp_bound: "0 < q \<Longrightarrow> q < 2 powi (fexp q + 53)"
proof -
  assume "0 < q"
  then have "q < 2 powi (flog2 q + 1)" using flog2_bounds by blast
  also have "\<dots> \<le> 2 powi (fexp q + 53)"
    using \<open>0 < q\<close> by (intro powi2_mono) (simp add: fexp_def)
  finally show ?thesis .
qed

lemma fexp_mono: "0 < p \<Longrightarrow> p \<le> q \<Longrightarrow> fexp p \<le> fexp q"
  using flog2_mono[of p q] by (simp add: fexp_def)

lemma rnd_nonneg: "0 \<le> q \<Longrightarrow> 0 \<le> rnd q"
  by (auto simp: rnd_def intro!: mult_nonneg_nonneg rne_ge)

lemma rnd_upper: "0 < q \<Longrightarrow> rnd q \<le> 2 powi (fexp q + 53)"
proof -
  assume "0 < q"
  then have "q / 2 powi fexp q \<le> of_int (2 ^ 53)"
    using fexp_bound[of q] by (simp add: powi2_add field_simps)
  then have "rne (q / 2 powi fexp q) \<le> 2 ^ 53" by (rule rne_le)
  then have "of_int (rne (q / 2 powi fexp q)) \<le> (2::rat) powi 53"
    by (metis (mono_tags) of_int_le_iff of_int_numeral of_int_power power_int_numeral)
  then show ?thesis using \<open>0 < q\<close> by (simp add: rnd_def powi2_add mult.commute)
qed

lemma rnd_mono_pos: "0 < p \<Longrightarrow> p \<le> q \<Longrightarrow> rnd p \<le> rnd q"
proof (cases "fexp p = fexp q")
  case True
  assume "0 < p" "p \<le> q"
  then show ?thesis using True
    by (auto simp: rnd_def intro!: rne_mono mult_right_mono divide_right_mono)
next
  case False
  assume pq: "0 < p" "p \<le> q"
  then have less: "fexp p < fexp q" using fexp_mono[of p q] False by simp
  then have fq: "fexp q = flog2 q - 52" using pq by (auto simp: fexp_def split: if_splits)
  have "2 powi (fexp q + 52) \<le> q" using flog2_bounds[of q] pq fq by simp
  then have "of_int (2 ^ 52) \<le> q / 2 powi fexp q" by (simp add: powi2_add field_simps)
  then have "2 ^ 52 \<le> rne (q / 2 powi fexp q)" by (rule rne_ge)
  then have "(2::rat) powi 52 \<le> of_int (rne (q / 2 powi fexp q))"
    by (metis (mono_tags) of_int_le_iff of_int_numeral of_int_power power_int_numeral)
  then have "2 powi (fexp q + 52) \<le> rnd q"
    using pq by (simp add: rnd_def powi2_add mult.commute)
  moreover have "(2::rat) powi (fexp p + 53) \<le> 2 powi (fexp q + 52)"
    using less by (intro powi2_mono) simp
  ultimately show ?thesis using rnd_upper[of p] pq by linarith
qed

text \<open>Rounding is monotone: the order of exact results is never reversed.\<close>

lemma rnd_mono: "p \<le> q \<Longrightarrow> rnd p \<le> rnd q"
proof -
  assume pq: "p \<le> q"
  consider "0 < p" | "p \<le> 0" "0 \<le> q" | "q < 0" by linarith
  then show ?thesis
  proof cases
    case 1 then show ?thesis using pq by (rule rnd_mono_pos)
  next
    case 2
    then show ?thesis using rnd_nonneg[of q] rnd_nonneg[of "- p"] by (simp add: rnd_minus)
  next
    case 3
    then show ?thesis using rnd_mono_pos[of "- q" "- p"] pq by (simp add: rnd_minus)
  qed
qed

lemma frepI: "q = of_int m * 2 powi e \<Longrightarrow> \<bar>m\<bar> \<le> 2 ^ 53 \<Longrightarrow> -1074 \<le> e \<Longrightarrow> frep q"
  unfolding frep_def by blast

lemma frepE:
  assumes "frep q"
  obtains m e where "q = of_int m * 2 powi e" "\<bar>m\<bar> \<le> 2 ^ 53" "-1074 \<le> e"
  using assms unfolding frep_def by blast

lemma frep_minus: "frep q \<Longrightarrow> frep (- q)"
  by (erule frepE, rule_tac m = "- m" and e = e in frepI) auto

lemma frep_0 [simp]: "frep 0"
  by (rule frepI[of _ 0 0]) auto

lemma frep_of_int: "\<bar>n\<bar> \<le> 2 ^ 53 \<Longrightarrow> frep (of_int n)"
  by (rule frepI[of _ n 0]) auto

text \<open>A rounded value is representable, and rounding leaves a representable value alone.\<close>

lemma frep_rnd: "frep (rnd q)"
proof -
  have pos: "frep (rnd p)" if "0 < p" for p
  proof (rule frepI)
    show "rnd p = of_int (rne (p / 2 powi fexp p)) * 2 powi fexp p"
      using that by (simp add: rnd_def)
    have "p / 2 powi fexp p \<le> of_int (2 ^ 53)"
      using fexp_bound[OF that] by (simp add: powi2_add field_simps)
    then have "rne (p / 2 powi fexp p) \<le> 2 ^ 53" by (rule rne_le)
    moreover have "0 \<le> rne (p / 2 powi fexp p)"
      using that by (intro rne_ge) simp
    ultimately show "\<bar>rne (p / 2 powi fexp p)\<bar> \<le> 2 ^ 53" by simp
    show "- 1074 \<le> fexp p" by (simp add: fexp_def)
  qed
  show ?thesis
    using pos[of q] pos[of "- q"] frep_minus[of "rnd (- q)"]
    by (cases q "0 :: rat" rule: linorder_cases) (auto simp: rnd_minus)
qed

lemma rnd_frep_pos:
  assumes "0 < q" "q = of_int m * 2 powi e" "\<bar>m\<bar> < 2 ^ 53" "-1074 \<le> e"
  shows "rnd q = q"
proof -
  have "(of_int m :: rat) < of_int (2 ^ 53)"
    using assms(3) by (simp only: of_int_less_iff)
  then have "q < 2 powi (53 + e)"
    using assms(2) by (simp add: powi2_add)
  then have "(2::rat) powi flog2 q < 2 powi (53 + e)"
    using flog2_bounds[OF assms(1)] by linarith
  then have "fexp q \<le> e"
    using assms(1,4) by (simp add: fexp_def)
  then have "q / 2 powi fexp q = of_int (m * 2 ^ nat (e - fexp q))"
    using assms(2) by (simp add: powi2_diff_nat flip: times_divide_eq_right)
  then show ?thesis
    using assms(1) by (simp only: rnd_def rne_of_int) (simp add: field_simps)
qed

lemma rnd_id: "frep q \<Longrightarrow> rnd q = q"
proof -
  have pos: "rnd p = p" if p: "0 < p" "frep p" for p
  proof -
    obtain m e where me: "p = of_int m * 2 powi e" "\<bar>m\<bar> \<le> 2 ^ 53" "-1074 \<le> e"
      using p(2) by (rule frepE)
    have "\<not> (2::rat) powi e < 0" using powi2_pos[of e] by linarith
    then have "0 < m" using p(1) me(1) by (auto simp: zero_less_mult_iff)
    show ?thesis
    proof (cases "m = 2 ^ 53")
      case True
      then have "p = of_int (2 ^ 52) * 2 powi (e + 1)"
        using me(1) by (simp add: powi2_add)
      then show ?thesis using p(1) me(3) by (intro rnd_frep_pos[of p "2 ^ 52" "e + 1"]) auto
    next
      case False
      then show ?thesis using p(1) me \<open>0 < m\<close> by (intro rnd_frep_pos) auto
    qed
  qed
  assume "frep q"
  then show ?thesis
    using pos[of q] pos[of "- q"] frep_minus[of q]
    by (cases q "0 :: rat" rule: linorder_cases) (auto simp: rnd_minus)
qed

lemma rnd_rnd [simp]: "rnd (rnd q) = rnd q"
  by (rule rnd_id [OF frep_rnd])

lemma rnd_of_int: "\<bar>n\<bar> \<le> 2 ^ 53 \<Longrightarrow> rnd (of_int n) = of_int n"
  by (rule rnd_id) (rule frep_of_int)

lemma rnd_le_frep: "frep b \<Longrightarrow> a \<le> b \<Longrightarrow> rnd a \<le> b"
  using rnd_mono[of a b] by (simp add: rnd_id)

lemma rnd_ge_frep: "frep a \<Longrightarrow> a \<le> b \<Longrightarrow> a \<le> rnd b"
  using rnd_mono[of a b] by (simp add: rnd_id)

section \<open>Doubles and their operations\<close>

datatype f64 = Fin rat | PInf | NInf | NaN

text \<open>The double nearest to an exact result; results of magnitude \<open>2^1024\<close> overflow.\<close>

definition fl :: "rat \<Rightarrow> f64" where
  "fl q = (let r = rnd q in if \<bar>r\<bar> < 2 ^ 1024 then Fin r else if 0 < r then PInf else NInf)"

text \<open>A finite or infinite double that the machine can hold; NaN is one as well.\<close>

fun f64_ok :: "f64 \<Rightarrow> bool" where
  "f64_ok (Fin q) \<longleftrightarrow> frep q \<and> \<bar>q\<bar> < 2 ^ 1024"
| "f64_ok _ \<longleftrightarrow> True"

instantiation f64 :: "{zero, one, plus, minus, uminus, times, inverse, abs, ord}"
begin

definition zero_f64 :: f64 where "0 = Fin 0"

definition one_f64 :: f64 where "1 = Fin 1"

fun uminus_f64 :: "f64 \<Rightarrow> f64" where
  "- (Fin q) = Fin (- q)"
| "- PInf = NInf"
| "- NInf = PInf"
| "- NaN = NaN"

fun plus_f64 :: "f64 \<Rightarrow> f64 \<Rightarrow> f64" where
  "Fin a + Fin b = fl (a + b)"
| "Fin _ + y = y"
| "PInf + NInf = NaN"
| "NInf + PInf = NaN"
| "PInf + NaN = NaN"
| "NInf + NaN = NaN"
| "NaN + _ = NaN"
| "PInf + _ = PInf"
| "NInf + _ = NInf"

definition minus_f64 :: "f64 \<Rightarrow> f64 \<Rightarrow> f64" where "x - y = x + (- y)" for x y :: f64

fun times_f64 :: "f64 \<Rightarrow> f64 \<Rightarrow> f64" where
  "Fin a * Fin b = fl (a * b)"
| "NaN * _ = NaN"
| "_ * NaN = NaN"
| "Fin a * PInf = (if a = 0 then NaN else if 0 < a then PInf else NInf)"
| "Fin a * NInf = (if a = 0 then NaN else if 0 < a then NInf else PInf)"
| "PInf * Fin a = (if a = 0 then NaN else if 0 < a then PInf else NInf)"
| "NInf * Fin a = (if a = 0 then NaN else if 0 < a then NInf else PInf)"
| "PInf * PInf = PInf"
| "NInf * NInf = PInf"
| "PInf * NInf = NInf"
| "NInf * PInf = NInf"

fun divide_f64 :: "f64 \<Rightarrow> f64 \<Rightarrow> f64" where
  "divide_f64 (Fin a) (Fin b) =
     (if b = 0 then (if a = 0 then NaN else if 0 < a then PInf else NInf) else fl (a / b))"
| "divide_f64 NaN _ = NaN"
| "divide_f64 _ NaN = NaN"
| "divide_f64 (Fin _) _ = Fin 0"
| "divide_f64 PInf (Fin b) = (if 0 \<le> b then PInf else NInf)"
| "divide_f64 NInf (Fin b) = (if 0 \<le> b then NInf else PInf)"
| "divide_f64 _ _ = NaN"

definition inverse_f64 :: "f64 \<Rightarrow> f64" where "inverse x = divide 1 x" for x :: f64

fun abs_f64 :: "f64 \<Rightarrow> f64" where
  "\<bar>Fin q\<bar> = Fin \<bar>q\<bar>"
| "\<bar>PInf\<bar> = PInf"
| "\<bar>NInf\<bar> = PInf"
| "\<bar>NaN\<bar> = NaN"

fun less_eq_f64 :: "f64 \<Rightarrow> f64 \<Rightarrow> bool" where
  "Fin a \<le> Fin b \<longleftrightarrow> a \<le> b"
| "NaN \<le> _ \<longleftrightarrow> False"
| "_ \<le> NaN \<longleftrightarrow> False"
| "NInf \<le> _ \<longleftrightarrow> True"
| "_ \<le> PInf \<longleftrightarrow> True"
| "(_ :: f64) \<le> _ \<longleftrightarrow> False"

fun less_f64 :: "f64 \<Rightarrow> f64 \<Rightarrow> bool" where
  "Fin a < Fin b \<longleftrightarrow> a < b"
| "NaN < _ \<longleftrightarrow> False"
| "_ < NaN \<longleftrightarrow> False"
| "NInf < y \<longleftrightarrow> y \<noteq> NInf"
| "x < PInf \<longleftrightarrow> x \<noteq> PInf"
| "(_ :: f64) < _ \<longleftrightarrow> False"

instance ..

end

text \<open>Go's \<open>==\<close> on doubles: NaN equals nothing.\<close>

definition feq :: "f64 \<Rightarrow> f64 \<Rightarrow> bool" where
  "feq x y \<longleftrightarrow> x \<le> y \<and> y \<le> x"

text \<open>A decimal constant of the source, and the conversion of an integer.\<close>

definition fconst :: "rat \<Rightarrow> f64" where "fconst q = fl q"

definition float_of_int :: "int \<Rightarrow> f64" where "float_of_int n = fl (of_int n)"

text \<open>Functions of Go's \<open>math\<close> package, and the builtin \<open>min\<close> and \<open>max\<close>.\<close>

definition is_nan :: "f64 \<Rightarrow> bool" where "is_nan x \<longleftrightarrow> x = NaN"

definition is_inf :: "f64 \<Rightarrow> bool" where "is_inf x \<longleftrightarrow> x = PInf \<or> x = NInf"

fun math_floor :: "f64 \<Rightarrow> f64" where
  "math_floor (Fin q) = Fin (of_int \<lfloor>q\<rfloor>)"
| "math_floor x = x"

fun math_ceil :: "f64 \<Rightarrow> f64" where
  "math_ceil (Fin q) = Fin (of_int \<lceil>q\<rceil>)"
| "math_ceil x = x"

text \<open>\<open>math.Round\<close>: half away from zero.\<close>

fun math_round :: "f64 \<Rightarrow> f64" where
  "math_round (Fin q) = Fin (of_int (if 0 \<le> q then \<lfloor>q + 1/2\<rfloor> else - \<lfloor>1/2 - q\<rfloor>))"
| "math_round x = x"

fun math_max :: "f64 \<Rightarrow> f64 \<Rightarrow> f64" where
  "math_max PInf _ = PInf"
| "math_max _ PInf = PInf"
| "math_max NaN _ = NaN"
| "math_max _ NaN = NaN"
| "math_max x y = (if y < x then x else y)"

fun math_min :: "f64 \<Rightarrow> f64 \<Rightarrow> f64" where
  "math_min NInf _ = NInf"
| "math_min _ NInf = NInf"
| "math_min NaN _ = NaN"
| "math_min _ NaN = NaN"
| "math_min x y = (if x < y then x else y)"

definition go_max :: "f64 \<Rightarrow> f64 \<Rightarrow> f64" where
  "go_max x y = (if is_nan x \<or> is_nan y then NaN else if y < x then x else y)"

definition go_min :: "f64 \<Rightarrow> f64 \<Rightarrow> f64" where
  "go_min x y = (if is_nan x \<or> is_nan y then NaN else if x < y then x else y)"

definition finite_f64 :: "f64 \<Rightarrow> bool" where
  "finite_f64 x \<longleftrightarrow> \<not> is_nan x \<and> \<not> is_inf x"

subsection \<open>Facts about doubles\<close>

lemma fin_le [simp]: "Fin a \<le> Fin b \<longleftrightarrow> a \<le> b" and fin_less [simp]: "Fin a < Fin b \<longleftrightarrow> a < b"
  by simp_all

lemma nan_le [simp]: "\<not> NaN \<le> x" "\<not> x \<le> NaN" "\<not> NaN < x" "\<not> x < NaN"
  by (cases x; simp)+

lemma f64_le_refl: "x \<noteq> NaN \<Longrightarrow> x \<le> x" for x :: f64
  by (cases x) auto

lemma f64_le_trans: "x \<le> y \<Longrightarrow> y \<le> z \<Longrightarrow> x \<le> z" for x y z :: f64
  by (cases x; cases y; cases z) auto

lemma f64_less_le_trans: "x < y \<Longrightarrow> y \<le> z \<Longrightarrow> x < z" for x y z :: f64
  by (cases x; cases y; cases z) auto

lemma f64_le_less_trans: "x \<le> y \<Longrightarrow> y < z \<Longrightarrow> x < z" for x y z :: f64
  by (cases x; cases y; cases z) auto

lemma f64_less_imp_le: "x < y \<Longrightarrow> x \<le> y" for x y :: f64
  by (cases x; cases y) auto

lemma f64_not_less: "x \<noteq> NaN \<Longrightarrow> y \<noteq> NaN \<Longrightarrow> \<not> x < y \<longleftrightarrow> y \<le> x" for x y :: f64
  by (cases x; cases y) auto

lemma f64_not_le: "x \<noteq> NaN \<Longrightarrow> y \<noteq> NaN \<Longrightarrow> \<not> x \<le> y \<longleftrightarrow> y < x" for x y :: f64
  by (cases x; cases y) auto

lemma feq_iff: "feq x y \<longleftrightarrow> x = y \<and> x \<noteq> NaN"
  by (cases x; cases y) (auto simp: feq_def)

lemma fl_0 [simp]: "fl 0 = Fin 0"
  by (simp add: fl_def)

lemma fl_minus: "fl (- q) = - fl q"
  by (auto simp: fl_def rnd_minus Let_def)

lemma fl_not_nan [simp]: "fl q \<noteq> NaN"
  by (simp add: fl_def Let_def)

lemma f64_ok_fl [simp]: "f64_ok (fl q)"
  by (simp add: fl_def Let_def frep_rnd)

lemma fl_id: "f64_ok (Fin q) \<Longrightarrow> fl q = Fin q"
  by (simp add: fl_def rnd_id)

lemma fl_of_int: "\<bar>n\<bar> \<le> 2 ^ 53 \<Longrightarrow> fl (of_int n) = Fin (of_int n)"
proof -
  assume n: "\<bar>n\<bar> \<le> 2 ^ 53"
  then have "\<bar>n\<bar> < 2 ^ 1024"
    by (rule le_less_trans) simp
  then have "\<bar>of_int n :: rat\<bar> < of_int (2 ^ 1024)"
    by (metis of_int_abs of_int_less_iff)
  then show ?thesis using n by (simp add: fl_def rnd_of_int)
qed

lemma fl_mono: "p \<le> q \<Longrightarrow> fl p \<le> fl q"
proof -
  assume "p \<le> q"
  then have "rnd p \<le> rnd q" by (rule rnd_mono)
  then show ?thesis by (auto simp: fl_def Let_def abs_less_iff not_less)
qed

lemma f64_add_comm: "x + y = y + x" for x y :: f64
  by (cases x; cases y) (auto simp: add.commute)

lemma f64_mul_comm: "x * y = y * x" for x y :: f64
  by (cases x; cases y) (auto simp: mult.commute)

lemma f64_add_0 [simp]: "f64_ok x \<Longrightarrow> x + 0 = x" "f64_ok x \<Longrightarrow> 0 + x = x"
  by (cases x; simp add: zero_f64_def fl_id)+

lemma f64_ok_0 [simp]: "f64_ok 0"
  by (simp add: zero_f64_def)

lemma f64_ok_add [simp]: "f64_ok x \<Longrightarrow> f64_ok y \<Longrightarrow> f64_ok (x + y)"
  by (cases x; cases y) auto

lemma f64_ok_minus [simp]: "f64_ok x \<Longrightarrow> f64_ok (- x)"
  by (cases x) (auto simp: frep_minus)

lemma f64_ok_sub [simp]: "f64_ok x \<Longrightarrow> f64_ok y \<Longrightarrow> f64_ok (x - y)"
  by (simp add: minus_f64_def)

lemma f64_ok_mul [simp]: "f64_ok (x * y)"
  by (cases x; cases y) auto

text \<open>Adding a nonnegative amount never moves a sum down, rounding included.\<close>

lemma f64_add_nonneg_le:
  fixes x d :: f64
  assumes "f64_ok x" "0 \<le> d" "x \<noteq> NInf"
  shows "x \<le> x + d \<or> x = NaN"
proof (cases x)
  case (Fin a)
  then have x: "fl a = x" using assms(1) by (simp add: fl_id)
  show ?thesis
  proof (cases d)
    case (Fin b)
    then have "a \<le> a + b" using assms(2) by (simp add: zero_f64_def)
    then have "fl a \<le> fl (a + b)" by (rule fl_mono)
    then show ?thesis using x \<open>x = Fin a\<close> Fin by simp
  qed (use assms(2) \<open>x = Fin a\<close> in \<open>auto simp: zero_f64_def\<close>)
qed (use assms in \<open>cases d; auto simp: zero_f64_def\<close>)+

lemma f64_sub_nonneg_le:
  fixes x d :: f64
  assumes "f64_ok x" "0 \<le> d" "x \<noteq> PInf"
  shows "x - d \<le> x \<or> x = NaN"
proof (cases x)
  case (Fin a)
  then have x: "fl a = x" using assms(1) by (simp add: fl_id)
  show ?thesis
  proof (cases d)
    case (Fin b)
    then have "a + - b \<le> a" using assms(2) by (simp add: zero_f64_def)
    then have "fl (a + - b) \<le> fl a" by (rule fl_mono)
    then show ?thesis using x \<open>x = Fin a\<close> Fin by (simp add: minus_f64_def)
  qed (use assms(2) \<open>x = Fin a\<close> in \<open>auto simp: zero_f64_def minus_f64_def\<close>)
qed (use assms in \<open>cases d; auto simp: zero_f64_def minus_f64_def\<close>)+

subsection \<open>Whole numbers: share counts\<close>

text \<open>Sums of whole numbers below \<open>2^53\<close> are exact: share counts never round.\<close>

abbreviation whole :: "int \<Rightarrow> f64" where "whole n \<equiv> Fin (of_int n)"

lemma whole_add: "\<bar>a + b\<bar> \<le> 2 ^ 53 \<Longrightarrow> whole a + whole b = whole (a + b)"
  using fl_of_int[of "a + b"] by simp

lemma whole_sub: "\<bar>a - b\<bar> \<le> 2 ^ 53 \<Longrightarrow> whole a - whole b = whole (a - b)"
  using fl_of_int[of "a - b"] by (simp add: minus_f64_def)

lemma whole_neg: "- whole a = whole (- a)"
  by simp

lemma whole_0: "whole 0 = 0"
  by (simp add: zero_f64_def)

lemma whole_ok: "\<bar>n\<bar> \<le> 2 ^ 53 \<Longrightarrow> f64_ok (whole n)"
  using fl_of_int[of n] f64_ok_fl[of "of_int n"] by simp

section \<open>Evaluation\<close>

text \<open>Rounding on numerator and denominator: what the kernel evaluates for a concrete double.\<close>

function pow2 :: "int \<Rightarrow> int" where
  "pow2 e = (if e \<le> 0 then 1 else if even e then (let p = pow2 (e div 2) in p * p) else 2 * pow2 (e - 1))"
  by auto
termination by (relation "measure nat") auto

declare pow2.simps [simp del]

lemma pow2_power: "0 \<le> e \<Longrightarrow> pow2 e = 2 ^ nat e"
proof (induction e rule: pow2.induct)
  case (1 e)
  show ?case
  proof (cases "e \<le> 0")
    case False
    have p: "pow2 e = (if even e then (let p = pow2 (e div 2) in p * p) else 2 * pow2 (e - 1))"
      using False by (simp add: pow2.simps[of e])
    show ?thesis
    proof (cases "even e")
      case True
      then have "nat e = nat (e div 2) + nat (e div 2)" using False by auto
      then have "2 ^ nat e = (2 ^ nat (e div 2) * 2 ^ nat (e div 2) :: int)" by (metis power_add)
      then show ?thesis using 1(1)[OF False True] True False p by (simp add: Let_def)
    next
      case odd: False
      have "nat e = Suc (nat (e - 1))" using False by simp
      then show ?thesis using 1(2)[OF False odd] odd False p by simp
    qed
  qed (use 1 in \<open>simp add: pow2.simps\<close>)
qed

lemma powi2_pow2: "0 \<le> e \<Longrightarrow> (2::rat) powi e = of_int (pow2 e)" "e \<le> 0 \<Longrightarrow> (2::rat) powi e = 1 / of_int (pow2 (- e))"
  by (auto simp: power_int_def pow2_power power_one_over inverse_eq_divide)

definition rne_frac :: "int \<Rightarrow> int \<Rightarrow> int" where
  "rne_frac n d = (let f = n div d; r = 2 * (n mod d) in
     if r < d then f else if d < r then f + 1 else if even f then f else f + 1)"

lemma rne_frac: "0 < d \<Longrightarrow> rne (of_int n / of_int d) = rne_frac n d"
proof -
  assume d: "0 < d"
  have f: "\<lfloor>of_int n / of_int d :: rat\<rfloor> = n div d" by (rule floor_divide_of_int_eq)
  have "of_int n = (of_int d * of_int (n div d) + of_int (n mod d) :: rat)"
    by (metis mult_div_mod_eq of_int_add of_int_mult)
  then have r: "of_int n / of_int d - of_int (n div d) = (of_int (n mod d) / of_int d :: rat)"
    using d by (simp add: field_simps)
  have half: "of_int a / of_int d < (1/2 :: rat) \<longleftrightarrow> 2 * a < d" "(1/2 :: rat) < of_int a / of_int d \<longleftrightarrow> d < 2 * a" for a
  proof -
    have "of_int a / of_int d < (1/2 :: rat) \<longleftrightarrow> of_int (2 * a) < (of_int d :: rat)"
      using d by (simp add: divide_less_eq mult.commute)
    moreover have "(1/2 :: rat) < of_int a / of_int d \<longleftrightarrow> (of_int d :: rat) < of_int (2 * a)"
      using d by (simp add: less_divide_eq mult.commute)
    ultimately show "of_int a / of_int d < (1/2 :: rat) \<longleftrightarrow> 2 * a < d"
      "(1/2 :: rat) < of_int a / of_int d \<longleftrightarrow> d < 2 * a" by (simp_all only: of_int_less_iff)
  qed
  show ?thesis unfolding rne_def rne_frac_def Let_def f r half by (rule refl)
qed

lemma rnd_code [code]:
  "rnd q = (if q = 0 then 0 else let e = fexp q; (n, d) = quotient_of q in
     if 0 \<le> e then of_int (rne_frac n (d * pow2 e) * pow2 e)
     else Fract (rne_frac (n * pow2 (- e)) d) (pow2 (- e)))"
proof (cases "q = 0")
  case False
  obtain n d where nd: "quotient_of q = (n, d)" by fastforce
  then have d: "0 < d" "q = of_int n / of_int d" using quotient_of_denom_pos quotient_of_div by auto
  have p: "0 < pow2 e" if "0 \<le> e" for e using that by (simp add: pow2_power)
  have "rnd q = (if 0 \<le> fexp q then of_int (rne_frac n (d * pow2 (fexp q)) * pow2 (fexp q))
     else of_int (rne_frac (n * pow2 (- fexp q)) d) / of_int (pow2 (- fexp q)))"
  proof (cases "0 \<le> fexp q")
    case True
    have "q / 2 powi fexp q = of_int n / of_int (d * pow2 (fexp q))" using True d by (simp add: powi2_pow2)
    then show ?thesis using True False d p[OF True] rne_frac[of "d * pow2 (fexp q)" n]
      by (simp add: rnd_def powi2_pow2 del: of_int_mult) simp
  next
    case neg: False
    have "q / 2 powi fexp q = of_int (n * pow2 (- fexp q)) / of_int d" using neg d by (simp add: powi2_pow2)
    then show ?thesis using neg False d rne_frac[of d "n * pow2 (- fexp q)"]
      by (simp add: rnd_def powi2_pow2 del: of_int_mult)
  qed
  then show ?thesis using False nd by (simp add: Fract_of_int_quotient Let_def)
qed (simp add: rnd_def)

lemma flog2_code [code]:
  "flog2 q = (let (n, d) = quotient_of q in
     if d \<le> n then bitlen (n div d) - 1 else - bitlen (- ((- d) div n) - 1))"
proof -
  obtain n d where nd: "quotient_of q = (n, d)" by fastforce
  then have d: "0 < d" "q = of_int n / of_int d" using quotient_of_denom_pos quotient_of_div by auto
  have "1 \<le> q \<longleftrightarrow> d \<le> n" unfolding d(2) using d(1) by (simp add: le_divide_eq)
  moreover have "\<lfloor>q\<rfloor> = n div d" unfolding d(2) by (rule floor_divide_of_int_eq)
  moreover have "\<lceil>1 / q\<rceil> = - ((- d) div n)"
    using floor_divide_of_int_eq[of "- d" n, where 'a=rat] by (simp add: d(2) ceiling_def)
  ultimately show ?thesis by (simp add: flog2_def nd)
qed

lemma fl_code [code]:
  "fl q = (let r = rnd q in if \<bar>r\<bar> < 18446744073709551616 then Fin r
     else if \<bar>r\<bar> < 2 ^ 1024 then Fin r else if 0 < r then PInf else NInf)"
proof -
  have "(18446744073709551616 :: rat) \<le> 2 ^ 1024" by simp
  then show ?thesis by (auto simp: fl_def Let_def)
qed

section \<open>Whole numbers under the other operations\<close>

lemma whole_cmp [simp]:
  "0 < whole n \<longleftrightarrow> 0 < n" "whole n < 0 \<longleftrightarrow> n < 0" "feq (whole n) 0 \<longleftrightarrow> n = 0"
  "whole n \<le> 0 \<longleftrightarrow> n \<le> 0" "0 \<le> whole n \<longleftrightarrow> 0 \<le> n"
  by (auto simp: zero_f64_def feq_def)

lemma whole_abs: "\<bar>whole n\<bar> = whole \<bar>n\<bar>"
  by simp

lemma whole_min: "math_min (whole a) (whole b) = whole (min a b)"
  by (simp add: min_def)

lemma whole_max: "math_max (whole a) (whole b) = whole (max a b)"
  by (simp add: max_def)

end
