(* ===== verification/Prelude.thy ===== *)
theory Prelude
  imports Float64 "HOL-Library.AList" "HOL-Library.Multiset" "HOL-Library.List_Lexorder" "HOL-Library.Char_ord"
begin

text \<open>
  Shared ground of the development: Go's maps as association lists, Go's zero values,
  and the collections of facts the component proofs use.

  A Go map is an association list with distinct keys. Its order stands for the order in
  which a \<open>range\<close> over the map visits the entries, which Go leaves unspecified: a theorem
  about every association list is a theorem about every iteration order.
\<close>

named_theorems map_laws \<open>lookup after insert, delete and range\<close>
named_theorems inv_intros \<open>invariants kept by operations\<close>
named_theorems frame_laws \<open>what an operation leaves unchanged\<close>

section \<open>Go maps\<close>

type_synonym ('k, 'v) gomap = "('k \<times> 'v) list"

abbreviation keys_distinct :: "('k, 'v) gomap \<Rightarrow> bool" where
  "keys_distinct m \<equiv> distinct (map fst m)"

text \<open>\<open>m[k] = v\<close>, \<open>delete(m, k)\<close>, \<open>v, ok := m[k]\<close> and \<open>m[k]\<close> with the zero value \<open>z\<close>.\<close>

abbreviation mput :: "'k \<Rightarrow> 'v \<Rightarrow> ('k, 'v) gomap \<Rightarrow> ('k, 'v) gomap" where
  "mput \<equiv> AList.update"

abbreviation mdel :: "'k \<Rightarrow> ('k, 'v) gomap \<Rightarrow> ('k, 'v) gomap" where
  "mdel \<equiv> AList.delete"

abbreviation mget :: "('k, 'v) gomap \<Rightarrow> 'k \<Rightarrow> 'v option" where
  "mget \<equiv> map_of"

definition mget0 :: "'v \<Rightarrow> ('k, 'v) gomap \<Rightarrow> 'k \<Rightarrow> 'v" where
  "mget0 z m k = (case mget m k of None \<Rightarrow> z | Some v \<Rightarrow> v)"

definition mhas :: "('k, 'v) gomap \<Rightarrow> 'k \<Rightarrow> bool" where
  "mhas m k \<longleftrightarrow> mget m k \<noteq> None"

lemma mget_put [simp, map_laws]: "mget (mput k v m) k' = (if k' = k then Some v else mget m k')"
  by (simp add: update_conv')

lemma mget_del [simp, map_laws]: "mget (mdel k m) k' = (if k' = k then None else mget m k')"
  by (simp add: delete_conv')

lemma mget0_put [simp, map_laws]: "mget0 z (mput k v m) k' = (if k' = k then v else mget0 z m k')"
  by (simp add: mget0_def)

lemma mget0_del [simp, map_laws]: "mget0 z (mdel k m) k' = (if k' = k then z else mget0 z m k')"
  by (simp add: mget0_def)

lemma mget0_Some [map_laws]: "mget m k = Some v \<Longrightarrow> mget0 z m k = v"
  by (simp add: mget0_def)

lemma mget0_Nil [simp]: "mget0 z [] k = z"
  by (simp add: mget0_def)

lemma mhas_put [simp, map_laws]: "mhas (mput k v m) k' \<longleftrightarrow> k' = k \<or> mhas m k'"
  by (simp add: mhas_def)

lemma mhas_dom: "mhas m k \<longleftrightarrow> k \<in> dom (mget m)"
  by (auto simp: mhas_def)

lemma keys_distinct_put [simp, inv_intros]: "keys_distinct m \<Longrightarrow> keys_distinct (mput k v m)"
  by (rule distinct_update)

lemma keys_distinct_del [simp, inv_intros]: "keys_distinct m \<Longrightarrow> keys_distinct (mdel k m)"
  by (rule distinct_delete)

lemma mget_in_set: "mget m k = Some v \<Longrightarrow> (k, v) \<in> set m"
  by (rule map_of_SomeD)

lemma in_set_mget: "keys_distinct m \<Longrightarrow> (k, v) \<in> set m \<Longrightarrow> mget m k = Some v"
  by simp

lemma mput_absent: "mget m k = None \<Longrightarrow> mput k v m = m @ [(k, v)]"
  by (induction m) (auto split: if_splits)

lemma mput_split:
  assumes "keys_distinct m" "mget m k = Some w"
  obtains xs ys where "m = xs @ (k, w) # ys" "mput k v m = xs @ (k, v) # ys"
    "k \<notin> fst ` set xs" "k \<notin> fst ` set ys"
  using assms
proof (induction m arbitrary: thesis)
  case Nil
  then show ?case by simp
next
  case (Cons p m)
  show ?case
  proof (cases "fst p = k")
    case True
    then show ?thesis using Cons.prems(1)[of "[]" m] Cons.prems(2,3) by (cases p) auto
  next
    case False
    obtain xs ys where "m = xs @ (k, w) # ys" "mput k v m = xs @ (k, v) # ys"
      "k \<notin> fst ` set xs" "k \<notin> fst ` set ys"
      using Cons.IH[of thesis] Cons.prems False by (cases p) auto
    then show ?thesis using Cons.prems(1)[of "p # xs" ys] False by (cases p) auto
  qed
qed

section \<open>Sums over a range loop\<close>

text \<open>\<open>var t float64; for _, x := range xs { t += x }\<close>\<close>

definition fsum :: "f64 list \<Rightarrow> f64" where
  "fsum xs = foldl (+) 0 xs"

text \<open>
  Whole summands: the loop's result is the exact integer sum, whatever the order, as
  long as the magnitudes stay below \<open>2^53\<close> together.
\<close>

definition whole_list :: "f64 list \<Rightarrow> int list \<Rightarrow> bool" where
  "whole_list xs ns \<longleftrightarrow> xs = map whole ns \<and> sum_list (map abs ns) \<le> 2 ^ 53"

lemma foldl_whole:
  "\<bar>a\<bar> + sum_list (map abs ns) \<le> 2 ^ 53 \<Longrightarrow>
   foldl (+) (whole a) (map whole ns) = whole (a + sum_list ns)"
proof (induction ns arbitrary: a)
  case Nil
  then show ?case by simp
next
  case (Cons n ns)
  have nonneg: "0 \<le> sum_list (map abs ns)" by (induction ns) auto
  have "whole a + whole n = whole (a + n)"
    using Cons.prems nonneg abs_triangle_ineq[of a n] by (intro whole_add) simp
  moreover have "\<bar>a + n\<bar> + sum_list (map abs ns) \<le> 2 ^ 53"
    using Cons.prems abs_triangle_ineq[of a n] by simp
  ultimately show ?case using Cons.IH[of "a + n"] by (simp add: add.assoc)
qed

lemma fsum_whole: "whole_list xs ns \<Longrightarrow> fsum xs = whole (sum_list ns)"
  using foldl_whole[of 0 ns] by (simp add: fsum_def whole_list_def whole_0 flip: whole_0)

lemma fsum_whole_perm:
  assumes "whole_list xs ns" "mset ys = mset xs"
  shows "fsum ys = fsum xs"
proof -
  define f where "f x = (case x of Fin q \<Rightarrow> \<lfloor>q\<rfloor> | _ \<Rightarrow> 0)" for x :: f64
  define ms where "ms = map f ys"
  have f: "f (whole n) = n" for n by (simp add: f_def)
  have "set ys = whole ` set ns"
    using assms by (metis list.set_map set_mset_mset whole_list_def)
  then have ys: "ys = map whole ms"
    by (auto simp: ms_def f intro!: map_idI[symmetric])
  have "mset ms = image_mset f (mset xs)" using assms(2) by (simp add: ms_def)
  also have "\<dots> = mset ns" using assms(1) by (simp add: whole_list_def f multiset.map_comp comp_def)
  finally have ms: "mset ms = mset ns" .
  have "sum_list (map abs ms) = sum_list (map abs ns)" "sum_list ms = sum_list ns"
    using ms by (metis mset_map sum_mset_sum_list)+
  then show ?thesis using fsum_whole[OF assms(1)] fsum_whole[of ys ms] assms(1) ys
    by (simp add: whole_list_def)
qed

text \<open>Nonnegative summands: the sum is above each of them.\<close>

lemma foldl_nonneg:
  assumes "\<forall>x \<in> set xs. 0 \<le> x \<and> f64_ok x" "0 \<le> a" "f64_ok a"
  shows "a \<le> foldl (+) a xs \<and> (\<forall>x \<in> set xs. x \<le> foldl (+) a xs) \<and> f64_ok (foldl (+) a xs)"
  using assms
proof (induction xs arbitrary: a)
  case Nil
  then show ?case by (cases a) (auto simp: f64_le_refl zero_f64_def)
next
  case (Cons x xs)
  have pos: "0 \<le> y \<Longrightarrow> y \<noteq> NaN \<and> y \<noteq> NInf" for y :: f64 by (cases y) (auto simp: zero_f64_def)
  have up: "u \<le> u + v" if "0 \<le> u" "f64_ok u" "0 \<le> v" for u v :: f64
    using f64_add_nonneg_le[of u v] pos[of u] that by auto
  have ax: "a \<le> a + x" "x \<le> a + x" "f64_ok (a + x)"
    using up[of a x] up[of x a] Cons.prems by (auto simp: f64_add_comm[of x a])
  then have "0 \<le> a + x" using f64_le_trans[OF Cons.prems(2) ax(1)] by simp
  then have IH: "a + x \<le> foldl (+) (a + x) xs" "\<forall>y \<in> set xs. y \<le> foldl (+) (a + x) xs"
    "f64_ok (foldl (+) (a + x) xs)"
    using Cons.IH[of "a + x"] Cons.prems ax by auto
  then show ?case using ax f64_le_trans[OF ax(1) IH(1)] f64_le_trans[OF ax(2) IH(1)] by auto
qed

lemma fsum_nonneg:
  assumes "\<forall>x \<in> set xs. 0 \<le> x \<and> f64_ok x"
  shows "0 \<le> fsum xs" "\<And>x. x \<in> set xs \<Longrightarrow> x \<le> fsum xs" "f64_ok (fsum xs)"
  using foldl_nonneg[OF assms, of 0] by (auto simp: fsum_def f64_le_refl zero_f64_def)

lemma fsum_zeros: "\<forall>x \<in> set xs. x = 0 \<Longrightarrow> fsum xs = 0"
proof -
  have "\<forall>x \<in> set xs. x = 0 \<Longrightarrow> foldl (+) (0 :: f64) xs = 0"
    by (induction xs) (simp_all add: zero_f64_def fl_id)
  then show "\<forall>x \<in> set xs. x = 0 \<Longrightarrow> fsum xs = 0" by (simp add: fsum_def)
qed

section \<open>Sorting, \<open>sort.SliceStable\<close>\<close>

text \<open>The stable sort by a Go \<open>less\<close> function: an element goes before the first one that is not
  less than it, so equal elements keep their order. \<open>sort.Slice\<close> promises less (any sorted
  arrangement); where the source's order is strict on the elements the two agree.\<close>

fun insert_by :: "('a \<Rightarrow> 'a \<Rightarrow> bool) \<Rightarrow> 'a \<Rightarrow> 'a list \<Rightarrow> 'a list" where
  "insert_by lt x [] = [x]"
| "insert_by lt x (y # ys) = (if lt y x then y # insert_by lt x ys else x # y # ys)"

definition SliceStable :: "('a \<Rightarrow> 'a \<Rightarrow> bool) \<Rightarrow> 'a list \<Rightarrow> 'a list" where
  "SliceStable lt xs = foldr (insert_by lt) xs []"

lemma mset_insert_by [simp]: "mset (insert_by lt x ys) = add_mset x (mset ys)"
  by (induction ys) auto

lemma mset_SliceStable [simp]: "mset (SliceStable lt xs) = mset xs"
  by (induction xs) (auto simp: SliceStable_def)

lemma set_insert_by [simp]: "set (insert_by lt x ys) = insert x (set ys)"
  by (induction ys) auto

lemma set_SliceStable [simp]: "set (SliceStable lt xs) = set xs"
  using mset_SliceStable[of lt xs] by (metis set_mset_mset)

lemma length_SliceStable [simp]: "length (SliceStable lt xs) = length xs"
  using mset_SliceStable[of lt xs] by (metis size_mset)

locale sort_less =
  fixes lt :: "'a \<Rightarrow> 'a \<Rightarrow> bool"
  assumes lt_asym: "lt a b \<Longrightarrow> \<not> lt b a"
    and lt_neg_trans: "\<not> lt b a \<Longrightarrow> \<not> lt c b \<Longrightarrow> \<not> lt c a"
begin

lemma sorted_insert_by:
  "sorted_wrt (\<lambda>a b. \<not> lt b a) ys \<Longrightarrow> sorted_wrt (\<lambda>a b. \<not> lt b a) (insert_by lt x ys)"
proof (induction ys)
  case (Cons y ys)
  then show ?case using lt_asym[of y x] lt_neg_trans[of y x] by auto
qed simp

lemma sorted_SliceStable: "sorted_wrt (\<lambda>a b. \<not> lt b a) (SliceStable lt xs)"
  by (induction xs) (auto simp: SliceStable_def intro: sorted_insert_by)

end

section \<open>Folding a log\<close>

text \<open>The contract of every component that folds events one at a time: each step keeps an
  invariant and only grows what \<open>grows\<close> compares. The folds of a whole log inherit both.\<close>

locale event_fold =
  fixes step :: "'s \<Rightarrow> 'e \<Rightarrow> 's" and inv :: "'s \<Rightarrow> bool" and grows :: "'s \<Rightarrow> 's \<Rightarrow> bool"
  assumes inv_step: "inv s \<Longrightarrow> inv (step s e)"
    and grows_refl: "grows s s"
    and grows_trans: "grows s t \<Longrightarrow> grows t u \<Longrightarrow> grows s u"
    and grows_step: "inv s \<Longrightarrow> grows s (step s e)"
begin

lemma inv_fold: "inv s \<Longrightarrow> inv (foldl step s es)"
  by (induction es arbitrary: s) (simp_all add: inv_step)

lemma grows_fold: "inv s \<Longrightarrow> grows s (foldl step s es)"
  by (induction es arbitrary: s) (auto intro: grows_refl grows_trans grows_step inv_step)

lemma grows_from_event:
  assumes "inv s" "e \<in> set es"
  obtains t where "inv t" "grows (step t e) (foldl step s es)"
proof -
  obtain xs ys where "es = xs @ e # ys" using split_list[OF assms(2)] by blast
  then show ?thesis
    using that[of "foldl step s xs"] assms(1) by (simp add: inv_fold inv_step grows_fold)
qed

end

end
