(* ===== verification/ExecTypes.thy ===== *)
theory ExecTypes
  imports Prelude
begin

text \<open>
  The execution domain's data model: \<open>internal/exec/types.go\<close>, with the trail and
  risk-entry records it embeds (\<open>trailing.go\<close>, \<open>trailing_candles.go\<close>, \<open>risk_entry.go\<close>).

  A \<open>uint8\<close> enum is a datatype with the source's constants and one constructor for the
  numbers no constant names, so every \<open>default\<close> branch of the source is a branch here. A
  string enum has one constructor for the strings no constant names. A nil-able pointer is
  an option. Record fields carry a prefix because HOL's field names are global.
\<close>

type_synonym venue_id = string

section \<open>Decimal printing, \<open>%d\<close>\<close>

fun show_nat :: "nat \<Rightarrow> string" where
  "show_nat n = (if n < 10 then [char_of (48 + n)] else show_nat (n div 10) @ [char_of (48 + n mod 10)])"

declare show_nat.simps [simp del]

definition sprintf_num :: "string \<Rightarrow> nat \<Rightarrow> string" where
  "sprintf_num name n = name @ ''('' @ show_nat n @ '')''"

definition isprefix :: "string \<Rightarrow> string \<Rightarrow> bool" where
  "isprefix p s \<longleftrightarrow> take (length p) s = p"

section \<open>Enums\<close>

datatype side = SideBuy | SideSell | SideShort | SideCover | SideNum nat

fun Side_String :: "side \<Rightarrow> string" where
  "Side_String SideBuy = ''BUY''"
| "Side_String SideSell = ''SELL''"
| "Side_String SideShort = ''SHORT''"
| "Side_String SideCover = ''COVER''"
| "Side_String (SideNum n) = sprintf_num ''Side'' n"

definition sideFromString :: "string \<Rightarrow> side \<times> bool" where
  "sideFromString s =
     (if s = ''BUY'' then (SideBuy, True)
      else if s = ''SELL'' then (SideSell, True)
      else if s = ''SHORT'' then (SideShort, True)
      else if s = ''COVER'' then (SideCover, True)
      else (SideBuy, False))"

definition known_side :: "side \<Rightarrow> bool" where
  "known_side s \<longleftrightarrow> (case s of SideNum _ \<Rightarrow> False | _ \<Rightarrow> True)"

datatype order_type = TypeMarket | TypeLimit | TypeStop | TypeStopLimit | TypeLimitIfTouched
  | TypeTrailingStop | TypeNum nat

fun OrderType_String :: "order_type \<Rightarrow> string" where
  "OrderType_String TypeMarket = ''MARKET''"
| "OrderType_String TypeLimit = ''LIMIT''"
| "OrderType_String TypeStop = ''STOP''"
| "OrderType_String TypeStopLimit = ''STOP_LIMIT''"
| "OrderType_String TypeLimitIfTouched = ''LIMIT_IF_TOUCHED''"
| "OrderType_String TypeTrailingStop = ''TRAILING_STOP''"
| "OrderType_String (TypeNum n) = sprintf_num ''OrderType'' n"

datatype tif = TIFDay | TIFGTC | TIFIOC | TIFFOK | TIFNum nat

fun TIF_String :: "tif \<Rightarrow> string" where
  "TIF_String TIFDay = ''DAY''"
| "TIF_String TIFGTC = ''GTC''"
| "TIF_String TIFIOC = ''IOC''"
| "TIF_String TIFFOK = ''FOK''"
| "TIF_String (TIFNum n) = sprintf_num ''TIF'' n"

datatype order_session = SessionAuto | SessionRTH | SessionExtended | SessionOvernight | SessionNum nat

fun OrderSession_String :: "order_session \<Rightarrow> string" where
  "OrderSession_String SessionRTH = ''RTH''"
| "OrderSession_String SessionExtended = ''EXTENDED''"
| "OrderSession_String SessionOvernight = ''OVERNIGHT''"
| "OrderSession_String SessionAuto = ''AUTO''"
| "OrderSession_String (SessionNum _) = ''AUTO''"

fun ExtendedHoursFor :: "order_session \<Rightarrow> bool \<Rightarrow> bool" where
  "ExtendedHoursFor SessionRTH autoResult = False"
| "ExtendedHoursFor SessionExtended autoResult = True"
| "ExtendedHoursFor SessionOvernight autoResult = True"
| "ExtendedHoursFor SessionAuto autoResult = autoResult"
| "ExtendedHoursFor (SessionNum _) autoResult = autoResult"

datatype order_status = StatusSubmitted | StatusAccepted | StatusPartiallyFilled | StatusFilled
  | StatusCanceled | StatusRejected | StatusExpired | StatusBlocked | StatusReplaced | StatusNum nat

fun OrderStatus_String :: "order_status \<Rightarrow> string" where
  "OrderStatus_String StatusSubmitted = ''SUBMITTED''"
| "OrderStatus_String StatusAccepted = ''ACCEPTED''"
| "OrderStatus_String StatusPartiallyFilled = ''PARTIALLY_FILLED''"
| "OrderStatus_String StatusFilled = ''FILLED''"
| "OrderStatus_String StatusCanceled = ''CANCELED''"
| "OrderStatus_String StatusRejected = ''REJECTED''"
| "OrderStatus_String StatusExpired = ''EXPIRED''"
| "OrderStatus_String StatusBlocked = ''BLOCKED''"
| "OrderStatus_String StatusReplaced = ''REPLACED''"
| "OrderStatus_String (StatusNum n) = sprintf_num ''OrderStatus'' n"

datatype held_phase = HeldWaiting | HeldWaitingQuote | HeldArmed | HeldPaused | HeldActivating
  | HeldWorking | HeldUnknown | HeldCancelRequested | HeldPhaseStr string

datatype action_kind = ActionSubmit | ActionCancel | ActionReplace | ActionKindStr string

datatype action_phase = ActionRequested | ActionConfirmed | ActionFailed | ActionUnknown
  | ActionPhaseStr string

section \<open>Records\<close>

record limit_cushion =
  lc_value :: f64
  lc_unit :: string

record trail_sessions =
  ts_pre :: bool
  ts_rth :: bool
  ts_post :: bool

record trail_config =
  tc_mode :: string
  tc_value :: f64
  tc_sessions :: trail_sessions
  tc_pricing :: string
  tc_cushion :: limit_cushion
  tc_quoteSide :: string
  tc_offset :: limit_cushion
  tc_timeframe :: string
  tc_buffer :: limit_cushion

record trail_candle =
  tk_afterSeq :: int
  tk_symbol :: string
  tk_timeframe :: string
  tk_startMs :: int
  tk_endMs :: int
  tk_low :: f64
  tk_high :: f64
  tk_verified :: bool

record trail_state =
  t_references :: "(string, trail_candle) gomap"
  t_positionCycle :: string
  t_floor :: f64
  t_config :: trail_config
  t_watermark :: f64
  t_stop :: f64
  t_limit :: f64
  t_triggered :: bool
  t_retired :: bool
  t_reservedQty :: f64
  t_reference :: "trail_candle option"

record held_order =
  h_trail :: "trail_state option"
  h_phase :: held_phase
  h_deadlineMs :: int
  h_resumeAfterMs :: int
  h_childClientID :: string
  h_childBrokerID :: string
  h_pausedReason :: string
  h_cancelRequested :: bool
  h_cancelSent :: bool
  h_resolvedQty :: f64

record order_action =
  a_kind :: action_kind
  a_phase :: action_phase
  a_previousLimitPrice :: f64
  a_previousStopPrice :: f64
  a_requestedLimitPrice :: f64
  a_requestedStopPrice :: f64
  a_requestedQty :: f64
  a_reason :: string

record risk_entry =
  re_sharedEntryID :: string
  re_addStopPrice :: f64
  re_stopApplied :: bool
  re_stopID :: string
  re_budget :: f64
  re_mode :: string
  re_buyCushion :: limit_cushion
  re_sellCushion :: limit_cushion
  re_closing :: bool
  re_protectionCanceled :: bool
  re_failure :: string
  re_flatConfirmedQty :: f64
  re_protection :: "trail_config option"
  re_retiredQty :: f64

record exec_order =
  o_venue :: venue_id
  o_id :: string
  o_symbol :: string
  o_side :: side
  o_type :: order_type
  o_tif :: tif
  o_session :: order_session
  o_qty :: f64
  o_deferredPositionPct :: f64
  o_limitPrice :: f64
  o_stopPrice :: f64
  o_status :: order_status
  o_executedQty :: f64
  o_leavesQty :: f64
  o_avgFillPrice :: f64
  o_rejectReason :: string
  o_replacesID :: string
  o_createdMs :: int
  o_updatedMs :: int
  o_held :: "held_order option"
  o_action :: "order_action option"
  o_riskEntry :: "risk_entry option"
  o_riskEntryID :: string

text \<open>\<open>Order{}\<close>: the zero value composite literals start from.\<close>

definition order0 :: exec_order where
  "order0 = \<lparr>o_venue = '''', o_id = '''', o_symbol = '''', o_side = SideBuy, o_type = TypeMarket,
     o_tif = TIFDay, o_session = SessionAuto, o_qty = 0, o_deferredPositionPct = 0,
     o_limitPrice = 0, o_stopPrice = 0, o_status = StatusSubmitted, o_executedQty = 0,
     o_leavesQty = 0, o_avgFillPrice = 0, o_rejectReason = '''', o_replacesID = '''',
     o_createdMs = 0, o_updatedMs = 0, o_held = None, o_action = None, o_riskEntry = None,
     o_riskEntryID = ''''\<rparr>"

definition status_working :: "order_status \<Rightarrow> bool" where
  "status_working st \<longleftrightarrow> st = StatusSubmitted \<or> st = StatusAccepted \<or> st = StatusPartiallyFilled"

definition Working :: "exec_order \<Rightarrow> bool" where
  "Working o1 \<longleftrightarrow> o_status o1 = StatusSubmitted \<or> o_status o1 = StatusAccepted \<or> o_status o1 = StatusPartiallyFilled"

record exec_fill =
  f_venue :: venue_id
  f_orderID :: string
  f_symbol :: string
  f_side :: side
  f_qty :: f64
  f_price :: f64
  f_tsMs :: int

record exec_position =
  p_venue :: venue_id
  p_symbol :: string
  p_qty :: f64
  p_avgPrice :: f64
  p_dayBasis :: f64
  p_openedMs :: int

definition position0 :: exec_position where
  "position0 = \<lparr>p_venue = '''', p_symbol = '''', p_qty = 0, p_avgPrice = 0, p_dayBasis = 0, p_openedMs = 0\<rparr>"

record account_snapshot =
  ac_venue :: venue_id
  ac_equity :: f64
  ac_buyingPower :: f64
  ac_availableCash :: f64
  ac_sodEquity :: f64
  ac_realized :: f64
  ac_dayPnL :: f64
  ac_netCashFlow :: f64
  ac_dayPnLSource :: string
  ac_dayPnLProvisional :: bool
  ac_leverage :: f64
  ac_tsMs :: int

definition account0 :: account_snapshot where
  "account0 = \<lparr>ac_venue = '''', ac_equity = 0, ac_buyingPower = 0, ac_availableCash = 0,
     ac_sodEquity = 0, ac_realized = 0, ac_dayPnL = 0, ac_netCashFlow = 0, ac_dayPnLSource = '''',
     ac_dayPnLProvisional = False, ac_leverage = 0, ac_tsMs = 0\<rparr>"

record order_request =
  r_venue :: venue_id
  r_symbol :: string
  r_side :: side
  r_type :: order_type
  r_tif :: tif
  r_session :: order_session
  r_qty :: f64
  r_limitPrice :: f64
  r_stopPrice :: f64
  r_clientOrderID :: string

record eligible_print =
  ep_symbol :: string
  ep_receiptMs :: int
  ep_price :: f64
  ep_tsMs :: int
  ep_recvTsMs :: int
  ep_seq :: int
  ep_gap :: bool

definition print0 :: eligible_print where
  "print0 = \<lparr>ep_symbol = '''', ep_receiptMs = 0, ep_price = 0, ep_tsMs = 0, ep_recvTsMs = 0, ep_seq = 0, ep_gap = False\<rparr>"

section \<open>Structural validation of requests\<close>

text \<open>\<open>validLimitIfTouchedPrice\<close>: positive, finite and within \<open>1e-7\<close> ticks of the tick grid.\<close>

definition tick_of :: "f64 \<Rightarrow> f64" where
  "tick_of price = (if price \<ge> 1 then fconst (1/100) else fconst (1/10000))"

definition validLimitIfTouchedPrice :: "f64 \<Rightarrow> bool" where
  "validLimitIfTouchedPrice price =
     (if price \<le> 0 \<or> is_nan price \<or> is_inf price then False
      else let tick = tick_of price; units = price / tick
           in abs (units - math_round units) \<le> fconst (1 / 10 ^ 7))"

datatype request_error =
    MissingVenue | MissingSymbol | LimitMissingLimit | StopMissingStop | StopLimitMissingStop
  | StopLimitMissingLimit | TouchedMissingTrigger | TouchedMissingLimit | QtyNotPositive f64

text \<open>\<open>None\<close> is the nil error.\<close>

definition ValidateStructure :: "order_request \<Rightarrow> request_error option" where
  "ValidateStructure r =
     (if r_venue r = '''' then Some MissingVenue
      else if r_symbol r = '''' then Some MissingSymbol
      else case r_type r of
        TypeLimit \<Rightarrow> if r_limitPrice r \<le> 0 then Some LimitMissingLimit else None
      | TypeStop \<Rightarrow> if r_stopPrice r \<le> 0 then Some StopMissingStop else None
      | TypeStopLimit \<Rightarrow>
          if r_stopPrice r \<le> 0 then Some StopLimitMissingStop
          else if r_limitPrice r \<le> 0 then Some StopLimitMissingLimit else None
      | TypeLimitIfTouched \<Rightarrow>
          if \<not> validLimitIfTouchedPrice (r_stopPrice r) then Some TouchedMissingTrigger
          else if \<not> validLimitIfTouchedPrice (r_limitPrice r) then Some TouchedMissingLimit
          else None
      | _ \<Rightarrow> None)"

definition Validate :: "order_request \<Rightarrow> request_error option" where
  "Validate r =
     (case ValidateStructure r of
        Some err \<Rightarrow> Some err
      | None \<Rightarrow> if r_qty r \<le> 0 then Some (QtyNotPositive (r_qty r)) else None)"

definition finitePositive :: "f64 \<Rightarrow> bool" where
  "finitePositive v \<longleftrightarrow> v > 0 \<and> \<not> is_nan v \<and> \<not> is_inf v"

section \<open>Side direction\<close>

definition longward :: "side \<Rightarrow> bool" where
  "longward sd \<longleftrightarrow> sd = SideBuy \<or> sd = SideCover"

definition sameDir :: "side \<Rightarrow> side \<Rightarrow> bool" where
  "sameDir a b \<longleftrightarrow> longward a = longward b"

section \<open>Orders from requests\<close>

definition newOrderFromRequest :: "order_request \<Rightarrow> int \<Rightarrow> exec_order" where
  "newOrderFromRequest req now = order0\<lparr>o_venue := r_venue req, o_id := r_clientOrderID req,
     o_symbol := r_symbol req, o_side := r_side req, o_type := r_type req, o_tif := r_tif req,
     o_session := r_session req, o_qty := r_qty req, o_limitPrice := r_limitPrice req,
     o_stopPrice := r_stopPrice req, o_status := StatusSubmitted, o_leavesQty := r_qty req,
     o_createdMs := now, o_updatedMs := now\<rparr>"

lemma newOrder_simps [simp]:
  "o_id (newOrderFromRequest req now) = r_clientOrderID req" "o_venue (newOrderFromRequest req now) = r_venue req"
  "o_symbol (newOrderFromRequest req now) = r_symbol req" "o_side (newOrderFromRequest req now) = r_side req"
  "o_qty (newOrderFromRequest req now) = r_qty req" "o_leavesQty (newOrderFromRequest req now) = r_qty req"
  "o_status (newOrderFromRequest req now) = StatusSubmitted" "o_executedQty (newOrderFromRequest req now) = 0"
  by (simp_all add: newOrderFromRequest_def order0_def)

section \<open>Facts\<close>

lemma show_nat_nonempty: "show_nat n \<noteq> []"
  by (subst show_nat.simps) auto

lemma finitePositive_iff: "finitePositive v \<longleftrightarrow> (\<exists>q > 0. v = Fin q)"
  by (cases v) (auto simp: finitePositive_def is_nan_def is_inf_def zero_f64_def less_f64.simps)

lemma validPrice_finitePositive: "validLimitIfTouchedPrice p \<Longrightarrow> finitePositive p"
  by (cases p) (auto simp: validLimitIfTouchedPrice_def finitePositive_def is_nan_def is_inf_def
      zero_f64_def Let_def split: if_splits)

lemma longward_simps [simp]:
  "longward SideBuy" "longward SideCover" "\<not> longward SideSell" "\<not> longward SideShort"
  "\<not> longward (SideNum n)"
  by (simp_all add: longward_def)

lemma Working_status: "Working o1 \<longleftrightarrow> status_working (o_status o1)"
  by (simp add: Working_def status_working_def)

lemma status_working_simps [simp]:
  "status_working StatusSubmitted" "status_working StatusAccepted"
  "status_working StatusPartiallyFilled" "\<not> status_working StatusFilled"
  "\<not> status_working StatusCanceled" "\<not> status_working StatusRejected"
  "\<not> status_working StatusExpired" "\<not> status_working StatusBlocked"
  "\<not> status_working StatusReplaced" "\<not> status_working (StatusNum n)"
  by (simp_all add: status_working_def)

lemma side_text_roundtrip:
  "sideFromString (Side_String s) = (if known_side s then (s, True) else (SideBuy, False))"
  by (cases s) (auto simp: sideFromString_def known_side_def sprintf_num_def)

lemma sideFromString_inverse:
  "sideFromString t = (s, True) \<Longrightarrow> Side_String s = t"
  by (auto simp: sideFromString_def split: if_splits)

text \<open>What a request that passes guarantees of its prices.\<close>

fun priced_ok :: "order_request \<Rightarrow> bool" where
  "priced_ok r = (case r_type r of
      TypeLimit \<Rightarrow> r_limitPrice r > 0
    | TypeStop \<Rightarrow> r_stopPrice r > 0
    | TypeStopLimit \<Rightarrow> r_stopPrice r > 0 \<and> r_limitPrice r > 0
    | TypeLimitIfTouched \<Rightarrow> validLimitIfTouchedPrice (r_stopPrice r) \<and> validLimitIfTouchedPrice (r_limitPrice r)
    | _ \<Rightarrow> True)"

lemma validate_sound:
  assumes "Validate r = None" "r_qty r \<noteq> NaN" "r_limitPrice r \<noteq> NaN" "r_stopPrice r \<noteq> NaN"
  shows "r_venue r \<noteq> '''' \<and> r_symbol r \<noteq> '''' \<and> r_qty r > 0 \<and> priced_ok r"
proof -
  have pos: "x \<noteq> NaN \<Longrightarrow> \<not> x \<le> 0 \<Longrightarrow> 0 < x" for x :: f64
    using f64_not_le[of x 0] by (simp add: zero_f64_def)
  show ?thesis using assms
    by (auto simp: Validate_def ValidateStructure_def split: option.splits if_splits order_type.splits
        intro: pos)
qed

text \<open>A buy stop-limit for 100 shares.\<close>

definition sample_request :: order_request where
  "sample_request = \<lparr>r_venue = ''sim'', r_symbol = ''AAPL'', r_side = SideBuy, r_type = TypeStopLimit,
     r_tif = TIFDay, r_session = SessionAuto, r_qty = Fin 100, r_limitPrice = Fin 11, r_stopPrice = Fin 10,
     r_clientOrderID = ''ET1''\<rparr>"

lemma validate_sound_witness:
  "r_qty sample_request > 0 \<and> priced_ok sample_request"
proof -
  have "Validate sample_request = None" by code_simp
  then show ?thesis using validate_sound[of sample_request] by (simp add: sample_request_def)
qed

end
