(* ===== verification/ExecState.thy ===== *)
theory ExecState
  imports ExecTypes
begin

text \<open>
  The execution state and its event log: \<open>events.go\<close>, \<open>state.go\<close>, \<open>reconcile.go\<close> and the
  \<open>RiskEntryChanged\<close> event of \<open>risk_entry.go\<close>. \<open>Apply\<close> folds one persisted event,
  \<open>Replay\<close> a whole log; the reconcile operations mirror what the broker reports. The state
  is passed explicitly; \<open>Venue\<close> returns the state in which the venue exists.
\<close>

section \<open>Events\<close>

datatype event_source = SrcLocal | SrcWS | SrcREST | SrcReconcile | SrcNum nat

fun Source_String :: "event_source \<Rightarrow> string" where
  "Source_String SrcLocal = ''local''"
| "Source_String SrcWS = ''ws''"
| "Source_String SrcREST = ''rest''"
| "Source_String SrcReconcile = ''reconcile''"
| "Source_String (SrcNum n) = sprintf_num ''Source'' n"

datatype event =
    RiskEntryChanged (rec_entry: exec_order) (rec_stop: exec_order)
  | OrderSubmitted exec_order
  | OrderAccepted venue_id string string int
  | OrderRejected venue_id string string int
  | OrderBlocked venue_id string order_request string int
  | OrderFilled exec_fill f64 f64 f64 string
  | OrderCanceled venue_id string int
  | OrderExpired venue_id string int
  | OrderReplaced venue_id string f64 f64 f64 int
  | HeldOrderChanged venue_id string held_order int
  | OrderActionChanged venue_id string order_action int
  | StreamGap venue_id int
  | FlattenPendingChanged venue_id bool int

fun Event_Kind :: "event \<Rightarrow> string" where
  "Event_Kind (RiskEntryChanged _ _) = ''risk_entry_changed''"
| "Event_Kind (OrderSubmitted _) = ''order_submitted''"
| "Event_Kind (OrderAccepted _ _ _ _) = ''order_accepted''"
| "Event_Kind (OrderRejected _ _ _ _) = ''order_rejected''"
| "Event_Kind (OrderBlocked _ _ _ _ _) = ''order_blocked''"
| "Event_Kind (OrderFilled _ _ _ _ _) = ''order_filled''"
| "Event_Kind (OrderCanceled _ _ _) = ''order_canceled''"
| "Event_Kind (OrderExpired _ _ _) = ''order_expired''"
| "Event_Kind (OrderReplaced _ _ _ _ _ _) = ''order_replaced''"
| "Event_Kind (HeldOrderChanged _ _ _ _) = ''held_order_changed''"
| "Event_Kind (OrderActionChanged _ _ _ _) = ''order_action_changed''"
| "Event_Kind (StreamGap _ _) = ''stream_gap''"
| "Event_Kind (FlattenPendingChanged _ _ _) = ''flatten_pending_changed''"

fun Event_Venue :: "event \<Rightarrow> venue_id" where
  "Event_Venue (RiskEntryChanged e _) = o_venue e"
| "Event_Venue (OrderSubmitted o1) = o_venue o1"
| "Event_Venue (OrderAccepted v _ _ _) = v"
| "Event_Venue (OrderRejected v _ _ _) = v"
| "Event_Venue (OrderBlocked v _ _ _ _) = v"
| "Event_Venue (OrderFilled f _ _ _ _) = f_venue f"
| "Event_Venue (OrderCanceled v _ _) = v"
| "Event_Venue (OrderExpired v _ _) = v"
| "Event_Venue (OrderReplaced v _ _ _ _ _) = v"
| "Event_Venue (HeldOrderChanged v _ _ _) = v"
| "Event_Venue (OrderActionChanged v _ _ _) = v"
| "Event_Venue (StreamGap v _) = v"
| "Event_Venue (FlattenPendingChanged v _ _) = v"

fun Event_OrderID :: "event \<Rightarrow> string" where
  "Event_OrderID (RiskEntryChanged e _) = o_id e"
| "Event_OrderID (OrderSubmitted o1) = o_id o1"
| "Event_OrderID (OrderAccepted _ i _ _) = i"
| "Event_OrderID (OrderRejected _ i _ _) = i"
| "Event_OrderID (OrderBlocked _ i _ _ _) = i"
| "Event_OrderID (OrderFilled f _ _ _ _) = f_orderID f"
| "Event_OrderID (OrderCanceled _ i _) = i"
| "Event_OrderID (OrderExpired _ i _) = i"
| "Event_OrderID (OrderReplaced _ i _ _ _ _) = i"
| "Event_OrderID (HeldOrderChanged _ i _ _) = i"
| "Event_OrderID (OrderActionChanged _ i _ _) = i"
| "Event_OrderID (StreamGap _ _) = ''''"
| "Event_OrderID (FlattenPendingChanged _ _ _) = ''''"

fun Event_TsMs :: "event \<Rightarrow> int" where
  "Event_TsMs (RiskEntryChanged e _) = o_updatedMs e"
| "Event_TsMs (OrderSubmitted o1) = o_updatedMs o1"
| "Event_TsMs (OrderAccepted _ _ _ ts) = ts"
| "Event_TsMs (OrderRejected _ _ _ ts) = ts"
| "Event_TsMs (OrderBlocked _ _ _ _ ts) = ts"
| "Event_TsMs (OrderFilled f _ _ _ _) = f_tsMs f"
| "Event_TsMs (OrderCanceled _ _ ts) = ts"
| "Event_TsMs (OrderExpired _ _ ts) = ts"
| "Event_TsMs (OrderReplaced _ _ _ _ _ ts) = ts"
| "Event_TsMs (HeldOrderChanged _ _ _ ts) = ts"
| "Event_TsMs (OrderActionChanged _ _ _ ts) = ts"
| "Event_TsMs (StreamGap _ ts) = ts"
| "Event_TsMs (FlattenPendingChanged _ _ ts) = ts"

record fill_row =
  fr_orderID :: string
  fr_symbol :: string
  fr_side :: string
  fr_qty :: f64
  fr_price :: f64
  fr_tsMs :: int
  fr_venue :: string

definition FillRowOf :: "event \<Rightarrow> fill_row option" where
  "FillRowOf ev = (case ev of
     OrderFilled f _ _ _ _ \<Rightarrow>
       Some \<lparr>fr_orderID = f_orderID f, fr_symbol = f_symbol f, fr_side = Side_String (f_side f),
             fr_qty = f_qty f, fr_price = f_price f, fr_tsMs = f_tsMs f, fr_venue = f_venue f\<rparr>
   | _ \<Rightarrow> None)"

record event_envelope =
  en_seq :: int
  en_tsMs :: int
  en_source :: string
  en_venue :: string
  en_orderID :: string
  en_kind :: string
  en_payload :: string

text \<open>
  The JSON library is a parameter: \<open>marshal\<close> serializes a value and \<open>unmarshal k\<close> parses
  into the Go struct that events of kind \<open>k\<close> have, each or an error message.
\<close>

definition EncodeEvent :: "(event \<Rightarrow> string + string) \<Rightarrow> event \<Rightarrow> string + (string \<times> string)" where
  "EncodeEvent marshal ev = (case marshal ev of
     Inl err \<Rightarrow> Inl (''exec: encode '' @ Event_Kind ev @ '': '' @ err)
   | Inr payload \<Rightarrow> Inr (Event_Kind ev, payload))"

definition wrap_decode :: "string \<Rightarrow> string + event \<Rightarrow> string + event" where
  "wrap_decode kind r = (case r of
     Inl err \<Rightarrow> Inl (''exec: decode '' @ kind @ '': '' @ err) | Inr v \<Rightarrow> Inr v)"

definition DecodeEvent :: "(string \<Rightarrow> string \<Rightarrow> string + event) \<Rightarrow> string \<Rightarrow> string \<Rightarrow> string + event" where
  "DecodeEvent unmarshal kind payload =
     (if kind = ''risk_entry_changed'' then unmarshal kind payload
      else if kind = ''order_submitted'' then wrap_decode kind (unmarshal kind payload)
      else if kind = ''order_accepted'' then wrap_decode kind (unmarshal kind payload)
      else if kind = ''order_rejected'' then wrap_decode kind (unmarshal kind payload)
      else if kind = ''order_blocked'' then wrap_decode kind (unmarshal kind payload)
      else if kind = ''order_filled'' then wrap_decode kind (unmarshal kind payload)
      else if kind = ''order_canceled'' then wrap_decode kind (unmarshal kind payload)
      else if kind = ''order_expired'' then wrap_decode kind (unmarshal kind payload)
      else if kind = ''order_replaced'' then wrap_decode kind (unmarshal kind payload)
      else if kind = ''held_order_changed'' then wrap_decode kind (unmarshal kind payload)
      else if kind = ''order_action_changed'' then wrap_decode kind (unmarshal kind payload)
      else if kind = ''stream_gap'' then wrap_decode kind (unmarshal kind payload)
      else if kind = ''flatten_pending_changed'' then wrap_decode kind (unmarshal kind payload)
      else Inl (''exec: unknown event kind '' @ kind))"

definition EnvelopeOf ::
  "(event \<Rightarrow> string + string) \<Rightarrow> (string \<Rightarrow> string) \<Rightarrow> event \<Rightarrow> event_source \<Rightarrow> int \<Rightarrow> event_envelope" where
  "EnvelopeOf marshal quote ev src seq =
     (let (kind, payload) = (case EncodeEvent marshal ev of
            Inl err \<Rightarrow> (Event_Kind ev, ''{'' @ quote ''encodeError'' @ '':'' @ quote err @ ''}'')
          | Inr kp \<Rightarrow> kp)
      in \<lparr>en_seq = seq, en_tsMs = Event_TsMs ev, en_source = Source_String src,
          en_venue = Event_Venue ev, en_orderID = Event_OrderID ev, en_kind = kind, en_payload = payload\<rparr>)"

section \<open>State\<close>

record venue_state =
  vs_orders :: "(string, exec_order) gomap"
  vs_externalOrders :: "(string, exec_order) gomap"
  vs_fills :: "exec_fill list"
  vs_positions :: "(string, exec_position) gomap"
  vs_positionsReady :: bool
  vs_flattenPending :: bool
  vs_account :: account_snapshot

definition newVenueState :: venue_state where
  "newVenueState = \<lparr>vs_orders = [], vs_externalOrders = [], vs_fills = [], vs_positions = [],
     vs_positionsReady = False, vs_flattenPending = False, vs_account = account0\<rparr>"

record exec_state =
  st_masterArmed :: bool
  st_activeVenue :: venue_id
  st_venues :: "(venue_id, venue_state) gomap"
  st_accountFresh :: "(venue_id, bool) gomap"
  st_orderIndex :: "(string, venue_id) gomap"

definition NewState :: "venue_id list \<Rightarrow> exec_state" where
  "NewState venues = \<lparr>st_masterArmed = False, st_activeVenue = '''',
     st_venues = foldl (\<lambda>m v. mput v newVenueState m) [] venues,
     st_accountFresh = [], st_orderIndex = []\<rparr>"

definition Venue :: "exec_state \<Rightarrow> venue_id \<Rightarrow> venue_state \<times> exec_state" where
  "Venue s v = (case mget (st_venues s) v of
     Some vs \<Rightarrow> (vs, s)
   | None \<Rightarrow> (newVenueState, s\<lparr>st_venues := mput v newVenueState (st_venues s)\<rparr>))"

definition OrderVenue :: "exec_state \<Rightarrow> string \<Rightarrow> venue_id option" where
  "OrderVenue s orderID = mget (st_orderIndex s) orderID"

text \<open>Writing back through the pointer \<open>Venue\<close> returned.\<close>

definition put_venue :: "venue_id \<Rightarrow> venue_state \<Rightarrow> exec_state \<Rightarrow> exec_state" where
  "put_venue v vs s = s\<lparr>st_venues := mput v vs (st_venues s)\<rparr>"

definition modify_venue :: "venue_id \<Rightarrow> (venue_state \<Rightarrow> venue_state) \<Rightarrow> exec_state \<Rightarrow> exec_state" where
  "modify_venue v f s = (case Venue s v of (vs, s1) \<Rightarrow> put_venue v (f vs) s1)"

definition put_order :: "exec_order \<Rightarrow> venue_id \<Rightarrow> string \<Rightarrow> exec_state \<Rightarrow> exec_state" where
  "put_order o1 v k s = modify_venue v (\<lambda>vs. vs\<lparr>vs_orders := mput k o1 (vs_orders vs)\<rparr>) s"

definition index_order :: "string \<Rightarrow> venue_id \<Rightarrow> exec_state \<Rightarrow> exec_state" where
  "index_order k v s = s\<lparr>st_orderIndex := mput k v (st_orderIndex s)\<rparr>"

definition confirmSubmitAction :: "exec_order \<Rightarrow> exec_order" where
  "confirmSubmitAction o1 = (case o_action o1 of
     Some a \<Rightarrow> if a_kind a = ActionSubmit \<and> (a_phase a = ActionRequested \<or> a_phase a = ActionUnknown)
       then o1\<lparr>o_action := Some (a\<lparr>a_phase := ActionConfirmed, a_reason := ''''\<rparr>)\<rparr> else o1
   | None \<Rightarrow> o1)"

text \<open>\<open>if o.Action != nil && o.Action.Kind == k && pending { Phase, Reason = CONFIRMED, "" }\<close>\<close>

definition confirm_action :: "action_kind \<Rightarrow> exec_order \<Rightarrow> exec_order" where
  "confirm_action k o1 = (case o_action o1 of
     Some a \<Rightarrow> if a_kind a = k \<and> (a_phase a = ActionRequested \<or> a_phase a = ActionUnknown)
       then o1\<lparr>o_action := Some (a\<lparr>a_phase := ActionConfirmed, a_reason := ''''\<rparr>)\<rparr> else o1
   | None \<Rightarrow> o1)"

text \<open>\<open>if o.Action != nil && Phase != CONFIRMED && Phase != FAILED { Phase, Reason = FAILED, why }\<close>\<close>

definition fail_action :: "string \<Rightarrow> exec_order \<Rightarrow> exec_order" where
  "fail_action why o1 = (case o_action o1 of
     Some a \<Rightarrow> if a_phase a \<noteq> ActionConfirmed \<and> a_phase a \<noteq> ActionFailed
       then o1\<lparr>o_action := Some (a\<lparr>a_phase := ActionFailed, a_reason := why\<rparr>)\<rparr> else o1
   | None \<Rightarrow> o1)"

definition mutate :: "venue_id \<Rightarrow> string \<Rightarrow> int \<Rightarrow> (exec_order \<Rightarrow> exec_order) \<Rightarrow> exec_state \<Rightarrow> exec_state" where
  "mutate v k ts fn s =
     (let (vs, s1) = Venue s v in
      case mget (vs_orders vs) k of
        None \<Rightarrow> s1
      | Some o1 \<Rightarrow> put_order ((fn o1)\<lparr>o_updatedMs := ts\<rparr>) v k s1)"

definition apply_replaced :: "f64 \<Rightarrow> f64 \<Rightarrow> f64 \<Rightarrow> exec_order \<Rightarrow> exec_order" where
  "apply_replaced newQty newLimit newStop o1 =
     (if \<not> Working o1 then o1
      else let qty = (if newQty \<le> 0 then o_qty o1 else newQty);
               o2 = o1\<lparr>o_qty := qty\<rparr>;
               o2 = (case o_held o2 of
                       Some h \<Rightarrow> if h_resolvedQty h > 0 then o2\<lparr>o_held := Some (h\<lparr>h_resolvedQty := qty\<rparr>)\<rparr> else o2
                     | None \<Rightarrow> o2);
               o2 = (if newLimit > 0 then o2\<lparr>o_limitPrice := newLimit\<rparr> else o2);
               o2 = (if newStop > 0 then o2\<lparr>o_stopPrice := newStop\<rparr> else o2);
               o2 = o2\<lparr>o_leavesQty := qty - o_executedQty o2, o_status := StatusAccepted\<rparr>
           in confirm_action ActionReplace o2)"

definition apply_held :: "held_order \<Rightarrow> exec_order \<Rightarrow> exec_order" where
  "apply_held held0 o1 =
     (let held = (case h_trail held0 of
                    Some t \<Rightarrow> if t_reservedQty t > 0 then held0\<lparr>h_resolvedQty := t_reservedQty t\<rparr> else held0
                  | None \<Rightarrow> held0);
          o2 = o1\<lparr>o_held := Some held\<rparr>;
          o2 = (case h_trail held of
                  Some t \<Rightarrow> o2\<lparr>o_stopPrice := t_stop t, o_limitPrice := t_limit t\<rparr>
                | None \<Rightarrow> o2)
      in if h_resolvedQty held > 0
         then let o3 = o2\<lparr>o_qty := h_resolvedQty held, o_leavesQty := h_resolvedQty held - o_executedQty o2\<rparr>
              in if o_leavesQty o3 < 0 then o3\<lparr>o_leavesQty := 0\<rparr> else o3
         else o2)"

definition apply_fill_order :: "f64 \<Rightarrow> f64 \<Rightarrow> f64 \<Rightarrow> int \<Rightarrow> exec_order \<Rightarrow> exec_order" where
  "apply_fill_order cum leaves avg ts o1 =
     (let o2 = confirmSubmitAction (o1\<lparr>o_executedQty := cum, o_leavesQty := leaves, o_avgFillPrice := avg\<rparr>);
          o2 = (if leaves \<le> 0 then o2\<lparr>o_status := StatusFilled\<rparr> else o2\<lparr>o_status := StatusPartiallyFilled\<rparr>)
      in o2\<lparr>o_updatedMs := ts\<rparr>)"

definition applyFill :: "exec_fill \<Rightarrow> f64 \<Rightarrow> f64 \<Rightarrow> f64 \<Rightarrow> exec_state \<Rightarrow> exec_state" where
  "applyFill f cum leaves avg s0 =
     (let s1 = modify_venue (f_venue f) (\<lambda>vs. vs\<lparr>vs_fills := vs_fills vs @ [f]\<rparr>) s0;
          (vs, s1) = Venue s1 (f_venue f);
          (o1, s2) = (case mget (vs_orders vs) (f_orderID f) of
             Some o1 \<Rightarrow> (o1, s1)
           | None \<Rightarrow> (order0\<lparr>o_venue := f_venue f, o_id := f_orderID f, o_symbol := f_symbol f,
                              o_side := f_side f, o_createdMs := f_tsMs f\<rparr>,
                      index_order (f_orderID f) (f_venue f) s1));
          o2 = apply_fill_order cum leaves avg (f_tsMs f) o1
      in put_order o2 (f_venue f) (o_id o2) s2)"

definition SetFlattenPending :: "venue_id \<Rightarrow> bool \<Rightarrow> exec_state \<Rightarrow> exec_state" where
  "SetFlattenPending v pending s = modify_venue v (\<lambda>vs. vs\<lparr>vs_flattenPending := pending\<rparr>) s"

definition record_order :: "exec_order \<Rightarrow> exec_state \<Rightarrow> exec_state" where
  "record_order o1 s = index_order (o_id o1) (o_venue o1) (put_order o1 (o_venue o1) (o_id o1) s)"

definition blocked_order :: "venue_id \<Rightarrow> string \<Rightarrow> order_request \<Rightarrow> string \<Rightarrow> int \<Rightarrow> exec_order" where
  "blocked_order v i req reason ts = order0\<lparr>o_venue := v, o_id := i, o_symbol := r_symbol req,
     o_side := r_side req, o_type := r_type req, o_tif := r_tif req, o_session := r_session req,
     o_qty := r_qty req, o_limitPrice := r_limitPrice req, o_stopPrice := r_stopPrice req,
     o_status := StatusBlocked, o_rejectReason := reason, o_createdMs := ts, o_updatedMs := ts\<rparr>"

fun Apply :: "exec_state \<Rightarrow> event \<Rightarrow> exec_state" where
  "Apply s (RiskEntryChanged entry stop) =
     foldl (\<lambda>s o1. if o_id o1 \<noteq> '''' then record_order o1 s else s) s [entry, stop]"
| "Apply s (OrderSubmitted o1) =
     record_order (if feq (o_leavesQty o1) 0 \<and> feq (o_executedQty o1) 0
                   then o1\<lparr>o_leavesQty := o_qty o1\<rparr> else o1) s"
| "Apply s (OrderBlocked v i req reason ts) =
     index_order i v (put_order (blocked_order v i req reason ts) v i s)"
| "Apply s (OrderAccepted v i _ ts) =
     mutate v i ts (\<lambda>o1. confirmSubmitAction (o1\<lparr>o_status := StatusAccepted\<rparr>)) s"
| "Apply s (OrderRejected v i reason ts) =
     mutate v i ts (\<lambda>o1. fail_action reason (o1\<lparr>o_status := StatusRejected, o_rejectReason := reason\<rparr>)) s"
| "Apply s (OrderFilled f cum leaves avg _) = applyFill f cum leaves avg s"
| "Apply s (OrderCanceled v i ts) =
     mutate v i ts (\<lambda>o1. confirm_action ActionCancel (confirmSubmitAction
       (if Working o1 then o1\<lparr>o_status := StatusCanceled\<rparr> else o1))) s"
| "Apply s (OrderExpired v i ts) =
     mutate v i ts (\<lambda>o1. fail_action ''order expired before action confirmation'' (confirmSubmitAction
       (if Working o1 then o1\<lparr>o_status := StatusExpired\<rparr> else o1))) s"
| "Apply s (OrderReplaced v i newQty newLimit newStop ts) =
     mutate v i ts (apply_replaced newQty newLimit newStop) s"
| "Apply s (HeldOrderChanged v i held ts) = mutate v i ts (apply_held held) s"
| "Apply s (OrderActionChanged v i action ts) = mutate v i ts (\<lambda>o1. o1\<lparr>o_action := Some action\<rparr>) s"
| "Apply s (StreamGap _ _) = s"
| "Apply s (FlattenPendingChanged v pending _) = SetFlattenPending v pending s"

definition Replay :: "event list \<Rightarrow> venue_id list \<Rightarrow> exec_state" where
  "Replay events venues = foldl Apply (NewState venues) events"

section \<open>Reading the state\<close>

definition venue_at :: "exec_state \<Rightarrow> venue_id \<Rightarrow> venue_state" where
  "venue_at s v = mget0 newVenueState (st_venues s) v"

definition order_at :: "exec_state \<Rightarrow> venue_id \<Rightarrow> string \<Rightarrow> exec_order option" where
  "order_at s v k = mget (vs_orders (venue_at s v)) k"

lemma fst_Venue [simp]: "fst (Venue s v) = venue_at s v"
  by (simp add: Venue_def venue_at_def mget0_def split: option.split)

lemma snd_Venue [simp]: "venue_at (snd (Venue s v)) v' = venue_at s v'"
  "st_orderIndex (snd (Venue s v)) = st_orderIndex s" "st_masterArmed (snd (Venue s v)) = st_masterArmed s"
  "st_accountFresh (snd (Venue s v)) = st_accountFresh s" "st_activeVenue (snd (Venue s v)) = st_activeVenue s"
  by (auto simp: Venue_def venue_at_def mget0_def split: option.split)

lemma case_Venue: "(case Venue s v of (vs, s1) \<Rightarrow> f vs s1) = f (venue_at s v) (snd (Venue s v))"
  by (simp add: case_prod_unfold)

lemma put_venue_simps [simp]:
  "venue_at (put_venue v vs s) v' = (if v' = v then vs else venue_at s v')"
  "st_orderIndex (put_venue v vs s) = st_orderIndex s" "st_masterArmed (put_venue v vs s) = st_masterArmed s"
  "st_accountFresh (put_venue v vs s) = st_accountFresh s" "st_activeVenue (put_venue v vs s) = st_activeVenue s"
  by (simp_all add: put_venue_def venue_at_def)

lemma modify_venue_simps [simp]:
  "venue_at (modify_venue v f s) v' = (if v' = v then f (venue_at s v) else venue_at s v')"
  "st_orderIndex (modify_venue v f s) = st_orderIndex s"
  "st_masterArmed (modify_venue v f s) = st_masterArmed s"
  "st_accountFresh (modify_venue v f s) = st_accountFresh s"
  "st_activeVenue (modify_venue v f s) = st_activeVenue s"
  by (simp_all add: modify_venue_def case_Venue)

lemma index_order_simps [simp]:
  "venue_at (index_order k v s) v' = venue_at s v'"
  "st_orderIndex (index_order k v s) = mput k v (st_orderIndex s)"
  "st_masterArmed (index_order k v s) = st_masterArmed s"
  "st_venues (index_order k v s) = st_venues s"
  "st_accountFresh (index_order k v s) = st_accountFresh s"
  "st_activeVenue (index_order k v s) = st_activeVenue s"
  by (simp_all add: index_order_def venue_at_def)

lemma put_order_simps [simp]:
  "venue_at (put_order o1 v k s) v' =
     (if v' = v then (venue_at s v)\<lparr>vs_orders := mput k o1 (vs_orders (venue_at s v))\<rparr> else venue_at s v')"
  "st_orderIndex (put_order o1 v k s) = st_orderIndex s"
  "st_masterArmed (put_order o1 v k s) = st_masterArmed s"
  "st_accountFresh (put_order o1 v k s) = st_accountFresh s"
  "st_activeVenue (put_order o1 v k s) = st_activeVenue s"
  by (simp_all add: put_order_def)

lemma order_at_index_order [simp]: "order_at (index_order k v s) v' k' = order_at s v' k'"
  by (simp add: order_at_def)

lemma order_at_put_order [simp]:
  "order_at (put_order o1 v k s) v' k' = (if v' = v \<and> k' = k then Some o1 else order_at s v' k')"
  by (simp add: order_at_def)

lemma order_at_snd_Venue [simp]: "order_at (snd (Venue s v)) v' k = order_at s v' k"
  by (simp add: order_at_def)

lemma mutate_unfold:
  "mutate v k ts fn s = (case order_at s v k of None \<Rightarrow> snd (Venue s v)
     | Some o1 \<Rightarrow> put_order ((fn o1)\<lparr>o_updatedMs := ts\<rparr>) v k (snd (Venue s v)))"
  by (simp add: mutate_def Let_def case_Venue order_at_def)

lemma order_at_mutate:
  "order_at (mutate v k ts fn s) v' k' =
     (if v' = v \<and> k' = k then map_option (\<lambda>o1. (fn o1)\<lparr>o_updatedMs := ts\<rparr>) (order_at s v k)
      else order_at s v' k')"
  by (auto simp: mutate_unfold split: option.split)

lemma mutate_simps [simp]:
  "st_orderIndex (mutate v k ts fn s) = st_orderIndex s"
  "st_masterArmed (mutate v k ts fn s) = st_masterArmed s"
  "vs_positions (venue_at (mutate v k ts fn s) v') = vs_positions (venue_at s v')"
  "vs_externalOrders (venue_at (mutate v k ts fn s) v') = vs_externalOrders (venue_at s v')"
  "vs_account (venue_at (mutate v k ts fn s) v') = vs_account (venue_at s v')"
  "vs_fills (venue_at (mutate v k ts fn s) v') = vs_fills (venue_at s v')"
  by (simp_all add: mutate_unfold split: option.split)

definition fill_stub :: "exec_fill \<Rightarrow> exec_order" where
  "fill_stub f = order0\<lparr>o_venue := f_venue f, o_id := f_orderID f, o_symbol := f_symbol f,
     o_side := f_side f, o_createdMs := f_tsMs f\<rparr>"

definition fill_base :: "exec_fill \<Rightarrow> exec_state \<Rightarrow> exec_order" where
  "fill_base f s = (case order_at s (f_venue f) (f_orderID f) of Some o1 \<Rightarrow> o1 | None \<Rightarrow> fill_stub f)"

lemma order_ids_kept [simp]:
  "o_id (confirmSubmitAction o1) = o_id o1" "o_venue (confirmSubmitAction o1) = o_venue o1"
  "o_id (confirm_action k o1) = o_id o1" "o_venue (confirm_action k o1) = o_venue o1"
  "o_id (fail_action why o1) = o_id o1" "o_venue (fail_action why o1) = o_venue o1"
  by (simp_all add: confirmSubmitAction_def confirm_action_def fail_action_def split: option.split)

lemma order_status_kept [simp]:
  "o_status (confirmSubmitAction o1) = o_status o1" "o_status (confirm_action k o1) = o_status o1"
  "o_status (fail_action why o1) = o_status o1"
  by (simp_all add: confirmSubmitAction_def confirm_action_def fail_action_def split: option.split)

lemma order_qty_kept [simp]:
  "o_qty (confirmSubmitAction o1) = o_qty o1" "o_qty (confirm_action k o1) = o_qty o1" "o_qty (fail_action why o1) = o_qty o1"
  "o_executedQty (confirmSubmitAction o1) = o_executedQty o1" "o_executedQty (confirm_action k o1) = o_executedQty o1"
  "o_executedQty (fail_action why o1) = o_executedQty o1"
  "o_leavesQty (confirmSubmitAction o1) = o_leavesQty o1" "o_leavesQty (confirm_action k o1) = o_leavesQty o1"
  "o_leavesQty (fail_action why o1) = o_leavesQty o1"
  by (simp_all add: confirmSubmitAction_def confirm_action_def fail_action_def split: option.split)

lemma apply_order_ids [simp]:
  "o_id (apply_replaced q l p o1) = o_id o1" "o_venue (apply_replaced q l p o1) = o_venue o1"
  "o_id (apply_held h o1) = o_id o1" "o_venue (apply_held h o1) = o_venue o1"
  "o_id (apply_fill_order c l a t o1) = o_id o1" "o_venue (apply_fill_order c l a t o1) = o_venue o1"
  by (simp_all add: apply_replaced_def apply_held_def apply_fill_order_def Let_def split: option.split)

lemma applyFill_unfold:
  "\<exists>s2. applyFill f cum leaves avg s =
      put_order (apply_fill_order cum leaves avg (f_tsMs f) (fill_base f s)) (f_venue f) (o_id (fill_base f s)) s2 \<and>
    (\<forall>v. venue_at s2 v = (if v = f_venue f then (venue_at s v)\<lparr>vs_fills := vs_fills (venue_at s v) @ [f]\<rparr> else venue_at s v)) \<and>
    st_orderIndex s2 = (if order_at s (f_venue f) (f_orderID f) = None
       then mput (f_orderID f) (f_venue f) (st_orderIndex s) else st_orderIndex s) \<and>
    st_masterArmed s2 = st_masterArmed s \<and> st_accountFresh s2 = st_accountFresh s \<and> st_activeVenue s2 = st_activeVenue s"
proof -
  define s1 where "s1 = snd (Venue (modify_venue (f_venue f) (\<lambda>vs. vs\<lparr>vs_fills := vs_fills vs @ [f]\<rparr>) s) (f_venue f))"
  define s2 where "s2 = (if order_at s (f_venue f) (f_orderID f) = None then index_order (f_orderID f) (f_venue f) s1 else s1)"
  have "applyFill f cum leaves avg s =
      put_order (apply_fill_order cum leaves avg (f_tsMs f) (fill_base f s)) (f_venue f) (o_id (fill_base f s)) s2"
    unfolding applyFill_def Let_def case_Venue s1_def[symmetric]
    by (cases "order_at s (f_venue f) (f_orderID f)")
      (simp_all add: s2_def fill_base_def fill_stub_def order_at_def)
  then show ?thesis by (intro exI[of _ s2]) (simp add: s2_def s1_def)
qed

section \<open>The well-formed state\<close>

definition venue_wf :: "venue_state \<Rightarrow> bool" where
  "venue_wf vs \<longleftrightarrow> keys_distinct (vs_orders vs) \<and> keys_distinct (vs_externalOrders vs) \<and> keys_distinct (vs_positions vs)"

text \<open>Every order sits under its own venue and ID, and the global index knows the ID.\<close>

definition state_wf :: "exec_state \<Rightarrow> bool" where
  "state_wf s \<longleftrightarrow> keys_distinct (st_venues s) \<and> keys_distinct (st_orderIndex s) \<and>
     (\<forall>v. venue_wf (venue_at s v)) \<and>
     (\<forall>v k o1. order_at s v k = Some o1 \<longrightarrow> o_id o1 = k \<and> o_venue o1 = v \<and> mhas (st_orderIndex s) k)"

lemma keys_distinct_Venue [simp]: "keys_distinct (st_venues s) \<Longrightarrow> keys_distinct (st_venues (snd (Venue s v)))"
  by (simp add: Venue_def split: option.split)

lemma keys_distinct_modify_venue [simp]:
  "keys_distinct (st_venues s) \<Longrightarrow> keys_distinct (st_venues (modify_venue v f s))"
  by (simp add: modify_venue_def put_venue_def case_Venue)

lemma keys_distinct_put_order [simp]:
  "keys_distinct (st_venues s) \<Longrightarrow> keys_distinct (st_venues (put_order o1 v k s))"
  by (simp add: put_order_def)

lemma venue_wf_put [simp]: "venue_wf vs \<Longrightarrow> venue_wf (vs\<lparr>vs_orders := mput k o1 (vs_orders vs)\<rparr>)"
  by (simp add: venue_wf_def)

lemma venue_wf_new [simp]: "venue_wf newVenueState"
  by (simp add: venue_wf_def newVenueState_def)

lemma wf_snd_Venue [inv_intros]: "state_wf s \<Longrightarrow> state_wf (snd (Venue s v))"
  by (simp add: state_wf_def)

lemma wf_modify_venue:
  assumes "state_wf s" "venue_wf (f (venue_at s v))" "vs_orders (f (venue_at s v)) = vs_orders (venue_at s v)"
  shows "state_wf (modify_venue v f s)"
proof -
  have "order_at (modify_venue v f s) v' k = order_at s v' k" for v' k
    using assms(3) by (simp add: order_at_def)
  then show ?thesis using assms(1,2) by (simp add: state_wf_def)
qed

lemma wf_venue: "state_wf s \<Longrightarrow> venue_wf (venue_at s v)"
  by (simp add: state_wf_def)

lemma wf_add_fill: "state_wf s \<Longrightarrow> state_wf (modify_venue v (\<lambda>vs. vs\<lparr>vs_fills := vs_fills vs @ [f]\<rparr>) s)"
  by (rule wf_modify_venue) (use wf_venue[of s v] in \<open>simp_all add: venue_wf_def\<close>)

lemma wf_SetFlattenPending: "state_wf s \<Longrightarrow> state_wf (SetFlattenPending v b s)"
  unfolding SetFlattenPending_def
  by (rule wf_modify_venue) (use wf_venue[of s v] in \<open>simp_all add: venue_wf_def\<close>)

lemma wf_put_order [inv_intros]:
  assumes "state_wf s" "o_id o1 = k" "o_venue o1 = v" "mhas (st_orderIndex s) k"
  shows "state_wf (put_order o1 v k s)"
  using assms by (simp add: state_wf_def)

lemma wf_index_order [inv_intros]: "state_wf s \<Longrightarrow> state_wf (index_order k v s)"
  by (auto simp: state_wf_def)

text \<open>\<open>Orders[k] = o; orderIndex[k] = v\<close>, the order the code writes them in.\<close>

lemma wf_put_index:
  assumes "state_wf s" "o_id o1 = k" "o_venue o1 = v"
  shows "state_wf (index_order k v (put_order o1 v k s))"
  using assms by (simp add: state_wf_def)

lemma wf_record_order [inv_intros]: "state_wf s \<Longrightarrow> state_wf (record_order o1 s)"
  unfolding record_order_def by (rule wf_put_index) simp_all

lemma wf_mutate [inv_intros]:
  assumes "state_wf s" "\<And>o1. o_id (fn o1) = o_id o1" "\<And>o1. o_venue (fn o1) = o_venue o1"
  shows "state_wf (mutate v k ts fn s)"
proof (cases "order_at s v k")
  case None
  then show ?thesis using assms(1) by (simp add: mutate_unfold wf_snd_Venue)
next
  case (Some o1)
  then have "o_id o1 = k" "o_venue o1 = v" "mhas (st_orderIndex s) k"
    using assms(1) by (simp_all add: state_wf_def)
  then show ?thesis using Some assms by (simp add: mutate_unfold wf_put_order wf_snd_Venue)
qed

lemma wf_applyFill [inv_intros]:
  assumes wf: "state_wf s" shows "state_wf (applyFill f cum leaves avg s)"
proof -
  define s2 where "s2 = (if order_at s (f_venue f) (f_orderID f) = None
      then index_order (f_orderID f) (f_venue f) (modify_venue (f_venue f) (\<lambda>vs. vs\<lparr>vs_fills := vs_fills vs @ [f]\<rparr>) s)
      else modify_venue (f_venue f) (\<lambda>vs. vs\<lparr>vs_fills := vs_fills vs @ [f]\<rparr>) s)"
  have V: "snd (Venue (modify_venue v g s) v) = modify_venue v g s" for v g
    by (simp add: modify_venue_def case_Venue put_venue_def Venue_def split: option.split)
  have s2: "state_wf s2" unfolding s2_def
    using wf by (simp add: wf_add_fill wf_index_order)
  have e: "applyFill f cum leaves avg s =
      put_order (apply_fill_order cum leaves avg (f_tsMs f) (fill_base f s)) (f_venue f) (o_id (fill_base f s)) s2"
    unfolding applyFill_def Let_def case_Venue V
    by (cases "order_at s (f_venue f) (f_orderID f)")
      (simp_all add: s2_def fill_base_def fill_stub_def order_at_def)
  have "o_id (fill_base f s) = f_orderID f" "o_venue (fill_base f s) = f_venue f" "mhas (st_orderIndex s2) (f_orderID f)"
    using wf by (auto simp: fill_base_def fill_stub_def state_wf_def s2_def split: option.split)
  then show ?thesis unfolding e using s2 by (intro wf_put_order) simp_all
qed

lemma wf_Apply: "state_wf s \<Longrightarrow> state_wf (Apply s ev)"
  by (cases ev) (auto simp: blocked_order_def
      intro!: wf_record_order wf_mutate wf_applyFill wf_put_index wf_SetFlattenPending)

lemma NewState_venue: "venue_at (NewState venues) v = newVenueState"
proof -
  have "(\<forall>v. mget0 newVenueState m v = newVenueState) \<Longrightarrow>
      mget0 newVenueState (foldl (\<lambda>m v. mput v newVenueState m) m venues) v = newVenueState" for m
    by (induction venues arbitrary: m) simp_all
  from this[of "[]"] show ?thesis by (simp add: venue_at_def NewState_def)
qed

lemma order_at_NewState [simp]: "order_at (NewState venues) v k = None"
  by (simp add: order_at_def NewState_venue newVenueState_def)

lemma wf_NewState: "state_wf (NewState venues)"
proof -
  have "keys_distinct m \<Longrightarrow> keys_distinct (foldl (\<lambda>m v. mput v newVenueState m) m venues)" for m :: "(venue_id, venue_state) gomap"
    by (induction venues arbitrary: m) (simp_all add: keys_distinct_put)
  from this[of "[]"] have "keys_distinct (st_venues (NewState venues))" by (simp add: NewState_def)
  moreover have "st_orderIndex (NewState venues) = []" by (simp add: NewState_def)
  ultimately show ?thesis by (simp add: state_wf_def NewState_venue)
qed

section \<open>The index only grows\<close>

definition index_grows :: "exec_state \<Rightarrow> exec_state \<Rightarrow> bool" where
  "index_grows s t \<longleftrightarrow> (\<forall>k. mhas (st_orderIndex s) k \<longrightarrow> mhas (st_orderIndex t) k)"

lemma index_record_order [simp]: "st_orderIndex (record_order o1 s) = mput (o_id o1) (o_venue o1) (st_orderIndex s)"
  by (simp add: record_order_def)

lemma index_applyFill:
  "mhas (st_orderIndex (applyFill f cum leaves avg s)) k \<longleftrightarrow>
     mhas (st_orderIndex s) k \<or> order_at s (f_venue f) (f_orderID f) = None \<and> k = f_orderID f"
proof -
  obtain s2 o2 where "applyFill f cum leaves avg s = put_order o2 (f_venue f) (o_id (fill_base f s)) s2"
    "st_orderIndex s2 = (if order_at s (f_venue f) (f_orderID f) = None
       then mput (f_orderID f) (f_venue f) (st_orderIndex s) else st_orderIndex s)"
    using applyFill_unfold by blast
  then show ?thesis by auto
qed

lemma index_grows_Apply: "index_grows s (Apply s ev)"
  by (cases ev) (auto simp: index_grows_def index_applyFill SetFlattenPending_def)

interpretation state_fold: event_fold Apply state_wf index_grows
proof unfold_locales
  show "index_grows s (Apply s e)" for s e by (rule index_grows_Apply)
qed (auto simp: wf_Apply index_grows_def)

section \<open>Properties of the fold\<close>

text \<open>The IDs an event brings into the index, and the orders it may write.\<close>

fun event_ids :: "event \<Rightarrow> string set" where
  "event_ids (RiskEntryChanged entry stop) = {o_id entry, o_id stop} - {''''}"
| "event_ids (OrderSubmitted o1) = {o_id o1}"
| "event_ids (OrderBlocked _ i _ _ _) = {i}"
| "event_ids (OrderFilled f _ _ _ _) = {f_orderID f}"
| "event_ids _ = {}"

fun event_touches :: "event \<Rightarrow> (venue_id \<times> string) set" where
  "event_touches (RiskEntryChanged entry stop) = {(o_venue entry, o_id entry), (o_venue stop, o_id stop)}"
| "event_touches (StreamGap _ _) = {}"
| "event_touches (FlattenPendingChanged _ _ _) = {}"
| "event_touches ev = {(Event_Venue ev, Event_OrderID ev)}"

lemma order_at_record_order [simp]:
  "order_at (record_order o1 s) v k = (if v = o_venue o1 \<and> k = o_id o1 then Some o1 else order_at s v k)"
  by (simp add: record_order_def)

lemma order_at_modify_venue:
  "vs_orders (f (venue_at s v)) = vs_orders (venue_at s v) \<Longrightarrow> order_at (modify_venue v f s) v' k = order_at s v' k"
  by (simp add: order_at_def)

lemma order_at_SetFlattenPending [simp]: "order_at (SetFlattenPending v b s) v' k = order_at s v' k"
  unfolding SetFlattenPending_def by (rule order_at_modify_venue) simp

lemma order_at_applyFill:
  assumes "state_wf s"
  shows "order_at (applyFill f cum leaves avg s) v k =
    (if v = f_venue f \<and> k = f_orderID f
     then Some (apply_fill_order cum leaves avg (f_tsMs f) (fill_base f s)) else order_at s v k)"
proof -
  obtain s2 where e: "applyFill f cum leaves avg s =
      put_order (apply_fill_order cum leaves avg (f_tsMs f) (fill_base f s)) (f_venue f) (o_id (fill_base f s)) s2"
    and v: "\<forall>v. venue_at s2 v = (if v = f_venue f then (venue_at s v)\<lparr>vs_fills := vs_fills (venue_at s v) @ [f]\<rparr> else venue_at s v)"
    using applyFill_unfold[of f cum leaves avg s] by blast
  have "o_id (fill_base f s) = f_orderID f"
    using assms by (auto simp: fill_base_def fill_stub_def state_wf_def split: option.split)
  moreover have "order_at s2 v k = order_at s v k" using v by (simp add: order_at_def)
  ultimately show ?thesis unfolding e by simp
qed

lemmas order_at_Apply = order_at_mutate order_at_applyFill

theorem replay_wf:
  "state_wf (Replay es venues)"
  unfolding Replay_def by (rule state_fold.inv_fold) (rule wf_NewState)

lemma index_Apply: "state_wf s \<Longrightarrow> k \<in> event_ids ev \<Longrightarrow> mhas (st_orderIndex (Apply s ev)) k"
  by (cases ev) (auto simp: index_applyFill state_wf_def split: if_splits)

theorem replay_remembers_ids:
  assumes "ev \<in> set es" "k \<in> event_ids ev"
  shows "OrderVenue (Replay es venues) k \<noteq> None"
proof -
  obtain t where "state_wf t" "index_grows (Apply t ev) (foldl Apply (NewState venues) es)"
    using state_fold.grows_from_event[OF wf_NewState assms(1)] by blast
  then show ?thesis using index_Apply[of t k ev] assms(2)
    by (auto simp: index_grows_def OrderVenue_def Replay_def mhas_def)
qed

theorem apply_frame:
  assumes "state_wf s" "(v, k) \<notin> event_touches ev"
  shows "order_at (Apply s ev) v k = order_at s v k"
  using assms by (cases ev) (auto simp: order_at_Apply)

definition same_order :: "exec_order option \<Rightarrow> exec_order option \<Rightarrow> bool" where
  "same_order a b = (map_option (\<lambda>o1. o1\<lparr>o_updatedMs := 0\<rparr>) a = map_option (\<lambda>o1. o1\<lparr>o_updatedMs := 0\<rparr>) b)"

text \<open>The action helpers touch nothing but the action.\<close>

definition conf_act :: "action_kind \<Rightarrow> order_action \<Rightarrow> order_action" where
  "conf_act k a = (if a_kind a = k \<and> (a_phase a = ActionRequested \<or> a_phase a = ActionUnknown)
     then a\<lparr>a_phase := ActionConfirmed, a_reason := ''''\<rparr> else a)"

definition fail_act :: "string \<Rightarrow> order_action \<Rightarrow> order_action" where
  "fail_act why a = (if a_phase a \<noteq> ActionConfirmed \<and> a_phase a \<noteq> ActionFailed
     then a\<lparr>a_phase := ActionFailed, a_reason := why\<rparr> else a)"

lemma action_helpers:
  "confirmSubmitAction o1 = o1\<lparr>o_action := map_option (conf_act ActionSubmit) (o_action o1)\<rparr>"
  "confirm_action k o1 = o1\<lparr>o_action := map_option (conf_act k) (o_action o1)\<rparr>"
  "fail_action why o1 = o1\<lparr>o_action := map_option (fail_act why) (o_action o1)\<rparr>"
  by (auto simp: confirmSubmitAction_def confirm_action_def fail_action_def conf_act_def fail_act_def
      split: option.split)

lemma conf_act_comm:
  "conf_act ActionSubmit (conf_act ActionCancel (conf_act ActionSubmit a)) = conf_act ActionCancel (conf_act ActionSubmit (conf_act ActionSubmit a))"
  "conf_act ActionSubmit (fail_act why (conf_act ActionSubmit a)) = fail_act why (conf_act ActionSubmit (conf_act ActionSubmit a))"
  by (auto simp: conf_act_def fail_act_def)

lemma apply_fill_order_filled:
  "leaves \<le> 0 \<Longrightarrow> apply_fill_order cum leaves avg t o1 =
     o1\<lparr>o_executedQty := cum, o_leavesQty := leaves, o_avgFillPrice := avg, o_status := StatusFilled,
        o_action := map_option (conf_act ActionSubmit) (o_action o1), o_updatedMs := t\<rparr>"
  by (simp add: apply_fill_order_def action_helpers Let_def)

text \<open>C11. A complete fill and a cancel or expiry of the same working order can arrive in either order: both leave the same order but for its update time, and it is filled.\<close>

theorem fill_wins_race:
  assumes wf: "state_wf s" and o1: "order_at s v k = Some o1" "Working o1"
    and f: "f_venue f = v" "f_orderID f = k" "leaves \<le> 0"
    and ev: "ev = OrderCanceled v k ts \<or> ev = OrderExpired v k ts"
  shows "same_order (order_at (Apply (Apply s ev) (OrderFilled f cum leaves avg px)) v k)
           (order_at (Apply (Apply s (OrderFilled f cum leaves avg px)) ev) v k) \<and>
    map_option o_status (order_at (Apply (Apply s ev) (OrderFilled f cum leaves avg px)) v k) = Some StatusFilled"
proof -
  have wf1: "state_wf (Apply s ev)" using wf by (rule wf_Apply)
  define F where "F = apply_fill_order cum leaves avg (f_tsMs f) o1"
  have F: "order_at (Apply s (OrderFilled f cum leaves avg px)) v k = Some F"
    using o1 f by (simp add: order_at_applyFill[OF wf] fill_base_def F_def)
  have W: "\<not> Working F" using f(3) by (simp add: F_def apply_fill_order_filled Working_status)
  obtain c where c: "order_at (Apply s ev) v k = Some c" using ev o1(1) by (auto simp: order_at_mutate)
  have l: "order_at (Apply (Apply s ev) (OrderFilled f cum leaves avg px)) v k =
      Some (apply_fill_order cum leaves avg (f_tsMs f) c)"
    using c f by (simp add: order_at_applyFill[OF wf1] fill_base_def)
  show ?thesis using ev
  proof
    assume e: "ev = OrderCanceled v k ts"
    have "c = (confirm_action ActionCancel (confirmSubmitAction (o1\<lparr>o_status := StatusCanceled\<rparr>)))\<lparr>o_updatedMs := ts\<rparr>"
      using c o1 by (simp add: e order_at_mutate)
    then show ?thesis unfolding l unfolding e using F W f(3)
      by (simp add: order_at_mutate same_order_def apply_fill_order_filled action_helpers F_def
          option.map_comp comp_def conf_act_comm)
  next
    assume e: "ev = OrderExpired v k ts"
    have "c = (fail_action ''order expired before action confirmation'' (confirmSubmitAction (o1\<lparr>o_status := StatusExpired\<rparr>)))\<lparr>o_updatedMs := ts\<rparr>"
      using c o1 by (simp add: e order_at_mutate)
    then show ?thesis unfolding l unfolding e using F W f(3)
      by (simp add: order_at_mutate same_order_def apply_fill_order_filled action_helpers F_def
          option.map_comp comp_def conf_act_comm)
  qed
qed

section \<open>Witnesses\<close>

text \<open>One venue, the sample order submitted, accepted, filled for 40 of its 100 shares.\<close>

definition sample_order :: exec_order where
  "sample_order = newOrderFromRequest sample_request 1000"

definition sample_fill :: "f64 \<Rightarrow> exec_fill" where
  "sample_fill q = \<lparr>f_venue = ''sim'', f_orderID = ''ET1'', f_symbol = ''AAPL'', f_side = SideBuy,
     f_qty = q, f_price = Fin 11, f_tsMs = 3000\<rparr>"

definition sample_log :: "event list" where
  "sample_log = [OrderSubmitted sample_order, OrderAccepted ''sim'' ''ET1'' ''b1'' 2000,
     OrderFilled (sample_fill (Fin 40)) (Fin 40) (Fin 60) (Fin 11) '''']"

lemma sample_working:
  "map_option (\<lambda>o1. (o_status o1, o_leavesQty o1)) (order_at (Replay sample_log [''sim'']) ''sim'' ''ET1'') =
     Some (StatusPartiallyFilled, Fin 60)"
  by code_simp

lemma replay_remembers_ids_witness: "OrderVenue (Replay sample_log [''sim'']) ''ET1'' \<noteq> None"
  by (rule replay_remembers_ids[of "OrderSubmitted sample_order"])
    (simp_all add: sample_log_def sample_order_def sample_request_def)

lemma apply_frame_witness:
  "order_at (Apply (Replay sample_log [''sim'']) (OrderCanceled ''sim'' ''ET2'' 4000)) ''sim'' ''ET1'' =
   order_at (Replay sample_log [''sim'']) ''sim'' ''ET1''"
  by (rule apply_frame[OF replay_wf]) simp

lemma fill_wins_race_witness:
  "map_option o_status (order_at (Apply (Apply (Replay sample_log [''sim'']) (OrderCanceled ''sim'' ''ET1'' 4000))
     (OrderFilled (sample_fill (Fin 60)) (Fin 100) 0 (Fin 11) '''')) ''sim'' ''ET1'') = Some StatusFilled"
proof -
  obtain o1 where o1: "order_at (Replay sample_log [''sim'']) ''sim'' ''ET1'' = Some o1" "Working o1"
    using sample_working by (auto simp: Working_def)
  show ?thesis
    using fill_wins_race[OF replay_wf o1, of "sample_fill (Fin 60)" 0 "OrderCanceled ''sim'' ''ET1'' 4000" 4000 "Fin 100" "Fin 11" "''''"]
    by (simp add: sample_fill_def zero_f64_def)
qed

end
