(* ===== verification/Reconcile.thy ===== *)
theory Reconcile
  imports ExecState
begin

text \<open>
  What the broker reports and what the gate and the cores ask of the state:
  \<open>internal/exec/reconcile.go\<close>. A \<open>range\<close> over a map is a pass over the association list,
  whose order is any order.
\<close>

section \<open>Operations\<close>

definition ReconcileAccount :: "account_snapshot \<Rightarrow> exec_state \<Rightarrow> exec_state" where
  "ReconcileAccount a s = modify_venue (ac_venue a) (\<lambda>vs. vs\<lparr>vs_account := a\<rparr>) s"

definition ReconcilePositions :: "venue_id \<Rightarrow> exec_position list \<Rightarrow> exec_state \<Rightarrow> exec_state" where
  "ReconcilePositions v ps s = modify_venue v (\<lambda>vs. vs\<lparr>vs_positions :=
     foldl (\<lambda>m p. mput (p_symbol p) (p\<lparr>p_venue := v\<rparr>) m) [] ps\<rparr>) s"

definition ReconcilePosition :: "exec_position \<Rightarrow> exec_state \<Rightarrow> exec_state" where
  "ReconcilePosition p s = modify_venue (p_venue p) (\<lambda>vs.
     if feq (p_qty p) 0 then vs\<lparr>vs_positions := mdel (p_symbol p) (vs_positions vs)\<rparr>
     else vs\<lparr>vs_positions := mput (p_symbol p) p (vs_positions vs)\<rparr>) s"

definition SetPositionsReady :: "venue_id \<Rightarrow> bool \<Rightarrow> exec_state \<Rightarrow> exec_state" where
  "SetPositionsReady v ready s = modify_venue v (\<lambda>vs. vs\<lparr>vs_positionsReady := ready\<rparr>) s"

definition PositionsReady :: "exec_state \<Rightarrow> venue_id \<Rightarrow> bool" where
  "PositionsReady s v = (case mget (st_venues s) v of Some vs \<Rightarrow> vs_positionsReady vs | None \<Rightarrow> False)"

definition adopt_order :: "venue_id \<Rightarrow> (string, exec_order) gomap \<Rightarrow> exec_order \<Rightarrow> exec_order" where
  "adopt_order v orders o0 =
     (let o1 = o0\<lparr>o_venue := v\<rparr>;
          o2 = (case mget orders (o_id o1) of
             Some parent \<Rightarrow> (case o_held parent of
               Some h \<Rightarrow>
                 let o2 = o1\<lparr>o_riskEntry := o_riskEntry parent, o_riskEntryID := o_riskEntryID parent,
                             o_type := o_type parent, o_stopPrice := o_stopPrice parent, o_held := o_held parent,
                             o_deferredPositionPct := o_deferredPositionPct parent\<rparr>
                 in if h_resolvedQty h > 0 then o2\<lparr>o_qty := o_qty parent\<rparr> else o2
             | None \<Rightarrow> o1)
           | None \<Rightarrow> o1)
      in case mget orders (o_id o2) of
           Some parent \<Rightarrow> (case o_action parent of Some _ \<Rightarrow> o2\<lparr>o_action := o_action parent\<rparr> | None \<Rightarrow> o2)
         | None \<Rightarrow> o2)"

definition ReconcileOpenOrders :: "venue_id \<Rightarrow> exec_order list \<Rightarrow> exec_state \<Rightarrow> exec_state" where
  "ReconcileOpenOrders v orders s =
     foldl (\<lambda>s o0. let o1 = adopt_order v (vs_orders (venue_at s v)) o0
                   in index_order (o_id o1) v (put_order o1 v (o_id o1) s))
       (snd (Venue s v)) orders"

definition ReconcileExternalOpenOrders :: "venue_id \<Rightarrow> exec_order list \<Rightarrow> exec_state \<Rightarrow> exec_state" where
  "ReconcileExternalOpenOrders v orders s = modify_venue v (\<lambda>vs. vs\<lparr>vs_externalOrders :=
     foldl (\<lambda>m o1. if o_id o1 = '''' \<or> \<not> Working o1 then m else mput (o_id o1) (o1\<lparr>o_venue := v\<rparr>) m) [] orders\<rparr>) s"

definition SetExternalOrder :: "venue_id \<Rightarrow> exec_order \<Rightarrow> bool \<Rightarrow> exec_state \<Rightarrow> exec_state" where
  "SetExternalOrder v ord working s = modify_venue v (\<lambda>vs.
     if o_id ord = '''' then vs
     else if \<not> working then vs\<lparr>vs_externalOrders := mdel (o_id ord) (vs_externalOrders vs)\<rparr>
     else vs\<lparr>vs_externalOrders := mput (o_id ord) (ord\<lparr>o_venue := v\<rparr>) (vs_externalOrders vs)\<rparr>) s"

definition SetMasterArmed :: "bool \<Rightarrow> exec_state \<Rightarrow> exec_state" where
  "SetMasterArmed on s = s\<lparr>st_masterArmed := on\<rparr>"

definition SetActiveVenue :: "venue_id \<Rightarrow> exec_state \<Rightarrow> exec_state" where
  "SetActiveVenue v s = s\<lparr>st_activeVenue := v\<rparr>"

definition SetAccountFresh :: "venue_id \<Rightarrow> bool \<Rightarrow> exec_state \<Rightarrow> exec_state" where
  "SetAccountFresh v fresh s = s\<lparr>st_accountFresh := mput v fresh (st_accountFresh s)\<rparr>"

definition IsArmed :: "exec_state \<Rightarrow> venue_id \<Rightarrow> bool" where
  "IsArmed s v \<longleftrightarrow> st_masterArmed s \<and> mhas (st_venues s) v"

section \<open>Queries\<close>

definition VenuePositionShares :: "exec_state \<Rightarrow> venue_id \<Rightarrow> string \<Rightarrow> f64" where
  "VenuePositionShares s v symbol = (case mget (st_venues s) v of
     None \<Rightarrow> 0 | Some vs \<Rightarrow> p_qty (mget0 position0 (vs_positions vs) symbol))"

definition SymbolNetShares :: "exec_state \<Rightarrow> string \<Rightarrow> f64" where
  "SymbolNetShares s symbol =
     fsum (map (\<lambda>(_, vs). p_qty (mget0 position0 (vs_positions vs) symbol)) (st_venues s))"

definition VenueWorkingSameDir :: "exec_state \<Rightarrow> venue_id \<Rightarrow> string \<Rightarrow> side \<Rightarrow> f64" where
  "VenueWorkingSameDir s v symbol sd = (case mget (st_venues s) v of
     None \<Rightarrow> 0
   | Some vs \<Rightarrow> fsum (map o_leavesQty (filter (\<lambda>o1. o_symbol o1 = symbol \<and> Working o1 \<and> sameDir (o_side o1) sd)
       (map snd (vs_orders vs)))))"

definition reducingCommitmentLeaves :: "exec_order \<Rightarrow> side \<Rightarrow> f64" where
  "reducingCommitmentLeaves o1 sd =
     (if longward (o_side o1) \<noteq> longward sd \<or> \<not> Working o1 then 0
      else if (case o_held o1 of
                 Some h \<Rightarrow> h_childClientID h = '''' \<and>
                   (h_phase h = HeldWaiting \<or> h_phase h = HeldArmed \<or> h_phase h = HeldPaused)
               | None \<Rightarrow> False) then 0
      else let leaves = o_leavesQty o1;
               leaves = (case o_action o1 of
                   Some a \<Rightarrow> if a_kind a = ActionReplace \<and> (a_phase a = ActionRequested \<or> a_phase a = ActionUnknown)
                     then let requested = a_requestedQty a - o_executedQty o1
                          in if requested > leaves then requested else leaves
                     else leaves
                 | None \<Rightarrow> leaves)
           in if leaves > 0 then leaves else 0)"

definition sellCommitmentLeaves :: "exec_order \<Rightarrow> f64" where
  "sellCommitmentLeaves o1 = reducingCommitmentLeaves o1 SideSell"

definition VenueReducingCommittedShares :: "exec_state \<Rightarrow> venue_id \<Rightarrow> string \<Rightarrow> side \<Rightarrow> string \<Rightarrow> f64" where
  "VenueReducingCommittedShares s v symbol sd excludeID = (case mget (st_venues s) v of
     None \<Rightarrow> 0
   | Some vs \<Rightarrow> fsum (
       map (\<lambda>(_, o1). reducingCommitmentLeaves o1 sd)
         (filter (\<lambda>(k, o1). k \<noteq> excludeID \<and> o_symbol o1 = symbol) (vs_orders vs)) @
       map (\<lambda>(_, o1). reducingCommitmentLeaves o1 sd)
         (filter (\<lambda>(_, o1). o_symbol o1 = symbol) (vs_externalOrders vs))))"

definition VenueSellCommittedShares :: "exec_state \<Rightarrow> venue_id \<Rightarrow> string \<Rightarrow> string \<Rightarrow> f64" where
  "VenueSellCommittedShares s v symbol excludeID = VenueReducingCommittedShares s v symbol SideSell excludeID"

definition VenueHasSellCommitments :: "exec_state \<Rightarrow> venue_id \<Rightarrow> bool" where
  "VenueHasSellCommitments s v = (case mget (st_venues s) v of
     None \<Rightarrow> False
   | Some vs \<Rightarrow> list_ex (\<lambda>(_, o1). sellCommitmentLeaves o1 > 0) (vs_orders vs) \<or>
               list_ex (\<lambda>(_, o1). sellCommitmentLeaves o1 > 0) (vs_externalOrders vs))"

text \<open>The call of \<open>s.Venue(v)\<close> may create the venue; the state it leaves is returned too.\<close>

definition VenueHasReducingCommitments :: "exec_state \<Rightarrow> venue_id \<Rightarrow> bool \<times> exec_state" where
  "VenueHasReducingCommitments s v =
     (let (vs, s1) = Venue s v in
      (list_ex (\<lambda>(symbol, p). \<not> feq (p_qty p) 0 \<and>
          VenueReducingCommittedShares s1 v symbol (if p_qty p < 0 then SideCover else SideSell) '''' > 0)
         (vs_positions vs), s1))"

definition FlattenReconciled :: "exec_state \<Rightarrow> venue_id \<Rightarrow> bool" where
  "FlattenReconciled s v = (case mget (st_venues s) v of
     None \<Rightarrow> False
   | Some vs \<Rightarrow> vs_positionsReady vs \<and>
       list_all (\<lambda>(_, p). \<not> (p_qty p > fconst (1 / 10 ^ 9) \<or> p_qty p < fconst (- 1 / 10 ^ 9))) (vs_positions vs))"

definition SymbolWorkingSameDir :: "exec_state \<Rightarrow> string \<Rightarrow> side \<Rightarrow> f64" where
  "SymbolWorkingSameDir s symbol sd = fsum (map (\<lambda>(v, _). VenueWorkingSameDir s v symbol sd) (st_venues s))"

definition TotalDayPnL :: "exec_state \<Rightarrow> f64" where
  "TotalDayPnL s = fsum (map (\<lambda>(_, vs). ac_dayPnL (vs_account vs)) (st_venues s))"

section \<open>The invariant survives reconciliation\<close>

lemma wf_ReconcileAccount [inv_intros]: "state_wf s \<Longrightarrow> state_wf (ReconcileAccount a s)"
  unfolding ReconcileAccount_def
  by (rule wf_modify_venue) (use wf_venue[of s "ac_venue a"] in \<open>simp_all add: venue_wf_def\<close>)

lemma keys_distinct_foldl_mput [simp]:
  "keys_distinct m \<Longrightarrow> keys_distinct (foldl (\<lambda>m p. mput (f p) (g p) m) m ps)"
  by (induction ps arbitrary: m) (simp_all add: keys_distinct_put)

lemma keys_distinct_foldl_mput_if [simp]:
  "keys_distinct m \<Longrightarrow> keys_distinct (foldl (\<lambda>m p. if c p then m else mput (f p) (g p) m) m ps)"
  by (induction ps arbitrary: m) (simp_all add: keys_distinct_put)

lemma wf_ReconcilePositions [inv_intros]: "state_wf s \<Longrightarrow> state_wf (ReconcilePositions v ps s)"
  unfolding ReconcilePositions_def
  by (rule wf_modify_venue) (use wf_venue[of s v] in \<open>simp_all add: venue_wf_def\<close>)

lemma wf_ReconcilePosition [inv_intros]: "state_wf s \<Longrightarrow> state_wf (ReconcilePosition p s)"
  unfolding ReconcilePosition_def
  by (rule wf_modify_venue) (use wf_venue[of s "p_venue p"] in \<open>simp_all add: venue_wf_def\<close>)

lemma wf_SetPositionsReady [inv_intros]: "state_wf s \<Longrightarrow> state_wf (SetPositionsReady v b s)"
  unfolding SetPositionsReady_def
  by (rule wf_modify_venue) (use wf_venue[of s v] in \<open>simp_all add: venue_wf_def\<close>)

lemma wf_ReconcileExternal [inv_intros]:
  "state_wf s \<Longrightarrow> state_wf (ReconcileExternalOpenOrders v os s)"
  "state_wf s \<Longrightarrow> state_wf (SetExternalOrder v ord working s)"
  unfolding ReconcileExternalOpenOrders_def SetExternalOrder_def
  by (rule wf_modify_venue; use wf_venue[of s v] in \<open>simp add: venue_wf_def\<close>)+

lemma adopt_order_ids [simp]: "o_id (adopt_order v os o1) = o_id o1" "o_venue (adopt_order v os o1) = v"
  by (simp_all add: adopt_order_def Let_def split: option.split)

lemma wf_ReconcileOpenOrders [inv_intros]: "state_wf s \<Longrightarrow> state_wf (ReconcileOpenOrders v os s)"
  unfolding ReconcileOpenOrders_def
proof (induction os rule: rev_induct)
  case Nil
  then show ?case by (simp add: wf_snd_Venue)
next
  case (snoc x os)
  then show ?case by (simp add: Let_def wf_put_index)
qed

lemma wf_switches [inv_intros]:
  "state_wf s \<Longrightarrow> state_wf (SetMasterArmed b s)" "state_wf s \<Longrightarrow> state_wf (SetActiveVenue v s)"
  "state_wf s \<Longrightarrow> state_wf (SetAccountFresh v b s)"
  by (simp_all add: state_wf_def SetMasterArmed_def SetActiveVenue_def SetAccountFresh_def venue_at_def order_at_def)

section \<open>Properties\<close>

lemma adopt_held:
  assumes "mget orders (o_id o1) = Some parent" "o_held parent = Some h"
  shows "o_held (adopt_order v orders o1) = Some h \<and> o_type (adopt_order v orders o1) = o_type parent \<and>
    o_stopPrice (adopt_order v orders o1) = o_stopPrice parent \<and>
    o_riskEntry (adopt_order v orders o1) = o_riskEntry parent \<and>
    o_riskEntryID (adopt_order v orders o1) = o_riskEntryID parent"
  using assms by (simp add: adopt_order_def Let_def split: option.split)

lemma adopt_action:
  assumes "mget orders (o_id o1) = Some parent" "o_action parent = Some a"
  shows "o_action (adopt_order v orders o1) = Some a"
  using assms by (simp add: adopt_order_def Let_def split: option.split)

lemma adopt_reported [simp]:
  "o_status (adopt_order v orders o1) = o_status o1" "o_executedQty (adopt_order v orders o1) = o_executedQty o1"
  "o_leavesQty (adopt_order v orders o1) = o_leavesQty o1" "o_limitPrice (adopt_order v orders o1) = o_limitPrice o1"
  by (simp_all add: adopt_order_def Let_def split: option.split)

lemma adopt_order_local:
  "mget orders (o_id o1) = mget orders' (o_id o1) \<Longrightarrow> adopt_order v orders o1 = adopt_order v orders' o1"
  by (simp add: adopt_order_def Let_def split: option.split)

lemma reconcile_open_orders_at:
  assumes "distinct (map o_id os)"
  shows "order_at (ReconcileOpenOrders v os s) v' k =
    (if v' = v then (case mget (map (\<lambda>o1. (o_id o1, o1)) os) k of
        Some o1 \<Rightarrow> Some (adopt_order v (vs_orders (venue_at s v)) o1)
      | None \<Rightarrow> order_at s v k)
     else order_at s v' k)"
  using assms
proof (induction os arbitrary: v' k rule: rev_induct)
  case Nil
  then show ?case by (simp add: ReconcileOpenOrders_def)
next
  case (snoc x os)
  let ?s = "ReconcileOpenOrders v os s"
  have step: "ReconcileOpenOrders v (os @ [x]) s =
      index_order (o_id x) v (put_order (adopt_order v (vs_orders (venue_at ?s v)) x) v (o_id x) ?s)"
    by (simp add: ReconcileOpenOrders_def Let_def)
  have nin: "mget (map (\<lambda>o1. (o_id o1, o1)) os) (o_id x) = None"
    using snoc.prems by (auto simp: map_of_eq_None_iff)
  then have "order_at ?s v (o_id x) = order_at s v (o_id x)" using snoc.IH[of v "o_id x"] snoc.prems by simp
  then have "adopt_order v (vs_orders (venue_at ?s v)) x = adopt_order v (vs_orders (venue_at s v)) x"
    by (intro adopt_order_local) (simp add: order_at_def)
  then show ?case unfolding step using snoc nin by (auto simp: map_add_Some_iff map_add_def split: option.split)
qed

text \<open>C15. Adopting the broker's open orders keeps the engine's custody of a held parent (held state, type, stop, risk links, pending action) and takes status, executed and remaining quantities from the broker.\<close>

theorem custody_survives_reconnect:
  assumes "distinct (map o_id os)" "o1 \<in> set os" "order_at s v (o_id o1) = Some parent" "o_held parent = Some h"
  shows "\<exists>o2. order_at (ReconcileOpenOrders v os s) v (o_id o1) = Some o2 \<and>
    o_held o2 = Some h \<and> o_type o2 = o_type parent \<and> o_stopPrice o2 = o_stopPrice parent \<and>
    o_riskEntryID o2 = o_riskEntryID parent \<and> o_riskEntry o2 = o_riskEntry parent \<and>
    o_status o2 = o_status o1 \<and> o_executedQty o2 = o_executedQty o1 \<and> o_leavesQty o2 = o_leavesQty o1 \<and>
    (o_action parent \<noteq> None \<longrightarrow> o_action o2 = o_action parent)"
proof -
  have "mget (map (\<lambda>o1. (o_id o1, o1)) os) (o_id o1) = Some o1"
    using assms(1,2) by (auto intro!: map_of_is_SomeI simp: comp_def)
  then have "order_at (ReconcileOpenOrders v os s) v (o_id o1) = Some (adopt_order v (vs_orders (venue_at s v)) o1)"
    using reconcile_open_orders_at[OF assms(1), of v s v "o_id o1"] by simp
  then show ?thesis
    using adopt_held[of "vs_orders (venue_at s v)" o1 parent h v] assms(3,4)
      adopt_action[of "vs_orders (venue_at s v)" o1 parent _ v]
    by (auto simp: order_at_def)
qed

text \<open>What a commitment can be: nothing for the other direction, for an order that is done, and
  for a local parent that waits; otherwise the larger of the leaves and a pending resize.\<close>

lemma commitment_nonneg: "0 \<le> reducingCommitmentLeaves o1 sd"
  using f64_less_imp_le by (auto simp: reducingCommitmentLeaves_def Let_def zero_f64_def split: option.split)

definition order_ok :: "exec_order \<Rightarrow> bool" where
  "order_ok o1 \<longleftrightarrow> f64_ok (o_leavesQty o1) \<and> f64_ok (o_executedQty o1) \<and>
     (case o_action o1 of None \<Rightarrow> True | Some a \<Rightarrow> f64_ok (a_requestedQty a))"

lemma commitment_ok: "order_ok o1 \<Longrightarrow> f64_ok (reducingCommitmentLeaves o1 sd)"
  by (auto simp: reducingCommitmentLeaves_def order_ok_def Let_def split: option.splits)

lemma pos_iff: "0 \<le> x \<Longrightarrow> 0 < x \<longleftrightarrow> x \<noteq> 0" for x :: f64
  by (cases x) (auto simp: zero_f64_def)

theorem sell_commitments_agree:
  assumes "mget (st_venues s) v = Some vs"
    and "\<forall>(k, o1) \<in> set (vs_orders vs) \<union> set (vs_externalOrders vs). order_ok o1"
    and "\<forall>(k, o1) \<in> set (vs_orders vs). k \<noteq> ''''"
  shows "VenueHasSellCommitments s v \<longleftrightarrow> (\<exists>symbol. VenueSellCommittedShares s v symbol '''' > 0)"
proof -
  let ?xs = "\<lambda>symbol. map (\<lambda>(_, o1). reducingCommitmentLeaves o1 SideSell)
         (filter (\<lambda>(k, o1). k \<noteq> '''' \<and> o_symbol o1 = symbol) (vs_orders vs)) @
       map (\<lambda>(_, o1). reducingCommitmentLeaves o1 SideSell)
         (filter (\<lambda>(_, o1). o_symbol o1 = symbol) (vs_externalOrders vs))"
  have shares: "VenueSellCommittedShares s v symbol '''' = fsum (?xs symbol)" for symbol
    using assms(1) by (simp add: VenueSellCommittedShares_def VenueReducingCommittedShares_def)
  have ok: "\<forall>x \<in> set (?xs symbol). 0 \<le> x \<and> f64_ok x" for symbol
    using assms(2) by (auto intro!: commitment_nonneg commitment_ok)
  have any: "VenueHasSellCommitments s v \<longleftrightarrow> (\<exists>symbol. \<exists>x \<in> set (?xs symbol). x > 0)"
    using assms(1,3) by (fastforce simp: VenueHasSellCommitments_def sellCommitmentLeaves_def list_ex_iff)
  have "fsum (?xs symbol) > 0 \<longleftrightarrow> (\<exists>x \<in> set (?xs symbol). x > 0)" for symbol
  proof
    assume "\<exists>x \<in> set (?xs symbol). x > 0"
    then show "fsum (?xs symbol) > 0"
      using fsum_nonneg(2)[OF ok] f64_less_le_trans by blast
  next
    assume pos: "fsum (?xs symbol) > 0"
    show "\<exists>x \<in> set (?xs symbol). x > 0"
    proof (rule ccontr)
      assume "\<not> (\<exists>x \<in> set (?xs symbol). x > 0)"
      then have "\<forall>x \<in> set (?xs symbol). x = 0" using ok[of symbol] pos_iff by blast
      then show False using pos fsum_zeros[of "?xs symbol"] by (simp add: zero_f64_def)
    qed
  qed
  then show ?thesis unfolding any shares by simp
qed

theorem positions_mirror_snapshot:
  assumes "distinct (map p_symbol ps)"
  shows "VenuePositionShares (ReconcilePositions v ps s) v symbol =
      (case mget (map (\<lambda>p. (p_symbol p, p)) ps) symbol of Some p \<Rightarrow> p_qty p | None \<Rightarrow> 0) \<and>
    (v' \<noteq> v \<longrightarrow> VenuePositionShares (ReconcilePositions v ps s) v' symbol = VenuePositionShares s v' symbol) \<and>
    order_at (ReconcilePositions v ps s) v' k = order_at s v' k"
proof -
  have shares: "VenuePositionShares t u symbol = p_qty (mget0 position0 (vs_positions (venue_at t u)) symbol)" for t u
    by (simp add: VenuePositionShares_def venue_at_def mget0_def newVenueState_def position0_def split: option.split)
  have "distinct (map p_symbol ps) \<Longrightarrow> mget (foldl (\<lambda>m p. mput (p_symbol p) (p\<lparr>p_venue := v\<rparr>) m) m ps) k =
      (case mget (map (\<lambda>p. (p_symbol p, p)) ps) k of Some p \<Rightarrow> Some (p\<lparr>p_venue := v\<rparr>) | None \<Rightarrow> mget m k)" for m k
  proof (induction ps arbitrary: m)
    case (Cons p ps)
    moreover have "mget (map (\<lambda>p. (p_symbol p, p)) ps) (p_symbol p) = None"
      using Cons.prems by (auto simp: map_of_eq_None_iff)
    ultimately show ?case by (auto split: option.split)
  qed simp
  then have "p_qty (mget0 position0 (vs_positions (venue_at (ReconcilePositions v ps s) v)) symbol) =
      (case mget (map (\<lambda>p. (p_symbol p, p)) ps) symbol of Some p \<Rightarrow> p_qty p | None \<Rightarrow> 0)"
    using assms by (simp add: ReconcilePositions_def mget0_def position0_def split: option.split)
  then show ?thesis by (simp add: shares) (simp add: ReconcilePositions_def order_at_def)
qed

section \<open>Witnesses\<close>

definition held0 :: held_order where
  "held0 = \<lparr>h_trail = None, h_phase = HeldArmed, h_deadlineMs = 9000, h_resumeAfterMs = 0, h_childClientID = '''',
     h_childBrokerID = '''', h_pausedReason = '''', h_cancelRequested = False, h_cancelSent = False, h_resolvedQty = 0\<rparr>"

lemma custody_survives_reconnect_witness:
  "\<exists>o2. order_at (ReconcileOpenOrders ''sim'' [sample_order\<lparr>o_status := StatusAccepted\<rparr>]
      (Apply (Replay sample_log [''sim'']) (HeldOrderChanged ''sim'' ''ET1'' held0 4000))) ''sim'' ''ET1'' = Some o2 \<and>
    o_held o2 = Some held0 \<and> o_status o2 = StatusAccepted"
proof -
  let ?s = "Apply (Replay sample_log [''sim'']) (HeldOrderChanged ''sim'' ''ET1'' held0 4000)"
  let ?o = "sample_order\<lparr>o_status := StatusAccepted\<rparr>"
  have id: "o_id ?o = ''ET1''" by (simp add: sample_order_def sample_request_def)
  obtain p where p: "order_at ?s ''sim'' ''ET1'' = Some p" "o_held p = Some held0"
    using sample_working by (auto simp: order_at_mutate apply_held_def held0_def Let_def zero_f64_def)
  show ?thesis using custody_survives_reconnect[of "[?o]" ?o ?s "''sim''" p held0] p unfolding id by auto
qed

lemma sell_commitments_agree_witness:
  "VenueHasSellCommitments (Replay sample_log [''sim'']) ''sim'' \<longleftrightarrow>
   (\<exists>symbol. VenueSellCommittedShares (Replay sample_log [''sim'']) ''sim'' symbol '''' > 0)"
proof -
  have "mget (st_venues (Replay sample_log [''sim''])) ''sim'' \<noteq> None" by code_simp
  then obtain vs where vs: "mget (st_venues (Replay sample_log [''sim''])) ''sim'' = Some vs" by blast
  then have at: "vs = venue_at (Replay sample_log [''sim'']) ''sim''" by (simp add: venue_at_def mget0_def)
  have "list_all (\<lambda>(k, o1). k \<noteq> '''' \<and> o_leavesQty o1 = Fin 60 \<and> o_executedQty o1 = Fin 40 \<and> o_action o1 = None)
      (vs_orders (venue_at (Replay sample_log [''sim'']) ''sim''))"
    "vs_externalOrders (venue_at (Replay sample_log [''sim'']) ''sim'') = []" by code_simp+
  moreover have "f64_ok (Fin 60)" "f64_ok (Fin 40)" using whole_ok[of 60] whole_ok[of 40] by simp_all
  ultimately show ?thesis
    by (intro sell_commitments_agree[OF vs]) (auto simp: at list_all_iff order_ok_def)
qed

lemma positions_mirror_snapshot_witness:
  "VenuePositionShares (ReconcilePositions ''sim'' [position0\<lparr>p_symbol := ''AAPL'', p_qty := Fin 40\<rparr>]
     (Replay sample_log [''sim''])) ''sim'' ''AAPL'' = Fin 40"
  using positions_mirror_snapshot[of "[position0\<lparr>p_symbol := ''AAPL'', p_qty := Fin 40\<rparr>]" "''sim''"
      "Replay sample_log [''sim'']" "''AAPL''" "''sim''" "''''"] by simp

end
