(* ===== verification/Gate.thy ===== *)
theory Gate
  imports Reconcile
begin

text \<open>
  The two-layer pre-trade gate: \<open>internal/exec/gate.go\<close>. \<open>marks\<close> is the interface
  \<open>MarkSource\<close>: the last trade of a symbol, if there is one. A refusal carries the message the
  code returns.
\<close>

section \<open>Configuration\<close>

record global_limits =
  gl_maxDayLoss :: f64
  gl_maxSymbolPositionValue :: f64
  gl_maxSymbolPositionShares :: f64

record venue_limits =
  vl_maxOrderValue :: f64
  vl_maxPositionValue :: f64
  vl_maxPositionShares :: f64
  vl_maxOpenOrders :: int

text \<open>A nil map differs from an empty one only for \<open>DayLossEligible\<close>, which is tested.\<close>

record gate_config =
  gc_global :: global_limits
  gc_venue :: "(venue_id, venue_limits) gomap"
  gc_dayLossEligible :: "(venue_id, bool) gomap option"
  gc_accountRequired :: "(venue_id, bool) gomap"
  gc_activeVenueOnly :: "(venue_id, bool) gomap"

type_synonym mark_source = "string \<Rightarrow> f64 option"

section \<open>Valuation\<close>

definition signedQty :: "order_request \<Rightarrow> f64" where
  "signedQty req = (if longward (r_side req) then r_qty req else - r_qty req)"

definition orderValue :: "order_request \<Rightarrow> mark_source \<Rightarrow> f64 option" where
  "orderValue req marks = (case r_type req of
     TypeMarket \<Rightarrow> (case marks (r_symbol req) of None \<Rightarrow> None | Some m \<Rightarrow> Some (r_qty req * m))
   | TypeStop \<Rightarrow> Some (r_qty req * r_stopPrice req)
   | _ \<Rightarrow> Some (r_qty req * r_limitPrice req))"

definition markOr :: "order_request \<Rightarrow> mark_source \<Rightarrow> f64" where
  "markOr req marks = (case marks (r_symbol req) of
     Some m \<Rightarrow> m
   | None \<Rightarrow> if r_limitPrice req > 0 then r_limitPrice req else r_stopPrice req)"

definition directional :: "f64 \<Rightarrow> side \<Rightarrow> f64" where
  "directional mag sd = (if longward sd then mag else - mag)"

definition workingCount :: "venue_state \<Rightarrow> int" where
  "workingCount vs = foldl (\<lambda>n (_, o1). if Working o1 then n + 1 else n) 0 (vs_orders vs)"

definition BreachedDayLoss :: "exec_state \<Rightarrow> gate_config \<Rightarrow> bool" where
  "BreachedDayLoss s cfg =
     (if gl_maxDayLoss (gc_global cfg) \<le> 0 then False
      else fsum (map (\<lambda>(_, vs). ac_dayPnL (vs_account vs))
             (filter (\<lambda>(v, _). case gc_dayLossEligible cfg of
                  Some eligible \<Rightarrow> mget0 False eligible v
                | None \<Rightarrow> \<not> (mget0 False (gc_activeVenueOnly cfg) v \<and> v \<noteq> st_activeVenue s)) (st_venues s)))
           \<le> - gl_maxDayLoss (gc_global cfg))"

definition AnyRequiredAccountStale :: "exec_state \<Rightarrow> gate_config \<Rightarrow> bool" where
  "AnyRequiredAccountStale s cfg =
     list_ex (\<lambda>(v, required). required \<and> \<not> mget0 False (st_accountFresh s) v) (gc_accountRequired cfg)"

definition reducesPosition :: "exec_state \<Rightarrow> order_request \<Rightarrow> bool" where
  "reducesPosition s req =
     (let qty = VenuePositionShares s (r_venue req) (r_symbol req) in
      if feq qty 0 then False
      else (qty > 0 \<and> \<not> longward (r_side req)) \<or> (qty < 0 \<and> longward (r_side req)))"

section \<open>The gate\<close>

definition venue_result :: "exec_state \<Rightarrow> order_request \<Rightarrow> f64" where
  "venue_result s req = VenuePositionShares s (r_venue req) (r_symbol req) +
     directional (VenueWorkingSameDir s (r_venue req) (r_symbol req) (r_side req)) (r_side req) + signedQty req"

definition global_result :: "exec_state \<Rightarrow> order_request \<Rightarrow> f64" where
  "global_result s req = SymbolNetShares s (r_symbol req) +
     directional (SymbolWorkingSameDir s (r_symbol req) (r_side req)) (r_side req) + signedQty req"

definition Evaluate :: "exec_state \<Rightarrow> gate_config \<Rightarrow> order_request \<Rightarrow> mark_source \<Rightarrow> bool \<times> string" where
  "Evaluate s cfg req marks =
     (if \<not> st_masterArmed s then (False, ''master disarmed'')
      else if \<not> mhas (st_venues s) (r_venue req) then (False, ''unknown venue'')
      else if mhas (st_orderIndex s) (r_clientOrderID req) then (False, ''duplicate order id'')
      else if AnyRequiredAccountStale s cfg \<and> \<not> reducesPosition s req then (False, ''account data stale'')
      else if BreachedDayLoss s cfg then (False, ''day-loss breached'')
      else case mget (gc_venue cfg) (r_venue req) of
        None \<Rightarrow> (False, ''no gate config for venue'')
      | Some vl \<Rightarrow>
        (case orderValue req marks of
           None \<Rightarrow> (False, ''no mark to value market order'')
         | Some val \<Rightarrow>
           if vl_maxOrderValue vl > 0 \<and> val > vl_maxOrderValue vl
           then (False, ''order value exceeds venue cap'')
           else let mark = markOr req marks; venueResult = venue_result s req in
             if vl_maxPositionShares vl > 0 \<and> \<bar>venueResult\<bar> > vl_maxPositionShares vl
             then (False, ''resulting venue position exceeds share cap'')
             else if vl_maxPositionValue vl > 0 \<and> \<bar>venueResult\<bar> * mark > vl_maxPositionValue vl
             then (False, ''resulting venue position exceeds value cap'')
             else if vl_maxOpenOrders vl > 0 \<and> workingCount (venue_at s (r_venue req)) \<ge> vl_maxOpenOrders vl
             then (False, ''max open orders on venue'')
             else let globalResult = global_result s req in
               if gl_maxSymbolPositionShares (gc_global cfg) > 0 \<and>
                  \<bar>globalResult\<bar> > gl_maxSymbolPositionShares (gc_global cfg)
               then (False, ''resulting symbol position exceeds global share cap'')
               else if gl_maxSymbolPositionValue (gc_global cfg) > 0 \<and>
                  \<bar>globalResult\<bar> * mark > gl_maxSymbolPositionValue (gc_global cfg)
               then (False, ''resulting symbol position exceeds global value cap'')
               else (True, '''')))"

definition EvaluateDeferredAdmission :: "exec_state \<Rightarrow> gate_config \<Rightarrow> order_request \<Rightarrow> bool \<times> string" where
  "EvaluateDeferredAdmission s cfg req =
     (if \<not> st_masterArmed s then (False, ''master disarmed'')
      else if \<not> mhas (st_venues s) (r_venue req) then (False, ''unknown venue'')
      else if mhas (st_orderIndex s) (r_clientOrderID req) then (False, ''duplicate order id'')
      else if AnyRequiredAccountStale s cfg then (False, ''account data stale'')
      else if BreachedDayLoss s cfg then (False, ''day-loss breached'')
      else case mget (gc_venue cfg) (r_venue req) of
        None \<Rightarrow> (False, ''no gate config for venue'')
      | Some vl \<Rightarrow>
          if vl_maxOpenOrders vl > 0 \<and> workingCount (venue_at s (r_venue req)) \<ge> vl_maxOpenOrders vl
          then (False, ''max open orders on venue'') else (True, ''''))"

section \<open>What an admitted request satisfies\<close>

definition venue_caps_ok :: "venue_limits \<Rightarrow> exec_state \<Rightarrow> order_request \<Rightarrow> mark_source \<Rightarrow> bool" where
  "venue_caps_ok vl s req marks \<longleftrightarrow>
     (\<exists>val. orderValue req marks = Some val \<and> \<not> (vl_maxOrderValue vl > 0 \<and> val > vl_maxOrderValue vl)) \<and>
     \<not> (vl_maxPositionShares vl > 0 \<and> \<bar>venue_result s req\<bar> > vl_maxPositionShares vl) \<and>
     \<not> (vl_maxPositionValue vl > 0 \<and> \<bar>venue_result s req\<bar> * markOr req marks > vl_maxPositionValue vl) \<and>
     \<not> (vl_maxOpenOrders vl > 0 \<and> workingCount (venue_at s (r_venue req)) \<ge> vl_maxOpenOrders vl)"

definition global_caps_ok :: "global_limits \<Rightarrow> exec_state \<Rightarrow> order_request \<Rightarrow> mark_source \<Rightarrow> bool" where
  "global_caps_ok gl s req marks \<longleftrightarrow>
     \<not> (gl_maxSymbolPositionShares gl > 0 \<and> \<bar>global_result s req\<bar> > gl_maxSymbolPositionShares gl) \<and>
     \<not> (gl_maxSymbolPositionValue gl > 0 \<and> \<bar>global_result s req\<bar> * markOr req marks > gl_maxSymbolPositionValue gl)"

lemma refuse_if: "(if c then (False, x) else y) = (True, w) \<longleftrightarrow> \<not> c \<and> y = (True, w)"
  by simp

lemma refuse_if_iff: "(if c then (False, x) else (True, z)) = (True, w) \<longleftrightarrow> \<not> c \<and> w = z"
  by auto

text \<open>The gate as one condition: switch, venue, ID, account data, day loss, then every cap.\<close>

lemma evaluate_iff:
  "Evaluate s cfg req marks = (True, why) \<longleftrightarrow>
     st_masterArmed s \<and> mhas (st_venues s) (r_venue req) \<and> \<not> mhas (st_orderIndex s) (r_clientOrderID req) \<and>
     (AnyRequiredAccountStale s cfg \<longrightarrow> reducesPosition s req) \<and> \<not> BreachedDayLoss s cfg \<and>
     (\<exists>vl. mget (gc_venue cfg) (r_venue req) = Some vl \<and> venue_caps_ok vl s req marks) \<and>
     global_caps_ok (gc_global cfg) s req marks \<and> why = ''''"
proof (cases "mget (gc_venue cfg) (r_venue req)")
  case None
  then show ?thesis unfolding Evaluate_def refuse_if by simp
next
  case (Some vl)
  then show ?thesis
  proof (cases "orderValue req marks")
    case None
    then show ?thesis using Some unfolding Evaluate_def refuse_if by (simp add: venue_caps_ok_def)
  next
    case val: (Some val)
    show ?thesis unfolding Evaluate_def refuse_if Some val option.case Let_def refuse_if_iff
        venue_caps_ok_def global_caps_ok_def option.inject ex_simps simp_thms
      by blast
  qed
qed

section \<open>Facts\<close>

lemma workingCount_filter: "workingCount vs = int (length (filter (\<lambda>(_, o1). Working o1) (vs_orders vs)))"
proof -
  have "foldl (\<lambda>n (_, o1). if Working o1 then n + 1 else n) m xs = m + int (length (filter (\<lambda>(_, o1). Working o1) xs))"
    for m :: int and xs :: "(string \<times> exec_order) list"
    by (induction xs arbitrary: m) auto
  then show ?thesis by (simp add: workingCount_def)
qed

text \<open>A submission that the gate admitted carries a fresh ID, so it adds one order.\<close>

lemma fresh_order:
  assumes "state_wf s" "\<not> mhas (st_orderIndex s) k"
  shows "order_at s v k = None"
  using assms by (cases "order_at s v k") (auto simp: state_wf_def)

lemma submitted_orders:
  assumes "state_wf s" "\<not> mhas (st_orderIndex s) (o_id o1)"
  shows "vs_orders (venue_at (Apply s (OrderSubmitted o1)) (o_venue o1)) =
    vs_orders (venue_at s (o_venue o1)) @
      [(o_id o1, if feq (o_leavesQty o1) 0 \<and> feq (o_executedQty o1) 0 then o1\<lparr>o_leavesQty := o_qty o1\<rparr> else o1)]"
proof -
  define o2 where "o2 = (if feq (o_leavesQty o1) 0 \<and> feq (o_executedQty o1) 0 then o1\<lparr>o_leavesQty := o_qty o1\<rparr> else o1)"
  have ids: "o_id o2 = o_id o1" "o_venue o2 = o_venue o1" by (simp_all add: o2_def)
  have "mget (vs_orders (venue_at s (o_venue o1))) (o_id o1) = None"
    using fresh_order[OF assms, of "o_venue o1"] by (simp only: order_at_def)
  then have m: "mput (o_id o1) o2 (vs_orders (venue_at s (o_venue o1))) = vs_orders (venue_at s (o_venue o1)) @ [(o_id o1, o2)]"
    by (rule mput_absent)
  have "Apply s (OrderSubmitted o1) = record_order o2 s" by (simp only: Apply.simps o2_def)
  then show ?thesis by (simp add: record_order_def ids m flip: o2_def)
qed

section \<open>Properties\<close>

text \<open>The exposure the position caps bound: the position and all working orders that push it
  the same way.\<close>

definition exposure :: "exec_state \<Rightarrow> venue_id \<Rightarrow> string \<Rightarrow> side \<Rightarrow> f64" where
  "exposure s v symbol sd = VenuePositionShares s v symbol + directional (VenueWorkingSameDir s v symbol sd) sd"

definition same_dir_leaves :: "exec_state \<Rightarrow> venue_id \<Rightarrow> string \<Rightarrow> side \<Rightarrow> f64 list" where
  "same_dir_leaves s v symbol sd = map o_leavesQty
     (filter (\<lambda>o1. o_symbol o1 = symbol \<and> Working o1 \<and> sameDir (o_side o1) sd) (map snd (vs_orders (venue_at s v))))"

lemma VenueWorkingSameDir_leaves: "VenueWorkingSameDir s v symbol sd = fsum (same_dir_leaves s v symbol sd)"
  by (simp add: VenueWorkingSameDir_def same_dir_leaves_def venue_at_def mget0_def newVenueState_def fsum_def
      split: option.split)

lemma VenuePositionShares_at: "VenuePositionShares s v symbol = p_qty (mget0 position0 (vs_positions (venue_at s v)) symbol)"
  by (simp add: VenuePositionShares_def venue_at_def mget0_def newVenueState_def position0_def split: option.split)

lemma sum_abs_nonneg: "0 \<le> sum_list (map abs ns)" for ns :: "int list"
  by (induction ns) auto

lemma sum_abs_bound: "\<bar>sum_list ns\<bar> \<le> sum_list (map abs ns)" for ns :: "int list"
  by (induction ns) auto

text \<open>C9. When the gate admits a request and its order is folded, the position together with the working orders on its side stays within the venue's share cap, and the venue's working orders within the open-order cap (share counts whole and below 2^53 in sum).\<close>

theorem admitted_keeps_caps:
  assumes wf: "state_wf s" and ev: "Evaluate s cfg req marks = (True, why)"
    and vl: "mget (gc_venue cfg) (r_venue req) = Some vl"
    and P: "VenuePositionShares s (r_venue req) (r_symbol req) = whole P"
    and ns: "same_dir_leaves s (r_venue req) (r_symbol req) (r_side req) = map whole ns"
    and q: "r_qty req = whole q" and bound: "\<bar>P\<bar> + sum_list (map abs ns) + \<bar>q\<bar> \<le> 2 ^ 53"
  shows "(vl_maxPositionShares vl > 0 \<longrightarrow>
      \<bar>exposure (Apply s (OrderSubmitted (newOrderFromRequest req now))) (r_venue req) (r_symbol req) (r_side req)\<bar>
        \<le> vl_maxPositionShares vl) \<and>
    (vl_maxOpenOrders vl > 0 \<longrightarrow>
      workingCount (venue_at (Apply s (OrderSubmitted (newOrderFromRequest req now))) (r_venue req)) \<le> vl_maxOpenOrders vl)"
proof -
  define v sym sd where "v = r_venue req" "sym = r_symbol req" "sd = r_side req"
  define o1 where "o1 = newOrderFromRequest req now"
  define s' where "s' = Apply s (OrderSubmitted o1)"
  have adm: "\<not> mhas (st_orderIndex s) (r_clientOrderID req)" "venue_caps_ok vl s req marks"
    using ev vl by (auto simp: evaluate_iff)
  have orders: "vs_orders (venue_at s' v) = vs_orders (venue_at s v) @ [(o_id o1, o1)]"
    using submitted_orders[OF wf, of o1] adm(1) by (simp add: s'_def o1_def v_sym_sd_def)
  have pos: "VenuePositionShares s' v sym = whole P"
    using P by (simp add: s'_def VenuePositionShares_at record_order_def o1_def v_sym_sd_def)
  have "same_dir_leaves s' v sym sd = map whole (ns @ [q])"
    using ns q by (simp add: same_dir_leaves_def orders[unfolded v_sym_sd_def] o1_def v_sym_sd_def sameDir_def Working_status)
  then have new: "VenueWorkingSameDir s' v sym sd = whole (sum_list ns + q)"
    using fsum_whole[of "same_dir_leaves s' v sym sd" "ns @ [q]"] bound
    by (simp add: VenueWorkingSameDir_leaves whole_list_def)
  have old: "VenueWorkingSameDir s v sym sd = whole (sum_list ns)"
    using fsum_whole[of "same_dir_leaves s v sym sd" ns] bound ns
    by (simp add: VenueWorkingSameDir_leaves whole_list_def v_sym_sd_def)
  define sg where "sg = (if longward sd then 1 else - 1 :: int)"
  have dir: "directional (whole n) sd = whole (sg * n)" for n by (simp add: directional_def sg_def)
  have sgq: "signedQty req = whole (sg * q)" using q by (simp add: signedQty_def sg_def v_sym_sd_def)
  have b: "\<bar>P + sg * sum_list ns\<bar> \<le> 2 ^ 53" "\<bar>P + sg * sum_list ns + sg * q\<bar> \<le> 2 ^ 53" "\<bar>P + sg * (sum_list ns + q)\<bar> \<le> 2 ^ 53"
    using bound sum_abs_bound[of ns] by (auto simp: sg_def)
  have res: "venue_result s req = whole (P + sg * sum_list ns + sg * q)"
    unfolding venue_result_def v_sym_sd_def[symmetric] P[folded v_sym_sd_def] old dir sgq whole_add[OF b(1)] whole_add[OF b(2)] by (rule refl)
  have exp: "exposure s' v sym sd = whole (P + sg * (sum_list ns + q))"
    unfolding exposure_def pos new dir whole_add[OF b(3)] by (rule refl)
  have same: "exposure s' v sym sd = venue_result s req" unfolding res exp by (simp add: algebra_simps)
  have "\<bar>venue_result s req\<bar> \<le> vl_maxPositionShares vl" if "vl_maxPositionShares vl > 0"
  proof -
    have "\<not> vl_maxPositionShares vl < \<bar>venue_result s req\<bar>" using adm(2) that by (auto simp: venue_caps_ok_def)
    moreover have "vl_maxPositionShares vl \<noteq> NaN" using that by auto
    ultimately show ?thesis using f64_not_less[of "vl_maxPositionShares vl" "\<bar>venue_result s req\<bar>"] by (simp add: res)
  qed
  moreover have "workingCount (venue_at s' v) = workingCount (venue_at s v) + 1"
    by (simp add: workingCount_filter orders o1_def Working_status)
  ultimately show ?thesis using adm(2) same
    unfolding s'_def[symmetric] o1_def[symmetric] v_sym_sd_def venue_caps_ok_def
    by (auto simp: s'_def o1_def v_sym_sd_def)
qed

text \<open>C10. After a replay of a log, the gate refuses any request whose client order ID some event of that log brought in, whatever the switches and the configuration.\<close>

theorem gate_rejects_known_id:
  assumes "ev \<in> set es" "r_clientOrderID req \<in> event_ids ev"
  shows "fst (Evaluate (SetMasterArmed on (Replay es venues)) cfg req marks) = False"
proof -
  have "mhas (st_orderIndex (SetMasterArmed on (Replay es venues))) (r_clientOrderID req)"
    using replay_remembers_ids[OF assms, of venues] by (simp add: OrderVenue_def mhas_def SetMasterArmed_def)
  then show ?thesis
    using evaluate_iff[of "SetMasterArmed on (Replay es venues)" cfg req marks]
    by (cases "Evaluate (SetMasterArmed on (Replay es venues)) cfg req marks") auto
qed

lemma mget_perm:
  assumes "keys_distinct m" "mset n = mset m"
  shows "mget n = mget m" "keys_distinct n"
proof -
  have "mset (map fst n) = mset (map fst m)" using assms(2) by simp
  then show d: "keys_distinct n" using assms(1) mset_eq_imp_distinct_iff by blast
  have "set n = set m" using assms(2) by (rule mset_eq_setD)
  then show "mget n = mget m" using map_of_inject_set[OF d assms(1)] by simp
qed

theorem evaluate_map_order:
  assumes d: "keys_distinct (st_venues s)" and p: "mset venues = mset (st_venues s)"
    and dl: "gl_maxDayLoss (gc_global cfg) \<le> 0"
    and net: "whole_list (map (\<lambda>(_, vs). p_qty (mget0 position0 (vs_positions vs) (r_symbol req))) (st_venues s)) ns"
    and work: "whole_list (map (\<lambda>(v, _). VenueWorkingSameDir s v (r_symbol req) (r_side req)) (st_venues s)) ms"
  shows "Evaluate (s\<lparr>st_venues := venues\<rparr>) cfg req marks = Evaluate s cfg req marks"
proof -
  define t where "t = s\<lparr>st_venues := venues\<rparr>"
  have g: "mget (st_venues t) = mget (st_venues s)" using mget_perm(1)[OF d p] by (simp add: t_def)
  have at: "venue_at t v = venue_at s v" for v by (simp add: venue_at_def mget0_def g)
  have w: "VenueWorkingSameDir t v y sd = VenueWorkingSameDir s v y sd" for v y sd
    by (simp add: VenueWorkingSameDir_def g)
  have n: "SymbolNetShares t (r_symbol req) = SymbolNetShares s (r_symbol req)"
    unfolding SymbolNetShares_def t_def using p by (intro fsum_whole_perm[OF net]) simp
  have sw: "SymbolWorkingSameDir t (r_symbol req) (r_side req) = SymbolWorkingSameDir s (r_symbol req) (r_side req)"
    unfolding SymbolWorkingSameDir_def w using p by (intro fsum_whole_perm[OF work]) (simp add: t_def)
  have ps: "VenuePositionShares t v y = VenuePositionShares s v y" for v y
    by (simp add: VenuePositionShares_at at)
  have fields: "st_masterArmed t = st_masterArmed s" "st_orderIndex t = st_orderIndex s" "st_accountFresh t = st_accountFresh s"
    by (simp_all add: t_def)
  have h: "mhas (st_venues t) v = mhas (st_venues s) v" for v by (simp add: mhas_def g)
  have bl: "BreachedDayLoss t cfg = BreachedDayLoss s cfg" using dl by (simp add: BreachedDayLoss_def)
  have "Evaluate t cfg req marks = Evaluate s cfg req marks"
    unfolding Evaluate_def venue_result_def global_result_def AnyRequiredAccountStale_def reducesPosition_def
      at w n sw ps fields h bl by (rule refl)
  then show ?thesis by (simp add: t_def)
qed

section \<open>Witnesses\<close>

text \<open>Armed, long 40 with 60 more working: a new buy of 100 stays within caps of 200 shares and
  two open orders.\<close>

definition sample_gate :: gate_config where
  "sample_gate = \<lparr>gc_global = \<lparr>gl_maxDayLoss = 0, gl_maxSymbolPositionValue = 0, gl_maxSymbolPositionShares = Fin 200\<rparr>,
     gc_venue = [(''sim'', \<lparr>vl_maxOrderValue = Fin 2000, vl_maxPositionValue = 0, vl_maxPositionShares = Fin 200,
                            vl_maxOpenOrders = 2\<rparr>)],
     gc_dayLossEligible = None, gc_accountRequired = [], gc_activeVenueOnly = []\<rparr>"

definition sample_armed :: exec_state where
  "sample_armed = SetMasterArmed True (ReconcilePositions ''sim''
     [position0\<lparr>p_symbol := ''AAPL'', p_qty := Fin 40\<rparr>] (Replay sample_log [''sim'']))"

definition second_request :: order_request where
  "second_request = sample_request\<lparr>r_clientOrderID := ''ET2''\<rparr>"

lemma sample_admitted: "Evaluate sample_armed sample_gate second_request (\<lambda>_. Some (Fin 10)) = (True, '''')"
  by code_simp

lemma wf_sample_armed: "state_wf sample_armed"
  unfolding sample_armed_def by (intro wf_switches wf_ReconcilePositions replay_wf)

lemma admitted_keeps_caps_witness:
  "\<bar>exposure (Apply sample_armed (OrderSubmitted (newOrderFromRequest second_request 5000))) ''sim'' ''AAPL'' SideBuy\<bar> \<le> Fin 200 \<and>
   workingCount (venue_at (Apply sample_armed (OrderSubmitted (newOrderFromRequest second_request 5000))) ''sim'') \<le> 2"
proof -
  let ?vl = "\<lparr>vl_maxOrderValue = Fin 2000, vl_maxPositionValue = 0, vl_maxPositionShares = Fin 200, vl_maxOpenOrders = 2\<rparr>"
  have r: "r_venue second_request = ''sim''" "r_symbol second_request = ''AAPL''" "r_side second_request = SideBuy"
    "r_qty second_request = whole 100" by (simp_all add: second_request_def sample_request_def)
  have "VenuePositionShares sample_armed ''sim'' ''AAPL'' = Fin 40" by code_simp
  then have P: "VenuePositionShares sample_armed (r_venue second_request) (r_symbol second_request) = whole 40" by (simp add: r)
  have "same_dir_leaves sample_armed ''sim'' ''AAPL'' SideBuy = [Fin 60]" by code_simp
  then have L: "same_dir_leaves sample_armed (r_venue second_request) (r_symbol second_request) (r_side second_request) = map whole [60]"
    by (simp add: r)
  have vl: "mget (gc_venue sample_gate) (r_venue second_request) = Some ?vl" by (simp add: r sample_gate_def)
  have "(vl_maxPositionShares ?vl > 0 \<longrightarrow>
      \<bar>exposure (Apply sample_armed (OrderSubmitted (newOrderFromRequest second_request 5000))) (r_venue second_request)
         (r_symbol second_request) (r_side second_request)\<bar> \<le> vl_maxPositionShares ?vl) \<and>
    (vl_maxOpenOrders ?vl > 0 \<longrightarrow>
      workingCount (venue_at (Apply sample_armed (OrderSubmitted (newOrderFromRequest second_request 5000)))
        (r_venue second_request)) \<le> vl_maxOpenOrders ?vl)"
    by (rule admitted_keeps_caps[OF wf_sample_armed sample_admitted vl P L r(4)]) simp
  then show ?thesis by (simp add: r zero_f64_def)
qed

lemma gate_rejects_known_id_witness:
  "fst (Evaluate (SetMasterArmed True (Replay sample_log [''sim''])) sample_gate sample_request (\<lambda>_. Some (Fin 10))) = False"
  by (rule gate_rejects_known_id[of "OrderSubmitted sample_order"])
    (simp_all add: sample_log_def sample_order_def)

lemma evaluate_map_order_witness:
  "Evaluate (sample_armed\<lparr>st_venues := rev (st_venues sample_armed)\<rparr>) sample_gate second_request (\<lambda>_. Some (Fin 10)) =
   Evaluate sample_armed sample_gate second_request (\<lambda>_. Some (Fin 10))"
proof (rule evaluate_map_order)
  show "keys_distinct (st_venues sample_armed)" using wf_sample_armed by (simp add: state_wf_def)
  have "map (\<lambda>(_, vs). p_qty (mget0 position0 (vs_positions vs) (r_symbol second_request))) (st_venues sample_armed) = [Fin 40]"
    "map (\<lambda>(v, _). VenueWorkingSameDir sample_armed v (r_symbol second_request) (r_side second_request)) (st_venues sample_armed) = [Fin 60]"
    by code_simp+
  then show "whole_list (map (\<lambda>(_, vs). p_qty (mget0 position0 (vs_positions vs) (r_symbol second_request))) (st_venues sample_armed)) [40]"
    "whole_list (map (\<lambda>(v, _). VenueWorkingSameDir sample_armed v (r_symbol second_request) (r_side second_request)) (st_venues sample_armed)) [60]"
    by (simp_all add: whole_list_def)
qed (simp_all add: sample_gate_def zero_f64_def)

end
