(* ===== verification/ClosedOrders.thy ===== *)
theory ClosedOrders
  imports ExecState "HOL-Library.Word"
begin

text \<open>
  The closed-order projection, \<open>internal/exec/closed.go\<close>: which orders are live (\<open>active\<close>),
  the history rows of the ones that ended (\<open>rows\<close>, by row ID), and the IDs the log has
  brought in (\<open>seeded\<close>). The lemmas relate it to the state the same log folds into.
\<close>

record closed_order =
  cl_rowID :: string
  cl_order :: exec_order

record closed_orders =
  co_active :: "(string, exec_order) gomap"
  co_rows :: "(string, closed_order) gomap"
  co_seeded :: "(string, bool) gomap"
  co_replacementSerial :: "64 word"

definition newClosedOrders :: closed_orders where
  "newClosedOrders = \<lparr>co_active = [], co_rows = [], co_seeded = [], co_replacementSerial = 0\<rparr>"

definition close_row :: "exec_order \<Rightarrow> string \<Rightarrow> closed_orders \<Rightarrow> closed_order \<times> closed_orders" where
  "close_row o1 rowID p =
     (let row = \<lparr>cl_rowID = rowID, cl_order = o1\<rparr> in (row, p\<lparr>co_rows := mput rowID row (co_rows p)\<rparr>))"

text \<open>\<open>return []ClosedOrder{p.close(o, rowID)}\<close>\<close>

definition close_one :: "exec_order \<Rightarrow> string \<Rightarrow> closed_orders \<Rightarrow> closed_order list \<times> closed_orders" where
  "close_one o1 rowID p = (case close_row o1 rowID p of (row, p1) \<Rightarrow> ([row], p1))"

definition closed_mutate ::
  "venue_id \<Rightarrow> string \<Rightarrow> int \<Rightarrow> (exec_order \<Rightarrow> exec_order) \<Rightarrow> closed_orders \<Rightarrow> closed_orders" where
  "closed_mutate v i ts fn p = (case mget (co_active p) i of
     None \<Rightarrow> p
   | Some o1 \<Rightarrow> if o_venue o1 \<noteq> v then p
                else p\<lparr>co_active := mput i ((fn o1)\<lparr>o_updatedMs := ts\<rparr>) (co_active p)\<rparr>)"

definition action_pending :: "action_kind \<Rightarrow> order_action \<Rightarrow> bool" where
  "action_pending k a \<longleftrightarrow> a_kind a = k \<and> (a_phase a = ActionRequested \<or> a_phase a = ActionUnknown)"

text \<open>The submit action a terminal status settles: failed by a rejection, confirmed otherwise.\<close>

definition settle_submit :: "order_status \<Rightarrow> string \<Rightarrow> exec_order \<Rightarrow> exec_order" where
  "settle_submit status reason o1 = (case o_action o1 of
     Some a \<Rightarrow> if action_pending ActionSubmit a
       then o1\<lparr>o_action := Some (if status = StatusRejected
              then a\<lparr>a_phase := ActionFailed, a_reason := reason\<rparr>
              else a\<lparr>a_phase := ActionConfirmed, a_reason := ''''\<rparr>)\<rparr>
       else o1
   | None \<Rightarrow> o1)"

definition closed_terminal ::
  "venue_id \<Rightarrow> string \<Rightarrow> int \<Rightarrow> order_status \<Rightarrow> string \<Rightarrow> closed_orders \<Rightarrow> closed_order list \<times> closed_orders" where
  "closed_terminal v i ts status reason p = (case mget (co_active p) i of
     None \<Rightarrow> ([], p)
   | Some o1 \<Rightarrow>
       if o_venue o1 \<noteq> v \<or> \<not> Working o1 then ([], p)
       else let o2 = settle_submit status reason (o1\<lparr>o_status := status, o_updatedMs := ts\<rparr>);
                o3 = (if status = StatusCanceled then confirm_action ActionCancel o2 else o2);
                o4 = (if reason \<noteq> '''' then o3\<lparr>o_rejectReason := reason\<rparr> else o3);
                p1 = p\<lparr>co_active := mdel i (co_active p)\<rparr>
            in close_one o4 (o_id o4) p1)"

text \<open>\<open>p.rows[id].Order.Status == StatusFilled\<close>\<close>

definition row_filled :: "string \<Rightarrow> closed_orders \<Rightarrow> bool" where
  "row_filled i p \<longleftrightarrow> (case mget (co_rows p) i of None \<Rightarrow> False | Some r \<Rightarrow> o_status (cl_order r) = StatusFilled)"

definition closed_fill :: "exec_fill \<Rightarrow> f64 \<Rightarrow> f64 \<Rightarrow> f64 \<Rightarrow> closed_orders \<Rightarrow> closed_order list \<times> closed_orders" where
  "closed_fill f cum leaves avg p =
     (let known = mhas (co_active p) (f_orderID f);
          o0 = (case mget (co_active p) (f_orderID f) of
                  Some o1 \<Rightarrow> o1
                | None \<Rightarrow> order0\<lparr>o_venue := f_venue f, o_id := f_orderID f, o_symbol := f_symbol f,
                                 o_side := f_side f, o_createdMs := f_tsMs f\<rparr>);
          o1 = (confirmSubmitAction (o0\<lparr>o_executedQty := cum, o_leavesQty := leaves, o_avgFillPrice := avg\<rparr>))
                 \<lparr>o_updatedMs := f_tsMs f\<rparr>
      in if leaves > 0
         then ([], p\<lparr>co_active := mput (o_id o1) (o1\<lparr>o_status := StatusPartiallyFilled\<rparr>) (co_active p)\<rparr>)
         else if \<not> known \<and> row_filled (o_id o1) p
         then ([], p)
         else close_one (o1\<lparr>o_status := StatusFilled\<rparr>) (o_id o1) (p\<lparr>co_active := mdel (o_id o1) (co_active p)\<rparr>))"

definition replace_row_id :: "string \<Rightarrow> nat \<Rightarrow> string" where
  "replace_row_id i n = i @ ''#replace-'' @ show_nat n"

definition closed_replace ::
  "venue_id \<Rightarrow> string \<Rightarrow> f64 \<Rightarrow> f64 \<Rightarrow> f64 \<Rightarrow> int \<Rightarrow> int \<Rightarrow> closed_orders \<Rightarrow> closed_order list \<times> closed_orders" where
  "closed_replace v i newQty newLimit newStop ts seq p = (case mget (co_active p) i of
     None \<Rightarrow> ([], p)
   | Some o1 \<Rightarrow>
       if o_venue o1 \<noteq> v \<or> \<not> Working o1 then ([], p)
       else let old = confirm_action ActionReplace (o1\<lparr>o_status := StatusReplaced, o_updatedMs := ts\<rparr>);
                serial = co_replacementSerial p + 1;
                (rowID, p1) = (if seq \<le> 0
                  then (replace_row_id (o_id old) (unat serial), p\<lparr>co_replacementSerial := serial\<rparr>)
                  else (replace_row_id (o_id old) (nat seq), p));
                (row, p2) = close_row old rowID p1;
                o2 = (if newQty > 0 then o1\<lparr>o_qty := newQty\<rparr> else o1);
                o2 = (if newLimit > 0 then o2\<lparr>o_limitPrice := newLimit\<rparr> else o2);
                o2 = (if newStop > 0 then o2\<lparr>o_stopPrice := newStop\<rparr> else o2);
                o2 = confirm_action ActionReplace o2;
                o3 = o2\<lparr>o_leavesQty := o_qty o2 - o_executedQty o2, o_status := StatusAccepted, o_updatedMs := ts\<rparr>
            in ([row], p2\<lparr>co_active := mput i o3 (co_active p2)\<rparr>))"

text \<open>One leg of a risk pair.\<close>

definition closed_leg :: "exec_order \<Rightarrow> closed_order list \<times> closed_orders \<Rightarrow> closed_order list \<times> closed_orders" where
  "closed_leg o1 rp = (case rp of (rows, p) \<Rightarrow>
     if o_id o1 = '''' then (rows, p)
     else let p1 = p\<lparr>co_seeded := mput (o_id o1) True (co_seeded p)\<rparr>
          in if Working o1 then (rows, p1\<lparr>co_active := mput (o_id o1) o1 (co_active p1)\<rparr>)
             else let (row, p2) = close_row o1 (o_id o1) (p1\<lparr>co_active := mdel (o_id o1) (co_active p1)\<rparr>)
                  in (rows @ [row], p2))"

fun closed_apply :: "event \<Rightarrow> int \<Rightarrow> closed_orders \<Rightarrow> closed_order list \<times> closed_orders" where
  "closed_apply (RiskEntryChanged entry stop) seq p = closed_leg stop (closed_leg entry ([], p))"
| "closed_apply (OrderSubmitted o1) seq p =
     ([], p\<lparr>co_active := mput (o_id o1) o1 (co_active p), co_seeded := mput (o_id o1) True (co_seeded p)\<rparr>)"
| "closed_apply (OrderBlocked v i req reason ts) seq p =
     close_one (blocked_order v i req reason ts) i p"
| "closed_apply (OrderAccepted v i _ ts) seq p =
     ([], closed_mutate v i ts (\<lambda>o1. confirmSubmitAction (o1\<lparr>o_status := StatusAccepted\<rparr>)) p)"
| "closed_apply (OrderRejected v i reason ts) seq p = closed_terminal v i ts StatusRejected reason p"
| "closed_apply (OrderFilled f cum leaves avg _) seq p = closed_fill f cum leaves avg p"
| "closed_apply (OrderCanceled v i ts) seq p = closed_terminal v i ts StatusCanceled '''' p"
| "closed_apply (OrderExpired v i ts) seq p = closed_terminal v i ts StatusExpired '''' p"
| "closed_apply (OrderReplaced v i newQty newLimit newStop ts) seq p =
     closed_replace v i newQty newLimit newStop ts seq p"
| "closed_apply (HeldOrderChanged v i held ts) seq p = ([], p)"
| "closed_apply (OrderActionChanged v i action ts) seq p =
     ([], closed_mutate v i ts (\<lambda>o1. o1\<lparr>o_action := Some action\<rparr>) p)"
| "closed_apply (StreamGap _ _) seq p = ([], p)"
| "closed_apply (FlattenPendingChanged _ _ _) seq p = ([], p)"

definition closed_adopt :: "exec_order \<Rightarrow> closed_orders \<Rightarrow> closed_orders" where
  "closed_adopt o1 p = (if Working o1 then p\<lparr>co_active := mput (o_id o1) o1 (co_active p)\<rparr> else p)"

definition hasSeed :: "string \<Rightarrow> closed_orders \<Rightarrow> bool" where
  "hasSeed i p = mget0 False (co_seeded p) i"

definition seedState :: "exec_state \<Rightarrow> closed_orders \<Rightarrow> closed_orders" where
  "seedState s p = foldl (\<lambda>p (_, vs). foldl (\<lambda>p (_, o1).
       if Working o1 \<and> \<not> mhas (co_active p) (o_id o1)
       then p\<lparr>co_active := mput (o_id o1) o1 (co_active p)\<rparr> else p) p (vs_orders vs)) p (st_venues s)"

definition row_less :: "closed_order \<Rightarrow> closed_order \<Rightarrow> bool" where
  "row_less a b =
     (if o_updatedMs (cl_order a) \<noteq> o_updatedMs (cl_order b)
      then o_updatedMs (cl_order a) < o_updatedMs (cl_order b)
      else cl_rowID a < cl_rowID b)"

definition snapshotSince :: "int \<Rightarrow> closed_orders \<Rightarrow> closed_order list" where
  "snapshotSince cutoffMs p =
     SliceStable row_less (filter (\<lambda>row. \<not> o_updatedMs (cl_order row) < cutoffMs) (map snd (co_rows p)))"

interpretation row_order: sort_less row_less
  by unfold_locales (auto simp: row_less_def split: if_splits)


section \<open>The projection against the state\<close>

text \<open>What a trader sees of an order's life.\<close>

definition life :: "exec_order \<Rightarrow> venue_id \<times> string \<times> string \<times> side \<times> order_status \<times> f64 \<times> f64" where
  "life o1 = (o_venue o1, o_id o1, o_symbol o1, o_side o1, o_status o1, o_executedQty o1, o_avgFillPrice o1)"

definition plain_id :: "string \<Rightarrow> bool" where
  "plain_id i \<longleftrightarrow> i \<noteq> '''' \<and> CHR ''#'' \<notin> set i"

text \<open>A state order that works is active; one that ended has its row; nothing else is active
  or has a row under an order ID.\<close>

definition order_tracked :: "closed_orders \<Rightarrow> exec_order \<Rightarrow> bool" where
  "order_tracked p o1 \<longleftrightarrow> plain_id (o_id o1) \<and>
     (if Working o1 then \<exists>a. mget (co_active p) (o_id o1) = Some a \<and> life a = life o1
      else mget (co_active p) (o_id o1) = None \<and>
           (\<exists>r. mget (co_rows p) (o_id o1) = Some r \<and> life (cl_order r) = life o1))"

definition tracks :: "exec_state \<Rightarrow> closed_orders \<Rightarrow> bool" where
  "tracks s p \<longleftrightarrow>
     (\<forall>v i o1. order_at s v i = Some o1 \<longrightarrow> o_venue o1 = v \<and> o_id o1 = i \<and> order_tracked p o1) \<and>
     (\<forall>v v' i. order_at s v i \<noteq> None \<longrightarrow> order_at s v' i \<noteq> None \<longrightarrow> v = v') \<and>
     (\<forall>i a. mget (co_active p) i = Some a \<longrightarrow> order_at s (o_venue a) i \<noteq> None) \<and>
     (\<forall>i r. plain_id i \<longrightarrow> mget (co_rows p) i = Some r \<longrightarrow> (\<exists>v. order_at s v i \<noteq> None))"

definition new_id :: "exec_state \<Rightarrow> string \<Rightarrow> bool" where
  "new_id s i \<longleftrightarrow> plain_id i \<and> (\<forall>v. order_at s v i = None)"

definition works_if_known :: "exec_state \<Rightarrow> venue_id \<Rightarrow> string \<Rightarrow> bool" where
  "works_if_known s v i \<longleftrightarrow> (case order_at s v i of None \<Rightarrow> True | Some o1 \<Rightarrow> Working o1)"

text \<open>The log discipline the core keeps: fresh plain IDs, acknowledgements only for live orders,
  and fills that name their own order and come before the final fill.\<close>

fun in_order :: "exec_state \<Rightarrow> event \<Rightarrow> bool" where
  "in_order s (OrderSubmitted o1) \<longleftrightarrow> Working o1 \<and> new_id s (o_id o1)"
| "in_order s (OrderBlocked v i req reason ts) \<longleftrightarrow> new_id s i"
| "in_order s (RiskEntryChanged entry stop) \<longleftrightarrow>
     o_id entry \<noteq> o_id stop \<and>
     (\<forall>o1 \<in> {entry, stop}. o_id o1 = '''' \<or>
        plain_id (o_id o1) \<and> (\<forall>v. v \<noteq> o_venue o1 \<longrightarrow> order_at s v (o_id o1) = None))"
| "in_order s (OrderAccepted v i _ _) \<longleftrightarrow> works_if_known s v i"
| "in_order s (OrderRejected v i _ _) \<longleftrightarrow> works_if_known s v i"
| "in_order s (OrderFilled f _ leaves _ _) \<longleftrightarrow> leaves \<noteq> NaN \<and>
     (case order_at s (f_venue f) (f_orderID f) of
        None \<Rightarrow> new_id s (f_orderID f)
      | Some o1 \<Rightarrow> o_status o1 \<noteq> StatusFilled \<and> o_symbol o1 = f_symbol f \<and> o_side o1 = f_side f)"
| "in_order s _ \<longleftrightarrow> True"

lemma life_simps [simp]:
  "life (confirmSubmitAction o1) = life o1" "life (confirm_action k o1) = life o1" "life (fail_action why o1) = life o1"
  "life (settle_submit st reason o1) = life o1"
  "life (o1\<lparr>o_updatedMs := t\<rparr>) = life o1" "life (o1\<lparr>o_rejectReason := r\<rparr>) = life o1" "life (o1\<lparr>o_action := a\<rparr>) = life o1"
  "life (o1\<lparr>o_leavesQty := q\<rparr>) = life o1" "life (o1\<lparr>o_qty := q\<rparr>) = life o1"
  "life (o1\<lparr>o_limitPrice := q\<rparr>) = life o1" "life (o1\<lparr>o_stopPrice := q\<rparr>) = life o1" "life (o1\<lparr>o_held := h\<rparr>) = life o1"
  by (simp_all add: life_def confirmSubmitAction_def confirm_action_def fail_action_def settle_submit_def split: option.split)

lemma life_status: "life (o1\<lparr>o_status := st\<rparr>) =
    (case life o1 of (v, i, y, sd, _, x, a) \<Rightarrow> (v, i, y, sd, st, x, a))"
  by (simp add: life_def)

lemma life_eqD:
  "life a = life b \<Longrightarrow> o_venue a = o_venue b" "life a = life b \<Longrightarrow> o_id a = o_id b"
  "life a = life b \<Longrightarrow> o_status a = o_status b" "life a = life b \<Longrightarrow> Working a = Working b"
  by (simp_all add: life_def Working_def)

lemma tracksD:
  assumes "tracks s p" "order_at s v i = Some o1"
  shows "o_venue o1 = v" "o_id o1 = i" "plain_id i"
    "Working o1 \<Longrightarrow> \<exists>a. mget (co_active p) i = Some a \<and> life a = life o1"
    "\<not> Working o1 \<Longrightarrow> mget (co_active p) i = None"
    "\<not> Working o1 \<Longrightarrow> \<exists>r. mget (co_rows p) i = Some r \<and> life (cl_order r) = life o1"
  using assms unfolding tracks_def order_tracked_def by (metis)+

text \<open>One order changes: the proof of each event is the change of its own order.\<close>

lemma tracks_update:
  assumes "tracks s p"
    and "\<And>w k. (w, k) \<noteq> (v, i) \<Longrightarrow> order_at s' w k = order_at s w k"
    and "order_at s' v i = Some o1" "o_venue o1 = v" "o_id o1 = i" "order_tracked p' o1"
    and "\<And>k. k \<noteq> i \<Longrightarrow> mget (co_active p') k = mget (co_active p) k"
    and "\<And>k. plain_id k \<Longrightarrow> k \<noteq> i \<Longrightarrow> mget (co_rows p') k = mget (co_rows p) k"
    and "\<And>w. w \<noteq> v \<Longrightarrow> order_at s w i = None"
    and "\<And>a. mget (co_active p') i = Some a \<Longrightarrow> o_venue a = v"
  shows "tracks s' p'"
  unfolding tracks_def
proof (intro conjI allI impI)
  fix w k o2 assume a: "order_at s' w k = Some o2"
  show "o_venue o2 = w" "o_id o2 = k" "order_tracked p' o2"
  proof -
    have "o_venue o2 = w \<and> o_id o2 = k \<and> order_tracked p' o2"
    proof (cases "k = i")
      case True
      then have "w = v" using a assms(2)[of w k] assms(9)[of w] by (cases "w = v") auto
      then show ?thesis using True a assms(3-6) by simp
    next
      case False
      then have o2: "order_at s w k = Some o2" using a assms(2)[of w k] by simp
      note t = tracksD[OF assms(1) o2]
      then show ?thesis unfolding order_tracked_def using assms(7)[OF False] assms(8)[OF t(3) False] by metis
    qed
    then show "o_venue o2 = w" "o_id o2 = k" "order_tracked p' o2" by blast+
  qed
next
  fix w w' k assume a: "order_at s' w k \<noteq> None" "order_at s' w' k \<noteq> None"
  show "w = w'"
  proof (cases "k = i")
    case True
    then show ?thesis using a assms(2)[of w k] assms(2)[of w' k] assms(9)[of w] assms(9)[of w'] by (cases "w = v"; cases "w' = v") auto
  next
    case False
    then show ?thesis using a assms(1,2) unfolding tracks_def by (metis prod.inject)
  qed
next
  fix k a assume "mget (co_active p') k = Some a"
  then show "order_at s' (o_venue a) k \<noteq> None"
    using assms(1,3,10) assms(2)[of "o_venue a" k] assms(7)[of k] unfolding tracks_def by (cases "k = i") auto
next
  fix k r assume k: "plain_id k" "mget (co_rows p') k = Some r"
  show "\<exists>w. order_at s' w k \<noteq> None"
  proof (cases "k = i")
    case True
    then show ?thesis using assms(3) by (intro exI[of _ v]) simp
  next
    case False
    then obtain w where "order_at s w k \<noteq> None" using k assms(1) assms(8)[of k] unfolding tracks_def by metis
    then show ?thesis using assms(2)[of w k] False by (intro exI[of _ w]) auto
  qed
qed


definition only_at :: "venue_id \<Rightarrow> string \<Rightarrow> exec_state \<Rightarrow> exec_state \<Rightarrow> bool" where
  "only_at v i s s' \<longleftrightarrow> (\<forall>w k. (w, k) \<noteq> (v, i) \<longrightarrow> order_at s' w k = order_at s w k)"

lemma tracks_live:
  assumes "tracks s p" "only_at v i s s'" "order_at s' v i = Some o1" "Working o1"
    and "o_venue o1 = v" "o_id o1 = i" "plain_id i" "\<And>w. w \<noteq> v \<Longrightarrow> order_at s w i = None"
    and "mget (co_active p') i = Some a" "life a = life o1"
    and "\<And>k. k \<noteq> i \<Longrightarrow> mget (co_active p') k = mget (co_active p) k"
    and "\<And>k. plain_id k \<Longrightarrow> mget (co_rows p') k = mget (co_rows p) k"
  shows "tracks s' p'"
proof (rule tracks_update[OF assms(1) _ assms(3,5,6)])
  show "order_tracked p' o1" unfolding order_tracked_def assms(6) using assms(4,7,9,10) by simp
  show "o_venue b = v" if "mget (co_active p') i = Some b" for b
    using that assms(5,9) life_eqD(1)[OF assms(10)] by simp
  show "order_at s' w k = order_at s w k" if "(w, k) \<noteq> (v, i)" for w k using assms(2) that unfolding only_at_def by blast
qed (use assms(8,11,12) in blast)+

lemma tracks_end:
  assumes "tracks s p" "only_at v i s s'" "order_at s' v i = Some o1" "\<not> Working o1"
    and "o_venue o1 = v" "o_id o1 = i" "plain_id i" "\<And>w. w \<noteq> v \<Longrightarrow> order_at s w i = None"
    and "mget (co_active p') i = None" "mget (co_rows p') i = Some r" "life (cl_order r) = life o1"
    and "\<And>k. k \<noteq> i \<Longrightarrow> mget (co_active p') k = mget (co_active p) k"
    and "\<And>k. k \<noteq> i \<Longrightarrow> mget (co_rows p') k = mget (co_rows p) k"
  shows "tracks s' p'"
proof (rule tracks_update[OF assms(1) _ assms(3,5,6)])
  show "order_tracked p' o1" unfolding order_tracked_def assms(6) using assms(4,7,9-11) by simp
  show "order_at s' w k = order_at s w k" if "(w, k) \<noteq> (v, i)" for w k using assms(2) that unfolding only_at_def by blast
  show "o_venue b = v" if "mget (co_active p') i = Some b" for b using that assms(9) by simp
qed (use assms(8,12,13) in blast)+

lemma tracks_cong:
  assumes "tracks s p" "\<And>w k. order_at s' w k = order_at s w k"
    and "\<And>k. mget (co_active p') k = mget (co_active p) k" "\<And>k. plain_id k \<Longrightarrow> mget (co_rows p') k = mget (co_rows p) k"
  shows "tracks s' p'"
proof -
  have e: "order_at s' = order_at s" "mget (co_active p') = mget (co_active p)"
    by (intro ext; simp add: assms(2,3))+
  have "order_tracked p o1 \<Longrightarrow> order_tracked p' o1" for o1
    using assms(4)[of "o_id o1"] unfolding order_tracked_def e by auto
  moreover have "\<exists>v. order_at s v i \<noteq> None" if "plain_id i" "mget (co_rows p') i = Some r" for i r
    using that assms(4)[OF that(1)] assms(1) unfolding tracks_def by metis
  ultimately show ?thesis using assms(1) unfolding tracks_def e by blast
qed

lemma tracks_other_venue:
  "tracks s p \<Longrightarrow> order_at s v i = Some o1 \<Longrightarrow> w \<noteq> v \<Longrightarrow> order_at s w i = None"
  unfolding tracks_def by (metis option.distinct(1) not_None_eq)

lemma tracks_no_active:
  "tracks s p \<Longrightarrow> order_at s v i = None \<Longrightarrow> mget (co_active p) i = Some a \<Longrightarrow> o_venue a \<noteq> v"
  unfolding tracks_def by metis

lemma only_at_mutate: "only_at v i s (mutate v i ts fn s)"
  by (auto simp: only_at_def order_at_mutate)

lemma mutate_absent: "order_at s v i = None \<Longrightarrow> order_at (mutate v i ts fn s) w k = order_at s w k"
  by (simp add: order_at_mutate)

text \<open>An event that leaves the order's life as it was: the projection stays.\<close>

lemma tracks_mutate_same:
  assumes t: "tracks s p" and h: "\<And>o1. order_at s v i = Some o1 \<Longrightarrow> life (fn o1) = life o1"
  shows "tracks (mutate v i ts fn s) p"
proof (cases "order_at s v i")
  case None
  then show ?thesis using tracks_cong[OF t, of "mutate v i ts fn s" p] mutate_absent[OF None] by simp
next
  case (Some o1)
  note d = tracksD[OF t Some]
  have n: "order_at (mutate v i ts fn s) v i = Some ((fn o1)\<lparr>o_updatedMs := ts\<rparr>)" using Some by (simp add: order_at_mutate)
  have l: "life ((fn o1)\<lparr>o_updatedMs := ts\<rparr>) = life o1" using h[OF Some] by simp
  show ?thesis
  proof (rule tracks_update[OF t _ n])
    show "order_tracked p ((fn o1)\<lparr>o_updatedMs := ts\<rparr>)"
      using l d(3-6) life_eqD(2,4)[OF l] d(2) by (auto simp: order_tracked_def)
    show "o_venue a = v" if "mget (co_active p) i = Some a" for a
      using that d(1,4,5) life_eqD(1)[of a o1] by (cases "Working o1") auto
  qed (use life_eqD[OF l] d tracks_other_venue[OF t Some] in \<open>auto simp: order_at_mutate\<close>)
qed

text \<open>Events that mutate a live order, keeping it live.\<close>

lemma tracks_mutate:
  assumes t: "tracks s p"
    and f: "\<And>o1. order_at s v i = Some o1 \<Longrightarrow> o_venue (fn o1) = o_venue o1 \<and> o_id (fn o1) = o_id o1"
    and g: "\<And>o1 a. order_at s v i = Some o1 \<Longrightarrow> Working o1 \<Longrightarrow> life a = life o1 \<Longrightarrow> Working (fn o1) \<and> life (g a) = life (fn o1)"
    and h: "\<And>o1. order_at s v i = Some o1 \<Longrightarrow> \<not> Working o1 \<Longrightarrow> life (fn o1) = life o1"
  shows "tracks (mutate v i ts fn s) (closed_mutate v i ts' g p)"
proof (cases "order_at s v i")
  case None
  then have "closed_mutate v i ts' g p = p"
    using tracks_no_active[OF t None] by (auto simp: closed_mutate_def split: option.split)
  moreover have "tracks (mutate v i ts fn s) p" by (rule tracks_mutate_same[OF t]) (use None in simp)
  ultimately show ?thesis by simp
next
  case (Some o1)
  note d = tracksD[OF t Some]
  have n: "order_at (mutate v i ts fn s) v i = Some ((fn o1)\<lparr>o_updatedMs := ts\<rparr>)" using Some by (simp add: order_at_mutate)
  show ?thesis
  proof (cases "Working o1")
    case True
    then obtain a where a: "mget (co_active p) i = Some a" "life a = life o1" using d(4) by blast
    have v: "o_venue a = v" using life_eqD(1)[OF a(2)] d(1) by simp
    show ?thesis
    proof (rule tracks_live[OF t only_at_mutate n, where a = "(g a)\<lparr>o_updatedMs := ts'\<rparr>"])
      show "Working ((fn o1)\<lparr>o_updatedMs := ts\<rparr>)" using g[OF Some True a(2)] by (simp add: Working_def)
      show "life ((g a)\<lparr>o_updatedMs := ts'\<rparr>) = life ((fn o1)\<lparr>o_updatedMs := ts\<rparr>)" using g[OF Some True a(2)] by simp
    qed (use f[OF Some] d tracks_other_venue[OF t Some] a v in \<open>auto simp: closed_mutate_def\<close>)
  next
    case False
    have c: "closed_mutate v i ts' g p = p" using d(5)[OF False] by (simp add: closed_mutate_def)
    have "tracks (mutate v i ts fn s) p" by (rule tracks_mutate_same[OF t]) (use Some False h in auto)
    then show ?thesis by (simp add: c)
  qed
qed

text \<open>Events that end a live order.\<close>

lemma close_one_simps [simp]:
  "co_active (snd (close_one o1 i p)) = co_active p" "co_rows (snd (close_one o1 i p)) = mput i \<lparr>cl_rowID = i, cl_order = o1\<rparr> (co_rows p)"
  by (simp_all add: close_one_def close_row_def Let_def)

lemma closed_terminal_working:
  assumes "mget (co_active p) i = Some a" "o_venue a = v" "Working a" "o_id a = i"
  obtains b where "closed_terminal v i ts st reason p = close_one b i (p\<lparr>co_active := mdel i (co_active p)\<rparr>)"
    "life b = life (a\<lparr>o_status := st\<rparr>)" "o_updatedMs b = ts"
proof
  define b where "b = (let o2 = settle_submit st reason (a\<lparr>o_status := st, o_updatedMs := ts\<rparr>);
              o3 = (if st = StatusCanceled then confirm_action ActionCancel o2 else o2)
          in if reason \<noteq> '''' then o3\<lparr>o_rejectReason := reason\<rparr> else o3)"
  show l: "life b = life (a\<lparr>o_status := st\<rparr>)" by (simp add: b_def Let_def life_status)
  have ib: "o_id b = i" using life_eqD(2)[OF l] assms(4) by simp
  show "closed_terminal v i ts st reason p = close_one b i (p\<lparr>co_active := mdel i (co_active p)\<rparr>)"
    using assms ib by (simp add: closed_terminal_def Let_def b_def)
  show "o_updatedMs b = ts"
    by (auto simp: b_def Let_def settle_submit_def confirm_action_def split: option.split)
qed

lemma tracks_terminal:
  assumes t: "tracks s p" and st: "\<not> status_working st"
    and w: "\<And>o1. order_at s v i = Some o1 \<Longrightarrow> Working o1 \<Longrightarrow> life (fn o1) = life (o1\<lparr>o_status := st\<rparr>)"
    and h: "\<And>o1. order_at s v i = Some o1 \<Longrightarrow> \<not> Working o1 \<Longrightarrow> life (fn o1) = life o1"
  shows "tracks (mutate v i ts fn s) (snd (closed_terminal v i ts' st reason p))"
proof (cases "order_at s v i")
  case None
  then have "closed_terminal v i ts' st reason p = ([], p)"
    using tracks_no_active[OF t None] by (auto simp: closed_terminal_def split: option.split)
  moreover have "tracks (mutate v i ts fn s) p" by (rule tracks_mutate_same[OF t]) (use None in simp)
  ultimately show ?thesis by simp
next
  case (Some o1)
  note d = tracksD[OF t Some]
  have n: "order_at (mutate v i ts fn s) v i = Some ((fn o1)\<lparr>o_updatedMs := ts\<rparr>)" using Some by (simp add: order_at_mutate)
  show ?thesis
  proof (cases "Working o1")
    case True
    then obtain a where a: "mget (co_active p) i = Some a" "life a = life o1" using d(4) by blast
    have v: "o_venue a = v" "Working a" "o_id a = i" using life_eqD[OF a(2)] d(1,2) True by simp_all
    have l: "life ((fn o1)\<lparr>o_updatedMs := ts\<rparr>) = life (o1\<lparr>o_status := st\<rparr>)" using w[OF Some True] by simp
    obtain b where c: "closed_terminal v i ts' st reason p = close_one b i (p\<lparr>co_active := mdel i (co_active p)\<rparr>)"
      and lb: "life b = life (a\<lparr>o_status := st\<rparr>)" by (rule closed_terminal_working[OF a(1) v, of ts' st reason])
    have lb: "life b = life (o1\<lparr>o_status := st\<rparr>)" using lb a(2) by (simp add: life_status)
    show ?thesis unfolding c
      by (rule tracks_end[OF t only_at_mutate n, where r = "\<lparr>cl_rowID = i, cl_order = b\<rparr>"])
        (use st life_eqD[OF l] l lb d tracks_other_venue[OF t Some] in \<open>auto simp: Working_status\<close>)
  next
    case False
    have c: "closed_terminal v i ts' st reason p = ([], p)" using d(5)[OF False] by (simp add: closed_terminal_def)
    have "tracks (mutate v i ts fn s) p" by (rule tracks_mutate_same[OF t]) (use Some False h in auto)
    then show ?thesis by (simp add: c)
  qed
qed


lemma replace_row_not_plain: "\<not> plain_id (replace_row_id i n)"
  by (simp add: plain_id_def replace_row_id_def)

lemma life_replaced: "Working o1 \<Longrightarrow> life (apply_replaced q l x o1) = life (o1\<lparr>o_status := StatusAccepted\<rparr>)"
  by (simp add: apply_replaced_def Let_def life_def confirm_action_def split: option.split)

lemma tracks_replace:
  assumes t: "tracks s p"
  shows "tracks (mutate v i ts (apply_replaced q l x) s) (snd (closed_replace v i q l x ts' seq p))"
proof (cases "order_at s v i")
  case None
  then have "closed_replace v i q l x ts' seq p = ([], p)"
    using tracks_no_active[OF t None] by (auto simp: closed_replace_def split: option.split)
  moreover have "tracks (mutate v i ts (apply_replaced q l x) s) p" by (rule tracks_mutate_same[OF t]) (use None in simp)
  ultimately show ?thesis by simp
next
  case (Some o1)
  note d = tracksD[OF t Some]
  have n: "order_at (mutate v i ts (apply_replaced q l x) s) v i = Some ((apply_replaced q l x o1)\<lparr>o_updatedMs := ts\<rparr>)"
    using Some by (simp add: order_at_mutate)
  show ?thesis
  proof (cases "Working o1")
    case True
    then obtain a where a: "mget (co_active p) i = Some a" "life a = life o1" using d(4) by blast
    have v: "o_venue a = v" "Working a" "o_id a = i" using life_eqD[OF a(2)] d(1,2) True by simp_all
    have w: "Working ((apply_replaced q l x o1)\<lparr>o_updatedMs := ts\<rparr>)"
      using life_eqD(4)[OF life_replaced[OF True]] by (simp add: Working_def)
    obtain b where b: "mget (co_active (snd (closed_replace v i q l x ts' seq p))) i = Some b"
      "life b = life (o1\<lparr>o_status := StatusAccepted\<rparr>)"
      using a v by (auto simp: closed_replace_def close_row_def Let_def life_status)
    show ?thesis
    proof (rule tracks_live[OF t only_at_mutate n w _ _ d(3) _ b(1)])
      show "life b = life ((apply_replaced q l x o1)\<lparr>o_updatedMs := ts\<rparr>)" using b(2) life_replaced[OF True] by simp
      show "mget (co_active (snd (closed_replace v i q l x ts' seq p))) k = mget (co_active p) k" if "k \<noteq> i" for k
        using that a v by (simp add: closed_replace_def close_row_def Let_def)
      show "mget (co_rows (snd (closed_replace v i q l x ts' seq p))) k = mget (co_rows p) k" if "plain_id k" for k
      proof -
        have "k \<noteq> replace_row_id j n" for j n using that replace_row_not_plain by metis
        then show ?thesis using a v by (simp add: closed_replace_def close_row_def Let_def)
      qed
    qed (use d tracks_other_venue[OF t Some] in auto)
  next
    case False
    have "closed_replace v i q l x ts' seq p = ([], p)" using d(5)[OF False] by (simp add: closed_replace_def)
    moreover have "tracks (mutate v i ts (apply_replaced q l x) s) p"
      by (rule tracks_mutate_same[OF t]) (use Some False in \<open>auto simp: apply_replaced_def\<close>)
    ultimately show ?thesis by simp
  qed
qed


text \<open>Events that bring an order in.\<close>

lemma tracks_put:
  assumes t: "tracks s p" and o1: "plain_id (o_id o1)" "\<And>w. w \<noteq> o_venue o1 \<Longrightarrow> order_at s w (o_id o1) = None"
    and s': "\<And>w k. order_at s' w k = (if w = o_venue o1 \<and> k = o_id o1 then Some o2 else order_at s w k)" "life o2 = life o1"
    and a: "\<And>k. mget (co_active p') k = (if k = o_id o1 then (if Working o1 then Some o1 else None) else mget (co_active p) k)"
    and r: "\<And>k. mget (co_rows p') k =
      (if k = o_id o1 \<and> \<not> Working o1 then Some \<lparr>cl_rowID = o_id o1, cl_order = o1\<rparr> else mget (co_rows p) k)"
  shows "tracks s' p'"
proof (rule tracks_update[OF t, of "o_venue o1" "o_id o1" s' o2])
  note l = life_eqD[OF s'(2)]
  show "o_venue o2 = o_venue o1" "o_id o2 = o_id o1" using l by simp_all
  show "order_tracked p' o2" unfolding order_tracked_def using o1(1) l s'(2) by (simp add: a r)
  show "o_venue b = o_venue o1" if "mget (co_active p') (o_id o1) = Some b" for b
    using that by (auto simp: a split: if_splits)
qed (use o1 in \<open>auto simp: s'(1) a r\<close>)

lemma order_at_recorded [simp]:
  "order_at (record_order o1 s) w k = (if w = o_venue o1 \<and> k = o_id o1 then Some o1 else order_at s w k)"
  by (simp add: record_order_def)

lemma tracks_leg:
  assumes "tracks s p" "o_id o1 = '''' \<or> plain_id (o_id o1) \<and> (\<forall>w. w \<noteq> o_venue o1 \<longrightarrow> order_at s w (o_id o1) = None)"
  shows "tracks (if o_id o1 \<noteq> '''' then record_order o1 s else s) (snd (closed_leg o1 (rows, p)))"
proof (cases "o_id o1 = ''''")
  case True
  then show ?thesis using assms(1) by (simp add: closed_leg_def)
next
  case False
  show ?thesis
    by (rule tracks_put[OF assms(1), of o1 _ o1])
      (use assms(2) False in \<open>auto simp: closed_leg_def close_row_def Let_def\<close>)
qed

lemma tracks_blocked:
  assumes t: "tracks s p" and i: "new_id s i" and a: "mget (co_active p) i = None"
  shows "tracks (index_order i v (put_order (blocked_order v i req reason ts) v i s))
    (snd (close_one (blocked_order v i req reason ts) i p))"
proof (rule tracks_put[OF t, of "blocked_order v i req reason ts" _ "blocked_order v i req reason ts"])
qed (use i a in \<open>auto simp: blocked_order_def order0_def new_id_def Working_def\<close>)

lemma active_known: "tracks s p \<Longrightarrow> new_id s i \<Longrightarrow> mget (co_active p) i = None"
  unfolding tracks_def new_id_def by (metis not_None_eq)

lemma row_known: "tracks s p \<Longrightarrow> new_id s i \<Longrightarrow> mget (co_rows p) i = None"
  unfolding tracks_def new_id_def by (metis not_None_eq)

text \<open>Fills.\<close>

lemma order_at_after_fill:
  "o_id (fill_base f s) = f_orderID f \<Longrightarrow>
   order_at (applyFill f cum leaves avg s) w k = (if w = f_venue f \<and> k = f_orderID f
     then Some (apply_fill_order cum leaves avg (f_tsMs f) (fill_base f s)) else order_at s w k)"
  using applyFill_unfold[of f cum leaves avg s] by (auto simp: order_at_def)

lemma life_fill:
  "life (apply_fill_order cum leaves avg ts o1) =
     (o_venue o1, o_id o1, o_symbol o1, o_side o1, if leaves \<le> 0 then StatusFilled else StatusPartiallyFilled, cum, avg)"
  by (simp add: apply_fill_order_def Let_def life_def confirmSubmitAction_def split: option.split)

lemma Working_fill: "Working (apply_fill_order cum leaves avg ts o1) \<longleftrightarrow> \<not> leaves \<le> 0"
  by (simp add: apply_fill_order_def Let_def Working_def)

definition closed_base :: "exec_fill \<Rightarrow> closed_orders \<Rightarrow> exec_order" where
  "closed_base f p = (case mget (co_active p) (f_orderID f) of Some a \<Rightarrow> a | None \<Rightarrow> fill_stub f)"

text \<open>The order a fill leaves behind, with its status.\<close>

definition closed_filled :: "exec_fill \<Rightarrow> f64 \<Rightarrow> f64 \<Rightarrow> f64 \<Rightarrow> order_status \<Rightarrow> closed_orders \<Rightarrow> exec_order" where
  "closed_filled f cum leaves avg st p =
     (confirmSubmitAction ((closed_base f p)\<lparr>o_executedQty := cum, o_leavesQty := leaves, o_avgFillPrice := avg\<rparr>))
       \<lparr>o_updatedMs := f_tsMs f, o_status := st\<rparr>"

lemma closed_filled_simps [simp]:
  "o_id (closed_filled f cum leaves avg st p) = o_id (closed_base f p)"
  "o_status (closed_filled f cum leaves avg st p) = st"
  "life (closed_filled f cum leaves avg st p) = (o_venue (closed_base f p), o_id (closed_base f p), o_symbol (closed_base f p),
     o_side (closed_base f p), st, cum, avg)"
  by (auto simp: closed_filled_def life_def confirmSubmitAction_def split: option.split)

lemma closed_fill_unfold:
  "closed_fill f cum leaves avg p =
     (if leaves > 0
      then ([], p\<lparr>co_active := mput (o_id (closed_base f p)) (closed_filled f cum leaves avg StatusPartiallyFilled p) (co_active p)\<rparr>)
      else if \<not> mhas (co_active p) (f_orderID f) \<and>
              row_filled (o_id (closed_base f p)) p
      then ([], p)
      else close_one (closed_filled f cum leaves avg StatusFilled p) (o_id (closed_base f p))
             (p\<lparr>co_active := mdel (o_id (closed_base f p)) (co_active p)\<rparr>))"
  by (cases "mget (co_active p) (f_orderID f)")
    (simp_all add: closed_fill_def closed_base_def closed_filled_def fill_stub_def Let_def)

lemma tracks_fill:
  assumes t: "tracks s p" and e: "in_order s (OrderFilled f cum leaves avg x)"
  shows "tracks (applyFill f cum leaves avg s) (snd (closed_fill f cum leaves avg p))"
proof -
  define i where "i = f_orderID f"
  define v where "v = f_venue f"
  define o2 where "o2 = apply_fill_order cum leaves avg (f_tsMs f) (fill_base f s)"
  have leaves: "leaves \<le> 0 \<longleftrightarrow> \<not> 0 < leaves" using e f64_not_le[of leaves 0] by (auto simp: zero_f64_def)
  have B: "(o_venue (fill_base f s) = v \<and> o_id (fill_base f s) = i \<and> o_symbol (fill_base f s) = f_symbol f \<and>
      o_side (fill_base f s) = f_side f) \<and> plain_id i \<and> (\<forall>w. w \<noteq> v \<longrightarrow> order_at s w i = None)"
  proof -
    consider (new) "order_at s v i = None" "new_id s i"
      | (known) o1 where "order_at s v i = Some o1" "o_symbol o1 = f_symbol f" "o_side o1 = f_side f"
      using e by (cases "order_at s v i") (auto simp: i_def v_def)
    then show ?thesis
    proof cases
      case new
      then show ?thesis by (simp add: fill_base_def fill_stub_def new_id_def v_def[symmetric] i_def[symmetric])
    next
      case known
      then show ?thesis using tracksD[OF t known(1)] tracks_other_venue[OF t known(1)]
        by (simp add: fill_base_def v_def[symmetric] i_def[symmetric])
    qed
  qed
  note base = B[THEN conjunct1] and plain = B[THEN conjunct2, THEN conjunct1]
    and other = B[THEN conjunct2, THEN conjunct2, rule_format]
  have cb: "o_venue (closed_base f p) = v \<and> o_id (closed_base f p) = i \<and> o_symbol (closed_base f p) = f_symbol f \<and>
      o_side (closed_base f p) = f_side f"
  proof (cases "mget (co_active p) i")
    case None
    then show ?thesis by (simp add: closed_base_def fill_stub_def v_def[symmetric] i_def[symmetric])
  next
    case (Some a)
    then have "order_at s (o_venue a) i \<noteq> None" using t unfolding tracks_def by blast
    then obtain o1 where o1: "order_at s v i = Some o1" "o_venue a = v" using other by (cases "o_venue a = v") auto
    have "Working o1" using Some tracksD(5)[OF t o1(1)] by (cases "Working o1") auto
    then have "life a = life o1" using tracksD(4)[OF t o1(1)] Some by simp
    then have "life a = life (fill_base f s)" using o1 by (simp add: fill_base_def v_def i_def)
    then show ?thesis using base Some by (simp add: closed_base_def i_def[symmetric] life_def)
  qed
  have at: "order_at (applyFill f cum leaves avg s) w k = (if w = v \<and> k = i then Some o2 else order_at s w k)" for w k
    using order_at_after_fill[of f s cum leaves avg w k] base by (simp add: i_def v_def o2_def)
  have only: "only_at v i s (applyFill f cum leaves avg s)" by (auto simp: only_at_def at)
  have n: "order_at (applyFill f cum leaves avg s) v i = Some o2" by (simp add: at)
  have o2: "o_venue o2 = v" "o_id o2 = i" using base by (simp_all add: o2_def)
  have lf: "life (closed_filled f cum leaves avg (if leaves \<le> 0 then StatusFilled else StatusPartiallyFilled) p) = life o2"
    by (simp add: o2_def life_fill base cb)
  show ?thesis
  proof (cases "0 < leaves")
    case True
    show ?thesis
      by (rule tracks_live[OF t only n _ o2 plain other, of _ "closed_filled f cum leaves avg StatusPartiallyFilled p"])
        (use True leaves lf in \<open>simp_all add: closed_fill_unfold cb o2_def Working_fill\<close>)
  next
    case False
    have st: "\<not> row_filled i p" if "\<not> mhas (co_active p) i"
    proof (cases "order_at s v i")
      case None
      then have "new_id s i" using e by (simp add: i_def v_def)
      then show ?thesis using row_known[OF t] by (simp add: row_filled_def)
    next
      case (Some o1)
      then have "\<not> Working o1" using tracksD(4)[OF t Some] that by (auto simp: mhas_def)
      then obtain r where r: "mget (co_rows p) i = Some r" "life (cl_order r) = life o1" using tracksD(6)[OF t Some] by blast
      have "o_status o1 \<noteq> StatusFilled" using e Some by (simp add: i_def v_def)
      then show ?thesis using r life_eqD(3)[OF r(2)] by (simp add: row_filled_def)
    qed
    have c: "closed_fill f cum leaves avg p = close_one (closed_filled f cum leaves avg StatusFilled p) i
        (p\<lparr>co_active := mdel i (co_active p)\<rparr>)"
      using False st by (auto simp: closed_fill_unfold cb i_def[symmetric])
    show ?thesis unfolding c
      by (rule tracks_end[OF t only n _ o2 plain other,
            where r = "\<lparr>cl_rowID = i, cl_order = closed_filled f cum leaves avg StatusFilled p\<rparr>"])
        (use False leaves lf in \<open>simp_all add: o2_def Working_fill\<close>)
  qed
qed


lemma tracks_step:
  assumes t: "tracks s p" and e: "in_order s e"
  shows "tracks (Apply s e) (snd (closed_apply e seq p))"
proof (cases e)
  case (RiskEntryChanged entry stop)
  obtain rows q where q: "closed_leg entry ([], p) = (rows, q)" by fastforce
  have pre: "o_id o1 = '''' \<or> plain_id (o_id o1) \<and> (\<forall>w. w \<noteq> o_venue o1 \<longrightarrow> order_at s w (o_id o1) = None)"
    if "o1 \<in> {entry, stop}" for o1 using e that by (auto simp: RiskEntryChanged)
  define s1 where "s1 = (if o_id entry \<noteq> '''' then record_order entry s else s)"
  have "tracks s1 q" using tracks_leg[OF t pre[of entry], of "[]"] by (simp add: q s1_def)
  moreover have "o_id stop = '''' \<or> plain_id (o_id stop) \<and> (\<forall>w. w \<noteq> o_venue stop \<longrightarrow> order_at s1 w (o_id stop) = None)"
    using pre[of stop] e by (auto simp: s1_def RiskEntryChanged)
  ultimately have "tracks (if o_id stop \<noteq> '''' then record_order stop s1 else s1) (snd (closed_leg stop (rows, q)))"
    by (rule tracks_leg)
  moreover have "Apply s e = (if o_id stop \<noteq> '''' then record_order stop s1 else s1)"
    by (simp add: RiskEntryChanged s1_def)
  ultimately show ?thesis by (simp add: RiskEntryChanged q)
next
  case (OrderSubmitted o1)
  then have o1: "Working o1" "new_id s (o_id o1)" using e by simp_all
  define o2 where "o2 = (if feq (o_leavesQty o1) 0 \<and> feq (o_executedQty o1) 0 then o1\<lparr>o_leavesQty := o_qty o1\<rparr> else o1)"
  have o2: "o_venue o2 = o_venue o1" "o_id o2 = o_id o1" "life o2 = life o1" by (simp_all add: o2_def)
  show ?thesis
    by (rule tracks_put[OF t, of o1 _ o2]) (use o1 o2 in \<open>auto simp: OrderSubmitted new_id_def o2_def[symmetric]\<close>)
next
  case (OrderBlocked v i req reason ts)
  then show ?thesis using tracks_blocked[OF t] active_known[OF t] e by simp
next
  case (OrderFilled f cum leaves avg x)
  then show ?thesis using tracks_fill[OF t] e by simp
next
  case (OrderAccepted v i b ts)
  then show ?thesis using e
    by (simp only: Apply.simps closed_apply.simps snd_conv)
      (rule tracks_mutate[OF t], auto simp: works_if_known_def Working_def life_status)
next
  case (OrderActionChanged v i action ts)
  then show ?thesis
    by (simp only: Apply.simps closed_apply.simps snd_conv) (rule tracks_mutate[OF t], auto simp: Working_def)
next
  case (OrderRejected v i reason ts)
  then show ?thesis using e
    by (simp only: Apply.simps closed_apply.simps) (rule tracks_terminal[OF t], auto simp: works_if_known_def life_status)
next
  case (OrderCanceled v i ts)
  then show ?thesis
    by (simp only: Apply.simps closed_apply.simps) (rule tracks_terminal[OF t], auto)
next
  case (OrderExpired v i ts)
  then show ?thesis
    by (simp only: Apply.simps closed_apply.simps) (rule tracks_terminal[OF t], auto)
next
  case (OrderReplaced v i q l x ts)
  then show ?thesis using tracks_replace[OF t] by simp
next
  case (HeldOrderChanged v i held ts)
  have l: "life (apply_held held o1) = life o1" for o1
    by (simp add: apply_held_def Let_def life_def split: option.split)
  have "tracks (mutate v i ts (apply_held held) s) p" by (rule tracks_mutate_same[OF t]) (rule l)
  then show ?thesis by (simp add: HeldOrderChanged)
next
  case (StreamGap v ts)
  then show ?thesis using t by simp
next
  case (FlattenPendingChanged v b ts)
  have "order_at (SetFlattenPending v b s) w k = order_at s w k" for w k
    by (simp add: SetFlattenPending_def order_at_def)
  then show ?thesis using tracks_cong[OF t] by (simp add: FlattenPendingChanged)
qed


text \<open>The projection of a log with its sequence numbers, and its discipline.\<close>

definition closed_replay :: "(event \<times> int) list \<Rightarrow> closed_orders" where
  "closed_replay es = foldl (\<lambda>p (e, seq). snd (closed_apply e seq p)) newClosedOrders es"

fun log_in_order :: "exec_state \<Rightarrow> (event \<times> int) list \<Rightarrow> bool" where
  "log_in_order s [] \<longleftrightarrow> True"
| "log_in_order s ((e, seq) # es) \<longleftrightarrow> in_order s e \<and> log_in_order (Apply s e) es"

lemma tracks_fold:
  "tracks s p \<Longrightarrow> log_in_order s es \<Longrightarrow>
   tracks (foldl Apply s (map fst es)) (foldl (\<lambda>p (e, seq). snd (closed_apply e seq p)) p es)"
proof (induction es arbitrary: s p)
  case (Cons x es)
  obtain e seq where x: "x = (e, seq)" by fastforce
  have "tracks (Apply s e) (snd (closed_apply e seq p))" using tracks_step Cons.prems by (simp add: x)
  then show ?case using Cons.IH Cons.prems(2) by (simp add: x)
qed simp

lemma tracks_new: "tracks (NewState venues) newClosedOrders"
  by (simp add: tracks_def newClosedOrders_def)

section \<open>Properties\<close>

text \<open>The condition \<open>log_in_order\<close> is one the core does not enforce: a transport error or a late acknowledgement can append an
  \<open>OrderRejected\<close> or an \<open>OrderAccepted\<close> for an order that has ended (\<open>postSubmit\<close> and \<open>handleBrokerEvent\<close> in
  \<open>core.go\<close>). The lemma says what holds when it does not happen; \<open>late_acceptance_splits\<close> below what happens when it does.\<close>

lemma history_refines_state:
  assumes "log_in_order (NewState venues) es"
    and "order_at (Replay (map fst es) venues) v i = Some o1"
  shows "if Working o1 then \<exists>a. mget (co_active (closed_replay es)) i = Some a \<and> life a = life o1
     else mget (co_active (closed_replay es)) i = None \<and>
          (\<exists>r. mget (co_rows (closed_replay es)) i = Some r \<and> life (cl_order r) = life o1)"
proof -
  have "tracks (Replay (map fst es) venues) (closed_replay es)"
    using tracks_fold[OF tracks_new assms(1)] by (simp add: Replay_def closed_replay_def)
  from tracksD[OF this assms(2)] show ?thesis by simp
qed

text \<open>Which events end an order, and for which ID.\<close>

fun ends_order :: "event \<Rightarrow> string \<Rightarrow> bool" where
  "ends_order (OrderRejected _ k _ _) i \<longleftrightarrow> k = i"
| "ends_order (OrderCanceled _ k _) i \<longleftrightarrow> k = i"
| "ends_order (OrderExpired _ k _) i \<longleftrightarrow> k = i"
| "ends_order (OrderReplaced _ k _ _ _ _) i \<longleftrightarrow> k = i"
| "ends_order (OrderFilled f _ leaves _ _) i \<longleftrightarrow> f_orderID f = i \<and> \<not> 0 < leaves"
| "ends_order _ i \<longleftrightarrow> False"

definition own_ids :: "closed_orders \<Rightarrow> bool" where
  "own_ids p \<longleftrightarrow> (\<forall>i a. mget (co_active p) i = Some a \<longrightarrow> o_id a = i)"

theorem filled_row_is_final:
  assumes "mget (co_active p) i = None" "mget (co_rows p) i = Some r" "o_status (cl_order r) = StatusFilled"
    and "ends_order e i"
  shows "closed_apply e seq p = ([], p)"
proof -
  have "row_filled i p" using assms(2,3) by (simp add: row_filled_def)
  then show ?thesis using assms(1,4)
    by (cases e) (auto simp: closed_terminal_def closed_replace_def closed_fill_unfold closed_base_def fill_stub_def mhas_def)
qed

theorem terminal_closes_once:
  assumes "mget (co_active p) i = Some a" "o_id a = i" "o_venue a = v" "Working a"
    and "e \<in> {OrderRejected v i reason ts, OrderCanceled v i ts, OrderExpired v i ts}"
    and "e' \<in> {OrderRejected v i reason' ts', OrderCanceled v i ts', OrderExpired v i ts'}"
  shows "let (rows, q) = closed_apply e seq p in
     map cl_rowID rows = [i] \<and> (\<forall>r \<in> set rows. \<not> Working (cl_order r) \<and> o_updatedMs (cl_order r) = ts \<and> mget (co_rows q) i = Some r) \<and>
     closed_apply e' seq' q = ([], q)"
proof -
  have ends: "let (rows, q) = closed_terminal v i ts st why p in
     map cl_rowID rows = [i] \<and> (\<forall>r \<in> set rows. \<not> Working (cl_order r) \<and> o_updatedMs (cl_order r) = ts \<and> mget (co_rows q) i = Some r) \<and>
     mget (co_active q) i = None" if st: "\<not> status_working st" for st why
  proof -
    obtain b where c: "closed_terminal v i ts st why p = close_one b i (p\<lparr>co_active := mdel i (co_active p)\<rparr>)"
      and b: "life b = life (a\<lparr>o_status := st\<rparr>)" "o_updatedMs b = ts"
      by (rule closed_terminal_working[OF assms(1,3,4,2), of ts st why])
    have "\<not> Working b" using st life_eqD(3)[OF b(1)] by (simp add: Working_status)
    then show ?thesis by (simp add: c close_one_def close_row_def Let_def b(2))
  qed
  have gone: "closed_apply e' seq' q = ([], q)" if "mget (co_active q) i = None" for q
    using that assms(6) by (auto simp: closed_terminal_def)
  show ?thesis using assms(5) ends[of StatusRejected reason] ends[of StatusCanceled "''''"] ends[of StatusExpired "''''"] gone
    by (auto simp: split_beta)
qed

theorem snapshot_is_sorted_history:
  "mset (snapshotSince cutoffMs p) = mset (filter (\<lambda>r. cutoffMs \<le> o_updatedMs (cl_order r)) (map snd (co_rows p))) \<and>
   sorted_wrt (\<lambda>a b. o_updatedMs (cl_order a) < o_updatedMs (cl_order b) \<or>
     o_updatedMs (cl_order a) = o_updatedMs (cl_order b) \<and> cl_rowID a \<le> cl_rowID b) (snapshotSince cutoffMs p)"
proof
  show "mset (snapshotSince cutoffMs p) = mset (filter (\<lambda>r. cutoffMs \<le> o_updatedMs (cl_order r)) (map snd (co_rows p)))"
    by (simp add: snapshotSince_def linorder_not_less)
  show "sorted_wrt (\<lambda>a b. o_updatedMs (cl_order a) < o_updatedMs (cl_order b) \<or>
     o_updatedMs (cl_order a) = o_updatedMs (cl_order b) \<and> cl_rowID a \<le> cl_rowID b) (snapshotSince cutoffMs p)"
    unfolding snapshotSince_def
    by (rule sorted_wrt_mono_rel[OF _ row_order.sorted_SliceStable]) (auto simp: row_less_def not_less split: if_splits)
qed


text \<open>A submitted, accepted and canceled order, and one that fills.\<close>

definition sample_history :: "(event \<times> int) list" where
  "sample_history = [(OrderSubmitted sample_order, 1), (OrderAccepted ''sim'' ''ET1'' ''b1'' 2000, 2), (OrderCanceled ''sim'' ''ET1'' 4000, 3)]"

definition sample_filled :: closed_orders where
  "sample_filled = closed_replay [(OrderSubmitted sample_order, 1), (OrderFilled (sample_fill (Fin 100)) (Fin 100) 0 (Fin 11) '''', 2)]"

lemma history_refines_state_witness:
  "\<exists>r. mget (co_rows (closed_replay sample_history)) ''ET1'' = Some r \<and> o_status (cl_order r) = StatusCanceled"
proof -
  have "log_in_order (NewState [''sim'']) sample_history"
    by (simp add: sample_history_def sample_order_def sample_request_def new_id_def plain_id_def Working_def works_if_known_def order_at_mutate)
  moreover obtain o1 where o1: "order_at (Replay (map fst sample_history) [''sim'']) ''sim'' ''ET1'' = Some o1" "o_status o1 = StatusCanceled"
  proof -
    have "map_option o_status (order_at (Replay (map fst sample_history) [''sim'']) ''sim'' ''ET1'') = Some StatusCanceled"
      by code_simp
    then show ?thesis using that by auto
  qed
  ultimately show ?thesis
  proof -
    assume ok: "log_in_order (NewState [''sim'']) sample_history"
    have "\<not> Working o1" using o1(2) by (simp add: Working_def)
    then obtain r where r: "mget (co_rows (closed_replay sample_history)) ''ET1'' = Some r" "life (cl_order r) = life o1"
      using history_refines_state[OF ok o1(1)] by auto
    then show ?thesis using life_eqD(3)[OF r(2)] o1(2) by simp
  qed
qed

text \<open>An acceptance that comes after the cancel: the state shows the order working again, the history keeps its row.\<close>

lemma late_acceptance_splits:
  "map_option Working (order_at (Replay (map fst (sample_history @ [(OrderAccepted ''sim'' ''ET1'' ''b1'' 5000, 4)])) [''sim''])
     ''sim'' ''ET1'') = Some True \<and>
   mget (co_active (closed_replay (sample_history @ [(OrderAccepted ''sim'' ''ET1'' ''b1'' 5000, 4)]))) ''ET1'' = None"
  by code_simp

lemma filled_row_is_final_witness:
  "closed_apply (OrderCanceled ''sim'' ''ET1'' 9000) 5 sample_filled = ([], sample_filled)"
proof -
  have "map_option (\<lambda>r. o_status (cl_order r)) (mget (co_rows sample_filled) ''ET1'') = Some StatusFilled"
    "mget (co_active sample_filled) ''ET1'' = None" by code_simp+
  then show ?thesis using filled_row_is_final[of sample_filled "''ET1''" _ "OrderCanceled ''sim'' ''ET1'' 9000" 5] by auto
qed

lemma terminal_closes_once_witness:
  "let (rows, q) = closed_apply (OrderExpired ''sim'' ''ET1'' 9000) 2 (closed_replay [(OrderSubmitted sample_order, 1)]) in
     map cl_rowID rows = [''ET1''] \<and> closed_apply (OrderCanceled ''sim'' ''ET1'' 9500) 3 q = ([], q)"
proof -
  have a: "mget (co_active (closed_replay [(OrderSubmitted sample_order, 1)])) ''ET1'' = Some sample_order"
    by (simp add: closed_replay_def sample_order_def sample_request_def newClosedOrders_def)
  have b: "o_id sample_order = ''ET1''" "o_venue sample_order = ''sim''" "Working sample_order"
    by (simp_all add: sample_order_def sample_request_def Working_def)
  show ?thesis
    using terminal_closes_once[OF a b, of "OrderExpired ''sim'' ''ET1'' 9000" "''''" 9000 "OrderCanceled ''sim'' ''ET1'' 9500" "''''" 9500 2 3]
    by (auto simp: split_beta)
qed

end
