(* ===== verification/RoundTrip.thy ===== *)
theory RoundTrip
  imports Reconcile
begin

text \<open>
  Closed round trips and the trading-cycle projection, both folds of the fill stream:
  \<open>internal/exec/roundtrip.go\<close> and \<open>cycle.go\<close>. A trip is kept by venue and symbol from the
  fill that opens it to the fill that flattens or flips it. For whole share counts both
  projections keep exactly the net position, whatever the sequence of fills.
\<close>

section \<open>Round trips\<close>

record closed_trade =
  ct_venue :: venue_id
  ct_symbol :: string
  ct_isLong :: bool
  ct_qty :: f64
  ct_entryPrice :: f64
  ct_exitPrice :: f64
  ct_realized :: f64
  ct_openMs :: int
  ct_closeMs :: int
  ct_seq :: int

type_synonym trip_key = "venue_id \<times> string"

record open_trip =
  ot_isLong :: bool
  ot_openMs :: int
  ot_openQty :: f64
  ot_openNotional :: f64
  ot_closeQty :: f64
  ot_closeNotional :: f64
  ot_cash :: f64
  ot_running :: f64

record trip_aggregator =
  ra_trips :: "(trip_key, open_trip) gomap"
  ra_seq :: int

definition NewRoundTripAggregator :: trip_aggregator where
  "NewRoundTripAggregator = \<lparr>ra_trips = [], ra_seq = 0\<rparr>"

definition OpenMs :: "trip_aggregator \<Rightarrow> venue_id \<Rightarrow> string \<Rightarrow> int" where
  "OpenMs a v symbol = (case mget (ra_trips a) (v, symbol) of Some t \<Rightarrow> ot_openMs t | None \<Rightarrow> 0)"

definition seedPosition :: "exec_position \<Rightarrow> trip_aggregator \<Rightarrow> trip_aggregator" where
  "seedPosition p a =
     (if feq (p_qty p) 0 then a
      else let qty = \<bar>p_qty p\<bar> in
        a\<lparr>ra_trips := mput (p_venue p, p_symbol p)
            \<lparr>ot_isLong = p_qty p > 0, ot_openMs = p_openedMs p, ot_openQty = qty,
             ot_openNotional = qty * p_avgPrice p, ot_closeQty = 0, ot_closeNotional = 0,
             ot_cash = 0, ot_running = p_qty p\<rparr> (ra_trips a)\<rparr>)"

text \<open>\<open>reconcilePositions\<close>: the first loop over the snapshot, then the sweep of absent keys.\<close>

definition reconcile_one :: "venue_id \<Rightarrow> exec_position \<Rightarrow> trip_key list \<times> trip_aggregator \<Rightarrow> trip_key list \<times> trip_aggregator" where
  "reconcile_one v p0 st =
     (let (seen, a) = st in
      if feq (p_qty p0) 0 then st
      else let key = (v, p_symbol p0); p = p0\<lparr>p_venue := v\<rparr>; seen = key # seen in
        case mget (ra_trips a) key of
          None \<Rightarrow> (seen, seedPosition p a)
        | Some t \<Rightarrow>
            if (ot_running t > 0) \<noteq> (p_qty p > 0) then (seen, seedPosition p a)
            else let t = t\<lparr>ot_running := p_qty p\<rparr>;
                     t = (if ot_openMs t = 0 \<and> p_openedMs p > 0 then t\<lparr>ot_openMs := p_openedMs p\<rparr> else t)
                 in (seen, a\<lparr>ra_trips := mput key t (ra_trips a)\<rparr>))"

definition reconcileTrips :: "venue_id \<Rightarrow> exec_position list \<Rightarrow> trip_aggregator \<Rightarrow> trip_aggregator" where
  "reconcileTrips v ps a =
     (let (seen, a1) = foldl (\<lambda>st p. reconcile_one v p st) ([], a) ps in
      a1\<lparr>ra_trips := filter (\<lambda>(key, _). fst key \<noteq> v \<or> key \<in> set seen) (ra_trips a1)\<rparr>)"

definition signedFillQty :: "exec_fill \<Rightarrow> f64" where
  "signedFillQty f = (if longward (f_side f) then f_qty f else - f_qty f)"

definition cashSign :: "side \<Rightarrow> f64" where
  "cashSign sd = (if sd = SideSell \<or> sd = SideShort then 1 else - 1)"

definition toClosedTrade :: "open_trip \<Rightarrow> venue_id \<Rightarrow> string \<Rightarrow> int \<Rightarrow> int \<Rightarrow> closed_trade" where
  "toClosedTrade t v symbol closeMs seq = \<lparr>ct_venue = v, ct_symbol = symbol, ct_isLong = ot_isLong t,
     ct_qty = ot_openQty t, ct_entryPrice = ot_openNotional t / ot_openQty t,
     ct_exitPrice = ot_closeNotional t / ot_closeQty t, ct_realized = ot_cash t,
     ct_openMs = ot_openMs t, ct_closeMs = closeMs, ct_seq = seq\<rparr>"

definition new_trip :: "side \<Rightarrow> int \<Rightarrow> f64 \<Rightarrow> f64 \<Rightarrow> f64 \<Rightarrow> open_trip" where
  "new_trip sd tsMs qty price running = \<lparr>ot_isLong = longward sd, ot_openMs = tsMs, ot_openQty = qty,
     ot_openNotional = price * qty, ot_closeQty = 0, ot_closeNotional = 0,
     ot_cash = cashSign sd * price * qty, ot_running = running\<rparr>"

definition scale_in :: "side \<Rightarrow> f64 \<Rightarrow> f64 \<Rightarrow> f64 \<Rightarrow> open_trip \<Rightarrow> open_trip" where
  "scale_in sd qty price d t = t\<lparr>ot_openQty := ot_openQty t + qty,
     ot_openNotional := ot_openNotional t + price * qty,
     ot_cash := ot_cash t + cashSign sd * price * qty, ot_running := ot_running t + d\<rparr>"

definition close_part :: "side \<Rightarrow> f64 \<Rightarrow> f64 \<Rightarrow> open_trip \<Rightarrow> open_trip" where
  "close_part sd closeQty price t = t\<lparr>ot_closeQty := ot_closeQty t + closeQty,
     ot_closeNotional := ot_closeNotional t + price * closeQty,
     ot_cash := ot_cash t + cashSign sd * price * closeQty\<rparr>"

definition Trip_Apply ::
  "venue_id \<Rightarrow> string \<Rightarrow> side \<Rightarrow> f64 \<Rightarrow> f64 \<Rightarrow> int \<Rightarrow> trip_aggregator \<Rightarrow> closed_trade list \<times> trip_aggregator" where
  "Trip_Apply v symbol sd qty price tsMs a =
     (let key = (v, symbol); d = (if longward sd then qty else - qty) in
      case mget (ra_trips a) key of
        None \<Rightarrow> ([], a\<lparr>ra_trips := mput key (new_trip sd tsMs qty price d) (ra_trips a)\<rparr>)
      | Some t \<Rightarrow>
          if (ot_running t > 0) = (d > 0)
          then ([], a\<lparr>ra_trips := mput key (scale_in sd qty price d t) (ra_trips a)\<rparr>)
          else let closeQty = math_min qty \<bar>ot_running t\<bar>;
                   t1 = close_part sd closeQty price t;
                   newRunning = ot_running t1 + d
               in if feq newRunning 0
                  then ([toClosedTrade t1 v symbol tsMs (ra_seq a + 1)],
                        a\<lparr>ra_seq := ra_seq a + 1, ra_trips := mdel key (ra_trips a)\<rparr>)
                  else if (newRunning > 0) \<noteq> (ot_running t1 > 0)
                  then ([toClosedTrade t1 v symbol tsMs (ra_seq a + 1)],
                        a\<lparr>ra_seq := ra_seq a + 1,
                          ra_trips := mput key (new_trip sd tsMs (qty - closeQty) price newRunning) (ra_trips a)\<rparr>)
                  else ([], a\<lparr>ra_trips := mput key (t1\<lparr>ot_running := newRunning\<rparr>) (ra_trips a)\<rparr>))"

definition Trip_fill :: "trip_aggregator \<Rightarrow> exec_fill \<Rightarrow> trip_aggregator" where
  "Trip_fill a f = snd (Trip_Apply (f_venue f) (f_symbol f) (f_side f) (f_qty f) (f_price f) (f_tsMs f) a)"

definition rebuildOpenPositions :: "exec_position list \<Rightarrow> exec_fill list \<Rightarrow> trip_aggregator \<Rightarrow> trip_aggregator" where
  "rebuildOpenPositions positions fills a0 =
     (let ps = filter (\<lambda>p. \<not> feq (p_qty p) 0) positions;
          current = foldl (\<lambda>m p. mput (p_venue p, p_symbol p) p m) [] ps;
          qty0 = foldl (\<lambda>m p. mput (p_venue p, p_symbol p) (p_qty p) m) [] ps;
          qty = foldl (\<lambda>m f. mput (f_venue f, f_symbol f) (mget0 0 m (f_venue f, f_symbol f) - signedFillQty f) m)
                  qty0 (rev fills);
          seeded = foldl (\<lambda>a (key, q). if feq q 0 then a
                     else seedPosition ((mget0 position0 current key)\<lparr>p_venue := fst key, p_symbol := snd key, p_qty := q\<rparr>) a)
                   (a0\<lparr>ra_trips := []\<rparr>) qty
      in foldl Trip_fill seeded fills)"

lemma close_part_running [simp]: "ot_running (close_part sd q p t) = ot_running t"
  by (simp add: close_part_def)

section \<open>The trading-cycle projection\<close>

record cycle_position =
  cp_qty :: f64
  cp_basis :: f64
  cp_realized :: f64
  cp_carried :: f64

definition cycle_position0 :: cycle_position where
  "cycle_position0 = \<lparr>cp_qty = 0, cp_basis = 0, cp_realized = 0, cp_carried = 0\<rparr>"

record cycle_checkpoint =
  cc_venue :: venue_id
  cc_startMs :: int
  cc_realized :: f64
  cc_positions :: "(string, cycle_position) gomap"

record cycle_projection =
  cy_byVenue :: "(venue_id, cycle_checkpoint) gomap"
  cy_marks :: "(string, f64) gomap"

definition newCycleProjection :: cycle_projection where
  "newCycleProjection = \<lparr>cy_byVenue = [], cy_marks = []\<rparr>"

definition cycle_bootstrap :: "venue_id \<Rightarrow> int \<Rightarrow> exec_position list \<Rightarrow> cycle_projection \<Rightarrow> cycle_projection" where
  "cycle_bootstrap v startMs positions c =
     (let ps = foldl (\<lambda>m p.
            if p_venue p = v \<and> \<not> feq (p_qty p) 0
            then let mk = mget0 0 (cy_marks c) (p_symbol p);
                     basis = (if \<not> feq mk 0 then mk else p_avgPrice p)
                 in mput (p_symbol p) \<lparr>cp_qty = p_qty p, cp_basis = basis, cp_realized = 0, cp_carried = p_qty p\<rparr> m
            else m) [] positions
      in c\<lparr>cy_byVenue := mput v \<lparr>cc_venue = v, cc_startMs = startMs, cc_realized = 0, cc_positions = ps\<rparr> (cy_byVenue c)\<rparr>)"

definition cycle_restore :: "cycle_checkpoint \<Rightarrow> cycle_projection \<Rightarrow> cycle_projection" where
  "cycle_restore cp c = c\<lparr>cy_byVenue := mput (cc_venue cp) cp (cy_byVenue c)\<rparr>"

definition cycle_fill_checkpoint :: "exec_fill \<Rightarrow> cycle_checkpoint \<Rightarrow> cycle_checkpoint" where
  "cycle_fill_checkpoint f cp =
     (let p = mget0 cycle_position0 (cc_positions cp) (f_symbol f);
          delta = (if longward (f_side f) then f_qty f else - f_qty f);
          setp = (\<lambda>q cp. cp\<lparr>cc_positions := mput (f_symbol f) q (cc_positions cp)\<rparr>)
      in if feq (cp_qty p) 0
         then setp (cycle_position0\<lparr>cp_qty := delta, cp_basis := f_price f\<rparr>) cp
         else if (cp_qty p > 0) = (delta > 0)
         then setp (p\<lparr>cp_basis := (cp_basis p * \<bar>cp_qty p\<bar> + f_price f * f_qty f) / (\<bar>cp_qty p\<bar> + f_qty f),
                      cp_qty := cp_qty p + delta\<rparr>) cp
         else let closed = math_min \<bar>cp_qty p\<bar> (f_qty f);
                  realized = (f_price f - cp_basis p) * closed;
                  realized = (if cp_qty p < 0 then - realized else realized);
                  cp = cp\<lparr>cc_realized := cc_realized cp + realized\<rparr>;
                  p = p\<lparr>cp_realized := cp_realized p + realized\<rparr>;
                  nxt = cp_qty p + delta
              in if feq nxt 0 then cp\<lparr>cc_positions := mdel (f_symbol f) (cc_positions cp)\<rparr>
                 else if (nxt > 0) \<noteq> (cp_qty p > 0)
                 then setp (cycle_position0\<lparr>cp_qty := nxt, cp_basis := f_price f\<rparr>) cp
                 else setp (p\<lparr>cp_qty := nxt\<rparr>) cp)"

definition cycle_applyFill :: "cycle_projection \<Rightarrow> exec_fill \<Rightarrow> cycle_projection" where
  "cycle_applyFill c f = (case mget (cy_byVenue c) (f_venue f) of
     None \<Rightarrow> c
   | Some cp \<Rightarrow> c\<lparr>cy_byVenue := mput (f_venue f) (cycle_fill_checkpoint f cp) (cy_byVenue c)\<rparr>)"

definition cycle_mark :: "string \<Rightarrow> f64 \<Rightarrow> cycle_projection \<Rightarrow> cycle_projection" where
  "cycle_mark symbol price c =
     (if price > 0 then c\<lparr>cy_marks := mput symbol price (cy_marks c)\<rparr> else c)"

definition cycle_account :: "venue_id \<Rightarrow> cycle_projection \<Rightarrow> int \<times> f64 \<times> f64 \<times> f64" where
  "cycle_account v c = (case mget (cy_byVenue c) v of
     None \<Rightarrow> (0, 0, 0, 0)
   | Some cp \<Rightarrow>
       let (openRealized, day) = foldl (\<lambda>(openRealized, day) (symbol, p).
             let openRealized = openRealized + cp_realized p; mk = mget0 0 (cy_marks c) symbol
             in (openRealized, if \<not> feq mk 0 then day + (mk - cp_basis p) * cp_qty p else day))
           (0, cc_realized cp) (cc_positions cp)
       in (cc_startMs cp, openRealized, cc_realized cp, day))"

definition cycle_at :: "venue_id \<Rightarrow> string \<Rightarrow> cycle_projection \<Rightarrow> cycle_position" where
  "cycle_at v symbol c = (case mget (cy_byVenue c) v of
     Some cp \<Rightarrow> mget0 cycle_position0 (cc_positions cp) symbol | None \<Rightarrow> cycle_position0)"

definition cycle_reset :: "venue_id \<Rightarrow> int \<Rightarrow> exec_position list \<Rightarrow> cycle_projection \<Rightarrow> cycle_projection" where
  "cycle_reset v startMs positions c = cycle_bootstrap v startMs positions c"

section \<open>Share counts\<close>

text \<open>The whole shares of a fill, signed by its side, and the net position of a fill list.\<close>

fun shares_of :: "f64 \<Rightarrow> int" where
  "shares_of (Fin q) = \<lfloor>q\<rfloor>"
| "shares_of _ = 0"

definition whole_fill :: "exec_fill \<Rightarrow> bool" where
  "whole_fill f \<longleftrightarrow> f_qty f = whole (shares_of (f_qty f)) \<and> 0 < shares_of (f_qty f)"

definition signed_shares :: "exec_fill \<Rightarrow> int" where
  "signed_shares f = (if longward (f_side f) then shares_of (f_qty f) else - shares_of (f_qty f))"

abbreviation fill_key :: "exec_fill \<Rightarrow> trip_key" where
  "fill_key f \<equiv> (f_venue f, f_symbol f)"

definition net_shares :: "exec_fill list \<Rightarrow> trip_key \<Rightarrow> int" where
  "net_shares fs key = sum_list (map signed_shares (filter (\<lambda>f. fill_key f = key) fs))"

definition total_shares :: "exec_fill list \<Rightarrow> int" where
  "total_shares fs = sum_list (map (\<lambda>f. shares_of (f_qty f)) fs)"

lemma net_shares_snoc [simp]:
  "net_shares (fs @ [f]) key = net_shares fs key + (if fill_key f = key then signed_shares f else 0)"
  by (simp add: net_shares_def)

lemma total_shares_snoc [simp]: "total_shares (fs @ [f]) = total_shares fs + shares_of (f_qty f)"
  by (simp add: total_shares_def)

lemma total_shares_nonneg: "list_all whole_fill fs \<Longrightarrow> 0 \<le> total_shares fs"
  by (induction fs) (auto simp: total_shares_def whole_fill_def)

definition trip_inv :: "open_trip \<Rightarrow> int \<Rightarrow> int \<Rightarrow> bool" where
  "trip_inv t m N \<longleftrightarrow> ot_running t = whole m \<and> m \<noteq> 0 \<and> ot_isLong t = (0 < m) \<and>
     (\<exists>op cl. ot_openQty t = whole op \<and> ot_closeQty t = whole cl \<and> 0 \<le> cl \<and> op \<le> N \<and> \<bar>m\<bar> = op - cl)"

definition agg_inv :: "trip_aggregator \<Rightarrow> (trip_key \<Rightarrow> int) \<Rightarrow> int \<Rightarrow> bool" where
  "agg_inv a net N \<longleftrightarrow> (\<forall>key. (mget (ra_trips a) key = None \<longrightarrow> net key = 0) \<and>
     (\<forall>t. mget (ra_trips a) key = Some t \<longrightarrow> trip_inv t (net key) N))"

lemma trip_invI:
  assumes "ot_running t = whole m" "m \<noteq> 0" "ot_isLong t = (0 < m)" "ot_openQty t = whole op"
    "ot_closeQty t = whole cl" "0 \<le> cl" "op \<le> N" "\<bar>m\<bar> = op - cl"
  shows "trip_inv t m N"
  using assms unfolding trip_inv_def by blast

lemma agg_invD:
  "agg_inv a net N \<Longrightarrow> mget (ra_trips a) key = None \<Longrightarrow> net key = 0"
  "agg_inv a net N \<Longrightarrow> mget (ra_trips a) key = Some t \<Longrightarrow> trip_inv t (net key) N"
  unfolding agg_inv_def by blast+

lemma trip_inv_mono: "trip_inv t m N \<Longrightarrow> N \<le> N' \<Longrightarrow> trip_inv t m N'"
  unfolding trip_inv_def by (meson order_trans)

lemma agg_inv_update:
  assumes "agg_inv a net N" "N \<le> N'"
    and "\<And>k. k \<noteq> key \<Longrightarrow> mget (ra_trips a') k = mget (ra_trips a) k"
    and "case mget (ra_trips a') key of None \<Rightarrow> m = 0 | Some t \<Rightarrow> trip_inv t m N'"
  shows "agg_inv a' (net(key := m)) N'"
  unfolding agg_inv_def
proof (intro allI conjI impI)
  show "(net(key := m)) k = 0" if "mget (ra_trips a') k = None" for k
    using that assms(3)[of k] assms(4) agg_invD(1)[OF assms(1), of k] by (cases "k = key") simp_all
  show "trip_inv t ((net(key := m)) k) N'" if "mget (ra_trips a') k = Some t" for k t
    using that assms(3)[of k] assms(4) trip_inv_mono[OF agg_invD(2)[OF assms(1), of k t] assms(2)]
    by (cases "k = key") simp_all
qed

lemma trip_step:
  assumes inv: "agg_inv a net N" and f: "whole_fill f" and N: "0 \<le> N" "N + shares_of (f_qty f) \<le> 2 ^ 53"
  shows "agg_inv (Trip_fill a f) (net(fill_key f := net (fill_key f) + signed_shares f)) (N + shares_of (f_qty f))"
proof -
  define n where "n = shares_of (f_qty f)"
  define s where "s = signed_shares f"
  define m where "m = net (fill_key f)"
  have q: "f_qty f = whole n" "0 < n" using f by (simp_all add: whole_fill_def n_def)
  have s: "s = n \<or> s = - n" "longward (f_side f) \<longleftrightarrow> 0 < s" using q(2) by (auto simp: s_def signed_shares_def n_def)
  have d: "(if longward (f_side f) then f_qty f else - f_qty f) = whole s"
    by (simp add: q(1) s_def signed_shares_def n_def[symmetric])
  have N': "N + n \<le> 2 ^ 53" "N \<le> N + n" using N q(2) by (simp_all add: n_def)
  have other: "mget (ra_trips (Trip_fill a f)) k = mget (ra_trips a) k" if "k \<noteq> fill_key f" for k
    using that by (auto simp: Trip_fill_def Trip_Apply_def Let_def split: option.split)
  have "case mget (ra_trips (Trip_fill a f)) (fill_key f) of None \<Rightarrow> m + s = 0 | Some t \<Rightarrow> trip_inv t (m + s) (N + n)"
  proof (cases "mget (ra_trips a) (fill_key f)")
    case None
    then have "m = 0" using agg_invD(1)[OF inv] by (simp add: m_def)
    moreover have "trip_inv (new_trip (f_side f) (f_tsMs f) (f_qty f) (f_price f) (whole s)) s (N + n)"
      using s q N by (auto simp: trip_inv_def new_trip_def whole_0[symmetric] simp del: whole_0)
    ultimately show ?thesis using None d by (simp add: Trip_fill_def Trip_Apply_def Let_def)
  next
    case (Some t)
    then have ti: "trip_inv t m N" using agg_invD(2)[OF inv] by (simp add: m_def)
    then obtain op cl where t: "ot_running t = whole m" "m \<noteq> 0" "ot_isLong t = (0 < m)" "ot_openQty t = whole op"
      "ot_closeQty t = whole cl" "0 \<le> cl" "op \<le> N" "\<bar>m\<bar> = op - cl" by (auto simp: trip_inv_def)
    have mb: "\<bar>m\<bar> \<le> N" using t by linarith
    have ms: "whole m + whole s = whole (m + s)" using mb s N' by (intro whole_add) auto
    show ?thesis
    proof (cases "(0 < m) = (0 < s)")
      case True
      have "whole op + whole n = whole (op + n)" using t(6-8) N' q(2) by (intro whole_add) auto
      moreover have "\<bar>m + s\<bar> = op + n - cl" using True s q(2) t(2,8) by auto
      moreover have "0 < m + s \<longleftrightarrow> 0 < m" "m + s \<noteq> 0" using True s q(2) t(2) by auto
      ultimately have "trip_inv (scale_in (f_side f) (f_qty f) (f_price f) (whole s) t) (m + s) (N + n)"
        using t ms q by (simp add: trip_inv_def scale_in_def)
      then show ?thesis using Some d True t(1) by (simp add: Trip_fill_def Trip_Apply_def Let_def)
    next
      case False
      define c where "c = min n \<bar>m\<bar>"
      have mn: "math_min (f_qty f) \<bar>whole m\<bar> = whole c"
        unfolding q(1) whole_abs whole_min c_def by (rule refl)
      have cc: "whole cl + whole c = whole (cl + c)" using t(6-8) N' by (intro whole_add) (auto simp: c_def)
      have nc: "whole n - whole c = whole (n - c)" using q(2) N' N(1) by (intro whole_sub) (auto simp: c_def)
      let ?t1 = "close_part (f_side f) (whole c) (f_price f) t"
      have e: "mget (ra_trips (Trip_fill a f)) (fill_key f) =
          (if m + s = 0 then None
           else if (0 < m + s) \<noteq> (0 < m)
           then Some (new_trip (f_side f) (f_tsMs f) (f_qty f - whole c) (f_price f) (whole (m + s)))
           else Some (?t1\<lparr>ot_running := whole (m + s)\<rparr>))"
        using False
        by (simp only: Trip_fill_def Trip_Apply_def Let_def d Some option.case t(1) mn close_part_running ms whole_cmp if_False)
          (simp del: of_int_add plus_f64.simps)
      show ?thesis
      proof (cases "m + s = 0 \<or> (0 < m + s) \<noteq> (0 < m)")
        case True
        then show ?thesis using s q(2) t(2) False N' N(1) nc
          by (auto simp: e trip_inv_def new_trip_def q(1) c_def whole_0[symmetric] simp del: whole_0)
      next
        case part: False
        have dir: "m + s \<noteq> 0" "(0 < m + s) = (0 < m)" using part by auto
        have cn: "c = n" "\<bar>m + s\<bar> = op - (cl + n)"
          using dir s(1) q(2) t(2,8) False by (auto simp: c_def min_def abs_if split: if_splits)
        have f1: "ot_openQty ?t1 = whole op" "ot_isLong ?t1 = (0 < m)" using t by (simp_all add: close_part_def)
        have f2: "ot_closeQty ?t1 = whole (cl + c)" using cc t(5) by (simp add: close_part_def del: plus_f64.simps of_int_add)
        have "trip_inv (?t1\<lparr>ot_running := whole (m + s)\<rparr>) (m + s) (N + n)"
          by (rule trip_invI[where op = op and cl = "cl + c"])
            (use f1 f2 dir cn t(6,7) q(2) in \<open>simp_all del: of_int_add\<close>)
        then show ?thesis using part by (simp add: e)
      qed
    qed
  qed
  then have "agg_inv (Trip_fill a f) (net(fill_key f := m + s)) (N + n)"
    using agg_inv_update[OF inv N'(2) other] by simp
  then show ?thesis by (simp only: m_def s_def n_def)
qed

lemma trips_inv:
  assumes "list_all whole_fill fs" "total_shares fs \<le> 2 ^ 53"
  shows "agg_inv (foldl Trip_fill NewRoundTripAggregator fs) (net_shares fs) (total_shares fs)"
  using assms
proof (induction fs rule: rev_induct)
  case Nil
  then show ?case by (simp add: agg_inv_def NewRoundTripAggregator_def net_shares_def)
next
  case (snoc f fs)
  have tot: "0 \<le> total_shares fs" "0 < shares_of (f_qty f)" "total_shares fs + shares_of (f_qty f) \<le> 2 ^ 53"
  proof -
    have "list_all whole_fill fs" "whole_fill f" using snoc.prems(1) by simp_all
    then show "0 \<le> total_shares fs" "0 < shares_of (f_qty f)" using total_shares_nonneg by (auto simp: whole_fill_def)
    show "total_shares fs + shares_of (f_qty f) \<le> 2 ^ 53" using snoc.prems(2) by simp
  qed
  have "(net_shares fs)(fill_key f := net_shares fs (fill_key f) + signed_shares f) = net_shares (fs @ [f])"
    by (rule ext) auto
  then show ?case using trip_step[OF snoc.IH _ tot(1,3)] snoc.prems tot by (simp del: net_shares_snoc)
qed

text \<open>The cycle's quantity by venue and symbol, for venues that have a checkpoint.\<close>

definition cycle_inv :: "cycle_projection \<Rightarrow> (trip_key \<Rightarrow> int) \<Rightarrow> bool" where
  "cycle_inv c net \<longleftrightarrow> (\<forall>v y. mget (cy_byVenue c) v \<noteq> None \<longrightarrow> cp_qty (cycle_at v y c) = whole (net (v, y)))"

lemma cycle_fill_qty:
  assumes p: "cp_qty (mget0 cycle_position0 (cc_positions cp) (f_symbol f)) = whole m"
    and f: "whole_fill f" and N: "\<bar>m\<bar> + shares_of (f_qty f) \<le> 2 ^ 53"
  shows "cp_qty (mget0 cycle_position0 (cc_positions (cycle_fill_checkpoint f cp)) y) =
    (if y = f_symbol f then whole (m + signed_shares f) else cp_qty (mget0 cycle_position0 (cc_positions cp) y))"
proof -
  define n where "n = shares_of (f_qty f)"
  define s where "s = signed_shares f"
  have q: "f_qty f = whole n" "0 < n" using f by (simp_all add: whole_fill_def n_def)
  have s: "s = n \<or> s = - n" using q(2) by (auto simp: s_def signed_shares_def n_def)
  have d: "(if longward (f_side f) then f_qty f else - f_qty f) = whole s"
    by (simp add: q(1) s_def signed_shares_def n_def[symmetric])
  have ms: "whole m + whole s = whole (m + s)" using N s q(2) by (intro whole_add) (auto simp: n_def[symmetric] abs_if split: if_splits)
  define P where "P = mget0 cycle_position0 (cc_positions cp) (f_symbol f)"
  have P: "cp_qty P = whole m" using p by (simp add: P_def)
  have z: "cp_qty cycle_position0 = whole 0" by (simp add: cycle_position0_def zero_f64_def)
  note unfold_fill = cycle_fill_checkpoint_def d P_def[symmetric] Let_def P ms
  consider "m = 0" | "m \<noteq> 0" "(0 < m) = (0 < s)" | "m \<noteq> 0" "(0 < m) \<noteq> (0 < s)" by blast
  then show ?thesis
  proof cases
    case 1
    then show ?thesis by (simp only: unfold_fill s_def[symmetric] whole_cmp if_True) simp
  next
    case 2
    then show ?thesis by (simp add: unfold_fill s_def[symmetric] del: plus_f64.simps of_int_add)
  next
    case 3
    then show ?thesis using z by (simp add: unfold_fill s_def[symmetric] del: plus_f64.simps of_int_add) 
  qed
qed

lemma cycle_step:
  assumes inv: "cycle_inv c net" and f: "whole_fill f" and N: "\<bar>net (fill_key f)\<bar> + shares_of (f_qty f) \<le> 2 ^ 53"
  shows "cycle_inv (cycle_applyFill c f) (net(fill_key f := net (fill_key f) + signed_shares f))"
  unfolding cycle_inv_def
proof (intro allI impI)
  fix v y assume "mget (cy_byVenue (cycle_applyFill c f)) v \<noteq> None"
  then have v: "mget (cy_byVenue c) v \<noteq> None" by (auto simp: cycle_applyFill_def split: option.split_asm if_splits)
  then have old: "cp_qty (cycle_at v y c) = whole (net (v, y))" using inv by (auto simp: cycle_inv_def)
  show "cp_qty (cycle_at v y (cycle_applyFill c f)) =
      whole ((net(fill_key f := net (fill_key f) + signed_shares f)) (v, y))"
  proof (cases "v = f_venue f")
    case True
    then obtain cp where cp: "mget (cy_byVenue c) (f_venue f) = Some cp" using v by auto
    have "cp_qty (mget0 cycle_position0 (cc_positions cp) (f_symbol f)) = whole (net (fill_key f))"
      using inv[unfolded cycle_inv_def, rule_format, of "f_venue f" "f_symbol f"] cp by (simp add: cycle_at_def)
    from cycle_fill_qty[OF this f N, of y] show ?thesis using old True cp
      by (simp add: cycle_applyFill_def cycle_at_def)
  next
    case False
    then show ?thesis using old v by (auto simp: cycle_applyFill_def cycle_at_def split: option.split)
  qed
qed

lemma net_le_total: "list_all whole_fill fs \<Longrightarrow> \<bar>net_shares fs key\<bar> \<le> total_shares fs"
proof (induction fs rule: rev_induct)
  case (snoc f fs)
  then have "\<bar>net_shares fs key\<bar> \<le> total_shares fs" "0 < shares_of (f_qty f)" by (simp_all add: whole_fill_def)
  then show ?case by (auto simp: signed_shares_def)
qed (simp add: net_shares_def total_shares_def)

lemma cycles_inv:
  assumes "list_all whole_fill fs" "total_shares fs \<le> 2 ^ 53" "cycle_inv c (\<lambda>_. 0)"
  shows "cycle_inv (foldl cycle_applyFill c fs) (net_shares fs)"
  using assms
proof (induction fs rule: rev_induct)
  case Nil
  then show ?case by (simp add: net_shares_def)
next
  case (snoc f fs)
  have tot: "0 < shares_of (f_qty f)" "total_shares fs + shares_of (f_qty f) \<le> 2 ^ 53"
    using snoc.prems by (auto simp: whole_fill_def)
  then have b: "\<bar>net_shares fs (fill_key f)\<bar> + shares_of (f_qty f) \<le> 2 ^ 53"
    using net_le_total[of fs "fill_key f"] snoc.prems(1) by simp
  have "(net_shares fs)(fill_key f := net_shares fs (fill_key f) + signed_shares f) = net_shares (fs @ [f])"
    by (rule ext) auto
  then show ?case using cycle_step[OF snoc.IH _ b] snoc.prems tot by (simp del: net_shares_snoc)
qed

section \<open>Properties\<close>

lemma trips_track:
  assumes "list_all whole_fill fs" "total_shares fs \<le> 2 ^ 53"
  shows "case mget (ra_trips (foldl Trip_fill NewRoundTripAggregator fs)) key of
      None \<Rightarrow> net_shares fs key = 0
    | Some t \<Rightarrow> net_shares fs key \<noteq> 0 \<and> ot_running t = whole (net_shares fs key) \<and>
        ot_isLong t = (0 < net_shares fs key) \<and>
        (\<exists>op cl. ot_openQty t = whole op \<and> ot_closeQty t = whole cl \<and> 0 \<le> cl \<and> op - cl = \<bar>net_shares fs key\<bar>)"
proof (cases "mget (ra_trips (foldl Trip_fill NewRoundTripAggregator fs)) key")
  case None
  then show ?thesis using agg_invD(1)[OF trips_inv[OF assms]] by simp
next
  case (Some t)
  then show ?thesis using agg_invD(2)[OF trips_inv[OF assms] Some] by (auto simp: trip_inv_def)
qed

text \<open>C22. After any fills of whole positive numbers of shares that total at most 2^53, from flat, a symbol has an open trip exactly when its net shares are not zero; the trip's running quantity is the net, its direction the sign of the net, and what it opened less what it closed the size of the position. Fractional fills are outside the statement: they can leave a trip open (see the findings).\<close>

theorem trips_track_positions:
  assumes "list_all whole_fill fs" "total_shares fs \<le> 2 ^ 53"
  shows "case mget (ra_trips (foldl Trip_fill NewRoundTripAggregator fs)) key of
      None \<Rightarrow> net_shares fs key = 0
    | Some t \<Rightarrow> net_shares fs key \<noteq> 0 \<and> ot_running t = whole (net_shares fs key) \<and>
        ot_isLong t = (0 < net_shares fs key) \<and>
        (\<exists>op cl. ot_openQty t = whole op \<and> ot_closeQty t = whole cl \<and> 0 \<le> cl \<and> op - cl = \<bar>net_shares fs key\<bar>)"
  by (rule trips_track[OF assms])

text \<open>C21. The trading-cycle projection and the round-trip aggregator agree on every position: starting flat, the cycle's quantity of a symbol is the running quantity of its open trip, zero when there is none (whole share counts).\<close>

theorem cycle_agrees_with_trips:
  assumes "list_all whole_fill fs" "total_shares fs \<le> 2 ^ 53"
    and "mget (cy_byVenue c) v \<noteq> None" "\<And>u y. mget (cy_byVenue c) u \<noteq> None \<Longrightarrow> cp_qty (cycle_at u y c) = 0"
  shows "cp_qty (cycle_at v symbol (foldl cycle_applyFill c fs)) =
    (case mget (ra_trips (foldl Trip_fill NewRoundTripAggregator fs)) (v, symbol) of
       None \<Rightarrow> 0 | Some t \<Rightarrow> ot_running t)"
proof -
  have "cycle_inv c (\<lambda>_. 0)" using assms(4) by (simp add: cycle_inv_def zero_f64_def)
  from cycles_inv[OF assms(1,2) this] have inv: "cycle_inv (foldl cycle_applyFill c fs) (net_shares fs)" .
  have "mget (cy_byVenue (foldl cycle_applyFill c fs)) v \<noteq> None"
    using assms(3) by (induction fs rule: rev_induct) (auto simp: cycle_applyFill_def split: option.split)
  then have "cp_qty (cycle_at v symbol (foldl cycle_applyFill c fs)) = whole (net_shares fs (v, symbol))"
    using inv by (simp add: cycle_inv_def)
  then show ?thesis using trips_track[OF assms(1,2), of "(v, symbol)"]
    by (auto simp: zero_f64_def split: option.split_asm option.split)
qed

text \<open>The trades of a whole fill list, oldest first.\<close>

fun Trip_trades :: "exec_fill list \<Rightarrow> trip_aggregator \<Rightarrow> closed_trade list" where
  "Trip_trades [] a = []"
| "Trip_trades (f # fs) a =
     fst (Trip_Apply (f_venue f) (f_symbol f) (f_side f) (f_qty f) (f_price f) (f_tsMs f) a) @ Trip_trades fs (Trip_fill a f)"

lemma Trip_Apply_seq:
  "(let (ts, b) = Trip_Apply v y sd q p ms a in
     map ct_seq ts = [ra_seq a + 1 .. ra_seq b] \<and> ra_seq a \<le> ra_seq b \<and> ra_seq b \<le> ra_seq a + 1 \<and>
     (\<forall>t \<in> set ts. ct_venue t = v \<and> ct_symbol t = y \<and> ct_closeMs t = ms))"
  by (auto simp: Trip_Apply_def Let_def toClosedTrade_def split: option.split)

theorem trades_numbered:
  "map ct_seq (Trip_trades fs a) = [ra_seq a + 1 .. ra_seq (foldl Trip_fill a fs)] \<and>
   length (Trip_trades fs a) \<le> length fs"
proof (induction fs arbitrary: a)
  case Nil
  then show ?case by simp
next
  case (Cons f fs)
  obtain ts b where ap: "Trip_Apply (f_venue f) (f_symbol f) (f_side f) (f_qty f) (f_price f) (f_tsMs f) a = (ts, b)"
    by fastforce
  have b: "Trip_fill a f = b" by (simp add: Trip_fill_def ap)
  have s: "map ct_seq ts = [ra_seq a + 1 .. ra_seq b]" "ra_seq a \<le> ra_seq b" "ra_seq b \<le> ra_seq a + 1"
    using Trip_Apply_seq[of "f_venue f" "f_symbol f" "f_side f" "f_qty f" "f_price f" "f_tsMs f" a] by (simp_all add: ap)
  have mono: "ra_seq c \<le> ra_seq (foldl Trip_fill c fs)" for c
  proof (induction fs arbitrary: c)
    case (Cons g gs)
    have "ra_seq c \<le> ra_seq (Trip_fill c g)"
      using Trip_Apply_seq[of "f_venue g" "f_symbol g" "f_side g" "f_qty g" "f_price g" "f_tsMs g" c]
      by (auto simp: Trip_fill_def Let_def split: prod.split_asm)
    then show ?case using Cons.IH[of "Trip_fill c g"] by simp
  qed simp
  have "length ts = nat (ra_seq b - ra_seq a)" using s(1)[THEN arg_cong, of length] by simp
  then have "length ts \<le> 1" using s(3) by simp
  moreover have "[ra_seq a + 1 .. ra_seq b] @ [ra_seq b + 1 .. ra_seq (foldl Trip_fill b fs)] = [ra_seq a + 1 .. ra_seq (foldl Trip_fill b fs)]"
    using s(2) mono[of b] upto_split2[of "ra_seq a + 1" "ra_seq b" "ra_seq (foldl Trip_fill b fs)"]
    by (cases "ra_seq a = ra_seq b") simp_all
  ultimately show ?case using Cons.IH[of b] s(1) by (simp add: ap b)
qed


text \<open>Two buys of 40 and 60 shares, from one venue.\<close>

definition sample_fills :: "exec_fill list" where
  "sample_fills = [sample_fill (Fin 40), sample_fill (Fin 60)]"

definition sample_cycle :: cycle_projection where
  "sample_cycle = newCycleProjection\<lparr>cy_byVenue := [(''sim'', \<lparr>cc_venue = ''sim'', cc_startMs = 0, cc_realized = 0, cc_positions = []\<rparr>)]\<rparr>"

lemma sample_fills_whole: "list_all whole_fill sample_fills" "total_shares sample_fills \<le> 2 ^ 53"
  by code_simp+

text \<open>Shares that are no whole numbers: 0.1 and 0.2 bought and 0.3 sold leave a trip of 2 ** -54 shares
  open, because \<open>Trip_Apply\<close> compares what is left with 0.\<close>

definition part_fill :: "side \<Rightarrow> rat \<Rightarrow> exec_fill" where
  "part_fill sd q = \<lparr>f_venue = ''sim'', f_orderID = ''ET1'', f_symbol = ''AAPL'', f_side = sd, f_qty = fconst q,
     f_price = whole 10, f_tsMs = 1000\<rparr>"

lemma fractional_trip_stays_open:
  "mhas (ra_trips (foldl Trip_fill NewRoundTripAggregator
     [part_fill SideBuy (1 / 10), part_fill SideBuy (2 / 10), part_fill SideSell (3 / 10)])) (''sim'', ''AAPL'')"
  by code_simp

lemma trips_track_positions_witness:
  "case mget (ra_trips (foldl Trip_fill NewRoundTripAggregator sample_fills)) (''sim'', ''AAPL'') of
      None \<Rightarrow> net_shares sample_fills (''sim'', ''AAPL'') = 0
    | Some t \<Rightarrow> ot_running t = whole (net_shares sample_fills (''sim'', ''AAPL''))"
  using trips_track_positions[OF sample_fills_whole, of "(''sim'', ''AAPL'')"] by (auto split: option.splits)

lemma cycle_agrees_with_trips_witness:
  "cp_qty (cycle_at ''sim'' ''AAPL'' (foldl cycle_applyFill sample_cycle sample_fills)) =
    (case mget (ra_trips (foldl Trip_fill NewRoundTripAggregator sample_fills)) (''sim'', ''AAPL'') of
       None \<Rightarrow> 0 | Some t \<Rightarrow> ot_running t)"
  by (rule cycle_agrees_with_trips[OF sample_fills_whole])
    (auto simp: sample_cycle_def newCycleProjection_def cycle_at_def cycle_position0_def split: if_splits)

end
