(* ===== verification/Session.thy ===== *)
theory Session
  imports Prelude "HOL-Library.Signed_Division"
begin

text \<open>
  The ET trading calendar: \<open>internal/session/session.go\<close> and \<open>calendar.go\<close>.

  An instant is its Unix milliseconds. The zone \<open>America/New_York\<close> is the parameter \<open>off\<close>:
  the offset from UTC in seconds, by Unix second, as the embedded tzdata has it. An ET date
  (a \<open>time.Time\<close> at ET midnight) is its day number, days since 1970-01-01.
\<close>

section \<open>Civil dates\<close>

text \<open>The proleptic Gregorian calendar of \<open>time.Time.Date\<close>, \<open>Weekday\<close> and \<open>time.Date\<close>; the
  year here starts in March, \<open>yoe\<close> counts years and \<open>doe\<close> days in the 400-year era.\<close>

definition days_from_civil :: "int \<Rightarrow> int \<Rightarrow> int \<Rightarrow> int" where
  "days_from_civil y0 m0 d =
     (let y1 = y0 + (m0 - 1) div 12; m = (m0 - 1) mod 12 + 1;
          y = (if m \<le> 2 then y1 - 1 else y1); era = y div 400; yoe = y mod 400;
          mp = (if m > 2 then m - 3 else m + 9);
          doy = (153 * mp + 2) div 5 + d - 1;
          doe = yoe * 365 + yoe div 4 - yoe div 100 + doy
      in era * 146097 + doe - 719468)"

definition civil_from_days :: "int \<Rightarrow> int \<times> int \<times> int" where
  "civil_from_days z0 =
     (let z = z0 + 719468; era = z div 146097; doe = z mod 146097;
          n100 = min 3 (doe div 36524); r100 = doe - n100 * 36524;
          n4 = r100 div 1461; r4 = r100 - n4 * 1461;
          n1 = min 3 (r4 div 365); doy = r4 - n1 * 365;
          yoe = n100 * 100 + n4 * 4 + n1; mp = (5 * doy + 2) div 153;
          d = doy - (153 * mp + 2) div 5 + 1;
          m = (if mp < 10 then mp + 3 else mp - 9);
          y = yoe + era * 400
      in (if m \<le> 2 then y + 1 else y, m, d))"

text \<open>\<open>Weekday\<close>: Sunday is 0.\<close>

definition weekday :: "int \<Rightarrow> int" where
  "weekday D = (D + 4) mod 7"

lemma div_bounds: "0 < b \<Longrightarrow> b * (a div b) \<le> a" "0 < b \<Longrightarrow> a < b * (a div b) + b" for a b :: int
  by (simp_all add: mult.commute[of b] minus_mod_eq_div_mult[symmetric] div_mult_mod_eq
      pos_mod_bound[of b a] flip: minus_mod_eq_div_mult)

lemma civil_bounds:
  assumes "civil_from_days z = (y, m, d)"
  shows "1 \<le> m" "m \<le> 12" "1 \<le> d" "d \<le> 31"
    and civil_inverse: "days_from_civil y m d = z"
proof -
  define doe where "doe = (z + 719468) mod 146097"
  define era where "era = (z + 719468) div 146097"
  define n100 where "n100 = min 3 (doe div 36524)"
  define r100 where "r100 = doe - n100 * 36524"
  define n4 where "n4 = r100 div 1461"
  define r4 where "r4 = r100 - n4 * 1461"
  define n1 where "n1 = min 3 (r4 div 365)"
  define doy where "doy = r4 - n1 * 365"
  define mp where "mp = (5 * doy + 2) div 153"
  have doe: "0 \<le> doe" "doe < 146097" by (simp_all add: doe_def)
  have n100: "0 \<le> n100" "n100 \<le> 3" using doe by (auto simp: n100_def)
  have r100: "0 \<le> r100" "r100 \<le> 36524"
  proof -
    have "0 \<le> doe mod 36524" "doe mod 36524 < 36524" by simp_all
    moreover have "doe = 36524 * (doe div 36524) + doe mod 36524" by simp
    ultimately show "0 \<le> r100" "r100 \<le> 36524"
      using doe by (cases "doe div 36524 \<le> 3"; simp add: r100_def n100_def min_def)+
  qed
  have r100': "r100 = 1461 * n4 + r100 mod 1461" "0 \<le> r100 mod 1461" "r100 mod 1461 < 1461"
    by (simp_all add: n4_def)
  have n4: "0 \<le> n4" "n4 \<le> 24" using r100 r100' by linarith+
  have r4: "0 \<le> r4" "r4 \<le> 1460" using r100' unfolding r4_def by linarith+
  have r4': "r4 = 365 * (r4 div 365) + r4 mod 365" "0 \<le> r4 mod 365" "r4 mod 365 < 365" by simp_all
  have n1: "0 \<le> n1" "n1 \<le> 3" using r4 by (auto simp: n1_def)
  have doyc: "0 \<le> doy \<and> doy \<le> 365"
  proof (cases "r4 div 365 \<le> 3")
    case True
    then have "n1 = r4 div 365" by (simp add: n1_def)
    then have "doy = r4 mod 365" using r4'(1) unfolding doy_def by linarith
    then show ?thesis using r4'(2,3) by linarith
  next
    case False
    then have "doy = r4 - 1095" "r4 div 365 \<ge> 4" unfolding doy_def n1_def by (simp_all add: min_def)
    then show ?thesis using r4 r4'(1,2) by linarith
  qed
  then have doy: "0 \<le> doy" "doy \<le> 365" by auto
  have mp: "0 \<le> mp" "mp \<le> 11" using doy div_bounds[of 153 "5 * doy + 2"] unfolding mp_def by linarith+
  have eqs: "m = (if mp < 10 then mp + 3 else mp - 9)" "d = doy - (153 * mp + 2) div 5 + 1"
    "y = (if m \<le> 2 then n100 * 100 + n4 * 4 + n1 + era * 400 + 1 else n100 * 100 + n4 * 4 + n1 + era * 400)"
    using assms
    unfolding civil_from_days_def Let_def doe_def[symmetric] era_def[symmetric]
      n100_def[symmetric] r100_def[symmetric] n4_def[symmetric] r4_def[symmetric]
      n1_def[symmetric] doy_def[symmetric] mp_def[symmetric]
    by (auto simp only: prod.inject)
  show "1 \<le> m" "m \<le> 12" using mp eqs(1) by auto
  have "0 \<le> doy - (153 * mp + 2) div 5" "doy - (153 * mp + 2) div 5 \<le> 30"
    using doy div_bounds[of 153 "5 * doy + 2"] div_bounds[of 5 "153 * mp + 2"]
    unfolding mp_def by linarith+
  then show "1 \<le> d" "d \<le> 31" using eqs(2) by auto
  have m: "(m - 1) div 12 = 0" "(m - 1) mod 12 + 1 = m" using \<open>1 \<le> m\<close> \<open>m \<le> 12\<close> by auto
  have mp': "(if m > 2 then m - 3 else m + 9) = mp" using mp eqs(1) by auto
  have y': "(if m \<le> 2 then y - 1 else y) = n100 * 100 + n4 * 4 + n1 + era * 400" using eqs(3) by auto
  have yoe: "(n100 * 100 + n4 * 4 + n1 + era * 400) mod 400 = n100 * 100 + n4 * 4 + n1"
    "(n100 * 100 + n4 * 4 + n1 + era * 400) div 400 = era"
    using n100 n4 n1 by (simp_all add: mod_pos_pos_trivial div_pos_pos_trivial)
  have q: "(n100 * 100 + n4 * 4 + n1) div 4 = 25 * n100 + n4"
    "(n100 * 100 + n4 * 4 + n1) div 100 = n100" using n100 n4 n1 by linarith+
  have "days_from_civil y m d = era * 146097 + ((n100 * 100 + n4 * 4 + n1) * 365 + (25 * n100 + n4) - n100
      + ((153 * mp + 2) div 5 + d - 1)) - 719468"
    unfolding days_from_civil_def Let_def m mp' add_0_right y' yoe q by (simp only: ac_simps)
  also have "\<dots> = era * 146097 + doe - 719468"
    using eqs(2) by (simp add: doy_def r4_def r100_def algebra_simps)
  also have "\<dots> = z" by (simp add: era_def doe_def)
  finally show "days_from_civil y m d = z" .
qed

lemma civil_inj: "civil_from_days a = civil_from_days b \<Longrightarrow> a = b"
  using civil_inverse[of a] civil_inverse[of b] by (metis prod_cases3)

section \<open>Exchange dates\<close>

definition date :: "int \<Rightarrow> int \<Rightarrow> int \<Rightarrow> int" where
  "date y m d = days_from_civil y m d"

definition sameDate :: "int \<Rightarrow> int \<Rightarrow> bool" where
  "sameDate a b \<longleftrightarrow> civil_from_days a = civil_from_days b"

definition daysInMonth :: "int \<Rightarrow> int \<Rightarrow> int" where
  "daysInMonth y m = snd (snd (civil_from_days (date y (m + 1) 0)))"

definition observed :: "int \<Rightarrow> int \<Rightarrow> int \<Rightarrow> int" where
  "observed y m day =
     (let d = date y m day in
      if weekday d = 6 then d - 1 else if weekday d = 0 then d + 1 else d)"

definition goodFriday :: "int \<Rightarrow> int" where
  "goodFriday y =
     (let a = y smod 19; b = y sdiv 100; c = y smod 100;
          d = b sdiv 4; e = b smod 4;
          f = (b + 8) sdiv 25;
          g = (b - f + 1) sdiv 3;
          h = (19 * a + b - d - g + 15) smod 30;
          i = c sdiv 4; k = c smod 4;
          l = (32 + 2 * e + 2 * i - h - k) smod 7;
          m = (a + 11 * h + 22 * l) sdiv 451;
          month = (h + l - 7 * m + 114) sdiv 31;
          day = (h + l - 7 * m + 114) smod 31 + 1
      in date y month day - 2)"

definition exceptionalClosure :: "int \<Rightarrow> bool" where
  "exceptionalClosure d \<longleftrightarrow> civil_from_days d \<in>
     {(1972,12,28), (1973,1,25), (1977,7,14), (1985,9,27), (1994,4,27),
      (2001,9,11), (2001,9,12), (2001,9,13), (2001,9,14),
      (2004,6,11), (2007,1,2), (2012,10,29), (2012,10,30),
      (2018,12,5), (2025,1,9)}"

definition isTradingDate :: "int \<Rightarrow> bool" where
  "isTradingDate D =
     (let wd = weekday D in
      if wd = 6 \<or> wd = 0 \<or> exceptionalClosure D then False
      else let (y, m, day) = civil_from_days D in
        \<not> ((m = 1 \<and> (day = 1 \<or> (day = 2 \<and> wd = 1))) \<or>
           (y \<ge> 1998 \<and> m = 1 \<and> wd = 1 \<and> day \<ge> 15 \<and> day \<le> 21) \<or>
           (m = 2 \<and> wd = 1 \<and> day \<ge> 15 \<and> day \<le> 21) \<or>
           sameDate D (goodFriday y) \<or>
           (m = 5 \<and> wd = 1 \<and> day + 7 > daysInMonth y m) \<or>
           (y \<ge> 2022 \<and> sameDate D (observed y 6 19)) \<or>
           sameDate D (observed y 7 4) \<or>
           (m = 9 \<and> wd = 1 \<and> day \<le> 7) \<or>
           (y \<ge> 1972 \<and> y \<le> 1980 \<and> y smod 4 = 0 \<and> m = 11 \<and> wd = 2 \<and> day \<ge> 2 \<and> day \<le> 8) \<or>
           (m = 11 \<and> wd = 4 \<and> day \<ge> 22 \<and> day \<le> 28) \<or>
           sameDate D (observed y 12 25)))"

text \<open>
  There is a trading date on both sides of every date: 3 October of the years divisible by
  400 is a Tuesday that no holiday rule names. It bounds the loops that look for one.
\<close>

definition anchor_date :: "int \<Rightarrow> int" where
  "anchor_date e = 146097 * e - 719252"

lemma date_of_era:
  assumes "1 \<le> m" "m \<le> 12"
  shows "date (400 * e) m d = anchor_date e - 217 +
    (if m \<le> 2 then (153 * (m + 9) + 2) div 5 - 366 else (153 * (m - 3) + 2) div 5) + d"
proof -
  have m: "(m - 1) div 12 = 0" "(m - 1) mod 12 + 1 = m" using assms by auto
  have "400 * e - 1 = 400 * (e - 1) + 399" by simp
  then have y: "(400 * e - 1) div 400 = e - 1" "(400 * e - 1) mod 400 = 399" by (simp_all only: div_mult_self4 mod_mult_self4) simp_all
  show ?thesis unfolding date_def days_from_civil_def Let_def m anchor_date_def
    by (cases "m \<le> 2") (simp_all add: y)
qed

lemma anchor_civil: "civil_from_days (anchor_date e) = (400 * e, 10, 3)"
proof -
  have z: "anchor_date e + 719468 = 146097 * e + 216" by (simp add: anchor_date_def)
  have dm: "(146097 * e + 216) mod 146097 = 216" "(146097 * e + 216) div 146097 = e" by simp_all
  have n: "min 3 (216 div 36524) = (0::int)" "216 - 0 * 36524 = (216::int)" "216 div 1461 = (0::int)"
    "216 - 0 * 1461 = (216::int)" "min 3 (216 div 365) = (0::int)" "216 - 0 * 365 = (216::int)"
    "0 * 100 + 0 * 4 + 0 = (0::int)" "(5 * 216 + 2) div 153 = (7::int)"
    "216 - (153 * 7 + 2) div 5 + 1 = (3::int)" "(if (7::int) < 10 then 7 + 3 else 7 - 9) = (10::int)"
    "(if (10::int) \<le> 2 then 0 + e * 400 + 1 else 0 + e * 400) = 400 * e" by simp_all
  show ?thesis unfolding civil_from_days_def z
    by (subst Let_def, unfold dm)+ (unfold Let_def n, rule refl)
qed

lemma anchor_weekday: "weekday (anchor_date e) = 2"
proof -
  have "anchor_date e + 4 = 7 * (20871 * e - 102750) + 2" by (simp add: anchor_date_def)
  then show ?thesis unfolding weekday_def by (simp only: mod_mult_self4) simp
qed

lemma sdiv_bounds:
  fixes a b c :: int
  assumes "\<bar>a\<bar> \<le> c" "0 < b"
  shows "- (c div b) \<le> a sdiv b" "a sdiv b \<le> c div b"
  using assms zdiv_mono1[of "\<bar>a\<bar>" c b] pos_imp_zdiv_nonneg_iff[of b "\<bar>a\<bar>"] by (auto simp: signed_divide_int_def sgn_if abs_if split: if_splits)

lemma smod_bounds: "0 < b \<Longrightarrow> \<bar>a smod b\<bar> < b" for a b :: int
  by (auto simp: signed_modulo_int_def abs_mult sgn_if)

lemma goodFriday_month:
  obtains month day where "goodFriday y = date y month day - 2" "2 \<le> month" "month \<le> 5" "1 \<le> day" "day \<le> 31"
proof -
  define a where "a = y smod 19"
  define b where "b = y sdiv 100"
  define c where "c = y smod 100"
  define h where "h = (19 * a + b - b sdiv 4 - (b - (b + 8) sdiv 25 + 1) sdiv 3 + 15) smod 30"
  define l where "l = (32 + 2 * (b smod 4) + 2 * (c sdiv 4) - h - c smod 4) smod 7"
  define m where "m = (a + 11 * h + 22 * l) sdiv 451"
  define v where "v = h + l - 7 * m + 114"
  have a: "\<bar>a\<bar> < 19" and h: "\<bar>h\<bar> < 30" and l: "\<bar>l\<bar> < 7"
    unfolding a_def h_def l_def by (simp_all add: smod_bounds)
  have "\<bar>a + 11 * h + 22 * l\<bar> \<le> 469" using a h l by linarith
  then have m: "- 1 \<le> m" "m \<le> 1" using sdiv_bounds[of "a + 11 * h + 22 * l" 469 451] by (simp_all add: m_def)
  have v: "72 \<le> v" "v \<le> 156" using a h l m unfolding v_def by linarith+
  then have sv: "v sdiv 31 = v div 31" "v smod 31 = v mod 31"
    by (simp_all add: signed_divide_int_def signed_modulo_int_def sgn_if minus_div_mult_eq_mod)
  have "2 \<le> v div 31" "v div 31 \<le> 5" using v div_bounds[of 31 v] by linarith+
  moreover have "0 \<le> v mod 31" "v mod 31 < 31" by simp_all
  moreover have "goodFriday y = date y (v sdiv 31) (v smod 31 + 1) - 2"
    unfolding goodFriday_def Let_def a_def[symmetric] b_def[symmetric] c_def[symmetric]
      h_def[symmetric] l_def[symmetric] m_def[symmetric] v_def[symmetric] by (rule refl)
  ultimately show ?thesis using that[of "v div 31" "v mod 31 + 1"] sv by simp
qed

lemma anchor_trading: "isTradingDate (anchor_date e)"
proof -
  have eq: "sameDate (anchor_date e) x \<longleftrightarrow> anchor_date e = x" for x
    using civil_inj unfolding sameDate_def by blast
  have gf: "goodFriday (400 * e) \<noteq> anchor_date e"
  proof -
    obtain month day where gf: "goodFriday (400 * e) = date (400 * e) month day - 2"
      and b: "2 \<le> month" "month \<le> 5" "1 \<le> day" "day \<le> 31" by (rule goodFriday_month)
    have "month = 2 \<or> month = 3 \<or> month = 4 \<or> month = 5" using b by auto
    then have "goodFriday (400 * e) < anchor_date e"
      unfolding gf using b date_of_era[of month e day] by auto
    then show ?thesis by simp
  qed
  have ob: "observed (400 * e) m d \<noteq> anchor_date e"
    if "date (400 * e) m d < anchor_date e - 1 \<or> anchor_date e + 1 < date (400 * e) m d" for m d
    using that by (auto simp: observed_def Let_def)
  have "observed (400 * e) 6 19 \<noteq> anchor_date e" "observed (400 * e) 7 4 \<noteq> anchor_date e"
    "observed (400 * e) 12 25 \<noteq> anchor_date e"
    by (rule ob; simp add: date_of_era)+
  then show ?thesis using gf
    by (simp add: isTradingDate_def exceptionalClosure_def anchor_civil anchor_weekday eq eq_commute[of "anchor_date e"])
qed

text \<open>\<open>for !isTradingDate(p) { p = p.AddDate(0, 0, -1) }\<close> and its forward twin.\<close>

lemma anchor_below: "\<exists>a \<le> D. isTradingDate a" and anchor_above: "\<exists>a \<ge> D. isTradingDate a"
proof -
  have "anchor_date (D div 146097) \<le> D" "D \<le> anchor_date (D div 146097 + 6)"
    using div_bounds[of 146097 D] by (simp_all add: anchor_date_def)
  then show "\<exists>a \<le> D. isTradingDate a" "\<exists>a \<ge> D. isTradingDate a" using anchor_trading by blast+
qed

function prev_trading :: "int \<Rightarrow> int" where
  "prev_trading D = (if isTradingDate D then D else prev_trading (D - 1))"
  by auto
termination
proof (relation "measure (\<lambda>D. LEAST n. isTradingDate (D - int n))")
  fix D assume nt: "\<not> isTradingDate D"
  obtain a where a: "a \<le> D" "isTradingDate a" using anchor_below by blast
  define k where "k = (LEAST n. isTradingDate (D - int n))"
  have k: "isTradingDate (D - int k)" unfolding k_def
    by (rule LeastI[of _ "nat (D - a)"]) (use a in simp)
  then obtain j where j: "k = Suc j" using nt by (cases k) auto
  have "(LEAST n. isTradingDate (D - 1 - int n)) \<le> j"
    by (rule Least_le) (use k j in \<open>simp add: algebra_simps\<close>)
  then show "(D - 1, D) \<in> measure (\<lambda>D. LEAST n. isTradingDate (D - int n))"
    using j by (simp add: k_def)
qed simp

function next_trading :: "int \<Rightarrow> int" where
  "next_trading D = (if isTradingDate D then D else next_trading (D + 1))"
  by auto
termination
proof (relation "measure (\<lambda>D. LEAST n. isTradingDate (D + int n))")
  fix D assume nt: "\<not> isTradingDate D"
  obtain a where a: "D \<le> a" "isTradingDate a" using anchor_above by blast
  define k where "k = (LEAST n. isTradingDate (D + int n))"
  have k: "isTradingDate (D + int k)" unfolding k_def
    by (rule LeastI[of _ "nat (a - D)"]) (use a in simp)
  then obtain j where j: "k = Suc j" using nt by (cases k) auto
  have "(LEAST n. isTradingDate (D + 1 + int n)) \<le> j"
    by (rule Least_le) (use k j in \<open>simp add: algebra_simps\<close>)
  then show "(D + 1, D) \<in> measure (\<lambda>D. LEAST n. isTradingDate (D + int n))"
    using j by (simp add: k_def)
qed simp

declare prev_trading.simps [simp del] next_trading.simps [simp del]

lemma prev_trading_spec:
  "isTradingDate (prev_trading D) \<and> prev_trading D \<le> D \<and> (\<forall>x. prev_trading D < x \<and> x \<le> D \<longrightarrow> \<not> isTradingDate x)"
proof (induction D rule: prev_trading.induct)
  case (1 D)
  show ?case
  proof (cases "isTradingDate D")
    case True
    then show ?thesis by (auto simp: prev_trading.simps[of D])
  next
    case False
    then have p: "prev_trading D = prev_trading (D - 1)" by (simp add: prev_trading.simps[of D])
    have "x \<le> D \<Longrightarrow> x = D \<or> x \<le> D - 1" for x by auto
    then show ?thesis using 1[OF False] False unfolding p by (auto; fastforce)
  qed
qed

lemma next_trading_spec:
  "isTradingDate (next_trading D) \<and> D \<le> next_trading D \<and> (\<forall>x. D \<le> x \<and> x < next_trading D \<longrightarrow> \<not> isTradingDate x)"
proof (induction D rule: next_trading.induct)
  case (1 D)
  show ?case
  proof (cases "isTradingDate D")
    case True
    then show ?thesis by (auto simp: next_trading.simps[of D])
  next
    case False
    then have p: "next_trading D = next_trading (D + 1)" by (simp add: next_trading.simps[of D])
    have "D \<le> x \<Longrightarrow> x = D \<or> D + 1 \<le> x" for x by auto
    then show ?thesis using 1[OF False] False unfolding p by (auto; fastforce)
  qed
qed

definition isEarlyClose :: "int \<Rightarrow> bool" where
  "isEarlyClose D =
     (let (y, m, day) = civil_from_days D in
      if m = 11 \<and> weekday D = 5 \<and> day \<ge> 23 \<and> day \<le> 29 then True
      else if m = 12 \<and> day = 24 then True
      else m = 7 \<and> sameDate D (prev_trading (observed y 7 4 - 1)))"

section \<open>Instants and the ET wall clock\<close>

type_synonym tz = "int \<Rightarrow> int"

text \<open>\<open>t.In(loc)\<close> read as seconds on the ET wall clock, since 1970-01-01 00:00 ET.\<close>

definition et_civil :: "tz \<Rightarrow> int \<Rightarrow> int" where
  "et_civil off t = t div 1000 + off (t div 1000)"

definition et_day :: "tz \<Rightarrow> int \<Rightarrow> int" where
  "et_day off t = et_civil off t div 86400"

definition wallSecs :: "tz \<Rightarrow> int \<Rightarrow> int" where
  "wallSecs off t = et_civil off t mod 86400"

text \<open>\<open>time.Date(..., loc)\<close>: the instant whose wall clock reads \<open>u\<close>, as the library finds it, with
  the offset in force one offset earlier.\<close>

definition time_Date :: "tz \<Rightarrow> int \<Rightarrow> int" where
  "time_Date off u = 1000 * (u - off (u - off u))"

definition midnight_of :: "tz \<Rightarrow> int \<Rightarrow> int" where
  "midnight_of off D = time_Date off (86400 * D)"

text \<open>\<open>time.Time{}\<close>, the zero time.\<close>

definition zero_time :: int where
  "zero_time = - 62135596800000"

datatype timeframe = TF10s | TF1m | TF5m | TF15m | TF30m | TF60m | TFDay | TFWeek | TFMonth | TFStr string

fun IntradaySpanSecs :: "timeframe \<Rightarrow> int \<times> bool" where
  "IntradaySpanSecs TF10s = (10, True)"
| "IntradaySpanSecs TF1m = (60, True)"
| "IntradaySpanSecs TF5m = (5 * 60, True)"
| "IntradaySpanSecs TF15m = (15 * 60, True)"
| "IntradaySpanSecs TF30m = (30 * 60, True)"
| "IntradaySpanSecs TF60m = (60 * 60, True)"
| "IntradaySpanSecs _ = (0, False)"

definition Intraday :: "timeframe list" where
  "Intraday = [TF10s, TF1m, TF5m, TF15m, TF30m, TF60m]"

definition AnchorSecsDefault :: int where
  "AnchorSecsDefault = 9 * 3600 + 30 * 60"

datatype phase = Closed | PreMarket | RTH | PostMarket | Overnight

fun Phase_String :: "phase \<Rightarrow> string" where
  "Phase_String PreMarket = ''pre''"
| "Phase_String RTH = ''rth''"
| "Phase_String PostMarket = ''post''"
| "Phase_String Overnight = ''overnight''"
| "Phase_String Closed = ''closed''"

record day_schedule =
  ds_date :: int
  ds_open :: int
  ds_close :: int
  ds_dataClose :: int
  ds_tradingDay :: bool

definition Schedule :: "tz \<Rightarrow> int \<Rightarrow> day_schedule" where
  "Schedule off t =
     (let D = et_day off t; d = midnight_of off D;
          s = \<lparr>ds_date = d, ds_open = zero_time, ds_close = zero_time,
               ds_dataClose = zero_time, ds_tradingDay = False\<rparr>
      in if \<not> isTradingDate D then s
         else let s = s\<lparr>ds_tradingDay := True,
                        ds_open := d + (9 * 3600 + 30 * 60) * 1000,
                        ds_close := d + 16 * 3600 * 1000,
                        ds_dataClose := d + 20 * 3600 * 1000\<rparr>
              in if isEarlyClose D
                 then s\<lparr>ds_close := d + 13 * 3600 * 1000, ds_dataClose := d + 17 * 3600 * 1000\<rparr>
                 else s)"

definition IsTradingDay :: "tz \<Rightarrow> int \<Rightarrow> bool" where
  "IsTradingDay off t = ds_tradingDay (Schedule off t)"

definition midnightET :: "tz \<Rightarrow> int \<Rightarrow> int" where
  "midnightET off t = midnight_of off (et_day off t)"

definition PreviousTradingDay :: "tz \<Rightarrow> int \<Rightarrow> int" where
  "PreviousTradingDay off t = midnight_of off (prev_trading (et_day off t - 1))"

definition NextTradingDay :: "tz \<Rightarrow> int \<Rightarrow> int" where
  "NextTradingDay off t = midnight_of off (next_trading (et_day off t + 1))"

definition TradingCycleStart :: "tz \<Rightarrow> int \<Rightarrow> int" where
  "TradingCycleStart off t =
     (let s = Schedule off t in
      if ds_tradingDay s \<and> \<not> t < ds_close s then ds_close s
      else ds_close (Schedule off (PreviousTradingDay off t)))"

definition NextTradingCycleStart :: "tz \<Rightarrow> int \<Rightarrow> int" where
  "NextTradingCycleStart off t =
     (let s = Schedule off t in
      if ds_tradingDay s \<and> t < ds_close s then ds_close s
      else ds_close (Schedule off (NextTradingDay off t)))"

definition PhaseAt :: "tz \<Rightarrow> int \<Rightarrow> phase" where
  "PhaseAt off t =
     (let sched = Schedule off t in
      if \<not> ds_tradingDay sched then Closed
      else let s = wallSecs off t;
               closeSecs = wallSecs off (ds_close sched);
               dataCloseSecs = wallSecs off (ds_dataClose sched)
           in if s \<ge> 4 * 3600 \<and> s < AnchorSecsDefault then PreMarket
              else if s \<ge> AnchorSecsDefault \<and> s < closeSecs then RTH
              else if s \<ge> closeSecs \<and> s < dataCloseSecs then PostMarket
              else if s \<ge> dataCloseSecs \<or> s < 4 * 3600 then Overnight
              else Closed)"

definition dayMidnightMs :: "tz \<Rightarrow> int \<Rightarrow> int" where
  "dayMidnightMs off tsMs = tsMs - wallSecs off tsMs * 1000 - tsMs mod 1000"

definition DayMs :: "tz \<Rightarrow> int \<Rightarrow> int" where
  "DayMs off tsMs = dayMidnightMs off tsMs"

definition PoolDay :: "tz \<Rightarrow> int \<Rightarrow> int" where
  "PoolDay off t =
     (let D = et_day off t; anchor = time_Date off (86400 * D + 20 * 3600);
          anchor = (if t < anchor then time_Date off (86400 * (D - 1) + 20 * 3600) else anchor)
      in anchor div 1000)"

definition floorDiv :: "int \<Rightarrow> int \<Rightarrow> int" where
  "floorDiv a b =
     (let q = a sdiv b in if a smod b \<noteq> 0 \<and> (a < 0) \<noteq> (b < 0) then q - 1 else q)"

definition BucketStartMsAnchored :: "tz \<Rightarrow> int \<Rightarrow> timeframe \<Rightarrow> int \<Rightarrow> int" where
  "BucketStartMsAnchored off tsMs tf anchorSecs =
     (let midnight = dayMidnightMs off tsMs;
          secsIntoDay = (tsMs - midnight) sdiv 1000;
          floorTo = (\<lambda>span anchor. midnight + (anchor + floorDiv (secsIntoDay - anchor) span * span) * 1000)
      in case tf of
           TF10s \<Rightarrow> floorTo 10 0
         | TF1m \<Rightarrow> floorTo 60 0
         | TF5m \<Rightarrow> floorTo (fst (IntradaySpanSecs tf)) anchorSecs
         | TF15m \<Rightarrow> floorTo (fst (IntradaySpanSecs tf)) anchorSecs
         | TF30m \<Rightarrow> floorTo (fst (IntradaySpanSecs tf)) anchorSecs
         | TF60m \<Rightarrow> floorTo (fst (IntradaySpanSecs tf)) anchorSecs
         | TFDay \<Rightarrow> midnight
         | TFWeek \<Rightarrow> midnight - ((weekday (et_day off tsMs) + 6) smod 7) * 86400000
         | TFMonth \<Rightarrow> midnight - (snd (snd (civil_from_days (et_day off tsMs))) - 1) * 86400000
         | TFStr _ \<Rightarrow> midnight)"

definition BucketStartMs :: "tz \<Rightarrow> int \<Rightarrow> timeframe \<Rightarrow> int" where
  "BucketStartMs off tsMs tf = BucketStartMsAnchored off tsMs tf AnchorSecsDefault"

section \<open>What the zone data promises\<close>

text \<open>
  From 1970 on \<open>America/New_York\<close> is five or four hours behind UTC, changes only on Sundays
  between 01:00 and 03:00 of the wall clock, and reads back every other wall-clock time.
\<close>

abbreviation tz_date :: "tz \<Rightarrow> int \<Rightarrow> int" where
  "tz_date off u \<equiv> u - off (u - off u)"

definition whole_hours :: "tz \<Rightarrow> bool" where
  "whole_hours off \<longleftrightarrow> (\<forall>s. 3600 dvd off s)"

definition tz_ok :: "tz \<Rightarrow> bool" where
  "tz_ok off \<longleftrightarrow>
     (\<forall>s \<ge> 0. off s = - 18000 \<or> off s = - 14400) \<and>
     (\<forall>u \<ge> 86400. u mod 86400 < 3600 \<or> u mod 86400 \<ge> 10800 \<or> weekday (u div 86400) \<noteq> 0 \<longrightarrow>
        tz_date off u + off (tz_date off u) = u) \<and>
     (\<forall>s \<ge> 86400. weekday ((s + off s) div 86400) \<noteq> 0 \<longrightarrow> tz_date off (s + off s) = s) \<and>
     (\<forall>D \<ge> 1. \<forall>w. weekday D \<noteq> 0 \<and> 0 \<le> w \<and> w < 86400 \<longrightarrow>
        tz_date off (86400 * D + w) = tz_date off (86400 * D) + w)"

text \<open>Two zones that keep the promise: standard time all year, and New York around 2024.\<close>

definition est :: tz where
  "est s = - 18000"

definition ny2024 :: tz where
  "ny2024 s = (if 1710054000 \<le> s \<and> s < 1730613600 then - 14400 else - 18000)"

lemma est_ok: "tz_ok est" "whole_hours est"
  by (simp_all add: tz_ok_def whole_hours_def est_def)

lemma ny2024_range: "ny2024 s = - 18000 \<or> ny2024 s = - 14400"
  by (simp add: ny2024_def)

lemma ny2024_whole: "whole_hours ny2024"
  by (simp add: whole_hours_def ny2024_def)

lemma ny2024_local:
  "ny2024 (u - ny2024 u) = (if 1710036000 \<le> u \<and> u < 1730599200 then - 14400 else - 18000)"
  by (simp add: ny2024_def)

lemma spring_day: "1710028800 \<le> u \<Longrightarrow> u < 1710115200 \<Longrightarrow> u div 86400 = 19792 \<and> u mod 86400 = u - 1710028800"
  and fall_day: "1730592000 \<le> u \<Longrightarrow> u < 1730678400 \<Longrightarrow> u div 86400 = 20030 \<and> u mod 86400 = u - 1730592000" for u :: int
proof -
  have m: "u mod 86400 = u - 86400 * (u div 86400)" by (simp add: minus_mult_div_eq_mod)
  have b: "86400 * (u div 86400) \<le> u" "u < 86400 * (u div 86400) + 86400" by (simp_all add: div_bounds)
  show "u div 86400 = 19792 \<and> u mod 86400 = u - 1710028800" if "1710028800 \<le> u" "u < 1710115200"
  proof -
    have "u div 86400 = 19792" using that b by linarith
    then show ?thesis using m by simp
  qed
  show "u div 86400 = 20030 \<and> u mod 86400 = u - 1730592000" if "1730592000 \<le> u" "u < 1730678400"
  proof -
    have "u div 86400 = 20030" using that b by linarith
    then show ?thesis using m by simp
  qed
qed

lemma weekday_not_sunday: "weekday D \<noteq> 0 \<Longrightarrow> D \<noteq> 19792 \<and> D \<noteq> 20030"
  by (auto simp: weekday_def)

lemma ny2024_ok: "tz_ok ny2024"
proof -
  have read: "tz_date ny2024 u + ny2024 (tz_date ny2024 u) = u"
    if "u mod 86400 < 3600 \<or> u mod 86400 \<ge> 10800 \<or> weekday (u div 86400) \<noteq> 0" for u
  proof -
    have "\<not> (1710036000 \<le> u \<and> u < 1710039600)"
      using that spring_day[of u] weekday_not_sunday[of "u div 86400"] by auto
    then show ?thesis unfolding ny2024_local by (auto simp: ny2024_def)
  qed
  have rtrip: "tz_date ny2024 (s + ny2024 s) = s" if "weekday ((s + ny2024 s) div 86400) \<noteq> 0" for s
  proof -
    have "\<not> (1730595600 \<le> s + ny2024 s \<and> s + ny2024 s < 1730599200)"
      using fall_day[of "s + ny2024 s"] weekday_not_sunday[OF that] by auto
    then show ?thesis unfolding ny2024_local by (auto simp: ny2024_def split: if_splits)
  qed
  have day: "tz_date ny2024 (86400 * D + w) = tz_date ny2024 (86400 * D) + w"
    if "weekday D \<noteq> 0" "0 \<le> w" "w < 86400" for D w
    using weekday_not_sunday[OF that(1)] that(2,3) unfolding ny2024_local by auto
  show ?thesis unfolding tz_ok_def using ny2024_range read rtrip day by blast
qed

section \<open>The wall clock of a day\<close>

lemma off_cases: "tz_ok off \<Longrightarrow> 0 \<le> s \<Longrightarrow> off s = - 18000 \<or> off s = - 14400"
  by (simp add: tz_ok_def)

lemma tz_readback:
  "tz_ok off \<Longrightarrow> 86400 \<le> u \<Longrightarrow> u mod 86400 < 3600 \<or> u mod 86400 \<ge> 10800 \<or> weekday (u div 86400) \<noteq> 0 \<Longrightarrow>
   tz_date off u + off (tz_date off u) = u"
  unfolding tz_ok_def by blast

lemma trading_weekday: "isTradingDate D \<Longrightarrow> weekday D \<noteq> 0"
  by (auto simp: isTradingDate_def Let_def)

lemma tz_date_day:
  assumes "tz_ok off" "1 \<le> D" "weekday D \<noteq> 0" "0 \<le> w" "w < 86400"
  shows "tz_date off (86400 * D + w) = tz_date off (86400 * D) + w"
    and "et_civil off (1000 * (tz_date off (86400 * D) + w)) = 86400 * D + w"
proof -
  show d: "tz_date off (86400 * D + w) = tz_date off (86400 * D) + w"
    using assms by (simp add: tz_ok_def)
  have "(86400 * D + w) div 86400 = D" using assms by simp
  then have "tz_date off (86400 * D + w) + off (tz_date off (86400 * D + w)) = 86400 * D + w"
    using assms by (intro tz_readback) auto
  then show "et_civil off (1000 * (tz_date off (86400 * D) + w)) = 86400 * D + w"
    unfolding d by (simp add: et_civil_def)
qed

lemma instant_of_wall:
  assumes "tz_ok off" "172800000 \<le> t" "weekday (et_day off t) \<noteq> 0"
  shows "t = midnight_of off (et_day off t) + 1000 * wallSecs off t + t mod 1000"
proof -
  define s where "s = t div 1000"
  have s: "172800 \<le> s" using assms(2) zdiv_mono1[of 172800000 t 1000] by (simp add: s_def)
  have civ: "et_civil off t = s + off s" by (simp add: et_civil_def s_def)
  have off: "off s = - 18000 \<or> off s = - 14400" using off_cases[OF assms(1)] s by simp
  have "tz_date off (s + off s) = s" using assms s by (simp add: tz_ok_def et_day_def civ)
  moreover have "s + off s = 86400 * et_day off t + wallSecs off t"
    by (simp add: et_day_def wallSecs_def civ)
  moreover have "1 \<le> et_day off t"
    unfolding et_day_def civ using s off zdiv_mono1[of 86400 "s + off s" 86400] by auto
  ultimately have "tz_date off (86400 * et_day off t) + wallSecs off t = s"
    using tz_date_day(1)[OF assms(1) _ assms(3), of "wallSecs off t"] by (simp add: wallSecs_def)
  then have "1000 * (tz_date off (86400 * et_day off t) + wallSecs off t) + t mod 1000 = t"
    by (simp only: s_def mult_div_mod_eq)
  then show ?thesis by (simp add: midnight_of_def time_Date_def algebra_simps)
qed

lemma et_day_pos: "tz_ok off \<Longrightarrow> 172800000 \<le> t \<Longrightarrow> 1 \<le> et_day off t"
  using off_cases[of off "t div 1000"] zdiv_mono1[of 172800000 t 1000]
    zdiv_mono1[of 86400 "t div 1000 + off (t div 1000)" 86400]
  by (auto simp: et_day_def et_civil_def)


section \<open>The schedule in wall-clock terms\<close>

definition close_secs :: "int \<Rightarrow> int" where
  "close_secs D = (if isEarlyClose D then 13 * 3600 else 16 * 3600)"

definition dataClose_secs :: "int \<Rightarrow> int" where
  "dataClose_secs D = (if isEarlyClose D then 17 * 3600 else 20 * 3600)"

lemma schedule_trading:
  assumes "isTradingDate (et_day off t)"
  shows "ds_tradingDay (Schedule off t)"
    and "ds_open (Schedule off t) = midnight_of off (et_day off t) + 34200 * 1000"
    and "ds_close (Schedule off t) = midnight_of off (et_day off t) + close_secs (et_day off t) * 1000"
    and "ds_dataClose (Schedule off t) = midnight_of off (et_day off t) + dataClose_secs (et_day off t) * 1000"
  using assms by (simp_all add: Schedule_def Let_def close_secs_def dataClose_secs_def)

lemma tradingDay_iff [simp]: "ds_tradingDay (Schedule off t) \<longleftrightarrow> isTradingDate (et_day off t)"
  by (simp add: Schedule_def Let_def)

lemma close_secs_range: "34200 < close_secs D" "close_secs D \<le> dataClose_secs D" "dataClose_secs D \<le> 72000"
  by (simp_all add: close_secs_def dataClose_secs_def)

lemma wallSecs_of_day:
  assumes "tz_ok off" "1 \<le> D" "weekday D \<noteq> 0" "0 \<le> w" "w < 86400"
  shows "wallSecs off (midnight_of off D + w * 1000) = w" and "et_day off (midnight_of off D + w * 1000) = D"
proof -
  have "midnight_of off D + w * 1000 = 1000 * (tz_date off (86400 * D) + w)"
    by (simp add: midnight_of_def time_Date_def mult.commute)
  then have "et_civil off (midnight_of off D + w * 1000) = 86400 * D + w"
    using tz_date_day(2)[OF assms] by (simp only:)
  then show "wallSecs off (midnight_of off D + w * 1000) = w" "et_day off (midnight_of off D + w * 1000) = D"
    using assms by (simp_all add: wallSecs_def et_day_def)
qed

lemma phase_instants:
  assumes tz: "tz_ok off" and t: "172800000 \<le> t" and td: "IsTradingDay off t"
  shows "(PhaseAt off t = PreMarket \<longleftrightarrow> ds_date (Schedule off t) + 4 * 3600 * 1000 \<le> t \<and> t < ds_open (Schedule off t)) \<and>
    (PhaseAt off t = RTH \<longleftrightarrow> ds_open (Schedule off t) \<le> t \<and> t < ds_close (Schedule off t)) \<and>
    (PhaseAt off t = PostMarket \<longleftrightarrow> ds_close (Schedule off t) \<le> t \<and> t < ds_dataClose (Schedule off t)) \<and>
    (PhaseAt off t = Overnight \<longleftrightarrow> t < ds_date (Schedule off t) + 4 * 3600 * 1000 \<or> ds_dataClose (Schedule off t) \<le> t) \<and>
    PhaseAt off t \<noteq> Closed"
proof -
  define D where "D = et_day off t"
  define m where "m = midnight_of off D"
  define w where "w = wallSecs off t"
  define r where "r = t mod 1000"
  have D: "isTradingDate D" "1 \<le> D" using td et_day_pos[OF tz t] by (simp_all add: IsTradingDay_def D_def)
  have wd: "weekday D \<noteq> 0" using D(1) by (rule trading_weekday)
  have te: "t = m + 1000 * w + r"
    using instant_of_wall[OF tz t] wd unfolding m_def D_def w_def r_def by simp
  have r: "0 \<le> r" "r < 1000" by (simp_all add: r_def)
  have w: "0 \<le> w" "w < 86400" by (simp_all add: w_def wallSecs_def)
  have sched: "ds_date (Schedule off t) = m" "ds_open (Schedule off t) = m + 34200 * 1000"
    "ds_close (Schedule off t) = m + close_secs D * 1000" "ds_dataClose (Schedule off t) = m + dataClose_secs D * 1000"
    using schedule_trading[of off t] D(1) by (simp_all add: D_def m_def Schedule_def Let_def)
  have cs: "wallSecs off (m + close_secs D * 1000) = close_secs D"
    "wallSecs off (m + dataClose_secs D * 1000) = dataClose_secs D"
    unfolding m_def by (rule wallSecs_of_day(1)[OF tz D(2) wd]; use close_secs_range[of D] in simp)+
  have ph: "PhaseAt off t =
      (if w \<ge> 14400 \<and> w < 34200 then PreMarket
       else if w \<ge> 34200 \<and> w < close_secs D then RTH
       else if w \<ge> close_secs D \<and> w < dataClose_secs D then PostMarket
       else if w \<ge> dataClose_secs D \<or> w < 14400 then Overnight else Closed)"
    using D(1) by (simp add: PhaseAt_def Let_def sched cs AnchorSecsDefault_def w_def[symmetric] flip: D_def)
  have cmp: "k * 1000 \<le> 1000 * w + r \<longleftrightarrow> k \<le> w" "1000 * w + r < k * 1000 \<longleftrightarrow> w < k" for k
    using r by auto
  have "m + a * 1000 \<le> t \<longleftrightarrow> a \<le> w" "t < m + a * 1000 \<longleftrightarrow> w < a" for a
    unfolding te using cmp[of a] by auto
  note iff = this this[of 14400, simplified]
  have four: "m + 4 * 3600 * 1000 = m + 14400 * 1000" by simp
  show ?thesis unfolding sched ph four iff(1,2)
    using close_secs_range[of D] by auto
qed

text \<open>C13. On a trading day the phase computed from wall-clock seconds is the one the schedule's instants give: pre-market from 04:00 to the open, RTH to the close, post-market to the data close, overnight otherwise, early closes included.\<close>

theorem phase_by_instants:
  assumes tz: "tz_ok off" and t: "172800000 \<le> t" and td: "IsTradingDay off t"
  shows "(PhaseAt off t = PreMarket \<longleftrightarrow> ds_date (Schedule off t) + 4 * 3600 * 1000 \<le> t \<and> t < ds_open (Schedule off t)) \<and>
    (PhaseAt off t = RTH \<longleftrightarrow> ds_open (Schedule off t) \<le> t \<and> t < ds_close (Schedule off t)) \<and>
    (PhaseAt off t = PostMarket \<longleftrightarrow> ds_close (Schedule off t) \<le> t \<and> t < ds_dataClose (Schedule off t)) \<and>
    (PhaseAt off t = Overnight \<longleftrightarrow> t < ds_date (Schedule off t) + 4 * 3600 * 1000 \<or> ds_dataClose (Schedule off t) \<le> t) \<and>
    PhaseAt off t \<noteq> Closed"
  by (rule phase_instants[OF assms])

section \<open>Trading days and cycles\<close>

definition close_of :: "tz \<Rightarrow> int \<Rightarrow> int" where
  "close_of off D = ds_close (Schedule off (midnight_of off D))"

lemma et_day_midnight: "tz_ok off \<Longrightarrow> 1 \<le> D \<Longrightarrow> et_day off (midnight_of off D) = D"
  using tz_readback[of off "86400 * D"]
  by (simp add: et_day_def et_civil_def midnight_of_def time_Date_def algebra_simps)

lemma close_of_trading:
  assumes "tz_ok off" "1 \<le> D" "isTradingDate D"
  shows "close_of off D = midnight_of off D + close_secs D * 1000"
    and "et_civil off (close_of off D) = 86400 * D + close_secs D"
proof -
  show c: "close_of off D = midnight_of off D + close_secs D * 1000"
    using schedule_trading(3)[of off "midnight_of off D"] assms by (simp add: close_of_def et_day_midnight)
  have "et_civil off (1000 * (tz_date off (86400 * D) + close_secs D)) = 86400 * D + close_secs D"
    using tz_date_day(2)[OF assms(1,2) trading_weekday[OF assms(3)], of "close_secs D"]
      close_secs_range[of D] by simp
  moreover have "close_of off D = 1000 * (tz_date off (86400 * D) + close_secs D)"
    by (simp add: c midnight_of_def time_Date_def algebra_simps)
  ultimately show "et_civil off (close_of off D) = 86400 * D + close_secs D" by simp
qed

text \<open>The wall clock never gains or loses more than an hour, so instants order as their wall
  clocks do as soon as these are more than an hour apart.\<close>

lemma civil_order:
  assumes "tz_ok off" "0 \<le> a" "0 \<le> b" "et_civil off a + 3600 < et_civil off b"
  shows "a < b"
proof -
  have "0 \<le> a div 1000" "0 \<le> b div 1000" using assms(2,3) by (simp_all add: pos_imp_zdiv_nonneg_iff)
  then have "a div 1000 < b div 1000"
    using assms(4) off_cases[OF assms(1), of "a div 1000"] off_cases[OF assms(1), of "b div 1000"]
    by (auto simp: et_civil_def)
  then show ?thesis using zdiv_mono1[of b a 1000] by fastforce
qed

lemma close_of_pos: "tz_ok off \<Longrightarrow> 1 \<le> D \<Longrightarrow> isTradingDate D \<Longrightarrow> 0 \<le> close_of off D"
  using off_cases[of off "86400 * D - off (86400 * D)"] off_cases[of off "86400 * D"] close_secs_range[of D]
  by (auto simp: close_of_trading(1) midnight_of_def time_Date_def)

lemma close_of_mono:
  assumes "tz_ok off" "1 \<le> a" "a < b" "isTradingDate a" "isTradingDate b"
  shows "close_of off a < close_of off b"
  by (rule civil_order[OF assms(1)])
    (use assms close_of_pos close_secs_range[of a] close_secs_range[of b] in \<open>auto simp: close_of_trading(2)\<close>)

lemma close_of_other_day:
  assumes "tz_ok off" "172800000 \<le> t" "1 \<le> D" "isTradingDate D"
  shows "D < et_day off t \<Longrightarrow> close_of off D < t" and "et_day off t < D \<Longrightarrow> t < close_of off D"
proof -
  have c: "et_civil off (close_of off D) = 86400 * D + close_secs D" "0 \<le> close_of off D"
    using assms close_of_trading(2) close_of_pos by auto
  have w: "86400 * et_day off t \<le> et_civil off t" "et_civil off t < 86400 * et_day off t + 86400"
    by (simp_all add: et_day_def div_bounds)
  have t: "0 \<le> t" using assms(2) by simp
  show "D < et_day off t \<Longrightarrow> close_of off D < t"
    by (rule civil_order[OF assms(1) c(2) t]) (use w c(1) close_secs_range[of D] in linarith)
  show "et_day off t < D \<Longrightarrow> t < close_of off D"
    by (rule civil_order[OF assms(1) t c(2)]) (use w c(1) close_secs_range[of D] in linarith)
qed

text \<open>1970-01-02, a Friday, is a trading date, so no loop from 1970 on leaves the range.\<close>

lemma first_trading: "isTradingDate 1"
  by code_simp

lemma prev_trading_pos: "1 \<le> D \<Longrightarrow> 1 \<le> prev_trading D"
  using prev_trading_spec[of D] first_trading by force

text \<open>C12. TradingCycleStart is the last scheduled close at or before an instant and NextTradingCycleStart the first after it: no trading date's close lies strictly between.\<close>

theorem trading_cycle_brackets:
  assumes tz: "tz_ok off" and t: "172800000 \<le> t" and D: "2 \<le> et_day off t"
  shows "TradingCycleStart off t \<le> t \<and> t < NextTradingCycleStart off t \<and>
    (\<forall>x \<ge> 1. isTradingDate x \<longrightarrow>
       close_of off x \<le> TradingCycleStart off t \<or> NextTradingCycleStart off t \<le> close_of off x)"
proof -
  define E where "E = et_day off t"
  define p where "p = prev_trading (E - 1)"
  define n where "n = next_trading (E + 1)"
  have p: "isTradingDate p" "p < E" "1 \<le> p" "\<And>x. isTradingDate x \<Longrightarrow> x < E \<Longrightarrow> x \<le> p"
    using prev_trading_spec[of "E - 1"] prev_trading_pos[of "E - 1"] D unfolding p_def E_def by force+
  have n: "isTradingDate n" "E < n" "\<And>x. isTradingDate x \<Longrightarrow> E < x \<Longrightarrow> n \<le> x"
  proof -
    have sp: "isTradingDate n" "E + 1 \<le> n" "\<And>x. E + 1 \<le> x \<Longrightarrow> x < n \<Longrightarrow> \<not> isTradingDate x"
      using next_trading_spec[of "E + 1"] unfolding n_def by blast+
    show "isTradingDate n" "E < n" using sp by simp_all
    show "n \<le> x" if "isTradingDate x" "E < x" for x using sp(3)[of x] that by force
  qed
  have own: "ds_close (Schedule off t) = close_of off E" if "isTradingDate E"
    using schedule_trading(3)[of off t] close_of_trading(1)[OF tz _ that] that D by (simp add: E_def)
  have start: "TradingCycleStart off t = (if isTradingDate E \<and> close_of off E \<le> t then close_of off E else close_of off p)"
    using own by (auto simp: TradingCycleStart_def PreviousTradingDay_def close_of_def p_def Let_def not_less E_def[symmetric])
  have nxt: "NextTradingCycleStart off t = (if isTradingDate E \<and> t < close_of off E then close_of off E else close_of off n)"
    using own by (auto simp: NextTradingCycleStart_def NextTradingDay_def close_of_def n_def Let_def not_less E_def[symmetric])
  have bp: "close_of off p < t" using close_of_other_day(1)[OF tz t p(3,1)] p(2) by (simp add: E_def)
  have bn: "t < close_of off n" using close_of_other_day(2)[OF tz t _ n(1)] n(2) D by (simp add: E_def)
  have le: "close_of off a \<le> close_of off b" if "a \<le> b" "1 \<le> a" "isTradingDate a" "isTradingDate b" for a b
    using close_of_mono[OF tz that(2), of b] that by (cases "a = b") auto
  have "close_of off x \<le> TradingCycleStart off t \<or> NextTradingCycleStart off t \<le> close_of off x"
    if x: "1 \<le> x" "isTradingDate x" for x
  proof -
    consider "x < E" | "x = E" | "E < x" by linarith
    then show ?thesis
    proof cases
      case 1
      then have "close_of off x \<le> close_of off p" using le x p by auto
      moreover have "close_of off p \<le> close_of off E" if "isTradingDate E" using le p that by auto
      ultimately show ?thesis unfolding start by fastforce
    next
      case 2
      then show ?thesis using x(2) unfolding start nxt by auto
    next
      case 3
      then have "close_of off n \<le> close_of off x" using le x n D E_def by auto
      moreover have "close_of off E \<le> close_of off n" if "isTradingDate E" using le n that D E_def by auto
      ultimately show ?thesis unfolding nxt by (auto split: if_splits)
    qed
  qed
  then show ?thesis using bp bn unfolding start nxt by auto
qed

section \<open>Bucket grids\<close>

text \<open>What the bar and tick aggregators rely on when they key by bucket: a grid of equal
  buckets, each instant in exactly one.\<close>

locale bucket_grid =
  fixes bucket :: "int \<Rightarrow> int" and span :: int
  assumes bucket_le: "bucket t \<le> t"
    and bucket_lt: "t < bucket t + span"
    and bucket_gap: "bucket s < bucket t \<Longrightarrow> bucket s + span \<le> bucket t"
begin

lemma span_pos: "0 < span"
  using bucket_le[of 0] bucket_lt[of 0] by linarith

lemma bucket_idem: "bucket (bucket t) = bucket t"
  using bucket_le[of "bucket t"] bucket_lt[of "bucket t"] bucket_gap[of "bucket t" t] by linarith

lemma bucket_mono: "s \<le> t \<Longrightarrow> bucket s \<le> bucket t"
  using bucket_le[of s] bucket_lt[of t] bucket_gap[of t s] by linarith

lemma same_bucket_iff: "bucket s = bucket t \<longleftrightarrow> bucket t \<le> s \<and> s < bucket t + span"
  using bucket_le[of s] bucket_lt[of s] bucket_gap[of s t] bucket_gap[of t s] by linarith

lemma bucket_of_start: "bucket b = b \<Longrightarrow> b \<le> t \<Longrightarrow> t < b + span \<Longrightarrow> bucket t = b"
  using same_bucket_iff[of t b] by simp

lemma bucket_next: "bucket t + span \<le> u \<Longrightarrow> bucket t < bucket u"
  using bucket_lt[of u] bucket_mono[of "bucket t" u] bucket_idem[of t] same_bucket_iff[of u t] span_pos
  by fastforce

end

definition intraday :: "timeframe \<Rightarrow> bool" where
  "intraday tf = snd (IntradaySpanSecs tf)"

definition span_ms :: "timeframe \<Rightarrow> int" where
  "span_ms tf = fst (IntradaySpanSecs tf) * 1000"

definition anchor_of :: "timeframe \<Rightarrow> int \<Rightarrow> int" where
  "anchor_of tf a = (if tf = TF10s \<or> tf = TF1m then 0 else a)"

lemma sdiv_pos_eq: "0 \<le> a \<Longrightarrow> 0 < b \<Longrightarrow> a sdiv b = a div b" for a b :: int
  by (simp add: signed_divide_int_def sgn_if)

lemma floorDiv_eq: "0 < b \<Longrightarrow> floorDiv a b = a div b"
proof (cases "0 \<le> a")
  case True
  then show "0 < b \<Longrightarrow> floorDiv a b = a div b" by (simp add: floorDiv_def sdiv_pos_eq Let_def)
next
  case False
  assume b: "0 < b"
  have "a sdiv b = - ((- a) div b)" using False b by (simp add: signed_divide_int_def sgn_if)
  moreover have "a smod b = - ((- a) mod b)" using False b by (simp add: signed_modulo_int_def sgn_if)
  moreover have "a div b = (if (- a) mod b = 0 then - ((- a) div b) else - ((- a) div b) - 1)"
    using zdiv_zminus1_eq_if[of b "- a"] b by simp
  ultimately show ?thesis using False b by (simp add: floorDiv_def Let_def)
qed

lemma intraday_span: "intraday tf \<Longrightarrow> 0 < fst (IntradaySpanSecs tf) \<and> fst (IntradaySpanSecs tf) dvd 3600"
  by (cases tf) (auto simp: intraday_def intro: dvdI)

text \<open>The intraday bucket of the code is the floor on one grid of the epoch, whatever the
  zone's offset and its changes: the spans divide the hour the offsets are made of.\<close>

lemma bucket_floor:
  assumes wh: "whole_hours off" and tf: "intraday tf"
  shows "BucketStartMsAnchored off t tf a = t - (t - anchor_of tf a * 1000) mod span_ms tf"
proof -
  define sp where "sp = fst (IntradaySpanSecs tf)"
  define an where "an = anchor_of tf a"
  define s where "s = t div 1000"
  define w where "w = wallSecs off t"
  define r where "r = t mod 1000"
  have sp: "0 < sp" "sp dvd 3600" using intraday_span[OF tf] by (simp_all add: sp_def)
  have r: "0 \<le> r" "r < 1000" by (simp_all add: r_def)
  have te: "t = 1000 * s + r" by (simp add: s_def r_def)
  have mid: "dayMidnightMs off t = 1000 * (s - w)" unfolding dayMidnightMs_def w_def[symmetric] r_def[symmetric] by (simp add: te)
  have w0: "0 \<le> w" by (simp add: w_def wallSecs_def)
  have "t - dayMidnightMs off t = 1000 * w + r" unfolding mid by (simp add: te algebra_simps)
  then have secs: "(t - dayMidnightMs off t) sdiv 1000 = w" using w0 r by (simp add: sdiv_pos_eq)
  have "BucketStartMsAnchored off t tf a = dayMidnightMs off t + (an + floorDiv (w - an) sp * sp) * 1000"
    using tf by (cases tf) (simp_all add: BucketStartMsAnchored_def Let_def secs sp_def an_def anchor_of_def intraday_def)
  also have "\<dots> = 1000 * (s - w + an + (w - an) div sp * sp)"
    by (simp add: floorDiv_eq[OF sp(1)] mid algebra_simps)
  also have "\<dots> = 1000 * (s - (w - an) mod sp)"
  proof -
    have "s - w + an + (w - an) div sp * sp = s - (w - an) mod sp"
      using minus_mod_eq_div_mult[of "w - an" sp] by linarith
    then show ?thesis by (simp only:)
  qed
  also have "(w - an) mod sp = (s - an) mod sp"
  proof -
    have "sp dvd off s" using wh sp(2) by (auto simp: whole_hours_def intro: dvd_trans)
    moreover have "sp dvd 86400" using sp(2) by (rule dvd_trans) simp
    ultimately have "sp dvd (s + off s) div 86400 * 86400 - off s" by simp
    moreover have "s - an - (w - an) = (s + off s) div 86400 * 86400 - off s"
    proof -
      have "w = s + off s - (s + off s) div 86400 * 86400"
        by (simp add: w_def wallSecs_def et_civil_def s_def minus_div_mult_eq_mod)
      then show ?thesis by simp
    qed
    ultimately show ?thesis by (metis mod_eq_dvd_iff)
  qed
  also have "1000 * (s - (s - an) mod sp) = t - (t - an * 1000) mod (sp * 1000)"
  proof -
    have "t - an * 1000 = 1000 * (s - an) + r" using te by simp
    also have "\<dots> mod (1000 * sp) = 1000 * ((s - an) mod sp) + r"
    proof -
      have "(1000 * (s - an) + r) div 1000 = s - an"
        "(1000 * (s - an) + r) mod 1000 = r"
        using r by (simp_all only: div_mult_self4 mod_mult_self4) simp_all
      then show ?thesis using zmod_zmult2_eq[of sp "1000 * (s - an) + r" 1000] sp(1) by simp
    qed
    finally show ?thesis using te by (simp add: mult.commute)
  qed
  finally show ?thesis by (simp add: sp_def an_def span_ms_def)
qed

lemma floor_grid: "0 < n \<Longrightarrow> bucket_grid (\<lambda>t. t - (t - c) mod n) n"
proof
  fix s t :: int
  assume n: "0 < n"
  show "t - (t - c) mod n \<le> t" "t < t - (t - c) mod n + n"
    using n pos_mod_sign[of n "t - c"] pos_mod_bound[of n "t - c"] by simp_all
  have e: "x - (x - c) mod n = c + n * ((x - c) div n)" for x
    using mult_div_mod_eq[of n "x - c"] by linarith
  assume "s - (s - c) mod n < t - (t - c) mod n"
  then have "n * ((s - c) div n) < n * ((t - c) div n)" unfolding e by simp
  then have "(s - c) div n + 1 \<le> (t - c) div n" using n by simp
  then have "n * ((s - c) div n + 1) \<le> n * ((t - c) div n)" using n by simp
  then show "s - (s - c) mod n + n \<le> t - (t - c) mod n" unfolding e by (simp add: algebra_simps)
qed

lemma intraday_grid:
  assumes "whole_hours off" "intraday tf"
  shows "bucket_grid (\<lambda>t. BucketStartMs off t tf) (span_ms tf)"
  using floor_grid[of "span_ms tf" "anchor_of tf AnchorSecsDefault * 1000"] intraday_span[OF assms(2)]
  by (simp add: BucketStartMs_def bucket_floor[OF assms] span_ms_def)

interpretation ny_1m: bucket_grid "\<lambda>t. BucketStartMs ny2024 t TF1m" 60000
  using intraday_grid[OF ny2024_whole, of TF1m] by (simp add: intraday_def span_ms_def)

text \<open>C14. Intraday buckets form one grid: the bucket start is at or before the instant and less than a span away, is its own bucket, never decreases, and two instants share a bucket exactly when one lies in the other's span, across daylight-saving changes too.\<close>

theorem intraday_bucket_grid:
  assumes "whole_hours off" "intraday tf"
  shows "BucketStartMs off t tf \<le> t \<and> t < BucketStartMs off t tf + span_ms tf \<and>
    BucketStartMs off (BucketStartMs off t tf) tf = BucketStartMs off t tf \<and>
    (s \<le> t \<longrightarrow> BucketStartMs off s tf \<le> BucketStartMs off t tf) \<and>
    (BucketStartMs off s tf = BucketStartMs off t tf \<longleftrightarrow>
       BucketStartMs off t tf \<le> s \<and> s < BucketStartMs off t tf + span_ms tf)"
proof -
  note g = intraday_grid[OF assms]
  show ?thesis using bucket_grid.bucket_le[OF g] bucket_grid.bucket_lt[OF g] bucket_grid.bucket_idem[OF g]
      bucket_grid.bucket_mono[OF g] bucket_grid.same_bucket_iff[OF g] by blast
qed

definition pool_anchor :: "tz \<Rightarrow> int \<Rightarrow> int" where
  "pool_anchor off D = time_Date off (86400 * D + 20 * 3600)"

lemma pool_anchor_civil:
  assumes "tz_ok off" "1 \<le> D"
  shows "et_civil off (pool_anchor off D) = 86400 * D + 72000" "0 \<le> pool_anchor off D"
    "pool_anchor off D div 1000 * 1000 = pool_anchor off D"
proof -
  have "(86400 * D + 72000) mod 86400 = 72000" by simp
  then have r: "tz_date off (86400 * D + 72000) + off (tz_date off (86400 * D + 72000)) = 86400 * D + 72000"
    using assms by (intro tz_readback) auto
  then show "et_civil off (pool_anchor off D) = 86400 * D + 72000"
    by (simp add: pool_anchor_def time_Date_def et_civil_def)
  show "0 \<le> pool_anchor off D"
    using off_cases[OF assms(1), of "86400 * D + 72000"] assms(2)
      off_cases[OF assms(1), of "86400 * D + 72000 - off (86400 * D + 72000)"]
    by (auto simp: pool_anchor_def time_Date_def)
  show "pool_anchor off D div 1000 * 1000 = pool_anchor off D"
    by (simp add: pool_anchor_def time_Date_def)
qed

theorem pool_day_brackets:
  assumes tz: "tz_ok off" and t: "172800000 \<le> t" and D: "2 \<le> et_day off t"
  shows "\<exists>P \<in> {et_day off t - 1, et_day off t}. PoolDay off t * 1000 = pool_anchor off P \<and>
    pool_anchor off P \<le> t \<and> t < pool_anchor off (P + 1)"
proof -
  define E where "E = et_day off t"
  have w: "86400 * E \<le> et_civil off t" "et_civil off t < 86400 * E + 86400"
    by (simp_all add: E_def et_day_def div_bounds)
  have t0: "0 \<le> t" using t by simp
  have E: "2 \<le> E" using D by (simp add: E_def)
  have lo: "pool_anchor off (E - 1) < t"
    using civil_order[OF tz _ t0, of "pool_anchor off (E - 1)"] pool_anchor_civil[OF tz, of "E - 1"] w E by auto
  have hi: "t < pool_anchor off (E + 1)"
    using civil_order[OF tz t0, of "pool_anchor off (E + 1)"] pool_anchor_civil[OF tz, of "E + 1"] w E by auto
  have e: "PoolDay off t * 1000 = (if t < pool_anchor off E then pool_anchor off (E - 1) else pool_anchor off E)"
    using pool_anchor_civil(3)[OF tz, of E] pool_anchor_civil(3)[OF tz, of "E - 1"] E
    unfolding PoolDay_def Let_def E_def[symmetric] pool_anchor_def[symmetric] by simp
  show ?thesis
  proof (cases "t < pool_anchor off E")
    case True
    then show ?thesis using e lo by (intro bexI[of _ "E - 1"]) (auto simp: E_def)
  next
    case False
    then show ?thesis using e hi by (intro bexI[of _ E]) (auto simp: E_def)
  qed
qed

section \<open>Witnesses\<close>

text \<open>2024-07-03 10:00 in New York, a Wednesday with an early close: the day before the holiday.\<close>

lemma july3_trading: "IsTradingDay ny2024 1720015200000 \<and> isEarlyClose (et_day ny2024 1720015200000)"
  by code_simp

lemma phase_by_instants_witness:
  "PhaseAt ny2024 1720015200000 = RTH \<longleftrightarrow>
     ds_open (Schedule ny2024 1720015200000) \<le> 1720015200000 \<and>
     1720015200000 < ds_close (Schedule ny2024 1720015200000)"
  using phase_by_instants[OF ny2024_ok, of 1720015200000] july3_trading by simp

lemma trading_cycle_brackets_witness:
  "TradingCycleStart ny2024 1720015200000 \<le> 1720015200000 \<and>
   1720015200000 < NextTradingCycleStart ny2024 1720015200000"
  using trading_cycle_brackets[OF ny2024_ok, of 1720015200000]
  by (simp add: et_day_def et_civil_def ny2024_def)

lemma intraday_bucket_grid_witness:
  "BucketStartMs ny2024 1720015234567 TF5m \<le> 1720015234567 \<and>
   1720015234567 < BucketStartMs ny2024 1720015234567 TF5m + span_ms TF5m"
  using intraday_bucket_grid[OF ny2024_whole, of TF5m 1720015234567 0] by (simp add: intraday_def)

lemma pool_day_brackets_witness:
  "\<exists>P \<in> {et_day ny2024 1720015200000 - 1, et_day ny2024 1720015200000}.
     PoolDay ny2024 1720015200000 * 1000 = pool_anchor ny2024 P \<and>
     pool_anchor ny2024 P \<le> 1720015200000 \<and> 1720015200000 < pool_anchor ny2024 (P + 1)"
  by (rule pool_day_brackets[OF ny2024_ok]) (simp_all add: et_day_def et_civil_def ny2024_def)

end
