(* ===== verification/HeldRoute.thy ===== *)
theory HeldRoute
  imports ExecTypes Session
begin

text \<open>
  Custody of conditional orders: \<open>held_route.go\<close> decides which orders the engine holds itself
  and until when, and when a held order triggers; the session windows of a trailing stop are
  \<open>TrailSessions\<close> of \<open>trailing.go\<close> and \<open>trailing_candles.go\<close>. Times are milliseconds, the
  New York offsets the parameter \<open>off\<close> of theory Session.
\<close>

section \<open>Routes\<close>

datatype held_route = RouteNative | RouteEngineHeld | RouteUnsupported | HeldRouteStr string

definition ResolveStopLimitRoute ::
  "tz \<Rightarrow> int \<Rightarrow> tif \<Rightarrow> order_session \<Rightarrow> held_route \<times> order_session \<times> int" where
  "ResolveStopLimitRoute off now tif0 requested =
     (let phase = PhaseAt off now;
          effective = (if requested = SessionAuto \<and> (phase = PreMarket \<or> phase = PostMarket)
                       then SessionExtended else requested)
      in if tif0 \<noteq> TIFDay \<or> effective \<noteq> SessionExtended \<or> (phase \<noteq> PreMarket \<and> phase \<noteq> PostMarket)
         then (RouteNative, effective, zero_time)
         else let schedule = Schedule off now
              in if phase = PreMarket then (RouteEngineHeld, effective, ds_open schedule)
                 else (RouteEngineHeld, effective, ds_dataClose schedule))"

text \<open>The session an AUTO request means in a phase, and the deadline of an engine-held order.\<close>

definition auto_session :: "phase \<Rightarrow> order_session \<Rightarrow> order_session" where
  "auto_session phase requested =
     (if requested = SessionAuto
      then case phase of PreMarket \<Rightarrow> SessionExtended | PostMarket \<Rightarrow> SessionExtended
           | RTH \<Rightarrow> SessionRTH | _ \<Rightarrow> requested
      else requested)"

definition held_deadline :: "phase \<Rightarrow> order_session \<Rightarrow> day_schedule \<Rightarrow> int option" where
  "held_deadline phase effective schedule = (case phase of
       PreMarket \<Rightarrow> if effective = SessionExtended then Some (ds_open schedule) else None
     | RTH \<Rightarrow> if effective = SessionRTH \<or> effective = SessionExtended then Some (ds_close schedule) else None
     | PostMarket \<Rightarrow> if effective = SessionExtended then Some (ds_dataClose schedule) else None
     | _ \<Rightarrow> None)"

definition ResolveDeferredStopSellRoute ::
  "tz \<Rightarrow> int \<Rightarrow> tif \<Rightarrow> order_session \<Rightarrow> held_route \<times> order_session \<times> int \<times> string" where
  "ResolveDeferredStopSellRoute off now tif0 requested =
     (if tif0 \<noteq> TIFDay
      then (RouteUnsupported, requested, zero_time, ''deferred position sizing requires a DAY order'')
      else let phase = PhaseAt off now;
               effective = auto_session phase requested
           in if (phase = PreMarket \<or> phase = PostMarket) \<and> effective = SessionRTH
              then (RouteUnsupported, effective, zero_time, ''deferred RTH orders can only be placed during RTH'')
              else case held_deadline phase effective (Schedule off now) of
                     Some deadline \<Rightarrow> (RouteEngineHeld, effective, deadline, '''')
                   | None \<Rightarrow> (RouteUnsupported, effective, zero_time, ''deferred stop-sell is unavailable outside market sessions''))"

definition ResolveLimitIfTouchedRoute ::
  "tz \<Rightarrow> int \<Rightarrow> tif \<Rightarrow> order_session \<Rightarrow> held_route \<times> order_session \<times> int \<times> string" where
  "ResolveLimitIfTouchedRoute off now tif0 requested =
     (if tif0 \<noteq> TIFDay
      then (RouteUnsupported, requested, zero_time, ''limit-if-touched order requires a DAY order'')
      else let phase = PhaseAt off now;
               effective = auto_session phase requested
           in if (phase = PreMarket \<or> phase = PostMarket) \<and> effective = SessionRTH
              then (RouteUnsupported, effective, zero_time, ''limit-if-touched order RTH orders can only be placed during RTH'')
              else case held_deadline phase effective (Schedule off now) of
                     Some deadline \<Rightarrow> (RouteEngineHeld, effective, deadline, '''')
                   | None \<Rightarrow> (RouteUnsupported, effective, zero_time, ''limit-if-touched order is unavailable outside market sessions''))"

section \<open>Triggers\<close>

definition StopLimitTriggered :: "side \<Rightarrow> f64 \<Rightarrow> f64 \<Rightarrow> bool" where
  "StopLimitTriggered sd price stop0 =
     (let stop = (if validLimitIfTouchedPrice stop0
                  then math_round (stop0 * Fin 10000) / Fin 10000 else stop0) in
      case sd of SideBuy \<Rightarrow> price \<ge> stop | SideCover \<Rightarrow> price \<ge> stop
      | SideSell \<Rightarrow> price \<le> stop | SideShort \<Rightarrow> price \<le> stop | SideNum _ \<Rightarrow> False)"

definition HeldOrderTriggered :: "order_type \<Rightarrow> side \<Rightarrow> f64 \<Rightarrow> f64 \<Rightarrow> bool" where
  "HeldOrderTriggered typ sd price trigger =
     (if typ = TypeLimitIfTouched
      then case sd of SideBuy \<Rightarrow> StopLimitTriggered SideSell price trigger
           | SideCover \<Rightarrow> StopLimitTriggered SideSell price trigger
           | SideSell \<Rightarrow> StopLimitTriggered SideBuy price trigger
           | SideShort \<Rightarrow> StopLimitTriggered SideBuy price trigger
           | SideNum _ \<Rightarrow> False
      else typ = TypeStopLimit \<and> StopLimitTriggered sd price trigger)"

section \<open>The sessions of a trail\<close>

definition allows :: "tz \<Rightarrow> trail_sessions \<Rightarrow> int \<Rightarrow> bool" where
  "allows off s t = (case PhaseAt off t of
     PreMarket \<Rightarrow> ts_pre s | RTH \<Rightarrow> ts_rth s | PostMarket \<Rightarrow> ts_post s | _ \<Rightarrow> False)"

definition trail_deadline :: "tz \<Rightarrow> trail_sessions \<Rightarrow> int \<Rightarrow> int" where
  "trail_deadline off s t =
     (let schedule = Schedule off t in
      if \<not> ds_tradingDay schedule then zero_time
      else if ts_post s then ds_dataClose schedule
      else if ts_rth s then ds_close schedule
      else if ts_pre s then ds_open schedule
      else zero_time)"

text \<open>\<open>time.Date(y, m, d, 4, 0, 0, 0, loc)\<close> of the instant's New York date.\<close>

definition pre_open :: "tz \<Rightarrow> int \<Rightarrow> int" where
  "pre_open off t = time_Date off (86400 * et_day off t + 4 * 3600)"

definition windowStart :: "tz \<Rightarrow> trail_sessions \<Rightarrow> int \<Rightarrow> int" where
  "windowStart off s t =
     (let sched = Schedule off t; pre = pre_open off t in
      case PhaseAt off t of
        PreMarket \<Rightarrow> if ts_pre s then pre else 0
      | RTH \<Rightarrow> if ts_rth s then (if ts_pre s then pre else ds_open sched) else 0
      | PostMarket \<Rightarrow>
          if ts_post s
          then if \<not> ts_rth s then ds_close sched else if ts_pre s then pre else ds_open sched
          else 0
      | _ \<Rightarrow> 0)"


section \<open>Facts\<close>

text \<open>The phase bounds of \<open>PhaseAt\<close> on a trading day, one at a time.\<close>

lemma phase_trading: "PhaseAt off t \<noteq> Closed \<Longrightarrow> IsTradingDay off t"
  by (auto simp: PhaseAt_def IsTradingDay_def Let_def split: if_splits)

lemma phase_bounds:
  assumes "tz_ok off" "172800000 \<le> t"
  shows "PhaseAt off t = PreMarket \<Longrightarrow> ds_date (Schedule off t) + 4 * 3600 * 1000 \<le> t \<and> t < ds_open (Schedule off t)"
    and "PhaseAt off t = RTH \<Longrightarrow> ds_open (Schedule off t) \<le> t \<and> t < ds_close (Schedule off t)"
    and "PhaseAt off t = PostMarket \<Longrightarrow> ds_close (Schedule off t) \<le> t \<and> t < ds_dataClose (Schedule off t)"
  using phase_instants[OF assms] phase_trading[of off t] by force+

lemma ds_date_midnight: "ds_date (Schedule off t) = midnight_of off (et_day off t)"
  by (simp add: Schedule_def Let_def)

lemma schedule_order:
  assumes "IsTradingDay off t"
  shows "ds_date (Schedule off t) + 4 * 3600 * 1000 < ds_open (Schedule off t)"
    "ds_open (Schedule off t) < ds_close (Schedule off t)" "ds_close (Schedule off t) \<le> ds_dataClose (Schedule off t)"
  using schedule_trading[of off t] assms close_secs_range[of "et_day off t"]
  by (simp_all add: IsTradingDay_def ds_date_midnight)

lemma pre_open_eq:
  assumes "tz_ok off" "172800000 \<le> t" "IsTradingDay off t"
  shows "pre_open off t = ds_date (Schedule off t) + 4 * 3600 * 1000"
proof -
  have D: "1 \<le> et_day off t" "weekday (et_day off t) \<noteq> 0"
    using et_day_pos[OF assms(1,2)] trading_weekday assms(3) by (auto simp: IsTradingDay_def)
  have "tz_date off (86400 * et_day off t + 14400) = tz_date off (86400 * et_day off t) + 14400"
    by (rule tz_date_day(1)[OF assms(1) D]) simp_all
  then show ?thesis by (simp add: pre_open_def time_Date_def ds_date_midnight midnight_of_def)
qed

section \<open>Properties\<close>

text \<open>C26. An order routed into engine custody is a DAY order for the regular or extended session on a trading day, and its deadline lies strictly ahead: the open, the close or the data close of that day.\<close>

theorem held_deadline_ahead:
  assumes "tz_ok off" "172800000 \<le> now"
    and "(RouteEngineHeld, effective, deadline) \<in>
      {ResolveStopLimitRoute off now tif0 requested,
       (case ResolveDeferredStopSellRoute off now tif0 requested of (r, e, d, _) \<Rightarrow> (r, e, d)),
       (case ResolveLimitIfTouchedRoute off now tif0 requested of (r, e, d, _) \<Rightarrow> (r, e, d))}"
  shows "tif0 = TIFDay \<and> effective \<in> {SessionRTH, SessionExtended} \<and> IsTradingDay off now \<and>
    now < deadline \<and> deadline \<le> ds_dataClose (Schedule off now) \<and>
    deadline \<in> {ds_open (Schedule off now), ds_close (Schedule off now), ds_dataClose (Schedule off now)}"
proof -
  have "PhaseAt off now \<noteq> Closed" and d: "tif0 = TIFDay" "effective \<in> {SessionRTH, SessionExtended}"
    "PhaseAt off now = PreMarket \<and> deadline = ds_open (Schedule off now) \<or>
     PhaseAt off now = RTH \<and> deadline = ds_close (Schedule off now) \<or>
     PhaseAt off now = PostMarket \<and> deadline = ds_dataClose (Schedule off now)"
    using assms(3)
    by (auto simp: ResolveStopLimitRoute_def ResolveDeferredStopSellRoute_def ResolveLimitIfTouchedRoute_def Let_def
        held_deadline_def split: if_splits phase.splits option.splits)
  then have td: "IsTradingDay off now" by (intro phase_trading)
  show ?thesis using d td phase_bounds[OF assms(1,2)] schedule_order[OF td] by auto
qed

text \<open>C27. A trail's session window exists exactly when its sessions allow the instant, and then the instant lies in it: at or after the window's start and before the deadline, within the trading day's data hours.\<close>

theorem trail_window_brackets:
  assumes "tz_ok off" "172800000 \<le> t"
  shows "(windowStart off s t \<noteq> 0) = allows off s t \<and>
    (allows off s t \<longrightarrow> windowStart off s t \<le> t \<and> t < trail_deadline off s t \<and>
       ds_date (Schedule off t) < windowStart off s t \<and> trail_deadline off s t \<le> ds_dataClose (Schedule off t))"
proof (cases "PhaseAt off t = Closed \<or> PhaseAt off t = Overnight")
  case True
  then show ?thesis by (auto simp: windowStart_def allows_def Let_def)
next
  case False
  then have td: "IsTradingDay off t" by (intro phase_trading) simp
  have pos: "0 < ds_date (Schedule off t) + 4 * 3600 * 1000"
  proof -
    have "86400 \<le> 86400 * et_day off t" using et_day_pos[OF assms] by simp
    moreover define u where "u = 86400 * et_day off t"
    ultimately have "0 \<le> u" by simp
    then have "off u < 0" using off_cases[OF assms(1), of u] by auto
    then have "off (u - off u) < 0" using \<open>0 \<le> u\<close> off_cases[OF assms(1), of "u - off u"] by auto
    then show ?thesis using \<open>0 \<le> u\<close> by (simp add: ds_date_midnight midnight_of_def time_Date_def u_def[symmetric])
  qed
  note b = phase_bounds[OF assms] schedule_order[OF td] pre_open_eq[OF assms td] pos
  have t: "isTradingDate (et_day off t)" using td by (simp add: IsTradingDay_def)
  consider "PhaseAt off t = PreMarket" | "PhaseAt off t = RTH" | "PhaseAt off t = PostMarket"
    using False by (cases "PhaseAt off t") auto
  then show ?thesis
  proof cases
    case 1
    then show ?thesis using b(1,4-8) t by (auto simp: windowStart_def allows_def trail_deadline_def Let_def)
  next
    case 2
    then show ?thesis using b(2,4-8) t by (auto simp: windowStart_def allows_def trail_deadline_def Let_def)
  next
    case 3
    then show ?thesis using b(3-8) t by (auto simp: windowStart_def allows_def trail_deadline_def Let_def)
  qed
qed


lemma f64_not_nan_simps [simp]:
  "math_round x \<noteq> NaN \<longleftrightarrow> x \<noteq> NaN" "0 < c \<Longrightarrow> Fin a * Fin c \<noteq> NaN"
  by (cases x; simp)+

lemma div_fin_not_nan: "x \<noteq> NaN \<Longrightarrow> 0 < c \<Longrightarrow> x / Fin c \<noteq> NaN"
  by (cases x) auto

text \<open>The trigger price a stop stands for.\<close>

definition trigger_price :: "f64 \<Rightarrow> f64" where
  "trigger_price stop0 = (if validLimitIfTouchedPrice stop0
     then math_round (stop0 * Fin 10000) / Fin 10000 else stop0)"

lemma trigger_price_not_nan: "stop0 \<noteq> NaN \<Longrightarrow> trigger_price stop0 \<noteq> NaN"
  using div_fin_not_nan[of "math_round (stop0 * Fin 10000)" 10000]
  by (cases stop0) (simp_all add: trigger_price_def)

lemma StopLimitTriggered_iff:
  "StopLimitTriggered SideBuy price stop0 \<longleftrightarrow> trigger_price stop0 \<le> price"
  "StopLimitTriggered SideCover price stop0 \<longleftrightarrow> trigger_price stop0 \<le> price"
  "StopLimitTriggered SideSell price stop0 \<longleftrightarrow> price \<le> trigger_price stop0"
  "StopLimitTriggered SideShort price stop0 \<longleftrightarrow> price \<le> trigger_price stop0"
  "\<not> StopLimitTriggered (SideNum n) price stop0"
  by (simp_all add: StopLimitTriggered_def trigger_price_def Let_def)

theorem triggers_split_the_tape:
  assumes "price \<noteq> NaN" "stop0 \<noteq> NaN" "known_side sd"
  shows "(HeldOrderTriggered TypeStopLimit sd price stop0 \<or> HeldOrderTriggered TypeLimitIfTouched sd price stop0) \<and>
    (HeldOrderTriggered TypeStopLimit sd price stop0 \<and> HeldOrderTriggered TypeLimitIfTouched sd price stop0 \<longleftrightarrow>
       feq price (trigger_price stop0)) \<and>
    (longward sd \<and> price \<le> price' \<and> HeldOrderTriggered TypeStopLimit sd price stop0 \<longrightarrow>
       HeldOrderTriggered TypeStopLimit sd price' stop0) \<and>
    (\<not> longward sd \<and> price' \<le> price \<and> HeldOrderTriggered TypeStopLimit sd price stop0 \<longrightarrow>
       HeldOrderTriggered TypeStopLimit sd price' stop0)"
proof -
  have "price \<le> trigger_price stop0 \<or> trigger_price stop0 \<le> price"
    using f64_not_le[OF assms(1) trigger_price_not_nan[OF assms(2)]] f64_less_imp_le by blast
  then show ?thesis using assms(3)
    by (cases sd) (auto simp: HeldOrderTriggered_def StopLimitTriggered_iff feq_def known_side_def dest: f64_le_trans)
qed

text \<open>In the pre-market of 3 July 2024, an early-close day: a DAY extended stop-limit is held until
  the open, and a trail of all sessions runs from 04:00 to the early data close.\<close>

lemma july3_pre: "PhaseAt ny2024 1720008000000 = PreMarket" "(172800000 :: int) \<le> 1720008000000"
  by code_simp+

lemma held_deadline_ahead_witness:
  "1720008000000 < snd (snd (ResolveStopLimitRoute ny2024 1720008000000 TIFDay SessionAuto))"
proof -
  have "fst (ResolveStopLimitRoute ny2024 1720008000000 TIFDay SessionAuto) = RouteEngineHeld"
    by (simp add: ResolveStopLimitRoute_def july3_pre Let_def)
  then show ?thesis
    using held_deadline_ahead[OF ny2024_ok july3_pre(2), of "fst (snd (ResolveStopLimitRoute ny2024 1720008000000 TIFDay SessionAuto))"
        "snd (snd (ResolveStopLimitRoute ny2024 1720008000000 TIFDay SessionAuto))" TIFDay SessionAuto]
    by (metis insertI1 prod.collapse)
qed

lemma trail_window_brackets_witness:
  "let s = \<lparr>ts_pre = True, ts_rth = True, ts_post = False\<rparr> in
     windowStart ny2024 s 1720008000000 \<le> 1720008000000 \<and> 1720008000000 < trail_deadline ny2024 s 1720008000000"
  using trail_window_brackets[OF ny2024_ok july3_pre(2), of "\<lparr>ts_pre = True, ts_rth = True, ts_post = False\<rparr>"]
  by (simp add: allows_def july3_pre)

lemma triggers_split_the_tape_witness:
  "HeldOrderTriggered TypeStopLimit SideSell (Fin 9) (Fin 10)"
proof -
  have "\<not> HeldOrderTriggered TypeLimitIfTouched SideSell (Fin 9) (Fin 10)" by code_simp
  then show ?thesis using triggers_split_the_tape[of "Fin 9" "Fin 10" SideSell "Fin 9"] by (simp add: known_side_def)
qed

end
