(* ===== verification/TrailPrice.thy ===== *)
theory TrailPrice
  imports HeldRoute
begin

text \<open>
  The arithmetic of protective prices: chart-risk limits and share counts (\<open>risk_entry.go\<close>),
  the trailing stop's tick rounding, configuration check and ratchet (\<open>trailing.go\<close>), and the
  candle evidence it follows (\<open>trailing_candles.go\<close>). The price step of
  \<open>advanceTrailPrice\<close> is \<open>trail_stop_step\<close>: it takes what the handler reads from the core
  (whether the print was accepted, the candles, the last print sequence) as arguments.
\<close>

section \<open>Risk limits and sizes\<close>

abbreviation tiny :: f64 where "tiny \<equiv> fconst (1 / 10 ^ 9)"

text \<open>\<open>value\<close> of an amount against a base price: dollars, or a percentage of the base.\<close>

definition cushion_distance :: "f64 \<Rightarrow> limit_cushion \<Rightarrow> f64" where
  "cushion_distance base c = (if lc_unit c = ''%'' then base * lc_value c / Fin 100 else lc_value c)"

definition riskLimit :: "f64 \<Rightarrow> limit_cushion \<Rightarrow> bool \<Rightarrow> string + f64" where
  "riskLimit stop cushion buy =
     (if \<not> validLimitIfTouchedPrice stop \<or> is_nan (lc_value cushion) \<or> is_inf (lc_value cushion) \<or> lc_value cushion < 0 \<or>
         (lc_unit cushion \<noteq> '''' \<and> lc_unit cushion \<noteq> ''$'' \<and> lc_unit cushion \<noteq> ''%'')
      then Inl ''invalid trigger or Limit Cushion''
      else let distance = cushion_distance stop cushion;
               price0 = (if buy then stop + distance else stop - distance);
               tick = tick_of price0;
               units = price0 / tick;
               price = (if buy then math_ceil (units - tiny) * tick else math_floor (units + tiny) * tick)
           in if \<not> validLimitIfTouchedPrice price then Inl ''invalid execution limit'' else Inr price)"

definition riskShares :: "f64 \<Rightarrow> f64 \<Rightarrow> f64 \<Rightarrow> f64 \<Rightarrow> f64" where
  "riskShares budget buyLimit sellLimit funds =
     (let distance = math_round ((buyLimit - sellLimit) * Fin 10000) / Fin 10000
      in if distance \<le> 0 \<or> budget \<le> 0 \<or> funds \<le> 0 then 0
         else math_min (math_floor (budget / distance + tiny)) (math_floor (funds / buyLimit + tiny)))"

section \<open>Trail configuration\<close>

definition tf_of :: "string \<Rightarrow> timeframe" where
  "tf_of s = (if s = ''10s'' then TF10s else if s = ''1m'' then TF1m else if s = ''5m'' then TF5m
     else if s = ''15m'' then TF15m else if s = ''30m'' then TF30m else if s = ''60m'' then TF60m
     else if s = ''D'' then TFDay else if s = ''W'' then TFWeek else if s = ''M'' then TFMonth else TFStr s)"

definition bad_amount :: "limit_cushion \<Rightarrow> bool" where
  "bad_amount a \<longleftrightarrow> is_nan (lc_value a) \<or> is_inf (lc_value a) \<or>
     lc_unit a \<noteq> '''' \<and> lc_unit a \<noteq> ''$'' \<and> lc_unit a \<noteq> ''%''"

text \<open>The error, or the configuration with its default timeframe filled in.\<close>

definition validateTrailConfig :: "trail_config \<Rightarrow> string + trail_config" where
  "validateTrailConfig config0 =
     (if tc_mode config0 \<noteq> ''CANDLE'' \<and>
         ((tc_mode config0 \<noteq> ''PRICE'' \<and> tc_mode config0 \<noteq> ''PERCENT'') \<or> \<not> finitePositive (tc_value config0))
      then Inl ''positive trail distance required''
      else let config = (if tc_mode config0 = ''CANDLE'' \<and> tc_timeframe config0 = ''''
                         then config0\<lparr>tc_timeframe := ''1m''\<rparr> else config0)
           in if tc_mode config = ''CANDLE'' \<and> \<not> snd (IntradaySpanSecs (tf_of (tc_timeframe config)))
              then Inl ''intraday candle timeframe required''
              else if \<exists>a \<in> set [tc_buffer config, tc_cushion config, tc_offset config]. bad_amount a
              then Inl ''invalid trail amount or unit''
              else if lc_value (tc_buffer config) < 0 \<or> lc_value (tc_cushion config) < 0
              then Inl ''nonnegative buffer and cushion required''
              else if tc_pricing config \<noteq> ''CUSHION'' \<and> tc_pricing config \<noteq> ''QUOTE'' \<or>
                      tc_pricing config = ''QUOTE'' \<and> tc_quoteSide config \<noteq> ''BID'' \<and> tc_quoteSide config \<noteq> ''ASK''
              then Inl ''invalid trail execution recipe''
              else Inr config)"

definition roundTrailPrice :: "f64 \<Rightarrow> side \<Rightarrow> f64" where
  "roundTrailPrice price sd =
     (let tick = tick_of price;
          p1 = (if sd = SideCover then math_ceil (price / tick - tiny) * tick
                else math_floor (price / tick + tiny) * tick)
      in math_round (p1 * Fin 10000) / Fin 10000)"

section \<open>Candle evidence\<close>

definition candle_key :: "string \<Rightarrow> string \<Rightarrow> string" where
  "candle_key symbol tf = symbol @ ''/'' @ tf"

text \<open>\<open>TrailCandle{}\<close>\<close>

definition candle0 :: trail_candle where
  "candle0 = \<lparr>tk_afterSeq = 0, tk_symbol = '''', tk_timeframe = '''', tk_startMs = 0, tk_endMs = 0,
     tk_low = 0, tk_high = 0, tk_verified = False\<rparr>"

text \<open>A candle the engine may use at \<open>now\<close>.\<close>

definition good_candle :: "tz \<Rightarrow> int \<Rightarrow> trail_candle \<Rightarrow> bool" where
  "good_candle off now b \<longleftrightarrow>
     (let (span, ok) = IntradaySpanSecs (tf_of (tk_timeframe b)) in
      ok \<and> tk_verified b \<and> finitePositive (tk_low b) \<and> finitePositive (tk_high b) \<and> \<not> tk_low b > tk_high b \<and>
      tk_endMs b = tk_startMs b + span * 1000 \<and> \<not> tk_endMs b > now \<and>
      tk_startMs b = BucketStartMs off (tk_startMs b) (tf_of (tk_timeframe b)))"

definition handleTrailCandle ::
  "tz \<Rightarrow> int \<Rightarrow> (string, eligible_print) gomap \<Rightarrow> trail_candle \<Rightarrow> (string, trail_candle) gomap \<Rightarrow> (string, trail_candle) gomap" where
  "handleTrailCandle off now lastEligible b0 candles =
     (if \<not> good_candle off now b0 then candles
      else let key = candle_key (tk_symbol b0) (tk_timeframe b0);
               b = b0\<lparr>tk_afterSeq := ep_seq (mget0 print0 lastEligible (tk_symbol b0))\<rparr>
           in case mget candles key of
                None \<Rightarrow> mput key b candles
              | Some old \<Rightarrow> if tk_startMs b \<ge> tk_startMs old then mput key b candles else candles)"

text \<open>The candidate stop of a candle trail, with the reference candle it now rests on.\<close>

definition candleTrailCandidate ::
  "tz \<Rightarrow> int \<Rightarrow> (string, trail_candle) gomap \<Rightarrow> string \<Rightarrow> side \<Rightarrow> trail_state \<Rightarrow> f64 \<times> trail_state" where
  "candleTrailCandidate off now candles symbol sd t =
     (let window = windowStart off (tc_sessions (t_config t)) now;
          tf = tc_timeframe (t_config t) in
      if window = 0 then (t_stop t, t)
      else let used0 = (case mget (t_references t) tf of
                  Some u \<Rightarrow> Some u
                | None \<Rightarrow> (case t_reference t of
                             Some u \<Rightarrow> if tk_timeframe u = tf then Some u else None
                           | None \<Rightarrow> None));
               take_new = (case mget candles (candle_key symbol tf) of
                  None \<Rightarrow> None
                | Some b \<Rightarrow> if tk_startMs b \<ge> window \<and> tk_endMs b \<le> now \<and>
                               (case used0 of None \<Rightarrow> True | Some u \<Rightarrow> tk_startMs b > tk_startMs u)
                            then Some b else None);
               (used, t1) = (case take_new of
                  Some b \<Rightarrow> (Some b, t\<lparr>t_references := mput tf b (t_references t)\<rparr>)
                | None \<Rightarrow> (used0, t));
               t2 = t1\<lparr>t_reference := used\<rparr>
           in case used of
                None \<Rightarrow> (t_stop t2, t2)
              | Some r \<Rightarrow>
                  if tk_startMs r < window then (t_stop t2, t2)
                  else let base = (if sd = SideCover then tk_high r else tk_low r);
                           distance = cushion_distance base (tc_buffer (t_config t2))
                       in (if sd = SideCover then base + distance else base - distance, t2))"

section \<open>The ratchet\<close>

text \<open>\<open>advanceTrailPrice\<close> from the watermark to the limit: the new trail, \<open>Wait\<close> for a first candle,
  or the reason the order is rejected.\<close>

datatype trail_result = TrailWait trail_state | TrailReject string | TrailSet trail_state

definition trail_watermark :: "side \<Rightarrow> bool \<Rightarrow> f64 \<Rightarrow> trail_state \<Rightarrow> trail_state" where
  "trail_watermark sd accepted price t =
     (if accepted \<and> (feq (t_watermark t) 0 \<or> sd = SideSell \<and> price > t_watermark t \<or> sd = SideCover \<and> price < t_watermark t)
      then t\<lparr>t_watermark := price\<rparr> else t)"

definition trail_candidate :: "side \<Rightarrow> trail_state \<Rightarrow> f64" where
  "trail_candidate sd t =
     (let distance = (if tc_mode (t_config t) = ''PERCENT'' then t_watermark t * tc_value (t_config t) / Fin 100
                      else tc_value (t_config t))
      in if feq (t_watermark t) 0 then t_stop t
         else if sd = SideCover then t_watermark t + distance else t_watermark t - distance)"

definition trail_ratchet :: "side \<Rightarrow> f64 \<Rightarrow> trail_state \<Rightarrow> trail_state" where
  "trail_ratchet sd candidate t =
     (if sd = SideCover
      then if feq (t_stop t) 0 \<or> candidate < t_stop t then t\<lparr>t_stop := candidate\<rparr> else t
      else t\<lparr>t_stop := math_max (t_stop t) candidate\<rparr>)"

text \<open>The candidate of a print: from the distance, or from the candles, unless the print is the one
  during which a newer candle arrived.\<close>

definition trail_evidence ::
  "tz \<Rightarrow> int \<Rightarrow> (string, trail_candle) gomap \<Rightarrow> string \<Rightarrow> side \<Rightarrow> bool \<Rightarrow> eligible_print \<Rightarrow> trail_state \<Rightarrow> f64 \<times> trail_state" where
  "trail_evidence off now candles symbol sd deliberate p t =
     (if tc_mode (t_config t) = ''CANDLE''
      then let latest = mget0 candle0 candles (candle_key symbol (tc_timeframe (t_config t)))
           in if \<not> deliberate \<and> tk_afterSeq latest \<ge> ep_seq p \<and>
                 (case t_reference t of None \<Rightarrow> True | Some r \<Rightarrow> tk_startMs latest > tk_startMs r)
              then (t_stop t, t) else candleTrailCandidate off now candles symbol sd t
      else (trail_candidate sd t, t))"

text \<open>Round, ratchet, and derive the limit.\<close>

definition trail_set_stop :: "side \<Rightarrow> f64 \<Rightarrow> trail_state \<Rightarrow> trail_result" where
  "trail_set_stop sd candidate t =
     (let t1 = trail_ratchet sd (roundTrailPrice candidate sd) t
      in if \<not> finitePositive (t_stop t1) then TrailReject ''invalid derived trailing price''
         else if tc_pricing (t_config t1) = ''CUSHION''
         then (case riskLimit (t_stop t1) (tc_cushion (t_config t1)) (sd = SideCover) of
                 Inl err \<Rightarrow> TrailReject err
               | Inr limit \<Rightarrow> TrailSet (t1\<lparr>t_limit := limit\<rparr>))
         else TrailSet t1)"

definition trail_stop_step ::
  "tz \<Rightarrow> int \<Rightarrow> (string, trail_candle) gomap \<Rightarrow> string \<Rightarrow> side \<Rightarrow> bool \<Rightarrow> bool \<Rightarrow> eligible_print \<Rightarrow> trail_state \<Rightarrow> trail_result" where
  "trail_stop_step off now candles symbol sd accepted deliberate p t0 =
     (let t1 = trail_watermark sd accepted (ep_price p) t0;
          (candidate, t2) = trail_evidence off now candles symbol sd deliberate p t1
      in if tc_mode (t_config t1) = ''CANDLE'' \<and> feq candidate 0 \<and> feq (t_stop t2) 0 then TrailWait t2
         else trail_set_stop sd candidate t2)"

section \<open>Facts\<close>

lemma math_max_le:
  "x \<noteq> NaN \<Longrightarrow> math_max x y \<noteq> NaN \<Longrightarrow> x \<le> math_max x y"
  by (cases x; cases y) (auto split: if_splits)

lemma finitePositive_not_nan: "finitePositive x \<Longrightarrow> x \<noteq> NaN \<and> \<not> feq x 0"
  by (auto simp: finitePositive_iff feq_def zero_f64_def)

lemma candleTrailCandidate_stop [simp]:
  "t_stop (snd (candleTrailCandidate off now candles symbol sd t)) = t_stop t"
  "t_config (snd (candleTrailCandidate off now candles symbol sd t)) = t_config t"
  by (auto simp: candleTrailCandidate_def Let_def split: option.split)

lemma trail_watermark_simps [simp]:
  "t_stop (trail_watermark sd acc price t) = t_stop t" "t_config (trail_watermark sd acc price t) = t_config t"
  "t_reference (trail_watermark sd acc price t) = t_reference t" "t_references (trail_watermark sd acc price t) = t_references t"
  by (simp_all add: trail_watermark_def)

text \<open>What a step does to the stop: a set trail has the ratcheted stop of some candidate.\<close>

lemma trail_stop_step_cases:
  assumes "trail_stop_step off now candles symbol sd acc delib p t = r"
  shows "(\<exists>t'. r = TrailWait t' \<and> feq (t_stop t) 0 \<and> t_stop t' = t_stop t \<and> t_config t' = t_config t) \<or>
     (\<exists>why. r = TrailReject why) \<or>
     (\<exists>t' c. r = TrailSet t' \<and> finitePositive (t_stop t') \<and> t_config t' = t_config t \<and>
        t_stop t' = t_stop (trail_ratchet sd c t))"
proof -
  define t1 where "t1 = trail_watermark sd acc (ep_price p) t"
  obtain cand t2 where c: "trail_evidence off now candles symbol sd delib p t1 = (cand, t2)" by fastforce
  have "t_stop (snd (trail_evidence off now candles symbol sd delib p t1)) = t_stop t"
    "t_config (snd (trail_evidence off now candles symbol sd delib p t1)) = t_config t"
    by (simp_all add: trail_evidence_def Let_def t1_def)
  then have t2: "t_stop t2 = t_stop t" "t_config t2 = t_config t" by (simp_all add: c)
  have k: "t_config (trail_ratchet sd x t2) = t_config t" "t_stop (trail_ratchet sd x t2) = t_stop (trail_ratchet sd x t)" for x
    using t2 by (simp_all add: trail_ratchet_def)
  show ?thesis
    using assms t2 k unfolding trail_stop_step_def t1_def[symmetric]
    by (auto simp: c Let_def trail_set_stop_def split: if_splits sum.splits)
qed

lemma ratchet_sell: "t_stop t \<noteq> NaN \<Longrightarrow> sd \<noteq> SideCover \<Longrightarrow> t_stop (trail_ratchet sd c t) \<noteq> NaN \<Longrightarrow> t_stop t \<le> t_stop (trail_ratchet sd c t)"
  by (simp add: trail_ratchet_def math_max_le)

lemma ratchet_cover: "t_stop t \<noteq> NaN \<Longrightarrow> \<not> feq (t_stop t) 0 \<Longrightarrow> t_stop (trail_ratchet SideCover c t) \<le> t_stop t"
  by (auto simp: trail_ratchet_def f64_le_refl f64_less_imp_le)

text \<open>A trail fed by a sequence of prints, each with the clock, the candles and the flags of its handling.
  A rejection ends the order (\<open>rejectTrail\<close>): nothing is fed to it any more.\<close>

type_synonym trail_input = "int \<times> (string, trail_candle) gomap \<times> bool \<times> bool \<times> eligible_print"

fun kept_trail :: "trail_result \<Rightarrow> trail_state option" where
  "kept_trail (TrailReject why) = None"
| "kept_trail (TrailWait t) = Some t"
| "kept_trail (TrailSet t) = Some t"

definition trail_feed :: "tz \<Rightarrow> string \<Rightarrow> side \<Rightarrow> trail_result \<Rightarrow> trail_input \<Rightarrow> trail_result" where
  "trail_feed off symbol sd r i = (case (kept_trail r, i) of
     (None, _) \<Rightarrow> r
   | (Some t, (now, candles, acc, delib, p)) \<Rightarrow> trail_stop_step off now candles symbol sd acc delib p t)"

definition trail_inv :: "trail_result \<Rightarrow> bool" where
  "trail_inv r \<longleftrightarrow> (case kept_trail r of None \<Rightarrow> True | Some t \<Rightarrow> t_stop t \<noteq> NaN)"

text \<open>Two results of one trail, the stops related by \<open>le\<close> where there is a stop before.\<close>

definition moved :: "(f64 \<Rightarrow> f64 \<Rightarrow> bool) \<Rightarrow> trail_result \<Rightarrow> trail_result \<Rightarrow> bool" where
  "moved le r r' \<longleftrightarrow> (case kept_trail r' of None \<Rightarrow> True | Some t' \<Rightarrow> (case kept_trail r of None \<Rightarrow> False
     | Some t \<Rightarrow> t_config t' = t_config t \<and> (t_stop t \<noteq> NaN \<longrightarrow> le (t_stop t) (t_stop t'))))"

definition no_lower :: "f64 \<Rightarrow> f64 \<Rightarrow> bool" where
  "no_lower x y \<longleftrightarrow> x \<le> y"

definition no_higher :: "f64 \<Rightarrow> f64 \<Rightarrow> bool" where
  "no_higher x y \<longleftrightarrow> y \<noteq> NaN \<and> (\<not> feq x 0 \<longrightarrow> y \<le> x \<and> \<not> feq y 0)"

lemma moved_trans:
  assumes "\<And>x y z. le x y \<Longrightarrow> le y z \<Longrightarrow> le x z" "\<And>x y. x \<noteq> NaN \<Longrightarrow> le x y \<Longrightarrow> y \<noteq> NaN"
  shows "moved le r s \<Longrightarrow> moved le s t \<Longrightarrow> moved le r t"
  using assms unfolding moved_def by (auto split: option.splits) metis+

lemma trail_feed_step:
  "trail_feed off symbol sd r i = r \<or> kept_trail (trail_feed off symbol sd r i) = None \<or>
   (\<exists>t t'. kept_trail r = Some t \<and> kept_trail (trail_feed off symbol sd r i) = Some t' \<and> t_config t' = t_config t \<and>
     (t_stop t' = t_stop t \<or> finitePositive (t_stop t') \<and> (\<exists>c. t_stop t' = t_stop (trail_ratchet sd c t))))"
proof (cases "kept_trail r")
  case None
  then show ?thesis by (simp add: trail_feed_def)
next
  case (Some t)
  obtain now candles acc delib p where i: "i = (now, candles, acc, delib, p)" by (cases i) auto
  show ?thesis using trail_stop_step_cases[of off now candles symbol sd acc delib p t, OF refl] Some
    by (auto simp: i trail_feed_def)
qed

lemma trail_feed_inv: "trail_inv r \<Longrightarrow> trail_inv (trail_feed off symbol sd r i)"
  using trail_feed_step[of off symbol sd r i] finitePositive_not_nan unfolding trail_inv_def
  by (auto split: option.splits) metis

interpretation sell_trail: event_fold "trail_feed off symbol SideSell" trail_inv "moved no_lower" for off symbol
proof
  fix r s t :: trail_result and i
  show "trail_inv (trail_feed off symbol SideSell r i)" if "trail_inv r" by (rule trail_feed_inv[OF that])
  show "moved no_lower r r" by (simp add: moved_def no_lower_def f64_le_refl split: option.split)
  show "moved no_lower r t" if "moved no_lower r s" "moved no_lower s t"
    by (rule moved_trans[OF _ _ that]) (auto simp: no_lower_def intro: f64_le_trans)
  show "moved no_lower r (trail_feed off symbol SideSell r i)" if "trail_inv r"
    using trail_feed_step[of off symbol SideSell r i] that finitePositive_not_nan ratchet_sell[of _ SideSell]
    by (auto simp: moved_def no_lower_def trail_inv_def f64_le_refl split: option.split)
qed

interpretation cover_trail: event_fold "trail_feed off symbol SideCover" trail_inv "moved no_higher" for off symbol
proof
  fix r s t :: trail_result and i
  show "trail_inv (trail_feed off symbol SideCover r i)" if "trail_inv r" by (rule trail_feed_inv[OF that])
  show "moved no_higher r r" by (simp add: moved_def no_higher_def f64_le_refl split: option.split)
  show "moved no_higher r t" if "moved no_higher r s" "moved no_higher s t"
    by (rule moved_trans[OF _ _ that]) (auto simp: no_higher_def intro: f64_le_trans)
  show "moved no_higher r (trail_feed off symbol SideCover r i)" if "trail_inv r"
    using trail_feed_step[of off symbol SideCover r i] that finitePositive_not_nan ratchet_cover
    by (auto simp: moved_def no_higher_def trail_inv_def f64_le_refl split: option.split)
qed

text \<open>A trail that ends up set was set by the last step, which checked the stop and derived the limit.\<close>

lemma step_checked:
  assumes "trail_stop_step off now candles symbol sd acc delib p t = TrailSet t'"
  shows "finitePositive (t_stop t') \<and> (tc_pricing (t_config t') = ''CUSHION'' \<longrightarrow>
    riskLimit (t_stop t') (tc_cushion (t_config t')) (sd = SideCover) = Inr (t_limit t'))"
  using assms by (auto simp: trail_stop_step_def trail_set_stop_def Let_def split: prod.splits if_splits sum.splits)

lemma run_checked:
  assumes "foldl (trail_feed off symbol sd) (TrailWait t) inputs = TrailSet t'"
  shows "finitePositive (t_stop t') \<and> (tc_pricing (t_config t') = ''CUSHION'' \<longrightarrow>
    riskLimit (t_stop t') (tc_cushion (t_config t')) (sd = SideCover) = Inr (t_limit t'))"
  using assms step_checked
  by (cases inputs rule: rev_cases) (auto simp: trail_feed_def split: prod.splits option.splits)

section \<open>Properties\<close>

text \<open>C23. Over any sequence of prints, candles, clocks and flags fed to a trail until it is rejected, the stop of a long position's trail never falls and a short position's never rises once set; and whenever the trail ends up set, its stop is a finite positive price and, under cushion pricing, its limit is the valid limit derived from that stop, so an invalid stop or limit is never kept: the step rejects the order.\<close>

theorem trail_never_loosens:
  assumes "t_stop t \<noteq> NaN" "sd = SideSell \<or> sd = SideCover"
  shows "case foldl (trail_feed off symbol sd) (TrailWait t) inputs of
      TrailReject why \<Rightarrow> True
    | TrailWait t' \<Rightarrow> if sd = SideSell then t_stop t \<le> t_stop t' else feq (t_stop t) 0 \<or> t_stop t' \<le> t_stop t
    | TrailSet t' \<Rightarrow> finitePositive (t_stop t') \<and>
        (if sd = SideSell then t_stop t \<le> t_stop t' else feq (t_stop t) 0 \<or> t_stop t' \<le> t_stop t) \<and>
        (tc_pricing (t_config t) = ''CUSHION'' \<longrightarrow>
          riskLimit (t_stop t') (tc_cushion (t_config t)) (sd = SideCover) = Inr (t_limit t'))"
proof -
  have inv: "trail_inv (TrailWait t)" using assms(1) by (simp add: trail_inv_def)
  define r where "r = foldl (trail_feed off symbol sd) (TrailWait t) inputs"
  have "moved (if sd = SideSell then no_lower else no_higher) (TrailWait t) r"
    using assms(2) sell_trail.grows_fold[OF inv] cover_trail.grows_fold[OF inv] by (auto simp: r_def)
  then show ?thesis using assms run_checked[of off symbol sd t inputs] unfolding r_def[symmetric]
    by (cases r) (auto simp: moved_def no_lower_def no_higher_def split: if_splits)
qed

text \<open>Candles fed over time, each with the clock and the last prints of its arrival.\<close>

type_synonym candle_input = "int \<times> (string, eligible_print) gomap \<times> trail_candle"

definition feed_candle :: "tz \<Rightarrow> (string, trail_candle) gomap \<Rightarrow> candle_input \<Rightarrow> (string, trail_candle) gomap" where
  "feed_candle off m i = (case i of (now, le, b) \<Rightarrow> handleTrailCandle off now le b m)"

definition newest :: "(string, trail_candle) gomap \<Rightarrow> string \<Rightarrow> int \<Rightarrow> bool" where
  "newest m k s \<longleftrightarrow> (\<exists>c. mget m k = Some c \<and> s \<le> tk_startMs c)"

lemma good_candle_seq [simp]: "good_candle off now (b\<lparr>tk_afterSeq := x\<rparr>) = good_candle off now b"
  by (simp add: good_candle_def)

lemma good_candle_later: "good_candle off now b \<Longrightarrow> now \<le> T \<Longrightarrow> good_candle off T b"
  by (auto simp: good_candle_def split: prod.splits)

lemma feed_candle_newest:
  "newest m k s \<Longrightarrow> newest (feed_candle off m i) k s"
  "i = (now, le, b) \<Longrightarrow> good_candle off now b \<Longrightarrow> newest (feed_candle off m i) (candle_key (tk_symbol b) (tk_timeframe b)) (tk_startMs b)"
  by (auto simp: newest_def feed_candle_def handleTrailCandle_def Let_def split: option.split prod.split)

lemma feed_candle_good:
  assumes "\<And>k c. mget m k = Some c \<Longrightarrow> good_candle off T c \<and> k = candle_key (tk_symbol c) (tk_timeframe c)"
    and "fst i \<le> T" "mget (feed_candle off m i) k = Some c"
  shows "good_candle off T c \<and> k = candle_key (tk_symbol c) (tk_timeframe c)"
  using assms(3) assms(1)[of k c] good_candle_later[OF _ assms(2)]
  by (auto simp: feed_candle_def handleTrailCandle_def Let_def split: prod.split_asm if_splits option.split_asm)

theorem candles_trusted_and_newest:
  assumes "\<forall>i \<in> set inputs. fst i \<le> T"
  shows "(\<forall>k c. mget (foldl (feed_candle off) [] inputs) k = Some c \<longrightarrow>
      good_candle off T c \<and> k = candle_key (tk_symbol c) (tk_timeframe c)) \<and>
    (\<forall>(now, le, b) \<in> set inputs. good_candle off now b \<longrightarrow>
      (\<exists>c. mget (foldl (feed_candle off) [] inputs) (candle_key (tk_symbol b) (tk_timeframe b)) = Some c \<and>
        tk_startMs b \<le> tk_startMs c))"
  using assms
proof (induction inputs rule: rev_induct)
  case Nil
  then show ?case by simp
next
  case (snoc i inputs)
  define m where "m = foldl (feed_candle off) [] inputs"
  have IH: "\<And>k c. mget m k = Some c \<Longrightarrow> good_candle off T c \<and> k = candle_key (tk_symbol c) (tk_timeframe c)"
    "\<And>now le b. (now, le, b) \<in> set inputs \<Longrightarrow> good_candle off now b \<Longrightarrow> newest m (candle_key (tk_symbol b) (tk_timeframe b)) (tk_startMs b)"
    using snoc unfolding m_def newest_def by fastforce+
  have f: "foldl (feed_candle off) [] (inputs @ [i]) = feed_candle off m i" by (simp add: m_def)
  have "newest (feed_candle off m i) (candle_key (tk_symbol b) (tk_timeframe b)) (tk_startMs b)"
    if "(now, le, b) \<in> set (inputs @ [i])" "good_candle off now b" for now le b
    using that IH(2) feed_candle_newest(1)[of m _ _ off i] feed_candle_newest(2)[of i now le b off m] by auto
  moreover have "fst i \<le> T" using snoc.prems by simp
  ultimately show ?case unfolding f using feed_candle_good[OF IH(1)] by (auto simp: newest_def)
qed

lemma math_floor_le: "x \<noteq> NaN \<Longrightarrow> math_floor x \<le> x"
  by (cases x) auto

lemma math_floor_idem [simp]: "math_floor (math_floor x) = math_floor x"
  by (cases x) auto

lemma math_min_floor: "\<exists>z. math_min (math_floor x) (math_floor y) = math_floor z"
proof -
  have "math_min a b = a \<or> math_min a b = b \<or> math_min a b = NaN \<or> math_min a b = NInf" for a b
    by (cases a; cases b) auto
  then show ?thesis by (metis math_floor.simps(2-4))
qed

lemma math_min_le: "x \<noteq> NaN \<Longrightarrow> y \<noteq> NaN \<Longrightarrow> math_min x y \<le> x \<and> math_min x y \<le> y"
  by (cases x; cases y) auto

lemma math_floor_nan [simp]: "math_floor x = NaN \<longleftrightarrow> x = NaN"
  by (cases x) auto

lemma math_floor_nonneg: "0 \<le> x \<Longrightarrow> 0 \<le> math_floor x"
  by (cases x) (auto simp: zero_f64_def)

lemma math_min_nonneg: "0 \<le> x \<Longrightarrow> 0 \<le> y \<Longrightarrow> 0 \<le> math_min x y"
  by (cases x; cases y) (auto simp: zero_f64_def)

lemma div_nonneg: "0 \<le> Fin a \<Longrightarrow> 0 < y \<Longrightarrow> 0 \<le> Fin a / y"
proof (cases y)
  case (Fin b)
  assume "0 \<le> Fin a" "0 < y"
  then have "0 \<le> a / b" "b \<noteq> 0" using Fin by (auto simp: zero_f64_def)
  then show ?thesis using fl_mono[of 0 "a / b"] Fin by (simp add: zero_f64_def)
qed (auto simp: zero_f64_def)

lemma fl_nonneg: "0 \<le> q \<Longrightarrow> 0 \<le> fl q"
  using fl_mono[of 0 q] by (simp add: zero_f64_def)

lemma fl_nonpos: "q \<le> 0 \<Longrightarrow> fl q \<le> 0"
  using fl_mono[of q 0] by (simp add: zero_f64_def)

lemma add_nonneg: "0 \<le> x \<Longrightarrow> 0 \<le> y \<Longrightarrow> 0 \<le> x + y" for x y :: f64
  by (cases x; cases y) (auto simp: zero_f64_def intro: fl_nonneg[unfolded zero_f64_def])

lemma tiny_nonneg: "0 \<le> tiny"
  by (simp add: fconst_def fl_nonneg)

text \<open>A nonpositive difference stays nonpositive when it is rounded to ten-thousandths.\<close>

lemma nonpos_steps:
  "x \<le> 0 \<Longrightarrow> 0 < c \<Longrightarrow> x * Fin c \<le> 0" "x \<le> 0 \<Longrightarrow> math_round x \<le> 0" "x \<le> 0 \<Longrightarrow> 0 < c \<Longrightarrow> x / Fin c \<le> 0"
  by (cases x; auto simp: zero_f64_def mult_nonpos_nonneg divide_nonpos_pos intro!: fl_nonpos[unfolded zero_f64_def])+

text \<open>C28. The share count of a risk entry is a nonnegative whole number; when positive the sell limit is below the buy limit and the count is at most the funds over the buy limit and the budget over the rounded risk distance, up to the source's 1e-9 slack.\<close>

theorem risk_size_affordable:
  assumes "finitePositive budget" "finitePositive funds" "finitePositive buyLimit" "finitePositive sellLimit"
  defines "r \<equiv> riskShares budget buyLimit sellLimit funds"
  shows "0 \<le> r \<and> math_floor r = r \<and>
    (0 < r \<longrightarrow> sellLimit < buyLimit \<and> r \<le> funds / buyLimit + tiny \<and>
       r \<le> budget / (math_round ((buyLimit - sellLimit) * Fin 10000) / Fin 10000) + tiny)"
proof -
  define d where "d = math_round ((buyLimit - sellLimit) * Fin 10000) / Fin 10000"
  obtain a f b s where v: "budget = Fin a" "0 < a" "funds = Fin f" "0 < f" "buyLimit = Fin b" "0 < b" "sellLimit = Fin s" "0 < s"
    using assms(1-4) by (auto simp: finitePositive_iff)
  show ?thesis
  proof (cases "d \<le> 0")
    case True
    then have "r = 0" by (simp add: r_def riskShares_def d_def[symmetric])
    then show ?thesis by (simp add: zero_f64_def)
  next
    case False
    have "(buyLimit - sellLimit) * Fin 10000 \<noteq> NaN" by (cases "fl (b - s)") (simp_all add: v minus_f64_def)
    then have nz: "d \<noteq> NaN" unfolding d_def by (intro div_fin_not_nan) simp_all
    then have d: "0 < d" using False f64_not_le[of d 0] by (simp add: zero_f64_def)
    have lt: "sellLimit < buyLimit"
    proof (rule ccontr)
      assume "\<not> sellLimit < buyLimit"
      then have "buyLimit - sellLimit \<le> 0" by (simp add: v minus_f64_def fl_nonpos)
      then have "d \<le> 0" unfolding d_def by (intro nonpos_steps) simp_all
      then show False using False by simp
    qed
    have r: "r = math_min (math_floor (budget / d + tiny)) (math_floor (funds / buyLimit + tiny))"
    proof -
      have "\<not> budget \<le> 0" "\<not> funds \<le> 0" using v by (simp_all add: zero_f64_def)
      then show ?thesis unfolding r_def riskShares_def d_def[symmetric] Let_def using False by (simp only: disj_not1 if_False simp_thms)
    qed
    have n: "0 \<le> budget / d + tiny" "0 \<le> funds / buyLimit + tiny"
    proof -
      have "0 \<le> budget / d" "0 \<le> funds / buyLimit"
        unfolding v(1,3) using v d by (intro div_nonneg; simp add: zero_f64_def)+
      then show "0 \<le> budget / d + tiny" "0 \<le> funds / buyLimit + tiny" using tiny_nonneg by (blast intro: add_nonneg)+
    qed
    then have nn: "budget / d + tiny \<noteq> NaN" "funds / buyLimit + tiny \<noteq> NaN" by (metis nan_le(2))+
    have "0 \<le> r" unfolding r using n by (intro math_min_nonneg math_floor_nonneg)
    moreover have "math_floor r = r" unfolding r using math_min_floor[of "budget / d + tiny" "funds / buyLimit + tiny"] math_floor_idem by force
    moreover have "r \<le> budget / d + tiny" "r \<le> funds / buyLimit + tiny"
    proof -
      have f: "math_floor (budget / d + tiny) \<noteq> NaN" "math_floor (funds / buyLimit + tiny) \<noteq> NaN"
        using nn by (simp_all only: math_floor_nan not_False_eq_True)
      note m = math_min_le[OF f]
      show "r \<le> budget / d + tiny" unfolding r by (rule f64_le_trans[OF conjunct1[OF m] math_floor_le[OF nn(1)]])
      show "r \<le> funds / buyLimit + tiny" unfolding r by (rule f64_le_trans[OF conjunct2[OF m] math_floor_le[OF nn(2)]])
    qed
    ultimately show ?thesis using lt unfolding d_def by blast
  qed
qed


text \<open>A percentage trail on a long position, a one-minute candle, and a sized entry.\<close>

definition sample_trail :: trail_state where
  "sample_trail = \<lparr>t_references = [], t_positionCycle = ''c1'', t_floor = 0,
     t_config = \<lparr>tc_mode = ''PRICE'', tc_value = Fin 2, tc_sessions = \<lparr>ts_pre = True, ts_rth = True, ts_post = True\<rparr>,
       tc_pricing = ''QUOTE'', tc_cushion = \<lparr>lc_value = 0, lc_unit = ''''\<rparr>, tc_quoteSide = ''BID'',
       tc_offset = \<lparr>lc_value = 0, lc_unit = ''''\<rparr>, tc_timeframe = '''', tc_buffer = \<lparr>lc_value = 0, lc_unit = ''''\<rparr>\<rparr>,
     t_watermark = 0, t_stop = Fin 8, t_limit = 0, t_triggered = False, t_retired = False, t_reservedQty = 0, t_reference = None\<rparr>"

definition sample_print :: "f64 \<Rightarrow> int \<Rightarrow> eligible_print" where
  "sample_print price seqno = \<lparr>ep_symbol = ''AAPL'', ep_receiptMs = 1000, ep_price = price, ep_tsMs = 1000, ep_recvTsMs = 1000,
     ep_seq = seqno, ep_gap = False\<rparr>"

definition sample_trail_inputs :: "trail_input list" where
  "sample_trail_inputs = [(0, [], True, False, sample_print (Fin 12) 1), (0, [], True, False, sample_print (Fin 11) 2)]"

lemma trail_never_loosens_witness:
  "case foldl (trail_feed ny2024 ''AAPL'' SideSell) (TrailWait sample_trail) sample_trail_inputs of
     TrailSet t \<Rightarrow> finitePositive (t_stop t) \<and> Fin 8 \<le> t_stop t \<and> t_stop t = Fin 10 | _ \<Rightarrow> False"
proof -
  have "case foldl (trail_feed ny2024 ''AAPL'' SideSell) (TrailWait sample_trail) sample_trail_inputs of
     TrailSet t \<Rightarrow> t_stop t = Fin 10 | _ \<Rightarrow> False" by code_simp
  then show ?thesis
    using trail_never_loosens[of sample_trail SideSell ny2024 "''AAPL''" sample_trail_inputs]
    by (auto simp: sample_trail_def split: trail_result.splits)
qed

definition sample_candle :: trail_candle where
  "sample_candle = \<lparr>tk_afterSeq = 0, tk_symbol = ''AAPL'', tk_timeframe = ''1m'', tk_startMs = 1720015200000,
     tk_endMs = 1720015260000, tk_low = Fin 10, tk_high = Fin 11, tk_verified = True\<rparr>"

lemma candles_trusted_and_newest_witness:
  "\<exists>c. mget (foldl (feed_candle ny2024) [] [(1720015260000, [], sample_candle)]) (candle_key ''AAPL'' ''1m'') = Some c \<and>
     1720015200000 \<le> tk_startMs c"
proof -
  have "good_candle ny2024 1720015260000 sample_candle" by code_simp
  then show ?thesis
    using candles_trusted_and_newest[of "[(1720015260000, [], sample_candle)]" 1720015260000 ny2024]
    by (simp add: sample_candle_def)
qed

lemma risk_size_affordable_witness:
  "riskShares (Fin 100) (Fin 11) (Fin 10) (Fin 1100) \<le> Fin 1100 / Fin 11 + tiny"
proof -
  have "0 < riskShares (Fin 100) (Fin 11) (Fin 10) (Fin 1100)" by code_simp
  then show ?thesis
    using risk_size_affordable[of "Fin 100" "Fin 1100" "Fin 11" "Fin 10"] by (simp add: finitePositive_iff)
qed

end
