(* ===== verification/Protection.thy ===== *)
theory Protection
  imports HeldRoute
begin

text \<open>
  Price evidence for protective stops, \<open>protective_price.go\<close>, and the execution book it leans
  on (\<open>TrailBook\<close> and the first half of \<open>handleTrailBook\<close> in \<open>trailing.go\<close>): a print may move
  or fire a protective stop only when the book supports it, or, with no usable book, when it
  is ordinary against the last accepted print or a second print confirms it in time. The
  observer reads the clock and the book; both are arguments.
\<close>

section \<open>The execution book\<close>

record trail_book =
  tb_receiptMs :: int
  tb_bidTsMs :: "int option"
  tb_askTsMs :: "int option"
  tb_clockInvalid :: bool
  tb_bidReceiptMs :: int
  tb_askReceiptMs :: int
  tb_coverage :: nat
  tb_symbol :: string
  tb_bid :: f64
  tb_ask :: f64
  tb_generation :: nat
  tb_gap :: bool

definition trail_book0 :: trail_book where
  "trail_book0 = \<lparr>tb_receiptMs = 0, tb_bidTsMs = None, tb_askTsMs = None, tb_clockInvalid = False, tb_bidReceiptMs = 0,
     tb_askReceiptMs = 0, tb_coverage = 0, tb_symbol = '''', tb_bid = 0, tb_ask = 0, tb_generation = 0, tb_gap = False\<rparr>"

text \<open>Two timestamps that are both there and equal, or both there and going back.\<close>

definition same_ts :: "int option \<Rightarrow> int option \<Rightarrow> bool" where
  "same_ts a b \<longleftrightarrow> (case (a, b) of (Some x, Some y) \<Rightarrow> x = y | _ \<Rightarrow> False)"

definition ts_back :: "int option \<Rightarrow> int option \<Rightarrow> bool" where
  "ts_back old new \<longleftrightarrow> (case (old, new) of (Some x, Some y) \<Rightarrow> y < x | _ \<Rightarrow> False)"

text \<open>The book as it is kept: a side that did not move keeps its receipt time.\<close>

definition book_against :: "trail_book \<Rightarrow> trail_book \<Rightarrow> trail_book" where
  "book_against old b =
     (let b1 = (if same_ts (tb_bidTsMs old) (tb_bidTsMs b) then b\<lparr>tb_bidReceiptMs := tb_bidReceiptMs old\<rparr> else b);
          b2 = (if same_ts (tb_askTsMs old) (tb_askTsMs b) then b1\<lparr>tb_askReceiptMs := tb_askReceiptMs old\<rparr> else b1)
      in b2\<lparr>tb_clockInvalid := tb_clockInvalid old \<or> tb_receiptMs old > tb_receiptMs b \<or>
            ts_back (tb_bidTsMs old) (tb_bidTsMs b) \<or> ts_back (tb_askTsMs old) (tb_askTsMs b)\<rparr>)"

text \<open>\<open>trailBookGeneration\<close> and \<open>trailBooks\<close>; the flag says whether the handler goes on.\<close>

definition keep_book ::
  "trail_book \<Rightarrow> nat \<Rightarrow> (string, trail_book) gomap \<Rightarrow> bool \<times> nat \<times> (string, trail_book) gomap" where
  "keep_book book gen books0 =
     (if tb_generation book < gen then (False, gen, books0)
      else let books = (if tb_generation book > gen \<or> tb_gap book then [] else books0)
           in if tb_gap book then (False, tb_generation book, books)
              else let b = book\<lparr>tb_bidReceiptMs := tb_receiptMs book, tb_askReceiptMs := tb_receiptMs book\<rparr>;
                       b' = (case mget books (tb_symbol b) of
                               Some old \<Rightarrow> if tb_generation old = tb_generation b \<and> tb_coverage old = tb_coverage b
                                 then book_against old b else b
                             | None \<Rightarrow> b)
                   in (True, tb_generation book, mput (tb_symbol b) b' books))"

section \<open>Tolerances\<close>

definition protectionWait :: int where "protectionWait = 100"
definition protectionBookAge :: int where "protectionBookAge = 250"
definition eligiblePrintMaxAge :: int where "eligiblePrintMaxAge = 2000"

definition sameProtectionPrint :: "eligible_print \<Rightarrow> eligible_print \<Rightarrow> bool" where
  "sameProtectionPrint a b \<longleftrightarrow> ep_symbol a = ep_symbol b \<and> ep_seq a = ep_seq b \<and> ep_tsMs a = ep_tsMs b"

definition protectionFloor :: "f64 \<Rightarrow> f64" where
  "protectionFloor price = (if price \<ge> 1 then fconst (2 / 100) else fconst (2 / 10000))"

definition nearProtectionPrice :: "f64 \<Rightarrow> f64 \<Rightarrow> bool" where
  "nearProtectionPrice a b \<longleftrightarrow> \<bar>a - b\<bar> \<le> math_max (protectionFloor b) (b * fconst (25 / 10000))"

text \<open>\<open>protectionBook\<close>: the book of a symbol and whether it may be used. \<open>coverage\<close> is the demand
  controller's \<open>TrailBookCoverage\<close>, when it has one.\<close>

definition protectionBook ::
  "int \<Rightarrow> (string, trail_book) gomap \<Rightarrow> (string \<Rightarrow> nat) option \<Rightarrow> string \<Rightarrow> trail_book \<times> bool" where
  "protectionBook now books coverage symbol =
     (let b = mget0 trail_book0 books symbol; age = now - tb_receiptMs b
      in if \<not> mhas books symbol \<or> tb_clockInvalid b \<or> tb_generation b = 0 \<or> tb_coverage b = 0 \<or> tb_receiptMs b \<le> 0 \<or>
            age < 0 \<or> age > protectionBookAge \<or>
            tb_bidReceiptMs b \<le> 0 \<or> tb_askReceiptMs b \<le> 0 \<or> now - tb_bidReceiptMs b > protectionBookAge \<or>
            now - tb_askReceiptMs b > protectionBookAge \<or>
            (case (tb_bidTsMs b, tb_askTsMs b) of
               (Some bt, Some at0) \<Rightarrow> bt \<le> 0 \<or> at0 \<le> 0 \<or> max bt at0 - min bt at0 > protectionBookAge
             | _ \<Rightarrow> True) \<or>
            \<not> finitePositive (tb_bid b) \<or> \<not> finitePositive (tb_ask b) \<or> tb_bid b > tb_ask b \<or>
            tb_ask b - tb_bid b > (tb_bid b + tb_ask b) * fconst (5 / 1000)
         then (b, False)
         else (case coverage of
                 Some cov \<Rightarrow> if cov symbol = 0 \<or> cov symbol \<noteq> tb_coverage b then (b, False) else (b, True)
               | None \<Rightarrow> (b, True)))"

definition protectionBookSupports :: "trail_book \<Rightarrow> f64 \<Rightarrow> bool" where
  "protectionBookSupports b price =
     (let margin = math_max (protectionFloor ((tb_bid b + tb_ask b) / Fin 2)) (tb_ask b - tb_bid b)
      in price \<ge> tb_bid b - margin \<and> price \<le> tb_ask b + margin)"

section \<open>The observer\<close>

record protection_price =
  pp_reference :: eligible_print
  pp_latest :: eligible_print
  pp_candidate :: eligible_print
  pp_accepted :: bool

definition protection_price0 :: protection_price where
  "protection_price0 = \<lparr>pp_reference = print0, pp_latest = print0, pp_candidate = print0, pp_accepted = False\<rparr>"

text \<open>Recent on the local clock; ordinary against the reference; the second of a candidate.\<close>

definition known_print :: "int \<Rightarrow> eligible_print \<Rightarrow> bool" where
  "known_print now p \<longleftrightarrow> ep_receiptMs p > 0 \<and> now - ep_receiptMs p \<ge> 0 \<and> now - ep_receiptMs p \<le> eligiblePrintMaxAge"

definition ordinary_print :: "eligible_print \<Rightarrow> eligible_print \<Rightarrow> bool" where
  "ordinary_print reference p \<longleftrightarrow>
     ep_receiptMs reference > 0 \<and> ep_receiptMs p - ep_receiptMs reference \<ge> 0 \<and>
     ep_receiptMs p - ep_receiptMs reference \<le> eligiblePrintMaxAge \<and>
     \<bar>ep_price p - ep_price reference\<bar> \<le> math_max (protectionFloor (ep_price reference)) (ep_price reference * fconst (1 / 100))"

definition second_print :: "eligible_print \<Rightarrow> eligible_print \<Rightarrow> bool" where
  "second_print candidate p \<longleftrightarrow>
     ep_seq candidate > 0 \<and> ep_seq p > ep_seq candidate \<and> ep_receiptMs candidate > 0 \<and>
     ep_receiptMs p - ep_receiptMs candidate \<ge> 0 \<and> ep_receiptMs p - ep_receiptMs candidate < protectionWait \<and>
     nearProtectionPrice (ep_price p) (ep_price candidate)"

definition observeProtectionPrice ::
  "int \<Rightarrow> trail_book \<times> bool \<Rightarrow> eligible_print \<Rightarrow> protection_price \<Rightarrow> protection_price" where
  "observeProtectionPrice now bk p s =
     (if sameProtectionPrint (pp_latest s) p then s
      else let (b, book) = bk;
               supported = (book \<and> protectionBookSupports b (ep_price p));
               accepted = (known_print now p \<and> (supported \<or> \<not> book \<and> (ordinary_print (pp_reference s) p \<or> second_print (pp_candidate s) p)));
               s1 = s\<lparr>pp_latest := p, pp_accepted := accepted\<rparr>
           in if accepted then s1\<lparr>pp_reference := p, pp_candidate := print0\<rparr>
              else if ep_seq (pp_candidate s) = 0 \<or> ep_receiptMs p \<ge> ep_receiptMs (pp_candidate s) + protectionWait \<or>
                      \<not> nearProtectionPrice (ep_price p) (ep_price (pp_candidate s))
              then s1\<lparr>pp_candidate := p\<rparr> else s1)"

definition protectionPriceAccepted ::
  "int \<Rightarrow> trail_book \<times> bool \<Rightarrow> (string, eligible_print) gomap \<Rightarrow> eligible_print \<Rightarrow>
     (string, protection_price) gomap \<Rightarrow> bool \<times> (string, protection_price) gomap" where
  "protectionPriceAccepted now bk lastEligible p prices =
     (if ep_receiptMs p \<le> 0 \<or> now < ep_receiptMs p \<or> now - ep_receiptMs p > eligiblePrintMaxAge then (False, prices)
      else let s = mget prices (ep_symbol p);
               fresh = (case s of None \<Rightarrow> False | Some s1 \<Rightarrow> sameProtectionPrint (pp_latest s1) p)
           in if \<not> fresh \<and> \<not> sameProtectionPrint (mget0 print0 lastEligible (ep_symbol p)) p then (False, prices)
              else let s2 = (if fresh then mget0 protection_price0 prices (ep_symbol p)
                             else observeProtectionPrice now bk p (mget0 protection_price0 prices (ep_symbol p)));
                       prices2 = (if fresh then prices else mput (ep_symbol p) s2 prices)
                   in (pp_accepted s2 \<and> sameProtectionPrint (pp_latest s2) p, prices2))"

text \<open>A supporting book may confirm the candidate while it waits (\<open>trailing.go\<close>, end of
  \<open>handleTrailBook\<close>); a candidate that waited too long is dropped (\<open>protectionDeadline\<close>).\<close>

definition candidate_confirmed :: "int \<Rightarrow> trail_book \<times> bool \<Rightarrow> protection_price \<Rightarrow> bool" where
  "candidate_confirmed now bk s \<longleftrightarrow>
     ep_seq (pp_candidate s) > 0 \<and> now < ep_receiptMs (pp_candidate s) + protectionWait \<and>
     (case bk of (b, usable) \<Rightarrow> usable \<and> protectionBookSupports b (ep_price (pp_candidate s)))"

definition confirm_candidate :: "protection_price \<Rightarrow> protection_price" where
  "confirm_candidate s = s\<lparr>pp_reference := pp_candidate s, pp_latest := pp_candidate s, pp_accepted := True, pp_candidate := print0\<rparr>"

definition candidate_due :: "protection_price \<Rightarrow> int" where
  "candidate_due s = ep_receiptMs (pp_candidate s) + protectionWait"

definition expire_candidate :: "int \<Rightarrow> protection_price \<Rightarrow> protection_price" where
  "expire_candidate now s =
     (if ep_seq (pp_candidate s) \<noteq> 0 \<and> candidate_due s \<le> now then s\<lparr>pp_candidate := print0\<rparr> else s)"

section \<open>Histories of an observer\<close>

text \<open>All that happens to the observer of one symbol: a print is observed, a book is looked at, the
  deadline timer runs, or the observer is dropped (a gap clears them all, a finished order its symbol's).
  Each step has the clock and, where it is read, the book of its moment.\<close>

datatype obs_step =
    ObsPrint int "trail_book \<times> bool" eligible_print
  | ObsBook int "trail_book \<times> bool"
  | ObsExpire int
  | ObsDrop

fun obs_do :: "obs_step \<Rightarrow> protection_price \<Rightarrow> protection_price" where
  "obs_do (ObsPrint now bk p) s = observeProtectionPrice now bk p s"
| "obs_do (ObsBook now bk) s = (if candidate_confirmed now bk s then confirm_candidate s else s)"
| "obs_do (ObsExpire now) s = expire_candidate now s"
| "obs_do ObsDrop s = protection_price0"

definition obs_run :: "obs_step list \<Rightarrow> protection_price" where
  "obs_run H = fold obs_do H protection_price0"

text \<open>The part of a history since the observer was last dropped.\<close>

fun since_drop :: "obs_step list \<Rightarrow> obs_step list" where
  "since_drop [] = []"
| "since_drop (x # H) = (if ObsDrop \<in> set (x # H) then since_drop H else x # H)"

lemma since_drop_snoc [simp]: "since_drop (H @ [x]) = (if x = ObsDrop then [] else since_drop H @ [x])"
  by (induction H) auto

text \<open>What may stand behind a price in a history: a usable book that supported the print, at once or
  within 100 ms; with no usable book, an earlier print within 100 ms and 0.25 percent (or the
  floor); or, with no usable book, a move of at most one percent (or the floor) within two
  seconds from a price that is itself trusted. Except for the late book, the print was at most
  two seconds old.\<close>

definition recent :: "int \<Rightarrow> eligible_print \<Rightarrow> bool" where
  "recent now p \<longleftrightarrow> 0 < ep_receiptMs p \<and> ep_receiptMs p \<le> now \<and> now \<le> ep_receiptMs p + 2000"

inductive trusted :: "obs_step list \<Rightarrow> eligible_print \<Rightarrow> bool" for H where
  by_book: "ObsPrint now (b, True) p \<in> set H \<Longrightarrow> recent now p \<Longrightarrow> protectionBookSupports b (ep_price p) \<Longrightarrow> trusted H p"
| by_late_book: "ObsPrint now bk p \<in> set H \<Longrightarrow> ObsBook now' (b, True) \<in> set H \<Longrightarrow> 0 < ep_seq p \<Longrightarrow>
    now' < ep_receiptMs p + 100 \<Longrightarrow> protectionBookSupports b (ep_price p) \<Longrightarrow> trusted H p"
| by_second: "ObsPrint now (b, False) p \<in> set H \<Longrightarrow> recent now p \<Longrightarrow> ObsPrint now' bk q \<in> set H \<Longrightarrow>
    0 < ep_seq q \<Longrightarrow> ep_seq q < ep_seq p \<Longrightarrow> 0 < ep_receiptMs q \<Longrightarrow>
    ep_receiptMs q \<le> ep_receiptMs p \<Longrightarrow> ep_receiptMs p < ep_receiptMs q + 100 \<Longrightarrow>
    nearProtectionPrice (ep_price p) (ep_price q) \<Longrightarrow> trusted H p"
| by_move: "ObsPrint now (b, False) p \<in> set H \<Longrightarrow> recent now p \<Longrightarrow> trusted H q \<Longrightarrow>
    ep_receiptMs q \<le> ep_receiptMs p \<Longrightarrow> ep_receiptMs p \<le> ep_receiptMs q + 2000 \<Longrightarrow>
    \<bar>ep_price p - ep_price q\<bar> \<le> math_max (protectionFloor (ep_price q)) (ep_price q * fconst (1 / 100)) \<Longrightarrow> trusted H p"

lemma trusted_mono: "trusted H p \<Longrightarrow> set H \<subseteq> set H' \<Longrightarrow> trusted H' p"
  by (induction rule: trusted.induct) (blast intro: trusted.intros)+

text \<open>The candidate and the latest print were observed, the reference is trusted, and an accepted
  print is its own reference and leaves no candidate.\<close>

definition observer_inv :: "obs_step list \<Rightarrow> protection_price \<Rightarrow> bool" where
  "observer_inv H s \<longleftrightarrow>
     (pp_candidate s = print0 \<or> (\<exists>now bk. ObsPrint now bk (pp_candidate s) \<in> set H)) \<and>
     (pp_reference s = print0 \<or> trusted H (pp_reference s)) \<and>
     (pp_accepted s \<longrightarrow> trusted H (pp_latest s) \<and> pp_reference s = pp_latest s)"

lemma print0_no_evidence: "\<not> ordinary_print print0 p" "\<not> second_print print0 p"
  by (simp_all add: ordinary_print_def second_print_def print0_def)

lemma known_recent: "known_print now p \<longleftrightarrow> recent now p"
  by (auto simp: known_print_def recent_def eligiblePrintMaxAge_def)

lemma observed_accepted:
  assumes "observer_inv H s" "known_print now p" "supported \<longrightarrow> snd bk \<and> protectionBookSupports (fst bk) (ep_price p)"
    and "supported \<or> \<not> snd bk \<and> (ordinary_print (pp_reference s) p \<or> second_print (pp_candidate s) p)"
  shows "trusted (H @ [ObsPrint now bk p]) p"
proof -
  obtain b u where bk: "bk = (b, u)" by fastforce
  have r: "recent now p" using assms(2) by (simp add: known_recent)
  consider "u" "protectionBookSupports b (ep_price p)" | "\<not> u" "ordinary_print (pp_reference s) p"
    | "\<not> u" "second_print (pp_candidate s) p" using assms(3,4) bk by auto
  then show ?thesis
  proof cases
    case 1
    then show ?thesis using r bk by (intro by_book[of now b p]) auto
  next
    case 2
    then have "trusted H (pp_reference s)" using assms(1) print0_no_evidence by (metis observer_inv_def)
    then have "trusted (H @ [ObsPrint now bk p]) (pp_reference s)" by (rule trusted_mono) auto
    then show ?thesis using 2 r bk
      by (intro by_move[of now b p _ "pp_reference s"]) (auto simp: ordinary_print_def eligiblePrintMaxAge_def)
  next
    case 3
    then obtain now' bk' where "ObsPrint now' bk' (pp_candidate s) \<in> set H"
      using assms(1) print0_no_evidence by (metis observer_inv_def)
    then show ?thesis using 3 r bk
      by (intro by_second[of now b p _ now' bk' "pp_candidate s"]) (auto simp: second_print_def protectionWait_def)
  qed
qed

lemma inv_later: "observer_inv H s \<Longrightarrow> observer_inv (H @ [x]) s"
  using trusted_mono[of H _ "H @ [x]"] unfolding observer_inv_def by (metis UnI1 set_append subsetI)

lemma observe_inv:
  assumes "observer_inv H s"
  shows "observer_inv (H @ [ObsPrint now bk p]) (observeProtectionPrice now bk p s)"
proof (cases "sameProtectionPrint (pp_latest s) p")
  case True
  then show ?thesis using inv_later[OF assms] by (simp add: observeProtectionPrice_def)
next
  case False
  obtain b u where bk: "bk = (b, u)" by fastforce
  define ok where "ok \<longleftrightarrow> known_print now p \<and> (u \<and> protectionBookSupports b (ep_price p) \<or>
    \<not> u \<and> (ordinary_print (pp_reference s) p \<or> second_print (pp_candidate s) p))"
  have i: "observer_inv (H @ [ObsPrint now bk p]) s" by (rule inv_later[OF assms])
  have s': "observeProtectionPrice now bk p s =
      (if ok then s\<lparr>pp_latest := p, pp_accepted := True, pp_reference := p, pp_candidate := print0\<rparr>
       else if ep_seq (pp_candidate s) = 0 \<or> ep_receiptMs p \<ge> ep_receiptMs (pp_candidate s) + protectionWait \<or>
         \<not> nearProtectionPrice (ep_price p) (ep_price (pp_candidate s))
       then s\<lparr>pp_latest := p, pp_accepted := False, pp_candidate := p\<rparr> else s\<lparr>pp_latest := p, pp_accepted := False\<rparr>)"
    using False unfolding observeProtectionPrice_def bk Let_def prod.case ok_def[symmetric] by simp
  have "trusted (H @ [ObsPrint now bk p]) p" if ok
    using observed_accepted[OF assms, of now p "u \<and> protectionBookSupports b (ep_price p)" bk] that
    unfolding ok_def bk fst_conv snd_conv by blast
  moreover have "\<exists>now' bk'. ObsPrint now' bk' p \<in> set (H @ [ObsPrint now bk p])" by (metis in_set_conv_decomp)
  ultimately show ?thesis using i unfolding s' observer_inv_def by simp
qed

lemma confirm_inv:
  assumes "observer_inv H s" "candidate_confirmed now bk s"
  shows "observer_inv (H @ [ObsBook now bk]) (confirm_candidate s)"
proof -
  obtain b where b: "bk = (b, True)" "protectionBookSupports b (ep_price (pp_candidate s))" "0 < ep_seq (pp_candidate s)"
    "now < ep_receiptMs (pp_candidate s) + 100"
    using assms(2) by (auto simp: candidate_confirmed_def protectionWait_def split: prod.splits)
  then obtain now' bk' where "ObsPrint now' bk' (pp_candidate s) \<in> set H"
    using assms(1) by (auto simp: observer_inv_def print0_def)
  then have "trusted (H @ [ObsBook now bk]) (pp_candidate s)"
    using b by (intro by_late_book[of now' bk' _ _ now b]) auto
  then show ?thesis by (simp add: observer_inv_def confirm_candidate_def)
qed

lemma expire_inv: "observer_inv H s \<Longrightarrow> observer_inv H (expire_candidate now s)"
  by (auto simp: expire_candidate_def observer_inv_def)

lemma observer_inv_0: "observer_inv H protection_price0"
  by (simp add: observer_inv_def protection_price0_def)

lemma obs_do_inv: "observer_inv (since_drop H) s \<Longrightarrow> observer_inv (since_drop (H @ [x])) (obs_do x s)"
  by (cases x) (simp_all add: observe_inv confirm_inv inv_later expire_inv observer_inv_0)

lemma obs_run_inv: "observer_inv (since_drop H) (obs_run H)"
  by (induction H rule: rev_induct) (simp_all add: obs_run_def observer_inv_0 obs_do_inv del: since_drop_snoc)

section \<open>Properties\<close>

text \<open>C24. Over every history of a symbol's observer (prints, books, candidate expiry, drops), a print whose price protectionPriceAccepted accepts is at most two seconds old and, since the observer was last dropped, is connected to evidence: a usable book supported it when it was seen or within 100 ms of its receipt; or with no usable book an earlier print within 100 ms lies within 0.25 percent or the floor; or with no usable book it moved at most one percent or the floor, within two seconds, from a price that is itself so connected. The statement is about acceptance of the price only: a pending stop may still be authorised by the 100 ms timeout.\<close>

theorem accepted_price_is_backed:
  assumes "mget0 protection_price0 prices (ep_symbol p) = obs_run H"
    and "fst (protectionPriceAccepted now bk lastEligible p prices)"
  shows "recent now p \<and>
    (\<exists>p'. sameProtectionPrint p' p \<and> trusted (since_drop (H @ [ObsPrint now bk p])) p')"
proof -
  define s where "s = obs_run H"
  have i: "observer_inv (since_drop H) s" using obs_run_inv by (simp add: s_def)
  note i' = observe_inv[OF i, of now bk p] inv_later[OF i, of "ObsPrint now bk p"]
  have r: "recent now p" using assms(2) by (simp add: protectionPriceAccepted_def recent_def eligiblePrintMaxAge_def split: if_splits)
  have "(pp_accepted s \<and> sameProtectionPrint (pp_latest s) p) \<or>
    (pp_accepted (observeProtectionPrice now bk p s) \<and> sameProtectionPrint (pp_latest (observeProtectionPrice now bk p s)) p)"
  proof (cases "mget prices (ep_symbol p)")
    case None
    then have "protection_price0 = s" using assms(1) by (simp add: mget0_def s_def)
    then show ?thesis using None assms(2) by (auto simp: protectionPriceAccepted_def Let_def mget0_def split: if_splits)
  next
    case (Some s1)
    then have "s1 = s" using assms(1) by (simp add: mget0_def s_def)
    then show ?thesis using Some assms(2) by (auto simp: protectionPriceAccepted_def Let_def mget0_def split: if_splits)
  qed
  moreover have "since_drop (H @ [ObsPrint now bk p]) = since_drop H @ [ObsPrint now bk p]" by simp
  ultimately show ?thesis using i' r unfolding observer_inv_def by metis
qed

text \<open>C25. A print that was set aside as unconfirmed does not block the tape: with no usable book the next near print within 100 ms is accepted and becomes the reference.\<close>

theorem second_print_confirms:
  assumes "\<not> sameProtectionPrint (pp_latest s) p" "\<not> pp_accepted (observeProtectionPrice now bk p s)"
    and "ep_seq (pp_candidate s) = 0 \<or> ep_receiptMs p \<ge> ep_receiptMs (pp_candidate s) + protectionWait \<or>
      \<not> nearProtectionPrice (ep_price p) (ep_price (pp_candidate s))"
    and "0 < ep_seq p" "0 < ep_receiptMs p" "ep_seq p < ep_seq q" "ep_receiptMs p \<le> ep_receiptMs q"
    and "ep_receiptMs q < ep_receiptMs p + protectionWait" "nearProtectionPrice (ep_price q) (ep_price p)"
    and "known_print now' q" "\<not> snd bk'"
  shows "pp_accepted (observeProtectionPrice now' bk' q (observeProtectionPrice now bk p s)) \<and>
    pp_reference (observeProtectionPrice now' bk' q (observeProtectionPrice now bk p s)) = q"
proof -
  define s1 where "s1 = observeProtectionPrice now bk p s"
  have s1: "pp_latest s1 = p" "pp_candidate s1 = p"
    using assms(1-3) by (auto simp: s1_def observeProtectionPrice_def Let_def split: prod.splits if_splits)
  then have "second_print (pp_candidate s1) q" "\<not> sameProtectionPrint (pp_latest s1) q"
    using assms(4-9) by (auto simp: second_print_def sameProtectionPrint_def)
  then show ?thesis using assms(10,11) unfolding s1_def[symmetric]
    by (auto simp: observeProtectionPrice_def Let_def split: prod.split)
qed

text \<open>A first print far from nothing, then one a cent away within the wait, with no book.\<close>

definition tape_print :: "f64 \<Rightarrow> int \<Rightarrow> int \<Rightarrow> eligible_print" where
  "tape_print price ms seqno = \<lparr>ep_symbol = ''AAPL'', ep_receiptMs = ms, ep_price = price, ep_tsMs = ms, ep_recvTsMs = ms,
     ep_seq = seqno, ep_gap = False\<rparr>"

definition no_book :: "trail_book \<times> bool" where
  "no_book = (trail_book0, False)"

lemma second_print_confirms_witness:
  "pp_accepted (observeProtectionPrice 1050 no_book (tape_print (Fin 10) 1050 2)
     (observeProtectionPrice 1000 no_book (tape_print (Fin 10) 1000 1) protection_price0))"
proof -
  have n: "nearProtectionPrice (ep_price (tape_print (Fin 10) 1050 2)) (ep_price (tape_print (Fin 10) 1000 1))"
    by code_simp
  show ?thesis
    by (rule conjunct1[OF second_print_confirms[OF _ _ _ _ _ _ _ _ n]])
      (simp_all add: tape_print_def no_book_def protection_price0_def print0_def sameProtectionPrint_def known_print_def
        protectionWait_def eligiblePrintMaxAge_def observeProtectionPrice_def ordinary_print_def second_print_def Let_def)
qed

text \<open>A print with no book, one more before it may be trusted; a book confirms neither.\<close>

definition two_prints :: "obs_step list" where
  "two_prints = [ObsPrint 900 no_book (tape_print (Fin 12) 900 1), ObsExpire 1000, ObsPrint 1000 no_book (tape_print (Fin 10) 1000 2),
     ObsBook 1010 no_book]"

lemma accepted_price_is_backed_witness:
  "recent 1050 (tape_print (Fin 10) 1050 3) \<and>
   (\<exists>p'. sameProtectionPrint p' (tape_print (Fin 10) 1050 3) \<and>
     trusted (since_drop (two_prints @ [ObsPrint 1050 no_book (tape_print (Fin 10) 1050 3)])) p')"
proof (rule accepted_price_is_backed)
  show "mget0 protection_price0 [(''AAPL'', obs_run two_prints)] (ep_symbol (tape_print (Fin 10) 1050 3)) = obs_run two_prints"
    by (simp add: mget0_def tape_print_def)
  show "fst (protectionPriceAccepted 1050 no_book [(''AAPL'', tape_print (Fin 10) 1050 3)] (tape_print (Fin 10) 1050 3)
      [(''AAPL'', obs_run two_prints)])"
    by code_simp
qed

text \<open>The first of the two alone is not accepted.\<close>

lemma lone_print_waits: "\<not> pp_accepted (obs_run (take 3 two_prints))"
  by code_simp

end
