(* ===== verification/StepMonad.thy ===== *)
theory StepMonad
  imports "HOL-Library.State_Monad"
begin

text \<open>
  Handlers as computations in the library's state monad: reading, writing and loops as the Go
  handlers use them, and a relational triple over two runs of one handler. \<open>twin_rules\<close> collects one
  rule per construct, so that an invariant and the independence of the recursion depth are carried
  through a handler together by its operations.
\<close>

section \<open>Monad\<close>

abbreviation return :: "'a \<Rightarrow> ('s, 'a) state" where "return \<equiv> State_Monad.return"

definition gets :: "('s \<Rightarrow> 'a) \<Rightarrow> ('s, 'a) state" where
  "gets f = State (\<lambda>s. (f s, s))"

definition modify :: "('s \<Rightarrow> 's) \<Rightarrow> ('s, unit) state" where
  "modify f = State (\<lambda>s. ((), f s))"

definition whenM :: "bool \<Rightarrow> ('s, unit) state \<Rightarrow> ('s, unit) state" where
  "whenM b m = (if b then m else return ())"

text \<open>\<open>for _, x := range xs { body }\<close>, where \<open>continue\<close> is \<open>return ()\<close>.\<close>

primrec each :: "'a list \<Rightarrow> ('a \<Rightarrow> ('s, unit) state) \<Rightarrow> ('s, unit) state" where
  "each [] f = return ()"
| "each (x # xs) f = do { f x; each xs f }"

text \<open>A loop whose body may return an error out of the function.\<close>

primrec each_err :: "'a list \<Rightarrow> ('a \<Rightarrow> ('s, string option) state) \<Rightarrow> ('s, string option) state" where
  "each_err [] f = return None"
| "each_err (x # xs) f = do { e \<leftarrow> f x; case e of None \<Rightarrow> each_err xs f | Some w \<Rightarrow> return (Some w) }"

text \<open>A loop that threads local variables.\<close>

primrec each_acc :: "'a list \<Rightarrow> 'b \<Rightarrow> ('b \<Rightarrow> 'a \<Rightarrow> ('s, 'b) state) \<Rightarrow> ('s, 'b) state" where
  "each_acc [] b f = return b"
| "each_acc (x # xs) b f = do { b \<leftarrow> f b x; each_acc xs b f }"

text \<open>\<open>if err := m; err != nil { return err }\<close>\<close>

definition or_return :: "('s, 'e option) state \<Rightarrow> ('s, 'e option) state \<Rightarrow> ('s, 'e option) state" where
  "or_return m n = do { e \<leftarrow> m; case e of None \<Rightarrow> n | Some w \<Rightarrow> return (Some w) }"

section \<open>Twin runs\<close>

text \<open>
  Two versions of a handler, say at two recursion depths, from one state: the first ends in \<open>Q\<close>, does
  not recover from a bad state, and unless it ends in a bad state the second does the same.
\<close>

definition twin :: "('s \<Rightarrow> bool) \<Rightarrow> ('s \<Rightarrow> bool) \<Rightarrow> ('s, 'a) state \<Rightarrow> ('s, 'a) state \<Rightarrow> ('a \<Rightarrow> 's \<Rightarrow> bool) \<Rightarrow> bool" where
  "twin bad P m m' Q \<longleftrightarrow> (\<forall>s. P s \<longrightarrow> (case run_state m s of (a, s') \<Rightarrow>
     Q a s' \<and> (bad s \<longrightarrow> bad s') \<and> (\<not> bad s' \<longrightarrow> run_state m' s = (a, s'))))"

definition twins :: "('s \<Rightarrow> bool) \<Rightarrow> ('s \<Rightarrow> bool) \<Rightarrow> ('s, 'a) state \<Rightarrow> ('s, 'a) state \<Rightarrow> bool" where
  "twins bad I m m' \<longleftrightarrow> twin bad I m m' (\<lambda>_. I)"

named_theorems twin_rules \<open>twin runs of computations\<close>

lemma run_gets [simp]: "run_state (gets f) s = (f s, s)"
  by (simp add: gets_def)

lemma run_modify [simp]: "run_state (modify f) s = ((), f s)"
  by (simp add: modify_def)

lemma twinI:
  "(\<And>s a s'. P s \<Longrightarrow> run_state m s = (a, s') \<Longrightarrow> Q a s' \<and> (bad s \<longrightarrow> bad s') \<and> (\<not> bad s' \<longrightarrow> run_state m' s = (a, s'))) \<Longrightarrow>
    twin bad P m m' Q"
  by (auto simp: twin_def split: prod.splits)

lemma twinD:
  "twin bad P m m' Q \<Longrightarrow> P s \<Longrightarrow> run_state m s = (a, s') \<Longrightarrow>
    Q a s' \<and> (bad s \<longrightarrow> bad s') \<and> (\<not> bad s' \<longrightarrow> run_state m' s = (a, s'))"
  by (fastforce simp: twin_def)

lemma twin_bind:
  assumes "twin bad P m m' R" "\<And>a. twin bad (R a) (f a) (f' a) Q"
  shows "twin bad P (m \<bind> f) (m' \<bind> f') Q"
proof (rule twinI)
  fix s b s2
  assume "P s" "run_state (m \<bind> f) s = (b, s2)"
  moreover obtain a s1 where m: "run_state m s = (a, s1)" by (cases "run_state m s")
  ultimately have f: "run_state (f a) s1 = (b, s2)" by simp
  note twinD [OF assms(1) \<open>P s\<close> m]
  moreover from this have "R a s1" by simp
  note twinD [OF assms(2) this f]
  ultimately show "Q b s2 \<and> (bad s \<longrightarrow> bad s2) \<and> (\<not> bad s2 \<longrightarrow> run_state (m' \<bind> f') s = (b, s2))" by auto
qed

lemma twin_pre: "twin bad P' m m' Q \<Longrightarrow> (\<And>s. P s \<Longrightarrow> P' s) \<Longrightarrow> twin bad P m m' Q"
  by (auto simp: twin_def)

lemma twin_post: "twin bad P m m' Q' \<Longrightarrow> (\<And>a s. Q' a s \<Longrightarrow> Q a s) \<Longrightarrow> twin bad P m m' Q"
  by (fastforce simp: twin_def split: prod.splits)

lemma twin_gets: "twin bad P (gets f) (gets f) (\<lambda>a s. P s \<and> a = f s)"
  by (rule twinI) auto

lemma twins_twin: "twins bad I m m' \<Longrightarrow> twin bad I m m' (\<lambda>_. I)"
  by (simp add: twins_def)

lemma twins_keep: "twins bad I m m' \<Longrightarrow> I s \<Longrightarrow> I (snd (run_state m s))"
  unfolding twins_def by (cases "run_state m s") (auto dest: twinD)

lemma twins_bad: "twins bad I m m' \<Longrightarrow> I s \<Longrightarrow> bad s \<Longrightarrow> bad (snd (run_state m s))"
  unfolding twins_def by (cases "run_state m s") (auto dest: twinD)

lemma twins_same: "twins bad I m m' \<Longrightarrow> I s \<Longrightarrow> \<not> bad (snd (run_state m s)) \<Longrightarrow> run_state m' s = run_state m s"
  unfolding twins_def by (cases "run_state m s") (auto dest: twinD)

lemma twins_left: "twins bad I m m' \<Longrightarrow> twins bad I m m"
  unfolding twins_def by (rule twinI) (auto dest: twinD)

text \<open>What a \<open>gets\<close> returned is known to come from a state in the invariant.\<close>

lemma twins_gets_bind:
  "(\<And>s. I s \<Longrightarrow> twins bad I (f (g s)) (f' (g s))) \<Longrightarrow> twins bad I (gets g \<bind> f) (gets g \<bind> f')"
  unfolding twins_def by (rule twinI) (auto dest!: twinD)

lemma twins_return [twin_rules]: "twins bad I (return a) (return a)"
  unfolding twins_def by (rule twinI) auto

lemma twins_gets [twin_rules]: "twins bad I (gets f) (gets f)"
  unfolding twins_def by (rule twinI) auto

lemma twins_bind [twin_rules]:
  "twins bad I m m' \<Longrightarrow> (\<And>a. twins bad I (f a) (f' a)) \<Longrightarrow> twins bad I (m \<bind> f) (m' \<bind> f')"
  unfolding twins_def by (rule twin_bind)

lemma twins_if [twin_rules]:
  "(b \<Longrightarrow> twins bad I m m') \<Longrightarrow> (\<not> b \<Longrightarrow> twins bad I n n') \<Longrightarrow> twins bad I (if b then m else n) (if b then m' else n')"
  by simp

lemma twins_when [twin_rules]: "(b \<Longrightarrow> twins bad I m m') \<Longrightarrow> twins bad I (whenM b m) (whenM b m')"
  by (simp add: whenM_def twins_return)

lemma twins_option [twin_rules]:
  "(x = None \<Longrightarrow> twins bad I m m') \<Longrightarrow> (\<And>a. x = Some a \<Longrightarrow> twins bad I (f a) (f' a)) \<Longrightarrow>
    twins bad I (case x of None \<Rightarrow> m | Some a \<Rightarrow> f a) (case x of None \<Rightarrow> m' | Some a \<Rightarrow> f' a)"
  by (cases x) simp_all

lemma twins_sum [twin_rules]:
  "(\<And>a. x = Inl a \<Longrightarrow> twins bad I (f a) (f' a)) \<Longrightarrow> (\<And>a. x = Inr a \<Longrightarrow> twins bad I (g a) (g' a)) \<Longrightarrow>
    twins bad I (case x of Inl a \<Rightarrow> f a | Inr a \<Rightarrow> g a) (case x of Inl a \<Rightarrow> f' a | Inr a \<Rightarrow> g' a)"
  by (cases x) simp_all

lemma twins_prod [twin_rules]:
  "(\<And>a b. x = (a, b) \<Longrightarrow> twins bad I (f a b) (f' a b)) \<Longrightarrow> twins bad I (case x of (a, b) \<Rightarrow> f a b) (case x of (a, b) \<Rightarrow> f' a b)"
  by (cases x) simp

lemma twins_Let [twin_rules]: "twins bad I (f x) (f' x) \<Longrightarrow> twins bad I (let y = x in f y) (let y = x in f' y)"
  by simp

lemma twins_each [twin_rules]: "(\<And>x. x \<in> set xs \<Longrightarrow> twins bad I (f x) (f' x)) \<Longrightarrow> twins bad I (each xs f) (each xs f')"
  by (induction xs) (auto intro!: twins_return twins_bind)

lemma twins_each_err [twin_rules]:
  "(\<And>x. x \<in> set xs \<Longrightarrow> twins bad I (f x) (f' x)) \<Longrightarrow> twins bad I (each_err xs f) (each_err xs f')"
  by (induction xs) (auto intro!: twins_return twins_bind twins_option)

lemma twins_each_acc [twin_rules]:
  "(\<And>b x. x \<in> set xs \<Longrightarrow> twins bad I (f b x) (f' b x)) \<Longrightarrow> twins bad I (each_acc xs b f) (each_acc xs b f')"
  by (induction xs arbitrary: b) (auto intro!: twins_return twins_bind)

lemma twins_or_return [twin_rules]:
  "twins bad I m m' \<Longrightarrow> twins bad I n n' \<Longrightarrow> twins bad I (or_return m n) (or_return m' n')"
  unfolding or_return_def by (intro twins_bind twins_option twins_return)

end
