(* ===== verification/CoreBase.thy ===== *)
theory CoreBase
  imports Gate ClosedOrders RoundTrip TrailPrice Protection StepMonad
begin

text \<open>
  The execution coordinator, \<open>internal/exec/core.go\<close>: its state, what it shares with the outside,
  and the operations every handler is built from. \<open>Core\<close> is one goroutine, so a handler is a
  computation in the state monad; what it starts elsewhere (a broker call in a goroutine, a demand
  lease, a log append) is an entry of \<open>cr_trace\<close>, newest first.

  The outside answers through \<open>cr_outside\<close>: whether an append succeeds and with which sequence
  number, the next client order ID, whether a demand lease is granted, the clock, and the order in
  which a \<open>range\<close> over a map visits its keys. The answers are numbered by \<open>cr_turn\<close>, the count of
  such calls so far, so nothing is assumed about them; the clock is read as often as the code
  likes between two such calls and shows whole milliseconds. Updates for the user interface
  (\<open>emit\<close>) and log lines (\<open>syslog\<close>, \<open>slog\<close>, \<open>logProtection\<close>) change no state of the core and are
  left out.
\<close>

section \<open>State\<close>

record capabilities =
  cb_flattenAll :: bool
  cb_overnightSession :: bool
  cb_resetBalance :: bool
  cb_marketOutsideRTH :: bool
  cb_calculatedDayPnL :: bool

record replace_request =
  rr_qty :: f64
  rr_limitPrice :: f64
  rr_stopPrice :: f64

text \<open>What the core starts outside itself; \<open>Logged\<close> is a successful append.\<close>

datatype effect =
    Logged event event_source
  | PostedOrder order_request bool
  | PostedChild order_request
  | SentCancel venue_id string
  | SentReplace venue_id string replace_request
  | SentFlatten venue_id
  | SentReset venue_id f64
  | AskedPositions venue_id "64 word"
  | AskedProtection venue_id "64 word"
  | AcquiredDemand string string
  | ReleasedDemand string
  | EnsuredBook string string
  | SavedCheckpoint cycle_checkpoint

text \<open>Which optional interfaces the demand controller has.\<close>

record demand =
  dm_trail :: bool
  dm_coverage :: bool
  dm_book :: bool

record outside =
  os_now :: "nat \<Rightarrow> int"
  os_append :: "nat \<Rightarrow> string + int"
  os_id :: "nat \<Rightarrow> string"
  os_acquire :: "nat \<Rightarrow> string option"
  os_coverage :: "nat \<Rightarrow> string \<Rightarrow> nat"
  os_cancel :: "nat \<Rightarrow> string option"
  os_range :: "nat \<Rightarrow> string list \<Rightarrow> string list"

record pending_protection =
  pn_print :: eligible_print
  pn_reference :: eligible_print
  pn_resume :: int
  pn_cycle :: string

record trail_cycle =
  cy_id :: string
  cy_long :: bool

record owned_exposure =
  ox_position :: f64
  ox_entries :: f64
  ox_exits :: f64
  ox_entryFills :: "(string, f64) gomap"

record trail_check =
  tc_before :: "(string, owned_exposure) gomap"
  tc_exits :: "(string, bool) gomap"
  tc_attempts :: int

record protection_check =
  pc_inFlight :: bool
  pc_verified :: bool
  pc_failed :: bool
  pc_revision :: "64 word"
  pc_nextMs :: int

record shutdown_summary =
  sd_paused :: int
  sd_cancelRequested :: int
  sd_unconfirmed :: int

record core =
  cr_tz :: tz
  cr_outside :: outside
  cr_turn :: nat
  cr_trace :: "effect list"
  cr_stuck :: bool
  cr_venues :: "venue_id list"
  cr_gate :: gate_config
  cr_brokers :: "(venue_id, capabilities) gomap"
  cr_startingBalance :: "(venue_id, f64) gomap"
  cr_state :: exec_state
  cr_marks :: "(string, f64) gomap"
  cr_trades :: trip_aggregator
  cr_positionOpens :: trip_aggregator
  cr_cycles :: cycle_projection
  cr_closed :: closed_orders
  cr_heldDemand :: "demand option"
  cr_printHealthy :: bool
  cr_lastPrintGapMs :: int
  cr_lastPrintSeq :: "(string, int) gomap"
  cr_lastPrintDay :: "(string, int) gomap"
  cr_lastEligible :: "(string, eligible_print) gomap"
  cr_protectionPrices :: "(string, protection_price) gomap"
  cr_protectionPending :: "(string, pending_protection) gomap"
  cr_protectionBooks :: "(string, bool) gomap"
  cr_trailBooks :: "(string, trail_book) gomap"
  cr_trailCycles :: "(venue_id \<times> string, trail_cycle) gomap"
  cr_trailCandles :: "(string, trail_candle) gomap"
  cr_trailBookGeneration :: nat
  cr_heldLiveIdentity :: "(venue_id, string) gomap"
  cr_heldLiveAck :: "(venue_id, string) gomap"
  cr_heldLiveLITAck :: "(venue_id, string) gomap"
  cr_shutdownHeld :: shutdown_summary
  cr_positionExecIDs :: "(string, bool) gomap"
  cr_protectionChecks :: "(venue_id, protection_check) gomap"
  cr_protectionRevision :: "(venue_id, 64 word) gomap"
  cr_trailPositionChecks :: "(venue_id, trail_check) gomap"

type_synonym 'a exec = "(core, 'a) state"

section \<open>The outside\<close>

definition now :: "core \<Rightarrow> int" where
  "now c = os_now (cr_outside c) (cr_turn c)"

definition next_turn :: "core \<Rightarrow> core" where
  "next_turn c = c\<lparr>cr_turn := cr_turn c + 1\<rparr>"

definition effect :: "effect \<Rightarrow> core \<Rightarrow> core" where
  "effect e c = c\<lparr>cr_trace := e # cr_trace c\<rparr>"

definition ask :: "(outside \<Rightarrow> nat \<Rightarrow> 'a) \<Rightarrow> 'a exec" where
  "ask f = do { r \<leftarrow> gets (\<lambda>c. f (cr_outside c) (cr_turn c)); modify next_turn; return r }"

definition start :: "effect \<Rightarrow> unit exec" where
  "start e = modify (effect e)"

definition next_id :: "string exec" where
  "next_id = ask os_id"

text \<open>The keys of a map in the order this \<open>range\<close> visits them.\<close>

definition range_keys :: "string list \<Rightarrow> string list exec" where
  "range_keys ks = do { f \<leftarrow> ask os_range; return (f ks) }"

section \<open>Reading the state\<close>

abbreviation st :: "core \<Rightarrow> exec_state" where "st \<equiv> cr_state"

definition upd :: "(exec_state \<Rightarrow> exec_state) \<Rightarrow> unit exec" where
  "upd f = modify (\<lambda>c. c\<lparr>cr_state := f (cr_state c)\<rparr>)"

text \<open>\<open>c.state.Venue(v)\<close> for a venue the state may not have yet.\<close>

definition touch :: "venue_id \<Rightarrow> venue_state exec" where
  "touch v = do { upd (\<lambda>s. snd (Venue s v)); gets (\<lambda>c. venue_at (st c) v) }"

definition the_order :: "core \<Rightarrow> string \<Rightarrow> exec_order" where
  "the_order c i = (case OrderVenue (st c) i of
     None \<Rightarrow> order0 | Some v \<Rightarrow> mget0 order0 (vs_orders (venue_at (st c) v)) i)"

definition held_none :: held_order where
  "held_none = \<lparr>h_trail = None, h_phase = HeldPhaseStr '''', h_deadlineMs = 0, h_resumeAfterMs = 0, h_childClientID = '''',
     h_childBrokerID = '''', h_pausedReason = '''', h_cancelRequested = False, h_cancelSent = False, h_resolvedQty = 0\<rparr>"

text \<open>\<open>*o.Held\<close>, read only where it is not nil.\<close>

definition held_of :: "exec_order \<Rightarrow> held_order" where
  "held_of o1 = (case o_held o1 of Some h \<Rightarrow> h | None \<Rightarrow> held_none)"

definition trail_of :: "exec_order \<Rightarrow> trail_state option" where
  "trail_of o1 = (case o_held o1 of Some h \<Rightarrow> h_trail h | None \<Rightarrow> None)"

definition phase_of :: "exec_order \<Rightarrow> held_phase" where
  "phase_of o1 = h_phase (held_of o1)"

text \<open>\<open>o.Held != nil && (Phase == WAITING || Phase == ARMED)\<close>, and actions still in doubt.\<close>

definition pretrigger :: "exec_order \<Rightarrow> bool" where
  "pretrigger o1 \<longleftrightarrow> o_held o1 \<noteq> None \<and> (phase_of o1 = HeldWaiting \<or> phase_of o1 = HeldArmed)"

definition unresolved :: "exec_order \<Rightarrow> bool" where
  "unresolved o1 \<longleftrightarrow> (case o_action o1 of None \<Rightarrow> False
     | Some a \<Rightarrow> a_phase a = ActionRequested \<or> a_phase a = ActionUnknown)"

definition unresolved_kind :: "action_kind \<Rightarrow> exec_order \<Rightarrow> bool" where
  "unresolved_kind k o1 \<longleftrightarrow> (case o_action o1 of None \<Rightarrow> False | Some a \<Rightarrow> action_pending k a)"

definition heldOrderIDs :: "core \<Rightarrow> string list" where
  "heldOrderIDs c = sort (concat (map (\<lambda>(_, vs). map fst (filter (\<lambda>(_, o1). o_held o1 \<noteq> None \<and> Working o1) (vs_orders vs)))
     (st_venues (st c))))"

definition venue_request :: "exec_order \<Rightarrow> order_request" where
  "venue_request o1 = \<lparr>r_venue = o_venue o1, r_symbol = o_symbol o1, r_side = o_side o1, r_type = TypeMarket, r_tif = TIFDay,
     r_session = SessionAuto, r_qty = 0, r_limitPrice = 0, r_stopPrice = 0, r_clientOrderID = ''''\<rparr>"

definition requiresReductionGuard :: "core \<Rightarrow> order_request \<Rightarrow> bool" where
  "requiresReductionGuard c req \<longleftrightarrow> r_side req = SideSell \<or> r_side req = SideCover \<or> reducesPosition (st c) req"

definition mark_of :: "core \<Rightarrow> mark_source" where
  "mark_of c = mget (cr_marks c)"

definition freshEligiblePrint :: "core \<Rightarrow> eligible_print \<Rightarrow> bool" where
  "freshEligiblePrint c p \<longleftrightarrow> ep_recvTsMs p > 0 \<and> now c - ep_recvTsMs p \<ge> 0 \<and> now c - ep_recvTsMs p \<le> eligiblePrintMaxAge"

text \<open>The shares a reducing order could still take, with the reason when it may not have its leaves.\<close>

definition sellLeavesShortfall :: string where
  "sellLeavesShortfall = ''sell quantity exceeds uncommitted long position''"

definition sellLeavesCheck :: "core \<Rightarrow> order_request \<Rightarrow> f64 \<Rightarrow> string \<Rightarrow> f64 \<times> string" where
  "sellLeavesCheck c req leaves excludeID =
     (if mhas (cr_trailPositionChecks c) (r_venue req)
      then (0, ''position attribution pending; reconcile orders and positions'')
      else if vs_flattenPending (venue_at (st c) (r_venue req))
      then (0, ''venue flatten is awaiting authoritative reconciliation'')
      else if \<not> PositionsReady (st c) (r_venue req)
      then (0, ''position data unavailable; reconcile the venue before selling'')
      else let shares = VenuePositionShares (st c) (r_venue req) (r_symbol req) in
           if longward (r_side req) \<and> shares \<ge> 0 then (0, ''no open short position to cover'')
           else if \<not> longward (r_side req) \<and> shares \<le> 0 then (0, ''no open long position to sell'')
           else let size = (if longward (r_side req) then - shares else shares);
                    available = go_max 0 (size - VenueReducingCommittedShares (st c) (r_venue req) (r_symbol req) (r_side req) excludeID)
                in if leaves > available + tiny then (available, sellLeavesShortfall) else (available, ''''))"

definition checkSellLeaves :: "core \<Rightarrow> order_request \<Rightarrow> f64 \<Rightarrow> string \<Rightarrow> bool \<times> string" where
  "checkSellLeaves c req leaves excludeID = (case sellLeavesCheck c req leaves excludeID of (_, why) \<Rightarrow> (why = '''', why))"

end
