(* ===== verification/CoreLog.thy ===== *)
theory CoreLog
  imports CoreBase
begin

text \<open>
  The writer's append-and-fold (\<open>core.go\<close>), what a fill does to positions and projections, and the
  small operations on held orders that call no other handler (\<open>held_lifecycle.go\<close>,
  \<open>trailing.go\<close>, \<open>trailing_cycles.go\<close>, \<open>risk_entry.go\<close>, \<open>risk_add.go\<close>, \<open>protective_price.go\<close>).
\<close>

section \<open>Position effects\<close>

definition positionExecKey :: "venue_id \<Rightarrow> string \<Rightarrow> string" where
  "positionExecKey v i = v @ [CHR 0x00] @ i"

record position_effect =
  px_venue :: venue_id
  px_symbol :: string
  px_side :: side
  px_qty :: f64
  px_price :: f64
  px_execID :: string

text \<open>The position after an effect.\<close>

definition moved_position :: "position_effect \<Rightarrow> exec_position \<Rightarrow> exec_position" where
  "moved_position e p0 =
     (let delta = (if longward (px_side e) then px_qty e else - px_qty e);
          newQty = p_qty p0 + delta;
          p1 = (if feq (p_qty p0) 0 \<or> p_qty p0 * newQty < 0 then p0\<lparr>p_avgPrice := px_price e\<rparr>
                else if p_qty p0 * delta > 0
                then p0\<lparr>p_avgPrice := (\<bar>p_qty p0\<bar> * p_avgPrice p0 + \<bar>delta\<bar> * px_price e) / \<bar>newQty\<bar>\<rparr>
                else p0)
      in p1\<lparr>p_venue := px_venue e, p_symbol := px_symbol e, p_qty := newQty\<rparr>)"

definition move_position :: "position_effect \<Rightarrow> exec_state \<Rightarrow> exec_state" where
  "move_position e s = modify_venue (px_venue e) (\<lambda>vs.
     let p = moved_position e (mget0 position0 (vs_positions vs) (px_symbol e))
     in if feq (p_qty p) 0 then vs\<lparr>vs_positions := mdel (px_symbol e) (vs_positions vs)\<rparr>
        else vs\<lparr>vs_positions := mput (px_symbol e) p (vs_positions vs)\<rparr>) s"

definition seen_exec :: "venue_id \<Rightarrow> string \<Rightarrow> core \<Rightarrow> bool" where
  "seen_exec v i c = mget0 False (cr_positionExecIDs c) (positionExecKey v i)"

definition mark_exec :: "venue_id \<Rightarrow> string \<Rightarrow> core \<Rightarrow> core" where
  "mark_exec v i c = c\<lparr>cr_positionExecIDs := mput (positionExecKey v i) True (cr_positionExecIDs c)\<rparr>"

definition applyPositionEffect :: "position_effect \<Rightarrow> bool exec" where
  "applyPositionEffect e = do {
     skip \<leftarrow> gets (\<lambda>c. \<not> PositionsReady (st c) (px_venue e) \<or> px_symbol e = '''' \<or> px_qty e \<le> 0);
     seen \<leftarrow> gets (\<lambda>c. px_execID e \<noteq> '''' \<and> seen_exec (px_venue e) (px_execID e) c);
     if skip \<or> seen then return False
     else do {
       whenM (px_execID e \<noteq> '''') (modify (mark_exec (px_venue e) (px_execID e)));
       pending \<leftarrow> gets (\<lambda>c. mhas (cr_trailPositionChecks c) (px_venue e));
       if pending then return False
       else do { upd (move_position e); return True }
     }
   }"

definition applyPositionFill :: "exec_fill \<Rightarrow> f64 \<Rightarrow> string \<Rightarrow> exec_order \<Rightarrow> bool \<Rightarrow> unit exec" where
  "applyPositionFill f cum execID prior hadPrior = do {
     skip \<leftarrow> gets (\<lambda>c. \<not> PositionsReady (st c) (f_venue f) \<or> f_symbol f = '''' \<or> \<not> hadPrior \<or> cum \<le> o_executedQty prior);
     seen \<leftarrow> gets (\<lambda>c. execID \<noteq> '''' \<and> seen_exec (f_venue f) execID c);
     if skip \<or> seen then return ()
     else do {
       whenM (execID \<noteq> '''') (modify (mark_exec (f_venue f) execID));
       pending \<leftarrow> gets (\<lambda>c. mhas (cr_trailPositionChecks c) (f_venue f));
       whenM (\<not> pending) (do {
         applyPositionEffect \<lparr>px_venue = f_venue f, px_symbol = f_symbol f, px_side = f_side f,
           px_qty = cum - o_executedQty prior, px_price = f_price f, px_execID = ''''\<rparr>;
         return ()
       })
     }
   }"

section \<open>Append and fold\<close>

text \<open>\<open>emitForEvent\<close>: the projections a fill feeds; what it emits is left out.\<close>

definition project_fill :: "exec_fill \<Rightarrow> core \<Rightarrow> core" where
  "project_fill f c = c\<lparr>cr_positionOpens := Trip_fill (cr_positionOpens c) f,
     cr_cycles := cycle_applyFill (cr_cycles c) f, cr_trades := Trip_fill (cr_trades c) f\<rparr>"

definition emitForEvent :: "event \<Rightarrow> unit exec" where
  "emitForEvent ev = (case ev of OrderFilled f _ _ _ _ \<Rightarrow> modify (project_fill f) | _ \<Rightarrow> return ())"

definition bump_revision :: "venue_id \<Rightarrow> core \<Rightarrow> core" where
  "bump_revision v c = c\<lparr>cr_protectionRevision := mput v (mget0 0 (cr_protectionRevision c) v + 1) (cr_protectionRevision c)\<rparr>"

text \<open>The fold of an event the log has taken.\<close>

definition fold_event :: "event \<Rightarrow> event_source \<Rightarrow> core \<Rightarrow> core" where
  "fold_event ev src c = c\<lparr>cr_state := Apply (cr_state c) ev, cr_trace := Logged ev src # cr_trace c\<rparr>"

definition closed_event :: "event \<Rightarrow> int \<Rightarrow> core \<Rightarrow> core" where
  "closed_event ev seq c = c\<lparr>cr_closed := snd (closed_apply ev seq (cr_closed c))\<rparr>"

definition fill_positions :: "event \<Rightarrow> exec_order \<Rightarrow> bool \<Rightarrow> unit exec" where
  "fill_positions ev prior hadPrior = (case ev of
     OrderFilled f cum _ _ execID \<Rightarrow> applyPositionFill f cum execID prior hadPrior | _ \<Rightarrow> return ())"

text \<open>The result is the append's error, \<open>None\<close> for nil.\<close>

definition appendAndFold :: "event \<Rightarrow> event_source \<Rightarrow> string option exec" where
  "appendAndFold ev src = do {
     r \<leftarrow> ask os_append;
     case r of
       Inl err \<Rightarrow> return (Some err)
     | Inr seq \<Rightarrow> do {
         prior \<leftarrow> gets (\<lambda>c. case ev of OrderFilled f _ _ _ _ \<Rightarrow> the_order c (f_orderID f) | _ \<Rightarrow> order0);
         hadPrior \<leftarrow> gets (\<lambda>c. case ev of OrderFilled f _ _ _ _ \<Rightarrow> OrderVenue (st c) (f_orderID f) \<noteq> None | _ \<Rightarrow> False);
         modify (fold_event ev src);
         modify (bump_revision (Event_Venue ev));
         fill_positions ev prior hadPrior;
         modify (closed_event ev seq);
         emitForEvent ev;
         return None
       }
   }"

text \<open>An append whose error is only logged.\<close>

definition append_quiet :: "event \<Rightarrow> event_source \<Rightarrow> unit exec" where
  "append_quiet ev src = do { _ \<leftarrow> appendAndFold ev src; return () }"

section \<open>Risk plans\<close>

definition riskOwner :: "core \<Rightarrow> exec_order \<Rightarrow> exec_order" where
  "riskOwner c o1 = (case o_riskEntry o1 of
     Some r \<Rightarrow> if re_sharedEntryID r \<noteq> '''' then the_order c (re_sharedEntryID r) else o1
   | None \<Rightarrow> if o_riskEntryID o1 \<noteq> '''' then the_order c (o_riskEntryID o1) else order0)"

definition riskMembers :: "core \<Rightarrow> exec_order \<Rightarrow> exec_order list" where
  "riskMembers c owner = owner # filter (\<lambda>o1. case o_riskEntry o1 of
       Some r \<Rightarrow> re_sharedEntryID r = o_id owner | None \<Rightarrow> False) (map snd (vs_orders (venue_at (st c) (o_venue owner))))"

definition riskFilledQty :: "core \<Rightarrow> exec_order \<Rightarrow> f64" where
  "riskFilledQty c owner = fsum (map o_executedQty (riskMembers c owner))"

definition persistRisk :: "exec_order \<Rightarrow> risk_entry \<Rightarrow> string option exec" where
  "persistRisk entry risk = do {
     ts \<leftarrow> gets now;
     stop \<leftarrow> gets (\<lambda>c. the_order c (re_stopID risk));
     appendAndFold (RiskEntryChanged (entry\<lparr>o_riskEntry := Some risk, o_updatedMs := ts\<rparr>) stop) SrcLocal
   }"

definition riskAccountFresh :: "exec_state \<Rightarrow> venue_id \<Rightarrow> bool" where
  "riskAccountFresh s v = (case mget (st_accountFresh s) v of Some fresh \<Rightarrow> fresh | None \<Rightarrow> True)"

section \<open>Held orders\<close>

definition protectiveOrder :: "core \<Rightarrow> exec_order \<Rightarrow> bool" where
  "protectiveOrder c o1 \<longleftrightarrow> o_held o1 \<noteq> None \<and> o_type o1 \<noteq> TypeLimitIfTouched \<and>
     (trail_of o1 \<noteq> None \<or> o_side o1 = SideSell \<or> o_side o1 = SideCover \<or> o_riskEntryID o1 \<noteq> '''' \<or>
      o_deferredPositionPct o1 > 0 \<or> reducesPosition (st c) (venue_request o1))"

definition changeHeld :: "exec_order \<Rightarrow> held_phase \<Rightarrow> string \<Rightarrow> bool \<Rightarrow> unit exec" where
  "changeHeld o1 phase reason cancelRequested = (case o_held o1 of
     None \<Rightarrow> return ()
   | Some h \<Rightarrow> do {
       ts \<leftarrow> gets now;
       append_quiet (HeldOrderChanged (o_venue o1) (o_id o1)
         (h\<lparr>h_phase := phase, h_pausedReason := reason, h_cancelRequested := cancelRequested\<rparr>) ts) SrcLocal
     })"

definition forget_order :: "string \<Rightarrow> core \<Rightarrow> core" where
  "forget_order i c = c\<lparr>cr_protectionPending := mdel i (cr_protectionPending c),
     cr_protectionBooks := mdel i (cr_protectionBooks c)\<rparr>"

definition forget_prices :: "string \<Rightarrow> core \<Rightarrow> core" where
  "forget_prices symbol c = c\<lparr>cr_protectionPrices := mdel symbol (cr_protectionPrices c)\<rparr>"

definition releaseHeld :: "string \<Rightarrow> unit exec" where
  "releaseHeld i = do {
     symbol \<leftarrow> gets (\<lambda>c. o_symbol (the_order c i));
     keep \<leftarrow> gets (\<lambda>c. list_ex (\<lambda>k. k \<noteq> i \<and> o_symbol (the_order c k) = symbol \<and> protectiveOrder c (the_order c k)) (heldOrderIDs c));
     whenM (\<not> keep) (modify (forget_prices symbol));
     modify (forget_order i);
     d \<leftarrow> gets cr_heldDemand;
     whenM (d \<noteq> None) (start (ReleasedDemand i))
   }"

definition expireHeld :: "exec_order \<Rightarrow> unit exec" where
  "expireHeld o1 = do {
     ts \<leftarrow> gets now;
     err \<leftarrow> appendAndFold (OrderExpired (o_venue o1) (o_id o1) ts) SrcLocal;
     whenM (err = None) (releaseHeld (o_id o1))
   }"

text \<open>\<open>OrderAction{Kind: ActionCancel, Phase: ActionRequested, PreviousLimitPrice, PreviousStopPrice}\<close>\<close>

definition action0 :: order_action where
  "action0 = \<lparr>a_kind = ActionKindStr '''', a_phase = ActionPhaseStr '''', a_previousLimitPrice = 0, a_previousStopPrice = 0,
     a_requestedLimitPrice = 0, a_requestedStopPrice = 0, a_requestedQty = 0, a_reason = ''''\<rparr>"

definition cancel_action :: "exec_order \<Rightarrow> order_action" where
  "cancel_action o1 = action0\<lparr>a_kind := ActionCancel, a_phase := ActionRequested,
     a_previousLimitPrice := o_limitPrice o1, a_previousStopPrice := o_stopPrice o1\<rparr>"

definition startVenueAction :: "venue_id \<Rightarrow> string \<Rightarrow> action_kind \<Rightarrow> replace_request \<Rightarrow> unit exec" where
  "startVenueAction v i kind req = start (if kind = ActionCancel then SentCancel v i else SentReplace v i req)"

definition no_replace :: replace_request where
  "no_replace = \<lparr>rr_qty = 0, rr_limitPrice = 0, rr_stopPrice = 0\<rparr>"

definition requestHeldVenueCancel :: "exec_order \<Rightarrow> string \<Rightarrow> unit exec" where
  "requestHeldVenueCancel o1 reason =
     (if o_held o1 = None \<or> unresolved_kind ActionCancel o1 then return ()
      else do {
        ts \<leftarrow> gets now;
        err \<leftarrow> appendAndFold (OrderActionChanged (o_venue o1) (o_id o1) (cancel_action o1) ts) SrcLocal;
        whenM (err = None) (do {
          let h = (held_of o1)\<lparr>h_phase := HeldCancelRequested, h_pausedReason := reason, h_cancelRequested := True\<rparr>;
          let h = (if phase_of o1 \<noteq> HeldActivating then h\<lparr>h_cancelSent := True\<rparr> else h);
          ts \<leftarrow> gets now;
          append_quiet (HeldOrderChanged (o_venue o1) (o_id o1) h ts) SrcLocal;
          whenM (phase_of o1 \<noteq> HeldActivating) (do {
            b \<leftarrow> gets (\<lambda>c. mget (cr_brokers c) (o_venue o1));
            ts \<leftarrow> gets now;
            if b \<noteq> None then startVenueAction (o_venue o1) (o_id o1) ActionCancel no_replace
            else append_quiet (OrderActionChanged (o_venue o1) (o_id o1)
              ((cancel_action o1)\<lparr>a_phase := ActionUnknown, a_reason := ''venue unavailable''\<rparr>) ts) SrcLocal
          })
        })
      })"

definition pauseHeldVenue :: "venue_id \<Rightarrow> string \<Rightarrow> unit exec" where
  "pauseHeldVenue v reason = do {
     ids \<leftarrow> gets heldOrderIDs;
     each ids (\<lambda>i. do {
       o1 \<leftarrow> gets (\<lambda>c. the_order c i);
       whenM (o_venue o1 = v \<and> pretrigger o1) (changeHeld o1 HeldPaused reason False)
     })
   }"

definition pauseHeldReducingVenue :: "venue_id \<Rightarrow> string \<Rightarrow> unit exec" where
  "pauseHeldReducingVenue v reason = do {
     ids \<leftarrow> gets heldOrderIDs;
     each ids (\<lambda>i. do {
       o1 \<leftarrow> gets (\<lambda>c. the_order c i);
       guarded \<leftarrow> gets (\<lambda>c. requiresReductionGuard c (venue_request o1));
       whenM (o_venue o1 = v \<and> guarded \<and> pretrigger o1) (changeHeld o1 HeldPaused reason False)
     })
   }"

text \<open>\<open>heldGate\<close>: the gate on a copy of the state without the order itself.\<close>

definition without_order :: "venue_id \<Rightarrow> string \<Rightarrow> exec_state \<Rightarrow> exec_state" where
  "without_order v i s =
     (let vs = venue_at s v;
          s1 = put_venue v (vs\<lparr>vs_orders := filter (\<lambda>(k, _). k \<noteq> i) (vs_orders vs)\<rparr>) s
      in s1\<lparr>st_orderIndex := filter (\<lambda>(k, _). k \<noteq> i) (st_orderIndex s1)\<rparr>)"

definition heldGate :: "core \<Rightarrow> order_request \<Rightarrow> string \<Rightarrow> bool \<times> string" where
  "heldGate c req i =
     (let o1 = the_order c i;
          exempt = ((o_riskEntryID o1 \<noteq> '''' \<or> trail_of o1 \<noteq> None) \<and>
                    (r_side req = SideSell \<or> r_side req = SideCover) \<and> reducesPosition (st c) req);
          s = (if exempt then (st c)\<lparr>st_masterArmed := True\<rparr> else st c);
          gate = (if exempt then (cr_gate c)\<lparr>gc_global := (gc_global (cr_gate c))\<lparr>gl_maxDayLoss := 0\<rparr>\<rparr> else cr_gate c);
          s1 = without_order (r_venue req) i s
      in if feq (r_qty req) 0 then EvaluateDeferredAdmission s1 gate req
         else Evaluate s1 gate req (mark_of c))"

section \<open>Trails\<close>

definition saveTrail :: "exec_order \<Rightarrow> trail_state \<Rightarrow> held_phase \<Rightarrow> string \<Rightarrow> string option exec" where
  "saveTrail o1 t phase reason = do {
     ts \<leftarrow> gets now;
     appendAndFold (HeldOrderChanged (o_venue o1) (o_id o1)
       ((held_of o1)\<lparr>h_trail := Some t, h_phase := phase, h_pausedReason := reason\<rparr>) ts) SrcLocal
   }"

definition drop_cycle :: "venue_id \<times> string \<Rightarrow> core \<Rightarrow> core" where
  "drop_cycle key c = c\<lparr>cr_trailCycles := mdel key (cr_trailCycles c)\<rparr>"

definition put_cycle :: "venue_id \<times> string \<Rightarrow> trail_cycle \<Rightarrow> core \<Rightarrow> core" where
  "put_cycle key y c = c\<lparr>cr_trailCycles := mput key y (cr_trailCycles c)\<rparr>"

definition trailPositionCycle :: "venue_id \<Rightarrow> string \<Rightarrow> string exec" where
  "trailPositionCycle v symbol = do {
     qty \<leftarrow> gets (\<lambda>c. VenuePositionShares (st c) v symbol);
     ready \<leftarrow> gets (\<lambda>c. PositionsReady (st c) v);
     if \<not> ready \<or> feq qty 0 then do { modify (drop_cycle (v, symbol)); return '''' }
     else do {
       cycle \<leftarrow> gets (\<lambda>c. mget (cr_trailCycles c) (v, symbol));
       if (case cycle of None \<Rightarrow> True | Some y \<Rightarrow> cy_long y \<noteq> (qty > 0))
       then do {
         i \<leftarrow> next_id;
         modify (put_cycle (v, symbol) \<lparr>cy_id = i, cy_long = (qty > 0)\<rparr>);
         return i
       }
       else return (case cycle of Some y \<Rightarrow> cy_id y | None \<Rightarrow> '''')
     }
   }"

definition syncTrailPositionCycles :: "unit exec" where
  "syncTrailPositionCycles = do {
     keys \<leftarrow> gets (\<lambda>c. map fst (cr_trailCycles c));
     each keys (\<lambda>(v, symbol). do { _ \<leftarrow> trailPositionCycle v symbol; return () })
   }"

section \<open>Protective evidence\<close>

definition coverage_of :: "core \<Rightarrow> (string \<Rightarrow> nat) option" where
  "coverage_of c = (case cr_heldDemand c of
     Some d \<Rightarrow> if dm_coverage d then Some (os_coverage (cr_outside c) (cr_turn c)) else None | None \<Rightarrow> None)"

definition core_book :: "core \<Rightarrow> string \<Rightarrow> trail_book \<times> bool" where
  "core_book c symbol = protectionBook (now c) (cr_trailBooks c) (coverage_of c) symbol"

definition price_accepted :: "eligible_print \<Rightarrow> bool exec" where
  "price_accepted p = do {
     r \<leftarrow> gets (\<lambda>c. protectionPriceAccepted (now c) (core_book c (ep_symbol p)) (cr_lastEligible c) p (cr_protectionPrices c));
     modify (\<lambda>c. c\<lparr>cr_protectionPrices := snd r\<rparr>);
     return (fst r)
   }"

definition observe_price :: "eligible_print \<Rightarrow> unit exec" where
  "observe_price p = modify (\<lambda>c. c\<lparr>cr_protectionPrices := mput (ep_symbol p)
     (observeProtectionPrice (now c) (core_book c (ep_symbol p)) p
        (mget0 protection_price0 (cr_protectionPrices c) (ep_symbol p))) (cr_protectionPrices c)\<rparr>)"

definition requestProtectionBook :: "exec_order \<Rightarrow> unit exec" where
  "requestProtectionBook o1 = do {
     wanted \<leftarrow> gets (\<lambda>c. protectiveOrder c o1 \<and> \<not> mget0 False (cr_protectionBooks c) (o_id o1));
     d \<leftarrow> gets cr_heldDemand;
     whenM (wanted \<and> (case d of Some x \<Rightarrow> dm_book x | None \<Rightarrow> False)) (do {
       start (EnsuredBook (o_id o1) (o_symbol o1));
       modify (\<lambda>c. c\<lparr>cr_protectionBooks := mput (o_id o1) True (cr_protectionBooks c)\<rparr>)
     })
   }"

definition protectionCanWait :: "core \<Rightarrow> exec_order \<Rightarrow> bool" where
  "protectionCanWait c o1 \<longleftrightarrow>
     Working o1 \<and> pretrigger o1 \<and> \<not> h_cancelRequested (held_of o1) \<and>
     (o_riskEntryID o1 = '''' \<or>
      (case o_riskEntry (riskOwner c o1) of None \<Rightarrow> False
       | Some r \<Rightarrow> \<not> re_protectionCanceled r \<and> re_failure r = '''' \<and> \<not> o_qty o1 \<le> 0)) \<and>
     (case trail_of o1 of None \<Rightarrow> True | Some t \<Rightarrow> \<not> t_retired t \<and> \<not> t_triggered t)"

definition put_pending :: "string \<Rightarrow> pending_protection \<Rightarrow> core \<Rightarrow> core" where
  "put_pending i a c = c\<lparr>cr_protectionPending := mput i a (cr_protectionPending c)\<rparr>"

definition drop_pending :: "string \<Rightarrow> core \<Rightarrow> core" where
  "drop_pending i c = c\<lparr>cr_protectionPending := mdel i (cr_protectionPending c)\<rparr>"

definition deferProtection :: "exec_order \<Rightarrow> eligible_print \<Rightarrow> unit exec" where
  "deferProtection o1 p = do {
     ok \<leftarrow> gets (\<lambda>c. protectionCanWait c o1);
     already \<leftarrow> gets (\<lambda>c. case mget (cr_protectionPending c) (o_id o1) of None \<Rightarrow> False
       | Some a \<Rightarrow> pn_resume a = h_resumeAfterMs (held_of o1) \<and>
                   StopLimitTriggered (o_side o1) (ep_price (pn_print a)) (o_stopPrice o1));
     whenM (ok \<and> StopLimitTriggered (o_side o1) (ep_price p) (o_stopPrice o1) \<and> \<not> already) (do {
       cycle \<leftarrow> trailPositionCycle (o_venue o1) (o_symbol o1);
       reference \<leftarrow> gets (\<lambda>c. case mget (cr_protectionPrices c) (o_symbol o1) of Some s \<Rightarrow> pp_reference s | None \<Rightarrow> print0);
       modify (put_pending (o_id o1) \<lparr>pn_print = p, pn_reference = reference,
         pn_resume = h_resumeAfterMs (held_of o1), pn_cycle = cycle\<rparr>)
     })
   }"

definition validProtection :: "exec_order \<Rightarrow> pending_protection \<Rightarrow> bool exec" where
  "validProtection o1 a = do {
     ok \<leftarrow> gets (\<lambda>c. protectionCanWait c o1 \<and> h_resumeAfterMs (held_of o1) = pn_resume a \<and>
        StopLimitTriggered (o_side o1) (ep_price (pn_print a)) (o_stopPrice o1));
     if \<not> ok then return False
     else do {
       cycle \<leftarrow> trailPositionCycle (o_venue o1) (o_symbol o1);
       gets (\<lambda>c. cycle = pn_cycle a \<and> protectiveOrder c o1)
     }
   }"

section \<open>Venue switches\<close>

definition setPositionsReady :: "venue_id \<Rightarrow> bool \<Rightarrow> unit exec" where
  "setPositionsReady v ready = do {
     same \<leftarrow> gets (\<lambda>c. PositionsReady (st c) v = ready);
     whenM (\<not> same) (upd (SetPositionsReady v ready))
   }"

definition maybeClearFlattenPending :: "venue_id \<Rightarrow> unit exec" where
  "maybeClearFlattenPending v = do {
     vs \<leftarrow> touch v;
     flat \<leftarrow> gets (\<lambda>c. FlattenReconciled (st c) v);
     ts \<leftarrow> gets now;
     whenM (vs_flattenPending vs \<and> flat) (append_quiet (FlattenPendingChanged v False ts) SrcReconcile)
   }"

definition confirmSellSubmit :: "venue_id \<Rightarrow> string \<Rightarrow> unit exec" where
  "confirmSellSubmit v i = do {
     o1 \<leftarrow> gets (\<lambda>c. the_order c i);
     ts \<leftarrow> gets now;
     whenM (Working o1 \<and> o_venue o1 = v \<and> unresolved_kind ActionSubmit o1)
       (append_quiet (OrderActionChanged v i
          ((case o_action o1 of Some a \<Rightarrow> a | None \<Rightarrow> action0)\<lparr>a_phase := ActionConfirmed, a_reason := ''''\<rparr>) ts) SrcReconcile)
   }"

end
