(* ===== verification/CoreHeld.thy ===== *)
theory CoreHeld
  imports CoreLog
begin

text \<open>
  The handlers that call each other: cancels (\<open>handleCancel\<close>), protection sync
  (\<open>syncRiskProtection\<close>), activation (\<open>activateHeld\<close>) and the trail (\<open>advanceTrailPrice\<close>,
  \<open>retireTrail\<close>, \<open>rejectTrail\<close>, \<open>activateTrailQuote\<close>); \<open>held_lifecycle.go\<close>, \<open>risk_entry.go\<close>,
  \<open>risk_add.go\<close>, \<open>trailing.go\<close>, \<open>protective_price.go\<close>.

  The recursion is open: every handler takes the two it may reach again, \<open>handleCancel\<close> and
  \<open>syncRiskProtection\<close>, as a record \<open>calls\<close>, and \<open>knot\<close> ties them, \<open>knot n\<close> allowing nested calls
  to depth \<open>n\<close>; \<open>cr_stuck\<close> records that a call met the bottom.
\<close>

section \<open>Acknowledgements\<close>

text \<open>A reason is a text, a validation error, or one of the two formatted texts of a stop that may not
  be dragged through the price: \<open>stop stays at $%g: %s\<close>, with \<open>%g shares needed, %g available\<close>.\<close>

datatype ack_reason = Why string | BadRequest request_error
  | StopStays f64 string | StopShort f64 f64 f64

record cmd_ack =
  ak_accepted :: bool
  ak_reason :: ack_reason
  ak_orderID :: string

definition acked :: "string \<Rightarrow> cmd_ack" where
  "acked i = \<lparr>ak_accepted = True, ak_reason = Why '''', ak_orderID = i\<rparr>"

definition nacked :: "string \<Rightarrow> string \<Rightarrow> cmd_ack" where
  "nacked why i = \<lparr>ak_accepted = False, ak_reason = Why why, ak_orderID = i\<rparr>"

record calls =
  k_cancel :: "venue_id \<Rightarrow> string \<Rightarrow> cmd_ack exec"
  k_sync :: "exec_order \<Rightarrow> bool \<Rightarrow> unit exec"

section \<open>Ending a plan\<close>

definition cancelRiskBuys :: "calls \<Rightarrow> exec_order \<Rightarrow> string \<Rightarrow> unit exec" where
  "cancelRiskBuys K owner reason = do {
     members \<leftarrow> gets (\<lambda>c. riskMembers c owner);
     each members (\<lambda>entry.
       if \<not> Working entry \<or> o_held entry = None then return ()
       else if h_childClientID (held_of entry) = ''''
       then do { _ \<leftarrow> k_cancel K (o_venue entry) (o_id entry); return () }
       else do {
         current \<leftarrow> gets (\<lambda>c. the_order c (o_id entry));
         requestHeldVenueCancel current reason
       })
   }"

definition failRisk :: "calls \<Rightarrow> exec_order \<Rightarrow> string \<Rightarrow> unit exec" where
  "failRisk K entry0 reason = do {
     entry \<leftarrow> gets (\<lambda>c. riskOwner c entry0);
     case o_riskEntry entry of
       None \<Rightarrow> return ()
     | Some risk \<Rightarrow> do {
         err \<leftarrow> persistRisk entry (risk\<lparr>re_failure := reason\<rparr>);
         whenM (err = None) (cancelRiskBuys K entry ''protection failed'')
       }
   }"

definition beginRiskExit :: "calls \<Rightarrow> exec_order \<Rightarrow> bool exec" where
  "beginRiskExit K entry = (case o_riskEntry entry of
     None \<Rightarrow> return True
   | Some risk \<Rightarrow>
       if re_closing risk then return True
       else do {
         err \<leftarrow> persistRisk entry (risk\<lparr>re_closing := True\<rparr>);
         if err \<noteq> None then return False
         else do {
           cancelRiskBuys K entry ''linked stop triggered; cancel remaining buy'';
           return True
         }
       })"

definition cancelRiskProtection :: "calls \<Rightarrow> exec_order \<Rightarrow> string option exec" where
  "cancelRiskProtection K entry0 = do {
     entry \<leftarrow> gets (\<lambda>c. riskOwner c entry0);
     case o_riskEntry entry of
       None \<Rightarrow> return None
     | Some risk \<Rightarrow> do {
         err \<leftarrow> persistRisk entry (risk\<lparr>re_protectionCanceled := True\<rparr>);
         if err \<noteq> None then return err
         else do {
           cancelRiskBuys K entry ''protection canceled'';
           ks \<leftarrow> gets (\<lambda>c. map fst (vs_orders (venue_at (st c) (o_venue entry))));
           ks \<leftarrow> range_keys ks;
           each ks (\<lambda>k. do {
             exit \<leftarrow> gets (\<lambda>c. mget0 order0 (vs_orders (venue_at (st c) (o_venue entry))) k);
             whenM (o_riskEntryID exit = o_id entry \<and> Working exit)
               (do { _ \<leftarrow> k_cancel K (o_venue exit) (o_id exit); return () })
           });
           return None
         }
       }
   }"

section \<open>Ending a trail\<close>

definition retireTrail :: "calls \<Rightarrow> exec_order \<Rightarrow> string \<Rightarrow> unit exec" where
  "retireTrail K o0 reason = (case trail_of o0 of
     None \<Rightarrow> return ()
   | Some t \<Rightarrow> do {
       err \<leftarrow> saveTrail o0 (t\<lparr>t_retired := True\<rparr>) (phase_of o0) reason;
       whenM (err = None) (do {
         o1 \<leftarrow> gets (\<lambda>c. the_order c (o_id o0));
         entry \<leftarrow> gets (\<lambda>c. riskOwner c o1);
         whenM (o_riskEntry entry \<noteq> None) (cancelRiskBuys K entry reason);
         if h_childClientID (held_of o1) \<noteq> '''' then requestHeldVenueCancel o1 reason
         else do {
           ts \<leftarrow> gets now;
           err \<leftarrow> appendAndFold (OrderCanceled (o_venue o1) (o_id o1) ts) SrcLocal;
           whenM (err = None) (releaseHeld (o_id o1))
         }
       })
     })"

definition rejectTrail :: "calls \<Rightarrow> exec_order \<Rightarrow> string \<Rightarrow> unit exec" where
  "rejectTrail K o1 reason = do {
     ts \<leftarrow> gets now;
     err \<leftarrow> appendAndFold (OrderRejected (o_venue o1) (o_id o1) (''trailing protection: '' @ reason) ts) SrcLocal;
     whenM (err = None) (do {
       releaseHeld (o_id o1);
       entry \<leftarrow> gets (\<lambda>c. riskOwner c o1);
       whenM (o_riskEntry entry \<noteq> None) (failRisk K entry (''trailing protection rejected: '' @ reason))
     })
   }"

section \<open>Activation\<close>

text \<open>\<open>activateHeld\<close> from the position checks to the POST of the child LIMIT.\<close>

definition reject_held :: "exec_order \<Rightarrow> string \<Rightarrow> unit exec" where
  "reject_held o1 reason = do {
     ts \<leftarrow> gets now;
     append_quiet (OrderRejected (o_venue o1) (o_id o1) reason ts) SrcLocal;
     releaseHeld (o_id o1)
   }"

definition child_request :: "exec_order \<Rightarrow> order_request" where
  "child_request o1 = \<lparr>r_venue = o_venue o1, r_symbol = o_symbol o1, r_side = o_side o1, r_type = TypeLimit, r_tif = o_tif o1,
     r_session = o_session o1, r_qty = o_leavesQty o1, r_limitPrice = o_limitPrice o1, r_stopPrice = 0,
     r_clientOrderID = o_id o1\<rparr>"

definition activated_held :: "exec_order \<Rightarrow> f64 \<Rightarrow> held_order" where
  "activated_held o1 qty =
     (let h = (held_of o1)\<lparr>h_phase := HeldActivating, h_pausedReason := '''', h_cancelRequested := False\<rparr>;
          h = (if o_deferredPositionPct o1 > 0 then h\<lparr>h_resolvedQty := qty\<rparr> else h)
      in h\<lparr>h_childClientID := o_id o1\<rparr>)"

definition post_child :: "exec_order \<Rightarrow> order_request \<Rightarrow> unit exec" where
  "post_child o1 child = do {
     guarded \<leftarrow> gets (\<lambda>c. requiresReductionGuard c child);
     leaves \<leftarrow> gets (\<lambda>c. checkSellLeaves c child (r_qty child) (o_id o1));
     if guarded \<and> \<not> fst leaves then reject_held o1 (''trigger gate: '' @ snd leaves)
     else do {
       verdict \<leftarrow> gets (\<lambda>c. heldGate c child (o_id o1));
       if \<not> fst verdict then reject_held o1 (''trigger gate: '' @ snd verdict)
       else do {
         ts \<leftarrow> gets now;
         err \<leftarrow> appendAndFold (HeldOrderChanged (o_venue o1) (o_id o1) (activated_held o1 (r_qty child)) ts) SrcLocal;
         case err of
           Some w \<Rightarrow> return ()
         | None \<Rightarrow> do {
             b \<leftarrow> gets (\<lambda>c. mget (cr_brokers c) (o_venue o1));
             whenM (b \<noteq> None) (start (PostedChild child))
           }
       }
     }
   }"

definition activate_child :: "exec_order \<Rightarrow> unit exec" where
  "activate_child o1 = do {
     reducing \<leftarrow> gets (\<lambda>c. o_side o1 = SideSell \<or> o_side o1 = SideCover);
     ready \<leftarrow> gets (\<lambda>c. PositionsReady (st c) (o_venue o1));
     pending \<leftarrow> gets (\<lambda>c. vs_flattenPending (venue_at (st c) (o_venue o1)));
     if reducing \<and> \<not> ready then changeHeld o1 HeldPaused ''position data unavailable; reconcile and resume manually'' False
     else if reducing \<and> pending
     then changeHeld o1 HeldPaused ''venue flatten is awaiting authoritative reconciliation; resume manually'' False
     else if o_deferredPositionPct o1 > 0 \<and> (trail_of o1 = None \<or> feq (h_resolvedQty (held_of o1)) 0)
     then if \<not> ready then changeHeld o1 HeldPaused ''position data unavailable; reconcile and resume manually'' False
          else do {
            shares \<leftarrow> gets (\<lambda>c. VenuePositionShares (st c) (o_venue o1) (o_symbol o1));
            let long = (if trail_of o1 \<noteq> None \<and> o_side o1 = SideCover then - shares else shares);
            if long \<le> 0
            then reject_held o1 (if long < 0 then ''percentage stop-sell requires a long position''
                                 else ''no open position to size stop-sell'')
            else let qty = math_floor (long * o_deferredPositionPct o1 / Fin 100) in
              if qty \<le> 0 then reject_held o1 ''position % rounds to 0 shares''
              else post_child o1 ((child_request o1)\<lparr>r_qty := qty\<rparr>)
          }
     else post_child o1 (child_request o1)
   }"

text \<open>A protective exit first marks its plan as closing; a rejected trigger fails the plan.\<close>

definition activate_exit :: "calls \<Rightarrow> exec_order \<Rightarrow> unit exec" where
  "activate_exit K o1 =
     (if o_riskEntryID o1 = '''' then activate_child o1
      else do {
        entry \<leftarrow> gets (\<lambda>c. riskOwner c o1);
        case o_riskEntry entry of
          None \<Rightarrow> return ()
        | Some risk \<Rightarrow>
            if re_protectionCanceled risk \<or> re_failure risk \<noteq> '''' \<or> o_qty o1 \<le> 0 then return ()
            else do {
              ok \<leftarrow> beginRiskExit K entry;
              whenM ok (activate_child o1);
              current \<leftarrow> gets (\<lambda>c. the_order c (o_id o1));
              owner \<leftarrow> gets (\<lambda>c. riskOwner c current);
              whenM (o_status current = StatusRejected)
                (failRisk K owner (''protection trigger rejected: '' @ o_rejectReason current))
            }
      })"

text \<open>An add only activates over healthy shared protection.\<close>

definition shared_unhealthy :: "core \<Rightarrow> exec_order \<Rightarrow> risk_entry \<Rightarrow> bool" where
  "shared_unhealthy c o1 r =
     (let stop = the_order c (re_stopID r) in
      (case o_riskEntry (riskOwner c o1) of None \<Rightarrow> True
       | Some w \<Rightarrow> re_closing w \<or> re_protectionCanceled w \<or> re_failure w \<noteq> '''') \<or>
      \<not> Working stop \<or> \<not> pretrigger stop \<or> h_childClientID (held_of stop) \<noteq> '''' \<or> h_cancelRequested (held_of stop) \<or>
      o_stopPrice stop \<ge> o_limitPrice o1 \<or>
      (case trail_of stop of None \<Rightarrow> False | Some t \<Rightarrow> t_retired t \<or> t_triggered t))"

definition activate_entry :: "calls \<Rightarrow> exec_order \<Rightarrow> unit exec" where
  "activate_entry K o1 = (case o_riskEntry o1 of
     None \<Rightarrow> activate_exit K o1
   | Some r \<Rightarrow> do {
       unhealthy \<leftarrow> gets (\<lambda>c. re_sharedEntryID r \<noteq> '''' \<and> shared_unhealthy c o1 r);
       (if unhealthy then do { _ \<leftarrow> k_cancel K (o_venue o1) (o_id o1); return () } else activate_exit K o1);
       current \<leftarrow> gets (\<lambda>c. the_order c (o_id o1));
       whenM (\<not> Working current) (k_sync K current False)
     })"

definition activateHeld :: "calls \<Rightarrow> exec_order \<Rightarrow> unit exec" where
  "activateHeld K o1 = do {
     skip \<leftarrow> gets (\<lambda>c. o_held o1 = None \<or> \<not> Working o1 \<or> phase_of o1 = HeldActivating \<or> phase_of o1 = HeldWorking \<or>
        h_cancelRequested (held_of o1) \<or>
        (case trail_of o1 of None \<Rightarrow> False
         | Some t \<Rightarrow> t_retired t \<or> \<not> allows (cr_tz c) (tc_sessions (t_config t)) (now c)));
     expired \<leftarrow> gets (\<lambda>c. h_deadlineMs (held_of o1) \<le> now c);
     if skip then return ()
     else if expired
     then (if trail_of o1 \<noteq> None then retireTrail K o1 ''session deadline reached'' else expireHeld o1)
     else case trail_of o1 of
       None \<Rightarrow> activate_entry K o1
     | Some t \<Rightarrow> do {
         moved \<leftarrow> (if t_positionCycle t = '''' then return False
                  else do { cycle \<leftarrow> trailPositionCycle (o_venue o1) (o_symbol o1); return (t_positionCycle t \<noteq> cycle) });
         unacked \<leftarrow> gets (\<lambda>c. mget0 '''' (cr_heldLiveIdentity c) (o_venue o1) \<noteq> '''' \<and>
            mget0 '''' (cr_heldLiveAck c) (o_venue o1) \<noteq> mget0 '''' (cr_heldLiveIdentity c) (o_venue o1));
         if moved then retireTrail K o1 ''position cycle changed before submit''
         else if unacked then rejectTrail K o1 ''account acknowledgement changed''
         else activate_entry K o1
       }
   }"

section \<open>The trail's price\<close>

definition quote_limit :: "trail_config \<Rightarrow> trail_book \<Rightarrow> f64" where
  "quote_limit config b =
     (let base = (if tc_quoteSide config = ''ASK'' then tb_ask b else tb_bid b)
      in base + cushion_distance base (tc_offset config))"

definition activateTrailQuote :: "calls \<Rightarrow> exec_order \<Rightarrow> unit exec" where
  "activateTrailQuote K o1 = (case trail_of o1 of
     None \<Rightarrow> return ()
   | Some t \<Rightarrow> do {
       closed \<leftarrow> gets (\<lambda>c. t_retired t \<or> phase_of o1 \<noteq> HeldWaitingQuote \<or>
          \<not> allows (cr_tz c) (tc_sessions (t_config t)) (now c) \<or> h_deadlineMs (held_of o1) \<le> now c);
       found \<leftarrow> gets (\<lambda>c. mhas (cr_trailBooks c) (o_symbol o1));
       b \<leftarrow> gets (\<lambda>c. mget0 trail_book0 (cr_trailBooks c) (o_symbol o1));
       uncovered \<leftarrow> gets (\<lambda>c. case coverage_of c of None \<Rightarrow> False
          | Some cov \<Rightarrow> cov (o_symbol o1) = 0 \<or> tb_coverage b \<noteq> cov (o_symbol o1));
       if closed \<or> uncovered \<or> \<not> found \<or> tb_generation b = 0 \<or> \<not> finitePositive (tb_bid b) \<or> \<not> finitePositive (tb_ask b) \<or>
          tb_bid b > tb_ask b
       then return ()
       else let price = quote_limit (t_config t) b in
         if \<not> finitePositive price then rejectTrail K o1 ''invalid quote-derived limit''
         else do {
           err \<leftarrow> saveTrail o1 (t\<lparr>t_limit := roundTrailPrice price (o_side o1)\<rparr>) HeldWaitingQuote '''';
           whenM (err = None) (do {
             current \<leftarrow> gets (\<lambda>c. the_order c (o_id o1));
             activateHeld K current
           })
         }
     })"

text \<open>What follows the save: an unproved crossing is deferred, a trigger activates.\<close>

definition trail_saved :: "calls \<Rightarrow> exec_order \<Rightarrow> eligible_print \<Rightarrow> bool \<Rightarrow> trail_state \<Rightarrow> unit exec" where
  "trail_saved K o1 p crossed t = do {
     whenM (crossed \<and> \<not> t_triggered t) (do {
       current \<leftarrow> gets (\<lambda>c. the_order c (o_id o1));
       deferProtection current p
     });
     whenM (t_triggered t) (do {
       owner \<leftarrow> gets (\<lambda>c. riskOwner c o1);
       ok \<leftarrow> (if o_riskEntryID o1 \<noteq> '''' then beginRiskExit K owner else return True);
       whenM ok (do {
         current \<leftarrow> gets (\<lambda>c. the_order c (o_id o1));
         if tc_pricing (t_config t) = ''QUOTE'' then activateTrailQuote K current else activateHeld K current
       })
     })
   }"

text \<open>The reserved shares of a trigger, and the phase and reason the trail is saved with.\<close>

definition reserve_trail :: "core \<Rightarrow> exec_order \<Rightarrow> trail_state \<Rightarrow> trail_state" where
  "reserve_trail c o1 t = t\<lparr>t_reservedQty :=
     (if o_deferredPositionPct o1 > 0
      then math_floor (\<bar>VenuePositionShares (st c) (o_venue o1) (o_symbol o1)\<bar> * o_deferredPositionPct o1 / Fin 100)
      else o_leavesQty o1)\<rparr>"

definition trail_status :: "trail_state \<Rightarrow> held_phase \<times> string" where
  "trail_status t =
     (if t_triggered t \<and> tc_pricing (t_config t) = ''QUOTE'' then (HeldWaitingQuote, ''waiting for a valid execution quote'')
      else (HeldArmed, if tc_mode (t_config t) = ''CANDLE'' \<and> t_reference t = None \<and> t_floor t > 0
                       then ''fixed fallback; waiting for a verified completed candle'' else ''''))"

definition trail_moved :: "calls \<Rightarrow> exec_order \<Rightarrow> eligible_print \<Rightarrow> bool \<Rightarrow> bool \<Rightarrow> trail_state \<Rightarrow> unit exec" where
  "trail_moved K o1 p accepted adverse t0 = do {
     let crossed = StopLimitTriggered (o_side o1) (ep_price p) (t_stop t0);
     let t1 = t0\<lparr>t_triggered := crossed \<and> (accepted \<or> adverse)\<rparr>;
     t \<leftarrow> gets (\<lambda>c. if t_triggered t1 then reserve_trail c o1 t1 else t1);
     leaves \<leftarrow> gets (\<lambda>c. checkSellLeaves c (venue_request o1) (t_reservedQty t) (o_id o1));
     if t_triggered t \<and> t_reservedQty t \<le> 0 then rejectTrail K o1 ''position percentage rounds to zero shares''
     else if t_triggered t \<and> \<not> fst leaves then rejectTrail K o1 (snd leaves)
     else do {
       err \<leftarrow> saveTrail o1 t (fst (trail_status t)) (snd (trail_status t));
       whenM (err = None) (trail_saved K o1 p crossed t)
     }
   }"

definition advance_in_session :: "calls \<Rightarrow> exec_order \<Rightarrow> eligible_print \<Rightarrow> bool \<Rightarrow> bool \<Rightarrow> trail_state \<Rightarrow> unit exec" where
  "advance_in_session K o1 p deliberate adverse t = do {
     accepted \<leftarrow> price_accepted p;
     if \<not> accepted \<and> \<not> adverse \<and> tc_mode (t_config t) \<noteq> ''CANDLE'' \<and>
        (\<not> deliberate \<or> feq (t_watermark t) 0 \<and> feq (t_floor t) 0)
     then do {
       deferProtection o1 p;
       whenM (feq (t_watermark t) 0 \<and> feq (t_floor t) 0 \<and> h_pausedReason (held_of o1) \<noteq> ''waiting for corroborated price'')
         (do { _ \<leftarrow> saveTrail o1 t HeldWaiting ''waiting for corroborated price''; return () })
     }
     else do {
       r \<leftarrow> gets (\<lambda>c. trail_stop_step (cr_tz c) (now c) (cr_trailCandles c) (o_symbol o1) (o_side o1) accepted deliberate p t);
       case r of
         TrailWait t1 \<Rightarrow> do { _ \<leftarrow> saveTrail o1 t1 HeldWaiting ''waiting for a verified completed candle''; return () }
       | TrailReject why \<Rightarrow> rejectTrail K o1 why
       | TrailSet t1 \<Rightarrow> trail_moved K o1 p accepted adverse t1
     }
   }"

definition advanceTrailPrice :: "calls \<Rightarrow> exec_order \<Rightarrow> eligible_print \<Rightarrow> bool \<Rightarrow> bool \<Rightarrow> unit exec" where
  "advanceTrailPrice K o1 p deliberate adverse = (case trail_of o1 of
     None \<Rightarrow> return ()
   | Some t0 \<Rightarrow>
       if o_riskEntryID o1 \<noteq> '''' \<and> o_qty o1 \<le> 0 then return ()
       else do {
         first \<leftarrow> (if t_positionCycle t0 = '''' then trailPositionCycle (o_venue o1) (o_symbol o1)
                  else return (t_positionCycle t0));
         let t = t0\<lparr>t_positionCycle := first\<rparr>;
         moved \<leftarrow> (if first = '''' then return True
                  else do { cycle \<leftarrow> trailPositionCycle (o_venue o1) (o_symbol o1); return (first \<noteq> cycle) });
         closed \<leftarrow> gets (\<lambda>c. t_retired t \<or> t_triggered t \<or> \<not> allows (cr_tz c) (tc_sessions (t_config t)) (now c) \<or>
            \<not> allows (cr_tz c) (tc_sessions (t_config t)) (ep_tsMs p));
         if moved then retireTrail K o1 ''position cycle changed''
         else if closed then return ()
         else advance_in_session K o1 p deliberate adverse t
       })"

definition advanceTrail :: "calls \<Rightarrow> exec_order \<Rightarrow> eligible_print \<Rightarrow> bool \<Rightarrow> unit exec" where
  "advanceTrail K o1 p deliberate = advanceTrailPrice K o1 p deliberate False"

section \<open>Protective stops\<close>

definition activateProtectedStop :: "calls \<Rightarrow> exec_order \<Rightarrow> eligible_print \<Rightarrow> unit exec" where
  "activateProtectedStop K o1 p = do {
     protective \<leftarrow> gets (\<lambda>c. protectiveOrder c o1);
     waits \<leftarrow> gets (\<lambda>c. protectionCanWait c o1);
     if \<not> protective then activateHeld K o1
     else if \<not> waits then return ()
     else do {
       accepted \<leftarrow> price_accepted p;
       if accepted then activateHeld K o1 else deferProtection o1 p
     }
   }"

definition authorizeProtection :: "calls \<Rightarrow> exec_order \<Rightarrow> pending_protection \<Rightarrow> unit exec" where
  "authorizeProtection K o1 a = do {
     modify (drop_pending (o_id o1));
     if trail_of o1 \<noteq> None then advanceTrailPrice K o1 (pn_print a) False True
     else activateHeld K o1
   }"

section \<open>Keeping protection in step with its entry\<close>

text \<open>\<open>applyRiskAddStops\<close>: the first fill of an add raises the shared stop, logged with the marker
  that it did. The flag is false when a limit is invalid or the append fails.\<close>

definition raised_stop :: "f64 \<Rightarrow> f64 \<Rightarrow> exec_order \<Rightarrow> exec_order" where
  "raised_stop price limit stop =
     (let h = held_of stop;
          h = (case h_trail h of None \<Rightarrow> h
               | Some t \<Rightarrow> h\<lparr>h_trail := Some (t\<lparr>t_floor := math_max (t_floor t) price, t_stop := price, t_limit := limit\<rparr>)\<rparr>)
      in stop\<lparr>o_stopPrice := price, o_limitPrice := limit, o_held := Some h\<rparr>)"

primrec apply_adds :: "limit_cushion \<Rightarrow> exec_order list \<Rightarrow> exec_order \<Rightarrow> (exec_order \<times> bool) exec" where
  "apply_adds cushion0 [] stop = return (stop, True)"
| "apply_adds cushion0 (add # adds) stop = (case o_riskEntry add of
     None \<Rightarrow> apply_adds cushion0 adds stop
   | Some risk \<Rightarrow>
       if re_sharedEntryID risk = '''' \<or> feq (o_executedQty add) 0 \<or> re_stopApplied risk then apply_adds cushion0 adds stop
       else let price = math_max (o_stopPrice stop) (re_addStopPrice risk);
                cushion = (case trail_of stop of Some t \<Rightarrow> tc_cushion (t_config t) | None \<Rightarrow> cushion0)
            in case riskLimit price cushion False of
                 Inl err \<Rightarrow> return (stop, False)
               | Inr limit \<Rightarrow> do {
                   let stop = raised_stop price limit stop;
                   ts \<leftarrow> gets now;
                   err \<leftarrow> appendAndFold (RiskEntryChanged
                     (add\<lparr>o_riskEntry := Some (risk\<lparr>re_stopApplied := True\<rparr>), o_updatedMs := ts\<rparr>) stop) SrcLocal;
                   if err \<noteq> None then return (stop, False) else apply_adds cushion0 adds stop
                 })"

definition applyRiskAddStops :: "exec_order \<Rightarrow> risk_entry \<Rightarrow> exec_order \<Rightarrow> (exec_order \<times> bool) exec" where
  "applyRiskAddStops owner risk stop = do {
     members \<leftarrow> gets (\<lambda>c. riskMembers c owner);
     apply_adds (re_sellCushion risk) members stop
   }"

text \<open>The linked stop while the plan is open: its quantity follows the confirmed fills.\<close>

definition stop_reason :: "exec_order \<Rightarrow> exec_order" where
  "stop_reason stop =
     (if feq (o_qty stop) 0 then stop\<lparr>o_held := Some ((held_of stop)\<lparr>h_pausedReason := ''awaiting entry fills''\<rparr>)\<rparr>
      else if trail_of stop \<noteq> None \<and> h_pausedReason (held_of stop) = ''awaiting entry fills''
      then stop\<lparr>o_held := Some ((held_of stop)\<lparr>h_pausedReason := ''fixed fallback; waiting for trailing data''\<rparr>)\<rparr>
      else stop)"

definition sync_open :: "calls \<Rightarrow> exec_order \<Rightarrow> risk_entry \<Rightarrow> exec_order \<Rightarrow> unit exec" where
  "sync_open K entry risk stop0 =
     (if h_childClientID (held_of stop0) \<noteq> '''' then return ()
      else do {
        filled \<leftarrow> gets (\<lambda>c. riskFilledQty c entry);
        ts \<leftarrow> gets now;
        let qty = math_max 0 (filled - re_retiredQty risk);
        (stop1, ok) \<leftarrow> applyRiskAddStops entry risk (stop0\<lparr>o_qty := qty, o_leavesQty := qty, o_updatedMs := ts\<rparr>);
        whenM ok (do {
          let stop2 = stop_reason stop1;
          filled2 \<leftarrow> gets (\<lambda>c. riskFilledQty c entry);
          let done = (\<not> Working entry \<and> feq filled2 0);
          let stop = (if done then stop2\<lparr>o_status := StatusCanceled\<rparr> else stop2);
          whenM done (releaseHeld (o_id stop));
          err \<leftarrow> appendAndFold (RiskEntryChanged entry stop) SrcLocal;
          whenM (err = None \<and> o_qty stop > 0 \<and> pretrigger stop) (do {
            p \<leftarrow> gets (\<lambda>c. mget (cr_lastEligible c) (o_symbol stop));
            healthy \<leftarrow> gets cr_printHealthy;
            fresh \<leftarrow> gets (\<lambda>c. case p of Some x \<Rightarrow> freshEligiblePrint c x | None \<Rightarrow> False);
            whenM (healthy \<and> fresh)
              (let x = (case p of Some x \<Rightarrow> x | None \<Rightarrow> print0) in
               if trail_of stop \<noteq> None then advanceTrail K stop x False
               else whenM (StopLimitTriggered SideSell (ep_price x) (o_stopPrice stop)) (activateProtectedStop K stop x))
          })
        })
      })"

text \<open>A late fill gets its own exit: how many shares no exit of the plan covers, and the order.\<close>

definition uncovered_shares :: "core \<Rightarrow> exec_order \<Rightarrow> risk_entry \<Rightarrow> f64" where
  "uncovered_shares c entry risk =
     riskFilledQty c entry - re_retiredQty risk -
     foldl (\<lambda>covered exit. let covered = covered + o_executedQty exit in if Working exit then covered + o_leavesQty exit else covered)
       0 (filter (\<lambda>exit. o_riskEntryID exit = o_id entry) (map snd (vs_orders (venue_at (st c) (o_venue entry)))))"

definition late_exit :: "core \<Rightarrow> exec_order \<Rightarrow> exec_order \<Rightarrow> f64 \<Rightarrow> string \<Rightarrow> bool \<Rightarrow> exec_order" where
  "late_exit c entry stop qty i reconciling =
     (let req = \<lparr>r_venue = o_venue entry, r_symbol = o_symbol entry, r_side = SideSell, r_type = TypeStopLimit, r_tif = TIFDay,
            r_session = SessionExtended, r_qty = qty, r_limitPrice = o_limitPrice stop, r_stopPrice = o_stopPrice stop,
            r_clientOrderID = i\<rparr>;
          h = held_none\<lparr>h_phase := HeldWaiting, h_deadlineMs := h_deadlineMs (held_of stop)\<rparr>;
          h = (case trail_of stop of None \<Rightarrow> h
               | Some t \<Rightarrow> let h = h\<lparr>h_trail := Some (t\<lparr>t_reservedQty := qty\<rparr>), h_resolvedQty := qty\<rparr>
                          in if tc_pricing (t_config t) = ''QUOTE''
                             then h\<lparr>h_phase := HeldWaitingQuote, h_pausedReason := ''late entry fill; waiting for execution quote''\<rparr>
                             else h);
          h = (if reconciling \<or> phase_of stop = HeldPaused \<or> \<not> cr_printHealthy c \<or> \<not> PositionsReady (st c) (o_venue entry)
               then h\<lparr>h_phase := HeldPaused, h_pausedReason := ''late entry fill; reconcile and resume protection''\<rparr> else h);
          h = (case trail_of stop of None \<Rightarrow> h
               | Some t \<Rightarrow> if \<not> allows (cr_tz c) (tc_sessions (t_config t)) (now c)
                          then h\<lparr>h_phase := HeldPaused,
                                 h_pausedReason := ''late entry fill outside permitted session; manual recovery required''\<rparr> else h)
      in (newOrderFromRequest req (now c))\<lparr>o_riskEntryID := o_id entry, o_held := Some h\<rparr>)"

definition acquireHeldDemand :: "exec_order \<Rightarrow> string option exec" where
  "acquireHeldDemand o1 = do {
     d \<leftarrow> gets cr_heldDemand;
     case (d, trail_of o1) of
       (None, _) \<Rightarrow> return (Some '''')
     | (Some x, Some t) \<Rightarrow>
         if \<not> dm_trail x \<and> (tc_mode (t_config t) = ''CANDLE'' \<or> tc_pricing (t_config t) = ''QUOTE'')
         then return (Some ''execution trail demand unavailable'')
         else do { r \<leftarrow> ask os_acquire; whenM (r = None) (start (AcquiredDemand (o_id o1) (o_symbol o1))); return r }
     | (Some x, None) \<Rightarrow>
         do { r \<leftarrow> ask os_acquire; whenM (r = None) (start (AcquiredDemand (o_id o1) (o_symbol o1))); return r }
   }"

definition sync_closing :: "calls \<Rightarrow> exec_order \<Rightarrow> risk_entry \<Rightarrow> exec_order \<Rightarrow> bool \<Rightarrow> unit exec" where
  "sync_closing K entry risk stop reconciling = do {
     qty \<leftarrow> gets (\<lambda>c. uncovered_shares c entry risk);
     d \<leftarrow> gets cr_heldDemand;
     if qty \<le> tiny \<or> re_failure risk \<noteq> '''' then return ()
     else do {
       i \<leftarrow> next_id;
       late \<leftarrow> gets (\<lambda>c. late_exit c entry stop qty i reconciling);
       if d = None then return ()
       else do {
         err \<leftarrow> acquireHeldDemand late;
         case err of
           Some w \<Rightarrow> failRisk K entry (''late fill protection unavailable: '' @ w)
         | None \<Rightarrow> do {
             err \<leftarrow> appendAndFold (OrderSubmitted late) SrcLocal;
             case err of
               Some w \<Rightarrow> do {
                 releaseHeld (o_id late);
                 failRisk K entry (''late fill protection persistence failed: '' @ w)
               }
             | None \<Rightarrow>
                 if phase_of late = HeldWaiting then activateHeld K late
                 else if phase_of late = HeldWaitingQuote then activateTrailQuote K late
                 else return ()
           }
       }
     }
   }"

definition syncRiskProtection :: "calls \<Rightarrow> exec_order \<Rightarrow> bool \<Rightarrow> unit exec" where
  "syncRiskProtection K entry0 reconciling = do {
     entry \<leftarrow> gets (\<lambda>c. riskOwner c entry0);
     pending \<leftarrow> gets (\<lambda>c. mhas (cr_trailPositionChecks c) (o_venue entry));
     case o_riskEntry entry of
       None \<Rightarrow> return ()
     | Some risk \<Rightarrow> do {
         stop \<leftarrow> gets (\<lambda>c. the_order c (re_stopID risk));
         over \<leftarrow> gets (\<lambda>c. re_protectionCanceled risk \<or> o_held stop = None \<or> h_deadlineMs (held_of stop) \<le> now c \<or>
            (case trail_of stop of None \<Rightarrow> False | Some t \<Rightarrow> t_retired t));
         if pending \<or> over then return ()
         else if \<not> re_closing risk then sync_open K entry risk stop
         else sync_closing K entry risk stop reconciling
       }
   }"

section \<open>Cancelling\<close>

text \<open>\<open>handleCancel\<close> without the deferred sync of an entry's protection.\<close>

definition cancel_held :: "calls \<Rightarrow> exec_order \<Rightarrow> cmd_ack exec" where
  "cancel_held K o1 =
     (if h_cancelRequested (held_of o1) \<or> phase_of o1 = HeldCancelRequested
      then return (nacked ''cancel already requested'' (o_id o1))
      else if phase_of o1 = HeldWaiting \<or> phase_of o1 = HeldArmed \<or> phase_of o1 = HeldPaused \<or> phase_of o1 = HeldWaitingQuote
      then if trail_of o1 \<noteq> None
           then do { retireTrail K o1 ''trail canceled''; return (acked (o_id o1)) }
           else do {
             ts \<leftarrow> gets now;
             err \<leftarrow> appendAndFold (OrderCanceled (o_venue o1) (o_id o1) ts) SrcLocal;
             case err of
               Some w \<Rightarrow> return (nacked (''event append failed: '' @ w) (o_id o1))
             | None \<Rightarrow> do { releaseHeld (o_id o1); return (acked (o_id o1)) }
           }
      else do { requestHeldVenueCancel o1 ''cancel requested''; return (acked (o_id o1)) })"

definition cancel_order :: "calls \<Rightarrow> exec_order \<Rightarrow> cmd_ack exec" where
  "cancel_order K o1 =
     (if unresolved_kind ActionCancel o1 then return (nacked ''cancel outcome is still unresolved'' (o_id o1))
      else if unresolved_kind ActionSubmit o1 then return (nacked ''submit outcome is still unresolved'' (o_id o1))
      else if o_held o1 \<noteq> None then cancel_held K o1
      else do {
        b \<leftarrow> gets (\<lambda>c. mget (cr_brokers c) (o_venue o1));
        if b = None then return (nacked ''unknown venue'' (o_id o1))
        else do {
          ts \<leftarrow> gets now;
          err \<leftarrow> appendAndFold (OrderActionChanged (o_venue o1) (o_id o1) (cancel_action o1) ts) SrcLocal;
          case err of
            Some w \<Rightarrow> return (nacked (''event append failed: '' @ w) (o_id o1))
          | None \<Rightarrow> do {
              startVenueAction (o_venue o1) (o_id o1) ActionCancel no_replace;
              return (acked (o_id o1))
            }
        }
      })"

definition cancel_linked :: "calls \<Rightarrow> exec_order \<Rightarrow> cmd_ack exec" where
  "cancel_linked K o1 = do {
     entry \<leftarrow> gets (\<lambda>c. riskOwner c o1);
     if o_riskEntryID o1 \<noteq> '''' \<and> (case o_riskEntry entry of None \<Rightarrow> False | Some r \<Rightarrow> \<not> re_protectionCanceled r)
     then do {
       err \<leftarrow> cancelRiskProtection K entry;
       case err of
         Some w \<Rightarrow> return (nacked (''cannot persist protection cancellation: '' @ w) (o_id o1))
       | None \<Rightarrow> return (acked (o_id o1))
     }
     else cancel_order K o1
   }"

definition handleCancel :: "calls \<Rightarrow> venue_id \<Rightarrow> string \<Rightarrow> cmd_ack exec" where
  "handleCancel K v i = do {
     owner \<leftarrow> gets (\<lambda>c. OrderVenue (st c) i);
     if owner \<noteq> Some v then return (nacked ''unknown order'' i)
     else do {
       o1 \<leftarrow> gets (\<lambda>c. mget0 order0 (vs_orders (venue_at (st c) v)) i);
       ack \<leftarrow> cancel_linked K o1;
       whenM (o_riskEntry o1 \<noteq> None) (do {
         current \<leftarrow> gets (\<lambda>c. the_order c (o_id o1));
         k_sync K current False
       });
       return ack
     }
   }"

section \<open>The knot\<close>

definition stuck :: "unit exec" where
  "stuck = modify (\<lambda>c. c\<lparr>cr_stuck := True\<rparr>)"

primrec knot :: "nat \<Rightarrow> calls" where
  "knot 0 = \<lparr>k_cancel = (\<lambda>v i. do { stuck; return (nacked '''' i) }), k_sync = (\<lambda>entry reconciling. stuck)\<rparr>"
| "knot (Suc n) = \<lparr>k_cancel = handleCancel (knot n), k_sync = syncRiskProtection (knot n)\<rparr>"

end
