(* ===== verification/CoreOrders.thy ===== *)
theory CoreOrders
  imports CoreHeld
begin

text \<open>
  The commands of the user interface, \<open>handleCmd\<close> of \<open>core.go\<close>: submit, cancel, replace, flatten,
  kill, arm, resume, with the held branch of each (\<open>held_lifecycle.go\<close>), chart risk entries
  (\<open>risk_entry.go\<close>, \<open>risk_add.go\<close>) and trails (\<open>trailing.go\<close>, \<open>trailing_commands.go\<close>).
\<close>

section \<open>Loops over all orders\<close>

definition each_order_of :: "venue_id \<Rightarrow> (exec_order \<Rightarrow> unit exec) \<Rightarrow> unit exec" where
  "each_order_of v f = do {
     ks \<leftarrow> gets (\<lambda>c. map fst (vs_orders (venue_at (st c) v)));
     ks \<leftarrow> range_keys ks;
     each ks (\<lambda>k. do { o1 \<leftarrow> gets (\<lambda>c. mget0 order0 (vs_orders (venue_at (st c) v)) k); f o1 })
   }"

definition each_order :: "(exec_order \<Rightarrow> unit exec) \<Rightarrow> unit exec" where
  "each_order f = do {
     vs \<leftarrow> gets (\<lambda>c. map fst (st_venues (st c)));
     vs \<leftarrow> range_keys vs;
     each vs (\<lambda>v. each_order_of v f)
   }"

definition each_held :: "(exec_order \<Rightarrow> unit exec) \<Rightarrow> unit exec" where
  "each_held f = do {
     ids \<leftarrow> gets heldOrderIDs;
     each ids (\<lambda>i. do { o1 \<leftarrow> gets (\<lambda>c. the_order c i); f o1 })
   }"

section \<open>Disarming\<close>

definition disarmRiskEntries :: "calls \<Rightarrow> venue_id \<Rightarrow> bool \<Rightarrow> unit exec" where
  "disarmRiskEntries K v protection = each_order (\<lambda>entry.
     if o_riskEntry entry = None \<or> v \<noteq> '''' \<and> o_venue entry \<noteq> v then return ()
     else if protection then do { _ \<leftarrow> cancelRiskProtection K entry; return () }
     else whenM (Working entry)
       (if h_childClientID (held_of entry) = ''''
        then do { _ \<leftarrow> handleCancel K (o_venue entry) (o_id entry); return () }
        else requestHeldVenueCancel entry ''master disarmed; cancel remaining buy''))"

definition disarmHeld :: "calls \<Rightarrow> venue_id \<Rightarrow> bool \<Rightarrow> unit exec" where
  "disarmHeld K v cancelPretrigger = each_held (\<lambda>o1.
     if \<not> cancelPretrigger \<and> (o_riskEntryID o1 \<noteq> '''' \<or> o_riskEntry o1 \<noteq> None \<or> trail_of o1 \<noteq> None) then return ()
     else if v \<noteq> '''' \<and> o_venue o1 \<noteq> v then return ()
     else if o_held o1 = None then return ()
     else if phase_of o1 = HeldWaiting \<or> phase_of o1 = HeldArmed \<or> phase_of o1 = HeldPaused \<or> phase_of o1 = HeldWaitingQuote
     then if cancelPretrigger
          then if trail_of o1 \<noteq> None then retireTrail K o1 ''protection canceled''
               else do {
                 ts \<leftarrow> gets now;
                 err \<leftarrow> appendAndFold (OrderCanceled (o_venue o1) (o_id o1) ts) SrcLocal;
                 whenM (err = None) (releaseHeld (o_id o1))
               }
          else changeHeld o1 HeldPaused ''master disarmed; resume manually'' False
     else whenM (phase_of o1 = HeldActivating) (requestHeldVenueCancel o1 ''disarm cancel pending''))"

definition handleArm :: "calls \<Rightarrow> bool \<Rightarrow> cmd_ack exec" where
  "handleArm K on = do {
     whenM (\<not> on) (disarmRiskEntries K '''' False);
     upd (SetMasterArmed on);
     whenM (\<not> on) (disarmHeld K '''' False);
     return (acked '''')
   }"

text \<open>The automatic disarm of a day-loss breach or stale account data.\<close>

definition auto_disarm :: "calls \<Rightarrow> unit exec" where
  "auto_disarm K = do { disarmRiskEntries K '''' False; upd (SetMasterArmed False) }"

definition handleSetActiveVenue :: "calls \<Rightarrow> venue_id \<Rightarrow> cmd_ack exec" where
  "handleSetActiveVenue K v = do {
     known \<leftarrow> gets (\<lambda>c. mhas (st_venues (st c)) v);
     if v \<noteq> '''' \<and> \<not> known then return (nacked ''unknown venue'' '''')
     else do {
       upd (SetActiveVenue v);
       breached \<leftarrow> gets (\<lambda>c. BreachedDayLoss (st c) (cr_gate c) \<and> st_masterArmed (st c));
       whenM breached (auto_disarm K);
       return (acked '''')
     }
   }"

definition handleKill :: "calls \<Rightarrow> venue_id \<Rightarrow> cmd_ack exec" where
  "handleKill K v = do {
     disarmRiskEntries K v True;
     upd (SetMasterArmed False);
     disarmHeld K v True;
     venues \<leftarrow> gets cr_venues;
     each (if v \<noteq> '''' then [v] else venues) (\<lambda>w. do {
       vs \<leftarrow> touch w;
       each (sort (map fst (filter (\<lambda>(_, o1). Working o1) (vs_orders vs))))
         (\<lambda>i. do { _ \<leftarrow> handleCancel K w i; return () })
     });
     return (acked '''')
   }"

section \<open>Submitting\<close>

record submit_order =
  so_venue :: venue_id
  so_symbol :: string
  so_side :: side
  so_type :: order_type
  so_tif :: tif
  so_session :: order_session
  so_qty :: f64
  so_deferredPositionPct :: f64
  so_limitPrice :: f64
  so_stopPrice :: f64
  so_routeExpected :: held_route
  so_routeDeadlineMs :: int

definition submit_request :: "submit_order \<Rightarrow> string \<Rightarrow> order_request" where
  "submit_request cm i = \<lparr>r_venue = so_venue cm, r_symbol = so_symbol cm, r_side = so_side cm, r_type = so_type cm,
     r_tif = so_tif cm, r_session = so_session cm, r_qty = so_qty cm, r_limitPrice = so_limitPrice cm,
     r_stopPrice = so_stopPrice cm, r_clientOrderID = i\<rparr>"

definition deferred_size :: "submit_order \<Rightarrow> bool" where
  "deferred_size cm \<longleftrightarrow> \<not> feq (so_deferredPositionPct cm) 0"

text \<open>What is wrong with the shape of the command, before the state is read.\<close>

definition submit_shape :: "submit_order \<Rightarrow> order_request \<Rightarrow> ack_reason option" where
  "submit_shape cm req =
     (if deferred_size cm
      then let pct = so_deferredPositionPct cm in
        if \<not> (\<not> is_nan pct \<and> \<not> is_inf pct \<and> pct > 0 \<and> pct \<le> Fin 100 \<and> so_side cm = SideSell \<and>
              so_type cm = TypeStopLimit \<and> so_tif cm = TIFDay \<and> feq (so_qty cm) 0)
        then Some (Why ''deferred position sizing requires a zero-quantity DAY SELL stop-limit with position % in (0, 100]'')
        else map_option BadRequest (ValidateStructure req)
      else map_option BadRequest (Validate req))"

text \<open>The route of a conditional order: refused, or the route, the session it means and its deadline.\<close>

definition held_prices_ok :: "order_request \<Rightarrow> string option" where
  "held_prices_ok req =
     (if r_type req = TypeStopLimit \<and> (r_side req = SideBuy \<or> r_side req = SideCover) \<and> r_limitPrice req < r_stopPrice req
      then Some ''buy stop-limit requires limit at or above trigger''
      else if r_type req = TypeStopLimit \<and> (r_side req = SideSell \<or> r_side req = SideShort) \<and> r_limitPrice req > r_stopPrice req
      then Some ''sell stop-limit requires limit at or below trigger''
      else None)"

definition unacknowledged :: "(venue_id, string) gomap \<Rightarrow> (venue_id, string) gomap \<Rightarrow> venue_id \<Rightarrow> bool" where
  "unacknowledged identity ack v \<longleftrightarrow> mget0 '''' identity v \<noteq> '''' \<and> mget0 '''' ack v \<noteq> mget0 '''' identity v"

definition resolve_route :: "core \<Rightarrow> submit_order \<Rightarrow> order_request \<Rightarrow> held_route \<times> order_session \<times> int \<times> string" where
  "resolve_route c cm req =
     (if r_type req = TypeLimitIfTouched then ResolveLimitIfTouchedRoute (cr_tz c) (now c) (r_tif req) (r_session req)
      else if deferred_size cm then ResolveDeferredStopSellRoute (cr_tz c) (now c) (r_tif req) (r_session req)
      else case ResolveStopLimitRoute (cr_tz c) (now c) (r_tif req) (r_session req) of (r, e, d) \<Rightarrow> (r, e, d, ''''))"

definition route_submit :: "core \<Rightarrow> submit_order \<Rightarrow> order_request \<Rightarrow> string + (held_route \<times> order_request \<times> int)" where
  "route_submit c cm req =
     (if r_type req \<noteq> TypeStopLimit \<and> r_type req \<noteq> TypeLimitIfTouched then Inr (RouteNative, req, zero_time)
      else case resolve_route c cm req of (route, effective, deadline, routeReason) \<Rightarrow>
        if route = RouteUnsupported then Inl routeReason
        else if so_routeExpected cm \<noteq> HeldRouteStr '''' \<and> so_routeExpected cm \<noteq> route
        then Inl ''order route changed; review custody and retry''
        else if r_type req = TypeLimitIfTouched \<and> route = RouteEngineHeld \<and> so_routeDeadlineMs cm \<le> 0
        then Inl ''limit-if-touched route preview is required; review custody and retry''
        else if r_type req = TypeLimitIfTouched \<and> so_routeDeadlineMs cm \<noteq> 0 \<and>
                (route \<noteq> RouteEngineHeld \<or> deadline \<noteq> so_routeDeadlineMs cm)
        then Inl ''order session deadline changed; review custody and retry''
        else if route \<noteq> RouteEngineHeld then Inr (route, req, deadline)
        else if r_type req = TypeStopLimit \<and> unacknowledged (cr_heldLiveIdentity c) (cr_heldLiveAck c) (r_venue req)
        then Inl ''live engine-held stop-limit requires account acknowledgement''
        else if r_type req = TypeLimitIfTouched \<and> unacknowledged (cr_heldLiveIdentity c) (cr_heldLiveLITAck c) (r_venue req)
        then Inl ''live engine-held limit-if-touched requires account acknowledgement''
        else case held_prices_ok req of
               Some why \<Rightarrow> Inl why
             | None \<Rightarrow> Inr (route, req\<lparr>r_session := effective\<rparr>, deadline))"

definition block_order :: "order_request \<Rightarrow> string \<Rightarrow> cmd_ack exec" where
  "block_order req reason = do {
     ts \<leftarrow> gets now;
     append_quiet (OrderBlocked (r_venue req) (r_clientOrderID req) req reason ts) SrcLocal;
     return (nacked reason (r_clientOrderID req))
   }"

definition submit_held :: "calls \<Rightarrow> submit_order \<Rightarrow> order_request \<Rightarrow> int \<Rightarrow> cmd_ack exec" where
  "submit_held K cm req deadline = do {
     let i = r_clientOrderID req;
     d \<leftarrow> gets cr_heldDemand;
     if d = None then return (nacked ''execution ticker demand unavailable for held stop-limit'' i)
     else do {
       err \<leftarrow> ask os_acquire;
       case err of
         Some w \<Rightarrow> return (nacked (''execution ticker unavailable: '' @ w) i)
       | None \<Rightarrow> do {
           start (AcquiredDemand i (r_symbol req));
           ts \<leftarrow> gets now;
           let o1 = newOrderFromRequest req ts;
           let o1 = (if deferred_size cm then o1\<lparr>o_deferredPositionPct := so_deferredPositionPct cm\<rparr> else o1);
           let o1 = o1\<lparr>o_held := Some (held_none\<lparr>h_phase := HeldWaiting, h_deadlineMs := deadline\<rparr>)\<rparr>;
           err \<leftarrow> appendAndFold (OrderSubmitted o1) SrcLocal;
           case err of
             Some w \<Rightarrow> do {
               start (ReleasedDemand i);
               return (nacked (''event append failed: '' @ w) i)
             }
           | None \<Rightarrow> do {
               requestProtectionBook o1;
               p \<leftarrow> gets (\<lambda>c. mget (cr_lastEligible c) (r_symbol req));
               due \<leftarrow> gets (\<lambda>c. case p of None \<Rightarrow> False
                 | Some x \<Rightarrow> freshEligiblePrint c x \<and> HeldOrderTriggered (o_type o1) (o_side o1) (ep_price x) (o_stopPrice o1));
               current \<leftarrow> gets (\<lambda>c. the_order c (o_id o1));
               whenM due (activateProtectedStop K current (case p of Some x \<Rightarrow> x | None \<Rightarrow> print0));
               return (acked i)
             }
         }
     }
   }"

text \<open>\<open>OrderSubmitted\<close> is appended before the POST; a failed append blocks it.\<close>

definition native_order :: "order_request \<Rightarrow> int \<Rightarrow> bool \<Rightarrow> exec_order" where
  "native_order req ts guarded =
     (let o1 = newOrderFromRequest req ts
      in if guarded then o1\<lparr>o_action := Some (action0\<lparr>a_kind := ActionSubmit, a_phase := ActionRequested\<rparr>)\<rparr> else o1)"

definition submit_native :: "order_request \<Rightarrow> cmd_ack exec" where
  "submit_native req = do {
     ts \<leftarrow> gets now;
     guarded \<leftarrow> gets (\<lambda>c. requiresReductionGuard c req);
     err \<leftarrow> appendAndFold (OrderSubmitted (native_order req ts guarded)) SrcLocal;
     case err of
       Some w \<Rightarrow> return (nacked (''event append failed: '' @ w) (r_clientOrderID req))
     | None \<Rightarrow> do {
         start (PostedOrder req guarded);
         return (acked (r_clientOrderID req))
       }
   }"

text \<open>The gate, the share guard and the venue's capabilities, then custody or POST.\<close>

definition admit_submit :: "core \<Rightarrow> submit_order \<Rightarrow> order_request \<Rightarrow> bool \<times> string" where
  "admit_submit c cm req = (if deferred_size cm then EvaluateDeferredAdmission (st c) (cr_gate c) req
     else Evaluate (st c) (cr_gate c) req (mark_of c))"

definition place_submit :: "calls \<Rightarrow> submit_order \<Rightarrow> held_route \<Rightarrow> order_request \<Rightarrow> int \<Rightarrow> cmd_ack exec" where
  "place_submit K cm route req deadline = do {
     verdict \<leftarrow> gets (\<lambda>c. admit_submit c cm req);
     leaves \<leftarrow> gets (\<lambda>c. if requiresReductionGuard c req \<and> \<not> deferred_size cm
        then checkSellLeaves c req (r_qty req) '''' else (True, ''''));
     b \<leftarrow> gets (\<lambda>c. mget (cr_brokers c) (r_venue req));
     rth \<leftarrow> gets (\<lambda>c. PhaseAt (cr_tz c) (now c) = RTH);
     if \<not> fst verdict then block_order req (snd verdict)
     else if \<not> fst leaves then return (nacked (snd leaves) (r_clientOrderID req))
     else case b of
       None \<Rightarrow> return (nacked ''unknown venue'' (r_clientOrderID req))
     | Some caps \<Rightarrow>
         if r_session req = SessionOvernight \<and> \<not> cb_overnightSession caps
         then block_order req ''venue does not support overnight session''
         else if r_type req = TypeMarket \<and> \<not> rth \<and> \<not> cb_marketOutsideRTH caps
         then block_order req ''market order outside regular hours (UI converts these to marketable limits)''
         else if route = RouteEngineHeld then submit_held K cm req deadline
         else submit_native req
   }"

definition handleSubmit :: "calls \<Rightarrow> submit_order \<Rightarrow> cmd_ack exec" where
  "handleSubmit K cm =
     (if so_type cm = TypeTrailingStop then return (nacked ''use SubmitTrail with a trailing configuration'' '''')
      else do {
        i \<leftarrow> next_id;
        let req = submit_request cm i;
        ready \<leftarrow> gets (\<lambda>c. PositionsReady (st c) (r_venue req));
        routed \<leftarrow> gets (\<lambda>c. route_submit c cm req);
        case submit_shape cm req of
          Some why \<Rightarrow> return \<lparr>ak_accepted = False, ak_reason = why, ak_orderID = i\<rparr>
        | None \<Rightarrow>
            if deferred_size cm \<and> \<not> ready
            then return (nacked ''position data unavailable; reconcile the venue before placing a deferred stop-sell'' i)
            else case routed of
              Inl why \<Rightarrow> return (nacked why i)
            | Inr (route, req1, deadline) \<Rightarrow> place_submit K cm route req1 deadline
      })"

section \<open>Replacing\<close>

record replace_order =
  ro_expectedRiskEntryPhase :: string
  ro_venue :: venue_id
  ro_orderID :: string
  ro_qty :: f64
  ro_limitPrice :: f64
  ro_stopPrice :: f64
  ro_expectedHeldPhase :: held_phase

definition replace_action :: "exec_order \<Rightarrow> replace_request \<Rightarrow> order_action" where
  "replace_action o1 rr = action0\<lparr>a_kind := ActionReplace, a_phase := ActionRequested, a_previousLimitPrice := o_limitPrice o1,
     a_previousStopPrice := o_stopPrice o1, a_requestedLimitPrice := rr_limitPrice rr,
     a_requestedStopPrice := rr_stopPrice rr, a_requestedQty := rr_qty rr\<rparr>"

text \<open>A replacement at the venue: the intent is logged, then the call is started.\<close>

definition replace_at_venue :: "exec_order \<Rightarrow> replace_order \<Rightarrow> cmd_ack exec" where
  "replace_at_venue o1 cm = do {
     let i = o_id o1;
     b \<leftarrow> gets (\<lambda>c. mget (cr_brokers c) (ro_venue cm));
     let qty = (if ro_qty cm \<le> 0
                then let q = o_executedQty o1 + o_leavesQty o1 in if q \<le> 0 then o_qty o1 else q
                else ro_qty cm);
     guarded \<leftarrow> gets (\<lambda>c. requiresReductionGuard c (venue_request o1));
     leaves \<leftarrow> gets (\<lambda>c. if guarded \<and> qty - o_executedQty o1 > o_leavesQty o1 + tiny
        then checkSellLeaves c ((venue_request o1)\<lparr>r_qty := qty\<rparr>) (qty - o_executedQty o1) i else (True, ''''));
     let limit = (if ro_limitPrice cm \<le> 0 then o_limitPrice o1 else ro_limitPrice cm);
     let stop = (if ro_stopPrice cm \<le> 0 then o_stopPrice o1 else ro_stopPrice cm);
     if b = None then return (nacked ''unknown venue'' i)
     else if qty \<le> o_executedQty o1 then return (nacked ''replacement quantity must exceed executed quantity'' i)
     else if \<not> fst leaves then return (nacked (snd leaves) i)
     else if limit \<le> 0 \<and> o_type o1 \<noteq> TypeMarket then return (nacked ''replacement limit price must be positive'' i)
     else do {
       let rr = \<lparr>rr_qty = qty, rr_limitPrice = limit, rr_stopPrice = stop\<rparr>;
       ts \<leftarrow> gets now;
       err \<leftarrow> appendAndFold (OrderActionChanged (o_venue o1) i (replace_action o1 rr) ts) SrcLocal;
       case err of
         Some w \<Rightarrow> return (nacked (''event append failed: '' @ w) i)
       | None \<Rightarrow> do {
           startVenueAction (o_venue o1) i ActionReplace rr;
           return (acked i)
         }
     }
   }"

text \<open>A replacement of an order the engine still holds moves its trigger.\<close>

definition replace_pretrigger :: "calls \<Rightarrow> exec_order \<Rightarrow> replace_order \<Rightarrow> cmd_ack exec" where
  "replace_pretrigger K o1 cm = do {
     let i = o_id o1;
     let stop = (if ro_stopPrice cm \<le> 0 then o_stopPrice o1 else ro_stopPrice cm);
     let deferred = (o_deferredPositionPct o1 > 0);
     let qty = (if ro_qty cm \<le> 0 \<and> \<not> deferred then o_executedQty o1 + o_leavesQty o1 else ro_qty cm);
     let req = \<lparr>r_venue = o_venue o1, r_symbol = o_symbol o1, r_side = o_side o1, r_type = o_type o1, r_tif = o_tif o1,
                r_session = o_session o1, r_qty = qty, r_limitPrice = o_limitPrice o1, r_stopPrice = stop, r_clientOrderID = i\<rparr>;
     ready \<leftarrow> gets (\<lambda>c. PositionsReady (st c) (o_venue o1));
     verdict \<leftarrow> gets (\<lambda>c. heldGate c req i);
     if o_type o1 = TypeStopLimit \<and>
        ((o_side o1 = SideBuy \<or> o_side o1 = SideCover) \<and> o_limitPrice o1 < stop \<or>
         (o_side o1 = SideSell \<or> o_side o1 = SideShort) \<and> o_limitPrice o1 > stop)
     then return (nacked ''stop change would put limit on the wrong side of trigger'' i)
     else if \<not> deferred \<and> qty \<le> o_executedQty o1
     then return (nacked ''replacement quantity must exceed executed quantity'' i)
     else if deferred \<and> \<not> ready
     then return (nacked ''position data unavailable; reconcile the venue before editing this stop'' i)
     else if \<not> fst verdict then return (nacked (snd verdict) i)
     else do {
       ts \<leftarrow> gets now;
       err \<leftarrow> appendAndFold (OrderReplaced (o_venue o1) i qty 0 stop ts) SrcLocal;
       case err of
         Some w \<Rightarrow> return (nacked (''event append failed: '' @ w) i)
       | None \<Rightarrow> do {
           p \<leftarrow> gets (\<lambda>c. mget (cr_lastEligible c) (o_symbol o1));
           due \<leftarrow> gets (\<lambda>c. case p of None \<Rightarrow> False
             | Some x \<Rightarrow> freshEligiblePrint c x \<and> HeldOrderTriggered (o_type o1) (o_side o1) (ep_price x) stop);
           current \<leftarrow> gets (\<lambda>c. the_order c i);
           whenM due (activateProtectedStop K current (case p of Some x \<Rightarrow> x | None \<Rightarrow> print0));
           return (acked i)
         }
     }
   }"

definition handleReplaceSingle :: "calls \<Rightarrow> replace_order \<Rightarrow> cmd_ack exec" where
  "handleReplaceSingle K cm = do {
     owner \<leftarrow> gets (\<lambda>c. OrderVenue (st c) (ro_orderID cm));
     o1 \<leftarrow> gets (\<lambda>c. mget0 order0 (vs_orders (venue_at (st c) (ro_venue cm))) (ro_orderID cm));
     if owner \<noteq> Some (ro_venue cm) then return (nacked ''unknown order'' (ro_orderID cm))
     else if unresolved o1 then return (nacked ''order action outcome is still unresolved'' (o_id o1))
     else if o_held o1 = None then replace_at_venue o1 cm
     else if phase_of o1 = HeldPaused \<or> h_cancelRequested (held_of o1) \<or> phase_of o1 = HeldCancelRequested \<or> phase_of o1 = HeldUnknown
     then return (nacked ''held order is not modifiable in its current state'' (o_id o1))
     else if phase_of o1 = HeldWaiting \<or> phase_of o1 = HeldArmed then replace_pretrigger K o1 cm
     else if phase_of o1 \<noteq> HeldWorking
     then return (nacked ''held order is not modifiable in its current state'' (o_id o1))
     else let qty = (if ro_qty cm \<le> 0 then o_executedQty o1 + o_leavesQty o1 else ro_qty cm) in
       if qty \<le> o_executedQty o1
       then return (nacked ''replacement quantity must exceed executed quantity'' (o_id o1))
       else replace_at_venue o1 (cm\<lparr>ro_qty := qty, ro_stopPrice := o_stopPrice o1\<rparr>)
   }"

section \<open>Replacing a leg of a risk plan\<close>

definition account_stale :: "core \<Rightarrow> venue_id \<Rightarrow> bool" where
  "account_stale c v \<longleftrightarrow> (let a = vs_account (venue_at (st c) v) in
     \<not> riskAccountFresh (st c) v \<or> ac_tsMs a \<le> 0 \<or> now c - ac_tsMs a > 30000)"

definition risk_funds :: "core \<Rightarrow> venue_id \<Rightarrow> string \<Rightarrow> f64" where
  "risk_funds c v mode = (let a = vs_account (venue_at (st c) v) in if mode = ''CashPct'' then ac_availableCash a else ac_buyingPower a)"

definition leg_request :: "exec_order \<Rightarrow> f64 \<Rightarrow> f64 \<Rightarrow> f64 \<Rightarrow> order_request" where
  "leg_request entry qty limit stop = \<lparr>r_venue = o_venue entry, r_symbol = o_symbol entry, r_side = SideBuy, r_type = TypeStopLimit,
     r_tif = TIFDay, r_session = SessionExtended, r_qty = qty, r_limitPrice = limit, r_stopPrice = stop, r_clientOrderID = o_id entry\<rparr>"

definition activate_crossed_buy :: "calls \<Rightarrow> exec_order \<Rightarrow> unit exec" where
  "activate_crossed_buy K entry = do {
     p \<leftarrow> gets (\<lambda>c. mget (cr_lastEligible c) (o_symbol entry));
     due \<leftarrow> gets (\<lambda>c. case p of None \<Rightarrow> False
       | Some x \<Rightarrow> freshEligiblePrint c x \<and> StopLimitTriggered SideBuy (ep_price x) (o_stopPrice entry));
     whenM due (activateHeld K entry)
   }"

definition replaceRiskAdd :: "calls \<Rightarrow> replace_order \<Rightarrow> exec_order \<Rightarrow> risk_entry \<Rightarrow> exec_order \<Rightarrow> cmd_ack exec" where
  "replaceRiskAdd K cm entry risk stop = do {
     let i = o_id entry;
     healthy \<leftarrow> gets (\<lambda>c. case o_riskEntry (riskOwner c entry) of None \<Rightarrow> False
       | Some w \<Rightarrow> \<not> re_closing w \<and> \<not> re_protectionCanceled w \<and> re_failure w = '''');
     stale \<leftarrow> gets (\<lambda>c. account_stale c (o_venue entry));
     funds \<leftarrow> gets (\<lambda>c. risk_funds c (o_venue entry) (re_mode risk));
     let floor = math_max (o_stopPrice stop) (re_addStopPrice risk);
     if \<not> healthy then return (nacked ''shared protection unavailable'' i)
     else if \<not> validLimitIfTouchedPrice (ro_stopPrice cm) \<or> ro_stopPrice cm \<le> floor
     then return (nacked ''add buy trigger must be above the shared stop'' i)
     else if \<not> finitePositive (ro_qty cm)
     then return (nacked ''positive reviewed share quantity required before buy activation'' i)
     else if stale then return (nacked ''fresh account data required'' i)
     else case riskLimit (ro_stopPrice cm) (re_buyCushion risk) True of
       Inl err \<Rightarrow> return (nacked err i)
     | Inr limit \<Rightarrow> (case riskLimit floor (re_sellCushion risk) False of
         Inl err \<Rightarrow> return (nacked err i)
       | Inr sell \<Rightarrow> do {
           let qty = math_min (o_qty entry) (math_min (math_floor (ro_qty cm)) (riskShares (re_budget risk) limit sell funds));
           verdict \<leftarrow> gets (\<lambda>c. heldGate c (leg_request entry qty limit (ro_stopPrice cm)) i);
           if qty \<le> 0 then return (nacked ''risk or funding budget rounds to zero shares'' i)
           else if \<not> fst verdict then return (nacked (snd verdict) i)
           else do {
             ts \<leftarrow> gets now;
             let moved = entry\<lparr>o_stopPrice := ro_stopPrice cm, o_limitPrice := limit, o_qty := qty, o_leavesQty := qty, o_updatedMs := ts\<rparr>;
             err \<leftarrow> appendAndFold (RiskEntryChanged moved order0) SrcLocal;
             case err of
               Some w \<Rightarrow> return (nacked (''event append failed: '' @ w) i)
             | None \<Rightarrow> do { activate_crossed_buy K moved; return (acked i) }
           }
         })
   }"

text \<open>What a drag of a triggered leg may do, and the pair a drag of a waiting leg asks for.\<close>

definition replace_working_leg :: "calls \<Rightarrow> replace_order \<Rightarrow> exec_order \<Rightarrow> cmd_ack exec" where
  "replace_working_leg K cm o1 = do {
     let req = \<lparr>r_venue = o_venue o1, r_symbol = o_symbol o1, r_side = o_side o1, r_type = TypeLimit, r_tif = o_tif o1,
                r_session = o_session o1, r_qty = o_leavesQty o1, r_limitPrice = ro_limitPrice cm, r_stopPrice = 0,
                r_clientOrderID = o_id o1\<rparr>;
     verdict \<leftarrow> gets (\<lambda>c. heldGate c req (o_id o1));
     if phase_of o1 \<noteq> HeldWorking \<or> \<not> validLimitIfTouchedPrice (ro_limitPrice cm)
     then return (nacked ''invalid working limit modification'' (o_id o1))
     else if \<not> feq (ro_qty cm) 0 \<and> \<not> feq (ro_qty cm) (o_qty o1)
     then return (nacked ''linked quantity locks at buy activation'' (o_id o1))
     else if o_side o1 = SideBuy \<and> \<not> fst verdict then return (nacked (snd verdict) (o_id o1))
     else handleReplaceSingle K cm
   }"

definition move_leg :: "exec_order \<Rightarrow> f64 \<Rightarrow> limit_cushion \<Rightarrow> bool \<Rightarrow> string + exec_order" where
  "move_leg o1 stop cushion buy = (case riskLimit stop cushion buy of
     Inl err \<Rightarrow> Inl err | Inr price \<Rightarrow> Inr (o1\<lparr>o_stopPrice := stop, o_limitPrice := price\<rparr>))"

definition drag_pair :: "exec_order \<Rightarrow> exec_order \<Rightarrow> exec_order \<Rightarrow> risk_entry \<Rightarrow> f64 \<Rightarrow> string + (exec_order \<times> exec_order)" where
  "drag_pair o1 entry stop risk price =
     (if o_id o1 = o_id entry
      then case move_leg entry price (re_buyCushion risk) True of Inl err \<Rightarrow> Inl err | Inr e \<Rightarrow> Inr (e, stop)
      else case move_leg stop price (re_sellCushion risk) False of Inl err \<Rightarrow> Inl err | Inr s \<Rightarrow> Inr (entry, s))"

text \<open>The size of a plan whose buy has not been activated.\<close>

definition size_pair :: "core \<Rightarrow> replace_order \<Rightarrow> exec_order \<Rightarrow> exec_order \<Rightarrow> risk_entry \<Rightarrow> string + f64" where
  "size_pair c cm entry stop risk =
     (if \<not> finitePositive (ro_qty cm) then Inl ''positive reviewed share quantity required before buy activation''
      else if o_stopPrice stop \<ge> o_stopPrice entry then Inl ''sell trigger must be below buy trigger''
      else if account_stale c (o_venue entry) then Inl ''fresh account data required''
      else let qty = math_min (riskShares (re_budget risk) (o_limitPrice entry) (o_limitPrice stop)
                                 (risk_funds c (o_venue entry) (re_mode risk))) (math_floor (ro_qty cm))
           in if \<not> finitePositive qty then Inl ''risk or funding budget rounds to zero shares''
              else case heldGate c (leg_request entry qty (o_limitPrice entry) (o_stopPrice entry)) (o_id entry) of
                     (good, why) \<Rightarrow> if good then Inr qty else Inl why)"

text \<open>A drag that would fire the stop must not lose the protection over a share conflict it can see.\<close>

definition drag_conflict :: "core \<Rightarrow> exec_order \<Rightarrow> exec_order \<Rightarrow> bool \<Rightarrow> ack_reason option" where
  "drag_conflict c o1 stop due =
     (if \<not> due then None
      else case sellLeavesCheck c (venue_request stop) (o_leavesQty stop) (o_id stop) of (available, why) \<Rightarrow>
        if why = '''' then None
        else if why = sellLeavesShortfall then Some (StopShort (o_stopPrice o1) (o_leavesQty stop) available)
        else Some (StopStays (o_stopPrice o1) why))"

definition commit_drag :: "calls \<Rightarrow> exec_order \<Rightarrow> exec_order \<Rightarrow> exec_order \<Rightarrow> cmd_ack exec" where
  "commit_drag K o1 entry stop = do {
     let current = (if o_id o1 \<noteq> o_id entry then stop else entry);
     p \<leftarrow> gets (\<lambda>c. mget (cr_lastEligible c) (o_symbol o1));
     let x = (case p of Some x \<Rightarrow> x | None \<Rightarrow> print0);
     let crossed = (p \<noteq> None \<and> StopLimitTriggered (o_side current) (ep_price x) (o_stopPrice current));
     open_stop \<leftarrow> gets (\<lambda>c. o_riskEntryID o1 \<noteq> '''' \<and> crossed \<and> freshEligiblePrint c x \<and> protectionCanWait c stop \<and>
        h_deadlineMs (held_of stop) > now c);
     due \<leftarrow> (if open_stop then price_accepted x else return False);
     conflict \<leftarrow> gets (\<lambda>c. drag_conflict c o1 stop due);
     case conflict of
       Some why \<Rightarrow> return \<lparr>ak_accepted = False, ak_reason = why, ak_orderID = o_id o1\<rparr>
     | None \<Rightarrow> do {
         ts \<leftarrow> gets now;
         err \<leftarrow> appendAndFold (RiskEntryChanged (entry\<lparr>o_updatedMs := ts\<rparr>) (stop\<lparr>o_updatedMs := ts\<rparr>)) SrcLocal;
         case err of
           Some w \<Rightarrow> return (nacked (''event append failed: '' @ w) (o_id o1))
         | None \<Rightarrow> do {
             fresh \<leftarrow> gets (\<lambda>c. crossed \<and> freshEligiblePrint c x);
             whenM fresh (activateProtectedStop K current x);
             return (acked (o_id o1))
           }
       }
   }"

definition replace_waiting_leg :: "calls \<Rightarrow> replace_order \<Rightarrow> exec_order \<Rightarrow> exec_order \<Rightarrow> risk_entry \<Rightarrow> cmd_ack exec" where
  "replace_waiting_leg K cm o1 entry risk = do {
     stop \<leftarrow> gets (\<lambda>c. the_order c (re_stopID risk));
     ready \<leftarrow> gets (\<lambda>c. PositionsReady (st c) (o_venue entry));
     if re_sharedEntryID risk \<noteq> '''' then replaceRiskAdd K cm entry risk stop
     else if o_riskEntryID o1 \<noteq> '''' \<and> o_id o1 \<noteq> o_id stop
     then return (nacked ''late-fill protection trigger is locked; adjust its working limit'' (o_id o1))
     else if \<not> validLimitIfTouchedPrice (ro_stopPrice cm) then return (nacked ''invalid trigger price'' (o_id o1))
     else case drag_pair o1 entry stop risk (ro_stopPrice cm) of
       Inl err \<Rightarrow> return (nacked err (o_id o1))
     | Inr (entry1, stop1) \<Rightarrow>
         if h_childClientID (held_of entry) = ''''
         then do {
           sized \<leftarrow> gets (\<lambda>c. size_pair c cm entry1 stop1 risk);
           case sized of
             Inl why \<Rightarrow> return (nacked why (o_id o1))
           | Inr qty \<Rightarrow> commit_drag K o1 (entry1\<lparr>o_qty := qty, o_leavesQty := qty\<rparr>) stop1
         }
         else if o_id o1 \<noteq> o_id entry \<and> \<not> ready then return (nacked ''position data unavailable'' (o_id o1))
         else commit_drag K o1 entry1 stop1
   }"

definition replaceRisk :: "calls \<Rightarrow> replace_order \<Rightarrow> exec_order \<Rightarrow> cmd_ack exec" where
  "replaceRisk K cm o1 = do {
     owner \<leftarrow> gets (\<lambda>c. riskOwner c o1);
     let entry = (if o_riskEntry o1 \<noteq> None then o1 else owner);
     let i = o_id o1;
     let expected = (ro_expectedHeldPhase cm = HeldWaiting \<or> ro_expectedHeldPhase cm = HeldArmed);
     case o_riskEntry entry of
       None \<Rightarrow> return (nacked ''linked order unavailable'' i)
     | Some risk \<Rightarrow>
         if o_held o1 = None \<or> \<not> Working o1 then return (nacked ''linked order unavailable'' i)
         else if ro_expectedRiskEntryPhase cm \<noteq>
                 (if h_childClientID (held_of entry) \<noteq> '''' then ''ACTIVATED'' else ''WAITING'')
         then return (nacked ''entry activated or changed during drag; review current risk sizing'' i)
         else if pretrigger o1 \<and> trail_of o1 \<noteq> None
         then return (nacked ''derived trailing prices cannot be dragged; edit trail parameters'' i)
         else if ro_expectedHeldPhase cm = HeldPhaseStr '''' \<or> pretrigger o1 \<noteq> expected \<or>
                 \<not> pretrigger o1 \<and> ro_expectedHeldPhase cm \<noteq> phase_of o1
         then return (nacked ''order activated or changed during drag; review current order'' i)
         else if h_cancelRequested (held_of o1) \<or> phase_of o1 = HeldPaused \<or> phase_of o1 = HeldUnknown \<or> unresolved o1
         then return (nacked ''linked order action unresolved or paused'' i)
         else if \<not> pretrigger o1 then replace_working_leg K cm o1
         else replace_waiting_leg K cm o1 entry risk
   }"

definition handleReplace :: "calls \<Rightarrow> replace_order \<Rightarrow> cmd_ack exec" where
  "handleReplace K cm = do {
     o1 \<leftarrow> gets (\<lambda>c. the_order c (ro_orderID cm));
     if o_venue o1 = ro_venue cm \<and> (o_riskEntry o1 \<noteq> None \<or> o_riskEntryID o1 \<noteq> '''') then replaceRisk K cm o1
     else handleReplaceSingle K cm
   }"

end
