(* ===== verification/CoreCommands.thy ===== *)
theory CoreCommands
  imports CoreOrders
begin

text \<open>
  The commands that open a risk plan (\<open>handleRiskEntry\<close> of \<open>risk_entry.go\<close>, \<open>riskAddProtection\<close> of
  \<open>risk_add.go\<close>), a trail (\<open>handleSubmitTrail\<close>, \<open>configureTrail\<close>), resume a held order
  (\<open>handleResumeHeld\<close>), flatten or reset a venue; the position check of trails
  (\<open>checkTrailPositions\<close>); and the dispatch \<open>handleCmd\<close>.
\<close>

section \<open>Chart risk entries\<close>

record submit_risk =
  sr_sharedEntryID :: string
  sr_venue :: venue_id
  sr_symbol :: string
  sr_buyStop :: f64
  sr_sellStop :: f64
  sr_mode :: string
  sr_value :: f64
  sr_maxQty :: f64
  sr_buyCushion :: limit_cushion
  sr_sellCushion :: limit_cushion
  sr_protection :: "trail_config option"

text \<open>The first protective stop of the symbol decides; \<open>Inl\<close> is the refusal.\<close>

definition shared_stop_ok :: "core \<Rightarrow> exec_order \<Rightarrow> exec_order \<Rightarrow> risk_entry \<Rightarrow> f64 \<Rightarrow> string option" where
  "shared_stop_ok c owner stop risk qty =
     (let h = held_of stop in
      if re_closing risk \<or> re_protectionCanceled risk \<or> re_failure risk \<noteq> '''' \<or> \<not> pretrigger stop \<or>
         h_childClientID h \<noteq> '''' \<or> h_cancelRequested h \<or> h_deadlineMs h \<le> now c \<or> unresolved stop \<or>
         (case trail_of stop of None \<Rightarrow> False | Some t \<Rightarrow> t_retired t \<or> t_triggered t)
      then Some ''add requires healthy untriggered shared protection''
      else if (case trail_of stop of None \<Rightarrow> False | Some t \<Rightarrow> tc_pricing (t_config t) \<noteq> ''CUSHION'')
      then Some ''add requires stop-relative Limit Cushion protection''
      else if \<bar>o_leavesQty stop - qty\<bar> > tiny \<or> \<bar>riskFilledQty c owner - re_retiredQty risk - qty\<bar> > tiny
      then Some ''add requires full confirmed shared protection''
      else None)"

fun find_shared :: "core \<Rightarrow> string \<Rightarrow> f64 \<Rightarrow> exec_order list \<Rightarrow> string + (exec_order \<times> exec_order)" where
  "find_shared c symbol qty [] = Inl ''risk entry requires a flat symbol or a healthy Chart Risk Entry stop''"
| "find_shared c symbol qty (stop # rest) =
     (if o_symbol stop \<noteq> symbol \<or> o_side stop \<noteq> SideSell \<or> \<not> Working stop \<or> o_riskEntryID stop = ''''
      then find_shared c symbol qty rest
      else let owner = riskOwner c stop in
        case o_riskEntry owner of
          None \<Rightarrow> find_shared c symbol qty rest
        | Some risk \<Rightarrow>
            if re_stopID risk \<noteq> o_id stop then find_shared c symbol qty rest
            else case shared_stop_ok c owner stop risk qty of Some why \<Rightarrow> Inl why | None \<Rightarrow> Inr (owner, stop))"

definition orders_in :: "core \<Rightarrow> venue_id \<Rightarrow> string list \<Rightarrow> exec_order list" where
  "orders_in c v ks = map (mget0 order0 (vs_orders (venue_at (st c) v))) ks"

definition riskAddProtection :: "venue_id \<Rightarrow> string \<Rightarrow> (string + (exec_order \<times> exec_order)) exec" where
  "riskAddProtection v symbol = do {
     qty \<leftarrow> gets (\<lambda>c. p_qty (mget0 position0 (vs_positions (venue_at (st c) v)) symbol));
     checking \<leftarrow> gets (\<lambda>c. mhas (cr_trailPositionChecks c) v);
     if feq qty 0 then return (Inr (order0, order0))
     else if qty < 0 then return (Inl ''risk entry requires a flat symbol or a protected long position'')
     else if checking then return (Inl ''position attribution pending; reconcile first'')
     else do {
       ks \<leftarrow> gets (\<lambda>c. map fst (vs_orders (venue_at (st c) v)));
       ks \<leftarrow> range_keys ks;
       gets (\<lambda>c. find_shared c symbol qty (orders_in c v ks))
     }
   }"

text \<open>Another working order of the symbol refuses the plan; the first one met gives the reason.\<close>

fun other_working :: "string \<Rightarrow> exec_order \<Rightarrow> exec_order \<Rightarrow> exec_order list \<Rightarrow> string option" where
  "other_working symbol owner stop [] = None"
| "other_working symbol owner stop (o1 # rest) =
     (if o_symbol o1 = symbol \<and> Working o1 \<and> o_id o1 \<noteq> o_id stop
      then Some (if o_id owner \<noteq> '''' \<and> o_riskEntry o1 \<noteq> None then ''only one pending Chart Risk Entry is allowed''
                 else ''risk entry requires no other working orders'')
      else other_working symbol owner stop rest)"

text \<open>The command with the protection it shares filled in.\<close>

definition share_protection :: "exec_order \<Rightarrow> exec_order \<Rightarrow> submit_risk \<Rightarrow> submit_risk" where
  "share_protection owner stop cm = (case o_riskEntry owner of
     None \<Rightarrow> cm
   | Some r \<Rightarrow>
       let cm = cm\<lparr>sr_sellCushion := re_sellCushion r, sr_protection := re_protection r\<rparr>
       in case trail_of stop of None \<Rightarrow> cm
          | Some t \<Rightarrow> cm\<lparr>sr_protection := Some (t_config t), sr_sellCushion := tc_cushion (t_config t)\<rparr>)"

text \<open>Budget and funds of a mode, then the limits and the share count: \<open>(qty, budget, buy, sell)\<close>.\<close>

definition risk_budget :: "account_snapshot \<Rightarrow> submit_risk \<Rightarrow> string + (f64 \<times> f64)" where
  "risk_budget a cm =
     (if sr_mode cm = ''Dollar'' then Inr (sr_value cm, ac_buyingPower a)
      else if sr_mode cm = ''CashPct'' then Inr (ac_availableCash a * sr_value cm / Fin 100, ac_availableCash a)
      else if sr_mode cm = ''BuyingPowerPct'' then Inr (ac_buyingPower a * sr_value cm / Fin 100, ac_buyingPower a)
      else Inl ''invalid risk mode'')"

definition size_risk :: "core \<Rightarrow> submit_risk \<Rightarrow> string + (f64 \<times> f64 \<times> f64 \<times> f64)" where
  "size_risk c cm =
     (let a = vs_account (venue_at (st c) (sr_venue cm)) in
      if account_stale c (sr_venue cm) \<or> ac_tsMs a > now c + 1000 then Inl ''fresh account data required''
      else if unacknowledged (cr_heldLiveIdentity c) (cr_heldLiveAck c) (sr_venue cm)
      then Inl ''live engine-held stop-limit requires account acknowledgement''
      else if is_nan (sr_value cm) \<or> is_inf (sr_value cm) \<or> sr_value cm \<le> 0 \<or> \<not> finitePositive (sr_maxQty cm)
      then Inl ''positive risk value and preview quantity required''
      else case risk_budget a cm of
        Inl why \<Rightarrow> Inl why
      | Inr (budget, funds) \<Rightarrow>
          if sr_mode cm \<noteq> ''Dollar'' \<and> sr_value cm > Fin 100 then Inl ''risk percentage must be at most 100''
          else case riskLimit (sr_buyStop cm) (sr_buyCushion cm) True of
            Inl err \<Rightarrow> Inl err
          | Inr buyLimit \<Rightarrow> (case riskLimit (sr_sellStop cm) (sr_sellCushion cm) False of
              Inl err \<Rightarrow> Inl ''sell trigger must be below buy trigger with valid execution limits''
            | Inr sellLimit \<Rightarrow>
                if sr_sellStop cm \<ge> sr_buyStop cm
                then Inl ''sell trigger must be below buy trigger with valid execution limits''
                else let qty = math_min (riskShares budget buyLimit sellLimit funds) (math_floor (sr_maxQty cm))
                     in if \<not> finitePositive qty then Inl ''risk or funding budget rounds to zero shares''
                        else Inr (qty, budget, buyLimit, sellLimit)))"

definition risk_request :: "submit_risk \<Rightarrow> f64 \<Rightarrow> f64 \<Rightarrow> string \<Rightarrow> order_request" where
  "risk_request cm qty buyLimit i = \<lparr>r_venue = sr_venue cm, r_symbol = sr_symbol cm, r_side = SideBuy, r_type = TypeStopLimit,
     r_tif = TIFDay, r_session = SessionExtended, r_qty = qty, r_limitPrice = buyLimit, r_stopPrice = sr_buyStop cm,
     r_clientOrderID = i\<rparr>"

definition admit_risk :: "core \<Rightarrow> submit_risk \<Rightarrow> order_request \<Rightarrow> bool \<Rightarrow> string option" where
  "admit_risk c cm req shared =
     (case Evaluate (st c) (cr_gate c) req (mark_of c) of (good, why) \<Rightarrow>
        if \<not> good then Some why
        else let cap = (case mget (gc_venue (cr_gate c)) (sr_venue cm) of None \<Rightarrow> 0 | Some vl \<Rightarrow> vl_maxOpenOrders vl) in
          if cap > 0 \<and> workingCount (venue_at (st c) (sr_venue cm)) + (if shared then 1 else 2) > cap
          then Some ''insufficient open-order capacity for pair''
          else if cr_heldDemand c = None then Some ''execution ticker demand unavailable'' else None)"

text \<open>The trail a preset arms the stop with.\<close>

definition preset_trail :: "submit_risk \<Rightarrow> string + trail_config option" where
  "preset_trail cm = (case sr_protection cm of
     None \<Rightarrow> Inr None
   | Some config0 \<Rightarrow>
       if tc_pricing config0 \<noteq> ''CUSHION'' \<and> tc_pricing config0 \<noteq> ''''
       then Inl ''risk presets require stop-relative Limit Cushion execution''
       else case validateTrailConfig (config0\<lparr>tc_sessions := \<lparr>ts_pre = True, ts_rth = True, ts_post = True\<rparr>,
                  tc_pricing := ''CUSHION'', tc_cushion := sr_sellCushion cm\<rparr>) of
              Inl err \<Rightarrow> Inl err | Inr config \<Rightarrow> Inr (Some config))"

definition fixed_stop :: "submit_risk \<Rightarrow> order_request \<Rightarrow> string \<Rightarrow> f64 \<Rightarrow> int \<Rightarrow> int \<Rightarrow> trail_config option \<Rightarrow> exec_order" where
  "fixed_stop cm req i sellLimit deadline ts preset =
     (let o1 = newOrderFromRequest (req\<lparr>r_side := SideSell, r_qty := 0, r_limitPrice := sellLimit,
                 r_stopPrice := sr_sellStop cm, r_clientOrderID := i\<rparr>) ts;
          trail = map_option (\<lambda>config. \<lparr>t_references = [], t_positionCycle = '''', t_floor = sr_sellStop cm, t_config = config,
                 t_watermark = 0, t_stop = sr_sellStop cm, t_limit = sellLimit, t_triggered = False, t_retired = False,
                 t_reservedQty = 0, t_reference = None\<rparr>) preset
      in o1\<lparr>o_held := Some (held_none\<lparr>h_phase := HeldWaiting, h_deadlineMs := deadline,
                 h_pausedReason := ''awaiting entry fills'', h_trail := trail\<rparr>), o_riskEntryID := r_clientOrderID req\<rparr>)"

definition plan_of :: "submit_risk \<Rightarrow> f64 \<Rightarrow> exec_order \<Rightarrow> exec_order \<Rightarrow> risk_entry" where
  "plan_of cm budget owner stop = \<lparr>re_sharedEntryID = o_id owner, re_addStopPrice = (if o_id owner = '''' then 0 else sr_sellStop cm),
     re_stopApplied = False, re_stopID = o_id stop, re_budget = budget, re_mode = sr_mode cm, re_buyCushion = sr_buyCushion cm,
     re_sellCushion = sr_sellCushion cm, re_closing = False, re_protectionCanceled = False, re_failure = '''',
     re_flatConfirmedQty = 0, re_protection = sr_protection cm, re_retiredQty = 0\<rparr>"

definition release_pair :: "string \<Rightarrow> string \<Rightarrow> bool \<Rightarrow> unit exec" where
  "release_pair entryID stopID shared = do { releaseHeld entryID; whenM (\<not> shared) (releaseHeld stopID) }"

text \<open>Leases, deadline and account are checked again after the leases, then the pair is appended.\<close>

definition open_plan :: "calls \<Rightarrow> submit_risk \<Rightarrow> exec_order \<Rightarrow> exec_order \<Rightarrow> bool \<Rightarrow> int \<Rightarrow> cmd_ack exec" where
  "open_plan K cm entry stop shared acctMs = do {
     let deadline = h_deadlineMs (held_of entry);
     err \<leftarrow> each_err (if shared then [entry] else [entry, stop]) acquireHeldDemand;
     expired \<leftarrow> gets (\<lambda>c. deadline \<le> now c);
     stale \<leftarrow> gets (\<lambda>c. now c - acctMs > 30000);
     if err \<noteq> None
     then do {
       release_pair (o_id entry) (o_id stop) shared;
       return (nacked (''execution ticker unavailable: '' @ (case err of Some w \<Rightarrow> w | None \<Rightarrow> '''')) '''')
     }
     else if expired
     then do { release_pair (o_id entry) (o_id stop) shared; return (nacked ''risk entry session expired while acquiring ticker'' '''') }
     else if stale
     then do { release_pair (o_id entry) (o_id stop) shared; return (nacked ''fresh account data required'' '''') }
     else do {
       p \<leftarrow> gets (\<lambda>c. mget (cr_lastEligible c) (sr_symbol cm));
       let x = (case p of Some x \<Rightarrow> x | None \<Rightarrow> print0);
       fresh \<leftarrow> gets (\<lambda>c. cr_printHealthy c \<and> p \<noteq> None \<and> freshEligiblePrint c x);
       let entry = (if fresh then entry
                    else entry\<lparr>o_held := Some ((held_of entry)\<lparr>h_pausedReason := ''Waiting for market data''\<rparr>)\<rparr>);
       err \<leftarrow> appendAndFold (RiskEntryChanged entry stop) SrcLocal;
       case err of
         Some w \<Rightarrow> do {
           release_pair (o_id entry) (o_id stop) shared;
           return (nacked (''event append failed: '' @ w) '''')
         }
       | None \<Rightarrow> do {
           due \<leftarrow> gets (\<lambda>c. fresh \<and> freshEligiblePrint c x \<and> deadline > now c \<and>
              StopLimitTriggered SideBuy (ep_price x) (o_stopPrice entry));
           whenM due (activateHeld K entry);
           requestProtectionBook stop;
           return (acked (o_id entry))
         }
     }
   }"

definition build_plan :: "calls \<Rightarrow> submit_risk \<Rightarrow> exec_order \<Rightarrow> exec_order \<Rightarrow> order_request \<Rightarrow> f64 \<Rightarrow> f64 \<Rightarrow> cmd_ack exec" where
  "build_plan K cm owner sharedStop req budget sellLimit = do {
     let shared = (o_id owner \<noteq> '''');
     ts \<leftarrow> gets now;
     acctMs \<leftarrow> gets (\<lambda>c. ac_tsMs (vs_account (venue_at (st c) (sr_venue cm))));
     stopID \<leftarrow> next_id;
     ts2 \<leftarrow> gets now;
     dataClose \<leftarrow> gets (\<lambda>c. ds_dataClose (Schedule (cr_tz c) (now c)));
     let deadline = (if shared then h_deadlineMs (held_of sharedStop) else dataClose);
     case (if shared then Inr None else preset_trail cm) of
       Inl err \<Rightarrow> return (nacked err '''')
     | Inr preset \<Rightarrow> do {
         let cm = (if preset = None then cm else cm\<lparr>sr_protection := preset\<rparr>);
         let stop = (if shared then sharedStop else fixed_stop cm req stopID sellLimit deadline ts2 preset);
         let entry = (newOrderFromRequest req ts)\<lparr>o_held := Some (held_none\<lparr>h_phase := HeldWaiting, h_deadlineMs := deadline\<rparr>),
                        o_riskEntry := Some (plan_of cm budget owner stop)\<rparr>;
         open_plan K cm entry stop shared acctMs
       }
   }"

definition handleRiskEntry :: "calls \<Rightarrow> submit_risk \<Rightarrow> cmd_ack exec" where
  "handleRiskEntry K cm0 = do {
     let v = sr_venue cm0;
     let symbol = sr_symbol cm0;
     b \<leftarrow> gets (\<lambda>c. mget (cr_brokers c) v);
     open \<leftarrow> gets (\<lambda>c. PhaseAt (cr_tz c) (now c) \<in> {PreMarket, RTH, PostMarket});
     ready \<leftarrow> gets (\<lambda>c. PositionsReady (st c) v \<and> \<not> vs_flattenPending (venue_at (st c) v));
     if b = None \<or> symbol = '''' then return (nacked ''missing symbol or execution venue'' '''')
     else if \<not> open then return (nacked ''risk entry is unavailable outside PRE/RTH/POST'' '''')
     else if \<not> ready then return (nacked ''position data unavailable or flatten pending'' '''')
     else do {
       found \<leftarrow> riskAddProtection v symbol;
       case found of
         Inl why \<Rightarrow> return (nacked why '''')
       | Inr (owner, sharedStop) \<Rightarrow>
           if sr_sharedEntryID cm0 \<noteq> o_id owner
           then return (nacked ''shared protection changed; review a new chart risk entry'' '''')
           else do {
             ks \<leftarrow> gets (\<lambda>c. map fst (vs_orders (venue_at (st c) v)));
             ks \<leftarrow> range_keys ks;
             xs \<leftarrow> gets (\<lambda>c. map fst (vs_externalOrders (venue_at (st c) v)));
             xs \<leftarrow> range_keys xs;
             others \<leftarrow> gets (\<lambda>c. orders_in c v ks @ map (mget0 order0 (vs_externalOrders (venue_at (st c) v))) xs);
             let cm = share_protection owner sharedStop cm0;
             sized \<leftarrow> gets (\<lambda>c. size_risk c cm);
             case other_working symbol owner sharedStop others of
               Some why \<Rightarrow> return (nacked why '''')
             | None \<Rightarrow>
                 if o_id owner \<noteq> '''' \<and> sr_sellStop cm + tiny < o_stopPrice sharedStop
                 then return (nacked ''add stop must keep or raise the shared stop'' '''')
                 else case sized of
                   Inl why \<Rightarrow> return (nacked why '''')
                 | Inr (qty, budget, buyLimit, sellLimit) \<Rightarrow> do {
                     i \<leftarrow> next_id;
                     let req = risk_request cm qty buyLimit i;
                     refused \<leftarrow> gets (\<lambda>c. admit_risk c cm req (o_id owner \<noteq> ''''));
                     case refused of
                       Some why \<Rightarrow> return (nacked why '''')
                     | None \<Rightarrow> build_plan K cm owner sharedStop req budget sellLimit
                   }
           }
     }
   }"

section \<open>Trails\<close>

record submit_trail =
  sl_venue :: venue_id
  sl_symbol :: string
  sl_side :: side
  sl_positionPct :: f64
  sl_config :: trail_config
  sl_clientOrderID :: string

definition trail_request :: "submit_trail \<Rightarrow> f64 \<Rightarrow> order_request" where
  "trail_request cm qty = \<lparr>r_venue = sl_venue cm, r_symbol = sl_symbol cm, r_side = sl_side cm, r_type = TypeLimit, r_tif = TIFDay,
     r_session = SessionExtended, r_qty = qty, r_limitPrice = 0, r_stopPrice = 0, r_clientOrderID = ''''\<rparr>"

text \<open>Admission of a trail: reducing orders pass although disarmed or beyond the day loss.\<close>

definition admit_trail :: "core \<Rightarrow> submit_trail \<Rightarrow> trail_config \<Rightarrow> string option" where
  "admit_trail c cm config =
     (let v = sl_venue cm;
          deadline = trail_deadline (cr_tz c) (tc_sessions config) (now c);
          qty = math_floor (\<bar>VenuePositionShares (st c) v (sl_symbol cm)\<bar> * sl_positionPct cm / Fin 100);
          req = trail_request cm qty;
          leaves = checkSellLeaves c req qty '''';
          gate = (cr_gate c)\<lparr>gc_global := (gc_global (cr_gate c))\<lparr>gl_maxDayLoss := 0\<rparr>, gc_accountRequired := []\<rparr>;
          verdict = EvaluateDeferredAdmission ((st c)\<lparr>st_masterArmed := True\<rparr>) gate req
      in if deadline = zero_time \<or> deadline \<le> now c then Some ''no remaining eligible session''
         else if unacknowledged (cr_heldLiveIdentity c) (cr_heldLiveAck c) v
         then Some ''engine-held stop-limit acknowledgement required''
         else if list_ex (\<lambda>(_, o1). o_symbol o1 = sl_symbol cm \<and> Working o1 \<and> (o_riskEntryID o1 \<noteq> '''' \<or> trail_of o1 \<noteq> None))
                   (vs_orders (venue_at (st c) v))
         then Some ''position already has managed protection; cancel it before placing a new trail''
         else if \<not> fst leaves then Some (snd leaves)
         else if qty \<le> 0 then Some ''position percentage rounds to zero shares''
         else if \<not> fst verdict then Some (snd verdict)
         else None)"

definition shape_trail :: "core \<Rightarrow> submit_trail \<Rightarrow> string + trail_config" where
  "shape_trail c cm =
     (if mget (cr_brokers c) (sl_venue cm) = None \<or> sl_symbol cm = '''' then Inl ''unknown venue or missing symbol''
      else if sl_side cm \<noteq> SideSell \<and> sl_side cm \<noteq> SideCover then Inl ''trail requires a reducing SELL or COVER''
      else if \<not> PositionsReady (st c) (sl_venue cm) then Inl ''position data unavailable''
      else if \<not> finitePositive (sl_positionPct cm) \<or> sl_positionPct cm > Fin 100
      then Inl ''position percentage must be in (0,100]''
      else validateTrailConfig (sl_config cm))"

definition new_trail :: "trail_config \<Rightarrow> string \<Rightarrow> trail_state" where
  "new_trail config cycle = \<lparr>t_references = [], t_positionCycle = cycle, t_floor = 0, t_config = config, t_watermark = 0,
     t_stop = 0, t_limit = 0, t_triggered = False, t_retired = False, t_reservedQty = 0, t_reference = None\<rparr>"

definition trail_demand :: "demand \<Rightarrow> trail_config \<Rightarrow> string \<Rightarrow> string \<Rightarrow> string option exec" where
  "trail_demand d config i symbol =
     (if \<not> dm_trail d \<and> (tc_pricing config = ''QUOTE'' \<or> tc_mode config = ''CANDLE'')
      then return (Some ''execution Book demand unavailable'')
      else do {
        r \<leftarrow> ask os_acquire;
        whenM (r = None) (start (AcquiredDemand i symbol));
        return (map_option (\<lambda>w. ''execution market data unavailable: '' @ w) r)
      })"

definition place_trail :: "calls \<Rightarrow> submit_trail \<Rightarrow> trail_config \<Rightarrow> int \<Rightarrow> string \<Rightarrow> cmd_ack exec" where
  "place_trail K cm config deadline i = do {
     late \<leftarrow> gets (\<lambda>c. deadline \<le> now c);
     if late then do { releaseHeld i; return (nacked ''trail session expired while acquiring market data'' i) }
     else do {
       ts \<leftarrow> gets now;
       cycle \<leftarrow> trailPositionCycle (sl_venue cm) (sl_symbol cm);
       let o1 = (newOrderFromRequest \<lparr>r_venue = sl_venue cm, r_symbol = sl_symbol cm, r_side = sl_side cm,
                   r_type = TypeTrailingStop, r_tif = TIFDay, r_session = SessionExtended, r_qty = 0, r_limitPrice = 0,
                   r_stopPrice = 0, r_clientOrderID = i\<rparr> ts)\<lparr>o_deferredPositionPct := sl_positionPct cm,
                   o_held := Some (held_none\<lparr>h_phase := HeldWaiting, h_deadlineMs := deadline,
                     h_pausedReason := ''waiting for market data'', h_trail := Some (new_trail config cycle)\<rparr>)\<rparr>;
       err \<leftarrow> appendAndFold (OrderSubmitted o1) SrcLocal;
       case err of
         Some w \<Rightarrow> do { releaseHeld i; return (nacked w i) }
       | None \<Rightarrow> do {
           requestProtectionBook o1;
           p \<leftarrow> gets (\<lambda>c. mget (cr_lastEligible c) (sl_symbol cm));
           due \<leftarrow> gets (\<lambda>c. cr_printHealthy c \<and> (case p of None \<Rightarrow> False | Some x \<Rightarrow> freshEligiblePrint c x));
           whenM due (advanceTrail K o1 (case p of Some x \<Rightarrow> x | None \<Rightarrow> print0) True);
           return (acked i)
         }
     }
   }"

definition handleSubmitTrail :: "calls \<Rightarrow> submit_trail \<Rightarrow> cmd_ack exec" where
  "handleSubmitTrail K cm = do {
     shape \<leftarrow> gets (\<lambda>c. shape_trail c cm);
     case shape of
       Inl why \<Rightarrow> return (nacked why (sl_clientOrderID cm))
     | Inr config \<Rightarrow> do {
         refused \<leftarrow> gets (\<lambda>c. admit_trail c cm config);
         deadline \<leftarrow> gets (\<lambda>c. trail_deadline (cr_tz c) (tc_sessions config) (now c));
         case refused of
           Some why \<Rightarrow> return (nacked why (sl_clientOrderID cm))
         | None \<Rightarrow> do {
             i \<leftarrow> (if sl_clientOrderID cm = '''' then next_id else return (sl_clientOrderID cm));
             known \<leftarrow> gets (\<lambda>c. OrderVenue (st c) i \<noteq> None);
             d \<leftarrow> gets cr_heldDemand;
             if known then return (nacked ''duplicate order identity'' i)
             else case d of
               None \<Rightarrow> return (nacked ''execution demand unavailable'' i)
             | Some x \<Rightarrow> do {
                 err \<leftarrow> trail_demand x config i (sl_symbol cm);
                 case err of
                   Some w \<Rightarrow> return (nacked w i)
                 | None \<Rightarrow> place_trail K cm config deadline i
               }
           }
       }
   }"

text \<open>\<open>config.Cushion != o.Held.Trail.Config.Cushion\<close>: Go compares the floats.\<close>

definition same_cushion :: "limit_cushion \<Rightarrow> limit_cushion \<Rightarrow> bool" where
  "same_cushion a b \<longleftrightarrow> feq (lc_value a) (lc_value b) \<and> lc_unit a = lc_unit b"

definition edit_trail_ok :: "core \<Rightarrow> venue_id \<Rightarrow> exec_order \<Rightarrow> held_phase \<Rightarrow> f64 \<Rightarrow> trail_config \<Rightarrow> string + trail_state" where
  "edit_trail_ok c v o1 seenPhase observedStop config =
     (if o_id o1 = '''' \<or> o_venue o1 \<noteq> v \<or> \<not> Working o1 \<or> o_held o1 = None then Inl ''held protection unavailable''
      else if \<not> pretrigger o1 \<or> \<not> (seenPhase = HeldWaiting \<or> seenPhase = HeldArmed) \<or> \<not> feq observedStop (o_stopPrice o1) \<or>
              h_cancelRequested (held_of o1) \<or> h_childClientID (held_of o1) \<noteq> '''' \<or> unresolved o1
      then Inl ''protection changed or is no longer pretrigger; review current state''
      else if \<not> PositionsReady (st c) v \<or> vs_flattenPending (venue_at (st c) v) \<or> \<not> cr_printHealthy c
      then Inl ''reliable position and market data required''
      else case trail_of o1 of
        None \<Rightarrow> Inl ''only pretrigger edits within the current trail mode are supported''
      | Some t \<Rightarrow>
          if t_triggered t \<or> t_retired t \<or> tc_mode config \<noteq> tc_mode (t_config t)
          then Inl ''only pretrigger edits within the current trail mode are supported''
          else if o_riskEntry (riskOwner c o1) \<noteq> None \<and>
                  list_ex (\<lambda>e. (case o_riskEntry e of None \<Rightarrow> False | Some r \<Rightarrow> re_sharedEntryID r \<noteq> '''') \<and> Working e \<and>
                      (tc_pricing config \<noteq> tc_pricing (t_config t) \<or> \<not> same_cushion (tc_cushion config) (tc_cushion (t_config t))))
                    (riskMembers c (riskOwner c o1))
          then Inl ''cancel pending add before changing protection execution pricing''
          else case validateTrailConfig (config\<lparr>tc_sessions := tc_sessions (t_config t)\<rparr>) of
                 Inl err \<Rightarrow> Inl err
               | Inr config1 \<Rightarrow> Inr (t\<lparr>t_config := config1\<rparr>))"

definition evidence_ok :: "core \<Rightarrow> exec_order \<Rightarrow> trail_config \<Rightarrow> eligible_print \<Rightarrow> bool" where
  "evidence_ok c o1 config p \<longleftrightarrow> freshEligiblePrint c p \<and> \<not> h_deadlineMs (held_of o1) \<le> now c \<and>
     allows (cr_tz c) (tc_sessions config) (now c)"

definition configureTrail :: "calls \<Rightarrow> venue_id \<Rightarrow> string \<Rightarrow> held_phase \<Rightarrow> f64 \<Rightarrow> trail_config \<Rightarrow> cmd_ack exec" where
  "configureTrail K v i seenPhase observedStop config0 = do {
     previous \<leftarrow> gets (\<lambda>c. the_order c i);
     checked \<leftarrow> gets (\<lambda>c. edit_trail_ok c v previous seenPhase observedStop config0);
     p \<leftarrow> gets (\<lambda>c. mget (cr_lastEligible c) (o_symbol previous));
     d \<leftarrow> gets cr_heldDemand;
     case checked of
       Inl why \<Rightarrow> return (nacked why i)
     | Inr t \<Rightarrow> do {
         let x = (case p of Some x \<Rightarrow> x | None \<Rightarrow> print0);
         ok \<leftarrow> gets (\<lambda>c. p \<noteq> None \<and> evidence_ok c previous (t_config t) x \<and>
            allows (cr_tz c) (tc_sessions (t_config t)) (ep_tsMs x));
         let o1 = previous\<lparr>o_held := Some ((held_of previous)\<lparr>h_trail := Some t\<rparr>)\<rparr>;
         if \<not> ok then return (nacked ''fresh permitted-session execution data required'' i)
         else if d = None then return (nacked ''execution demand unavailable'' i)
         else do {
           err \<leftarrow> acquireHeldDemand o1;
           case err of
             Some w \<Rightarrow> do { _ \<leftarrow> acquireHeldDemand previous; return (nacked w i) }
           | None \<Rightarrow> do {
               still \<leftarrow> gets (\<lambda>c. evidence_ok c o1 (t_config t) x);
               if \<not> still
               then do { _ \<leftarrow> acquireHeldDemand previous;
                         return (nacked ''execution evidence expired while acquiring subscriptions'' i) }
               else do {
                 err \<leftarrow> saveTrail o1 t (phase_of o1) '''';
                 case err of
                   Some w \<Rightarrow> return (nacked w i)
                 | None \<Rightarrow> do {
                     current \<leftarrow> gets (\<lambda>c. the_order c i);
                     advanceTrail K current x True;
                     return (acked i)
                   }
               }
             }
         }
       }
   }"

text \<open>A trail whose position is gone, reversed, replaced or unknown is retired.\<close>

definition trail_position_lost :: "core \<Rightarrow> exec_order \<Rightarrow> string option" where
  "trail_position_lost c o1 =
     (let qty = VenuePositionShares (st c) (o_venue o1) (o_symbol o1); entry = riskOwner c o1 in
      if \<not> PositionsReady (st c) (o_venue o1) then Some ''position continuity lost''
      else if o_riskEntry entry \<noteq> None \<and> feq (o_executedQty entry) 0 \<and> Working entry then None
      else if o_side o1 = SideSell \<and> qty \<le> 0 \<or> o_side o1 = SideCover \<and> qty \<ge> 0 then Some ''position closed or reversed''
      else None)"

definition awaiting_entry :: "core \<Rightarrow> exec_order \<Rightarrow> bool" where
  "awaiting_entry c o1 \<longleftrightarrow> (let entry = riskOwner c o1 in o_riskEntry entry \<noteq> None \<and> feq (o_executedQty entry) 0 \<and> Working entry)"

definition checkTrailPositions :: "calls \<Rightarrow> unit exec" where
  "checkTrailPositions K = do {
     syncTrailPositionCycles;
     each_held (\<lambda>o1. case trail_of o1 of
       None \<Rightarrow> return ()
     | Some t \<Rightarrow>
         if t_retired t then return ()
         else do {
           lost \<leftarrow> gets (\<lambda>c. trail_position_lost c o1);
           waiting \<leftarrow> gets (\<lambda>c. awaiting_entry c o1);
           case lost of
             Some why \<Rightarrow> retireTrail K o1 why
           | None \<Rightarrow> whenM (\<not> waiting \<and> t_positionCycle t \<noteq> '''') (do {
               cycle \<leftarrow> trailPositionCycle (o_venue o1) (o_symbol o1);
               whenM (t_positionCycle t \<noteq> cycle) (retireTrail K o1 ''position cycle changed'')
             })
         })
   }"

section \<open>Resume, flatten, reset\<close>

definition resume_refused :: "core \<Rightarrow> venue_id \<Rightarrow> exec_order \<Rightarrow> string option" where
  "resume_refused c v o1 =
     (let reducing = (o_side o1 = SideSell \<or> o_side o1 = SideCover) in
      if o_id o1 = '''' \<or> o_venue o1 \<noteq> v \<or> o_held o1 = None \<or> \<not> Working o1 then Some ''unknown held order''
      else if (case trail_of o1 of None \<Rightarrow> False | Some t \<Rightarrow> t_retired t) then Some ''trail permanently retired''
      else if phase_of o1 \<noteq> HeldPaused then Some ''held order is not paused''
      else if \<not> st_masterArmed (st c) \<and> o_riskEntryID o1 = '''' \<and> trail_of o1 = None then Some ''master disarmed''
      else if reducing \<and> vs_flattenPending (venue_at (st c) (o_venue o1))
      then Some ''venue flatten is awaiting authoritative reconciliation''
      else if reducing \<and> \<not> PositionsReady (st c) (o_venue o1)
      then Some ''position data unavailable; reconcile the venue before resuming''
      else if \<not> cr_printHealthy c then Some ''waiting for a new eligible real-time print''
      else None)"

definition resumed :: "calls \<Rightarrow> exec_order \<Rightarrow> unit exec" where
  "resumed K o1 = (case trail_of o1 of
     None \<Rightarrow> return ()
   | Some t \<Rightarrow>
       if t_triggered t
       then do {
         current \<leftarrow> gets (\<lambda>c. the_order c (o_id o1));
         if tc_pricing (t_config t) = ''QUOTE''
         then do {
           changeHeld current HeldWaitingQuote ''waiting for execution quote'' False;
           again \<leftarrow> gets (\<lambda>c. the_order c (o_id o1));
           activateTrailQuote K again
         }
         else activateHeld K current
       }
       else do {
         p \<leftarrow> gets (\<lambda>c. mget (cr_lastEligible c) (o_symbol o1));
         due \<leftarrow> gets (\<lambda>c. case p of None \<Rightarrow> False | Some x \<Rightarrow> freshEligiblePrint c x);
         current \<leftarrow> gets (\<lambda>c. the_order c (o_id o1));
         whenM due (advanceTrail K current (case p of Some x \<Rightarrow> x | None \<Rightarrow> print0) True)
       })"

definition handleResumeHeld :: "calls \<Rightarrow> venue_id \<Rightarrow> string \<Rightarrow> cmd_ack exec" where
  "handleResumeHeld K v i = do {
     o1 \<leftarrow> gets (\<lambda>c. the_order c i);
     refused \<leftarrow> gets (\<lambda>c. resume_refused c v o1);
     expired \<leftarrow> gets (\<lambda>c. h_deadlineMs (held_of o1) \<le> now c);
     d \<leftarrow> gets cr_heldDemand;
     case refused of
       Some why \<Rightarrow> return (nacked why i)
     | None \<Rightarrow>
         if expired then do { expireHeld o1; return (nacked ''held order session expired'' i) }
         else if d = None then return (nacked ''execution ticker demand unavailable'' i)
         else do {
           err \<leftarrow> acquireHeldDemand o1;
           case err of
             Some w \<Rightarrow> return (nacked (''execution ticker unavailable: '' @ w) i)
           | None \<Rightarrow> do {
               ts \<leftarrow> gets now;
               err \<leftarrow> appendAndFold (HeldOrderChanged (o_venue o1) i ((held_of o1)\<lparr>h_phase := HeldWaiting, h_pausedReason := '''',
                   h_cancelRequested := False, h_resumeAfterMs := ts\<rparr>) ts) SrcLocal;
               case err of
                 Some w \<Rightarrow> do { releaseHeld i; return (nacked (''event append failed: '' @ w) i) }
               | None \<Rightarrow> do {
                   current \<leftarrow> gets (\<lambda>c. the_order c i);
                   requestProtectionBook current;
                   resumed K o1;
                   return (acked i)
                 }
             }
         }
   }"

text \<open>The intent is durable before the venue is told; what the venue then reports is an input of its own.\<close>

definition handleFlatten :: "calls \<Rightarrow> venue_id \<Rightarrow> cmd_ack exec" where
  "handleFlatten K v = do {
     disarmRiskEntries K v True;
     b \<leftarrow> gets (\<lambda>c. mget (cr_brokers c) v);
     ready \<leftarrow> gets (\<lambda>c. PositionsReady (st c) v);
     pending \<leftarrow> gets (\<lambda>c. vs_flattenPending (venue_at (st c) v));
     committed \<leftarrow> gets (\<lambda>c. fst (VenueHasReducingCommitments (st c) v));
     case b of
       None \<Rightarrow> return (nacked ''unknown venue'' '''')
     | Some caps \<Rightarrow>
         if \<not> cb_flattenAll caps then return (nacked ''flatten unsupported on venue'' '''')
         else if \<not> ready then return (nacked ''position data unavailable; reconcile the venue before flattening'' '''')
         else if pending then return (nacked ''venue flatten is awaiting authoritative reconciliation'' '''')
         else if committed then return (nacked ''cancel or resolve working SELL/COVER orders before flattening'' '''')
         else do {
           pauseHeldReducingVenue v ''venue flatten requested; resume manually after reconciliation'';
           ts \<leftarrow> gets now;
           err \<leftarrow> appendAndFold (FlattenPendingChanged v True ts) SrcLocal;
           case err of
             Some w \<Rightarrow> return (nacked (''event append failed: '' @ w) '''')
           | None \<Rightarrow> do {
               setPositionsReady v False;
               checkTrailPositions K;
               start (SentFlatten v);
               return (acked '''')
             }
         }
   }"

definition handleResetBalance :: "venue_id \<Rightarrow> cmd_ack exec" where
  "handleResetBalance v = do {
     b \<leftarrow> gets (\<lambda>c. mget (cr_brokers c) v);
     amount \<leftarrow> gets (\<lambda>c. mget0 0 (cr_startingBalance c) v);
     case b of
       None \<Rightarrow> return (nacked ''unknown venue'' '''')
     | Some caps \<Rightarrow>
         if \<not> cb_resetBalance caps then return (nacked ''reset balance unsupported on venue'' '''')
         else do { start (SentReset v amount); return (acked '''') }
   }"

section \<open>Dispatch\<close>

datatype command =
    SubmitTrail submit_trail
  | EditTrail venue_id string held_phase f64 trail_config
  | SubmitRiskEntry submit_risk
  | SubmitOrder submit_order
  | CancelOrder venue_id string
  | ReplaceOrder replace_order
  | FlattenVenue venue_id
  | ResetBalance venue_id
  | SetActive venue_id
  | ConfigureHeldDemand "demand option"
  | ResumeHeldOrder venue_id string
  | AcknowledgeHeldStopLimit venue_id string
  | AcknowledgeHeldLimitIfTouched venue_id string
  | KillSwitch venue_id
  | Arm
  | Disarm

definition put_ack :: "venue_id \<Rightarrow> string \<Rightarrow> core \<Rightarrow> core" where
  "put_ack v identity c = c\<lparr>cr_heldLiveAck := mput v identity (cr_heldLiveAck c)\<rparr>"

definition put_lit_ack :: "venue_id \<Rightarrow> string \<Rightarrow> core \<Rightarrow> core" where
  "put_lit_ack v identity c = c\<lparr>cr_heldLiveLITAck := mput v identity (cr_heldLiveLITAck c)\<rparr>"

definition acknowledge :: "(venue_id \<Rightarrow> string \<Rightarrow> core \<Rightarrow> core) \<Rightarrow> venue_id \<Rightarrow> string \<Rightarrow> cmd_ack exec" where
  "acknowledge put v seen = do {
     identity \<leftarrow> gets (\<lambda>c. mget0 '''' (cr_heldLiveIdentity c) v);
     if identity = '''' \<or> identity \<noteq> seen
     then return (nacked ''live account identity changed; restart before acknowledging'' '''')
     else do { modify (put v identity); return (acked '''') }
   }"

definition handleCmd :: "calls \<Rightarrow> command \<Rightarrow> cmd_ack exec" where
  "handleCmd K cmd = (case cmd of
     SubmitTrail cm \<Rightarrow> handleSubmitTrail K cm
   | EditTrail v i phase stop config \<Rightarrow> configureTrail K v i phase stop config
   | SubmitRiskEntry cm \<Rightarrow> handleRiskEntry K cm
   | SubmitOrder cm \<Rightarrow> handleSubmit K cm
   | CancelOrder v i \<Rightarrow> handleCancel K v i
   | ReplaceOrder cm \<Rightarrow> handleReplace K cm
   | FlattenVenue v \<Rightarrow> handleFlatten K v
   | ResetBalance v \<Rightarrow> handleResetBalance v
   | SetActive v \<Rightarrow> handleSetActiveVenue K v
   | ConfigureHeldDemand d \<Rightarrow> do { modify (\<lambda>c. c\<lparr>cr_heldDemand := d\<rparr>); return (acked '''') }
   | ResumeHeldOrder v i \<Rightarrow> handleResumeHeld K v i
   | AcknowledgeHeldStopLimit v identity \<Rightarrow> acknowledge put_ack v identity
   | AcknowledgeHeldLimitIfTouched v identity \<Rightarrow> acknowledge put_lit_ack v identity
   | KillSwitch v \<Rightarrow> handleKill K v
   | Arm \<Rightarrow> handleArm K True
   | Disarm \<Rightarrow> handleArm K False)"

end
