(* ===== verification/CoreInputs.thy ===== *)
theory CoreInputs
  imports CoreCommands
begin

text \<open>
  What reaches the core besides commands: broker events (\<open>handleBrokerEvent\<close> of \<open>core.go\<close>), the
  attribution of absolute position reports (\<open>trailing_ownership.go\<close>,
  \<open>trailing_reconciliation.go\<close>), the background checks of unprotected exposure
  (\<open>protection_warnings.go\<close>), prints, books and candles (\<open>held_lifecycle.go\<close>, \<open>trailing.go\<close>,
  \<open>protective_price.go\<close>), timers, recovery and shutdown.
\<close>

section \<open>Owned exposure\<close>

text \<open>\<open>trailExposure\<close>: position, confirmed entries and confirmed exits of every plan.\<close>

definition exposure_of :: "core \<Rightarrow> venue_state \<Rightarrow> exec_order \<Rightarrow> owned_exposure" where
  "exposure_of c vs entry =
     \<lparr>ox_position = p_qty (mget0 position0 (vs_positions vs) (o_symbol entry)),
      ox_entries = riskFilledQty c entry,
      ox_exits = fsum (map o_executedQty (filter (\<lambda>exit. o_riskEntryID exit = o_id entry) (map snd (vs_orders vs)))),
      ox_entryFills = foldl (\<lambda>m member. mput (o_id member) (o_executedQty member) m) [] (riskMembers c entry)\<rparr>"

definition plan_owner :: "exec_order \<Rightarrow> bool" where
  "plan_owner o1 \<longleftrightarrow> (case o_riskEntry o1 of None \<Rightarrow> False | Some r \<Rightarrow> re_sharedEntryID r = '''')"

definition trailExposure :: "core \<Rightarrow> (string, owned_exposure) gomap" where
  "trailExposure c = foldl (\<lambda>m (_, vs). foldl (\<lambda>m (_, entry).
       if plan_owner entry then mput (o_id entry) (exposure_of c vs entry) m else m) m (vs_orders vs)) [] (st_venues (st c))"

definition reduction_of :: "owned_exposure \<Rightarrow> owned_exposure \<Rightarrow> f64" where
  "reduction_of prior after = ox_position prior - ox_position after + (ox_entries after - ox_entries prior) - (ox_exits after - ox_exits prior)"

text \<open>The plan of a position that is gone with several members is closed, its waiting stop canceled.\<close>

definition close_shared :: "calls \<Rightarrow> string \<Rightarrow> string \<Rightarrow> unit exec" where
  "close_shared K i stopID = do {
     owner \<leftarrow> gets (\<lambda>c. the_order c i);
     ok \<leftarrow> beginRiskExit K owner;
     whenM ok (do {
       stop \<leftarrow> gets (\<lambda>c. the_order c stopID);
       err \<leftarrow> (if Working stop \<and> o_held stop \<noteq> None \<and> h_childClientID (held_of stop) = ''''
              then do {
                ts \<leftarrow> gets now;
                err \<leftarrow> appendAndFold (OrderCanceled (o_venue stop) (o_id stop) ts) SrcLocal;
                whenM (err = None) (releaseHeld (o_id stop));
                return err
              }
              else return None);
       whenM (err = None) (do { owner \<leftarrow> gets (\<lambda>c. the_order c i); syncRiskProtection K owner True })
     })
   }"

definition retire_one :: "calls \<Rightarrow> (string, owned_exposure) gomap \<Rightarrow> string \<Rightarrow> owned_exposure \<Rightarrow> unit exec" where
  "retire_one K earlier i after = do {
     pending \<leftarrow> gets (\<lambda>c. mhas (cr_trailPositionChecks c) (o_venue (the_order c i)));
     entry \<leftarrow> gets (\<lambda>c. the_order c i);
     case (mget earlier i, o_riskEntry entry) of
       (Some prior, Some risk0) \<Rightarrow>
         if pending \<or> reduction_of prior after \<le> tiny then return ()
         else do {
           let retired = math_max 0 (math_min (ox_entries after - ox_exits after) (re_retiredQty risk0 + reduction_of prior after));
           let risk = risk0\<lparr>re_retiredQty := retired\<rparr>;
           err \<leftarrow> persistRisk entry risk;
           if err \<noteq> None then return ()
           else do {
             members \<leftarrow> gets (\<lambda>c. riskMembers c entry);
             if ox_position after \<le> 0 \<and> length members > 1 then close_shared K i (re_stopID risk)
             else do { owner \<leftarrow> gets (\<lambda>c. the_order c i); syncRiskProtection K owner False }
           }
         }
     | _ \<Rightarrow> return ()
   }"

definition retireReducedOwnership :: "calls \<Rightarrow> (string, owned_exposure) gomap \<Rightarrow> unit exec" where
  "retireReducedOwnership K earlier = do {
     after \<leftarrow> gets trailExposure;
     ks \<leftarrow> range_keys (map fst after);
     each ks (\<lambda>i. case mget after i of None \<Rightarrow> return () | Some a \<Rightarrow> retire_one K earlier i a)
   }"

section \<open>Attribution of absolute positions\<close>

record broker_snapshot =
  bs_v :: venue_id
  bs_account :: account_snapshot
  bs_positions :: "exec_position list"
  bs_orders :: "exec_order list"
  bs_observational :: bool

text \<open>\<open>Event\<close> is any order event; adapters send acceptance, rejection, fill, cancel, expiry, replace and
  stream gaps. The last two are the results of the core's own snapshot queries.\<close>

datatype broker_event =
    HeldActivationOutcome venue_id string string
  | BrokerActionOutcome venue_id string action_kind string
  | BrokerSubmitOutcome venue_id string bool string
  | BrokerLifecycle event
  | BrokerAccount account_snapshot
  | BrokerAccountFresh venue_id bool
  | BrokerPositions venue_id "exec_position list"
  | BrokerPosition exec_position
  | BrokerPositionEffect position_effect
  | BrokerExternalOrder venue_id exec_order bool
  | BrokerOpenOrders venue_id "exec_order list"
  | BrokerSnapshot broker_snapshot
  | BrokerConnUp venue_id
  | BrokerConnDown venue_id string
  | TrailPositionResult venue_id "64 word" "string + broker_snapshot"
  | ProtectionResult venue_id "64 word" "string + broker_snapshot"

definition trailAttributionPending :: string where
  "trailAttributionPending = ''position attribution pending; LIMIT remains working; cleanup blocked''"

definition trailAttributionReason :: "venue_id \<Rightarrow> string \<Rightarrow> unit exec" where
  "trailAttributionReason v reason = do {
     _ \<leftarrow> touch v;
     each_order_of v (\<lambda>o1.
       if o_riskEntryID o1 = '''' \<or> o_held o1 = None \<or> \<not> Working o1 \<or>
          (case trail_of o1 of None \<Rightarrow> False | Some t \<Rightarrow> t_retired t) \<or>
          reason = '''' \<and> h_pausedReason (held_of o1) \<noteq> trailAttributionPending
       then return ()
       else do {
         ts \<leftarrow> gets now;
         append_quiet (HeldOrderChanged (o_venue o1) (o_id o1) ((held_of o1)\<lparr>h_pausedReason := reason\<rparr>) ts) SrcLocal
       })
   }"

definition put_check :: "venue_id \<Rightarrow> trail_check \<Rightarrow> core \<Rightarrow> core" where
  "put_check v check c = c\<lparr>cr_trailPositionChecks := mput v check (cr_trailPositionChecks c)\<rparr>"

definition drop_check :: "venue_id \<Rightarrow> core \<Rightarrow> core" where
  "drop_check v c = c\<lparr>cr_trailPositionChecks := mdel v (cr_trailPositionChecks c)\<rparr>"

definition startTrailPositionCheck :: "venue_id \<Rightarrow> unit exec" where
  "startTrailPositionCheck v = do {
     check \<leftarrow> gets (\<lambda>c. mget (cr_trailPositionChecks c) v);
     b \<leftarrow> gets (\<lambda>c. mget (cr_brokers c) v);
     revision \<leftarrow> gets (\<lambda>c. mget0 0 (cr_protectionRevision c) v);
     case (check, b) of
       (Some k, Some _) \<Rightarrow> do {
         modify (put_check v (k\<lparr>tc_attempts := tc_attempts k + 1\<rparr>));
         start (AskedPositions v revision)
       }
     | _ \<Rightarrow> return ()
   }"

text \<open>The absolute quantities an event reports, with the venue.\<close>

definition absolute_positions :: "core \<Rightarrow> broker_event \<Rightarrow> (venue_id \<times> (string, f64) gomap) option" where
  "absolute_positions c be = (case be of
     BrokerPosition p \<Rightarrow> Some (p_venue p, [(p_symbol p, p_qty p)])
   | BrokerPositions v ps \<Rightarrow> Some (v, foldl (\<lambda>m p. mput (p_symbol p) (p_qty p) m)
       (map (\<lambda>(symbol, _). (symbol, 0)) (vs_positions (venue_at (st c) v))) ps)
   | _ \<Rightarrow> None)"

definition live_exit :: "exec_order \<Rightarrow> bool" where
  "live_exit o1 \<longleftrightarrow> o_riskEntryID o1 \<noteq> '''' \<and> Working o1 \<and> o_held o1 \<noteq> None \<and> h_childClientID (held_of o1) \<noteq> ''''"

definition ambiguous_order :: "core \<Rightarrow> venue_id \<Rightarrow> (string, f64) gomap \<Rightarrow> exec_order \<Rightarrow> bool" where
  "ambiguous_order c v positions o1 \<longleftrightarrow> (case mget positions (o_symbol o1) of
     None \<Rightarrow> False
   | Some qty \<Rightarrow> \<not> qty \<le> 0 \<and> \<not> qty \<ge> VenuePositionShares (st c) v (o_symbol o1) \<and> live_exit o1)"

definition new_check :: "core \<Rightarrow> venue_id \<Rightarrow> (string, owned_exposure) gomap \<Rightarrow> trail_check" where
  "new_check c v earlier =
     \<lparr>tc_before = filter (\<lambda>(i, _). o_venue (the_order c i) = v) earlier,
      tc_exits = map (\<lambda>o1. (o_id o1, True)) (filter live_exit (map snd (vs_orders (venue_at (st c) v)))),
      tc_attempts = 0\<rparr>"

definition checkAbsoluteTrailAttribution :: "broker_event \<Rightarrow> (string, owned_exposure) gomap \<Rightarrow> unit exec" where
  "checkAbsoluteTrailAttribution be earlier = do {
     target \<leftarrow> gets (\<lambda>c. absolute_positions c be);
     case target of
       None \<Rightarrow> return ()
     | Some (v, positions) \<Rightarrow> do {
         pending \<leftarrow> gets (\<lambda>c. mhas (cr_trailPositionChecks c) v);
         if pending then return ()
         else do {
           vs \<leftarrow> touch v;
           ambiguous \<leftarrow> gets (\<lambda>c. list_ex (ambiguous_order c v positions) (map snd (vs_orders vs)));
           whenM ambiguous (do {
             check \<leftarrow> gets (\<lambda>c. new_check c v earlier);
             modify (put_check v check);
             trailAttributionReason v trailAttributionPending;
             startTrailPositionCheck v
           })
         }
       }
   }"

text \<open>Whether a snapshot knows at least what the core knows of the fills in question.\<close>

definition trailSnapshotCurrent :: "core \<Rightarrow> trail_check \<Rightarrow> exec_order list \<Rightarrow> bool" where
  "trailSnapshotCurrent c check orders =
     (let seen = foldl (\<lambda>m o1. mput (o_id o1) o1 m) [] orders in
      list_all (\<lambda>(i, _). case mget seen i of
          None \<Rightarrow> \<not> Working (the_order c i)
        | Some remote \<Rightarrow> \<not> o_executedQty remote < o_executedQty (the_order c i)) (tc_exits check) \<and>
      list_all (\<lambda>(i, anchor). list_all (\<lambda>owner. case mget seen (o_id owner) of
          Some remote \<Rightarrow> \<not> o_executedQty remote < o_executedQty owner
        | None \<Rightarrow> \<not> (Working owner \<and> o_executedQty owner > mget0 0 (ox_entryFills anchor) (o_id owner)))
          (riskMembers c (the_order c i))) (tc_before check))"

section \<open>Unprotected exposure\<close>

definition protectionCheckInterval :: int where "protectionCheckInterval = 15000"

definition protection_check0 :: protection_check where
  "protection_check0 = \<lparr>pc_inFlight = False, pc_verified = False, pc_failed = False, pc_revision = 0, pc_nextMs = 0\<rparr>"

definition change_check :: "venue_id \<Rightarrow> (protection_check \<Rightarrow> protection_check) \<Rightarrow> core \<Rightarrow> core" where
  "change_check v f c = c\<lparr>cr_protectionChecks := mput v (f (mget0 protection_check0 (cr_protectionChecks c) v)) (cr_protectionChecks c)\<rparr>"

definition each_order_of_err :: "venue_id \<Rightarrow> (exec_order \<Rightarrow> string option exec) \<Rightarrow> string option exec" where
  "each_order_of_err v f = do {
     ks \<leftarrow> gets (\<lambda>c. map fst (vs_orders (venue_at (st c) v)));
     ks \<leftarrow> range_keys ks;
     each_err ks (\<lambda>k. do { o1 \<leftarrow> gets (\<lambda>c. mget0 order0 (vs_orders (venue_at (st c) v)) k); f o1 })
   }"

definition confirmFlatRiskEntries :: "venue_id \<Rightarrow> string \<Rightarrow> string option exec" where
  "confirmFlatRiskEntries v symbol = do {
     _ \<leftarrow> touch v;
     each_order_of_err v (\<lambda>entry. do {
       filled \<leftarrow> gets (\<lambda>c. riskFilledQty c entry);
       held \<leftarrow> gets (\<lambda>c. p_qty (mget0 position0 (vs_positions (venue_at (st c) v)) (o_symbol entry)) > 0);
       case o_riskEntry entry of
         None \<Rightarrow> return None
       | Some risk \<Rightarrow>
           if re_sharedEntryID risk \<noteq> '''' \<or> filled \<le> re_flatConfirmedQty risk \<or> symbol \<noteq> '''' \<and> o_symbol entry \<noteq> symbol \<or> held
           then return None
           else persistRisk entry (risk\<lparr>re_flatConfirmedQty := filled\<rparr>)
     })
   }"

text \<open>\<open>protectionProblems\<close>: per symbol the reason and the latest plan it belongs to.\<close>

definition interrupted_text :: "string \<Rightarrow> string" where
  "interrupted_text why = (if take 23 why = ''protection interrupted;'' then ''Protection interrupted'' else why)"

definition problem_reason :: "risk_entry \<Rightarrow> bool \<Rightarrow> exec_order \<Rightarrow> string" where
  "problem_reason risk paused stop =
     (let why = interrupted_text (re_failure risk) in
      if why \<noteq> '''' then why
      else if re_protectionCanceled risk then ''Protection canceled''
      else if paused then ''Protection paused; review Orders''
      else if o_id stop = '''' then ''Protection unavailable''
      else if o_status stop = StatusExpired then ''DAY protection ended''
      else if o_status stop = StatusCanceled \<or> o_status stop = StatusRejected then ''Protection interrupted''
      else '''')"

definition exposed_plan :: "core \<Rightarrow> exec_order list \<Rightarrow> exec_order \<Rightarrow> risk_entry \<Rightarrow> bool" where
  "exposed_plan c orders entry risk \<longleftrightarrow>
     re_sharedEntryID risk = '''' \<and> \<not> riskFilledQty c entry \<le> re_flatConfirmedQty risk \<and>
     \<not> riskFilledQty c entry - fsum (map o_executedQty (filter (\<lambda>x. o_riskEntryID x = o_id entry) orders)) \<le> tiny"

definition plan_paused :: "exec_order list \<Rightarrow> exec_order \<Rightarrow> bool" where
  "plan_paused orders entry = list_ex (\<lambda>x. o_riskEntryID x = o_id entry \<and> Working x \<and> o_held x \<noteq> None \<and>
     (phase_of x = HeldPaused \<or> phase_of x = HeldUnknown)) orders"

definition later_plan :: "exec_order \<Rightarrow> exec_order \<Rightarrow> bool" where
  "later_plan entry prior \<longleftrightarrow> o_createdMs entry > o_createdMs prior \<or> o_createdMs entry = o_createdMs prior \<and> o_id entry > o_id prior"

definition protectionProblems :: "core \<Rightarrow> venue_id \<Rightarrow> (string, string \<times> exec_order) gomap" where
  "protectionProblems c v =
     (let vs = venue_at (st c) v; orders = map snd (vs_orders vs) in
      foldl (\<lambda>m entry. case o_riskEntry entry of
          None \<Rightarrow> m
        | Some risk \<Rightarrow>
            let reason = problem_reason risk (plan_paused orders entry) (mget0 order0 (vs_orders vs) (re_stopID risk)) in
            if exposed_plan c orders entry risk \<and> reason \<noteq> '''' \<and>
               (case mget m (o_symbol entry) of None \<Rightarrow> True | Some (_, prior) \<Rightarrow> later_plan entry prior)
            then mput (o_symbol entry) (reason, entry) m else m) [] orders)"

definition startProtectionCheck :: "venue_id \<Rightarrow> unit exec" where
  "startProtectionCheck v = do {
     modify (\<lambda>c. change_check v (\<lambda>k. k\<lparr>pc_nextMs := now c + protectionCheckInterval\<rparr>) c);
     b \<leftarrow> gets (\<lambda>c. mget (cr_brokers c) v);
     if b = None then modify (change_check v (\<lambda>k. k\<lparr>pc_verified := False, pc_failed := True\<rparr>))
     else do {
       modify (change_check v (\<lambda>k. k\<lparr>pc_inFlight := True\<rparr>));
       revision \<leftarrow> gets (\<lambda>c. mget0 0 (cr_protectionRevision c) v);
       start (AskedProtection v revision)
     }
   }"

definition refreshProtectionWarnings :: "unit exec" where
  "refreshProtectionWarnings = do {
     vs \<leftarrow> gets cr_venues;
     each vs (\<lambda>v. do {
       _ \<leftarrow> touch v;
       modify (change_check v (\<lambda>k. k));
       due \<leftarrow> gets (\<lambda>c. protectionProblems c v \<noteq> [] \<and>
         (case mget (cr_protectionChecks c) v of None \<Rightarrow> False | Some k \<Rightarrow> \<not> pc_inFlight k \<and> now c \<ge> pc_nextMs k));
       whenM due (startProtectionCheck v)
     })
   }"

section \<open>Broker events\<close>

definition unready_venue :: "venue_id \<Rightarrow> string \<Rightarrow> unit exec" where
  "unready_venue v reason = do { setPositionsReady v False; pauseHeldVenue v reason }"

definition bump :: "venue_id \<Rightarrow> unit exec" where
  "bump v = modify (bump_revision v)"

definition has_broker :: "core \<Rightarrow> venue_id \<Rightarrow> bool" where
  "has_broker c v \<longleftrightarrow> mget (cr_brokers c) v \<noteq> None"

definition cancel_child :: "venue_id \<Rightarrow> string \<Rightarrow> unit exec" where
  "cancel_child v i = do {
     b \<leftarrow> gets (\<lambda>c. has_broker c v);
     whenM b (startVenueAction v i ActionCancel no_replace)
   }"

text \<open>The outcomes of the core's own calls.\<close>

definition activation_outcome :: "venue_id \<Rightarrow> string \<Rightarrow> string \<Rightarrow> unit exec" where
  "activation_outcome v i reason = do {
     earlier \<leftarrow> gets (\<lambda>c. the_order c i);
     if o_held earlier = None \<or> h_childClientID (held_of earlier) = '''' \<or>
        \<not> (phase_of earlier = HeldActivating \<or> phase_of earlier = HeldCancelRequested)
     then return ()
     else do {
       let h = (held_of earlier)\<lparr>h_phase := HeldUnknown, h_pausedReason := ''activation outcome unknown: '' @ reason\<rparr>;
       let cancelNow = (h_cancelRequested h \<and> \<not> h_cancelSent h);
       ts \<leftarrow> gets now;
       append_quiet (HeldOrderChanged v i (if cancelNow then h\<lparr>h_cancelSent := True\<rparr> else h) ts) SrcLocal;
       whenM cancelNow (cancel_child v i)
     }
   }"

definition action_outcome :: "venue_id \<Rightarrow> string \<Rightarrow> action_kind \<Rightarrow> string \<Rightarrow> unit exec" where
  "action_outcome v i kind reason = do {
     o1 \<leftarrow> gets (\<lambda>c. the_order c i);
     ts \<leftarrow> gets now;
     case o_action o1 of
       None \<Rightarrow> return ()
     | Some a \<Rightarrow> whenM (a_kind a = kind \<and> a_phase a = ActionRequested)
         (append_quiet (OrderActionChanged v i (a\<lparr>a_phase := ActionUnknown, a_reason := reason\<rparr>) ts) SrcLocal)
   }"

definition submit_outcome :: "venue_id \<Rightarrow> string \<Rightarrow> bool \<Rightarrow> string \<Rightarrow> unit exec" where
  "submit_outcome v i accepted reason = do {
     o1 \<leftarrow> gets (\<lambda>c. the_order c i);
     ts \<leftarrow> gets now;
     case o_action o1 of
       None \<Rightarrow> return ()
     | Some a \<Rightarrow> whenM (Working o1 \<and> o_venue o1 = v \<and> action_pending ActionSubmit a)
         (append_quiet (OrderActionChanged v i
            (if accepted then a\<lparr>a_phase := ActionConfirmed, a_reason := ''''\<rparr>
             else a\<lparr>a_phase := ActionUnknown, a_reason := reason\<rparr>) ts) SrcLocal)
   }"

text \<open>An accepted child: the held order works, or the cancel asked for meanwhile is sent.\<close>

definition child_accepted :: "exec_order \<Rightarrow> string \<Rightarrow> unit exec" where
  "child_accepted earlier brokerID = do {
     pending \<leftarrow> gets (\<lambda>c. mhas (cr_trailPositionChecks c) (o_venue earlier));
     ts \<leftarrow> gets now;
     let hb = held_of earlier;
     let wasCancelRequested = (h_cancelRequested hb \<or> h_phase hb = HeldCancelRequested);
     let cancelUnknown = (case o_action earlier of None \<Rightarrow> False | Some a \<Rightarrow> a_kind a = ActionCancel \<and> a_phase a = ActionUnknown);
     let sendCancel = (wasCancelRequested \<and> (\<not> h_cancelSent hb \<or> cancelUnknown));
     let h = hb\<lparr>h_phase := HeldWorking, h_pausedReason := (if pending then trailAttributionPending else ''''), h_childBrokerID := brokerID\<rparr>;
     let h = (if wasCancelRequested
        then h\<lparr>h_phase := HeldCancelRequested, h_pausedReason := ''cancel requested'', h_cancelRequested := True, h_cancelSent := True\<rparr> else h);
     append_quiet (HeldOrderChanged (o_venue earlier) (o_id earlier) h ts) SrcLocal;
     whenM sendCancel (cancel_child (o_venue earlier) (o_id earlier))
   }"

definition lifecycle_held :: "event \<Rightarrow> exec_order \<Rightarrow> unit exec" where
  "lifecycle_held e earlier = (case e of
     OrderAccepted v i brokerID ts \<Rightarrow>
       whenM (o_held earlier \<noteq> None \<and> h_childClientID (held_of earlier) \<noteq> '''' \<and>
              (phase_of earlier = HeldActivating \<or> phase_of earlier = HeldCancelRequested \<or> h_cancelRequested (held_of earlier)))
         (child_accepted earlier brokerID)
   | StreamGap v ts \<Rightarrow> unready_venue v ''broker stream gap; reconcile and resume manually''
   | _ \<Rightarrow> return ())"

definition order_done :: "order_status \<Rightarrow> bool" where
  "order_done s \<longleftrightarrow> s = StatusCanceled \<or> s = StatusRejected \<or> s = StatusExpired \<or> s = StatusFilled"

definition lifecycle :: "event \<Rightarrow> unit exec" where
  "lifecycle e = do {
     earlier \<leftarrow> gets (\<lambda>c. the_order c (Event_OrderID e));
     err \<leftarrow> appendAndFold e SrcWS;
     whenM (err = None) (do {
       lifecycle_held e earlier;
       whenM (Event_OrderID e \<noteq> '''') (do {
         whenM (case e of OrderRejected _ _ _ _ \<Rightarrow> False | _ \<Rightarrow> True) (confirmSellSubmit (Event_Venue e) (Event_OrderID e));
         after \<leftarrow> gets (\<lambda>c. the_order c (Event_OrderID e));
         whenM (o_held earlier \<noteq> None \<and> order_done (o_status after)) (releaseHeld (Event_OrderID e))
       });
       maybeClearFlattenPending (Event_Venue e)
     })
   }"

text \<open>Account data.\<close>

definition keep_dayPnL :: "account_snapshot \<Rightarrow> account_snapshot \<Rightarrow> account_snapshot" where
  "keep_dayPnL previous a = a\<lparr>ac_dayPnL := ac_dayPnL previous, ac_dayPnLSource := ac_dayPnLSource previous,
     ac_dayPnLProvisional := ac_dayPnLProvisional previous\<rparr>"

definition broker_account :: "calls \<Rightarrow> account_snapshot \<Rightarrow> unit exec" where
  "broker_account K a0 = do {
     keep \<leftarrow> gets (\<lambda>c. case mget (cr_brokers c) (ac_venue a0) of None \<Rightarrow> False
       | Some caps \<Rightarrow> cb_calculatedDayPnL caps \<and> ac_dayPnLSource a0 = '''');
     vs \<leftarrow> touch (ac_venue a0);
     upd (ReconcileAccount (if keep then keep_dayPnL (vs_account vs) a0 else a0));
     breached \<leftarrow> gets (\<lambda>c. BreachedDayLoss (st c) (cr_gate c) \<and> st_masterArmed (st c));
     whenM breached (auto_disarm K)
   }"

definition account_fresh :: "calls \<Rightarrow> venue_id \<Rightarrow> bool \<Rightarrow> unit exec" where
  "account_fresh K v fresh = do {
     upd (SetAccountFresh v fresh);
     armed \<leftarrow> gets (\<lambda>c. st_masterArmed (st c));
     whenM (\<not> fresh \<and> armed) (auto_disarm K)
   }"

text \<open>Positions.\<close>

definition reconcile_opens :: "venue_id \<Rightarrow> exec_position list \<Rightarrow> core \<Rightarrow> core" where
  "reconcile_opens v ps c = c\<lparr>cr_positionOpens := reconcileTrips v ps (cr_positionOpens c)\<rparr>"

definition broker_positions :: "venue_id \<Rightarrow> exec_position list \<Rightarrow> unit exec" where
  "broker_positions v ps = do {
     bump v;
     modify (reconcile_opens v ps);
     upd (ReconcilePositions v ps);
     _ \<leftarrow> confirmFlatRiskEntries v '''';
     return ()
   }"

definition broker_position :: "exec_position \<Rightarrow> unit exec" where
  "broker_position p = do {
     ready \<leftarrow> gets (\<lambda>c. PositionsReady (st c) (p_venue p));
     if p_venue p = '''' \<or> \<not> ready then return ()
     else do {
       upd (ReconcilePosition p);
       bump (p_venue p);
       _ \<leftarrow> confirmFlatRiskEntries (p_venue p) (p_symbol p);
       maybeClearFlattenPending (p_venue p)
     }
   }"

definition broker_effect :: "position_effect \<Rightarrow> unit exec" where
  "broker_effect e = do { moved \<leftarrow> applyPositionEffect e; whenM moved (bump (px_venue e)) }"

text \<open>Orders.\<close>

definition isEngineOrderID :: "string \<Rightarrow> bool" where
  "isEngineOrderID i \<longleftrightarrow> take 2 i = ''ET''"

definition known_order :: "core \<Rightarrow> string \<Rightarrow> bool" where
  "known_order c i \<longleftrightarrow> OrderVenue (st c) i \<noteq> None \<or> hasSeed i (cr_closed c)"

definition external_order :: "venue_id \<Rightarrow> exec_order \<Rightarrow> bool \<Rightarrow> unit exec" where
  "external_order v o1 working =
     (if o_id o1 = '''' then return ()
      else do {
        bump v;
        known \<leftarrow> gets (\<lambda>c. known_order c (o_id o1));
        whenM (\<not> known \<and> \<not> isEngineOrderID (o_id o1)) (upd (SetExternalOrder v o1 working));
        maybeClearFlattenPending v
      })"

definition adopt_one :: "venue_id \<Rightarrow> exec_order list \<times> exec_order list \<Rightarrow> exec_order \<Rightarrow> (exec_order list \<times> exec_order list) exec" where
  "adopt_one v acc o0 = do {
     let o1 = o0\<lparr>o_venue := v\<rparr>;
     known \<leftarrow> gets (\<lambda>c. known_order c (o_id o1));
     if known then return (fst acc @ [o1], snd acc)
     else if isEngineOrderID (o_id o1)
     then do {
       err \<leftarrow> appendAndFold (OrderSubmitted o1) SrcReconcile;
       return (if err = None then acc else (fst acc, snd acc @ [o1]))
     }
     else return (fst acc, snd acc @ [o1])
   }"

definition syncRiskVenue :: "calls \<Rightarrow> venue_id \<Rightarrow> unit exec" where
  "syncRiskVenue K v = each_order (\<lambda>entry.
     whenM (plan_owner entry \<and> (v = '''' \<or> o_venue entry = v)) (syncRiskProtection K entry True))"

definition open_orders :: "calls \<Rightarrow> venue_id \<Rightarrow> exec_order list \<Rightarrow> unit exec" where
  "open_orders K v orders = do {
     bump v;
     acc \<leftarrow> each_acc orders ([], []) (adopt_one v);
     upd (ReconcileOpenOrders v (fst acc));
     upd (ReconcileExternalOpenOrders v (snd acc));
     each (fst acc) (\<lambda>o1. confirmSellSubmit v (o_id o1));
     setPositionsReady v True;
     syncRiskVenue K v;
     maybeClearFlattenPending v
   }"

text \<open>A full snapshot; the result is the exposure the deferred comparison starts from.\<close>

definition snapshot_venue :: "broker_snapshot \<Rightarrow> venue_id" where
  "snapshot_venue e = (if bs_v e = '''' then ac_venue (bs_account e) else bs_v e)"

definition local_order :: "core \<Rightarrow> exec_order \<Rightarrow> bool" where
  "local_order c o1 \<longleftrightarrow> known_order c (o_id o1) \<or> isEngineOrderID (o_id o1)"

definition adopt_closed :: "exec_order list \<Rightarrow> core \<Rightarrow> core" where
  "adopt_closed orders c = c\<lparr>cr_closed := foldl (\<lambda>p o1. closed_adopt o1 p) (cr_closed c) orders\<rparr>"

definition settle_check :: "calls \<Rightarrow> venue_id \<Rightarrow> (string, owned_exposure) gomap \<Rightarrow> (string, owned_exposure) gomap exec" where
  "settle_check K v earlier = do {
     check \<leftarrow> gets (\<lambda>c. mget (cr_trailPositionChecks c) v);
     case check of
       None \<Rightarrow> return earlier
     | Some k \<Rightarrow> do {
         modify (drop_check v);
         retireReducedOwnership K (tc_before k);
         trailAttributionReason v '''';
         return []
       }
   }"

definition take_snapshot :: "calls \<Rightarrow> broker_snapshot \<Rightarrow> (string, owned_exposure) gomap \<Rightarrow> (string, owned_exposure) gomap exec" where
  "take_snapshot K e before0 = do {
     let v = snapshot_venue e;
     bump v;
     upd (ReconcileAccount ((bs_account e)\<lparr>ac_venue := v\<rparr>));
     modify (reconcile_opens v (bs_positions e));
     upd (ReconcilePositions v (bs_positions e));
     let orders = map (\<lambda>o1. o1\<lparr>o_venue := v\<rparr>) (bs_orders e);
     own \<leftarrow> gets (\<lambda>c. filter (local_order c) orders);
     external \<leftarrow> gets (\<lambda>c. filter (\<lambda>o1. \<not> local_order c o1) orders);
     modify (adopt_closed own);
     upd (ReconcileOpenOrders v own);
     upd (ReconcileExternalOpenOrders v external);
     earlier \<leftarrow> settle_check K v before0;
     each own (\<lambda>o1. confirmSellSubmit v (o_id o1));
     whenM (\<not> bs_observational e) (do {
       setPositionsReady v True;
       _ \<leftarrow> confirmFlatRiskEntries v '''';
       syncRiskVenue K v
     });
     maybeClearFlattenPending v;
     return earlier
   }"

definition broker_snapshot_event :: "calls \<Rightarrow> broker_snapshot \<Rightarrow> (string, owned_exposure) gomap \<Rightarrow> (string, owned_exposure) gomap exec" where
  "broker_snapshot_event K e earlier = do {
     stale \<leftarrow> gets (\<lambda>c. case mget (cr_trailPositionChecks c) (snapshot_venue e) of None \<Rightarrow> False
       | Some k \<Rightarrow> \<not> trailSnapshotCurrent c k (bs_orders e));
     if stale then return earlier else take_snapshot K e earlier
   }"

definition conn_down :: "venue_id \<Rightarrow> unit exec" where
  "conn_down v = do {
     bump v;
     modify (\<lambda>c. c\<lparr>cr_printHealthy := False\<rparr>);
     unready_venue v ''venue connection lost; reconcile and resume manually''
   }"

text \<open>The switch of \<open>handleBrokerEvent\<close>.\<close>

definition broker_case :: "calls \<Rightarrow> broker_event \<Rightarrow> (string, owned_exposure) gomap \<Rightarrow> (string, owned_exposure) gomap exec" where
  "broker_case K be earlier = (case be of
     HeldActivationOutcome v i reason \<Rightarrow> do { activation_outcome v i reason; return earlier }
   | BrokerActionOutcome v i kind reason \<Rightarrow> do { action_outcome v i kind reason; return earlier }
   | BrokerSubmitOutcome v i accepted reason \<Rightarrow> do { submit_outcome v i accepted reason; return earlier }
   | BrokerLifecycle e \<Rightarrow> do { lifecycle e; return earlier }
   | BrokerAccount a \<Rightarrow> do { broker_account K a; return earlier }
   | BrokerAccountFresh v fresh \<Rightarrow> do { account_fresh K v fresh; return earlier }
   | BrokerPositions v ps \<Rightarrow> do { broker_positions v ps; return earlier }
   | BrokerPosition p \<Rightarrow> do { broker_position p; return earlier }
   | BrokerPositionEffect e \<Rightarrow> do { broker_effect e; return earlier }
   | BrokerExternalOrder v o1 working \<Rightarrow> do { external_order v o1 working; return earlier }
   | BrokerOpenOrders v orders \<Rightarrow> do { open_orders K v orders; return earlier }
   | BrokerSnapshot e \<Rightarrow> broker_snapshot_event K e earlier
   | BrokerConnUp v \<Rightarrow> do {
       bump v;
       unready_venue v ''venue connection is reconciling; reconcile and resume manually'';
       return earlier }
   | BrokerConnDown v note \<Rightarrow> do { conn_down v; return earlier }
   | TrailPositionResult v revision result \<Rightarrow> return earlier
   | ProtectionResult v revision result \<Rightarrow> return earlier)"

definition protection_interrupted :: "exec_order \<Rightarrow> risk_entry \<Rightarrow> bool" where
  "protection_interrupted o1 risk \<longleftrightarrow> o_riskEntryID o1 \<noteq> '''' \<and>
     (o_status o1 = StatusRejected \<or> o_status o1 = StatusCanceled \<and> \<not> re_protectionCanceled risk \<or>
      o_held o1 \<noteq> None \<and> phase_of o1 = HeldUnknown \<or>
      (case o_action o1 of None \<Rightarrow> False | Some a \<Rightarrow> a_phase a = ActionUnknown \<or> a_phase a = ActionFailed))"

definition riskBrokerEvent :: "calls \<Rightarrow> string \<Rightarrow> unit exec" where
  "riskBrokerEvent K i = do {
     o1 \<leftarrow> gets (\<lambda>c. the_order c i);
     entry \<leftarrow> gets (\<lambda>c. riskOwner c o1);
     case o_riskEntry entry of
       None \<Rightarrow> return ()
     | Some risk \<Rightarrow> do {
         whenM (protection_interrupted o1 risk) (failRisk K entry (''protection interrupted; verify '' @ o_id o1));
         current \<leftarrow> gets (\<lambda>c. the_order c (o_id entry));
         syncRiskProtection K current False
       }
   }"

definition event_order :: "broker_event \<Rightarrow> string option" where
  "event_order be = (case be of
     BrokerLifecycle e \<Rightarrow> Some (Event_OrderID e)
   | HeldActivationOutcome v i reason \<Rightarrow> Some i
   | BrokerActionOutcome v i kind reason \<Rightarrow> Some i
   | _ \<Rightarrow> None)"

text \<open>An event that is no query result: the case, then the two deferred calls, last deferred first.\<close>

definition handle_report :: "calls \<Rightarrow> broker_event \<Rightarrow> unit exec" where
  "handle_report K be = do {
     before0 \<leftarrow> gets trailExposure;
     checkAbsoluteTrailAttribution be before0;
     earlier \<leftarrow> broker_case K be before0;
     (case event_order be of None \<Rightarrow> return () | Some i \<Rightarrow> riskBrokerEvent K i);
     refreshProtectionWarnings;
     retireReducedOwnership K earlier
   }"

definition finishTrailPositionCheck :: "calls \<Rightarrow> venue_id \<Rightarrow> 64 word \<Rightarrow> string + broker_snapshot \<Rightarrow> unit exec" where
  "finishTrailPositionCheck K v revision result = do {
     check \<leftarrow> gets (\<lambda>c. mget (cr_trailPositionChecks c) v);
     same \<leftarrow> gets (\<lambda>c. revision = mget0 0 (cr_protectionRevision c) v);
     case (check, result) of
       (Some k, Inr snapshot) \<Rightarrow>
         if \<not> same then whenM (tc_attempts k < 3) (startTrailPositionCheck v)
         else do { handle_report K (BrokerSnapshot snapshot); checkTrailPositions K }
     | _ \<Rightarrow> return ()
   }"

definition finishProtectionCheck :: "calls \<Rightarrow> venue_id \<Rightarrow> 64 word \<Rightarrow> string + broker_snapshot \<Rightarrow> unit exec" where
  "finishProtectionCheck K v revision result = do {
     modify (\<lambda>c. change_check v (\<lambda>k. k\<lparr>pc_inFlight := False, pc_nextMs := now c + protectionCheckInterval\<rparr>) c);
     same \<leftarrow> gets (\<lambda>c. revision = mget0 0 (cr_protectionRevision c) v);
     case result of
       Inl err \<Rightarrow> modify (change_check v (\<lambda>k. k\<lparr>pc_verified := False, pc_failed := True\<rparr>))
     | Inr snapshot \<Rightarrow>
         if \<not> same then modify (change_check v (\<lambda>k. k\<lparr>pc_verified := False, pc_failed := False\<rparr>))
         else do {
           handle_report K (BrokerSnapshot (snapshot\<lparr>bs_observational := True\<rparr>));
           err \<leftarrow> confirmFlatRiskEntries v '''';
           if err \<noteq> None then modify (change_check v (\<lambda>k. k\<lparr>pc_verified := False, pc_failed := True\<rparr>))
           else modify (\<lambda>c. change_check v (\<lambda>k. k\<lparr>pc_verified := True, pc_failed := False,
             pc_revision := mget0 0 (cr_protectionRevision c) v\<rparr>) c)
         }
   }"

definition handleBrokerEvent :: "calls \<Rightarrow> broker_event \<Rightarrow> unit exec" where
  "handleBrokerEvent K be = (case be of
     TrailPositionResult v revision result \<Rightarrow> finishTrailPositionCheck K v revision result
   | ProtectionResult v revision result \<Rightarrow> do { finishProtectionCheck K v revision result; refreshProtectionWarnings }
   | _ \<Rightarrow> handle_report K be)"

section \<open>Prints, books, candles\<close>

definition resolve_one :: "calls \<Rightarrow> string \<Rightarrow> eligible_print \<Rightarrow> trail_book \<times> bool \<Rightarrow> string \<Rightarrow> unit exec" where
  "resolve_one K symbol p bk i = do {
     pending \<leftarrow> gets (\<lambda>c. mget (cr_protectionPending c) i);
     o1 \<leftarrow> gets (\<lambda>c. the_order c i);
     case pending of
       None \<Rightarrow> return ()
     | Some a \<Rightarrow>
         if o_symbol o1 \<noteq> symbol then return ()
         else do {
           ok \<leftarrow> validProtection o1 a;
           if \<not> ok then modify (drop_pending i)
           else do {
             late \<leftarrow> gets (\<lambda>c. now c \<ge> ep_receiptMs (pn_print a) + protectionWait);
             later \<leftarrow> gets (\<lambda>c. ep_seq p > ep_seq (pn_print a) \<and> ep_receiptMs p > 0 \<and> ep_receiptMs p \<ge> ep_receiptMs (pn_print a) \<and>
                ep_receiptMs p \<le> now c \<and> freshEligiblePrint c p);
             let (b, book) = bk;
             if late then return ()
             else if book \<and> protectionBookSupports b (ep_price (pn_print a)) then authorizeProtection K o1 a
             else if later \<and> book \<and> ep_seq (pn_reference a) > 0 \<and>
                     protectionBookSupports b (ep_price (pn_reference a)) \<and> protectionBookSupports b (ep_price p)
             then modify (drop_pending i)
             else if later \<and> nearProtectionPrice (ep_price p) (ep_price (pn_print a)) \<and>
                     (\<not> book \<or> protectionBookSupports b (ep_price p))
             then authorizeProtection K o1 a
             else return ()
           }
         }
   }"

definition resolveProtection :: "calls \<Rightarrow> string \<Rightarrow> unit exec" where
  "resolveProtection K symbol = do {
     p \<leftarrow> gets (\<lambda>c. mget0 print0 (cr_lastEligible c) symbol);
     bk \<leftarrow> gets (\<lambda>c. core_book c symbol);
     ids \<leftarrow> gets heldOrderIDs;
     each ids (resolve_one K symbol p bk)
   }"

text \<open>A gap drops all price evidence and pauses every waiting order.\<close>

definition clear_evidence :: "int \<Rightarrow> core \<Rightarrow> core" where
  "clear_evidence gapAt c = c\<lparr>cr_protectionPrices := [], cr_protectionPending := [], cr_trailBooks := [], cr_trailCandles := [],
     cr_lastPrintGapMs := max (cr_lastPrintGapMs c) gapAt, cr_printHealthy := False, cr_lastEligible := [],
     cr_lastPrintSeq := [], cr_lastPrintDay := []\<rparr>"

definition print_gap :: "eligible_print \<Rightarrow> unit exec" where
  "print_gap p = do {
     modify (\<lambda>c. clear_evidence (if ep_recvTsMs p \<le> 0 then now c else ep_recvTsMs p) c);
     each_held (\<lambda>o1. whenM (pretrigger o1) (changeHeld o1 HeldPaused ''eligible-print gap; resume manually'' False))
   }"

text \<open>A print that is well formed, after the last gap and newer than the last one of its day.\<close>

definition new_print :: "core \<Rightarrow> eligible_print \<Rightarrow> bool" where
  "new_print c p \<longleftrightarrow>
     ep_symbol p \<noteq> '''' \<and> finitePositive (ep_price p) \<and> ep_seq p > 0 \<and> ep_recvTsMs p > 0 \<and>
     ep_recvTsMs p > cr_lastPrintGapMs c"

definition enter_day :: "eligible_print \<Rightarrow> core \<Rightarrow> core" where
  "enter_day p c =
     (let day = DayMs (cr_tz c) (ep_tsMs p) in
      if day \<noteq> mget0 0 (cr_lastPrintDay c) (ep_symbol p)
      then c\<lparr>cr_lastPrintDay := mput (ep_symbol p) day (cr_lastPrintDay c), cr_lastPrintSeq := mput (ep_symbol p) 0 (cr_lastPrintSeq c)\<rparr>
      else c)"

definition store_print :: "eligible_print \<Rightarrow> core \<Rightarrow> core" where
  "store_print p c = c\<lparr>cr_lastPrintSeq := mput (ep_symbol p) (ep_seq p) (cr_lastPrintSeq c),
     cr_lastEligible := mput (ep_symbol p) p (cr_lastEligible c)\<rparr>"

text \<open>The first waiting protective order of the symbol has the price observed.\<close>

definition observe_for_protection :: "eligible_print \<Rightarrow> unit exec" where
  "observe_for_protection p = do {
     ids \<leftarrow> gets heldOrderIDs;
     first \<leftarrow> gets (\<lambda>c. find (\<lambda>i. let o1 = the_order c i in
       o_symbol o1 = ep_symbol p \<and> protectiveOrder c o1 \<and> pretrigger o1) ids);
     case first of
       None \<Rightarrow> return ()
     | Some i \<Rightarrow> do {
         o1 \<leftarrow> gets (\<lambda>c. the_order c i);
         requestProtectionBook o1;
         observe_price p
       }
   }"

definition print_to_order :: "calls \<Rightarrow> eligible_print \<Rightarrow> exec_order \<Rightarrow> unit exec" where
  "print_to_order K p o1 =
     (if o_symbol o1 \<noteq> ep_symbol p \<or> \<not> pretrigger o1 \<or> ep_recvTsMs p \<le> o_createdMs o1 \<or>
         ep_recvTsMs p \<le> h_resumeAfterMs (held_of o1)
      then return ()
      else do {
        expired \<leftarrow> gets (\<lambda>c. h_deadlineMs (held_of o1) \<le> now c);
        if expired then expireHeld o1
        else if trail_of o1 \<noteq> None then advanceTrail K o1 p False
        else if HeldOrderTriggered (o_type o1) (o_side o1) (ep_price p) (o_stopPrice o1) then activateProtectedStop K o1 p
        else changeHeld o1 HeldArmed '''' False
      })"

definition trust_prints :: "unit exec" where
  "trust_prints = modify (\<lambda>c. c\<lparr>cr_printHealthy := True\<rparr>)"

definition handleEligiblePrint :: "calls \<Rightarrow> eligible_print \<Rightarrow> unit exec" where
  "handleEligiblePrint K p =
     (if ep_gap p then print_gap p
      else do {
        ok \<leftarrow> gets (\<lambda>c. new_print c p);
        if \<not> ok then return ()
        else do {
          modify (enter_day p);
          stale \<leftarrow> gets (\<lambda>c. ep_seq p \<le> mget0 0 (cr_lastPrintSeq c) (ep_symbol p));
          if stale then return ()
          else do {
            modify (store_print p);
            fresh \<leftarrow> gets (\<lambda>c. freshEligiblePrint c p);
            whenM fresh (do {
              trust_prints;
              observe_for_protection p;
              resolveProtection K (ep_symbol p);
              each_held (print_to_order K p)
            })
          }
        }
      })"

text \<open>A book: kept (\<open>keep_book\<close>), then it may confirm the candidate price of its symbol.\<close>

definition book_confirms :: "core \<Rightarrow> string \<Rightarrow> protection_price \<Rightarrow> bool" where
  "book_confirms c symbol s \<longleftrightarrow> candidate_confirmed (now c) (core_book c symbol) s"

definition book_candidate :: "calls \<Rightarrow> string \<Rightarrow> unit exec" where
  "book_candidate K symbol = do {
     price \<leftarrow> gets (\<lambda>c. mget (cr_protectionPrices c) symbol);
     case price of
       None \<Rightarrow> return ()
     | Some s \<Rightarrow> do {
         ok \<leftarrow> gets (\<lambda>c. book_confirms c symbol s);
         whenM ok (do {
           modify (\<lambda>c. c\<lparr>cr_protectionPrices := mput symbol (confirm_candidate s) (cr_protectionPrices c)\<rparr>);
           each_held (\<lambda>o1. do {
             waits \<leftarrow> gets (\<lambda>c. protectionCanWait c o1);
             whenM (o_symbol o1 = symbol \<and> trail_of o1 \<noteq> None \<and> waits \<and>
                    ep_recvTsMs (pp_candidate s) > o_createdMs o1 \<and> ep_recvTsMs (pp_candidate s) > h_resumeAfterMs (held_of o1))
               (advanceTrail K o1 (pp_candidate s) False)
           })
         })
       }
   }"

definition store_book :: "trail_book \<Rightarrow> core \<Rightarrow> core" where
  "store_book book c = (case keep_book book (cr_trailBookGeneration c) (cr_trailBooks c) of
     (_, gen, books) \<Rightarrow> c\<lparr>cr_trailBookGeneration := gen, cr_trailBooks := books\<rparr>)"

definition handleTrailBook :: "calls \<Rightarrow> trail_book \<Rightarrow> unit exec" where
  "handleTrailBook K book = do {
     goes_on \<leftarrow> gets (\<lambda>c. fst (keep_book book (cr_trailBookGeneration c) (cr_trailBooks c)));
     modify (store_book book);
     whenM goes_on (do {
       book_candidate K (tb_symbol book);
       resolveProtection K (tb_symbol book);
       each_held (\<lambda>o1. whenM (o_symbol o1 = tb_symbol book \<and> phase_of o1 = HeldWaitingQuote) (activateTrailQuote K o1))
     })
   }"

definition handleCandle :: "trail_candle \<Rightarrow> unit exec" where
  "handleCandle b = modify (\<lambda>c. c\<lparr>cr_trailCandles := handleTrailCandle (cr_tz c) (now c) (cr_lastEligible c) b (cr_trailCandles c)\<rparr>)"

text \<open>The latest trusted print, for a preview.\<close>

definition previewEligible :: "core \<Rightarrow> string \<Rightarrow> (f64 \<times> int) option" where
  "previewEligible c symbol = (case mget (cr_lastEligible c) symbol of
     None \<Rightarrow> None
   | Some p \<Rightarrow> if cr_printHealthy c \<and> freshEligiblePrint c p then Some (ep_price p, ep_tsMs p) else None)"

section \<open>Timers\<close>

definition expireHeldOrders :: "calls \<Rightarrow> unit exec" where
  "expireHeldOrders K = each_held (\<lambda>o1. do {
     due \<leftarrow> gets (\<lambda>c. o_held o1 \<noteq> None \<and> \<not> h_deadlineMs (held_of o1) > now c);
     if \<not> due then return ()
     else if trail_of o1 \<noteq> None then retireTrail K o1 ''session deadline reached''
     else if pretrigger o1 \<or> phase_of o1 = HeldPaused then expireHeld o1
     else whenM ((phase_of o1 = HeldActivating \<or> phase_of o1 = HeldWorking) \<and> \<not> h_cancelRequested (held_of o1))
       (requestHeldVenueCancel o1 ''session deadline reached; cancel pending'')
   })"

text \<open>\<open>protectionDeadline\<close>: the evidence that is due is used or dropped; the result is the next
  deadline, 0 for none.\<close>

definition sooner :: "int \<Rightarrow> int \<Rightarrow> int" where
  "sooner first due = (if first = 0 \<or> due < first then due else first)"

definition deadline_one :: "calls \<Rightarrow> int \<Rightarrow> string \<Rightarrow> int exec" where
  "deadline_one K first i = do {
     pending \<leftarrow> gets (\<lambda>c. mget (cr_protectionPending c) i);
     o1 \<leftarrow> gets (\<lambda>c. the_order c i);
     healthy \<leftarrow> gets cr_printHealthy;
     case pending of
       None \<Rightarrow> return first
     | Some a \<Rightarrow> do {
         ok \<leftarrow> (if healthy then validProtection o1 a else return False);
         if \<not> ok then do { modify (drop_pending i); return first }
         else do {
           let due = ep_receiptMs (pn_print a) + protectionWait;
           over \<leftarrow> gets (\<lambda>c. due \<le> now c);
           fresh \<leftarrow> gets (\<lambda>c. freshEligiblePrint c (pn_print a));
           if over
           then (if fresh then do { authorizeProtection K o1 a; return first }
                 else do { modify (drop_pending i); return first })
           else return (sooner first due)
         }
       }
   }"

definition expire_candidates :: "core \<Rightarrow> core" where
  "expire_candidates c = c\<lparr>cr_protectionPrices := map (\<lambda>(symbol, s). (symbol, expire_candidate (now c) s)) (cr_protectionPrices c)\<rparr>"

definition protectionDeadline :: "calls \<Rightarrow> int exec" where
  "protectionDeadline K = do {
     ids \<leftarrow> gets heldOrderIDs;
     first \<leftarrow> each_acc ids 0 (deadline_one K);
     modify expire_candidates;
     gets (\<lambda>c. foldl (\<lambda>first (_, s). if ep_seq (pp_candidate s) = 0 then first else sooner first (candidate_due s))
       first (cr_protectionPrices c))
   }"

definition rollCycle :: "unit exec" where
  "rollCycle = do {
     start_ms \<leftarrow> gets (\<lambda>c. TradingCycleStart (cr_tz c) (now c));
     vs \<leftarrow> gets cr_venues;
     each vs (\<lambda>v. do {
       w \<leftarrow> touch v;
       modify (\<lambda>c. c\<lparr>cr_cycles := cycle_reset v start_ms (map snd (vs_positions w)) (cr_cycles c)\<rparr>);
       cp \<leftarrow> gets (\<lambda>c. mget (cy_byVenue (cr_cycles c)) v);
       case cp of None \<Rightarrow> return () | Some p \<Rightarrow> start (SavedCheckpoint p)
     })
   }"

definition feed_mark :: "string \<Rightarrow> f64 \<Rightarrow> unit exec" where
  "feed_mark symbol price = modify (\<lambda>c. c\<lparr>cr_marks := mput symbol price (cr_marks c), cr_cycles := cycle_mark symbol price (cr_cycles c)\<rparr>)"

section \<open>The loop\<close>

datatype input =
    Command command
  | Report broker_event
  | FeedMark string f64
  | FeedPrint eligible_print
  | FeedBook trail_book
  | FeedCandle trail_candle
  | HeldTimer
  | PriceTimer
  | CycleTimer

definition handle :: "calls \<Rightarrow> input \<Rightarrow> unit exec" where
  "handle K i = (case i of
     Command cmd \<Rightarrow> do { _ \<leftarrow> handleCmd K cmd; refreshProtectionWarnings }
   | Report be \<Rightarrow> do { handleBrokerEvent K be; checkTrailPositions K }
   | FeedMark symbol price \<Rightarrow> feed_mark symbol price
   | FeedPrint p \<Rightarrow> handleEligiblePrint K p
   | FeedBook b \<Rightarrow> handleTrailBook K b
   | FeedCandle b \<Rightarrow> handleCandle b
   | HeldTimer \<Rightarrow> do { expireHeldOrders K; refreshProtectionWarnings }
   | PriceTimer \<Rightarrow> return ()
   | CycleTimer \<Rightarrow> rollCycle)"

text \<open>One turn of \<open>Run\<close>: the evidence that is due, then one input.\<close>

definition turn :: "calls \<Rightarrow> input \<Rightarrow> unit exec" where
  "turn K i = do { _ \<leftarrow> protectionDeadline K; handle K i }"

section \<open>Shutdown\<close>

definition shutdown0 :: shutdown_summary where
  "shutdown0 = \<lparr>sd_paused = 0, sd_cancelRequested = 0, sd_unconfirmed = 0\<rparr>"

definition more_unconfirmed :: "shutdown_summary \<Rightarrow> shutdown_summary" where
  "more_unconfirmed s = s\<lparr>sd_unconfirmed := sd_unconfirmed s + 1\<rparr>"

definition more_requested :: "shutdown_summary \<Rightarrow> shutdown_summary" where
  "more_requested s = (more_unconfirmed s)\<lparr>sd_cancelRequested := sd_cancelRequested s + 1\<rparr>"

text \<open>A working child is canceled synchronously; an error leaves the cancel unknown.\<close>

definition shutdown_cancel :: "exec_order \<Rightarrow> string \<Rightarrow> unit exec" where
  "shutdown_cancel o1 i = do {
     b \<leftarrow> gets (\<lambda>c. has_broker c (o_venue o1));
     whenM b (do {
       start (SentCancel (o_venue o1) i);
       err \<leftarrow> ask os_cancel;
       case err of
         None \<Rightarrow> return ()
       | Some w \<Rightarrow> do {
           ts \<leftarrow> gets now;
           append_quiet (OrderActionChanged (o_venue o1) i
             ((cancel_action o1)\<lparr>a_phase := ActionUnknown, a_reason := ''shutdown cancel unconfirmed: '' @ w\<rparr>) ts) SrcReconcile;
           h \<leftarrow> gets (\<lambda>c. held_of (the_order c i));
           ts \<leftarrow> gets now;
           append_quiet (HeldOrderChanged (o_venue o1) i
             (h\<lparr>h_pausedReason := ''shutdown cancel unconfirmed; reconcile on restart''\<rparr>) ts) SrcReconcile
         }
     })
   }"

definition shutdown_working :: "shutdown_summary \<Rightarrow> exec_order \<Rightarrow> string \<Rightarrow> shutdown_summary exec" where
  "shutdown_working s o1 i = do {
     ts \<leftarrow> gets now;
     err \<leftarrow> appendAndFold (OrderActionChanged (o_venue o1) i (cancel_action o1) ts) SrcLocal;
     if err \<noteq> None then return (more_unconfirmed s)
     else do {
       ts \<leftarrow> gets now;
       err \<leftarrow> appendAndFold (HeldOrderChanged (o_venue o1) i ((held_of o1)\<lparr>h_phase := HeldCancelRequested,
         h_cancelRequested := True, h_cancelSent := True,
         h_pausedReason := ''engine shutdown; child cancel outcome requires reconciliation''\<rparr>) ts) SrcLocal;
       if err \<noteq> None then return (more_unconfirmed s)
       else do { shutdown_cancel o1 i; return (more_requested s) }
     }
   }"

definition shutdown_phase :: "shutdown_summary \<Rightarrow> exec_order \<Rightarrow> string \<Rightarrow> shutdown_summary exec" where
  "shutdown_phase s o1 i =
     (if pretrigger o1
      then do { changeHeld o1 HeldPaused ''engine shutdown; resume manually'' False; return (s\<lparr>sd_paused := sd_paused s + 1\<rparr>) }
      else if phase_of o1 = HeldActivating
      then do { requestHeldVenueCancel o1 ''engine shutdown; child outcome requires reconciliation''; return (more_requested s) }
      else if phase_of o1 = HeldCancelRequested \<and> \<not> h_cancelSent (held_of o1) then return (more_requested s)
      else if phase_of o1 = HeldCancelRequested \<or> phase_of o1 = HeldWorking then shutdown_working s o1 i
      else return s)"

definition shutdown_one :: "calls \<Rightarrow> shutdown_summary \<Rightarrow> string \<Rightarrow> shutdown_summary exec" where
  "shutdown_one K s i = do {
     o1 \<leftarrow> gets (\<lambda>c. the_order c i);
     if o_held o1 = None then return s
     else case trail_of o1 of
       None \<Rightarrow> shutdown_phase s o1 i
     | Some t \<Rightarrow>
         if h_childClientID (held_of o1) = '''' then do { retireTrail K o1 ''engine terminated''; return s }
         else do {
           err \<leftarrow> saveTrail o1 (t\<lparr>t_retired := True\<rparr>) (phase_of o1) ''engine terminated'';
           if err \<noteq> None then return (more_unconfirmed s)
           else do { current \<leftarrow> gets (\<lambda>c. the_order c (o_id o1)); shutdown_phase s current i }
         }
   }"

definition shutdownHeldOrders :: "calls \<Rightarrow> unit exec" where
  "shutdownHeldOrders K = do {
     ids \<leftarrow> gets heldOrderIDs;
     summary \<leftarrow> each_acc ids shutdown0 (shutdown_one K);
     modify (\<lambda>c. c\<lparr>cr_shutdownHeld := summary\<rparr>)
   }"

end
