(* ===== verification/Feed.thy ===== *)
theory Feed
  imports Session
begin

text \<open>
  The market-data domain of \<open>internal/feed/feed.go\<close> and the bar type of
  \<open>internal/md/update.go\<close>: what a feed adapter delivers and what the md core keeps.

  Go's numeric enums are datatypes with one constructor per declared constant and a last
  constructor for the values no constant names. Share counts are \<open>int64\<close> sums of one
  symbol's day and stay far below \<open>2^63\<close>; they are \<open>int\<close>. A report's \<open>Source\<close> is a
  record; the tick's pointer to it is read through \<open>SourceRef\<close> only, which maps nil to the zero
  record. The recorder's \<open>ProcessingOrdinal\<close> is written, never read, by the code modelled here
  and is left out.
\<close>

section \<open>Enums\<close>

datatype direction = Neutral | Buy | Sell | DirectionNum nat

fun Direction_String :: "direction \<Rightarrow> string" where
  "Direction_String Buy = ''BUY''"
| "Direction_String Sell = ''SELL''"
| "Direction_String _ = ''NEUTRAL''"

datatype transaction_type = TransactionUnknown | TransactionRegular | TransactionOddLot
  | TransactionIntermarketSweep | TransactionIntermarketSweepOddLot | TransactionExcluded
  | TransactionNum nat

datatype trade_condition =
    TradeConditionUnknown | TradeConditionAutomaticMatch | TradeConditionLate
  | TradeConditionNonAutomaticMatch | TradeConditionSameBrokerAutomaticMatch
  | TradeConditionSameBrokerNonAutomaticMatch | TradeConditionOddLot | TradeConditionAuction
  | TradeConditionBunchedTrade | TradeConditionCashSale | TradeConditionIntermarketSweep
  | TradeConditionBunchedSold | TradeConditionPriceVariation | TradeConditionRule127Or155
  | TradeConditionDelayed | TradeConditionMarketCenterOfficialClose
  | TradeConditionNextDaySettlement | TradeConditionMarketCenterOpening
  | TradeConditionPriorReferencePrice | TradeConditionMarketCenterOfficialOpen
  | TradeConditionSeller | TradeConditionFormT | TradeConditionExtendedHours
  | TradeConditionContingent | TradeConditionAveragePrice | TradeConditionOTCSold
  | TradeConditionOddLotIntermarketSweep | TradeConditionDerivativelyPriced
  | TradeConditionReopeningPrice | TradeConditionClosingPrice
  | TradeConditionCorrectedComprehensiveLatePrice | TradeConditionOverseas
  | TradeConditionNum nat

fun TradeReportCondition_String :: "trade_condition \<Rightarrow> string" where
  "TradeReportCondition_String TradeConditionAutomaticMatch = ''automaticMatch''"
| "TradeReportCondition_String TradeConditionLate = ''late''"
| "TradeReportCondition_String TradeConditionNonAutomaticMatch = ''nonAutomaticMatch''"
| "TradeReportCondition_String TradeConditionSameBrokerAutomaticMatch = ''sameBrokerAutomaticMatch''"
| "TradeReportCondition_String TradeConditionSameBrokerNonAutomaticMatch = ''sameBrokerNonAutomaticMatch''"
| "TradeReportCondition_String TradeConditionOddLot = ''oddLot''"
| "TradeReportCondition_String TradeConditionAuction = ''auction''"
| "TradeReportCondition_String TradeConditionBunchedTrade = ''bunchedTrade''"
| "TradeReportCondition_String TradeConditionCashSale = ''cashSale''"
| "TradeReportCondition_String TradeConditionIntermarketSweep = ''intermarketSweep''"
| "TradeReportCondition_String TradeConditionBunchedSold = ''bunchedSold''"
| "TradeReportCondition_String TradeConditionPriceVariation = ''priceVariation''"
| "TradeReportCondition_String TradeConditionRule127Or155 = ''rule127Or155''"
| "TradeReportCondition_String TradeConditionDelayed = ''delayed''"
| "TradeReportCondition_String TradeConditionMarketCenterOfficialClose = ''marketCenterOfficialClose''"
| "TradeReportCondition_String TradeConditionNextDaySettlement = ''nextDaySettlement''"
| "TradeReportCondition_String TradeConditionMarketCenterOpening = ''marketCenterOpening''"
| "TradeReportCondition_String TradeConditionPriorReferencePrice = ''priorReferencePrice''"
| "TradeReportCondition_String TradeConditionMarketCenterOfficialOpen = ''marketCenterOfficialOpen''"
| "TradeReportCondition_String TradeConditionSeller = ''seller''"
| "TradeReportCondition_String TradeConditionFormT = ''formT''"
| "TradeReportCondition_String TradeConditionExtendedHours = ''extendedHours''"
| "TradeReportCondition_String TradeConditionContingent = ''contingent''"
| "TradeReportCondition_String TradeConditionAveragePrice = ''averagePrice''"
| "TradeReportCondition_String TradeConditionOTCSold = ''otcSold''"
| "TradeReportCondition_String TradeConditionOddLotIntermarketSweep = ''oddLotIntermarketSweep''"
| "TradeReportCondition_String TradeConditionDerivativelyPriced = ''derivativelyPriced''"
| "TradeReportCondition_String TradeConditionReopeningPrice = ''reopeningPrice''"
| "TradeReportCondition_String TradeConditionClosingPrice = ''closingPrice''"
| "TradeReportCondition_String TradeConditionCorrectedComprehensiveLatePrice = ''correctedComprehensiveLatePrice''"
| "TradeReportCondition_String TradeConditionOverseas = ''overseas''"
| "TradeReportCondition_String _ = ''unknown''"

datatype delivery_source = DeliveryUnknown | DeliveryRealtime | DeliveryDisconnectBackfill
  | DeliveryCache | DeliveryNum nat

fun DeliverySource_String :: "delivery_source \<Rightarrow> string" where
  "DeliverySource_String DeliveryRealtime = ''realtime''"
| "DeliverySource_String DeliveryDisconnectBackfill = ''disconnectBackfill''"
| "DeliverySource_String DeliveryCache = ''cache''"
| "DeliverySource_String _ = ''unknown''"

datatype provider_status = ProviderStatusUnknown | ProviderStatusNormal
  | ProviderStatusNonnormal | ProviderStatusNum nat

fun ProviderStatus_String :: "provider_status \<Rightarrow> string" where
  "ProviderStatus_String ProviderStatusNormal = ''normal''"
| "ProviderStatus_String ProviderStatusNonnormal = ''nonnormal''"
| "ProviderStatus_String _ = ''unknown''"

section \<open>Prints, quotes, books and bars\<close>

record source_ref =
  sr_Run :: string
  sr_Connection :: nat
  sr_Ingress :: nat
  sr_Index :: int
  sr_ReceiptMs :: int
  sr_Loss :: nat

definition source0 :: source_ref where
  "source0 = \<lparr>sr_Run = '''', sr_Connection = 0, sr_Ingress = 0, sr_Index = 0, sr_ReceiptMs = 0, sr_Loss = 0\<rparr>"

text \<open>\<open>feed.Coverage\<close>: the continuity of an acknowledged subscription.\<close>

record coverage =
  cov_Verified :: bool
  cov_Revision :: nat
  cov_SinceMs :: int

record tick =
  tk_Symbol :: string
  tk_Seq :: int
  tk_TsMs :: int
  tk_Price :: f64
  tk_Volume :: int
  tk_Turnover :: f64
  tk_Dir :: direction
  tk_Type :: transaction_type
  tk_Condition :: trade_condition
  tk_RawType :: int
  tk_TypeSign :: int
  tk_PushDataType :: int
  tk_Delivery :: delivery_source
  tk_RangeEligible :: bool
  tk_LastEligible :: bool
  tk_VolumeEligible :: bool
  tk_RecvTsMs :: int
  tk_Source :: source_ref

definition tick0 :: tick where
  "tick0 = \<lparr>tk_Symbol = '''', tk_Seq = 0, tk_TsMs = 0, tk_Price = 0, tk_Volume = 0,
     tk_Turnover = 0, tk_Dir = Neutral, tk_Type = TransactionUnknown,
     tk_Condition = TradeConditionUnknown, tk_RawType = 0, tk_TypeSign = 0,
     tk_PushDataType = 0, tk_Delivery = DeliveryUnknown, tk_RangeEligible = False,
     tk_LastEligible = False, tk_VolumeEligible = False, tk_RecvTsMs = 0,
     tk_Source = source0\<rparr>"

record feed_quote =
  q_Symbol :: string
  q_TsMs :: int
  q_Last :: f64
  q_Open :: f64
  q_High :: f64
  q_Low :: f64
  q_PrevClose :: f64
  q_Volume :: int
  q_Turnover :: f64
  q_ProviderSuspended :: bool
  q_ProviderStatus :: provider_status
  q_Source :: source_ref

text \<open>A raw bar of the provider, \<open>feed.Bar\<close>.\<close>

record kbar =
  kb_Symbol :: string
  kb_BucketMs :: int
  kb_O :: f64
  kb_H :: f64
  kb_L :: f64
  kb_C :: f64
  kb_Volume :: int
  kb_Turnover :: f64
  kb_Source :: source_ref

text \<open>\<open>feed.BookLevel\<close> and the fields of \<open>feed.Book\<close>, best price first on either side.\<close>

record book_level =
  bl_price :: f64
  bl_volume :: int
  bl_orders :: int

record feed_book =
  fb_symbol :: string
  fb_tsMs :: int
  fb_bidTsMs :: "int option"
  fb_askTsMs :: "int option"
  fb_bids :: "book_level list"
  fb_asks :: "book_level list"
  fb_source :: source_ref

definition book0 :: feed_book where
  "book0 = \<lparr>fb_symbol = '''', fb_tsMs = 0, fb_bidTsMs = None, fb_askTsMs = None, fb_bids = [], fb_asks = [], fb_source = source0\<rparr>"

text \<open>The md core's bar, \<open>md.Bar\<close>.\<close>

record bar =
  b_Symbol :: string
  b_TF :: timeframe
  b_BucketMs :: int
  b_O :: f64
  b_H :: f64
  b_L :: f64
  b_C :: f64
  b_V :: int
  b_BuyV :: int
  b_SellV :: int
  b_Ticks :: int
  b_InProgress :: bool
  b_Gap :: bool
  b_VolumeOnly :: bool

text \<open>Go's \<open>==\<close> on bars compares the floats as floats: a bar with a NaN is not equal to itself.\<close>

definition bar_eq :: "bar \<Rightarrow> bar \<Rightarrow> bool" where
  "bar_eq a b \<longleftrightarrow> b_Symbol a = b_Symbol b \<and> b_TF a = b_TF b \<and> b_BucketMs a = b_BucketMs b \<and>
     feq (b_O a) (b_O b) \<and> feq (b_H a) (b_H b) \<and> feq (b_L a) (b_L b) \<and> feq (b_C a) (b_C b) \<and>
     b_V a = b_V b \<and> b_BuyV a = b_BuyV b \<and> b_SellV a = b_SellV b \<and> b_Ticks a = b_Ticks b \<and>
     b_InProgress a = b_InProgress b \<and> b_Gap a = b_Gap b \<and> b_VolumeOnly a = b_VolumeOnly b"

lemma bar_eq_imp: "bar_eq a b \<Longrightarrow> a = b"
  by (simp add: bar_eq_def feq_iff)

text \<open>The shape every chart bar has to have: open and close inside the range.\<close>

definition bar_shape :: "bar \<Rightarrow> bool" where
  "bar_shape b \<longleftrightarrow> b_L b \<le> b_O b \<and> b_O b \<le> b_H b \<and> b_L b \<le> b_C b \<and> b_C b \<le> b_H b"

end
