(* ===== verification/SimBroker.thy ===== *)
theory SimBroker
  imports CoreInputs Feed
begin

text \<open>
  The simulated venue, \<open>internal/broker/sim/sim.go\<close>: resting orders, the last trade mark and
  the last depth of each symbol, positions and one account. An operation takes the broker and
  the instant \<open>ts\<close> of its call (\<open>b.now()\<close>; the code's own comment relies on the reads inside
  one call agreeing) and returns the batch of events it builds, in order, with the broker after
  it. The mutex makes the change of the broker atomic, but not the emission: a call sends its batch
  to the channel after it unlocked, so calls of different goroutines may interleave there. Theory
  SimCalls has that: the goroutines, the channel and the engine that reads it. A cancel
  reads the clock for its event after the lock, within the same call.

  An order is a pointer that the book of resting orders shares: an operation takes the record,
  writes it back under its ID while it rests, and hands the changed record to what follows.
  \<open>ResetBalance\<close> is three locked calls in a row; \<open>sim_ResetBalance\<close> is their composition when
  nothing comes between.
\<close>

section \<open>State\<close>

record sim_options =
  op_slippageBps :: f64
  op_fillLatencyMs :: int

record sim_broker =
  sb_venue :: venue_id
  sb_slippageBps :: f64
  sb_fillLatencyMs :: int
  sb_marks :: "(string, f64) gomap"
  sb_books :: "(string, feed_book) gomap"
  sb_orders :: "(string, exec_order) gomap"
  sb_eligibleMs :: "(string, int) gomap"
  sb_pos :: "(string, exec_position) gomap"
  sb_acct :: account_snapshot
  sb_bseq :: int

definition sim_New :: "venue_id \<Rightarrow> int \<Rightarrow> f64 \<Rightarrow> sim_options \<Rightarrow> sim_broker" where
  "sim_New venue ts startingCash opts = \<lparr>sb_venue = venue, sb_slippageBps = op_slippageBps opts,
     sb_fillLatencyMs = op_fillLatencyMs opts, sb_marks = [], sb_books = [], sb_orders = [],
     sb_eligibleMs = [], sb_pos = [],
     sb_acct = account0\<lparr>ac_venue := venue, ac_equity := startingCash, ac_buyingPower := startingCash,
       ac_availableCash := startingCash, ac_sodEquity := startingCash, ac_tsMs := ts\<rparr>,
     sb_bseq = 0\<rparr>"

definition sim_Capabilities :: capabilities where
  "sim_Capabilities = \<lparr>cb_flattenAll = True, cb_overnightSession = False, cb_resetBalance = True,
     cb_marketOutsideRTH = True, cb_calculatedDayPnL = False\<rparr>"

section \<open>Account and positions\<close>

text \<open>\<open>recomputeAccountLocked\<close>: cash plus each position at its mark, or at cost before a mark.\<close>

definition pos_mark :: "sim_broker \<Rightarrow> exec_position \<Rightarrow> f64" where
  "pos_mark b p = (case mget (sb_marks b) (p_symbol p) of Some m \<Rightarrow> m | None \<Rightarrow> p_avgPrice p)"

definition sim_equity :: "sim_broker \<Rightarrow> f64" where
  "sim_equity b = foldl (\<lambda>equity (_, p). equity + p_qty p * pos_mark b p)
     (ac_availableCash (sb_acct b)) (sb_pos b)"

definition recomputeAccount :: "int \<Rightarrow> sim_broker \<Rightarrow> sim_broker" where
  "recomputeAccount ts b = b\<lparr>sb_acct := (sb_acct b)\<lparr>ac_equity := sim_equity b,
     ac_buyingPower := ac_availableCash (sb_acct b),
     ac_dayPnL := sim_equity b - ac_sodEquity (sb_acct b), ac_tsMs := ts\<rparr>\<rparr>"

definition markToMarket :: "int \<Rightarrow> sim_broker \<Rightarrow> broker_event list \<times> sim_broker" where
  "markToMarket ts b =
     (let prevEquity = ac_equity (sb_acct b); b1 = recomputeAccount ts b
      in if sb_pos b1 = [] \<or> feq (ac_equity (sb_acct b1)) prevEquity then ([], b1)
         else ([BrokerAccount (sb_acct b1)], b1))"

definition sim_positions :: "sim_broker \<Rightarrow> exec_position list" where
  "sim_positions b = map snd (sb_pos b)"

definition cashSign :: "side \<Rightarrow> f64" where
  "cashSign sd = (if sd = SideSell \<or> sd = SideShort then 1 else - 1)"

section \<open>Eligibility after the fill latency\<close>

definition markEligibility :: "exec_order \<Rightarrow> int \<Rightarrow> sim_broker \<Rightarrow> sim_broker" where
  "markEligibility o1 submitMs b =
     (if sb_fillLatencyMs b \<le> 0 then b
      else b\<lparr>sb_eligibleMs := mput (o_id o1) (submitMs + sb_fillLatencyMs b) (sb_eligibleMs b)\<rparr>)"

definition eligible :: "exec_order \<Rightarrow> int \<Rightarrow> sim_broker \<Rightarrow> bool" where
  "eligible o1 eventMs b = (case mget (sb_eligibleMs b) (o_id o1) of
     None \<Rightarrow> True | Some deadline \<Rightarrow> eventMs \<ge> deadline)"

definition clearEligibility :: "string \<Rightarrow> sim_broker \<Rightarrow> sim_broker" where
  "clearEligibility i b = b\<lparr>sb_eligibleMs := mdel i (sb_eligibleMs b)\<rparr>"

text \<open>\<open>delete(b.orders, id)\<close> and its matching \<open>clearEligibilityLocked\<close>, and the write-back.\<close>

definition drop_order :: "string \<Rightarrow> sim_broker \<Rightarrow> sim_broker" where
  "drop_order i b = clearEligibility i (b\<lparr>sb_orders := mdel i (sb_orders b)\<rparr>)"

definition keep_order :: "exec_order \<Rightarrow> sim_broker \<Rightarrow> sim_broker" where
  "keep_order o1 b = b\<lparr>sb_orders := mput (o_id o1) o1 (sb_orders b)\<rparr>"

section \<open>Pricing\<close>

definition marketable :: "side \<Rightarrow> f64 \<Rightarrow> f64 \<Rightarrow> bool" where
  "marketable sd limit price = (if sd = SideBuy \<or> sd = SideCover then limit \<ge> price else limit \<le> price)"

definition slippedPrice :: "side \<Rightarrow> f64 \<Rightarrow> f64 \<Rightarrow> f64" where
  "slippedPrice sd price slippageBps =
     (if slippageBps \<le> 0 then price
      else let rate = slippageBps / float_of_int 10000
           in if sd = SideBuy \<or> sd = SideCover then price * (1 + rate) else price * (1 - rate))"

text \<open>The loop over the levels: remaining quantity, \<open>sumPxQty\<close> and \<open>sumQty\<close>.\<close>

fun book_walk :: "exec_order \<Rightarrow> f64 \<Rightarrow> book_level list \<Rightarrow> f64 \<Rightarrow> f64 \<Rightarrow> f64 \<Rightarrow> f64 \<times> f64" where
  "book_walk o1 slip [] remaining sumPxQty sumQty = (sumPxQty, sumQty)"
| "book_walk o1 slip (lvl # lvls) remaining sumPxQty sumQty =
     (if remaining \<le> 0 then (sumPxQty, sumQty)
      else let px = slippedPrice (o_side o1) (bl_price lvl) slip
           in if o_type o1 = TypeLimit \<and> \<not> marketable (o_side o1) (o_limitPrice o1) px
              then (sumPxQty, sumQty)
              else let v = float_of_int (bl_volume lvl); take = (if v < remaining then v else remaining)
                   in book_walk o1 slip lvls (remaining - take) (sumPxQty + take * px) (sumQty + take))"

definition book_side :: "side \<Rightarrow> feed_book \<Rightarrow> book_level list" where
  "book_side sd book = (if sd = SideSell \<or> sd = SideShort then fb_bids book else fb_asks book)"

definition fillAgainstBook :: "exec_order \<Rightarrow> feed_book \<Rightarrow> f64 \<Rightarrow> f64 \<times> f64" where
  "fillAgainstBook o1 book slip =
     (let (sumPxQty, sumQty) = book_walk o1 slip (book_side (o_side o1) book) (o_leavesQty o1) 0 0
      in if feq sumQty 0 then (0, 0) else (sumQty, sumPxQty / sumQty))"

definition stopTriggered :: "side \<Rightarrow> f64 \<Rightarrow> f64 \<Rightarrow> bool" where
  "stopTriggered sd stop mark = (if sd = SideBuy \<or> sd = SideCover then mark \<ge> stop else mark \<le> stop)"

section \<open>Fills\<close>

definition signed_fill :: "side \<Rightarrow> f64 \<Rightarrow> f64" where
  "signed_fill sd qty = (if sd \<noteq> SideBuy \<and> sd \<noteq> SideCover then - qty else qty)"

text \<open>The order part of \<open>fillLocked\<close>: cumulative quantity, running average, remainder, status.\<close>

definition fill_order :: "int \<Rightarrow> f64 \<Rightarrow> f64 \<Rightarrow> exec_order \<Rightarrow> exec_order" where
  "fill_order ts qty px o1 =
     (let prevQty = o_executedQty o1;
          o2 = o1\<lparr>o_avgFillPrice := (o_avgFillPrice o1 * prevQty + px * qty) / (prevQty + qty),
                 o_executedQty := prevQty + qty, o_leavesQty := o_leavesQty o1 - qty, o_updatedMs := ts\<rparr>
      in if o_leavesQty o2 \<le> 0 then o2\<lparr>o_leavesQty := 0, o_status := StatusFilled\<rparr>
         else o2\<lparr>o_status := StatusPartiallyFilled\<rparr>)"

definition rest_or_drop :: "exec_order \<Rightarrow> sim_broker \<Rightarrow> sim_broker" where
  "rest_or_drop o1 b = (if o_status o1 = StatusFilled then drop_order (o_id o1) b else keep_order o1 b)"

text \<open>The position part: the position after the fill and what it realizes (\<open>None\<close> when it adds).\<close>

definition fill_position :: "f64 \<Rightarrow> f64 \<Rightarrow> f64 \<Rightarrow> exec_position \<Rightarrow> exec_position \<times> f64 option" where
  "fill_position delta qty px p =
     (let prevPosQty = p_qty p
      in if feq prevPosQty 0 \<or> (prevPosQty > 0) = (delta > 0)
         then let newAbs = abs prevPosQty + qty
              in (p\<lparr>p_avgPrice := (abs prevPosQty * p_avgPrice p + qty * px) / newAbs, p_qty := prevPosQty + delta\<rparr>, None)
         else let longSign = (if prevPosQty < 0 then - 1 else 1);
                  closedQty = math_min qty (abs prevPosQty);
                  realized = (px - p_avgPrice p) * closedQty * longSign;
                  p1 = p\<lparr>p_qty := prevPosQty + delta\<rparr>
              in (if qty - closedQty > 0 then p1\<lparr>p_avgPrice := px\<rparr> else p1, Some realized))"

definition fill_account :: "int \<Rightarrow> exec_order \<Rightarrow> f64 \<Rightarrow> f64 \<Rightarrow> sim_broker \<Rightarrow> sim_broker" where
  "fill_account ts o1 qty px b =
     (let p = mget0 (position0\<lparr>p_venue := sb_venue b, p_symbol := o_symbol o1\<rparr>) (sb_pos b) (o_symbol o1);
          (p1, realized) = fill_position (signed_fill (o_side o1) qty) qty px p;
          a = sb_acct b;
          a1 = (case realized of Some r \<Rightarrow> a\<lparr>ac_realized := ac_realized a + r\<rparr> | None \<Rightarrow> a);
          a2 = a1\<lparr>ac_availableCash := ac_availableCash a1 + cashSign (o_side o1) * qty * px\<rparr>
      in recomputeAccount ts (b\<lparr>sb_pos := mput (o_symbol o1) p1 (sb_pos b), sb_acct := a2\<rparr>))"

definition fill_event :: "int \<Rightarrow> exec_order \<Rightarrow> f64 \<Rightarrow> f64 \<Rightarrow> sim_broker \<Rightarrow> event" where
  "fill_event ts o1 qty px b = OrderFilled
     \<lparr>f_venue = sb_venue b, f_orderID = o_id o1, f_symbol = o_symbol o1, f_side = o_side o1,
      f_qty = qty, f_price = px, f_tsMs = ts\<rparr>
     (o_executedQty o1) (o_leavesQty o1) (o_avgFillPrice o1) ''''"

definition fillLocked :: "int \<Rightarrow> exec_order \<Rightarrow> f64 \<Rightarrow> f64 \<Rightarrow> sim_broker \<Rightarrow> exec_order \<times> broker_event list \<times> sim_broker" where
  "fillLocked ts o1 qty px b =
     (let o2 = fill_order ts qty px o1;
          b1 = fill_account ts o2 qty px (rest_or_drop o2 b)
      in (o2, [BrokerLifecycle (fill_event ts o2 qty px b1),
               BrokerPositions (sb_venue b1) (sim_positions b1),
               BrokerAccount (sb_acct b1)], b1))"

section \<open>Attempts\<close>

definition attemptBookFill :: "int \<Rightarrow> exec_order \<Rightarrow> feed_book \<Rightarrow> sim_broker \<Rightarrow> broker_event list \<times> sim_broker" where
  "attemptBookFill ts o1 book b =
     (if \<not> eligible o1 ts b then ([], b)
      else let (qty, px) = fillAgainstBook o1 book (sb_slippageBps b)
           in if o_tif o1 = TIFFOK \<and> qty < o_leavesQty o1
              then ([BrokerLifecycle (OrderRejected (sb_venue b) (o_id o1) ''sim: FOK could not fill completely'' ts)],
                    drop_order (o_id o1) b)
              else let (o2, evs, b1) = (if qty > 0 then fillLocked ts o1 qty px b else (o1, [], b))
                   in if o_tif o2 = TIFIOC \<and> o_leavesQty o2 > 0
                      then (evs @ [BrokerLifecycle (OrderCanceled (sb_venue b) (o_id o2) ts)], drop_order (o_id o2) b1)
                      else (evs, b1))"

definition book_of :: "sim_broker \<Rightarrow> string \<Rightarrow> feed_book" where
  "book_of b symbol = mget0 book0 (sb_books b) symbol"

definition actOnMark :: "int \<Rightarrow> exec_order \<Rightarrow> f64 \<Rightarrow> sim_broker \<Rightarrow> broker_event list \<times> sim_broker" where
  "actOnMark ts o1 mark b =
     (case o_type o1 of
        TypeStop \<Rightarrow>
          if \<not> stopTriggered (o_side o1) (o_stopPrice o1) mark then ([], b)
          else let o2 = o1\<lparr>o_type := TypeMarket\<rparr>
               in attemptBookFill ts o2 (book_of b (o_symbol o2)) (keep_order o2 b)
      | TypeStopLimit \<Rightarrow>
          if \<not> stopTriggered (o_side o1) (o_stopPrice o1) mark then ([], b)
          else let o2 = o1\<lparr>o_type := TypeLimit\<rparr>
               in attemptBookFill ts o2 (book_of b (o_symbol o2)) (keep_order o2 b)
      | _ \<Rightarrow> ([], b))"

text \<open>The loop over sorted IDs: an order gone earlier in the pass is skipped.\<close>

fun sweep :: "(exec_order \<Rightarrow> sim_broker \<Rightarrow> broker_event list \<times> sim_broker) \<Rightarrow> string list \<Rightarrow>
    sim_broker \<Rightarrow> broker_event list \<times> sim_broker" where
  "sweep act [] b = ([], b)"
| "sweep act (i # ids) b = (case mget (sb_orders b) i of
     None \<Rightarrow> sweep act ids b
   | Some o1 \<Rightarrow> let (e1, b1) = act o1 b; (e2, b2) = sweep act ids b1 in (e1 @ e2, b2))"

definition ids_where :: "(exec_order \<Rightarrow> bool) \<Rightarrow> sim_broker \<Rightarrow> string list" where
  "ids_where P b = sort (map fst (filter (\<lambda>(_, o1). P o1) (sb_orders b)))"

definition crossResting :: "int \<Rightarrow> string \<Rightarrow> f64 \<Rightarrow> sim_broker \<Rightarrow> broker_event list \<times> sim_broker" where
  "crossResting ts symbol mark b =
     sweep (\<lambda>o1. actOnMark ts o1 mark) (ids_where (\<lambda>o1. o_symbol o1 = symbol) b) b"

definition crossRestingOnBook :: "int \<Rightarrow> string \<Rightarrow> feed_book \<Rightarrow> sim_broker \<Rightarrow> broker_event list \<times> sim_broker" where
  "crossRestingOnBook ts symbol book b =
     sweep (\<lambda>o1. attemptBookFill ts o1 book)
       (ids_where (\<lambda>o1. o_symbol o1 = symbol \<and> (o_type o1 = TypeMarket \<or> o_type o1 = TypeLimit)) b) b"

section \<open>Operations\<close>

definition SetMark :: "int \<Rightarrow> string \<Rightarrow> f64 \<Rightarrow> sim_broker \<Rightarrow> broker_event list \<times> sim_broker" where
  "SetMark ts symbol price b =
     (let b1 = b\<lparr>sb_marks := mput symbol price (sb_marks b)\<rparr>;
          (crossed, b2) = crossResting ts symbol price b1;
          (moved, b3) = markToMarket ts b2
      in (crossed @ moved, b3))"

definition SetBook :: "int \<Rightarrow> string \<Rightarrow> feed_book \<Rightarrow> sim_broker \<Rightarrow> broker_event list \<times> sim_broker" where
  "SetBook ts symbol book b =
     (let b1 = b\<lparr>sb_books := mput symbol book (sb_books b)\<rparr>;
          (crossed, b2) = crossRestingOnBook ts symbol book b1;
          (moved, b3) = markToMarket ts b2
      in (crossed @ moved, b3))"

definition SetAccount :: "account_snapshot \<Rightarrow> sim_broker \<Rightarrow> broker_event list \<times> sim_broker" where
  "SetAccount a b = (let a1 = a\<lparr>ac_venue := sb_venue b\<rparr> in ([BrokerAccount a1], b\<lparr>sb_acct := a1\<rparr>))"

definition sim_order :: "int \<Rightarrow> order_request \<Rightarrow> sim_broker \<Rightarrow> exec_order" where
  "sim_order ts req b = order0\<lparr>o_venue := sb_venue b, o_id := r_clientOrderID req, o_symbol := r_symbol req,
     o_side := r_side req, o_type := r_type req, o_tif := r_tif req, o_session := r_session req,
     o_qty := r_qty req, o_limitPrice := r_limitPrice req, o_stopPrice := r_stopPrice req,
     o_status := StatusAccepted, o_leavesQty := r_qty req, o_createdMs := ts, o_updatedMs := ts\<rparr>"

text \<open>\<open>b.bseq++\<close>, the order in the book of resting orders, and its deadline.\<close>

definition sim_accept :: "int \<Rightarrow> order_request \<Rightarrow> sim_broker \<Rightarrow> sim_broker" where
  "sim_accept ts req b = (let o1 = sim_order ts req b
     in markEligibility o1 (o_createdMs o1) (keep_order o1 (b\<lparr>sb_bseq := sb_bseq b + 1\<rparr>)))"

text \<open>\<open>OrderAck\<close> is the order ID and the broker's own ID; a refusal is the validation error.\<close>

definition sim_SubmitOrder :: "int \<Rightarrow> order_request \<Rightarrow> sim_broker \<Rightarrow>
    (request_error + string \<times> string) \<times> broker_event list \<times> sim_broker" where
  "sim_SubmitOrder ts req b =
     (case Validate req of
        Some err \<Rightarrow> (Inl err, [], b)
      | None \<Rightarrow>
          let brokerID = ''SIM-'' @ show_nat (nat (sb_bseq b + 1));
              o1 = sim_order ts req b; b1 = sim_accept ts req b;
              (post, b2) = (case o_type o1 of
                 TypeMarket \<Rightarrow> attemptBookFill ts o1 (book_of b1 (o_symbol o1)) b1
               | TypeLimit \<Rightarrow> attemptBookFill ts o1 (book_of b1 (o_symbol o1)) b1
               | _ \<Rightarrow> (case mget (sb_marks b1) (r_symbol req) of
                         Some mark \<Rightarrow> actOnMark ts o1 mark b1 | None \<Rightarrow> ([], b1)))
          in (Inr (o_id o1, brokerID),
              BrokerLifecycle (OrderAccepted (sb_venue b) (o_id o1) brokerID ts) # post, b2))"

definition replace_fields :: "int \<Rightarrow> replace_request \<Rightarrow> exec_order \<Rightarrow> exec_order" where
  "replace_fields ts req o1 =
     (let o2 = o1\<lparr>o_qty := rr_qty req\<rparr>;
          o3 = (if rr_limitPrice req > 0 then o2\<lparr>o_limitPrice := rr_limitPrice req\<rparr> else o2);
          o4 = (if rr_stopPrice req > 0 then o3\<lparr>o_stopPrice := rr_stopPrice req\<rparr> else o3)
      in o4\<lparr>o_leavesQty := rr_qty req - o_executedQty o4, o_updatedMs := ts\<rparr>)"

text \<open>The error is the ID of the order that does not work.\<close>

definition sim_ReplaceOrder :: "int \<Rightarrow> string \<Rightarrow> replace_request \<Rightarrow> sim_broker \<Rightarrow>
    string option \<times> broker_event list \<times> sim_broker" where
  "sim_ReplaceOrder ts orderID req b =
     (case mget (sb_orders b) orderID of
        None \<Rightarrow> (Some (''sim: replace: order '' @ orderID @ '' not working''), [], b)
      | Some o0 \<Rightarrow>
          let o1 = replace_fields ts req o0; b1 = keep_order o1 b;
              replaced = BrokerLifecycle (OrderReplaced (sb_venue b) orderID (rr_qty req) (rr_limitPrice req) (rr_stopPrice req) ts);
              (post, b2) = (if o_type o1 = TypeStop \<or> o_type o1 = TypeStopLimit
                 then (case mget (sb_marks b1) (o_symbol o1) of
                         Some mark \<Rightarrow> actOnMark ts o1 mark b1 | None \<Rightarrow> ([], b1))
                 else attemptBookFill ts o1 (book_of b1 (o_symbol o1)) b1)
          in (None, replaced # post, b2))"

definition sim_CancelOrder :: "int \<Rightarrow> string \<Rightarrow> sim_broker \<Rightarrow> string option \<times> broker_event list \<times> sim_broker" where
  "sim_CancelOrder ts orderID b =
     (if \<not> mhas (sb_orders b) orderID then (Some (''sim: cancel: order '' @ orderID @ '' not working''), [], b)
      else (None, [BrokerLifecycle (OrderCanceled (sb_venue b) orderID ts)], drop_order orderID b))"

definition sim_CancelAll :: "int \<Rightarrow> string \<Rightarrow> sim_broker \<Rightarrow> broker_event list \<times> sim_broker" where
  "sim_CancelAll ts symbol b =
     (let ids = ids_where (\<lambda>o1. symbol = '''' \<or> o_symbol o1 = symbol) b
      in (map (\<lambda>i. BrokerLifecycle (OrderCanceled (sb_venue b) i ts)) ids, fold drop_order ids b))"

text \<open>One turn of the loop of \<open>Flatten\<close>.\<close>

definition close_position :: "(string, f64) gomap \<Rightarrow> account_snapshot \<Rightarrow> exec_position \<Rightarrow> account_snapshot \<times> exec_position" where
  "close_position marks a p =
     (if feq (p_qty p) 0 then (a, p)
      else let closePrice = (case mget marks (p_symbol p) of Some m \<Rightarrow> m | None \<Rightarrow> p_avgPrice p);
               longSign = (if p_qty p < 0 then - 1 else 1);
               closeSide = (if p_qty p < 0 then SideCover else SideSell);
               qty = abs (p_qty p)
           in (a\<lparr>ac_realized := ac_realized a + (closePrice - p_avgPrice p) * qty * longSign,
                ac_availableCash := ac_availableCash a + cashSign closeSide * qty * closePrice\<rparr>,
               p\<lparr>p_qty := 0, p_avgPrice := 0\<rparr>))"

fun close_all :: "(string, f64) gomap \<Rightarrow> account_snapshot \<Rightarrow> (string, exec_position) gomap \<Rightarrow>
    account_snapshot \<times> (string, exec_position) gomap" where
  "close_all marks a [] = (a, [])"
| "close_all marks a ((k, p) # ps) =
     (let (a1, p1) = close_position marks a p; (a2, ps2) = close_all marks a1 ps in (a2, (k, p1) # ps2))"

definition sim_Flatten :: "int \<Rightarrow> sim_broker \<Rightarrow> broker_event list \<times> sim_broker" where
  "sim_Flatten ts b =
     (let (a1, ps) = close_all (sb_marks b) (sb_acct b) (sb_pos b);
          b1 = recomputeAccount ts (b\<lparr>sb_acct := a1, sb_pos := ps\<rparr>)
      in ([BrokerPositions (sb_venue b1) (sim_positions b1), BrokerAccount (sb_acct b1)], b1))"

definition sim_ResetBalance :: "int \<Rightarrow> f64 \<Rightarrow> sim_broker \<Rightarrow> broker_event list \<times> sim_broker" where
  "sim_ResetBalance ts startingCash b =
     (let (e1, b1) = sim_CancelAll ts '''' b;
          (e2, b2) = sim_Flatten ts b1;
          (e3, b3) = SetAccount (account0\<lparr>ac_equity := startingCash, ac_buyingPower := startingCash,
            ac_availableCash := startingCash, ac_sodEquity := startingCash\<rparr>) b2
      in (e1 @ e2 @ e3, b3))"

definition sim_Snapshot :: "sim_broker \<Rightarrow> account_snapshot \<times> exec_position list \<times> exec_order list" where
  "sim_Snapshot b = (sb_acct b, sim_positions b, map snd (sb_orders b))"

section \<open>Runs\<close>

datatype sim_op =
    OpMark string f64
  | OpBook string feed_book
  | OpSubmit order_request
  | OpReplace string replace_request
  | OpCancel string
  | OpCancelAll string
  | OpFlatten
  | OpReset f64
  | OpAccount account_snapshot

fun sim_step :: "int \<Rightarrow> sim_op \<Rightarrow> sim_broker \<Rightarrow> broker_event list \<times> sim_broker" where
  "sim_step ts (OpMark symbol price) b = SetMark ts symbol price b"
| "sim_step ts (OpBook symbol book) b = SetBook ts symbol book b"
| "sim_step ts (OpSubmit req) b = snd (sim_SubmitOrder ts req b)"
| "sim_step ts (OpReplace i req) b = snd (sim_ReplaceOrder ts i req b)"
| "sim_step ts (OpCancel i) b = snd (sim_CancelOrder ts i b)"
| "sim_step ts (OpCancelAll symbol) b = sim_CancelAll ts symbol b"
| "sim_step ts OpFlatten b = sim_Flatten ts b"
| "sim_step ts (OpReset cash) b = sim_ResetBalance ts cash b"
| "sim_step ts (OpAccount a) b = SetAccount a b"

text \<open>A run: each operation with its instant; the trace stamps each event with it.\<close>

fun sim_run :: "(int \<times> sim_op) list \<Rightarrow> sim_broker \<Rightarrow> (int \<times> broker_event) list \<times> sim_broker" where
  "sim_run [] b = ([], b)"
| "sim_run ((ts, oper) # ops) b =
     (let (e1, b1) = sim_step ts oper b; (e2, b2) = sim_run ops b1 in (map (Pair ts) e1 @ e2, b2))"

end
