(* ===== verification/SimLaw.thy ===== *)
theory SimLaw
  imports SimBroker
begin

text \<open>
  What every operation of the simulated broker keeps. \<open>sim_wf\<close> is the bookkeeping invariant:
  the resting orders are filed under their own IDs, work, and have a fill deadline exactly when
  the latency is on. The locale \<open>sim_law\<close> is the contract of an invariant that follows the
  emitted events in a ghost \<open>g\<close>: it asks for the broker's small steps only (an attempt against a
  book, a stop's conversion, an acceptance, a replacement, a cancel, a mark) and gives every
  operation and every run.
\<close>

section \<open>Small steps\<close>

lemma keep_order_simps [simp]:
  "sb_orders (keep_order o1 b) = mput (o_id o1) o1 (sb_orders b)"
  "sb_eligibleMs (keep_order o1 b) = sb_eligibleMs b" "sb_venue (keep_order o1 b) = sb_venue b"
  "sb_slippageBps (keep_order o1 b) = sb_slippageBps b" "sb_fillLatencyMs (keep_order o1 b) = sb_fillLatencyMs b"
  "sb_marks (keep_order o1 b) = sb_marks b" "sb_books (keep_order o1 b) = sb_books b"
  "sb_pos (keep_order o1 b) = sb_pos b" "sb_acct (keep_order o1 b) = sb_acct b"
  by (simp_all add: keep_order_def)

lemma drop_order_simps [simp]:
  "sb_orders (drop_order i b) = mdel i (sb_orders b)" "sb_eligibleMs (drop_order i b) = mdel i (sb_eligibleMs b)"
  "sb_venue (drop_order i b) = sb_venue b" "sb_slippageBps (drop_order i b) = sb_slippageBps b"
  "sb_fillLatencyMs (drop_order i b) = sb_fillLatencyMs b" "sb_marks (drop_order i b) = sb_marks b"
  "sb_books (drop_order i b) = sb_books b" "sb_pos (drop_order i b) = sb_pos b" "sb_acct (drop_order i b) = sb_acct b"
  by (simp_all add: drop_order_def clearEligibility_def)

lemma recompute_simps [simp]:
  "sb_orders (recomputeAccount ts b) = sb_orders b" "sb_eligibleMs (recomputeAccount ts b) = sb_eligibleMs b"
  "sb_venue (recomputeAccount ts b) = sb_venue b" "sb_slippageBps (recomputeAccount ts b) = sb_slippageBps b"
  "sb_fillLatencyMs (recomputeAccount ts b) = sb_fillLatencyMs b" "sb_marks (recomputeAccount ts b) = sb_marks b"
  "sb_books (recomputeAccount ts b) = sb_books b" "sb_pos (recomputeAccount ts b) = sb_pos b"
  "ac_availableCash (sb_acct (recomputeAccount ts b)) = ac_availableCash (sb_acct b)"
  "ac_sodEquity (sb_acct (recomputeAccount ts b)) = ac_sodEquity (sb_acct b)"
  by (simp_all add: recomputeAccount_def)

lemma fill_account_simps [simp]:
  "sb_orders (fill_account ts o1 q px b) = sb_orders b" "sb_eligibleMs (fill_account ts o1 q px b) = sb_eligibleMs b"
  "sb_venue (fill_account ts o1 q px b) = sb_venue b" "sb_slippageBps (fill_account ts o1 q px b) = sb_slippageBps b"
  "sb_fillLatencyMs (fill_account ts o1 q px b) = sb_fillLatencyMs b" "sb_marks (fill_account ts o1 q px b) = sb_marks b"
  "sb_books (fill_account ts o1 q px b) = sb_books b"
  "ac_availableCash (sb_acct (fill_account ts o1 q px b)) = ac_availableCash (sb_acct b) + cashSign (o_side o1) * q * px"
  "ac_sodEquity (sb_acct (fill_account ts o1 q px b)) = ac_sodEquity (sb_acct b)"
  by (simp_all add: fill_account_def Let_def case_prod_unfold split: option.split)

lemma fill_order_simps [simp]:
  "o_id (fill_order ts q px o1) = o_id o1" "o_venue (fill_order ts q px o1) = o_venue o1"
  "o_symbol (fill_order ts q px o1) = o_symbol o1" "o_side (fill_order ts q px o1) = o_side o1"
  "o_type (fill_order ts q px o1) = o_type o1" "o_tif (fill_order ts q px o1) = o_tif o1"
  "o_session (fill_order ts q px o1) = o_session o1" "o_qty (fill_order ts q px o1) = o_qty o1"
  "o_limitPrice (fill_order ts q px o1) = o_limitPrice o1" "o_stopPrice (fill_order ts q px o1) = o_stopPrice o1"
  "o_createdMs (fill_order ts q px o1) = o_createdMs o1" "o_executedQty (fill_order ts q px o1) = o_executedQty o1 + q"
  by (simp_all add: fill_order_def Let_def)

text \<open>The filled status is the nonpositive remainder, before and after it is cut to zero.\<close>

lemma fill_order_status:
  "o_status (fill_order ts q px o1) = (if o_leavesQty (fill_order ts q px o1) \<le> 0 then StatusFilled else StatusPartiallyFilled)"
  "o_leavesQty (fill_order ts q px o1) \<le> 0 \<longleftrightarrow> o_leavesQty o1 - q \<le> 0"
  by (simp_all add: fill_order_def Let_def zero_f64_def)

lemma replace_fields_simps [simp]:
  "o_id (replace_fields ts req o1) = o_id o1" "o_venue (replace_fields ts req o1) = o_venue o1"
  "o_symbol (replace_fields ts req o1) = o_symbol o1" "o_side (replace_fields ts req o1) = o_side o1"
  "o_type (replace_fields ts req o1) = o_type o1" "o_tif (replace_fields ts req o1) = o_tif o1"
  "o_session (replace_fields ts req o1) = o_session o1" "o_qty (replace_fields ts req o1) = rr_qty req"
  "o_status (replace_fields ts req o1) = o_status o1" "o_createdMs (replace_fields ts req o1) = o_createdMs o1"
  "o_executedQty (replace_fields ts req o1) = o_executedQty o1"
  "o_leavesQty (replace_fields ts req o1) = rr_qty req - o_executedQty o1"
  "o_limitPrice (replace_fields ts req o1) = (if rr_limitPrice req > 0 then rr_limitPrice req else o_limitPrice o1)"
  "o_stopPrice (replace_fields ts req o1) = (if rr_stopPrice req > 0 then rr_stopPrice req else o_stopPrice o1)"
  by (simp_all add: replace_fields_def Let_def)

lemma sim_order_simps [simp]:
  "o_id (sim_order ts req b) = r_clientOrderID req" "o_venue (sim_order ts req b) = sb_venue b"
  "o_symbol (sim_order ts req b) = r_symbol req" "o_side (sim_order ts req b) = r_side req"
  "o_type (sim_order ts req b) = r_type req" "o_tif (sim_order ts req b) = r_tif req"
  "o_session (sim_order ts req b) = r_session req" "o_qty (sim_order ts req b) = r_qty req"
  "o_limitPrice (sim_order ts req b) = r_limitPrice req" "o_stopPrice (sim_order ts req b) = r_stopPrice req"
  "o_status (sim_order ts req b) = StatusAccepted" "o_createdMs (sim_order ts req b) = ts"
  "o_executedQty (sim_order ts req b) = 0" "o_leavesQty (sim_order ts req b) = r_qty req"
  "o_avgFillPrice (sim_order ts req b) = 0"
  by (simp_all add: sim_order_def order0_def)

lemma sim_accept_simps [simp]:
  "sb_orders (sim_accept ts req b) = mput (r_clientOrderID req) (sim_order ts req b) (sb_orders b)"
  "sb_eligibleMs (sim_accept ts req b) = (if sb_fillLatencyMs b \<le> 0 then sb_eligibleMs b
     else mput (r_clientOrderID req) (ts + sb_fillLatencyMs b) (sb_eligibleMs b))"
  "sb_venue (sim_accept ts req b) = sb_venue b" "sb_slippageBps (sim_accept ts req b) = sb_slippageBps b"
  "sb_fillLatencyMs (sim_accept ts req b) = sb_fillLatencyMs b" "sb_marks (sim_accept ts req b) = sb_marks b"
  "sb_books (sim_accept ts req b) = sb_books b" "sb_pos (sim_accept ts req b) = sb_pos b"
  "sb_acct (sim_accept ts req b) = sb_acct b"
  by (simp_all add: sim_accept_def Let_def markEligibility_def)

section \<open>The bookkeeping invariant\<close>

definition sim_wf :: "sim_broker \<Rightarrow> bool" where
  "sim_wf b \<longleftrightarrow> keys_distinct (sb_orders b) \<and> keys_distinct (sb_pos b) \<and>
     (\<forall>i o1. mget (sb_orders b) i = Some o1 \<longrightarrow> o_id o1 = i \<and> o_venue o1 = sb_venue b \<and> Working o1) \<and>
     (\<forall>i. mget (sb_eligibleMs b) i =
        (if sb_fillLatencyMs b \<le> 0 then None
         else map_option (\<lambda>o1. o_createdMs o1 + sb_fillLatencyMs b) (mget (sb_orders b) i))) \<and>
     (\<forall>k p. mget (sb_pos b) k = Some p \<longrightarrow> p_symbol p = k)"

lemma wf_rests: "sim_wf b \<Longrightarrow> mget (sb_orders b) i = Some o1 \<Longrightarrow> o_id o1 = i \<and> o_venue o1 = sb_venue b \<and> Working o1"
  by (simp add: sim_wf_def)

lemma wf_deadline: "sim_wf b \<Longrightarrow> mget (sb_eligibleMs b) i =
    (if sb_fillLatencyMs b \<le> 0 then None
     else map_option (\<lambda>o1. o_createdMs o1 + sb_fillLatencyMs b) (mget (sb_orders b) i))"
  unfolding sim_wf_def by blast

lemma wf_position: "sim_wf b \<Longrightarrow> mget (sb_pos b) k = Some p \<Longrightarrow> p_symbol p = k"
  unfolding sim_wf_def by blast

lemma sim_New_simps [simp]:
  "sb_venue (sim_New v ts cash opts) = v" "sb_fillLatencyMs (sim_New v ts cash opts) = op_fillLatencyMs opts"
  "sb_orders (sim_New v ts cash opts) = []" "sb_pos (sim_New v ts cash opts) = []"
  "sb_books (sim_New v ts cash opts) = []" "sb_eligibleMs (sim_New v ts cash opts) = []"
  "ac_availableCash (sb_acct (sim_New v ts cash opts)) = cash" "ac_sodEquity (sb_acct (sim_New v ts cash opts)) = cash"
  by (simp_all add: sim_New_def)

lemma wf_New [simp]: "sim_wf (sim_New v ts cash opts)"
  by (simp add: sim_wf_def sim_New_def)

lemma wf_acct [simp]: "sim_wf (b\<lparr>sb_acct := a\<rparr>) = sim_wf b" "sim_wf (b\<lparr>sb_marks := m\<rparr>) = sim_wf b"
  "sim_wf (b\<lparr>sb_books := k\<rparr>) = sim_wf b" "sim_wf (recomputeAccount ts b) = sim_wf b"
  by (simp_all add: sim_wf_def)

text \<open>Writing back an order that rests, with its identity and creation time kept.\<close>

lemma wf_keep:
  assumes "sim_wf b" "mget (sb_orders b) (o_id o2) = Some o1" "o_venue o2 = o_venue o1"
    "o_createdMs o2 = o_createdMs o1" "Working o2"
  shows "sim_wf (keep_order o2 b)"
  using assms wf_rests[OF assms(1,2)] by (auto simp: sim_wf_def)

lemma wf_drop: "sim_wf b \<Longrightarrow> sim_wf (drop_order i b)"
  by (auto simp: sim_wf_def)

lemma wf_accept:
  assumes "sim_wf b"
  shows "sim_wf (sim_accept ts req b)"
  using assms by (auto simp: sim_wf_def Working_status simp del: map_of_eq_Some_iff)

lemma fill_position_symbol [simp]: "p_symbol (fst (fill_position d q px p)) = p_symbol p"
  by (simp add: fill_position_def Let_def)

lemma fill_account_pos:
  "sb_pos (fill_account ts o1 q px b) = mput (o_symbol o1)
     (fst (fill_position (signed_fill (o_side o1) q) q px
        (mget0 (position0\<lparr>p_venue := sb_venue b, p_symbol := o_symbol o1\<rparr>) (sb_pos b) (o_symbol o1)))) (sb_pos b)"
  by (simp add: fill_account_def Let_def case_prod_unfold)

lemma wf_fill_account: "sim_wf b \<Longrightarrow> sim_wf (fill_account ts o1 q px b)"
  unfolding sim_wf_def fill_account_pos by (auto simp: mget0_def split: option.split)

definition fill_result :: "int \<Rightarrow> exec_order \<Rightarrow> f64 \<Rightarrow> f64 \<Rightarrow> sim_broker \<Rightarrow> sim_broker" where
  "fill_result ts o1 q px b = fill_account ts (fill_order ts q px o1) q px (rest_or_drop (fill_order ts q px o1) b)"

lemma fillLocked_eq:
  "fillLocked ts o1 q px b =
     (let b1 = fill_result ts o1 q px b in
      (fill_order ts q px o1,
       [BrokerLifecycle (fill_event ts (fill_order ts q px o1) q px b1),
        BrokerPositions (sb_venue b1) (sim_positions b1), BrokerAccount (sb_acct b1)], b1))"
  by (simp add: fillLocked_def fill_result_def Let_def)

lemma fill_result_simps [simp]:
  "sb_venue (fill_result ts o1 q px b) = sb_venue b" "sb_fillLatencyMs (fill_result ts o1 q px b) = sb_fillLatencyMs b"
  "sb_books (fill_result ts o1 q px b) = sb_books b" "sb_marks (fill_result ts o1 q px b) = sb_marks b"
  "sb_slippageBps (fill_result ts o1 q px b) = sb_slippageBps b"
  by (simp_all add: fill_result_def rest_or_drop_def)

lemma fill_result_orders:
  "mget (sb_orders (fill_result ts o1 q px b)) i =
     (if i \<noteq> o_id o1 then mget (sb_orders b) i
      else if o_leavesQty o1 - q \<le> 0 then None else Some (fill_order ts q px o1))"
  by (simp add: fill_result_def rest_or_drop_def fill_order_status)

lemma wf_fill:
  assumes "sim_wf b" "mget (sb_orders b) (o_id o1) = Some o1"
  shows "sim_wf (fill_result ts o1 q px b)"
proof -
  have "sim_wf (rest_or_drop (fill_order ts q px o1) b)"
    using assms by (auto simp: rest_or_drop_def fill_order_status Working_status intro!: wf_drop wf_keep)
  then show ?thesis by (simp add: fill_result_def wf_fill_account)
qed

lemma feq_zero [simp]: "feq 0 0"
  by (simp add: feq_def zero_f64_def)

lemma close_position_symbol [simp]: "p_symbol (snd (close_position m a p)) = p_symbol p"
  by (simp add: close_position_def Let_def)

lemma close_all_Cons:
  "snd (close_all m a ((k, p) # qs)) = (k, snd (close_position m a p)) # snd (close_all m (fst (close_position m a p)) qs)"
  by (simp add: Let_def case_prod_unfold)

lemma close_all_keys: "map fst (snd (close_all m a qs)) = map fst qs"
  by (induction qs arbitrary: a) (auto simp: close_all_Cons simp del: close_all.simps(2))

lemma close_all_symbols:
  "map_option p_symbol (mget (snd (close_all m a qs)) k) = map_option p_symbol (mget qs k)"
  by (induction qs arbitrary: a) (auto simp: close_all_Cons simp del: close_all.simps(2))

lemma wf_close_all:
  assumes "sim_wf b" "close_all m a0 (sb_pos b) = (a, ps)"
  shows "sim_wf (b\<lparr>sb_acct := a, sb_pos := ps\<rparr>)"
proof -
  have ps: "snd (close_all m a0 (sb_pos b)) = ps" using assms(2) by simp
  have "p_symbol p = k" if "mget ps k = Some p" for k p
  proof -
    have "map_option p_symbol (mget (sb_pos b) k) = Some (p_symbol p)"
      using close_all_symbols[of m a0 "sb_pos b" k] that by (simp add: ps)
    then obtain p' where "mget (sb_pos b) k = Some p'" "p_symbol p' = p_symbol p" by (auto simp del: map_of_eq_Some_iff)
    then show ?thesis using wf_position[OF assms(1)] by metis
  qed
  moreover have "keys_distinct ps"
    using assms(1) close_all_keys[of m a0 "sb_pos b"] unfolding ps by (simp add: sim_wf_def)
  ultimately show ?thesis using assms(1) by (simp add: sim_wf_def del: map_of_eq_Some_iff)
qed

text \<open>What an attempt can do, one case at a time.\<close>

lemma attempt_cases [consumes 1, case_names waits rejected idle filled canceled filled_canceled]:
  assumes "attemptBookFill ts o1 book b = (evs, b')"
  obtains "\<not> eligible o1 ts b" "evs = []" "b' = b"
  | "eligible o1 ts b" "o_tif o1 = TIFFOK" "fst (fillAgainstBook o1 book (sb_slippageBps b)) < o_leavesQty o1"
    "evs = [BrokerLifecycle (OrderRejected (sb_venue b) (o_id o1) ''sim: FOK could not fill completely'' ts)]"
    "b' = drop_order (o_id o1) b"
  | "eligible o1 ts b" "\<not> (o_tif o1 = TIFIOC \<and> o_leavesQty o1 > 0)"
    "\<not> (o_tif o1 = TIFFOK \<and> fst (fillAgainstBook o1 book (sb_slippageBps b)) < o_leavesQty o1)"
    "\<not> fst (fillAgainstBook o1 book (sb_slippageBps b)) > 0" "evs = []" "b' = b"
  | q px where "eligible o1 ts b" "fillAgainstBook o1 book (sb_slippageBps b) = (q, px)" "q > 0"
    "\<not> (o_tif o1 = TIFFOK \<and> q < o_leavesQty o1)"
    "\<not> (o_tif o1 = TIFIOC \<and> o_leavesQty (fill_order ts q px o1) > 0)"
    "evs = fst (snd (fillLocked ts o1 q px b))" "b' = fill_result ts o1 q px b"
  | "eligible o1 ts b" "o_tif o1 = TIFIOC" "o_leavesQty o1 > 0"
    "\<not> fst (fillAgainstBook o1 book (sb_slippageBps b)) > 0"
    "evs = [BrokerLifecycle (OrderCanceled (sb_venue b) (o_id o1) ts)]" "b' = drop_order (o_id o1) b"
  | q px where "eligible o1 ts b" "fillAgainstBook o1 book (sb_slippageBps b) = (q, px)" "q > 0"
    "o_tif o1 = TIFIOC" "o_leavesQty (fill_order ts q px o1) > 0"
    "evs = fst (snd (fillLocked ts o1 q px b)) @ [BrokerLifecycle (OrderCanceled (sb_venue b) (o_id o1) ts)]"
    "b' = drop_order (o_id o1) (fill_result ts o1 q px b)"
proof -
  obtain q px where fab: "fillAgainstBook o1 book (sb_slippageBps b) = (q, px)" by fastforce
  note eqn = assms[unfolded attemptBookFill_def fab fillLocked_eq Let_def prod.case]
  show ?thesis
  proof (cases "eligible o1 ts b")
    case False
    then show ?thesis using eqn by (intro that(1)) simp_all
  next
    case el: True
    show ?thesis
    proof (cases "o_tif o1 = TIFFOK \<and> q < o_leavesQty o1")
      case True
      then show ?thesis using eqn el fab by (intro that(2)) simp_all
    next
      case nofok: False
      consider "\<not> q > 0" "o_tif o1 = TIFIOC \<and> o_leavesQty o1 > 0" | "\<not> q > 0" "\<not> (o_tif o1 = TIFIOC \<and> o_leavesQty o1 > 0)"
        | "q > 0" "o_tif o1 = TIFIOC \<and> o_leavesQty (fill_order ts q px o1) > 0"
        | "q > 0" "\<not> (o_tif o1 = TIFIOC \<and> o_leavesQty (fill_order ts q px o1) > 0)"
        by blast
      then show ?thesis
      proof cases
        case 1
        then show ?thesis using eqn el fab nofok by (intro that(5)) simp_all
      next
        case 2
        then show ?thesis using eqn el fab nofok by (intro that(3)) auto
      next
        case 3
        then show ?thesis using eqn el fab nofok by (intro that(6)[OF el fab]) (simp_all add: fillLocked_eq Let_def)
      next
        case 4
        then show ?thesis using eqn el fab nofok by (intro that(4)[OF el fab]) (auto simp: fillLocked_eq Let_def)
      qed
    qed
  qed
qed

section \<open>The venue and its latency never change\<close>

lemma attempt_fixed [simp]: "sb_venue (snd (attemptBookFill ts o1 k b)) = sb_venue b"
  "sb_fillLatencyMs (snd (attemptBookFill ts o1 k b)) = sb_fillLatencyMs b"
proof -
  obtain evs b' where a: "attemptBookFill ts o1 k b = (evs, b')" by fastforce
  then show "sb_venue (snd (attemptBookFill ts o1 k b)) = sb_venue b"
    "sb_fillLatencyMs (snd (attemptBookFill ts o1 k b)) = sb_fillLatencyMs b"
    by (cases rule: attempt_cases; simp add: a)+
qed

lemma act_fixed [simp]: "sb_venue (snd (actOnMark ts o1 m b)) = sb_venue b"
  "sb_fillLatencyMs (snd (actOnMark ts o1 m b)) = sb_fillLatencyMs b"
  by (simp_all add: actOnMark_def Let_def split: order_type.split)

lemma sweep_fixed:
  "(\<And>o1 b. p (snd (f o1 b)) = p b) \<Longrightarrow> p (snd (sweep f ids b)) = p b"
  by (induction ids arbitrary: b) (simp_all add: Let_def case_prod_unfold split: option.split)

lemma mark_fixed [simp]: "sb_venue (snd (markToMarket ts b)) = sb_venue b"
  "sb_fillLatencyMs (snd (markToMarket ts b)) = sb_fillLatencyMs b"
  by (simp_all add: markToMarket_def Let_def)

lemma cancels_fixed [simp]: "sb_venue (fold drop_order ids b) = sb_venue b"
  "sb_fillLatencyMs (fold drop_order ids b) = sb_fillLatencyMs b"
  by (induction ids arbitrary: b) simp_all

lemmas step_defs = SetMark_def SetBook_def crossResting_def crossRestingOnBook_def Let_def case_prod_unfold
  sim_SubmitOrder_def sim_ReplaceOrder_def sim_CancelOrder_def sim_CancelAll_def sim_Flatten_def
  sim_ResetBalance_def SetAccount_def

lemma step_fixed: "sb_venue (snd (sim_step ts oper b)) = sb_venue b"
  "sb_fillLatencyMs (snd (sim_step ts oper b)) = sb_fillLatencyMs b"
  by (cases oper; simp add: step_defs sweep_fixed[of sb_venue] sweep_fixed[of sb_fillLatencyMs]
      split: option.split order_type.split)+

lemma run_fixed: "sb_venue (snd (sim_run ops b)) = sb_venue b"
  "sb_fillLatencyMs (snd (sim_run ops b)) = sb_fillLatencyMs b"
  by (induction ops arbitrary: b) (auto simp: Let_def case_prod_unfold step_fixed)

section \<open>Loops over IDs\<close>

lemma ids_where_distinct: "sim_wf b \<Longrightarrow> distinct (ids_where P b)"
  by (simp add: sim_wf_def ids_where_def distinct_map_filter)

lemma ids_where_rest: "i \<in> set (ids_where P b) \<Longrightarrow> mhas (sb_orders b) i"
  by (auto simp: ids_where_def mhas_def dest: weak_map_of_SomeI)

section \<open>The contract\<close>

text \<open>A ghost move before an operation: only a submit the broker does not refuse has one.\<close>

definition pre_op :: "(int \<Rightarrow> order_request \<Rightarrow> 'g \<Rightarrow> 'g) \<Rightarrow> int \<Rightarrow> sim_op \<Rightarrow> 'g \<Rightarrow> 'g" where
  "pre_op pre ts oper g = (case oper of OpSubmit req \<Rightarrow> if Validate req = None then pre ts req g else g | _ \<Rightarrow> g)"

locale sim_law =
  fixes I :: "'g \<Rightarrow> sim_broker \<Rightarrow> bool"
    and W :: "string \<Rightarrow> 'g \<Rightarrow> sim_broker \<Rightarrow> bool"
    and upd :: "broker_event \<Rightarrow> 'g \<Rightarrow> 'g"
    and pre :: "int \<Rightarrow> order_request \<Rightarrow> 'g \<Rightarrow> 'g"
    and B :: "feed_book \<Rightarrow> bool"
    and ok :: "'g \<Rightarrow> sim_broker \<Rightarrow> sim_op \<Rightarrow> bool"
    and manual :: bool
  assumes wf: "I g b \<Longrightarrow> sim_wf b"
    and weaken: "I g b \<Longrightarrow> W i g b"
    and settle: "W i g b \<Longrightarrow> mget (sb_orders b) i = Some o1 \<Longrightarrow> o_type o1 \<noteq> TypeMarket \<Longrightarrow>
      o_type o1 \<noteq> TypeLimit \<Longrightarrow> I g b"
    and stored: "W i g b \<Longrightarrow> B (book_of b symbol)"
    and attempt: "W (o_id o1) g b \<Longrightarrow> mget (sb_orders b) (o_id o1) = Some o1 \<Longrightarrow> B book \<Longrightarrow>
      attemptBookFill ts o1 book b = (evs, b') \<Longrightarrow> I (fold upd evs g) b'"
    and retype: "I g b \<Longrightarrow> mget (sb_orders b) (o_id o1) = Some o1 \<Longrightarrow>
      o_type o1 = TypeStop \<and> ty = TypeMarket \<or> o_type o1 = TypeStopLimit \<and> ty = TypeLimit \<Longrightarrow>
      W (o_id o1) g (keep_order (o1\<lparr>o_type := ty\<rparr>) b)"
    and mark: "I g b \<Longrightarrow> I g (b\<lparr>sb_marks := m\<rparr>)"
    and book: "I g b \<Longrightarrow> ok g b (OpBook symbol bk) \<Longrightarrow>
      B bk \<and> I g (b\<lparr>sb_books := mput symbol bk (sb_books b)\<rparr>)"
    and remark: "I g b \<Longrightarrow> I g (recomputeAccount ts b)"
    and report: "I g b \<Longrightarrow> I (upd (BrokerAccount a) g) b" "I g b \<Longrightarrow> I (upd (BrokerPositions v reported) g) b"
    and accept: "I g b \<Longrightarrow> ok g b (OpSubmit req) \<Longrightarrow> Validate req = None \<Longrightarrow>
      W (r_clientOrderID req)
        (upd (BrokerLifecycle (OrderAccepted (sb_venue b) (r_clientOrderID req) brokerID ts)) (pre ts req g))
        (sim_accept ts req b)"
    and replace: "I g b \<Longrightarrow> ok g b (OpReplace i rq) \<Longrightarrow> mget (sb_orders b) i = Some o1 \<Longrightarrow>
      W i (upd (BrokerLifecycle (OrderReplaced (sb_venue b) i (rr_qty rq) (rr_limitPrice rq) (rr_stopPrice rq) ts)) g)
        (keep_order (replace_fields ts rq o1) b)"
    and cancel: "I g b \<Longrightarrow> mhas (sb_orders b) i \<Longrightarrow>
      I (upd (BrokerLifecycle (OrderCanceled (sb_venue b) i ts)) g) (drop_order i b)"
    and manual_ok: "ok g b OpFlatten \<Longrightarrow> manual" "ok g b (OpReset cash) \<Longrightarrow> manual" "ok g b (OpAccount a) \<Longrightarrow> manual"
    and flatten: "manual \<Longrightarrow> I g b \<Longrightarrow> close_all (sb_marks b) (sb_acct b) (sb_pos b) = (a, ps) \<Longrightarrow>
      I g (b\<lparr>sb_acct := a, sb_pos := ps\<rparr>)"
    and account: "manual \<Longrightarrow> I g b \<Longrightarrow> I g (b\<lparr>sb_acct := a\<rparr>)"
begin

lemma act:
  assumes "I g b" "mget (sb_orders b) (o_id o1) = Some o1" "actOnMark ts o1 m b = (evs, b')"
  shows "I (fold upd evs g) b'"
proof -
  have go: "I (fold upd evs g) b'"
    if "attemptBookFill ts (o1\<lparr>o_type := ty\<rparr>) (book_of b (o_symbol (o1\<lparr>o_type := ty\<rparr>)))
          (keep_order (o1\<lparr>o_type := ty\<rparr>) b) = (evs, b')"
      "o_type o1 = TypeStop \<and> ty = TypeMarket \<or> o_type o1 = TypeStopLimit \<and> ty = TypeLimit" for ty
    using retype[OF assms(1,2) that(2)] stored[OF weaken[OF assms(1)]] that(1)
    by (intro attempt[of "o1\<lparr>o_type := ty\<rparr>"]) simp_all
  show ?thesis using assms(1,3) go
    by (auto simp: actOnMark_def Let_def split: order_type.splits if_splits)
qed

lemma sweep_keeps:
  assumes "I g b" "sweep f ids b = (evs, b')"
    and step: "\<And>g b o1 evs b'. I g b \<Longrightarrow> mget (sb_orders b) (o_id o1) = Some o1 \<Longrightarrow> f o1 b = (evs, b') \<Longrightarrow>
      I (fold upd evs g) b'"
  shows "I (fold upd evs g) b'"
  using assms(1,2)
proof (induction ids arbitrary: g b evs)
  case Nil
  then show ?case by simp
next
  case (Cons i ids)
  show ?case
  proof (cases "mget (sb_orders b) i")
    case None
    then show ?thesis using Cons by simp
  next
    case (Some o1)
    obtain e1 b1 where f: "f o1 b = (e1, b1)" by fastforce
    obtain e2 b2 where s: "sweep f ids b1 = (e2, b2)" by fastforce
    have "I (fold upd e1 g) b1"
      using step[OF Cons.prems(1) _ f] Some wf_rests[OF wf[OF Cons.prems(1)] Some] by simp
    moreover have "evs = e1 @ e2" "b' = b2" using Cons.prems(2) Some f s by (simp_all add: Let_def)
    ultimately show ?thesis using Cons.IH s by simp
  qed
qed

lemma markToMarket_keeps: "I g b \<Longrightarrow> markToMarket ts b = (evs, b') \<Longrightarrow> I (fold upd evs g) b'"
  using remark[of g b ts] report(1)[OF remark[of g b ts]]
  by (auto simp: markToMarket_def Let_def split: if_splits)

lemma SetMark_keeps:
  assumes "I g b" "SetMark ts symbol m b = (evs, b')"
  shows "I (fold upd evs g) b'"
proof -
  define b1 where "b1 = b\<lparr>sb_marks := mput symbol m (sb_marks b)\<rparr>"
  obtain e1 b2 where c: "crossResting ts symbol m b1 = (e1, b2)" by fastforce
  obtain e2 b3 where t: "markToMarket ts b2 = (e2, b3)" by fastforce
  have "I (fold upd e1 g) b2"
    by (rule sweep_keeps[OF _ c[unfolded crossResting_def]]) (auto simp: b1_def intro: mark assms(1) act)
  moreover have "evs = e1 @ e2" "b' = b3" using assms(2) c t by (simp_all add: SetMark_def Let_def b1_def)
  ultimately show ?thesis using markToMarket_keeps[OF _ t] by simp
qed

lemma SetBook_keeps:
  assumes "I g b" "ok g b (OpBook symbol bk)" "SetBook ts symbol bk b = (evs, b')"
  shows "I (fold upd evs g) b'"
proof -
  define b1 where "b1 = b\<lparr>sb_books := mput symbol bk (sb_books b)\<rparr>"
  obtain e1 b2 where c: "crossRestingOnBook ts symbol bk b1 = (e1, b2)" by fastforce
  obtain e2 b3 where t: "markToMarket ts b2 = (e2, b3)" by fastforce
  have bk: "B bk" "I g b1" using book[OF assms(1,2)] by (simp_all add: b1_def)
  have "I (fold upd e1 g) b2"
    by (rule sweep_keeps[OF bk(2) c[unfolded crossRestingOnBook_def]]) (blast intro: attempt weaken bk(1))
  moreover have "evs = e1 @ e2" "b' = b3" using assms(3) c t by (simp_all add: SetBook_def Let_def b1_def)
  ultimately show ?thesis using markToMarket_keeps[OF _ t] by simp
qed

text \<open>After a submit or a replacement the order is tried as its type asks.\<close>

lemma try_keeps:
  assumes "W i g b" "mget (sb_orders b) i = Some o1" "o_id o1 = i"
    "(if P then (case mget (sb_marks b) sy of Some m \<Rightarrow> actOnMark ts o1 m b | None \<Rightarrow> ([], b))
      else attemptBookFill ts o1 (book_of b symbol) b) = (evs, b')"
    "P \<Longrightarrow> o_type o1 \<noteq> TypeMarket \<and> o_type o1 \<noteq> TypeLimit"
  shows "I (fold upd evs g) b'"
proof (cases P)
  case True
  then have "I g b" using settle[OF assms(1,2)] assms(5) by simp
  then show ?thesis using True assms by (auto split: option.splits intro: act[of g b o1])
next
  case False
  then show ?thesis using attempt[of o1 g b "book_of b symbol" ts evs b'] stored[OF assms(1)] assms by simp
qed

lemma submit_keeps:
  assumes "I g b" "ok g b (OpSubmit req)" "Validate req = None" "sim_SubmitOrder ts req b = (res, evs, b')"
  shows "I (fold upd evs (pre ts req g)) b'"
proof -
  define b1 where "b1 = sim_accept ts req b"
  define bid where "bid = ''SIM-'' @ show_nat (nat (sb_bseq b + 1))"
  define stop where "stop \<longleftrightarrow> r_type req \<noteq> TypeMarket \<and> r_type req \<noteq> TypeLimit"
  obtain post b2 where p: "(if stop then (case mget (sb_marks b1) (r_symbol req) of Some m \<Rightarrow> actOnMark ts (sim_order ts req b) m b1 | None \<Rightarrow> ([], b1))
      else attemptBookFill ts (sim_order ts req b) (book_of b1 (r_symbol req)) b1) = (post, b2)" by fastforce
  have res: "evs = BrokerLifecycle (OrderAccepted (sb_venue b) (r_clientOrderID req) bid ts) # post" "b' = b2"
    using assms(4)[unfolded sim_SubmitOrder_def assms(3) Let_def option.case b1_def[symmetric] bid_def[symmetric]] p
    by (auto simp: stop_def split: order_type.splits prod.splits)
  have o1: "mget (sb_orders b1) (r_clientOrderID req) = Some (sim_order ts req b)"
    by (simp add: b1_def sim_accept_simps)
  show ?thesis unfolding res
    using try_keeps[OF accept[OF assms(1-3), of bid ts, folded b1_def] o1 _ p] by (simp add: stop_def)
qed

lemma replace_keeps:
  assumes "I g b" "ok g b (OpReplace i rq)" "sim_ReplaceOrder ts i rq b = (res, evs, b')"
  shows "I (fold upd evs g) b'"
proof (cases "mget (sb_orders b) i")
  case None
  then show ?thesis using assms by (simp add: sim_ReplaceOrder_def)
next
  case (Some o0)
  define o1 where "o1 = replace_fields ts rq o0"
  have id: "o_id o1 = i" using wf_rests[OF wf[OF assms(1)] Some] by (simp add: o1_def)
  obtain post b2 where p: "(if o_type o1 = TypeStop \<or> o_type o1 = TypeStopLimit
      then (case mget (sb_marks (keep_order o1 b)) (o_symbol o1) of Some m \<Rightarrow> actOnMark ts o1 m (keep_order o1 b) | None \<Rightarrow> ([], keep_order o1 b))
      else attemptBookFill ts o1 (book_of (keep_order o1 b) (o_symbol o1)) (keep_order o1 b)) = (post, b2)" by fastforce
  have res: "evs = BrokerLifecycle (OrderReplaced (sb_venue b) i (rr_qty rq) (rr_limitPrice rq) (rr_stopPrice rq) ts) # post" "b' = b2"
    using assms(3)[unfolded sim_ReplaceOrder_def Some Let_def option.case o1_def[symmetric]] p by (simp_all split: prod.splits)
  show ?thesis unfolding res
    using try_keeps[OF replace[OF assms(1,2) Some, of ts, folded o1_def] _ id p]
    by (simp add: id) fastforce
qed

lemma cancel_keeps:
  assumes "I g b" "sim_CancelOrder ts i b = (res, evs, b')"
  shows "I (fold upd evs g) b'"
  using assms cancel[OF assms(1), of i ts] by (auto simp: sim_CancelOrder_def split: if_splits)

lemma cancel_ids:
  assumes "I g b" "distinct ids" "\<And>i. i \<in> set ids \<Longrightarrow> mhas (sb_orders b) i" "v = sb_venue b"
  shows "I (fold upd (map (\<lambda>i. BrokerLifecycle (OrderCanceled v i ts)) ids) g) (fold drop_order ids b)"
  using assms
proof (induction ids arbitrary: g b)
  case Nil
  then show ?case by simp
next
  case (Cons i ids)
  have "I (upd (BrokerLifecycle (OrderCanceled v i ts)) g) (drop_order i b)"
    using cancel[OF Cons.prems(1), of i ts] Cons.prems by simp
  moreover have "mhas (sb_orders (drop_order i b)) j" if "j \<in> set ids" for j
    using Cons.prems(2) Cons.prems(3)[of j] that by (auto simp: mhas_def)
  ultimately show ?case using Cons.IH[of _ "drop_order i b"] Cons.prems by simp
qed

lemma CancelAll_keeps:
  assumes "I g b" "sim_CancelAll ts symbol b = (evs, b')"
  shows "I (fold upd evs g) b'"
  using assms cancel_ids[OF assms(1) ids_where_distinct[OF wf[OF assms(1)]] ids_where_rest refl]
  by (auto simp: sim_CancelAll_def Let_def)

lemma Flatten_keeps:
  assumes "manual" "I g b" "sim_Flatten ts b = (evs, b')"
  shows "I (fold upd evs g) b'"
proof -
  obtain a ps where c: "close_all (sb_marks b) (sb_acct b) (sb_pos b) = (a, ps)" by fastforce
  show ?thesis using assms(3) c report remark[OF flatten[OF assms(1,2) c], of ts]
    by (auto simp: sim_Flatten_def Let_def)
qed

lemma SetAccount_keeps:
  assumes "manual" "I g b" "SetAccount a b = (evs, b')"
  shows "I (fold upd evs g) b'"
  using assms report(1) account by (auto simp: SetAccount_def Let_def)

lemma Reset_keeps:
  assumes "manual" "I g b" "sim_ResetBalance ts cash b = (evs, b')"
  shows "I (fold upd evs g) b'"
proof -
  define a where "a = account0\<lparr>ac_equity := cash, ac_buyingPower := cash, ac_availableCash := cash, ac_sodEquity := cash\<rparr>"
  obtain e1 b1 where c1: "sim_CancelAll ts '''' b = (e1, b1)" by fastforce
  obtain e2 b2 where c2: "sim_Flatten ts b1 = (e2, b2)" by fastforce
  obtain e3 b3 where c3: "SetAccount a b2 = (e3, b3)" by fastforce
  have "evs = e1 @ e2 @ e3" "b' = b3"
    using assms(3) c1 c2 c3 by (simp_all add: sim_ResetBalance_def Let_def a_def)
  then show ?thesis
    using SetAccount_keeps[OF assms(1) Flatten_keeps[OF assms(1) CancelAll_keeps[OF assms(2) c1] c2] c3] by simp
qed

theorem step_keeps:
  assumes "I g b" "ok g b oper" "sim_step ts oper b = (evs, b')"
  shows "I (fold upd evs (pre_op pre ts oper g)) b'"
proof (cases oper)
  case (OpSubmit req)
  obtain res where "sim_SubmitOrder ts req b = (res, evs, b')"
    using assms(3) OpSubmit by (cases "sim_SubmitOrder ts req b") auto
  then show ?thesis using submit_keeps[OF assms(1)] assms(1,2) OpSubmit
    by (cases "Validate req") (auto simp: pre_op_def sim_SubmitOrder_def)
next
  case (OpReplace i rq)
  then show ?thesis using replace_keeps[OF assms(1), of i rq ts _ evs b'] assms
    by (cases "sim_ReplaceOrder ts i rq b") (auto simp: pre_op_def)
next
  case (OpCancel i)
  then show ?thesis using cancel_keeps[OF assms(1), of ts i _ evs b'] assms
    by (cases "sim_CancelOrder ts i b") (auto simp: pre_op_def)
next
  case (OpMark s m)
  then show ?thesis using SetMark_keeps assms by (auto simp: pre_op_def)
next
  case (OpBook s k)
  then show ?thesis using SetBook_keeps assms by (auto simp: pre_op_def)
next
  case (OpCancelAll s)
  then show ?thesis using CancelAll_keeps assms by (auto simp: pre_op_def)
next
  case OpFlatten
  then show ?thesis using Flatten_keeps manual_ok(1) assms by (auto simp: pre_op_def)
next
  case (OpReset c)
  then show ?thesis using Reset_keeps manual_ok(2) assms by (auto simp: pre_op_def)
next
  case (OpAccount a)
  then show ?thesis using SetAccount_keeps manual_ok(3) assms by (auto simp: pre_op_def)
qed

lemma run_keeps:
  assumes "I g b" "\<And>ts oper g b. (ts, oper) \<in> set ops \<Longrightarrow> ok g b oper" "\<And>ts req g. pre ts req g = g"
    "sim_run ops b = (evs, b')"
  shows "I (fold upd (map snd evs) g) b'"
  using assms(1,2,4)
proof (induction ops arbitrary: g b evs b')
  case Nil
  then show ?case by simp
next
  case (Cons p ops)
  obtain ts oper where p: "p = (ts, oper)" by fastforce
  obtain e1 b1 where s: "sim_step ts oper b = (e1, b1)" by fastforce
  obtain e2 b2 where r: "sim_run ops b1 = (e2, b2)" by fastforce
  have "I (fold upd e1 g) b1"
    using step_keeps[OF Cons.prems(1) _ s] Cons.prems(2)[of ts oper] p assms(3)
    by (auto simp: pre_op_def split: sim_op.splits if_splits)
  then have "I (fold upd (map snd e2) (fold upd e1 g)) b2"
  proof (rule Cons.IH)
    show "ok g b oper" if "(ts, oper) \<in> set ops" for ts oper g b
      using Cons.prems(2)[of ts oper] that by simp
    show "sim_run ops b1 = (e2, b2)" by (rule r)
  qed
  moreover have "evs = map (Pair ts) e1 @ e2" "b' = b2" using Cons.prems(3) p s r by (simp_all add: Let_def)
  ultimately show ?case by (simp add: comp_def)
qed

end

text \<open>An invariant that exempts no order: the attempt comes down to a rejection, a fill and a cancel.\<close>

locale fill_law =
  fixes I :: "'g \<Rightarrow> sim_broker \<Rightarrow> bool"
    and upd :: "broker_event \<Rightarrow> 'g \<Rightarrow> 'g"
    and pre :: "int \<Rightarrow> order_request \<Rightarrow> 'g \<Rightarrow> 'g"
    and ok :: "'g \<Rightarrow> sim_broker \<Rightarrow> sim_op \<Rightarrow> bool"
    and manual :: bool
  assumes wf: "I g b \<Longrightarrow> sim_wf b"
    and reject: "I g b \<Longrightarrow> mget (sb_orders b) (o_id o1) = Some o1 \<Longrightarrow> eligible o1 ts b \<Longrightarrow>
      I (upd (BrokerLifecycle (OrderRejected (sb_venue b) (o_id o1) reason ts)) g) (drop_order (o_id o1) b)"
    and fill: "I g b \<Longrightarrow> mget (sb_orders b) (o_id o1) = Some o1 \<Longrightarrow> eligible o1 ts b \<Longrightarrow> q > 0 \<Longrightarrow>
      I (upd (BrokerLifecycle (fill_event ts (fill_order ts q px o1) q px (fill_result ts o1 q px b))) g)
        (fill_result ts o1 q px b)"
    and retype: "I g b \<Longrightarrow> mget (sb_orders b) (o_id o1) = Some o1 \<Longrightarrow> I g (keep_order (o1\<lparr>o_type := ty\<rparr>) b)"
    and mark: "I g b \<Longrightarrow> I g (b\<lparr>sb_marks := m\<rparr>)"
    and book: "I g b \<Longrightarrow> I g (b\<lparr>sb_books := k\<rparr>)"
    and remark: "I g b \<Longrightarrow> I g (recomputeAccount ts b)"
    and report: "I g b \<Longrightarrow> I (upd (BrokerAccount a) g) b" "I g b \<Longrightarrow> I (upd (BrokerPositions v reported) g) b"
    and accept: "I g b \<Longrightarrow> ok g b (OpSubmit req) \<Longrightarrow> Validate req = None \<Longrightarrow>
      I (upd (BrokerLifecycle (OrderAccepted (sb_venue b) (r_clientOrderID req) brokerID ts)) (pre ts req g))
        (sim_accept ts req b)"
    and replace: "I g b \<Longrightarrow> ok g b (OpReplace i rq) \<Longrightarrow> mget (sb_orders b) i = Some o1 \<Longrightarrow>
      I (upd (BrokerLifecycle (OrderReplaced (sb_venue b) i (rr_qty rq) (rr_limitPrice rq) (rr_stopPrice rq) ts)) g)
        (keep_order (replace_fields ts rq o1) b)"
    and cancel: "I g b \<Longrightarrow> mhas (sb_orders b) i \<Longrightarrow>
      I (upd (BrokerLifecycle (OrderCanceled (sb_venue b) i ts)) g) (drop_order i b)"
    and manual_ok: "ok g b OpFlatten \<Longrightarrow> manual" "ok g b (OpReset cash) \<Longrightarrow> manual" "ok g b (OpAccount a) \<Longrightarrow> manual"
    and flatten: "manual \<Longrightarrow> I g b \<Longrightarrow> close_all (sb_marks b) (sb_acct b) (sb_pos b) = (a, ps) \<Longrightarrow>
      I g (b\<lparr>sb_acct := a, sb_pos := ps\<rparr>)"
    and account: "manual \<Longrightarrow> I g b \<Longrightarrow> I g (b\<lparr>sb_acct := a\<rparr>)"
begin

lemma fill_keeps:
  assumes "I g b" "mget (sb_orders b) (o_id o1) = Some o1" "eligible o1 ts b" "q > 0"
  shows "I (fold upd (fst (snd (fillLocked ts o1 q px b))) g) (fill_result ts o1 q px b)"
  using fill[OF assms] report by (simp add: fillLocked_eq Let_def)

lemma attempt_keeps:
  assumes "I g b" "mget (sb_orders b) (o_id o1) = Some o1" "attemptBookFill ts o1 book b = (evs, b')"
  shows "I (fold upd evs g) b'"
  using assms(3)
proof (cases rule: attempt_cases)
  case waits
  then show ?thesis using assms(1) by simp
next
  case rejected
  then show ?thesis using reject[OF assms(1,2)] by simp
next
  case idle
  then show ?thesis using assms(1) by simp
next
  case (filled q px)
  then show ?thesis using fill_keeps[OF assms(1,2)] by simp
next
  case canceled
  then show ?thesis using cancel[OF assms(1)] assms(2) by (simp add: mhas_def)
next
  case (filled_canceled q px)
  have "\<not> o_leavesQty (fill_order ts q px o1) \<le> 0"
    using filled_canceled(5) f64_less_le_trans[of 0 _ 0] by (auto simp: zero_f64_def)
  then have "mhas (sb_orders (fill_result ts o1 q px b)) (o_id o1)"
    using fill_order_status(2)[of ts q px o1] by (simp add: mhas_def fill_result_orders)
  then show ?thesis
    using cancel[OF fill_keeps[OF assms(1,2) filled_canceled(1,3), of px], of "o_id o1" ts] filled_canceled(6,7) by simp
qed

end

sublocale fill_law \<subseteq> law: sim_law I "\<lambda>_. I" upd pre "\<lambda>_. True" ok manual
proof (unfold_locales, goal_cases)
  case 1
  then show ?case by (rule wf)
next
  case 2
  then show ?case .
next
  case 3
  show ?case using 3(1) .
next
  case 4
  show ?case by (rule TrueI)
next
  case 5
  then show ?case by (metis attempt_keeps)
next
  case 6
  then show ?case by (metis retype)
next
  case 7
  then show ?case by (rule mark)
next
  case 8
  then show ?case by (simp add: book)
next
  case 9
  then show ?case by (rule remark)
next
  case 10
  then show ?case by (rule report(1))
next
  case 11
  then show ?case by (rule report(2))
next
  case 12
  then show ?case by (rule accept)
next
  case 13
  then show ?case by (rule replace)
next
  case 14
  then show ?case by (rule cancel)
next
  case 15
  then show ?case by (rule manual_ok(1))
next
  case 16
  then show ?case by (rule manual_ok(2))
next
  case 17
  then show ?case by (rule manual_ok(3))
next
  case 18
  then show ?case by (rule flatten)
next
  case 19
  then show ?case by (rule account)
qed

end
