(* ===== verification/SimFills.thy ===== *)
theory SimFills
  imports SimLaw
begin

text \<open>
  Quantities and lifetimes in the simulated broker. The book walk takes exactly the lesser of
  the order's remainder and the displayed depth within its limit (whole volumes). An IOC or
  FOK order ends at its first attempt: what rests of that kind has executed nothing and waits
  for its stop trigger or for the fill latency, and a book of its symbol ends it once that
  has passed.
\<close>

section \<open>The book walk\<close>

definition within_cap :: "exec_order \<Rightarrow> f64 \<Rightarrow> book_level \<Rightarrow> bool" where
  "within_cap o1 slip lvl \<longleftrightarrow> o_type o1 \<noteq> TypeLimit \<or>
     marketable (o_side o1) (o_limitPrice o1) (slippedPrice (o_side o1) (bl_price lvl) slip)"

text \<open>The displayed volume of the levels ahead of the first one beyond the limit.\<close>

definition depth_within :: "exec_order \<Rightarrow> f64 \<Rightarrow> book_level list \<Rightarrow> int" where
  "depth_within o1 slip lvls = sum_list (map bl_volume (takeWhile (within_cap o1 slip) lvls))"

lemma depth_Nil [simp]: "depth_within o1 slip [] = 0"
  and depth_Cons: "depth_within o1 slip (l # ls) = (if within_cap o1 slip l then bl_volume l + depth_within o1 slip ls else 0)"
  by (simp_all add: depth_within_def)

definition whole_volumes :: "book_level list \<Rightarrow> bool" where
  "whole_volumes lvls \<longleftrightarrow> list_all (\<lambda>l. 0 \<le> bl_volume l \<and> bl_volume l \<le> 2 ^ 53) lvls"

lemma depth_nonneg: "whole_volumes lvls \<Longrightarrow> 0 \<le> depth_within o1 slip lvls"
  by (induction lvls) (auto simp: whole_volumes_def depth_Cons)

lemma walk_Cons_stop:
  "rem \<le> 0 \<or> \<not> within_cap o1 slip l \<Longrightarrow> book_walk o1 slip (l # ls) rem sp sq = (sp, sq)"
  by (auto simp: within_cap_def Let_def)

lemma walk_Cons_take:
  "\<not> rem \<le> 0 \<Longrightarrow> within_cap o1 slip l \<Longrightarrow>
   tk = (if float_of_int (bl_volume l) < rem then float_of_int (bl_volume l) else rem) \<Longrightarrow>
   book_walk o1 slip (l # ls) rem sp sq =
   book_walk o1 slip ls (rem - tk) (sp + tk * slippedPrice (o_side o1) (bl_price l) slip) (sq + tk)"
  by (auto simp: within_cap_def Let_def)

lemma walk_whole:
  assumes "whole_volumes lvls" "0 \<le> n" "0 \<le> m" "m + n \<le> 2 ^ 53"
  shows "snd (book_walk o1 slip lvls (whole n) sp (whole m)) = whole (m + min n (depth_within o1 slip lvls))"
  using assms
proof (induction lvls arbitrary: n m sp)
  case Nil
  then show ?case by simp
next
  case (Cons l ls)
  note d = depth_nonneg[OF Cons.prems(1), of o1 slip]
  show ?case
  proof (cases "n = 0 \<or> \<not> within_cap o1 slip l")
    case True
    then show ?thesis using d Cons.prems by (subst walk_Cons_stop) (auto simp: depth_Cons whole_0[symmetric])
  next
    case False
    define v where "v = bl_volume l"
    define t where "t = min v n"
    have v: "0 \<le> v" "v \<le> 2 ^ 53" "float_of_int v = whole v" and vs: "whole_volumes ls"
      using Cons.prems(1) by (auto simp: whole_volumes_def v_def float_of_int_def fl_of_int)
    have t: "(if whole v < whole n then whole v else whole n) = whole t" by (simp add: t_def min_def)
    have tn: "0 \<le> t" "t \<le> n" using Cons.prems v by (simp_all add: t_def)
    have st: "whole n - whole t = whole (n - t)" "whole m + whole t = whole (m + t)"
      using Cons.prems tn by (intro whole_sub whole_add; linarith)+
    have "snd (book_walk o1 slip (l # ls) (whole n) sp (whole m)) =
        snd (book_walk o1 slip ls (whole (n - t)) (sp + whole t * slippedPrice (o_side o1) (bl_price l) slip) (whole (m + t)))"
      using False Cons.prems unfolding st[symmetric]
      by (subst walk_Cons_take[where tk = "whole t"]) (simp_all only: v(3)[unfolded v_def] t[unfolded v_def] whole_cmp, auto)
    also have "\<dots> = whole (m + t + min (n - t) (depth_within o1 slip ls))"
      using Cons.prems v by (intro Cons.IH[OF vs]) (auto simp: t_def)
    also have "m + t + min (n - t) (depth_within o1 slip ls) = m + min n (depth_within o1 slip (l # ls))"
      using False depth_nonneg[OF vs, of o1 slip] by (auto simp: t_def depth_Cons v_def)
    finally show ?thesis .
  qed
qed

text \<open>C20. The book walk fills exactly the lesser of the order's remaining shares and the displayed volume ahead of the first level whose slipped price is beyond the limit (whole share counts).\<close>

theorem walk_takes_depth:
  assumes "o_leavesQty o1 = whole n" "0 \<le> n" "n \<le> 2 ^ 53" "whole_volumes (book_side (o_side o1) book)"
  shows "fst (fillAgainstBook o1 book slip) = whole (min n (depth_within o1 slip (book_side (o_side o1) book)))"
proof -
  let ?d = "min n (depth_within o1 slip (book_side (o_side o1) book))"
  have "snd (book_walk o1 slip (book_side (o_side o1) book) (whole n) 0 (whole 0)) = whole (0 + ?d)"
    using assms by (intro walk_whole) auto
  then have "snd (book_walk o1 slip (book_side (o_side o1) book) (o_leavesQty o1) 0 0) = whole ?d"
    by (simp add: assms(1) zero_f64_def)
  then show ?thesis
    by (auto simp: fillAgainstBook_def Let_def case_prod_unfold feq_iff simp flip: whole_0)
qed

text \<open>A buy of 150 limited at 11 against 100 shares at 10, 30 at 11 and 500 at 12: it takes 130.\<close>

definition sample_level :: "rat \<Rightarrow> int \<Rightarrow> book_level" where
  "sample_level px v = \<lparr>bl_price = Fin px, bl_volume = v, bl_orders = 1\<rparr>"

definition sample_book :: feed_book where
  "sample_book = book0\<lparr>fb_symbol := ''AAPL'', fb_asks := [sample_level 10 100, sample_level 11 30, sample_level 12 500]\<rparr>"

definition sample_buy :: exec_order where
  "sample_buy = order0\<lparr>o_id := ''A'', o_symbol := ''AAPL'', o_type := TypeLimit, o_limitPrice := Fin 11,
     o_qty := Fin 150, o_leavesQty := Fin 150\<rparr>"

lemma walk_takes_depth_witness: "fst (fillAgainstBook sample_buy sample_book 0) = Fin 130"
proof -
  have "o_leavesQty sample_buy = whole 150" by (simp add: sample_buy_def)
  moreover have "whole_volumes (book_side (o_side sample_buy) sample_book)" by code_simp
  moreover have "depth_within sample_buy 0 (book_side (o_side sample_buy) sample_book) = 130" by code_simp
  ultimately show ?thesis using walk_takes_depth[of sample_buy 150 sample_book 0] by simp
qed

text \<open>
  The price it reports is the rounded quotient of rounded products, so a fill wholly at the
  limit can read a last place above it: seven shares at 1.29.
\<close>

definition cent_book :: feed_book where
  "cent_book = book0\<lparr>fb_asks := [\<lparr>bl_price = fconst (129/100), bl_volume = 100, bl_orders = 1\<rparr>]\<rparr>"

lemma limit_fill_rounds_past_limit:
  "(let o1 = sample_buy\<lparr>o_limitPrice := fconst (129/100), o_leavesQty := Fin 7\<rparr>; (q, px) = fillAgainstBook o1 cent_book 0
    in q = Fin 7 \<and> px > o_limitPrice o1)"
  by code_simp

section \<open>Orders that must not rest\<close>

definition immediate :: "exec_order \<Rightarrow> bool" where
  "immediate o1 \<longleftrightarrow> o_tif o1 = TIFIOC \<or> o_tif o1 = TIFFOK"

definition booked :: "exec_order \<Rightarrow> bool" where
  "booked o1 \<longleftrightarrow> o_type o1 = TypeMarket \<or> o_type o1 = TypeLimit"

definition shares :: "f64 \<Rightarrow> bool" where
  "shares q \<longleftrightarrow> finite_f64 q \<and> f64_ok q \<and> q > 0"

definition counted :: "book_level list \<Rightarrow> bool" where
  "counted lvls \<longleftrightarrow> list_all (\<lambda>l. 0 \<le> bl_volume l) lvls"

text \<open>Inputs of a run: finite positive quantities, no negative volume.\<close>

fun sound_op :: "sim_op \<Rightarrow> bool" where
  "sound_op (OpSubmit req) \<longleftrightarrow> finite_f64 (r_qty req) \<and> f64_ok (r_qty req)"
| "sound_op (OpReplace i rq) \<longleftrightarrow> shares (rr_qty rq)"
| "sound_op (OpBook symbol bk) \<longleftrightarrow> counted (fb_bids bk) \<and> counted (fb_asks bk)"
| "sound_op _ \<longleftrightarrow> True"

lemma sharesE:
  assumes "shares q"
  obtains r where "q = Fin r" "0 < r" "f64_ok (Fin r)"
  using assms by (cases q) (auto simp: shares_def finite_f64_def is_nan_def is_inf_def zero_f64_def)

lemma walk_nonneg:
  assumes "counted lvls" "rem = Fin r" "f64_ok rem" "0 \<le> sq"
  shows "0 \<le> snd (book_walk o1 slip lvls rem sp sq)"
  using assms
proof (induction lvls arbitrary: rem r sp sq)
  case Nil
  then show ?case by simp
next
  case (Cons l ls)
  show ?case
  proof (cases "rem \<le> 0 \<or> \<not> within_cap o1 slip l")
    case True
    then show ?thesis using Cons.prems(4) by (subst walk_Cons_stop) auto
  next
    case False
    define v where "v = float_of_int (bl_volume l)"
    define t where "t = (if v < rem then v else rem)"
    have r: "0 < r" using False Cons.prems(2) by (simp add: zero_f64_def not_le)
    have "0 \<le> v" using Cons.prems(1) fl_mono[of 0 "of_int (bl_volume l)"]
      by (simp add: counted_def v_def float_of_int_def zero_f64_def)
    moreover have vok: "f64_ok v" by (simp add: v_def float_of_int_def)
    ultimately obtain x where x: "t = Fin x" "0 \<le> x" "x \<le> r" "f64_ok t"
      using Cons.prems(2,3) r vok by (cases "v < rem"; cases v) (auto simp: t_def zero_f64_def not_less intro: that)
    have ok: "f64_ok (rem - t)" using Cons.prems(3) x(4) by simp
    have "Fin 0 \<le> fl (r - x)" "fl (r - x) \<le> fl r" using x by (auto intro!: fl_mono simp flip: fl_0)
    moreover have "fl r = Fin r" using Cons.prems(2,3) by (simp add: fl_id)
    ultimately obtain r' where r': "rem - t = Fin r'"
      by (cases "fl (r - x)") (auto simp: Cons.prems(2) x(1) minus_f64_def)
    have "0 \<le> sq + t" using Cons.prems(4) x fl_mono[of 0]
      by (cases sq) (auto simp: zero_f64_def)
    then show ?thesis using False Cons.IH[OF _ r' ok, of "sq + t"] Cons.prems(1)
      by (subst walk_Cons_take[where tk = t]) (auto simp: t_def v_def counted_def)
  qed
qed

lemma fill_nonneg:
  assumes "counted (fb_bids k)" "counted (fb_asks k)" "shares (o_leavesQty o1)"
  shows "0 \<le> fst (fillAgainstBook o1 k slip)"
proof -
  obtain r where "o_leavesQty o1 = Fin r" "f64_ok (o_leavesQty o1)" using assms(3) by (auto elim: sharesE)
  then have "0 \<le> snd (book_walk o1 slip (book_side (o_side o1) k) (o_leavesQty o1) 0 0)"
    using assms(1,2) by (intro walk_nonneg) (auto simp: book_side_def zero_f64_def)
  then show ?thesis by (simp add: fillAgainstBook_def Let_def case_prod_unfold zero_f64_def)
qed

lemma sub_not_nan: "shares a \<Longrightarrow> 0 \<le> q \<Longrightarrow> a - q \<noteq> NaN"
  by (cases q) (auto elim!: sharesE simp: minus_f64_def zero_f64_def)

lemma sub_nonpos:
  assumes "shares a" "0 \<le> q" "\<not> q < a"
  shows "a - q \<le> 0"
proof -
  obtain r where r: "a = Fin r" by (rule sharesE[OF assms(1)])
  then show ?thesis using assms(2,3) fl_mono[of "r - x" 0 for x] by (cases q) (auto simp: minus_f64_def zero_f64_def)
qed

section \<open>What an attempt leaves of other orders and of an immediate one\<close>

lemma attempt_frame:
  assumes "attemptBookFill ts o1 k b = (evs, b')"
  shows "j \<noteq> o_id o1 \<Longrightarrow> mget (sb_orders b') j = mget (sb_orders b) j"
    "sim_wf b \<Longrightarrow> mget (sb_orders b) (o_id o1) = Some o1 \<Longrightarrow> sim_wf b'"
    "sb_fillLatencyMs b' = sb_fillLatencyMs b" "sb_books b' = sb_books b"
  using assms
  by (cases rule: attempt_cases; simp add: fill_result_orders wf_drop wf_fill)+

text \<open>What still rests under the order's ID is that order, or that order after a partial fill.\<close>

lemma attempt_rest:
  assumes "attemptBookFill ts o1 k b = (evs, b')" "mget (sb_orders b) (o_id o1) = Some o1"
    "mget (sb_orders b') (o_id o1) = Some o2"
  shows "o_tif o2 = o_tif o1 \<and> o_type o2 = o_type o1 \<and> o_symbol o2 = o_symbol o1 \<and> o_createdMs o2 = o_createdMs o1"
  using assms(1)
  by (cases rule: attempt_cases) (use assms(2,3) in \<open>auto simp: fill_result_orders split: if_splits\<close>)

text \<open>An IOC or FOK order that may be tried is gone after the attempt.\<close>

lemma attempt_ends_immediate:
  assumes "attemptBookFill ts o1 k b = (evs, b')" "immediate o1" "shares (o_leavesQty o1)"
    "counted (fb_bids k)" "counted (fb_asks k)" "eligible o1 ts b"
  shows "mget (sb_orders b') (o_id o1) = None"
proof -
  define q where "q = fst (fillAgainstBook o1 k (sb_slippageBps b))"
  have q: "0 \<le> q" unfolding q_def by (rule fill_nonneg[OF assms(4,5,3)])
  have pos: "o_leavesQty o1 > 0" using assms(3) by (simp add: shares_def)
  have nn: "o_leavesQty o1 - q \<noteq> NaN" by (rule sub_not_nan[OF assms(3) q])
  have reach: "q > 0" if "\<not> q < o_leavesQty o1"
    using that q pos assms(3) by (cases q; cases "o_leavesQty o1") (auto simp: zero_f64_def)
  from assms(1) show ?thesis
  proof (cases rule: attempt_cases)
    case waits
    then show ?thesis using assms(6) by simp
  next
    case idle
    then show ?thesis using assms(2) pos reach unfolding immediate_def q_def by blast
  next
    case (filled q' px)
    have "q' = q" using filled(2) by (simp add: q_def)
    have "o_leavesQty o1 - q \<le> 0"
    proof (cases "o_tif o1 = TIFFOK")
      case True
      then show ?thesis using filled(4) \<open>q' = q\<close> by (intro sub_nonpos[OF assms(3) q]) simp
    next
      case False
      then have ioc: "o_tif o1 = TIFIOC" using assms(2) by (simp add: immediate_def)
      show ?thesis
      proof (rule ccontr)
        assume neg: "\<not> o_leavesQty o1 - q \<le> 0"
        then have "0 < o_leavesQty o1 - q" using nn by (simp add: f64_not_le zero_f64_def)
        moreover have "o_leavesQty (fill_order ts q px o1) = o_leavesQty o1 - q"
          using neg by (simp add: fill_order_def Let_def)
        ultimately show False using filled(5) ioc \<open>q' = q\<close> by simp
      qed
    qed
    then show ?thesis using filled(7) \<open>q' = q\<close> by (simp add: fill_result_orders)
  qed (simp_all del: map_of_eq_Some_iff)
qed

section \<open>The invariant\<close>

definition prompt_order :: "sim_broker \<Rightarrow> exec_order \<Rightarrow> bool" where
  "prompt_order b o1 \<longleftrightarrow> (immediate o1 \<longrightarrow>
     feq (o_executedQty o1) 0 \<and> shares (o_leavesQty o1) \<and> (booked o1 \<longrightarrow> sb_fillLatencyMs b > 0))"

definition counted_books :: "sim_broker \<Rightarrow> bool" where
  "counted_books b \<longleftrightarrow> (\<forall>k bk. mget (sb_books b) k = Some bk \<longrightarrow> counted (fb_bids bk) \<and> counted (fb_asks bk))"

definition prompt_but :: "string \<Rightarrow> sim_broker \<Rightarrow> bool" where
  "prompt_but i b \<longleftrightarrow> sim_wf b \<and> counted_books b \<and>
     (\<forall>j o1. mget (sb_orders b) j = Some o1 \<longrightarrow> j \<noteq> i \<longrightarrow> prompt_order b o1) \<and>
     (\<forall>o1. mget (sb_orders b) i = Some o1 \<longrightarrow> immediate o1 \<longrightarrow> feq (o_executedQty o1) 0 \<and> shares (o_leavesQty o1))"

definition prompt :: "sim_broker \<Rightarrow> bool" where
  "prompt b \<longleftrightarrow> sim_wf b \<and> counted_books b \<and> (\<forall>j o1. mget (sb_orders b) j = Some o1 \<longrightarrow> prompt_order b o1)"

lemma promptD: "prompt b \<Longrightarrow> mget (sb_orders b) j = Some o1 \<Longrightarrow> prompt_order b o1" "prompt b \<Longrightarrow> sim_wf b"
  "prompt b \<Longrightarrow> counted_books b"
  unfolding prompt_def by blast+

lemma promptI:
  "sim_wf b \<Longrightarrow> counted_books b \<Longrightarrow> (\<And>j o1. mget (sb_orders b) j = Some o1 \<Longrightarrow> prompt_order b o1) \<Longrightarrow> prompt b"
  unfolding prompt_def by blast

lemma prompt_butD:
  "prompt_but i b \<Longrightarrow> mget (sb_orders b) j = Some o1 \<Longrightarrow> j \<noteq> i \<Longrightarrow> prompt_order b o1"
  "prompt_but i b \<Longrightarrow> sim_wf b" "prompt_but i b \<Longrightarrow> counted_books b"
  "prompt_but i b \<Longrightarrow> mget (sb_orders b) i = Some o1 \<Longrightarrow> immediate o1 \<Longrightarrow> feq (o_executedQty o1) 0 \<and> shares (o_leavesQty o1)"
  unfolding prompt_but_def by blast+

lemma prompt_latency: "sb_fillLatencyMs b' = sb_fillLatencyMs b \<Longrightarrow> prompt_order b' o1 = prompt_order b o1"
  by (simp add: prompt_order_def)

lemma counted_frame: "sb_books b' = sb_books b \<Longrightarrow> counted_books b' = counted_books b"
  by (simp add: counted_books_def)

lemma prompt_frame:
  assumes "prompt b" "sim_wf b'" "sb_books b' = sb_books b" "sb_fillLatencyMs b' = sb_fillLatencyMs b"
    "\<And>j. mget (sb_orders b') j = mget (sb_orders b) j \<or> mget (sb_orders b') j = None"
  shows "prompt b'"
proof (rule promptI[OF assms(2)])
  show "counted_books b'" using promptD(3)[OF assms(1)] counted_frame[OF assms(3)] by simp
  show "prompt_order b' o1" if "mget (sb_orders b') j = Some o1" for j o1
    using assms(5)[of j] that promptD(1)[OF assms(1), of j o1] prompt_latency[OF assms(4)] by auto
qed

lemma prompt_but_keep:
  assumes "prompt b" "mget (sb_orders b) (o_id o2) = Some o1" "sim_wf (keep_order o2 b)"
    "immediate o2 \<Longrightarrow> feq (o_executedQty o2) 0 \<and> shares (o_leavesQty o2)"
  shows "prompt_but (o_id o2) (keep_order o2 b)"
  using promptD(1)[OF assms(1)] promptD(3)[OF assms(1)] assms(3,4)
  by (auto simp: prompt_but_def counted_books_def prompt_order_def simp del: map_of_eq_Some_iff)

lemma attempt_prompt:
  assumes "prompt_but (o_id o1) b" "mget (sb_orders b) (o_id o1) = Some o1"
    "counted (fb_bids k)" "counted (fb_asks k)" "attemptBookFill ts o1 k b = (evs, b')"
  shows "prompt b'"
proof (rule promptI)
  note wf = prompt_butD(2)[OF assms(1)]
  note fr = attempt_frame[OF assms(5)]
  show "sim_wf b'" by (rule fr(2)[OF wf assms(2)])
  show "counted_books b'" using prompt_butD(3)[OF assms(1)] counted_frame[OF fr(4)] by simp
  show "prompt_order b' o2" if o2: "mget (sb_orders b') j = Some o2" for j o2
  proof (cases "j = o_id o1")
    case False
    then show ?thesis using o2 fr(1)[OF False] prompt_butD(1)[OF assms(1), of j o2] prompt_latency[OF fr(3)] by simp
  next
    case True
    note kind = attempt_rest[OF assms(5,2) o2[unfolded True]]
    show ?thesis
    proof (cases "immediate o1")
      case False
      then show ?thesis using kind by (simp add: prompt_order_def immediate_def)
    next
      case im: True
      note ex = prompt_butD(4)[OF assms(1,2) im]
      have wait: "\<not> eligible o1 ts b"
        using attempt_ends_immediate[OF assms(5) im _ assms(3,4)] ex o2 True by auto
      then have "b' = b" using assms(5) by (simp add: attemptBookFill_def)
      moreover have "sb_fillLatencyMs b > 0"
        using wait wf_deadline[OF wf, of "o_id o1"] by (auto simp: eligible_def split: if_splits)
      ultimately show ?thesis using ex o2 True assms(2) by (simp add: prompt_order_def)
    qed
  qed
qed

lemma sub_zero: "shares q \<Longrightarrow> feq x 0 \<Longrightarrow> q - x = q"
  by (cases q; cases x) (auto simp: shares_def feq_iff minus_f64_def zero_f64_def fl_id finite_f64_def)

lemma Validate_positive:
  assumes "Validate req = None" "finite_f64 (r_qty req)" "f64_ok (r_qty req)"
  shows "shares (r_qty req)"
  using assms by (cases "r_qty req") (auto simp: Validate_def shares_def zero_f64_def finite_f64_def is_nan_def split: option.splits if_splits)

lemma counted_of: "counted_books b \<Longrightarrow> counted (fb_bids (book_of b s)) \<and> counted (fb_asks (book_of b s))"
  by (auto simp: counted_books_def book_of_def mget0_def book0_def counted_def split: option.split)

interpretation prompt: sim_law "\<lambda>_. prompt" "\<lambda>i _. prompt_but i" "\<lambda>_ g. g" "\<lambda>_ _ g. g"
  "\<lambda>bk. counted (fb_bids bk) \<and> counted (fb_asks bk)" "\<lambda>_ _. sound_op" True
proof (unfold_locales, goal_cases)
  case (1 g b)
  then show ?case by (rule promptD)
next
  case (2 g b i)
  then show ?case unfolding prompt_def prompt_but_def prompt_order_def by blast
next
  case (3 i g b o1)
  then show ?case unfolding prompt_def prompt_but_def prompt_order_def booked_def by (metis option.inject)
next
  case (4 i g b s)
  then show ?case by (intro counted_of prompt_butD)
next
  case (5 o1 g b k ts evs b')
  then show ?case using attempt_prompt by blast
next
  case (6 g b o1 ty)
  have k: "sim_wf (keep_order (o1\<lparr>o_type := ty\<rparr>) b)"
    using 6(2) wf_rests[OF promptD(2)[OF 6(1)] 6(2)]
    by (intro wf_keep[OF promptD(2)[OF 6(1)], where ?o1.0 = o1]) (simp_all add: Working_status)
  have "prompt_but (o_id (o1\<lparr>o_type := ty\<rparr>)) (keep_order (o1\<lparr>o_type := ty\<rparr>) b)"
    by (rule prompt_but_keep[OF 6(1) _ k, where ?o1.0 = o1]) (use 6(2) promptD(1)[OF 6(1,2)] in \<open>auto simp: prompt_order_def immediate_def\<close>)
  then show ?case by simp
next
  case (7 g b m)
  then show ?case by (rule prompt_frame) (simp_all add: promptD(2)[OF 7])
next
  case (8 g b s bk)
  have "counted_books (b\<lparr>sb_books := mput s bk (sb_books b)\<rparr>)"
    using 8(2) promptD(3)[OF 8(1)] by (auto simp: counted_books_def simp del: map_of_eq_Some_iff)
  then have "prompt (b\<lparr>sb_books := mput s bk (sb_books b)\<rparr>)"
    using promptD(1,2)[OF 8(1)] by (intro promptI) (auto simp: prompt_order_def)
  then show ?case using 8(2) by simp
next
  case (9 g b ts)
  then show ?case by (rule prompt_frame) (simp_all add: promptD(2)[OF 9])
next
  case (12 g b req bid ts)
  have "shares (r_qty req)" using 12(2,3) by (intro Validate_positive) auto
  then show ?case using promptD(1)[OF 12(1)] promptD(3)[OF 12(1)] wf_accept[OF promptD(2)[OF 12(1)]]
    by (auto simp: prompt_but_def counted_books_def prompt_order_def simp del: map_of_eq_Some_iff)
next
  case (13 g b i rq o1 ts)
  note o1 = wf_rests[OF promptD(2)[OF 13(1)] 13(3)]
  have k: "sim_wf (keep_order (replace_fields ts rq o1) b)"
    using 13(3) o1 by (intro wf_keep[OF promptD(2)[OF 13(1)], where ?o1.0 = o1]) (simp_all add: Working_status)
  have "prompt_but (o_id (replace_fields ts rq o1)) (keep_order (replace_fields ts rq o1) b)"
    by (rule prompt_but_keep[OF 13(1) _ k, where ?o1.0 = o1])
      (use 13(2,3) o1 promptD(1)[OF 13(1,3)] in \<open>auto simp: prompt_order_def immediate_def sub_zero\<close>)
  then show ?case using o1 by simp
next
  case (14 g b i ts)
  then show ?case by (intro prompt_frame[OF 14(1)]) (simp_all add: wf_drop promptD(2))
next
  case (18 g b a ps)
  show ?case by (rule prompt_frame[OF 18(2) wf_close_all[OF promptD(2)[OF 18(2)] 18(3)]]) simp_all
next
  case (19 g b a)
  then show ?case by (intro prompt_frame[OF 19(2)]) (simp_all add: promptD(2))
qed (assumption | rule TrueI)+

section \<open>No immediate order lingers\<close>

text \<open>After a pass over a book every order of the pass that still rests waits for its latency.\<close>

definition waits_until :: "int \<Rightarrow> int \<Rightarrow> sim_broker \<Rightarrow> string \<Rightarrow> bool" where
  "waits_until lat ts b i \<longleftrightarrow>
     (\<forall>o1. mget (sb_orders b) i = Some o1 \<longrightarrow> immediate o1 \<longrightarrow> ts < o_createdMs o1 + lat)"

lemma attempt_waits:
  assumes "prompt b" "mget (sb_orders b) (o_id o1) = Some o1" "counted (fb_bids k)" "counted (fb_asks k)"
    "attemptBookFill ts o1 k b = (evs, b')" "sb_fillLatencyMs b = lat"
  shows "waits_until lat ts b' (o_id o1)" "waits_until lat ts b j \<Longrightarrow> waits_until lat ts b' j"
proof -
  have own: "ts < o_createdMs o2 + lat" if o2: "mget (sb_orders b') (o_id o1) = Some o2" and "immediate o2" for o2
  proof -
    note kind = attempt_rest[OF assms(5,2) o2]
    then have im: "immediate o1" using that(2) by (simp add: immediate_def)
    then have "shares (o_leavesQty o1)" using promptD(1)[OF assms(1,2)] by (simp add: prompt_order_def)
    then have "\<not> eligible o1 ts b" using attempt_ends_immediate[OF assms(5) im _ assms(3,4)] o2 by auto
    then show ?thesis using wf_deadline[OF promptD(2)[OF assms(1)], of "o_id o1"] assms(2,6) kind
      by (auto simp: eligible_def split: if_splits)
  qed
  then show "waits_until lat ts b' (o_id o1)" by (simp add: waits_until_def)
  then show "waits_until lat ts b' j" if "waits_until lat ts b j"
    using that attempt_frame(1)[OF assms(5), of j] by (cases "j = o_id o1") (auto simp: waits_until_def)
qed

lemma sweep_waits:
  assumes "prompt b" "counted (fb_bids k)" "counted (fb_asks k)" "sb_fillLatencyMs b = lat"
    "sweep (\<lambda>o1. attemptBookFill ts o1 k) ids b = (evs, b')"
  shows "waits_until lat ts b j \<or> j \<in> set ids \<Longrightarrow> waits_until lat ts b' j"
    "mget (sb_orders b') j = Some o2 \<Longrightarrow> \<exists>o1. mget (sb_orders b) j = Some o1 \<and> o_type o2 = o_type o1 \<and> o_symbol o2 = o_symbol o1"
  using assms
proof (induction ids arbitrary: b evs)
  case Nil
  { case 1 then show ?case by simp }
  { case 2 then show ?case by simp }
next
  case (Cons i ids)
  have step: "\<exists>b1 e2. prompt b1 \<and> sb_fillLatencyMs b1 = lat \<and> sweep (\<lambda>o1. attemptBookFill ts o1 k) ids b1 = (e2, b') \<and>
      (waits_until lat ts b j \<or> j = i \<longrightarrow> waits_until lat ts b1 j) \<and>
      (\<forall>o2. mget (sb_orders b1) j = Some o2 \<longrightarrow>
        (\<exists>o1. mget (sb_orders b) j = Some o1 \<and> o_type o2 = o_type o1 \<and> o_symbol o2 = o_symbol o1))"
    if b: "prompt b" "sb_fillLatencyMs b = lat" "sweep (\<lambda>o1. attemptBookFill ts o1 k) (i # ids) b = (evs, b')"
    for b evs
  proof (cases "mget (sb_orders b) i")
    case None
    then show ?thesis using b by (intro exI[of _ b]) (auto simp: waits_until_def)
  next
    case (Some o1)
    obtain e1 b1 where a: "attemptBookFill ts o1 k b = (e1, b1)" by fastforce
    obtain e2 b2 where s: "sweep (\<lambda>o1. attemptBookFill ts o1 k) ids b1 = (e2, b2)" by fastforce
    have id: "o_id o1 = i" using wf_rests[OF promptD(2)[OF b(1)] Some] by simp
    then have o1: "mget (sb_orders b) (o_id o1) = Some o1" using Some by simp
    have "prompt b1" by (rule attempt_prompt[OF prompt.weaken[OF b(1)] o1 assms(2,3) a])
    moreover have "b2 = b'" using b(3) Some a s by (simp add: Let_def)
    moreover have "sb_fillLatencyMs b1 = lat" using attempt_frame(3)[OF a] b(2) by simp
    moreover have "waits_until lat ts b j \<or> j = i \<longrightarrow> waits_until lat ts b1 j"
      using attempt_waits[OF b(1) o1 assms(2,3) a b(2)] id by blast
    moreover have "\<exists>o3. mget (sb_orders b) j = Some o3 \<and> o_type o2 = o_type o3 \<and> o_symbol o2 = o_symbol o3"
      if "mget (sb_orders b1) j = Some o2" for o2
    proof (cases "j = o_id o1")
      case True
      then show ?thesis using attempt_rest[OF a o1, of o2] that o1 by auto
    next
      case False
      then show ?thesis using attempt_frame(1)[OF a False] that by (intro exI[of _ o2]) simp
    qed
    ultimately show ?thesis using s by blast
  qed
  { case 1
    obtain b1 e2 where "prompt b1" "sb_fillLatencyMs b1 = lat"
      "sweep (\<lambda>o1. attemptBookFill ts o1 k) ids b1 = (e2, b')" "waits_until lat ts b j \<or> j = i \<longrightarrow> waits_until lat ts b1 j"
      using step[OF 1(2,5,6)] by blast
    then show ?case using Cons.IH(1)[of b1 e2] 1 by auto }
  { case 2
    obtain b1 e2 where "prompt b1" "sb_fillLatencyMs b1 = lat"
      "sweep (\<lambda>o1. attemptBookFill ts o1 k) ids b1 = (e2, b')"
      "\<forall>o2. mget (sb_orders b1) j = Some o2 \<longrightarrow>
        (\<exists>o1. mget (sb_orders b) j = Some o1 \<and> o_type o2 = o_type o1 \<and> o_symbol o2 = o_symbol o1)"
      using step[OF 2(2,5,6)] by blast
    then show ?case using Cons.IH(2)[of b1 e2] 2 by fastforce }
qed

lemma SetBook_waits:
  assumes "prompt b" "sound_op (OpBook s k)" "SetBook ts s k b = (evs, b')"
    "mget (sb_orders b') i = Some o2" "immediate o2" "booked o2" "o_symbol o2 = s"
  shows "ts < o_createdMs o2 + sb_fillLatencyMs b"
proof -
  define b1 where "b1 = b\<lparr>sb_books := mput s k (sb_books b)\<rparr>"
  define ids where "ids = ids_where (\<lambda>o1. o_symbol o1 = s \<and> (o_type o1 = TypeMarket \<or> o_type o1 = TypeLimit)) b1"
  have p1: "prompt b1" using prompt.book[OF assms(1), of s k] assms(2) by (simp add: b1_def)
  obtain e2 b2 where sw: "sweep (\<lambda>o1. attemptBookFill ts o1 k) ids b1 = (e2, b2)" by fastforce
  have b': "sb_orders b' = sb_orders b2"
    using assms(3) sw by (auto simp: SetBook_def crossRestingOnBook_def Let_def b1_def ids_def markToMarket_def split: if_splits)
  have k: "counted (fb_bids k)" "counted (fb_asks k)" using assms(2) by simp_all
  obtain o1 where "mget (sb_orders b1) i = Some o1" "o_type o2 = o_type o1" "o_symbol o2 = o_symbol o1"
    using sweep_waits(2)[OF p1 k refl sw, of i o2] assms(4) b' by auto
  then have "i \<in> set ids"
    using assms(6,7) by (force simp: ids_def ids_where_def booked_def dest: map_of_SomeD)
  then have "waits_until (sb_fillLatencyMs b) ts b2 i"
    using sweep_waits(1)[OF p1 k _ sw, of "sb_fillLatencyMs b" i] by (simp add: b1_def)
  then show ?thesis using assms(4,5) b' by (simp add: waits_until_def)
qed

text \<open>C19. An IOC or FOK order never lingers: one that rests has executed nothing, without a latency only an untriggered stop of that kind can rest, and after a book of its symbol every market or limit one whose latency has passed is gone.\<close>

theorem immediate_orders_end:
  assumes "sim_run ops (sim_New v t0 cash opts) = (evs, b)" "\<not> list_ex (\<lambda>(_, oper). \<not> sound_op oper) ops"
    "sound_op (OpBook symbol k)"
  shows "\<not> list_ex (\<lambda>(i, o1). immediate o1 \<and>
      (\<not> feq (o_executedQty o1) 0 \<or> booked o1 \<and> op_fillLatencyMs opts \<le> 0 \<or>
       booked o1 \<and> o_symbol o1 = symbol \<and> o_createdMs o1 + op_fillLatencyMs opts \<le> ts))
    (sb_orders (snd (SetBook ts symbol k b)))"
proof -
  obtain e2 b2 where sb: "SetBook ts symbol k b = (e2, b2)" by fastforce
  have start: "prompt (sim_New v t0 cash opts)"
    by (rule promptI) (simp_all add: counted_books_def)
  have lat: "sb_fillLatencyMs b = op_fillLatencyMs opts"
    using run_fixed(2)[of ops "sim_New v t0 cash opts"] assms(1) by simp
  have pb: "prompt b"
    using assms(2) by (intro prompt.run_keeps[OF start _ _ assms(1)]) (auto simp: list_ex_iff)
  have p2: "prompt b2" by (rule prompt.SetBook_keeps[OF pb assms(3) sb])
  have lat2: "sb_fillLatencyMs b2 = op_fillLatencyMs opts"
    using step_fixed(2)[of ts "OpBook symbol k" b] sb lat by simp
  have "immediate o1 \<Longrightarrow> feq (o_executedQty o1) 0 \<and> (booked o1 \<longrightarrow> op_fillLatencyMs opts > 0 \<and>
      (o_symbol o1 = symbol \<longrightarrow> ts < o_createdMs o1 + op_fillLatencyMs opts))"
    if "(i, o1) \<in> set (sb_orders b2)" for i o1
  proof -
    assume im: "immediate o1"
    have o1: "mget (sb_orders b2) i = Some o1"
      using that promptD(2)[OF p2] by (simp add: sim_wf_def)
    show ?thesis using promptD(1)[OF p2 o1] im lat2 SetBook_waits[OF pb assms(3) sb o1 im] lat
      by (auto simp: prompt_order_def)
  qed
  then show ?thesis by (fastforce simp: sb list_ex_iff)
qed

text \<open>
  With a latency of 50 ms an IOC buy of 150 waits from 1000 on; the book at 1020 leaves it, the
  one at 1060 ends it.
\<close>

definition sample_ioc :: order_request where
  "sample_ioc = sample_request\<lparr>r_type := TypeLimit, r_tif := TIFIOC, r_qty := Fin 150, r_limitPrice := Fin 11\<rparr>"

definition sample_options :: sim_options where
  "sample_options = \<lparr>op_slippageBps = 0, op_fillLatencyMs = 50\<rparr>"

definition sample_ioc_run :: "(int \<times> sim_op) list" where
  "sample_ioc_run = [(1000, OpSubmit sample_ioc), (1020, OpBook ''AAPL'' sample_book)]"

lemma immediate_orders_end_witness:
  "let b = snd (sim_run sample_ioc_run (sim_New ''sim'' 0 (Fin 1000) sample_options))
   in map fst (sb_orders b) = [''ET1''] \<and>
      \<not> list_ex (\<lambda>(i, o1). immediate o1 \<and> o_symbol o1 = ''AAPL'' \<and> booked o1 \<and> o_createdMs o1 + 50 \<le> 1060)
        (sb_orders (snd (SetBook 1060 ''AAPL'' sample_book b)))"
proof -
  obtain evs b where r: "sim_run sample_ioc_run (sim_New ''sim'' 0 (Fin 1000) sample_options) = (evs, b)" by fastforce
  have "map fst (sb_orders (snd (sim_run sample_ioc_run (sim_New ''sim'' 0 (Fin 1000) sample_options)))) = [''ET1'']"
    by code_simp
  moreover have "\<not> list_ex (\<lambda>(_, oper). \<not> sound_op oper) sample_ioc_run"
    using whole_ok[of 150]
    by (simp add: sample_ioc_run_def sample_ioc_def finite_f64_def is_nan_def is_inf_def counted_def sample_book_def
        sample_level_def book0_def)
  moreover have "sound_op (OpBook ''AAPL'' sample_book)"
    by (simp add: counted_def sample_book_def sample_level_def book0_def)
  moreover have "op_fillLatencyMs sample_options = 50" by (simp add: sample_options_def)
  ultimately show ?thesis using immediate_orders_end[OF r, of "''AAPL''" sample_book 1060]
    by (fastforce simp: r list_ex_iff)
qed

end
