(* ===== verification/SimProps.thy ===== *)
theory SimProps
  imports SimFills
begin

text \<open>
  What the simulated broker's calls promise, each as an invariant under the contract of \<open>SimLaw\<close>:
  the batches in the order of the lock are a well-ordered report on the orders it accepted, the fold of
  that report shows exactly the orders it has resting, and its account is the balance of its fills.
  What reaches the engine is in SimCalls.
\<close>

section \<open>The event protocol\<close>

text \<open>
  A monitor of the event stream: \<open>live\<close> holds the accepted orders that have not ended, each with
  the time of its acceptance. It stops (\<open>None\<close>) at an event on an order that is not live, and at
  a fill or a rejection that comes before the latency has passed.
\<close>

fun monitor_event :: "int \<Rightarrow> event \<Rightarrow> (string, int) gomap \<Rightarrow> (string, int) gomap option" where
  "monitor_event lat (OrderAccepted v i bid ts) live = Some (mput i ts live)"
| "monitor_event lat (OrderFilled f cum leaves avg eid) live =
     (case mget live (f_orderID f) of
        None \<Rightarrow> None
      | Some t \<Rightarrow> if lat > 0 \<and> f_tsMs f < t + lat then None
          else Some (if leaves \<le> 0 then mdel (f_orderID f) live else live))"
| "monitor_event lat (OrderRejected v i reason ts) live =
     (case mget live i of
        None \<Rightarrow> None | Some t \<Rightarrow> if lat > 0 \<and> ts < t + lat then None else Some (mdel i live))"
| "monitor_event lat (OrderReplaced v i q l p ts) live = (if mhas live i then Some live else None)"
| "monitor_event lat (OrderCanceled v i ts) live = (if mhas live i then Some (mdel i live) else None)"
| "monitor_event lat ev live = None"

definition monitor :: "int \<Rightarrow> broker_event \<Rightarrow> (string, int) gomap option \<Rightarrow> (string, int) gomap option" where
  "monitor lat e g = (case g of None \<Rightarrow> None | Some live \<Rightarrow>
     (case e of BrokerLifecycle ev \<Rightarrow> monitor_event lat ev live
      | BrokerAccount a \<Rightarrow> Some live | BrokerPositions v ps \<Rightarrow> Some live | _ \<Rightarrow> None))"

lemma monitor_simps [simp]:
  "monitor lat (BrokerLifecycle ev) (Some live) = monitor_event lat ev live"
  "monitor lat (BrokerAccount a) g = g" "monitor lat (BrokerPositions v ps) g = g"
  by (simp_all add: monitor_def split: option.split)

definition monitored :: "int \<Rightarrow> (string, int) gomap option \<Rightarrow> sim_broker \<Rightarrow> bool" where
  "monitored lat g b \<longleftrightarrow> sim_wf b \<and> sb_fillLatencyMs b = lat \<and> (\<exists>live. g = Some live \<and>
     (\<forall>i. mget live i = map_option o_createdMs (mget (sb_orders b) i)))"

text \<open>An order that may be tried has rested for the whole latency.\<close>

lemma eligible_time:
  assumes "sim_wf b" "mget (sb_orders b) (o_id o1) = Some o1" "eligible o1 ts b" "sb_fillLatencyMs b > 0"
  shows "o_createdMs o1 + sb_fillLatencyMs b \<le> ts"
proof -
  have "mget (sb_eligibleMs b) (o_id o1) = Some (o_createdMs o1 + sb_fillLatencyMs b)"
    using wf_deadline[OF assms(1)] assms(2,4) by simp
  then show ?thesis using assms(3) by (simp add: eligible_def)
qed

lemma monitoredI:
  "sim_wf b \<Longrightarrow> sb_fillLatencyMs b = lat \<Longrightarrow>
   (\<And>j. mget live j = map_option o_createdMs (mget (sb_orders b) j)) \<Longrightarrow> monitored lat (Some live) b"
  unfolding monitored_def by blast

lemma monitoredE:
  assumes "monitored lat g b"
  obtains live where "g = Some live" "sim_wf b" "sb_fillLatencyMs b = lat"
    "\<forall>j. mget live j = map_option o_createdMs (mget (sb_orders b) j)"
  using assms unfolding monitored_def by blast

text \<open>The monitor accepts a fill or a rejection of an order that may be tried.\<close>

lemma monitor_fill:
  assumes "monitored lat (Some live) b" "mget (sb_orders b) (o_id o1) = Some o1" "eligible o1 ts b"
  shows "mget live (o_id o1) = Some (o_createdMs o1)" "\<not> (lat > 0 \<and> ts < o_createdMs o1 + lat)"
  using assms eligible_time[of b o1 ts] by (auto simp: monitored_def simp del: map_of_eq_Some_iff)

lemma monitored_keep:
  assumes "monitored lat g b" "mget (sb_orders b) (o_id o2) = Some o1" "o_venue o2 = o_venue o1"
    "o_createdMs o2 = o_createdMs o1" "Working o2"
  shows "monitored lat g (keep_order o2 b)"
proof -
  from assms(1) obtain live where g: "g = Some live" "sim_wf b" "sb_fillLatencyMs b = lat"
    "\<forall>j. mget live j = map_option o_createdMs (mget (sb_orders b) j)" by (rule monitoredE)
  show ?thesis unfolding g(1)
    by (rule monitoredI[OF wf_keep[OF g(2) assms(2-5)]]) (simp_all add: g(3,4) assms(2,4) del: map_of_eq_Some_iff)
qed

lemma monitored_drop:
  assumes "monitored lat (Some live) b"
  shows "monitored lat (Some (mdel i live)) (drop_order i b)"
  using assms by (elim monitoredE) (auto intro!: monitoredI wf_drop)

interpretation protocol: fill_law "monitored lat" "monitor lat" "\<lambda>_ _ g. g" "\<lambda>_ _ _. True" True for lat
proof (unfold_locales, goal_cases)
  case (2 g b o1 ts reason)
  obtain live where g: "g = Some live" using 2(1) by (rule monitoredE)
  show ?case using monitor_fill[OF 2(1)[unfolded g] 2(2,3)] monitored_drop[OF 2(1)[unfolded g], of "o_id o1"]
    by (auto simp: g)
next
  case (3 g b o1 ts q px)
  obtain live where g: "g = Some live" "sim_wf b" "sb_fillLatencyMs b = lat"
    "\<forall>j. mget live j = map_option o_createdMs (mget (sb_orders b) j)" using 3(1) by (rule monitoredE)
  let ?o = "fill_order ts q px o1" and ?b = "fill_result ts o1 q px b"
  let ?live = "if o_leavesQty ?o \<le> 0 then mdel (o_id o1) live else live"
  have "monitor lat (BrokerLifecycle (fill_event ts ?o q px ?b)) g = Some ?live"
    using monitor_fill[OF 3(1)[unfolded g(1)] 3(2,3)] by (auto simp: g(1) fill_event_def)
  moreover have "monitored lat (Some ?live) ?b"
    using 3(2) by (intro monitoredI wf_fill[OF g(2) 3(2)]) (simp_all add: g(3,4) fill_order_status fill_result_orders del: map_of_eq_Some_iff)
  ultimately show ?case by simp
next
  case (4 g b o1 ty)
  then show ?case using wf_rests[of b "o_id o1" o1]
    by (intro monitored_keep[of lat g b _ o1]) (auto simp: Working_status elim: monitoredE)
next
  case (10 g b req bid ts)
  then show ?case by (elim monitoredE) (auto intro!: monitoredI wf_accept)
next
  case (11 g b i rq o1 ts)
  then obtain live where g: "g = Some live" "sim_wf b" "mget live i = Some (o_createdMs o1)"
    by (elim monitoredE) auto
  have "monitored lat g (keep_order (replace_fields ts rq o1) b)"
    using 11(1,3) wf_rests[OF g(2) 11(3)] by (intro monitored_keep[of lat g b _ o1]) (auto simp: Working_status)
  then show ?case by (simp add: g(1,3) mhas_def)
next
  case (12 g b i ts)
  obtain live where g: "g = Some live" "\<forall>j. mget live j = map_option o_createdMs (mget (sb_orders b) j)"
    using 12(1) by (elim monitoredE) auto
  show ?case using 12(2) monitored_drop[OF 12(1)[unfolded g(1)], of i] by (auto simp: g mhas_def)
next
  case (16 g b a ps)
  then show ?case by (elim monitoredE) (auto intro!: monitoredI intro: wf_close_all)
qed (auto elim!: monitoredE intro!: monitoredI)

section \<open>The engine's fold of the events\<close>

text \<open>What the broker and the engine's state both keep of an order.\<close>

record order_view =
  ov_symbol :: string
  ov_side :: side
  ov_tif :: tif
  ov_session :: order_session
  ov_qty :: f64
  ov_limitPrice :: f64
  ov_stopPrice :: f64
  ov_executedQty :: f64
  ov_leavesQty :: f64
  ov_avgFillPrice :: f64

definition view_order :: "exec_order \<Rightarrow> order_view" where
  "view_order o1 = \<lparr>ov_symbol = o_symbol o1, ov_side = o_side o1, ov_tif = o_tif o1, ov_session = o_session o1,
     ov_qty = o_qty o1, ov_limitPrice = o_limitPrice o1, ov_stopPrice = o_stopPrice o1,
     ov_executedQty = o_executedQty o1, ov_leavesQty = o_leavesQty o1,
     ov_avgFillPrice = o_avgFillPrice o1\<rparr>"

definition working_at :: "exec_state \<Rightarrow> venue_id \<Rightarrow> string \<Rightarrow> order_view option" where
  "working_at s v i = (case order_at s v i of
     Some o1 \<Rightarrow> if Working o1 then Some (view_order o1) else None | None \<Rightarrow> None)"

definition resting_at :: "sim_broker \<Rightarrow> string \<Rightarrow> order_view option" where
  "resting_at b i = map_option view_order (mget (sb_orders b) i)"

text \<open>The fold step: lifecycle events go to the log, the reconciling reports do not.\<close>

definition fold_report :: "broker_event \<Rightarrow> exec_state \<Rightarrow> exec_state" where
  "fold_report e s = (case e of BrokerLifecycle ev \<Rightarrow> Apply s ev | _ \<Rightarrow> s)"

lemma fold_report_simps [simp]:
  "fold_report (BrokerLifecycle ev) s = Apply s ev" "fold_report (BrokerAccount a) s = s"
  "fold_report (BrokerPositions v ps) s = s"
  by (simp_all add: fold_report_def)

text \<open>The engine logs a submit before it hands it over, at an instant of its own and with or without the
  share guard: \<open>logged\<close>.\<close>

definition logged_submit :: "(order_request \<Rightarrow> int \<times> bool) \<Rightarrow> order_request \<Rightarrow> event" where
  "logged_submit logged req = OrderSubmitted (native_order req (fst (logged req)) (snd (logged req)))"

definition agreed :: "exec_state \<Rightarrow> sim_broker \<Rightarrow> bool" where
  "agreed s b \<longleftrightarrow> sim_wf b \<and> state_wf s \<and> (\<forall>i. working_at s (sb_venue b) i = resting_at b i)"

lemma agreedI:
  "sim_wf b \<Longrightarrow> state_wf s \<Longrightarrow> (\<And>i. working_at s (sb_venue b) i = resting_at b i) \<Longrightarrow> agreed s b"
  by (simp add: agreed_def)

lemma agreedD:
  assumes "agreed s b"
  shows "sim_wf b" "state_wf s" "working_at s (sb_venue b) i = resting_at b i"
  using assms by (simp_all add: agreed_def)

lemma agreed_order:
  assumes "agreed s b" "mget (sb_orders b) i = Some o1"
  obtains o2 where "order_at s (sb_venue b) i = Some o2" "Working o2" "view_order o2 = view_order o1"
    "o_id o2 = i"
proof -
  have "working_at s (sb_venue b) i = Some (view_order o1)"
    using agreedD(3)[OF assms(1), of i] assms(2) by (simp add: resting_at_def)
  then obtain o2 where "order_at s (sb_venue b) i = Some o2" "Working o2" "view_order o2 = view_order o1"
    by (auto simp: working_at_def split: option.splits if_splits)
  moreover have "o_id o2 = i" using agreedD(2)[OF assms(1)] calculation(1) by (simp add: state_wf_def)
  ultimately show ?thesis using that by blast
qed

text \<open>An event that changes one order on both sides.\<close>

lemma agreed_event:
  assumes "agreed s b" "sim_wf b'" "sb_venue b' = sb_venue b"
    "\<And>j. j \<noteq> i \<Longrightarrow> order_at (Apply s ev) (sb_venue b) j = order_at s (sb_venue b) j"
    "\<And>j. j \<noteq> i \<Longrightarrow> mget (sb_orders b') j = mget (sb_orders b) j"
    "working_at (Apply s ev) (sb_venue b) i = resting_at b' i"
  shows "agreed (Apply s ev) b'"
proof (rule agreedI[OF assms(2) wf_Apply[OF agreedD(2)[OF assms(1)]]])
  show "working_at (Apply s ev) (sb_venue b') j = resting_at b' j" for j
    using agreedD(3)[OF assms(1), of j] assms(4,5)[of j] assms(3,6)
    by (cases "j = i") (simp_all add: working_at_def resting_at_def)
qed

lemma agreed_frame:
  assumes "agreed s b" "sim_wf b'" "sb_venue b' = sb_venue b" "\<And>j. resting_at b' j = resting_at b j"
  shows "agreed s b'"
  using assms by (simp add: agreed_def)

lemma Working_upd [simp]: "Working (o1\<lparr>o_updatedMs := t\<rparr>) = Working o1" "view_order (o1\<lparr>o_updatedMs := t\<rparr>) = view_order o1"
  "view_order (o1\<lparr>o_type := ty\<rparr>) = view_order o1" "view_order (o1\<lparr>o_held := h\<rparr>) = view_order o1" "view_order (o1\<lparr>o_status := x\<rparr>) = view_order o1"
  by (simp_all add: Working_def view_order_def)

lemma view_actions [simp]:
  "view_order (confirmSubmitAction o1) = view_order o1" "view_order (confirm_action k o1) = view_order o1"
  "view_order (fail_action why o1) = view_order o1"
  by (simp_all add: view_order_def confirmSubmitAction_def confirm_action_def fail_action_def split: option.split)

lemma working_mutate:
  "working_at (mutate v i ts f s) v i = (case order_at s v i of
     Some o1 \<Rightarrow> if Working (f o1) then Some (view_order (f o1)) else None | None \<Rightarrow> None)"
  by (simp add: working_at_def order_at_mutate split: option.split)

lemma order_at_filled:
  assumes "order_at s (f_venue f) (f_orderID f) = Some o1" "o_id o1 = f_orderID f"
  shows "order_at (applyFill f cum leaves avg s) v i =
    (if v = f_venue f \<and> i = f_orderID f then Some (apply_fill_order cum leaves avg (f_tsMs f) o1) else order_at s v i)"
proof -
  have base: "fill_base f s = o1" using assms(1) by (simp add: fill_base_def)
  obtain s2 where s2: "applyFill f cum leaves avg s =
      put_order (apply_fill_order cum leaves avg (f_tsMs f) o1) (f_venue f) (f_orderID f) s2"
    "\<forall>v. venue_at s2 v = (if v = f_venue f then (venue_at s v)\<lparr>vs_fills := vs_fills (venue_at s v) @ [f]\<rparr> else venue_at s v)"
    using applyFill_unfold[of f cum leaves avg s] unfolding base assms(2) by blast
  have "order_at s2 v i = order_at s v i" for v i using s2(2) by (simp add: order_at_def)
  then show ?thesis by (simp add: s2(1))
qed

definition same_venue :: "exec_state \<Rightarrow> sim_broker \<Rightarrow> sim_op \<Rightarrow> bool" where
  "same_venue s b oper = (case oper of OpSubmit req \<Rightarrow> r_venue req = sb_venue b
     | OpReplace i rq \<Rightarrow> rr_qty rq > 0 | _ \<Rightarrow> True)"

lemma not_nonpos: "x > 0 \<Longrightarrow> \<not> x \<le> 0" for x :: f64
  by (cases x) (auto simp: zero_f64_def)

lemma native_order_view:
  "view_order (native_order req ts' g) = view_order (sim_order ts req b)" "Working (native_order req ts' g)"
  "o_id (native_order req ts' g) = r_clientOrderID req" "o_venue (native_order req ts' g) = r_venue req"
  by (simp_all add: native_order_def newOrderFromRequest_def view_order_def sim_order_def order0_def Let_def Working_def)

lemma order_at_submitted:
  assumes "o_leavesQty o1 = o_qty o1"
  shows "order_at (Apply s (OrderSubmitted o1)) v i = (if v = o_venue o1 \<and> i = o_id o1 then Some o1 else order_at s v i)"
proof -
  have "o1\<lparr>o_leavesQty := o_qty o1\<rparr> = o1" by (rule exec_order.equality) (simp_all add: assms)
  then have "Apply s (OrderSubmitted o1) = record_order o1 s" by simp
  then show ?thesis by (simp only: record_order_def order_at_index_order order_at_put_order)
qed

lemma view_set_fill:
  "view_order (o1\<lparr>o_executedQty := c, o_leavesQty := l, o_avgFillPrice := a\<rparr>) =
   (view_order o1)\<lparr>ov_executedQty := c, ov_leavesQty := l, ov_avgFillPrice := a\<rparr>"
  by (simp add: view_order_def)

lemma apply_fill_view:
  "view_order (apply_fill_order c l a t o2) = (view_order o2)\<lparr>ov_executedQty := c, ov_leavesQty := l, ov_avgFillPrice := a\<rparr>"
  by (simp add: apply_fill_order_def Let_def view_set_fill)

lemma fill_order_view:
  "view_order (fill_order ts q px o1) = (view_order o1)\<lparr>ov_executedQty := o_executedQty o1 + q,
     ov_leavesQty := o_leavesQty (fill_order ts q px o1), ov_avgFillPrice := o_avgFillPrice (fill_order ts q px o1)\<rparr>"
  by (simp add: view_order_def)

lemma apply_fill_working:
  "Working (apply_fill_order cum leaves avg t o2) \<longleftrightarrow> \<not> leaves \<le> 0"
  by (simp add: apply_fill_order_def Let_def Working_def)

lemma replaced_order:
  assumes "Working o2" "rr_qty rq > 0"
  shows "view_order (apply_replaced (rr_qty rq) (rr_limitPrice rq) (rr_stopPrice rq) o2) = view_order (replace_fields ts rq o2)"
    "Working (apply_replaced (rr_qty rq) (rr_limitPrice rq) (rr_stopPrice rq) o2)"
proof -
  define held where "held h = (if h_resolvedQty h > 0 then h\<lparr>h_resolvedQty := rr_qty rq\<rparr> else h)" for h :: held_order
  define o3 where "o3 = (replace_fields ts rq o2)\<lparr>o_updatedMs := o_updatedMs o2, o_status := StatusAccepted,
    o_held := map_option held (o_held o2)\<rparr>"
  have "apply_replaced (rr_qty rq) (rr_limitPrice rq) (rr_stopPrice rq) o2 = confirm_action ActionReplace o3"
    using assms not_nonpos[OF assms(2)]
    by (cases "o_held o2") (auto simp: apply_replaced_def replace_fields_def o3_def held_def Let_def
        intro!: arg_cong[where f = "confirm_action ActionReplace"] exec_order.equality)
  moreover have "view_order o3 = view_order (replace_fields ts rq o2)" by (simp add: o3_def view_order_def)
  ultimately show "view_order (apply_replaced (rr_qty rq) (rr_limitPrice rq) (rr_stopPrice rq) o2) = view_order (replace_fields ts rq o2)"
    "Working (apply_replaced (rr_qty rq) (rr_limitPrice rq) (rr_stopPrice rq) o2)"
    by (simp_all add: Working_status o3_def)
qed

lemma replace_fields_view:
  "view_order o2 = view_order o1 \<Longrightarrow> view_order (replace_fields ts rq o2) = view_order (replace_fields ts rq o1)"
  by (simp add: view_order_def replace_fields_def Let_def)

interpretation venue: fill_law agreed fold_report "\<lambda>_ req s. Apply s (logged_submit logged req)" same_venue True for logged
proof (unfold_locales, goal_cases)
  case (1 g b)
  then show ?case by (rule agreedD)
next
  case (2 s b o1 ts reason)
  obtain o2 where o2: "order_at s (sb_venue b) (o_id o1) = Some o2" "Working o2" "view_order o2 = view_order o1"
    by (rule agreed_order[OF 2(1,2)])
  show ?case unfolding fold_report_simps
    by (rule agreed_event[OF 2(1), of _ "o_id o1"])
      (simp_all add: wf_drop agreedD[OF 2(1)] order_at_mutate working_mutate o2 resting_at_def Working_status)
next
  case (3 s b o1 ts q px)
  obtain o2 where o2: "order_at s (sb_venue b) (o_id o1) = Some o2" "Working o2" "view_order o2 = view_order o1"
    "o_id o2 = o_id o1"
    by (rule agreed_order[OF 3(1,2)])
  show ?case unfolding fold_report_simps fill_event_def
    by (rule agreed_event[OF 3(1), of _ "o_id o1"])
      (simp_all add: wf_fill agreedD[OF 3(1)] 3(2) order_at_filled o2 fill_result_orders
        working_at_def resting_at_def apply_fill_working apply_fill_view fill_order_view[of ts q px o1] fill_order_status(2))
next
  case (4 s b o1 ty)
  show ?case
    by (rule agreed_frame[OF 4(1)]) (use 4(2) wf_rests[OF agreedD(1)[OF 4(1)] 4(2)] in
      \<open>simp_all add: wf_keep[OF agreedD(1)[OF 4(1)]] resting_at_def Working_status del: map_of_eq_Some_iff\<close>)
next
  case (10 s b req bid ts)
  define o0 where "o0 = native_order req (fst (logged req)) (snd (logged req))"
  have o0: "o_leavesQty o0 = o_qty o0" "o_venue o0 = sb_venue b" "o_id o0 = r_clientOrderID req"
    "view_order o0 = view_order (sim_order ts req b)" "Working o0"
    using 10(2) native_order_view(1)[of req "fst (logged req)" "snd (logged req)" ts b] native_order_view(2-4)[of req "fst (logged req)" "snd (logged req)"]
    by (simp_all add: o0_def same_venue_def) (simp add: native_order_def newOrderFromRequest_def Let_def)
  have a: "agreed (Apply s (OrderSubmitted o0)) (sim_accept ts req b)"
    by (rule agreed_event[OF 10(1), of _ "r_clientOrderID req"])
      (simp_all add: wf_accept agreedD[OF 10(1)] order_at_submitted o0 working_at_def resting_at_def
        del: Apply.simps)
  show ?case unfolding fold_report_simps logged_submit_def o0_def[symmetric]
    by (rule agreed_event[OF a, of _ "r_clientOrderID req"])
      (simp_all add: agreedD[OF a] wf_accept agreedD[OF 10(1)] order_at_mutate working_mutate order_at_submitted o0
        resting_at_def Working_status del: Apply.simps(2))
next
  case (11 s b i rq o1 ts)
  obtain o2 where o2: "order_at s (sb_venue b) i = Some o2" "Working o2" "view_order o2 = view_order o1"
    by (rule agreed_order[OF 11(1,3)])
  have id: "o_id o1 = i" "o_venue o1 = sb_venue b" "Working o1" using wf_rests[OF agreedD(1)[OF 11(1)] 11(3)] by auto
  have q: "rr_qty rq > 0" using 11(2) by (simp add: same_venue_def)
  show ?case unfolding fold_report_simps
    by (rule agreed_event[OF 11(1), of _ i])
      (simp_all add: wf_keep[OF agreedD(1)[OF 11(1)], where ?o1.0 = o1] 11(3) id Working_status[of "replace_fields ts rq o1"]
        Working_status[symmetric] order_at_mutate working_mutate o2 replaced_order(1)[OF o2(2) q, of ts] replaced_order(2)[OF o2(2) q]
        replace_fields_view[OF o2(3)] resting_at_def del: map_of_eq_Some_iff)
next
  case (12 s b i ts)
  then obtain o1 where o1: "mget (sb_orders b) i = Some o1" by (auto simp: mhas_def)
  obtain o2 where o2: "order_at s (sb_venue b) i = Some o2" "Working o2" "view_order o2 = view_order o1"
    by (rule agreed_order[OF 12(1) o1])
  show ?case unfolding fold_report_simps
    by (rule agreed_event[OF 12(1), of _ i])
      (simp_all add: wf_drop agreedD[OF 12(1)] order_at_mutate working_mutate o2 resting_at_def Working_status)
next
  case (16 s b a ps)
  then show ?case by (auto intro!: agreed_frame[OF 16(2)] wf_close_all dest: agreedD simp: resting_at_def)
qed (auto simp: agreed_def resting_at_def)

lemma agreed_New: "agreed (NewState [v]) (sim_New v ts cash opts)"
proof (rule agreedI)
  show "working_at (NewState [v]) (sb_venue (sim_New v ts cash opts)) i = resting_at (sim_New v ts cash opts) i" for i
    by (simp add: working_at_def resting_at_def order_at_def venue_at_def NewState_def newVenueState_def mget0_def)
qed (simp_all add: wf_NewState)

section \<open>The account as the balance of the fills\<close>

text \<open>The fills a run reported, and what they come to.\<close>

definition add_fill :: "broker_event \<Rightarrow> exec_fill list \<Rightarrow> exec_fill list" where
  "add_fill e fs = (case e of BrokerLifecycle (OrderFilled f _ _ _ _) \<Rightarrow> fs @ [f] | _ \<Rightarrow> fs)"

definition net_of :: "string \<Rightarrow> exec_fill list \<Rightarrow> f64" where
  "net_of symbol fs = fsum (map (\<lambda>f. signed_fill (f_side f) (f_qty f)) (filter (\<lambda>f. f_symbol f = symbol) fs))"

definition cash_of :: "f64 \<Rightarrow> exec_fill list \<Rightarrow> f64" where
  "cash_of startingCash fs = foldl (\<lambda>c f. c + cashSign (f_side f) * f_qty f * f_price f) startingCash fs"

definition sim_shares :: "sim_broker \<Rightarrow> string \<Rightarrow> f64" where
  "sim_shares b symbol = (case mget (sb_pos b) symbol of Some p \<Rightarrow> p_qty p | None \<Rightarrow> 0)"

definition balanced :: "f64 \<Rightarrow> exec_fill list \<Rightarrow> sim_broker \<Rightarrow> bool" where
  "balanced startingCash fs b \<longleftrightarrow> sim_wf b \<and> (\<forall>symbol. sim_shares b symbol = net_of symbol fs) \<and>
     ac_availableCash (sb_acct b) = cash_of startingCash fs \<and> ac_sodEquity (sb_acct b) = startingCash"

text \<open>The operations that move the account without a fill.\<close>

fun manual_op :: "sim_op \<Rightarrow> bool" where
  "manual_op OpFlatten \<longleftrightarrow> True"
| "manual_op (OpReset cash) \<longleftrightarrow> True"
| "manual_op (OpAccount a) \<longleftrightarrow> True"
| "manual_op _ \<longleftrightarrow> False"

definition trading :: "exec_fill list \<Rightarrow> sim_broker \<Rightarrow> sim_op \<Rightarrow> bool" where
  "trading fs b oper \<longleftrightarrow> \<not> manual_op oper"

lemma add_fill_simps [simp]:
  "add_fill (BrokerAccount a) fs = fs" "add_fill (BrokerPositions v ps) fs = fs"
  "add_fill (BrokerLifecycle (OrderAccepted v i bid ts)) fs = fs"
  "add_fill (BrokerLifecycle (OrderRejected v i why ts)) fs = fs"
  "add_fill (BrokerLifecycle (OrderCanceled v i ts)) fs = fs"
  "add_fill (BrokerLifecycle (OrderReplaced v i q l p ts)) fs = fs"
  "add_fill (BrokerLifecycle (OrderFilled f c l avg e)) fs = fs @ [f]"
  by (simp_all add: add_fill_def)

lemma fill_position_qty: "p_qty (fst (fill_position d q px p)) = p_qty p + d"
  by (simp add: fill_position_def Let_def)

lemma shares_fill:
  "sim_shares (fill_account ts o1 q px b) symbol =
     (if symbol = o_symbol o1 then sim_shares b symbol + signed_fill (o_side o1) q else sim_shares b symbol)"
  by (auto simp: sim_shares_def fill_account_pos fill_position_qty mget0_def position0_def split: option.split)

lemma shares_frame:
  "sb_pos b' = sb_pos b \<Longrightarrow> sim_shares b' symbol = sim_shares b symbol"
  by (simp add: sim_shares_def)

lemma balanced_frame:
  assumes "balanced c fs b" "sim_wf b'" "sb_pos b' = sb_pos b"
    "ac_availableCash (sb_acct b') = ac_availableCash (sb_acct b)" "ac_sodEquity (sb_acct b') = ac_sodEquity (sb_acct b)"
  shows "balanced c fs b'"
  using assms shares_frame[OF assms(3)] by (simp add: balanced_def)

lemma balanced_wf: "balanced c fs b \<Longrightarrow> sim_wf b"
  by (simp add: balanced_def)

interpretation ledger: fill_law "balanced startingCash" add_fill "\<lambda>_ _ g. g" trading False for startingCash
proof (unfold_locales, goal_cases)
  case (1 fs b)
  then show ?case by (simp add: balanced_def)
next
  case (2 fs b o1 ts reason)
  then show ?case unfolding add_fill_simps
    by (intro balanced_frame[OF 2(1)]) (simp_all add: balanced_wf wf_drop)
next
  case (3 fs b o1 ts q px)
  have wf: "sim_wf b" using 3(1) by (simp add: balanced_def)
  let ?o = "fill_order ts q px o1"
  have pos: "sb_pos (rest_or_drop ?o b) = sb_pos b" "sb_acct (rest_or_drop ?o b) = sb_acct b"
    by (simp_all add: rest_or_drop_def)
  show ?case using 3(1) wf_fill[OF wf 3(2)] shares_frame[OF pos(1)]
    by (simp add: balanced_def fill_event_def fill_result_def shares_fill net_of_def cash_of_def fsum_def pos)
next
  case (4 fs b o1 ty)
  have "sim_wf b" using 4(1) by (simp add: balanced_def)
  then show ?case using 4(2) wf_rests[of b "o_id o1" o1]
    by (intro balanced_frame[OF 4(1)] wf_keep[where ?o1.0 = o1]) (auto simp: Working_status)
next
  case (5 fs b m)
  then show ?case by (intro balanced_frame[OF 5]) (simp_all add: balanced_wf)
next
  case (6 fs b k)
  then show ?case by (intro balanced_frame[OF 6]) (simp_all add: balanced_wf)
next
  case (7 fs b ts)
  then show ?case by (intro balanced_frame[OF 7]) (simp_all add: balanced_wf)
next
  case (10 fs b req bid ts)
  then show ?case unfolding add_fill_simps
    by (intro balanced_frame[OF 10(1)]) (simp_all add: balanced_wf wf_accept)
next
  case (11 fs b i rq o1 ts)
  have wf: "sim_wf b" using 11(1) by (simp add: balanced_def)
  show ?case unfolding add_fill_simps
    using wf_rests[OF wf 11(3)] 11(3)
    by (intro balanced_frame[OF 11(1)] wf_keep[OF wf, where ?o1.0 = o1]) (auto simp: Working_status)
next
  case (12 fs b i ts)
  then show ?case unfolding add_fill_simps
    by (intro balanced_frame[OF 12(1)]) (simp_all add: balanced_wf wf_drop)
qed (auto simp: trading_def)

text \<open>The derived fields of the account are those of its cash, positions and marks.\<close>

definition fresh_account :: "sim_broker \<Rightarrow> bool" where
  "fresh_account b \<longleftrightarrow> ac_equity (sb_acct b) = sim_equity b \<and>
     ac_buyingPower (sb_acct b) = ac_availableCash (sb_acct b) \<and>
     ac_dayPnL (sb_acct b) = sim_equity b - ac_sodEquity (sb_acct b)"

lemma equity_frame:
  assumes "sb_pos b' = sb_pos b" "sb_marks b' = sb_marks b" "ac_availableCash (sb_acct b') = ac_availableCash (sb_acct b)"
  shows "sim_equity b' = sim_equity b"
proof -
  have "pos_mark b' = pos_mark b" by (rule ext) (simp add: pos_mark_def assms)
  then show ?thesis by (simp add: sim_equity_def assms)
qed

lemma fresh_recompute: "fresh_account (recomputeAccount ts b)"
proof -
  have "sim_equity (recomputeAccount ts b) = sim_equity b" by (rule equity_frame) simp_all
  then show ?thesis by (simp add: fresh_account_def) (simp add: recomputeAccount_def)
qed

lemma fresh_frame:
  "fresh_account b \<Longrightarrow> sb_pos b' = sb_pos b \<Longrightarrow> sb_marks b' = sb_marks b \<Longrightarrow> sb_acct b' = sb_acct b \<Longrightarrow> fresh_account b'"
  using equity_frame[of b' b] by (simp add: fresh_account_def)

lemma fresh_fill: "fresh_account (fill_result ts o1 q px b)"
  by (simp add: fill_result_def fill_account_def Let_def case_prod_unfold fresh_recompute)

lemma fresh_attempt:
  assumes "fresh_account b"
  shows "fresh_account (snd (attemptBookFill ts o1 k b))"
proof -
  obtain evs b' where a: "attemptBookFill ts o1 k b = (evs, b')" by fastforce
  have drop: "fresh_account x \<Longrightarrow> fresh_account (drop_order i x)" for x i by (rule fresh_frame) simp_all
  from a show ?thesis by (cases rule: attempt_cases) (simp_all add: a assms fresh_fill drop)
qed

lemma fresh_keep: "fresh_account b \<Longrightarrow> fresh_account (keep_order o1 b)"
  by (rule fresh_frame) simp_all

lemma fresh_act: "fresh_account b \<Longrightarrow> fresh_account (snd (actOnMark ts o1 m b))"
  by (simp add: actOnMark_def Let_def fresh_attempt fresh_keep split: order_type.split)

lemma fresh_accept: "fresh_account b \<Longrightarrow> fresh_account (sim_accept ts req b)"
  by (rule fresh_frame) simp_all

lemma fresh_drops: "fresh_account b \<Longrightarrow> fresh_account (fold drop_order ids b)"
  by (induction ids arbitrary: b) (simp_all add: fresh_frame)

lemma fresh_mark: "fresh_account (snd (markToMarket ts b))"
  by (simp add: markToMarket_def Let_def fresh_recompute)

lemma fresh_step:
  assumes "fresh_account b" "\<not> manual_op oper"
  shows "fresh_account (snd (sim_step ts oper b))"
  using assms
  by (cases oper)
    (simp_all add: SetMark_def SetBook_def Let_def case_prod_unfold fresh_mark sim_SubmitOrder_def sim_ReplaceOrder_def
      sim_CancelOrder_def sim_CancelAll_def fresh_act fresh_attempt fresh_accept fresh_keep fresh_drops fresh_frame
      split: option.split order_type.split)

lemma fresh_run:
  "fresh_account b \<Longrightarrow> \<not> list_ex (\<lambda>(_, oper). manual_op oper) ops \<Longrightarrow> fresh_account (snd (sim_run ops b))"
  by (induction ops arbitrary: b) (auto simp: Let_def case_prod_unfold fresh_step)

lemma fresh_New: "finite_f64 cash \<Longrightarrow> fresh_account (sim_New v ts cash opts)"
  by (cases cash) (simp_all add: fresh_account_def sim_New_def sim_equity_def account0_def zero_f64_def minus_f64_def
      finite_f64_def is_nan_def is_inf_def)

text \<open>C18. Without manual flatten, reset or account overwrite the simulated account is the balance of the reported fills: each position is the sum of its signed fills, the cash the starting cash and the proceeds, both in the very order of the additions; equity, buying power and day P&L follow from cash, positions and marks.\<close>

theorem account_balances:
  assumes "sim_run ops (sim_New v ts cash opts) = (evs, b)" "\<not> list_ex (\<lambda>(_, oper). manual_op oper) ops"
    "finite_f64 cash" "fs = fold add_fill (map snd evs) []"
  shows "sim_shares b symbol = net_of symbol fs \<and> ac_availableCash (sb_acct b) = cash_of cash fs \<and>
    ac_equity (sb_acct b) = sim_equity b \<and> ac_buyingPower (sb_acct b) = cash_of cash fs \<and>
    ac_dayPnL (sb_acct b) = sim_equity b - cash"
proof -
  have start: "balanced cash [] (sim_New v ts cash opts)"
    by (simp add: balanced_def sim_shares_def net_of_def cash_of_def fsum_def)
  have "balanced cash fs b"
    unfolding assms(4) using assms(2)
    by (intro ledger.law.run_keeps[OF start _ _ assms(1)]) (auto simp: trading_def list_ex_iff)
  moreover have "fresh_account b"
    using fresh_run[OF fresh_New assms(2), of cash v ts opts] assms(1,3) by simp
  ultimately show ?thesis by (simp add: balanced_def fresh_account_def)
qed

text \<open>A buy of 130 shares at two prices, then a mark and a sale of 30.\<close>

definition sample_sim_ops :: "(int \<times> sim_op) list" where
  "sample_sim_ops = [(1000, OpBook ''AAPL'' sample_book), (1010, OpSubmit (sample_ioc\<lparr>r_tif := TIFDay\<rparr>)),
     (1020, OpMark ''AAPL'' (Fin 12)),
     (1030, OpBook ''AAPL'' (sample_book\<lparr>fb_bids := [sample_level 11 50], fb_asks := []\<rparr>)),
     (1040, OpSubmit (sample_ioc\<lparr>r_side := SideSell, r_qty := Fin 30, r_clientOrderID := ''ET2''\<rparr>))]"

lemma account_balances_witness:
  "let (evs, b) = sim_run sample_sim_ops (sim_New ''sim'' 0 (Fin 5000) \<lparr>op_slippageBps = 0, op_fillLatencyMs = 0\<rparr>)
   in sim_shares b ''AAPL'' = net_of ''AAPL'' (fold add_fill (map snd evs) []) \<and> sim_shares b ''AAPL'' = Fin 100 \<and>
      ac_equity (sb_acct b) = sim_equity b \<and> length (fold add_fill (map snd evs) []) = 2"
proof -
  let ?b0 = "sim_New ''sim'' 0 (Fin 5000) \<lparr>op_slippageBps = 0, op_fillLatencyMs = 0\<rparr>"
  obtain evs b where r: "sim_run sample_sim_ops ?b0 = (evs, b)" by fastforce
  have "let (evs, b) = sim_run sample_sim_ops ?b0
      in sim_shares b ''AAPL'' = Fin 100 \<and> length (fold add_fill (map snd evs) []) = 2" by code_simp
  moreover have "\<not> list_ex (\<lambda>(_, oper). manual_op oper) sample_sim_ops" by code_simp
  moreover have "finite_f64 (Fin 5000)" by (simp add: finite_f64_def is_nan_def is_inf_def)
  ultimately show ?thesis using account_balances[OF r _ _ refl, of "''AAPL''"] by (simp add: r)
qed

end
