(* ===== verification/SimCalls.thy ===== *)
theory SimCalls
  imports SimProps
begin

text \<open>
  The simulated broker under concurrent callers. A call (\<open>SetMark\<close>, \<open>SetBook\<close>, \<open>SubmitOrder\<close>, ...) changes
  the broker under its mutex, unlocks, and then sends its batch of events to the channel one by one;
  the engine's loop reads the channel and appends what it reads to its log. A goroutine is
  a number: it makes one call at a time and sends its whole batch before the next. Nothing orders the
  sends of different goroutines.

  The moves below interleave freely. \<open>ResetBalance\<close> is its three calls by one goroutine. Events that
  no order concerns (account, positions) are read too and leave the log as it is.
\<close>

section \<open>The world of a venue\<close>

record sim_world =
  sw_broker :: sim_broker
  sw_report :: "(nat \<times> broker_event) list"
  sw_unsent :: "nat \<Rightarrow> broker_event list"
  sw_channel :: "(nat \<times> broker_event) list"
  sw_read :: nat
  sw_ready :: "order_request list"
  sw_log :: "event list"
  sw_history :: "event list"

text \<open>\<open>sw_report\<close> is what the calls built, in the order of the lock; \<open>sw_channel\<close> what was sent, in the
  order of the channel; the first \<open>sw_read\<close> of these were read. \<open>sw_ready\<close> holds the submits that are
  logged and not handed over yet. \<open>sw_history\<close> is the venue's own account: each submit as the broker
  took it, and the reports in the order of the lock.\<close>

definition sim_start :: "sim_broker \<Rightarrow> sim_world" where
  "sim_start b = \<lparr>sw_broker = b, sw_report = [], sw_unsent = (\<lambda>_. []), sw_channel = [], sw_read = 0,
     sw_ready = [], sw_log = [], sw_history = []\<rparr>"

datatype sim_move =
    LogSubmit order_request
  | Call nat int sim_op
  | Send nat
  | Read

fun lifecycle_of :: "broker_event \<Rightarrow> event list" where
  "lifecycle_of (BrokerLifecycle ev) = [ev]"
| "lifecycle_of _ = []"

definition lifecycle_events :: "broker_event list \<Rightarrow> event list" where
  "lifecycle_events evs = concat (map lifecycle_of evs)"

text \<open>What the engine hands over: a submit it logged, a replacement to a positive quantity.\<close>

fun handed_over :: "sim_world \<Rightarrow> sim_op \<Rightarrow> bool" where
  "handed_over w (OpSubmit req) = (req \<in> set (sw_ready w))"
| "handed_over w (OpReplace i rq) = (rr_qty rq > 0)"
| "handed_over w (OpReset cash) = False"
| "handed_over w _ = True"

fun taken :: "(order_request \<Rightarrow> int \<times> bool) \<Rightarrow> sim_op \<Rightarrow> event list" where
  "taken logged (OpSubmit req) = [logged_submit logged req]"
| "taken logged _ = []"

fun without_submit :: "sim_op \<Rightarrow> order_request list \<Rightarrow> order_request list" where
  "without_submit (OpSubmit req) rs = remove1 req rs"
| "without_submit _ rs = rs"

fun do_move :: "(order_request \<Rightarrow> int \<times> bool) \<Rightarrow> sim_move \<Rightarrow> sim_world \<Rightarrow> sim_world" where
  "do_move logged (LogSubmit req) w =
     (if Validate req \<noteq> None \<or> r_venue req \<noteq> sb_venue (sw_broker w) then w
      else w\<lparr>sw_log := sw_log w @ [logged_submit logged req], sw_ready := req # sw_ready w\<rparr>)"
| "do_move logged (Call t ts oper) w =
     (if sw_unsent w t \<noteq> [] \<or> \<not> handed_over w oper then w
      else let (evs, b) = sim_step ts oper (sw_broker w)
           in w\<lparr>sw_broker := b, sw_report := sw_report w @ map (Pair t) evs, sw_unsent := (sw_unsent w)(t := evs),
                sw_ready := without_submit oper (sw_ready w),
                sw_history := sw_history w @ taken logged oper @ lifecycle_events evs\<rparr>)"
| "do_move logged (Send t) w = (case sw_unsent w t of
     [] \<Rightarrow> w
   | e # es \<Rightarrow> w\<lparr>sw_channel := sw_channel w @ [(t, e)], sw_unsent := (sw_unsent w)(t := es)\<rparr>)"
| "do_move logged Read w =
     (if sw_read w < length (sw_channel w)
      then w\<lparr>sw_read := sw_read w + 1, sw_log := sw_log w @ lifecycle_of (snd (sw_channel w ! sw_read w))\<rparr> else w)"

definition sim_moves :: "(order_request \<Rightarrow> int \<times> bool) \<Rightarrow> sim_move list \<Rightarrow> sim_broker \<Rightarrow> sim_world" where
  "sim_moves logged ms b = fold (do_move logged) ms (sim_start b)"

definition engine_of :: "venue_id \<Rightarrow> sim_world \<Rightarrow> exec_state" where
  "engine_of v w = Replay (sw_log w) [v]"

section \<open>One order at a time\<close>

text \<open>The orders an event touches, as venue and ID.\<close>

fun touches :: "venue_id \<Rightarrow> string \<Rightarrow> event \<Rightarrow> bool" where
  "touches v i (RiskEntryChanged entry stop) =
     (\<exists>o1 \<in> {entry, stop}. o_id o1 \<noteq> '''' \<and> o_venue o1 = v \<and> o_id o1 = i)"
| "touches v i (OrderSubmitted o1) = (o_venue o1 = v \<and> o_id o1 = i)"
| "touches v i (OrderBlocked v' i' req reason ts) = (v' = v \<and> i' = i)"
| "touches v i (OrderAccepted v' i' bid ts) = (v' = v \<and> i' = i)"
| "touches v i (OrderRejected v' i' reason ts) = (v' = v \<and> i' = i)"
| "touches v i (OrderFilled f cum leaves avg eid) = (f_venue f = v \<and> f_orderID f = i)"
| "touches v i (OrderCanceled v' i' ts) = (v' = v \<and> i' = i)"
| "touches v i (OrderExpired v' i' ts) = (v' = v \<and> i' = i)"
| "touches v i (OrderReplaced v' i' q l p ts) = (v' = v \<and> i' = i)"
| "touches v i (HeldOrderChanged v' i' held ts) = (v' = v \<and> i' = i)"
| "touches v i (OrderActionChanged v' i' action ts) = (v' = v \<and> i' = i)"
| "touches v i (StreamGap v' ts) = False"
| "touches v i (FlattenPendingChanged v' pending ts) = False"

lemma order_at_record: "order_at (record_order o1 s) v i = (if v = o_venue o1 \<and> i = o_id o1 then Some o1 else order_at s v i)"
  by (simp only: record_order_def order_at_index_order order_at_put_order)

lemma Apply_other:
  assumes "state_wf s" "\<not> touches v i ev"
  shows "order_at (Apply s ev) v i = order_at s v i"
  using assms by (cases ev) (auto simp: order_at_record order_at_Apply)

lemma Apply_same:
  assumes "state_wf s" "state_wf s'" "order_at s v i = order_at s' v i"
  shows "order_at (Apply s ev) v i = order_at (Apply s' ev) v i"
  using assms by (cases ev) (auto simp: order_at_record order_at_Apply fill_base_def)

lemma wf_foldl: "state_wf s \<Longrightarrow> state_wf (foldl Apply s evs)"
  by (induction evs arbitrary: s) (simp_all add: wf_Apply del: Apply.simps)

lemma replay_touching:
  "state_wf s \<Longrightarrow> order_at (foldl Apply s evs) v i = order_at (foldl Apply s (filter (touches v i) evs)) v i"
proof (induction evs rule: rev_induct)
  case (snoc ev evs)
  then have IH: "order_at (foldl Apply s evs) v i = order_at (foldl Apply s (filter (touches v i) evs)) v i" by blast
  show ?case
    using Apply_other[OF wf_foldl[OF snoc.prems], of v i ev evs] Apply_same[OF wf_foldl wf_foldl IH, of ev] snoc.prems IH
    by (simp del: Apply.simps)
qed simp

lemma fold_report_lifecycle: "fold fold_report evs s = foldl Apply s (lifecycle_events evs)"
  by (induction evs arbitrary: s) (simp_all add: lifecycle_events_def, case_tac a, simp_all add: fold_report_def)

section \<open>What every move keeps\<close>

definition of_caller :: "nat \<Rightarrow> (nat \<times> broker_event) list \<Rightarrow> broker_event list" where
  "of_caller t tagged = map snd (filter (\<lambda>(t', _). t' = t) tagged)"

lemma of_caller_simps [simp]:
  "of_caller t [] = []" "of_caller t (xs @ ys) = of_caller t xs @ of_caller t ys"
  "of_caller t (map (Pair t') evs) = (if t' = t then evs else [])"
  "of_caller t [(t', e)] = (if t' = t then [e] else [])"
  by (simp_all add: of_caller_def) (induction evs; simp)

definition fresh_submit :: "event \<Rightarrow> bool" where
  "fresh_submit ev \<longleftrightarrow> (case ev of OrderSubmitted o1 \<Rightarrow> True | _ \<Rightarrow> False)"

definition world_inv :: "venue_id \<Rightarrow> int \<Rightarrow> sim_world \<Rightarrow> bool" where
  "world_inv v lat w \<longleftrightarrow> sb_venue (sw_broker w) = v \<and> agreed (foldl Apply (NewState [v]) (sw_history w)) (sw_broker w) \<and>
     monitored lat (fold (monitor lat) (map snd (sw_report w)) (Some [])) (sw_broker w) \<and>
     (\<forall>t. of_caller t (sw_channel w) @ sw_unsent w t = of_caller t (sw_report w)) \<and>
     (\<forall>req \<in> set (sw_ready w). Validate req = None \<and> r_venue req = v) \<and> sw_read w \<le> length (sw_channel w)"

lemma call_inv:
  assumes "world_inv v lat w" "sw_unsent w t = []" "handed_over w oper" "sim_step ts oper (sw_broker w) = (evs, b)"
  shows "sb_venue b = v" "agreed (foldl Apply (NewState [v]) (sw_history w @ taken logged oper @ lifecycle_events evs)) b"
    "monitored lat (fold (monitor lat) (map snd (sw_report w @ map (Pair t) evs)) (Some [])) b"
proof -
  define s where "s = foldl Apply (NewState [v]) (sw_history w)"
  note i = assms(1)[unfolded world_inv_def s_def[symmetric]]
  have ok: "same_venue s (sw_broker w) oper" using assms(3) i by (cases oper) (auto simp: same_venue_def)
  have pre: "pre_op (\<lambda>_ req s. Apply s (logged_submit logged req)) ts oper s = foldl Apply s (taken logged oper)"
    using assms(3) i by (cases oper) (auto simp: pre_op_def simp del: Apply.simps)
  have "agreed (fold fold_report evs (pre_op (\<lambda>_ req s. Apply s (logged_submit logged req)) ts oper s)) b"
    by (rule venue.law.step_keeps[OF _ ok assms(4)]) (use i in blast)
  then show "agreed (foldl Apply (NewState [v]) (sw_history w @ taken logged oper @ lifecycle_events evs)) b"
    by (simp add: pre[unfolded s_def] fold_report_lifecycle s_def del: Apply.simps)
  show "sb_venue b = v" using step_fixed(1)[of ts oper "sw_broker w"] assms(4) i by simp
  have "monitored lat (fold (monitor lat) evs (pre_op (\<lambda>_ _ g. g) ts oper (fold (monitor lat) (map snd (sw_report w)) (Some [])))) b"
    by (rule protocol.law.step_keeps[OF _ _ assms(4)]) (use i in auto)
  moreover have "pre_op (\<lambda>_ _ g. g) ts oper g = g" for g :: "(string, int) gomap option"
    by (simp add: pre_op_def split: sim_op.split)
  ultimately show "monitored lat (fold (monitor lat) (map snd (sw_report w @ map (Pair t) evs)) (Some [])) b"
    by (simp add: comp_def)
qed

lemma move_inv: "world_inv v lat w \<Longrightarrow> world_inv v lat (do_move logged m w)"
proof (cases m)
  case (Call t ts oper)
  assume i: "world_inv v lat w"
  show ?thesis
  proof (cases "sw_unsent w t \<noteq> [] \<or> \<not> handed_over w oper")
    case False
    obtain evs b where st: "sim_step ts oper (sw_broker w) = (evs, b)" by fastforce
    have "set (without_submit oper (sw_ready w)) \<subseteq> set (sw_ready w)" by (cases oper) (auto simp: set_remove1_subset)
    moreover have "sb_venue b = v" "agreed (foldl Apply (NewState [v]) (sw_history w @ taken logged oper @ lifecycle_events evs)) b"
      "monitored lat (fold (monitor lat) (map snd (sw_report w @ map (Pair t) evs)) (Some [])) b"
      using call_inv[OF i _ _ st] False by blast+
    moreover have "of_caller t (sw_channel w) = of_caller t (sw_report w)"
      using i False unfolding world_inv_def by (metis append_Nil2)
    ultimately show ?thesis using False i st unfolding Call
      by (auto simp: world_inv_def simp del: Apply.simps)
  qed (use i Call in auto)
next
  case (Send t)
  assume "world_inv v lat w"
  then show ?thesis
  proof (cases "sw_unsent w t")
    case (Cons e es)
    moreover from \<open>world_inv v lat w\<close> have "of_caller t (sw_channel w) @ sw_unsent w t = of_caller t (sw_report w)"
      by (simp add: world_inv_def)
    ultimately have "of_caller t (sw_channel w) @ e # es = of_caller t (sw_report w)" by simp
    with \<open>world_inv v lat w\<close> Cons Send show ?thesis by (simp add: world_inv_def)
  qed (simp add: Send)
qed (auto simp: world_inv_def)

lemma start_inv: "world_inv v (op_fillLatencyMs opts) (sim_start (sim_New v ts cash opts))"
  by (simp add: world_inv_def sim_start_def agreed_New monitoredI)

lemma moves_inv: "world_inv v (op_fillLatencyMs opts) (sim_moves logged ms (sim_New v ts cash opts))"
proof -
  have "world_inv v lat w \<Longrightarrow> world_inv v lat (fold (do_move logged) ms w)" for lat w
    by (induction ms arbitrary: w) (simp_all add: move_inv del: do_move.simps)
  then show ?thesis using start_inv by (simp add: sim_moves_def)
qed

section \<open>Properties\<close>

text \<open>C16. Engine and simulated broker agree on every order whose reports arrived in order: however goroutines interleave their calls, and the sending of each call's batch after it unlocked, once the engine has read exactly the reports on an order in the order of the broker's lock, it shows the order working exactly when the broker has it resting, with the same quantities, prices and fills. When reports overtake one another in the channel the conclusion can fail (see the findings).\<close>

theorem venue_agrees:
  assumes "filter (touches v i) (sw_log (sim_moves logged ms (sim_New v ts cash opts))) =
    filter (touches v i) (sw_history (sim_moves logged ms (sim_New v ts cash opts)))"
  shows "working_at (engine_of v (sim_moves logged ms (sim_New v ts cash opts))) v i =
    resting_at (sw_broker (sim_moves logged ms (sim_New v ts cash opts))) i"
proof -
  define w where "w = sim_moves logged ms (sim_New v ts cash opts)"
  have a: "agreed (foldl Apply (NewState [v]) (sw_history w)) (sw_broker w)" "sb_venue (sw_broker w) = v"
    using moves_inv[of v opts logged ms ts cash] by (simp_all add: w_def world_inv_def)
  have wf: "state_wf (NewState [v])" by (rule wf_NewState)
  have "order_at (engine_of v w) v i = order_at (foldl Apply (NewState [v]) (sw_history w)) v i"
    using replay_touching[OF wf, of "sw_log w" v i] replay_touching[OF wf, of "sw_history w" v i] assms[folded w_def]
    by (simp add: engine_of_def Replay_def)
  then show ?thesis using agreedD(3)[OF a(1), of i] a(2) unfolding w_def[symmetric] by (simp add: working_at_def)
qed

text \<open>C17. However goroutines interleave, the simulated broker's reports, taken in the order of its lock, are well ordered: a fill, replacement, cancel or rejection always concerns an order accepted before and not yet ended, none follows its end, and no fill or rejection comes before the fill latency has passed; and the channel carries each goroutine's reports completely and in that order, those it has not sent yet being the rest. Between goroutines the channel keeps no order.\<close>

theorem reports_follow_protocol:
  "let w = sim_moves logged ms (sim_New v ts cash opts) in
    fold (monitor (op_fillLatencyMs opts)) (map snd (sw_report w)) (Some []) \<noteq> None \<and>
    (\<forall>t. of_caller t (sw_channel w) @ sw_unsent w t = of_caller t (sw_report w))"
  using moves_inv[of v opts logged ms ts cash] by (auto simp: world_inv_def monitored_def Let_def)

section \<open>Runs\<close>

text \<open>Two resting buys of different symbols, a book that fills four shares of the first, and a cancel of that
  order that comes after the book took the lock but overtakes its batch in the channel.\<close>

definition sim_buy :: "string \<Rightarrow> string \<Rightarrow> order_request" where
  "sim_buy i symbol = sample_ioc\<lparr>r_clientOrderID := i, r_symbol := symbol, r_tif := TIFDay, r_qty := Fin 10, r_limitPrice := Fin 10\<rparr>"

definition thin_book :: feed_book where
  "thin_book = book0\<lparr>fb_asks := [sample_level 10 4]\<rparr>"

definition race_moves :: "sim_move list" where
  "race_moves = [LogSubmit (sim_buy ''A'' ''AAPL''), LogSubmit (sim_buy ''B'' ''MSFT''),
     Call 1 1000 (OpSubmit (sim_buy ''A'' ''AAPL'')), Call 2 1000 (OpSubmit (sim_buy ''B'' ''MSFT'')), Send 2, Send 1,
     Call 3 1100 (OpBook ''AAPL'' thin_book), Call 4 1200 (OpCancel ''A''), Send 4, Send 3, Send 3, Send 3] @ replicate 6 Read"

definition race_end :: sim_world where
  "race_end = sim_moves (\<lambda>_. (900, False)) race_moves (sim_New ''sim'' 0 (Fin 1000) sample_options)"

definition race_submits :: "event list" where
  "race_submits = [logged_submit (\<lambda>_. (900, False)) (sim_buy ''A'' ''AAPL''), logged_submit (\<lambda>_. (900, False)) (sim_buy ''B'' ''MSFT'')]"

definition race_fill :: event where
  "race_fill = OrderFilled \<lparr>f_venue = ''sim'', f_orderID = ''A'', f_symbol = ''AAPL'', f_side = SideBuy, f_qty = Fin 4,
     f_price = Fin 10, f_tsMs = 1100\<rparr> (Fin 4) (Fin 6) (Fin 10) ''''"

lemma race_log: "sw_log race_end = race_submits @ [OrderAccepted ''sim'' ''B'' ''SIM-2'' 1000,
    OrderAccepted ''sim'' ''A'' ''SIM-1'' 1000, OrderCanceled ''sim'' ''A'' 1200, race_fill]"
  by code_simp

lemma race_history: "sw_history race_end = [race_submits ! 0, OrderAccepted ''sim'' ''A'' ''SIM-1'' 1000, race_submits ! 1,
    OrderAccepted ''sim'' ''B'' ''SIM-2'' 1000, race_fill, OrderCanceled ''sim'' ''A'' 1200]"
  by code_simp

lemma race_broker: "map (\<lambda>(i, o1). (i, o_leavesQty o1)) (sb_orders (sw_broker race_end)) = [(''B'', Fin 10)]"
  by code_simp

text \<open>The second order's report came in order, so both sides agree on it.\<close>

lemma venue_agrees_witness:
  "working_at (engine_of ''sim'' race_end) ''sim'' ''B'' = resting_at (sw_broker race_end) ''B'' \<and>
   filter (touches ''sim'' ''B'') (sw_log race_end) \<noteq> []"
proof
  have "filter (touches ''sim'' ''B'') (sw_log race_end) = filter (touches ''sim'' ''B'') (sw_history race_end)"
    unfolding race_log race_history by code_simp
  then show "working_at (engine_of ''sim'' race_end) ''sim'' ''B'' = resting_at (sw_broker race_end) ''B''"
    unfolding race_end_def by (rule venue_agrees)
  show "filter (touches ''sim'' ''B'') (sw_log race_end) \<noteq> []" unfolding race_log by code_simp
qed

text \<open>The first order's did not: everything is sent and read, the broker has dropped the order, and the
  engine shows it working with six shares, because a partial fill that arrives after the cancel sets the
  status back to partially filled.\<close>

lemma cancel_overtakes_fill:
  "resting_at (sw_broker race_end) ''A'' = None \<and>
   map_option ov_leavesQty (working_at (engine_of ''sim'' race_end) ''sim'' ''A'') = Some (Fin 6)"
proof
  have "fst ` set (sb_orders (sw_broker race_end)) = {''B''}"
    using arg_cong[OF race_broker, of "\<lambda>xs. set (map fst xs)"] by (simp add: case_prod_unfold image_image)
  then show "resting_at (sw_broker race_end) ''A'' = None" by (auto simp: resting_at_def map_of_eq_None_iff)
  show "map_option ov_leavesQty (working_at (engine_of ''sim'' race_end) ''sim'' ''A'') = Some (Fin 6)"
    unfolding engine_of_def race_log by code_simp
qed

lemma race_all_read: "sw_read race_end = length (sw_report race_end)"
  by code_simp

end
