(* ===== verification/Eligibility.thy ===== *)
theory Eligibility
  imports Feed
begin

text \<open>
  \<open>internal/md/eligibility.go\<close>: which reported prints may move a bar's range, its last and
  its volume, decided by the report's condition, the session of its timestamp and, for the
  reports that may only open the day's last, by whether the day has a last already.
\<close>

section \<open>Definitions\<close>

datatype last_mode = lastNever | lastAlways | lastFirstBusinessDay | lastCutoff

record condition_policy =
  cp_rangeEligible :: bool
  cp_lastMode :: last_mode
  cp_volumeEligible :: bool
  cp_extendedOnly :: bool

definition no_policy :: condition_policy where
  "no_policy = \<lparr>cp_rangeEligible = False, cp_lastMode = lastNever, cp_volumeEligible = False,
     cp_extendedOnly = False\<rparr>"

definition conditionPolicyFor :: "trade_condition \<Rightarrow> condition_policy" where
  "conditionPolicyFor c =
     (if c \<in> {TradeConditionAutomaticMatch, TradeConditionIntermarketSweep, TradeConditionAuction,
              TradeConditionBunchedTrade, TradeConditionRule127Or155,
              TradeConditionMarketCenterOpening, TradeConditionReopeningPrice,
              TradeConditionClosingPrice}
      then no_policy\<lparr>cp_rangeEligible := True, cp_lastMode := lastAlways, cp_volumeEligible := True\<rparr>
      else if c \<in> {TradeConditionOddLot, TradeConditionOddLotIntermarketSweep,
              TradeConditionCashSale, TradeConditionPriceVariation,
              TradeConditionNextDaySettlement, TradeConditionSeller,
              TradeConditionContingent, TradeConditionAveragePrice}
      then no_policy\<lparr>cp_volumeEligible := True\<rparr>
      else if c \<in> {TradeConditionBunchedSold, TradeConditionPriorReferencePrice,
              TradeConditionOTCSold, TradeConditionDerivativelyPriced}
      then no_policy\<lparr>cp_rangeEligible := True, cp_lastMode := lastFirstBusinessDay,
              cp_volumeEligible := True\<rparr>
      else if c = TradeConditionDelayed
      then no_policy\<lparr>cp_rangeEligible := True, cp_lastMode := lastCutoff, cp_volumeEligible := True\<rparr>
      else if c = TradeConditionCorrectedComprehensiveLatePrice
      then no_policy\<lparr>cp_rangeEligible := True, cp_lastMode := lastAlways\<rparr>
      else if c \<in> {TradeConditionLate, TradeConditionFormT, TradeConditionExtendedHours}
      then no_policy\<lparr>cp_rangeEligible := True, cp_lastMode := lastAlways, cp_volumeEligible := True,
              cp_extendedOnly := True\<rparr>
      else no_policy)"

record eligibility_state =
  el_day :: int
  el_lastSeenToday :: bool

definition eligibility0 :: eligibility_state where
  "eligibility0 = \<lparr>el_day = 0, el_lastSeenToday = False\<rparr>"

definition isExtendedSession :: "tz \<Rightarrow> int \<Rightarrow> bool" where
  "isExtendedSession off tsMs \<longleftrightarrow> PhaseAt off tsMs \<in> {PreMarket, PostMarket, Overnight}"

definition beforeLastSaleCutoff :: "tz \<Rightarrow> int \<Rightarrow> bool" where
  "beforeLastSaleCutoff off tsMs =
     (let s = Schedule off tsMs in ds_tradingDay s \<and> \<not> ds_close s + 90 * 1000 < tsMs)"

definition last_switch :: "tz \<Rightarrow> bool \<Rightarrow> condition_policy \<Rightarrow> bool \<Rightarrow> tick \<Rightarrow> bool" where
  "last_switch off seen p priceAllowed t =
     (case cp_lastMode p of
        lastAlways \<Rightarrow> priceAllowed \<and> 0 < tk_Price t
      | lastFirstBusinessDay \<Rightarrow> \<not> seen \<and> IsTradingDay off (tk_TsMs t) \<and> 0 < tk_Price t
      | lastCutoff \<Rightarrow> 0 < tk_Price t \<and> beforeLastSaleCutoff off (tk_TsMs t)
      | lastNever \<Rightarrow> False)"

definition stamp :: "tz \<Rightarrow> eligibility_state \<Rightarrow> tick \<Rightarrow> eligibility_state \<times> tick" where
  "stamp off s t =
     (let day = DayMs off (tk_TsMs t);
          s = (if day \<noteq> el_day s then s\<lparr>el_day := day, el_lastSeenToday := False\<rparr> else s);
          p = conditionPolicyFor (tk_Condition t);
          extended = isExtendedSession off (tk_TsMs t);
          priceAllowed = (\<not> cp_extendedOnly p \<or> extended);
          last = last_switch off (el_lastSeenToday s) p priceAllowed t;
          t = t\<lparr>tk_RangeEligible := cp_rangeEligible p \<and> priceAllowed \<and> 0 < tk_Price t,
                tk_VolumeEligible := cp_volumeEligible p, tk_LastEligible := last\<rparr>
      in (if last then s\<lparr>el_lastSeenToday := True\<rparr> else s, t))"

text \<open>The loop of \<open>Core.stampEligibility\<close> over one symbol's batch.\<close>

fun stamp_all :: "tz \<Rightarrow> eligibility_state \<Rightarrow> tick list \<Rightarrow> eligibility_state \<times> tick list" where
  "stamp_all off s [] = (s, [])"
| "stamp_all off s (t # ts) =
     (let (s, t') = stamp off s t; (s, ts') = stamp_all off s ts in (s, t' # ts'))"


section \<open>The stamp as a function of the prints before it\<close>

text \<open>The flags a report gets when the only thing known of the past is whether the day has an
  eligible last.\<close>

definition stamped :: "tz \<Rightarrow> bool \<Rightarrow> tick \<Rightarrow> tick" where
  "stamped off seen t = snd (stamp off \<lparr>el_day = DayMs off (tk_TsMs t), el_lastSeenToday = seen\<rparr> t)"

lemma stamp_keeps [simp]:
  "tk_TsMs (snd (stamp off s t)) = tk_TsMs t" "tk_Price (snd (stamp off s t)) = tk_Price t"
  "tk_Symbol (snd (stamp off s t)) = tk_Symbol t" "tk_Seq (snd (stamp off s t)) = tk_Seq t"
  "tk_Volume (snd (stamp off s t)) = tk_Volume t" "tk_Dir (snd (stamp off s t)) = tk_Dir t"
  by (simp_all add: stamp_def Let_def)

lemma stamp_state:
  "fst (stamp off s t) = \<lparr>el_day = DayMs off (tk_TsMs t), el_lastSeenToday =
     (el_day s = DayMs off (tk_TsMs t) \<and> el_lastSeenToday s \<or> tk_LastEligible (snd (stamp off s t)))\<rparr>"
  by (cases s) (simp add: stamp_def Let_def)

lemma stamp_stamped:
  "snd (stamp off s t) = stamped off (el_day s = DayMs off (tk_TsMs t) \<and> el_lastSeenToday s) t"
  by (cases s) (simp add: stamp_def stamped_def Let_def)

lemma policy_last_range:
  "cp_lastMode (conditionPolicyFor c) \<noteq> lastNever \<Longrightarrow> cp_rangeEligible (conditionPolicyFor c)"
  "cp_lastMode (conditionPolicyFor c) \<noteq> lastAlways \<Longrightarrow> \<not> cp_extendedOnly (conditionPolicyFor c)"
  by (cases c; simp add: conditionPolicyFor_def no_policy_def)+

lemma stamp_flags:
  "tk_LastEligible (snd (stamp off s t)) \<Longrightarrow> tk_RangeEligible (snd (stamp off s t))"
  "tk_RangeEligible (snd (stamp off s t)) \<Longrightarrow> 0 < tk_Price (snd (stamp off s t))"
  using policy_last_range[of "tk_Condition t"]
  by (cases "cp_lastMode (conditionPolicyFor (tk_Condition t))"; auto simp: stamp_def Let_def last_switch_def)+

lemma stamp_all_append:
  "stamp_all off s (xs @ ys) =
     (let (s1, us) = stamp_all off s xs; (s2, vs) = stamp_all off s1 ys in (s2, us @ vs))"
  by (induction xs arbitrary: s) (simp_all add: Let_def split_beta)

lemma stamp_all_length [simp]: "length (snd (stamp_all off s ts)) = length ts"
  by (induction ts arbitrary: s) (simp_all add: Let_def split_beta)

lemma stamp_all_flags:
  "u \<in> set (snd (stamp_all off s ts)) \<Longrightarrow>
     (tk_LastEligible u \<longrightarrow> tk_RangeEligible u) \<and> (tk_RangeEligible u \<longrightarrow> 0 < tk_Price u)"
  by (induction ts arbitrary: s) (auto simp: Let_def split_beta dest: stamp_flags)

lemma stamp_all_ts: "map tk_TsMs (snd (stamp_all off s ts)) = map tk_TsMs ts"
  by (induction ts arbitrary: s) (simp_all add: Let_def split_beta)

text \<open>After prints whose days never go back, the state says of the next print's day whether it
  has an eligible last.\<close>

lemma seen_last:
  assumes "sorted (map (\<lambda>t. DayMs off (tk_TsMs t)) (xs @ [t]))"
  shows "el_day (fst (stamp_all off eligibility0 xs)) = DayMs off (tk_TsMs t) \<and>
      el_lastSeenToday (fst (stamp_all off eligibility0 xs)) \<longleftrightarrow>
    (\<exists>u \<in> set (snd (stamp_all off eligibility0 xs)).
      DayMs off (tk_TsMs u) = DayMs off (tk_TsMs t) \<and> tk_LastEligible u)"
  using assms
proof (induction xs arbitrary: t rule: rev_induct)
  case Nil
  then show ?case by (simp add: eligibility0_def)
next
  case (snoc x xs)
  define day where "day = (\<lambda>t :: tick. DayMs off (tk_TsMs t))"
  obtain s us where su: "stamp_all off eligibility0 xs = (s, us)" by fastforce
  obtain s' u where st: "stamp off s x = (s', u)" by fastforce
  have run: "stamp_all off eligibility0 (xs @ [x]) = (s', us @ [u])"
    by (simp add: stamp_all_append su st)
  have dayu: "day u = day x" using stamp_keeps(1)[of off s x] st by (simp add: day_def)
  have s': "el_day s' = day x" "el_lastSeenToday s' \<longleftrightarrow> el_day s = day x \<and> el_lastSeenToday s \<or> tk_LastEligible u"
    using stamp_state[of off s x] st by (simp_all add: day_def)
  have IH: "el_day s = day x \<and> el_lastSeenToday s \<longleftrightarrow> (\<exists>v \<in> set us. day v = day x \<and> tk_LastEligible v)"
    using snoc.IH[of x] snoc.prems su by (simp add: sorted_append day_def)
  have "map tk_TsMs us = map tk_TsMs xs" using stamp_all_ts[of off eligibility0 xs] su by simp
  then have "tk_TsMs ` set us = tk_TsMs ` set xs" by (metis list.set_map)
  moreover have "\<forall>v \<in> set xs. day v \<le> day x" "day x \<le> day t"
    using snoc.prems by (auto simp: sorted_append day_def)
  ultimately have le: "\<forall>v \<in> set us. day v \<le> day x" unfolding day_def by (metis (mono_tags, lifting) image_iff)
  show ?case unfolding run using s' IH dayu le \<open>day x \<le> day t\<close> by (auto simp: day_def)
qed

text \<open>C29. Over prints whose days never go back the stateful eligibility stamp equals the stateless rule: a print's flags are those of its condition, session and price, with the day's earlier eligible last as the only memory.\<close>

theorem stamp_reference:
  assumes "sorted (map (\<lambda>t. DayMs off (tk_TsMs t)) ts)"
    and "us = snd (stamp_all off eligibility0 ts)" and "i < length ts"
  shows "us ! i = stamped off
    (\<exists>u \<in> set (take i us). DayMs off (tk_TsMs u) = DayMs off (tk_TsMs (ts ! i)) \<and> tk_LastEligible u) (ts ! i)"
proof -
  obtain s vs where sv: "stamp_all off eligibility0 (take i ts) = (s, vs)" by fastforce
  have ts: "ts = take i ts @ ts ! i # drop (Suc i) ts" using assms(3) by (simp add: id_take_nth_drop)
  have len: "length vs = i" using stamp_all_length[of off eligibility0 "take i ts"] sv assms(3) by (simp del: stamp_all_length)
  have us: "us = vs @ snd (stamp off s (ts ! i)) # snd (stamp_all off (fst (stamp off s (ts ! i))) (drop (Suc i) ts))"
    unfolding assms(2) by (subst ts) (simp add: stamp_all_append sv Let_def split_beta)
  then have nth: "us ! i = snd (stamp off s (ts ! i))" and tk: "take i us = vs"
    using len by (simp_all add: nth_append)
  have "sorted (map (\<lambda>t. DayMs off (tk_TsMs t)) (take i ts @ [ts ! i]))"
    using assms(1,3) by (metis sorted_wrt_take take_Suc_conv_app_nth take_map)
  then show ?thesis unfolding nth tk stamp_stamped using seen_last[of off "take i ts" "ts ! i"] sv by simp
qed

text \<open>Two ``sold'' reports and a regular print: the first sold report opens the day's last, the
  second may not move it.\<close>

definition sold_report :: tick where
  "sold_report = tick0\<lparr>tk_Symbol := ''AAPL'', tk_TsMs := 1720015200000, tk_Price := whole 5,
     tk_Condition := TradeConditionBunchedSold\<rparr>"

lemma stamp_reference_witness:
  "\<not> tk_LastEligible (snd (stamp_all ny2024 eligibility0 [sold_report, sold_report]) ! 1)"
proof -
  let ?us = "snd (stamp_all ny2024 eligibility0 [sold_report, sold_report])"
  have "?us ! 1 = stamped ny2024
     (\<exists>u \<in> set (take 1 ?us). DayMs ny2024 (tk_TsMs u) =
        DayMs ny2024 (tk_TsMs ([sold_report, sold_report] ! 1)) \<and> tk_LastEligible u)
     ([sold_report, sold_report] ! 1)"
    by (rule stamp_reference) simp_all
  also have "\<dots> = stamped ny2024 True sold_report"
    using july3_trading
    by (simp add: sold_report_def Let_def split_beta stamp_def last_switch_def conditionPolicyFor_def no_policy_def
        eligibility0_def zero_f64_def tick0_def)
  finally show ?thesis
    by (simp add: stamped_def stamp_def last_switch_def Let_def sold_report_def conditionPolicyFor_def no_policy_def)
qed

end
