(* ===== verification/Tape.thy ===== *)
theory Tape
  imports Eligibility
begin

text \<open>
  The tape of the md core: the fixed-capacity ring of \<open>internal/md/tape.go\<close> and the
  high-water de-duplication of \<open>Core.dedupTicks\<close> (\<open>internal/md/core.go\<close>), which joins a
  seeded history with the live stream that overlaps it.
\<close>

section \<open>The ring\<close>

record ring =
  rg_buf :: "tick list"
  rg_head :: nat
  rg_n :: nat

definition newRing :: "nat \<Rightarrow> ring" where
  "newRing capacity = \<lparr>rg_buf = replicate capacity tick0, rg_head = 0, rg_n = 0\<rparr>"

text \<open>\<open>None\<close> is Go's run-time panic: an index or a modulus of the empty buffer.\<close>

definition ring_append :: "tick \<Rightarrow> ring \<Rightarrow> ring option" where
  "ring_append t r =
     (if rg_head r < length (rg_buf r)
      then Some \<lparr>rg_buf = (rg_buf r)[rg_head r := t],
                 rg_head = (rg_head r + 1) mod length (rg_buf r),
                 rg_n = (if rg_n r < length (rg_buf r) then rg_n r + 1 else rg_n r)\<rparr>
      else None)"

definition ring_snapshot :: "ring \<Rightarrow> tick list option" where
  "ring_snapshot r =
     (if rg_buf r = [] then None
      else let start = nat ((int (rg_head r) - int (rg_n r) + int (length (rg_buf r))) smod int (length (rg_buf r)))
           in Some (map (\<lambda>i. rg_buf r ! ((start + i) mod length (rg_buf r))) [0..<rg_n r]))"

fun ring_appends :: "tick list \<Rightarrow> ring \<Rightarrow> ring option" where
  "ring_appends [] r = Some r"
| "ring_appends (t # ts) r = Option.bind (ring_append t r) (ring_appends ts)"

text \<open>The abstract tape: a queue that forgets its oldest prints beyond the capacity.\<close>

definition keep_last :: "nat \<Rightarrow> 'a list \<Rightarrow> 'a list" where
  "keep_last c xs = drop (length xs - c) xs"

definition ring_ok :: "ring \<Rightarrow> tick list \<Rightarrow> bool" where
  "ring_ok r q \<longleftrightarrow> 0 < length (rg_buf r) \<and> rg_head r < length (rg_buf r) \<and>
     rg_n r = length q \<and> length q \<le> length (rg_buf r) \<and>
     (\<forall>i < length q. q ! i = rg_buf r ! ((rg_head r + length (rg_buf r) - length q + i) mod length (rg_buf r)))"

lemma smod_pos: "0 \<le> a \<Longrightarrow> 0 < b \<Longrightarrow> a smod b = a mod b" for a b :: int
  by (simp add: signed_modulo_int_def sgn_if)

lemma ring_ok_snapshot: "ring_ok r q \<Longrightarrow> ring_snapshot r = Some q"
proof -
  assume ok: "ring_ok r q"
  let ?c = "length (rg_buf r)"
  have e: "int (rg_head r) - int (rg_n r) + int ?c = int (rg_head r + ?c - length q)"
    using ok by (simp add: ring_ok_def of_nat_diff)
  have "0 < ?c" using ok by (simp add: ring_ok_def)
  then have start: "nat ((int (rg_head r) - int (rg_n r) + int ?c) smod int ?c) = (rg_head r + ?c - length q) mod ?c"
    unfolding e by (subst smod_pos) (simp_all only: of_nat_0_le_iff of_nat_0_less_iff nat_int flip: zmod_int)
  have "map (\<lambda>i. rg_buf r ! (((rg_head r + ?c - length q) mod ?c + i) mod ?c)) [0..<length q] = q"
    using ok by (intro nth_equalityI) (auto simp: ring_ok_def mod_add_left_eq)
  then show ?thesis using ok start by (auto simp: ring_snapshot_def ring_ok_def Let_def)
qed

lemma ring_ok_new: "0 < c \<Longrightarrow> ring_ok (newRing c) []"
  by (simp add: ring_ok_def newRing_def)

lemma ring_ok_append:
  assumes "ring_ok r q"
  shows "\<exists>r'. ring_append t r = Some r' \<and> length (rg_buf r') = length (rg_buf r) \<and>
    ring_ok r' (keep_last (length (rg_buf r)) (q @ [t]))"
proof -
  define c where "c = length (rg_buf r)"
  define h where "h = rg_head r"
  have c: "0 < c" "h < c" "rg_n r = length q" "length q \<le> c"
    and q: "\<And>i. i < length q \<Longrightarrow> q ! i = rg_buf r ! ((h + c - length q + i) mod c)"
    using assms by (auto simp: ring_ok_def c_def h_def)
  define r' where "r' = \<lparr>rg_buf = (rg_buf r)[h := t], rg_head = (h + 1) mod c,
      rg_n = (if rg_n r < c then rg_n r + 1 else rg_n r)\<rparr>"
  define q' where "q' = keep_last c (q @ [t])"
  have len: "length q' = (if length q < c then length q + 1 else c)" using c by (simp add: q'_def keep_last_def)
  have hd: "(h + 1) mod c = (if h + 1 = c then 0 else h + 1)" using c by simp
  have le: "length q' \<le> c" using len c by simp
  have place: "((h + 1) mod c + c - length q' + i) mod c = (h + 1 + c - length q' + i) mod c" for i
  proof (cases "h + 1 = c")
    case True
    then have "h + 1 + c - length q' + i = (c - length q' + i) + c" using le by simp
    then have "(h + 1 + c - length q' + i) mod c = (c - length q' + i) mod c" by (simp only: mod_add_self2)
    then show ?thesis using hd True by (simp only: add_0 if_True refl simp_thms)
  next
    case False
    then have "(h + 1) mod c = h + 1" using hd by simp
    then show ?thesis by (simp only:)
  qed
  have nth: "q' ! i = (rg_buf r)[h := t] ! ((h + 1 + c - length q' + i) mod c)" if i: "i < length q'" for i
  proof (cases "i + 1 = length q'")
    case True
    have "h + 1 + c - length q' + i = h + c" using True le by simp
    then have "(h + 1 + c - length q' + i) mod c = h" using c by simp
    moreover have "q' ! i = t" using True len c by (auto simp: q'_def keep_last_def nth_append split: if_splits)
    ultimately show ?thesis using c by (simp add: c_def)
  next
    case False
    define k where "k = length q + 1 - length q' + i"
    have k: "k < length q" "h + 1 + c - length q' + i = h + c - length q + k"
      using False i len c by (auto simp: k_def split: if_splits)
    have "q' ! i = q ! k" using False i len k(1) c by (auto simp: q'_def keep_last_def nth_append k_def split: if_splits)
    moreover have "(h + c - length q + k) mod c \<noteq> h"
    proof
      assume "(h + c - length q + k) mod c = h"
      moreover have "h + c - length q + k = h + (c - length q + k)" using c by simp
      ultimately have "(h + (c - length q + k)) mod c = (h + 0) mod c" using c by simp
      then have "c dvd c - length q + k" using c by (metis add_0_right mod_eq_dvd_iff_nat le_add1 diff_add_inverse)
      moreover have "0 < c - length q + k" "c - length q + k < c" using k c i False len by (auto simp: k_def split: if_splits)
      ultimately show False by (simp add: nat_dvd_not_less)
    qed
    ultimately show ?thesis using q[OF k(1)] k(2) by simp
  qed
  have "ring_append t r = Some r'" using c by (simp add: ring_append_def r'_def c_def h_def)
  moreover have "ring_ok r' q'"
    using c len nth place by (auto simp: ring_ok_def r'_def c_def[symmetric])
  ultimately show ?thesis by (auto simp: r'_def q'_def c_def)
qed

lemma keep_last_snoc: "keep_last c (keep_last c xs @ [x]) = keep_last c (xs @ [x])"
  by (cases "length xs \<le> c") (auto simp: keep_last_def Suc_diff_le)

lemma ring_ok_appends:
  "ring_ok r (keep_last (length (rg_buf r)) xs) \<Longrightarrow>
   \<exists>r'. ring_appends ts r = Some r' \<and> ring_ok r' (keep_last (length (rg_buf r)) (xs @ ts))"
proof (induction ts arbitrary: r xs)
  case (Cons t ts)
  obtain r1 where r1: "ring_append t r = Some r1" "length (rg_buf r1) = length (rg_buf r)"
    "ring_ok r1 (keep_last (length (rg_buf r)) (xs @ [t]))"
    using ring_ok_append[OF Cons.prems, of t] by (auto simp: keep_last_snoc)
  then show ?case using Cons.IH[of r1 "xs @ [t]"] by simp
qed simp

theorem tape_is_last_prints:
  assumes "0 < c"
  shows "Option.bind (ring_appends ts (newRing c)) ring_snapshot = Some (drop (length ts - c) ts)"
proof -
  obtain r where r: "ring_appends ts (newRing c) = Some r" "ring_ok r (keep_last c ts)"
    using ring_ok_appends[of "newRing c" "[]" ts] ring_ok_new[OF assms] by (auto simp: newRing_def keep_last_def)
  show ?thesis using r(1) ring_ok_snapshot[OF r(2)] by (simp add: keep_last_def)
qed

lemma tape_is_last_prints_witness:
  "Option.bind (ring_appends [tick0, sold_report, tick0, sold_report] (newRing 3)) ring_snapshot =
     Some [sold_report, tick0, sold_report]"
  using tape_is_last_prints[of 3 "[tick0, sold_report, tick0, sold_report]"] by (simp add: eval_nat_numeral)

section \<open>De-duplication\<close>

record dedup_state =
  dd_lastSeq :: "(string, int) gomap"
  dd_lastDay :: "(string, int) gomap"

definition dedup0 :: dedup_state where
  "dedup0 = \<lparr>dd_lastSeq = [], dd_lastDay = []\<rparr>"

text \<open>One round of the loop: the new high-water marks and whether the print is kept.\<close>

definition dedup_step :: "tz \<Rightarrow> dedup_state \<Rightarrow> tick \<Rightarrow> dedup_state \<times> bool" where
  "dedup_step off s t =
     (let day = DayMs off (tk_TsMs t);
          s = (if day \<noteq> mget0 0 (dd_lastDay s) (tk_Symbol t)
               then s\<lparr>dd_lastDay := mput (tk_Symbol t) day (dd_lastDay s),
                      dd_lastSeq := mput (tk_Symbol t) 0 (dd_lastSeq s)\<rparr> else s)
      in if tk_Seq t \<noteq> 0 \<and> tk_Seq t \<le> mget0 0 (dd_lastSeq s) (tk_Symbol t) then (s, False)
         else (s\<lparr>dd_lastSeq := mput (tk_Symbol t) (tk_Seq t) (dd_lastSeq s)\<rparr>, True))"

fun dedupTicks :: "tz \<Rightarrow> dedup_state \<Rightarrow> tick list \<Rightarrow> dedup_state \<times> tick list" where
  "dedupTicks off s [] = (s, [])"
| "dedupTicks off s (t # ts) =
     (let (s, keep) = dedup_step off s t; (s, accepted) = dedupTicks off s ts
      in (s, if keep then t # accepted else accepted))"

text \<open>Batches arrive one after the other: the seed, pushes, the cache after a reconnect.\<close>

fun dedup_batches :: "tz \<Rightarrow> dedup_state \<Rightarrow> tick list list \<Rightarrow> tick list" where
  "dedup_batches off s [] = []"
| "dedup_batches off s (b # bs) =
     (let (s, accepted) = dedupTicks off s b in accepted @ dedup_batches off s bs)"

text \<open>The prints numbered \<open>i\<close> to \<open>j\<close> of the day's tape, and batches that each start no later
  than where the ones before them ended.\<close>

definition slice :: "nat \<Rightarrow> nat \<Rightarrow> 'a list \<Rightarrow> 'a list" where
  "slice i j xs = drop i (take j xs)"

fun overlapping :: "nat \<Rightarrow> (nat \<times> nat) list \<Rightarrow> bool" where
  "overlapping n [] \<longleftrightarrow> True"
| "overlapping n ((i, j) # segs) \<longleftrightarrow> i \<le> n \<and> overlapping (max n j) segs"

definition day_tape :: "tz \<Rightarrow> tick list \<Rightarrow> bool" where
  "day_tape off xs \<longleftrightarrow> sorted_wrt (\<lambda>t u. tk_Seq t < tk_Seq u) xs \<and>
     (\<forall>t \<in> set xs. 0 < tk_Seq t \<and> tk_Symbol t = tk_Symbol (hd xs) \<and>
        DayMs off (tk_TsMs t) = DayMs off (tk_TsMs (hd xs)))"

text \<open>The mark that counts for a symbol on a day.\<close>

definition high_water :: "dedup_state \<Rightarrow> string \<Rightarrow> int \<Rightarrow> int" where
  "high_water s sb day =
     (if mget0 0 (dd_lastDay s) sb = day then mget0 0 (dd_lastSeq s) sb else 0)"

lemma dedup_step_mark:
  assumes "0 < tk_Seq t" "tk_Symbol t = sb" "DayMs off (tk_TsMs t) = day"
  shows "snd (dedup_step off s t) \<longleftrightarrow> high_water s sb day < tk_Seq t"
    and "high_water (fst (dedup_step off s t)) sb day = max (high_water s sb day) (tk_Seq t)"
  using assms by (auto simp: dedup_step_def high_water_def Let_def)

lemma dedup_ascending:
  assumes "sorted_wrt (\<lambda>t u. tk_Seq t < tk_Seq u) ts"
    and "\<forall>t \<in> set ts. 0 < tk_Seq t \<and> tk_Symbol t = sb \<and> DayMs off (tk_TsMs t) = day"
  shows "snd (dedupTicks off s ts) = filter (\<lambda>t. high_water s sb day < tk_Seq t) ts"
    and "high_water (fst (dedupTicks off s ts)) sb day = foldl max (high_water s sb day) (map tk_Seq ts)"
proof (use assms in \<open>induction ts arbitrary: s\<close>)
  case (Cons t ts)
  { case 1
    have "\<forall>u \<in> set ts. max (high_water s sb day) (tk_Seq t) < tk_Seq u \<longleftrightarrow> high_water s sb day < tk_Seq u"
      using 1 by auto
    then show ?case using Cons.IH(1)[of "fst (dedup_step off s t)"] 1 dedup_step_mark[of t sb off day s]
      by (auto simp: Let_def split_beta intro: filter_cong) }
  { case 2
    then show ?case using Cons.IH(2)[of "fst (dedup_step off s t)"] dedup_step_mark[of t sb off day s]
      by (auto simp: Let_def split_beta) }
qed simp_all

lemma foldl_max_asc:
  "sorted_wrt (\<lambda>t u. tk_Seq t < tk_Seq u) ts \<Longrightarrow>
   foldl max m (map tk_Seq ts) = (if ts = [] then m else max m (tk_Seq (last ts)))"
proof (induction ts rule: rev_induct)
  case (snoc t ts)
  have "ts \<noteq> [] \<Longrightarrow> tk_Seq (last ts) < tk_Seq t" using snoc.prems by (simp add: sorted_wrt_append)
  then show ?case using snoc by (cases "ts = []") (simp_all add: sorted_wrt_append max.assoc max.absorb2 less_imp_le)
qed simp

lemma filter_suffix: "(\<And>k. k < length xs \<Longrightarrow> P (xs ! k) \<longleftrightarrow> n \<le> k) \<Longrightarrow> filter P xs = drop n xs"
proof (induction xs arbitrary: n)
  case (Cons x xs)
  have "filter P xs = drop (n - 1) xs"
  proof (rule Cons.IH)
    show "P (xs ! k) \<longleftrightarrow> n - 1 \<le> k" if "k < length xs" for k using Cons.prems[of "Suc k"] that by auto
  qed
  then show ?case using Cons.prems[of 0] by (cases n) auto
qed simp

text \<open>The mark after the first \<open>n\<close> prints of the tape, and what it lets through.\<close>

definition mark_at :: "nat \<Rightarrow> tick list \<Rightarrow> int" where
  "mark_at n xs = (if n = 0 then 0 else tk_Seq (xs ! (n - 1)))"

lemma day_tape_nth:
  assumes "day_tape off xs" "k < length xs" "n \<le> length xs"
  shows "mark_at n xs < tk_Seq (xs ! k) \<longleftrightarrow> n \<le> k"
proof -
  have lt: "tk_Seq (xs ! i) < tk_Seq (xs ! j)" if "i < j" "j < length xs" for i j
    using sorted_wrt_nth_less[where P = "\<lambda>t u. tk_Seq t < tk_Seq u"] assms(1) that by (auto simp: day_tape_def)
  have "0 < tk_Seq (xs ! k)" using assms(1,2) by (simp add: day_tape_def)
  then show ?thesis
  proof (cases "n = 0")
    case False
    have "n - 1 < length xs" using False assms(3) by simp
    then have "tk_Seq (xs ! (n - 1)) < tk_Seq (xs ! k) \<longleftrightarrow> n - 1 < k"
      using lt[of "n - 1" k] lt[of k "n - 1"] assms(2) by (cases "n - 1" k rule: linorder_cases) auto
    then show ?thesis using False by (auto simp: mark_at_def)
  qed (simp add: mark_at_def)
qed

lemma mark_mono: "day_tape off xs \<Longrightarrow> m \<le> n \<Longrightarrow> n \<le> length xs \<Longrightarrow> mark_at m xs \<le> mark_at n xs"
proof (cases "m = n")
  case False
  assume a: "day_tape off xs" "m \<le> n" "n \<le> length xs"
  then have "mark_at m xs < tk_Seq (xs ! (n - 1)) \<longleftrightarrow> m \<le> n - 1" using False by (intro day_tape_nth) auto
  moreover have "m \<le> n - 1" "mark_at n xs = tk_Seq (xs ! (n - 1))" using a(2) False by (auto simp: mark_at_def)
  ultimately show ?thesis by simp
qed simp

lemma slice_filter:
  assumes "day_tape off xs" "i \<le> n" "n \<le> length xs" "j \<le> length xs"
  shows "filter (\<lambda>t. mark_at n xs < tk_Seq t) (slice i j xs) = slice n j xs"
proof -
  have "filter (\<lambda>t. mark_at n xs < tk_Seq t) (slice i j xs) = drop (n - i) (slice i j xs)"
    using day_tape_nth[OF assms(1) _ assms(3)] assms(2,4) by (intro filter_suffix) (auto simp: slice_def)
  then show ?thesis using assms(2) by (simp add: slice_def)
qed

lemma day_tape_slice:
  assumes "day_tape off xs"
  shows "sorted_wrt (\<lambda>t u. tk_Seq t < tk_Seq u) (slice i j xs)"
    and "\<forall>t \<in> set (slice i j xs). 0 < tk_Seq t \<and> tk_Symbol t = tk_Symbol (hd xs) \<and>
      DayMs off (tk_TsMs t) = DayMs off (tk_TsMs (hd xs))"
  using assms by (auto simp: day_tape_def slice_def dest: in_set_dropD in_set_takeD)

lemma mark_slice:
  assumes "day_tape off xs" "i \<le> n" "n \<le> length xs" "j \<le> length xs"
  shows "foldl max (mark_at n xs) (map tk_Seq (slice i j xs)) = mark_at (max n j) xs"
proof (cases "i < j")
  case True
  have "last (slice i j xs) = xs ! (j - 1)" "slice i j xs \<noteq> []"
    using True assms(4) by (simp_all add: slice_def last_conv_nth)
  moreover have "tk_Seq (xs ! (j - 1)) = mark_at j xs" using True by (simp add: mark_at_def)
  ultimately have "foldl max (mark_at n xs) (map tk_Seq (slice i j xs)) = max (mark_at n xs) (mark_at j xs)"
    using foldl_max_asc[OF day_tape_slice(1)[OF assms(1)], of "mark_at n xs" i j] by simp
  then show ?thesis using mark_mono[OF assms(1), of n j] mark_mono[OF assms(1), of j n] assms(3,4)
    by (cases "n \<le> j") (simp_all add: max_def)
next
  case False
  then have "slice i j xs = []" "max n j = n" using assms(2) by (simp_all add: slice_def)
  then show ?thesis by simp
qed

lemma join_from:
  assumes "day_tape off xs" "overlapping n segs" "n \<le> length xs" "\<forall>(i, j) \<in> set segs. j \<le> length xs"
    and "high_water s (tk_Symbol (hd xs)) (DayMs off (tk_TsMs (hd xs))) = mark_at n xs"
  shows "dedup_batches off s (map (\<lambda>(i, j). slice i j xs) segs) = slice n (foldl max n (map snd segs)) xs"
  using assms(2-)
proof (induction segs arbitrary: n s)
  case Nil
  then show ?case by (simp add: slice_def)
next
  case (Cons seg segs)
  obtain i j where seg: "seg = (i, j)" by fastforce
  have ij: "i \<le> n" "j \<le> length xs" using Cons.prems seg by auto
  let ?b = "slice i j xs"
  note run = dedup_ascending[OF day_tape_slice[OF assms(1), of i j], where s = s]
  have acc: "snd (dedupTicks off s ?b) = slice n j xs"
    using run(1) Cons.prems(4) slice_filter[OF assms(1) ij(1) Cons.prems(2) ij(2)] by simp
  have mark: "high_water (fst (dedupTicks off s ?b)) (tk_Symbol (hd xs)) (DayMs off (tk_TsMs (hd xs))) =
      mark_at (max n j) xs"
    using run(2) Cons.prems(4) mark_slice[OF assms(1) ij(1) Cons.prems(2) ij(2)] by simp
  have IH: "dedup_batches off (fst (dedupTicks off s ?b)) (map (\<lambda>(i, j). slice i j xs) segs) =
      slice (max n j) (foldl max (max n j) (map snd segs)) xs"
    using Cons.IH[OF _ _ _ mark] Cons.prems ij seg by auto
  have ge: "m \<le> foldl max m ks" for m and ks :: "nat list"
    by (induction ks arbitrary: m) (auto intro: order_trans[OF max.cobounded1])
  have join: "slice n j xs @ slice (max n j) m xs = slice n m xs" if "max n j \<le> m" for m
  proof (cases "j \<le> n")
    case False
    then have "slice n m xs = drop n (take j (take m xs) @ drop j (take m xs))" by (simp only: append_take_drop_id slice_def)
    also have "\<dots> = drop n (take j (take m xs)) @ drop j (take m xs)" using False that ij by simp
    finally show ?thesis using False that by (simp add: slice_def max_def min_def)
  qed (simp add: slice_def max_def)
  show ?case using IH acc join[OF ge] seg by (simp add: Let_def split_def)
qed

text \<open>C30. De-duplication joins overlapping deliveries of a day's tape: whatever batches arrive, each starting no later than where the earlier ones ended, the accepted prints are exactly the covered prefix of the tape, in order, each once.\<close>

theorem seed_live_join:
  assumes "day_tape off xs" "overlapping 0 segs" "\<forall>(i, j) \<in> set segs. j \<le> length xs"
  shows "dedup_batches off dedup0 (map (\<lambda>(i, j). slice i j xs) segs) = take (foldl max 0 (map snd segs)) xs"
  using join_from[OF assms(1,2) _ assms(3), of dedup0]
  by (simp add: high_water_def dedup0_def mark_at_def slice_def)

definition print_no :: "int \<Rightarrow> tick" where
  "print_no k = sold_report\<lparr>tk_Seq := k\<rparr>"

lemma seed_live_join_witness:
  "dedup_batches ny2024 dedup0 [[print_no 1, print_no 2], [print_no 2, print_no 5], [print_no 1], [print_no 5, print_no 9]] =
     [print_no 1, print_no 2, print_no 5, print_no 9]"
  using seed_live_join[of ny2024 "[print_no 1, print_no 2, print_no 5, print_no 9]" "[(0, 2), (1, 3), (0, 1), (2, 4)]"]
  by (simp add: day_tape_def print_no_def slice_def eval_nat_numeral)

end
