(* ===== verification/TickAgg.thy ===== *)
theory TickAgg
  imports Tape
begin

text \<open>
  \<open>internal/md/tickagg.go\<close>: bars of one timeframe out of a stamped print stream. Buckets
  are keyed by the exchange timestamp and close on evidence of a later bucket; range, last
  and volume are kept apart until a bar is materialized.

  The evidence the recorder would journal (\<open>record\<close>, \<open>recordSource\<close>, the seed and anchor
  provenance and \<open>basisDirty\<close>) never decides anything and is left out: the model is the
  aggregator without a recorder.
\<close>

section \<open>Definitions\<close>

record tick_bucket =
  tb_symbol :: string
  tb_tf :: timeframe
  tb_bucketMs :: int
  tb_gap :: bool
  tb_hasAnchor :: bool
  tb_anchor :: f64
  tb_hasRange :: bool
  tb_rangeHigh :: f64
  tb_rangeLow :: f64
  tb_hasLast :: bool
  tb_firstLast :: f64
  tb_last :: f64
  tb_v :: int
  tb_buyV :: int
  tb_sellV :: int
  tb_ticks :: int

record tick_agg =
  ta_symbol :: string
  ta_tf :: timeframe
  ta_open :: "(int, tick_bucket) gomap"
  ta_finalizedAfter :: int
  ta_late :: nat
  ta_trustedClose :: f64
  ta_hasTrusted :: bool
  ta_trustedCloseTs :: int

definition newTickAgg :: "string \<Rightarrow> timeframe \<Rightarrow> tick_agg" where
  "newTickAgg symbol tf = \<lparr>ta_symbol = symbol, ta_tf = tf, ta_open = [], ta_finalizedAfter = - 1,
     ta_late = 0, ta_trustedClose = 0, ta_hasTrusted = False, ta_trustedCloseTs = 0\<rparr>"

definition anchor_bucket :: "f64 \<Rightarrow> tick_bucket \<Rightarrow> tick_bucket" where
  "anchor_bucket price b =
     (if \<not> tb_hasAnchor b then b\<lparr>tb_anchor := price, tb_hasAnchor := True\<rparr> else b)"

definition seedAnchorAt :: "f64 \<Rightarrow> f64 \<Rightarrow> int \<Rightarrow> tick_agg \<Rightarrow> tick_agg" where
  "seedAnchorAt price fallback tsMs a =
     (let price = (if price \<le> 0 then fallback else price) in
      if price \<le> 0 then a
      else if ta_hasTrusted a \<and> 0 < ta_trustedCloseTs a \<and> (tsMs = 0 \<or> tsMs < ta_trustedCloseTs a) then a
      else a\<lparr>ta_trustedClose := price, ta_hasTrusted := True,
             ta_trustedCloseTs := (if 0 < tsMs then tsMs else ta_trustedCloseTs a),
             ta_open := map (\<lambda>(k, b). (k, anchor_bucket price b)) (ta_open a)\<rparr>)"

definition seedAnchor :: "f64 \<Rightarrow> f64 \<Rightarrow> tick_agg \<Rightarrow> tick_agg" where
  "seedAnchor price fallback a = seedAnchorAt price fallback 0 a"

definition bucket_bar :: "tick_bucket \<Rightarrow> bool \<Rightarrow> bar option" where
  "bucket_bar b inProgress =
     (if \<not> tb_hasLast b \<and> \<not> tb_hasAnchor b then None
      else let anchor = tb_anchor b;
               (p, h, l, c) = (if tb_hasLast b then (tb_firstLast b, tb_firstLast b, tb_firstLast b, tb_last b)
                               else (anchor, anchor, anchor, anchor));
               h = (if tb_hasRange b \<and> h < tb_rangeHigh b then tb_rangeHigh b else h);
               l = (if tb_hasRange b \<and> tb_rangeLow b < l then tb_rangeLow b else l);
               h = (if tb_hasAnchor b \<and> \<not> tb_hasLast b \<and> h < anchor then anchor else h);
               l = (if tb_hasAnchor b \<and> \<not> tb_hasLast b \<and> anchor < l then anchor else l)
           in Some \<lparr>b_Symbol = tb_symbol b, b_TF = tb_tf b, b_BucketMs = tb_bucketMs b,
                b_O = p, b_H = h, b_L = l, b_C = c,
                b_V = tb_v b, b_BuyV = tb_buyV b, b_SellV = tb_sellV b, b_Ticks = tb_ticks b,
                b_InProgress = inProgress, b_Gap = tb_gap b,
                b_VolumeOnly = (0 < tb_ticks b \<and> \<not> tb_hasRange b \<and> \<not> tb_hasLast b)\<rparr>)"

definition openBar :: "tick_agg \<Rightarrow> int \<Rightarrow> bar option" where
  "openBar a bucketMs = Option.bind (mget (ta_open a) bucketMs) (\<lambda>b. bucket_bar b True)"

text \<open>The loop that closes the older buckets, oldest first; it stops at a bucket that has no
  price to show.\<close>

fun close_older :: "int list \<Rightarrow> tick_agg \<Rightarrow> tick_agg \<times> bar list" where
  "close_older [] a = (a, [])"
| "close_older (k # ks) a =
     (case Option.bind (mget (ta_open a) k) (\<lambda>b. bucket_bar b False) of
        None \<Rightarrow> (a, [])
      | Some fin \<Rightarrow>
          let (a, out) = close_older ks
                (a\<lparr>ta_open := mdel k (ta_open a),
                   ta_finalizedAfter := (if ta_finalizedAfter a < k then k else ta_finalizedAfter a)\<rparr>)
          in (a, fin # out))"

definition new_bucket :: "tick_agg \<Rightarrow> int \<Rightarrow> bool \<Rightarrow> tick_bucket" where
  "new_bucket a bucket gapFlag = \<lparr>tb_symbol = ta_symbol a, tb_tf = ta_tf a, tb_bucketMs = bucket,
     tb_gap = gapFlag, tb_hasAnchor = ta_hasTrusted a, tb_anchor = ta_trustedClose a,
     tb_hasRange = False, tb_rangeHigh = 0, tb_rangeLow = 0,
     tb_hasLast = False, tb_firstLast = 0, tb_last = 0, tb_v = 0, tb_buyV = 0, tb_sellV = 0, tb_ticks = 0\<rparr>"

definition range_tick :: "tick \<Rightarrow> tick_bucket \<Rightarrow> tick_bucket" where
  "range_tick t b =
     (if \<not> tk_RangeEligible t then b
      else if \<not> tb_hasRange b
      then b\<lparr>tb_rangeHigh := tk_Price t, tb_rangeLow := tk_Price t, tb_hasRange := True\<rparr>
      else b\<lparr>tb_rangeHigh := (if tb_rangeHigh b < tk_Price t then tk_Price t else tb_rangeHigh b),
             tb_rangeLow := (if tk_Price t < tb_rangeLow b then tk_Price t else tb_rangeLow b)\<rparr>)"

definition last_tick :: "tick \<Rightarrow> tick_bucket \<Rightarrow> tick_bucket" where
  "last_tick t b =
     (if \<not> tk_LastEligible t then b
      else (if tb_hasLast b then b else b\<lparr>tb_firstLast := tk_Price t, tb_hasLast := True\<rparr>)
             \<lparr>tb_last := tk_Price t\<rparr>)"

definition volume_tick :: "tick \<Rightarrow> tick_bucket \<Rightarrow> tick_bucket" where
  "volume_tick t b =
     (if \<not> tk_VolumeEligible t then b
      else b\<lparr>tb_v := tb_v b + tk_Volume t, tb_ticks := tb_ticks b + 1,
             tb_buyV := (if tk_Dir t = Buy then tb_buyV b + tk_Volume t else tb_buyV b),
             tb_sellV := (if tk_Dir t = Sell then tb_sellV b + tk_Volume t else tb_sellV b)\<rparr>)"

definition trust_tick :: "tick \<Rightarrow> tick_agg \<Rightarrow> tick_agg" where
  "trust_tick t a =
     (if \<not> tk_LastEligible t then a
      else a\<lparr>ta_trustedClose := tk_Price t, ta_hasTrusted := True,
             ta_trustedCloseTs := (if 0 < tk_TsMs t then tk_TsMs t else ta_trustedCloseTs a)\<rparr>)"

definition addTick :: "tz \<Rightarrow> tick \<Rightarrow> bool \<Rightarrow> tick_agg \<Rightarrow> tick_agg \<times> bar list" where
  "addTick off t gapFlag a =
     (let bucket = BucketStartMs off (tk_TsMs t) (ta_tf a) in
      if 0 \<le> ta_finalizedAfter a \<and> bucket \<le> ta_finalizedAfter a then (a\<lparr>ta_late := ta_late a + 1\<rparr>, [])
      else let (a, out) = (if mhas (ta_open a) bucket then (a, [])
                           else close_older (sort (filter (\<lambda>k. k < bucket) (map fst (ta_open a)))) a)
           in if \<not> tk_RangeEligible t \<and> \<not> tk_LastEligible t \<and> \<not> tk_VolumeEligible t then (a, out)
              else let b = (case mget (ta_open a) bucket of None \<Rightarrow> new_bucket a bucket gapFlag | Some b \<Rightarrow> b);
                       b = volume_tick t (last_tick t (range_tick t b));
                       a = (trust_tick t a)\<lparr>ta_open := mput bucket b (ta_open a)\<rparr>
                   in (a, out @ (case bucket_bar b True of None \<Rightarrow> [] | Some s \<Rightarrow> [s])))"

text \<open>A run: prints one by one, each with the gap flag of its moment.\<close>

fun addTicks :: "tz \<Rightarrow> (tick \<times> bool) list \<Rightarrow> tick_agg \<Rightarrow> tick_agg \<times> bar list" where
  "addTicks off [] a = (a, [])"
| "addTicks off ((t, g) # ts) a =
     (let (a, out) = addTick off t g a; (a, rest) = addTicks off ts a in (a, out @ rest))"

section \<open>What a bucket and an aggregator keep\<close>

text \<open>The prints the eligibility stamp lets through (\<open>stamp_flags\<close>), after 1970.\<close>

definition good_tick :: "tz \<Rightarrow> timeframe \<Rightarrow> tick \<Rightarrow> bool" where
  "good_tick off tf t \<longleftrightarrow> 0 \<le> BucketStartMs off (tk_TsMs t) tf \<and>
     (tk_LastEligible t \<longrightarrow> tk_RangeEligible t) \<and> (tk_RangeEligible t \<longrightarrow> 0 < tk_Price t)"

definition bucket_ok :: "tick_bucket \<Rightarrow> bool" where
  "bucket_ok b \<longleftrightarrow>
     (tb_hasRange b \<longrightarrow> tb_rangeLow b \<le> tb_rangeHigh b) \<and>
     (tb_hasLast b \<longrightarrow> tb_hasRange b \<and>
        tb_rangeLow b \<le> tb_firstLast b \<and> tb_firstLast b \<le> tb_rangeHigh b \<and>
        tb_rangeLow b \<le> tb_last b \<and> tb_last b \<le> tb_rangeHigh b) \<and>
     (tb_hasAnchor b \<longrightarrow> tb_anchor b \<noteq> NaN)"

definition agg_ok :: "tick_agg \<Rightarrow> bool" where
  "agg_ok a \<longleftrightarrow> keys_distinct (ta_open a) \<and> - 1 \<le> ta_finalizedAfter a \<and>
     (ta_hasTrusted a \<longrightarrow> ta_trustedClose a \<noteq> NaN) \<and>
     (\<forall>(k, b) \<in> set (ta_open a). bucket_ok b \<and> tb_bucketMs b = k \<and> ta_finalizedAfter a < k)"

lemma agg_ok_get:
  "agg_ok a \<Longrightarrow> mget (ta_open a) k = Some b \<Longrightarrow> bucket_ok b \<and> tb_bucketMs b = k \<and> ta_finalizedAfter a < k"
  by (auto simp: agg_ok_def dest: mget_in_set)

lemma agg_okI:
  assumes "keys_distinct (ta_open a)" "- 1 \<le> ta_finalizedAfter a"
    and "ta_hasTrusted a \<Longrightarrow> ta_trustedClose a \<noteq> NaN"
    and "\<And>k b. mget (ta_open a) k = Some b \<Longrightarrow> bucket_ok b \<and> tb_bucketMs b = k \<and> ta_finalizedAfter a < k"
  shows "agg_ok a"
  using assms by (auto simp: agg_ok_def in_set_mget)

lemma pos_not_nan: "0 < x \<Longrightarrow> x \<noteq> NaN" for x :: f64
  by (cases x) auto

lemma le_not_nan: "x \<le> y \<Longrightarrow> x \<noteq> NaN \<and> y \<noteq> NaN" for x y :: f64
  by (cases x; cases y) auto

lemma clamp_range: "x \<le> y \<Longrightarrow> (if x < y then y else x) = y" "x \<le> y \<Longrightarrow> (if x < y then x else y) = x" for x y :: f64
  by (cases x; cases y; auto)+

text \<open>A bucket that is in order shows a bar that is in shape.\<close>

lemma bucket_bar_shape:
  assumes "bucket_ok b" "bucket_bar b p = Some r"
  shows "bar_shape r \<and> b_BucketMs r = tb_bucketMs b \<and> b_InProgress r = p"
proof (cases "tb_hasLast b")
  case True
  then show ?thesis using assms by (auto simp: bucket_ok_def bucket_bar_def bar_shape_def Let_def clamp_range)
next
  case False
  then have "tb_anchor b \<noteq> NaN" using assms by (auto simp: bucket_ok_def bucket_bar_def split: if_splits)
  then show ?thesis using False assms
    by (auto simp: bucket_ok_def bucket_bar_def bar_shape_def Let_def f64_less_imp_le f64_le_refl split: if_splits)
qed

lemma price_into_range:
  assumes "bucket_ok b" "tk_RangeEligible t" "0 < tk_Price t"
  shows "bucket_ok (range_tick t b)" "tb_hasRange (range_tick t b)"
    "tb_rangeLow (range_tick t b) \<le> tk_Price t" "tk_Price t \<le> tb_rangeHigh (range_tick t b)"
proof -
  note nn = pos_not_nan[OF assms(3)]
  have le: "tb_hasRange b \<Longrightarrow> \<not> tb_rangeHigh b < tk_Price t \<Longrightarrow> tk_Price t \<le> tb_rangeHigh b"
    "tb_hasRange b \<Longrightarrow> \<not> tk_Price t < tb_rangeLow b \<Longrightarrow> tb_rangeLow b \<le> tk_Price t"
    using assms(1) nn f64_not_less by (auto simp: bucket_ok_def dest!: le_not_nan)
  show "tb_hasRange (range_tick t b)" using assms(2) by (simp add: range_tick_def)
  show lo: "tb_rangeLow (range_tick t b) \<le> tk_Price t" and hi: "tk_Price t \<le> tb_rangeHigh (range_tick t b)"
    using assms(2) le nn by (auto simp: range_tick_def f64_le_refl)
  have wide: "tb_hasRange b \<Longrightarrow> tb_rangeLow (range_tick t b) \<le> tb_rangeLow b"
    "tb_hasRange b \<Longrightarrow> tb_rangeHigh b \<le> tb_rangeHigh (range_tick t b)"
    using assms(1,2) by (auto simp: range_tick_def bucket_ok_def f64_less_imp_le f64_le_refl dest: le_not_nan)
  have dn: "tb_hasRange b \<Longrightarrow> tb_rangeLow b \<le> x \<Longrightarrow> tb_rangeLow (range_tick t b) \<le> x" for x
    by (rule f64_le_trans[OF wide(1)])
  have up: "tb_hasRange b \<Longrightarrow> x \<le> tb_rangeHigh b \<Longrightarrow> x \<le> tb_rangeHigh (range_tick t b)" for x
    by (rule f64_le_trans[OF _ wide(2)])
  have keep: "tb_hasLast (range_tick t b) = tb_hasLast b" "tb_firstLast (range_tick t b) = tb_firstLast b"
    "tb_last (range_tick t b) = tb_last b" "tb_hasAnchor (range_tick t b) = tb_hasAnchor b"
    "tb_anchor (range_tick t b) = tb_anchor b"
    by (simp_all add: range_tick_def)
  show "bucket_ok (range_tick t b)"
    using assms(1) f64_le_trans[OF lo hi] \<open>tb_hasRange (range_tick t b)\<close>
    by (auto simp: bucket_ok_def keep intro: dn up)
qed

lemma bucket_ok_tick:
  assumes "bucket_ok b" "tk_LastEligible t \<longrightarrow> tk_RangeEligible t" "tk_RangeEligible t \<longrightarrow> 0 < tk_Price t"
  shows "bucket_ok (volume_tick t (last_tick t (range_tick t b)))"
    and "tb_bucketMs (volume_tick t (last_tick t (range_tick t b))) = tb_bucketMs b"
proof -
  have r: "bucket_ok (range_tick t b)" using assms price_into_range(1) by (cases "tk_RangeEligible t") (auto simp: range_tick_def)
  have "bucket_ok (last_tick t (range_tick t b))"
    using r assms price_into_range(2-4)[OF assms(1), of t] by (auto simp: last_tick_def bucket_ok_def)
  then show "bucket_ok (volume_tick t (last_tick t (range_tick t b)))" by (simp add: volume_tick_def bucket_ok_def)
  show "tb_bucketMs (volume_tick t (last_tick t (range_tick t b))) = tb_bucketMs b"
    by (simp add: volume_tick_def last_tick_def range_tick_def)
qed

section \<open>Finalized buckets stay closed\<close>

text \<open>What every step promises: the watermark only rises, each bar is in shape and newer than
  the old watermark, a final bar is covered by the new one, and after a final bar only newer
  buckets follow.\<close>

definition bar_order :: "bar \<Rightarrow> bar \<Rightarrow> bool" where
  "bar_order r s \<longleftrightarrow> b_InProgress r \<or> b_BucketMs r < b_BucketMs s"

definition emits :: "tick_agg \<Rightarrow> tick_agg \<Rightarrow> bar list \<Rightarrow> bool" where
  "emits a a' out \<longleftrightarrow> agg_ok a' \<and> ta_finalizedAfter a \<le> ta_finalizedAfter a' \<and> ta_tf a' = ta_tf a \<and>
     (\<forall>r \<in> set out. bar_shape r \<and> ta_finalizedAfter a < b_BucketMs r \<and>
        (\<not> b_InProgress r \<longrightarrow> b_BucketMs r \<le> ta_finalizedAfter a')) \<and>
     sorted_wrt bar_order out"

lemma emits_refl: "agg_ok a \<Longrightarrow> emits a a []"
  by (simp add: emits_def)

lemma emits_trans: "emits a b xs \<Longrightarrow> emits b c ys \<Longrightarrow> emits a c (xs @ ys)"
  by (fastforce simp: emits_def sorted_wrt_append bar_order_def)

lemma emits_cons:
  assumes "emits b c ys" "emits a b [x]"
  shows "emits a c (x # ys)"
  using emits_trans[OF assms(2,1)] by simp

lemma close_one:
  assumes "agg_ok a" "mget (ta_open a) k = Some b" "bucket_bar b False = Some fin"
    and "\<And>k' b'. mget (ta_open a) k' = Some b' \<Longrightarrow> k \<le> k'"
  shows "emits a (a\<lparr>ta_open := mdel k (ta_open a), ta_finalizedAfter := k\<rparr>) [fin]"
    and "ta_finalizedAfter a < k"
proof -
  have b: "bucket_ok b" "tb_bucketMs b = k" "ta_finalizedAfter a < k" using agg_ok_get[OF assms(1,2)] by auto
  note fin = bucket_bar_shape[OF b(1) assms(3)]
  have "agg_ok (a\<lparr>ta_open := mdel k (ta_open a), ta_finalizedAfter := k\<rparr>)"
  proof (rule agg_okI)
    fix k' b'
    assume "mget (ta_open (a\<lparr>ta_open := mdel k (ta_open a), ta_finalizedAfter := k\<rparr>)) k' = Some b'"
    then have "k' \<noteq> k" "mget (ta_open a) k' = Some b'" by (auto split: if_splits)
    then show "bucket_ok b' \<and> tb_bucketMs b' = k' \<and>
        ta_finalizedAfter (a\<lparr>ta_open := mdel k (ta_open a), ta_finalizedAfter := k\<rparr>) < k'"
      using agg_ok_get[OF assms(1), of k' b'] assms(4)[of k' b'] by simp
  qed (use assms(1) b in \<open>auto simp: agg_ok_def\<close>)
  then show "emits a (a\<lparr>ta_open := mdel k (ta_open a), ta_finalizedAfter := k\<rparr>) [fin]"
    using b fin by (simp add: emits_def)
  show "ta_finalizedAfter a < k" by (rule b(3))
qed

lemma close_older_emits:
  assumes "agg_ok a" "sorted_wrt (<) ks" "set ks = {k \<in> dom (mget (ta_open a)). k < B}"
    and "ta_finalizedAfter a < B"
  shows "emits a (fst (close_older ks a)) (snd (close_older ks a)) \<and>
    ta_finalizedAfter (fst (close_older ks a)) < B \<and>
    (\<forall>k. B \<le> k \<longrightarrow> mget (ta_open (fst (close_older ks a))) k = mget (ta_open a) k) \<and>
    ta_hasTrusted (fst (close_older ks a)) = ta_hasTrusted a \<and>
    ta_trustedClose (fst (close_older ks a)) = ta_trustedClose a"
  using assms
proof (induction ks arbitrary: a)
  case Nil
  then show ?case by (simp add: emits_refl)
next
  case (Cons k ks)
  obtain b where b: "mget (ta_open a) k = Some b" and kB: "k < B" using Cons.prems(3) by auto
  show ?case
  proof (cases "bucket_bar b False")
    case None
    then show ?thesis using b Cons.prems by (simp add: emits_refl)
  next
    case (Some fin)
    define a1 where "a1 = a\<lparr>ta_open := mdel k (ta_open a), ta_finalizedAfter := k\<rparr>"
    have least: "k \<le> k'" if "mget (ta_open a) k' = Some b'" for k' b'
    proof (cases "k' < B")
      case True
      then have "k' \<in> set (k # ks)" using that Cons.prems(3) by auto
      then show ?thesis using Cons.prems(2) by auto
    qed (use kB in simp)
    note one = close_one[OF Cons.prems(1) b Some least]
    have "{k' \<in> dom (mget (ta_open a1)). k' < B} = {k' \<in> dom (mget (ta_open a)). k' < B} - {k}"
      by (auto simp: a1_def split: if_splits)
    also have "\<dots> = set ks" using Cons.prems(2,3) by auto
    finally have ks: "set ks = {k' \<in> dom (mget (ta_open a1)). k' < B}" by simp
    have IH: "emits a1 (fst (close_older ks a1)) (snd (close_older ks a1)) \<and>
        ta_finalizedAfter (fst (close_older ks a1)) < B \<and>
        (\<forall>k. B \<le> k \<longrightarrow> mget (ta_open (fst (close_older ks a1))) k = mget (ta_open a1) k) \<and>
        ta_hasTrusted (fst (close_older ks a1)) = ta_hasTrusted a1 \<and>
        ta_trustedClose (fst (close_older ks a1)) = ta_trustedClose a1"
      using one(1) ks Cons.prems(2) kB by (intro Cons.IH) (auto simp: emits_def a1_def)
    have run: "close_older (k # ks) a = (fst (close_older ks a1), fin # snd (close_older ks a1))"
      using b Some one(2) by (simp add: a1_def Let_def split_beta)
    show ?thesis unfolding run using IH emits_cons[OF _ one(1)[folded a1_def]] kB by (simp add: a1_def)
  qed
qed

lemma addTick_put:
  assumes "agg_ok a" "good_tick off (ta_tf a) t" "bucket = BucketStartMs off (tk_TsMs t) (ta_tf a)"
    and "ta_finalizedAfter a < bucket"
    and "b = (case mget (ta_open a) bucket of None \<Rightarrow> new_bucket a bucket g | Some b \<Rightarrow> b)"
    and "b' = volume_tick t (last_tick t (range_tick t b))"
  shows "emits a ((trust_tick t a)\<lparr>ta_open := mput bucket b' (ta_open a)\<rparr>)
    (case bucket_bar b' True of None \<Rightarrow> [] | Some s \<Rightarrow> [s])"
proof -
  have t: "tk_LastEligible t \<longrightarrow> tk_RangeEligible t" "tk_RangeEligible t \<longrightarrow> 0 < tk_Price t"
    using assms(2) by (auto simp: good_tick_def)
  have "bucket_ok b \<and> tb_bucketMs b = bucket"
  proof (cases "mget (ta_open a) bucket")
    case None
    then show ?thesis using assms(1,5) by (simp add: new_bucket_def bucket_ok_def agg_ok_def)
  next
    case (Some c)
    then show ?thesis using agg_ok_get[OF assms(1) Some] assms(5) by simp
  qed
  then have b': "bucket_ok b'" "tb_bucketMs b' = bucket" using bucket_ok_tick[of b t] t assms(6) by auto
  have "agg_ok ((trust_tick t a)\<lparr>ta_open := mput bucket b' (ta_open a)\<rparr>)"
  proof (rule agg_okI)
    fix k c
    assume "mget (ta_open ((trust_tick t a)\<lparr>ta_open := mput bucket b' (ta_open a)\<rparr>)) k = Some c"
    then show "bucket_ok c \<and> tb_bucketMs c = k \<and>
        ta_finalizedAfter ((trust_tick t a)\<lparr>ta_open := mput bucket b' (ta_open a)\<rparr>) < k"
      using agg_ok_get[OF assms(1), of k c] b' assms(4) by (auto simp: trust_tick_def split: if_splits)
  qed (use assms(1) t pos_not_nan[of "tk_Price t"] in \<open>auto simp: agg_ok_def trust_tick_def\<close>)
  then show ?thesis using b' bucket_bar_shape[OF b'(1), of True] assms(4)
    by (auto simp: emits_def trust_tick_def split: option.split)
qed

lemma addTick_emits:
  assumes "agg_ok a" "good_tick off (ta_tf a) t"
  shows "emits a (fst (addTick off t g a)) (snd (addTick off t g a))"
proof -
  define bucket where "bucket = BucketStartMs off (tk_TsMs t) (ta_tf a)"
  show ?thesis
  proof (cases "0 \<le> ta_finalizedAfter a \<and> bucket \<le> ta_finalizedAfter a")
    case True
    then show ?thesis using assms(1) by (auto simp: addTick_def Let_def bucket_def emits_def agg_ok_def)
  next
    case False
    then have fresh: "ta_finalizedAfter a < bucket"
      using assms by (auto simp: bucket_def good_tick_def agg_ok_def)
    define c where "c = (if mhas (ta_open a) bucket then (a, [])
      else close_older (sort (filter (\<lambda>k. k < bucket) (map fst (ta_open a)))) a)"
    have c: "emits a (fst c) (snd c) \<and> ta_finalizedAfter (fst c) < bucket"
    proof (cases "mhas (ta_open a) bucket")
      case False
      have "sorted_wrt (<) (sort (filter (\<lambda>k. k < bucket) (map fst (ta_open a))))"
        using assms(1) by (simp add: strict_sorted_iff agg_ok_def distinct_filter)
      moreover have "set (sort (filter (\<lambda>k. k < bucket) (map fst (ta_open a)))) =
          {k \<in> dom (mget (ta_open a)). k < bucket}" by (auto simp: dom_map_of_conv_image_fst)
      ultimately show ?thesis using close_older_emits[OF assms(1)] fresh False by (simp add: c_def)
    qed (use assms(1) fresh emits_refl in \<open>simp add: c_def\<close>)
    then have c1: "agg_ok (fst c)" "ta_tf (fst c) = ta_tf a" by (simp_all add: emits_def)
    show ?thesis
    proof (cases "\<not> tk_RangeEligible t \<and> \<not> tk_LastEligible t \<and> \<not> tk_VolumeEligible t")
      case True
      then have "addTick off t g a = c"
        using False by (auto simp: addTick_def Let_def bucket_def[symmetric] c_def[symmetric] split_beta)
      then show ?thesis using c by simp
    next
      case el: False
      define b where "b = volume_tick t (last_tick t (range_tick t
        (case mget (ta_open (fst c)) bucket of None \<Rightarrow> new_bucket (fst c) bucket g | Some b \<Rightarrow> b)))"
      have "addTick off t g a = ((trust_tick t (fst c))\<lparr>ta_open := mput bucket b (ta_open (fst c))\<rparr>,
          snd c @ (case bucket_bar b True of None \<Rightarrow> [] | Some s \<Rightarrow> [s]))"
        using False el by (auto simp: addTick_def Let_def bucket_def[symmetric] c_def[symmetric] b_def split_beta)
      then show ?thesis
        using emits_trans[OF conjunct1[OF c] addTick_put[OF c1(1) _ _ _ refl b_def[unfolded b_def]]] assms(2) c c1(2)
        by (simp add: bucket_def b_def)
    qed
  qed
qed

text \<open>Everything that reaches an aggregator: prints, and trusted closes from quotes and history.\<close>

datatype agg_op = AggTick tick bool | AggSeed f64 f64 int

fun agg_step :: "tz \<Rightarrow> agg_op \<Rightarrow> tick_agg \<Rightarrow> tick_agg \<times> bar list" where
  "agg_step off (AggTick t g) a = addTick off t g a"
| "agg_step off (AggSeed price fallback tsMs) a = (seedAnchorAt price fallback tsMs a, [])"

fun agg_run :: "tz \<Rightarrow> agg_op list \<Rightarrow> tick_agg \<Rightarrow> tick_agg \<times> bar list" where
  "agg_run off [] a = (a, [])"
| "agg_run off (x # xs) a =
     (let (a, out) = agg_step off x a; (a, rest) = agg_run off xs a in (a, out @ rest))"

fun good_op :: "tz \<Rightarrow> timeframe \<Rightarrow> agg_op \<Rightarrow> bool" where
  "good_op off tf (AggTick t g) \<longleftrightarrow> good_tick off tf t"
| "good_op off tf (AggSeed price fallback tsMs) \<longleftrightarrow> price \<noteq> NaN \<and> fallback \<noteq> NaN"

lemma seed_emits:
  assumes "agg_ok a" "price \<noteq> NaN" "fallback \<noteq> NaN"
  shows "emits a (seedAnchorAt price fallback tsMs a) []"
proof -
  define p where "p = (if price \<le> 0 then fallback else price)"
  have p: "p \<noteq> NaN" using assms by (simp add: p_def)
  have "bucket_ok (anchor_bucket p b) \<and> tb_bucketMs (anchor_bucket p b) = tb_bucketMs b" if "bucket_ok b" for b
    using that p by (auto simp: anchor_bucket_def bucket_ok_def)
  moreover have "fst \<circ> (\<lambda>(k :: int, b). (k, anchor_bucket p b)) = fst" by auto
  ultimately have "agg_ok (a\<lparr>ta_trustedClose := p, ta_hasTrusted := True, ta_trustedCloseTs := u,
      ta_open := map (\<lambda>(k, b). (k, anchor_bucket p b)) (ta_open a)\<rparr>)" for u
    using assms(1) p by (auto simp: agg_ok_def case_prod_beta)
  then show ?thesis using assms(1) by (auto simp: emits_def seedAnchorAt_def Let_def p_def)
qed

lemma step_emits: "agg_ok a \<Longrightarrow> good_op off (ta_tf a) x \<Longrightarrow> emits a (fst (agg_step off x a)) (snd (agg_step off x a))"
  by (cases x) (simp_all add: addTick_emits seed_emits)

lemma run_emits:
  "agg_ok a \<Longrightarrow> \<forall>x \<in> set xs. good_op off (ta_tf a) x \<Longrightarrow> emits a (fst (agg_run off xs a)) (snd (agg_run off xs a))"
proof (induction xs arbitrary: a)
  case (Cons x xs)
  have one: "emits a (fst (agg_step off x a)) (snd (agg_step off x a))" using Cons.prems by (simp add: step_emits)
  then show ?case using emits_trans[OF one Cons.IH] Cons.prems(2) by (simp add: emits_def Let_def split_beta)
qed (simp add: emits_refl)

lemma agg_ok_new: "agg_ok (newTickAgg symbol tf)"
  by (simp add: agg_ok_def newTickAgg_def)

text \<open>C31. After the final bar of a bucket the aggregator emits only bars of later buckets, and the watermark covers it: no late print or seed reopens a finalized bucket.\<close>

theorem finalized_buckets_stay_closed:
  assumes "\<forall>x \<in> set xs. good_op off tf x"
    and "agg_run off xs (newTickAgg symbol tf) = (a, out)"
    and "i < j" "j < length out" "\<not> b_InProgress (out ! i)"
  shows "b_BucketMs (out ! i) < b_BucketMs (out ! j) \<and> b_BucketMs (out ! i) \<le> ta_finalizedAfter a"
proof -
  have "emits (newTickAgg symbol tf) a out"
    using run_emits[OF agg_ok_new, of xs off symbol tf] assms(1,2) by (simp add: newTickAgg_def)
  then show ?thesis using assms(3-5) sorted_wrt_nth_less[of bar_order out i j] by (auto simp: emits_def bar_order_def)
qed

text \<open>C32. Every bar the aggregator emits for prints the eligibility stamp has passed, whatever trusted closes are seeded in between, has its open and close inside its range, with no NaN.\<close>

theorem stamped_bars_in_shape:
  assumes "\<forall>x \<in> set xs. case x of
      AggTick t g \<Rightarrow> t \<in> set (snd (stamp_all off s ts)) \<and> 0 \<le> BucketStartMs off (tk_TsMs t) tf
    | AggSeed price fallback tsMs \<Rightarrow> price \<noteq> NaN \<and> fallback \<noteq> NaN"
    and "r \<in> set (snd (agg_run off xs (newTickAgg symbol tf)))"
  shows "b_L r \<le> b_O r \<and> b_O r \<le> b_H r \<and> b_L r \<le> b_C r \<and> b_C r \<le> b_H r"
proof -
  have "good_op off tf x" if "x \<in> set xs" for x
    using assms(1) that stamp_all_flags[of _ off s ts] by (cases x) (fastforce simp: good_tick_def)+
  then have "emits (newTickAgg symbol tf) (fst (agg_run off xs (newTickAgg symbol tf)))
      (snd (agg_run off xs (newTickAgg symbol tf)))"
    using run_emits[OF agg_ok_new, of xs off symbol tf] by (simp add: newTickAgg_def)
  then show ?thesis using assms(2) by (auto simp: emits_def bar_shape_def)
qed

section \<open>No share is lost\<close>

definition open_volume :: "tick_agg \<Rightarrow> int" where
  "open_volume a = sum_list (map (\<lambda>(k, b). tb_v b) (ta_open a))"

definition final_volume :: "bar list \<Rightarrow> int" where
  "final_volume out = sum_list (map b_V (filter (\<lambda>r. \<not> b_InProgress r) out))"

fun op_volume :: "agg_op \<Rightarrow> int" where
  "op_volume (AggTick t g) = (if tk_VolumeEligible t then tk_Volume t else 0)"
| "op_volume (AggSeed price fallback tsMs) = 0"

lemma sum_put:
  "keys_distinct m \<Longrightarrow> sum_list (map (\<lambda>(k, b). f b) (mput k w m)) =
     sum_list (map (\<lambda>(k, b). f b) m) - (case mget m k of None \<Rightarrow> 0 | Some v \<Rightarrow> f v) + (f w :: int)"
proof (cases "mget m k")
  case (Some v)
  assume "keys_distinct m"
  then obtain xs ys where "m = xs @ (k, v) # ys" "mput k w m = xs @ (k, w) # ys"
    using mput_split[OF _ Some] by metis
  then show ?thesis using Some by simp
qed (simp add: mput_absent)

lemma sum_del:
  "keys_distinct m \<Longrightarrow> mget m k = Some v \<Longrightarrow>
   sum_list (map (\<lambda>(k, b). f b) (mdel k m)) = sum_list (map (\<lambda>(k, b). f b) m) - (f v :: int)"
proof (induction m)
  case (Cons p m)
  show ?case
  proof (cases "fst p = k")
    case True
    then have "filter (\<lambda>q. k \<noteq> fst q) m = m" using Cons.prems(1) by (auto simp: filter_id_conv)
    then have "mdel k (p # m) = m" using True by (simp add: AList.delete_eq case_prod_unfold)
    then show ?thesis using True Cons.prems by (cases p) simp
  next
    case False
    then show ?thesis using Cons by (cases p) (simp add: AList.delete_eq)
  qed
qed simp

lemma bucket_bar_volume: "bucket_bar b p = Some r \<Longrightarrow> b_V r = tb_v b \<and> b_InProgress r = p"
  by (auto simp: bucket_bar_def Let_def split: if_splits)

lemma close_older_volume:
  "keys_distinct (ta_open a) \<Longrightarrow> keys_distinct (ta_open (fst (close_older ks a))) \<and>
   open_volume (fst (close_older ks a)) + final_volume (snd (close_older ks a)) = open_volume a \<and>
   ta_late (fst (close_older ks a)) = ta_late a"
proof (induction ks arbitrary: a)
  case (Cons k ks)
  show ?case
  proof (cases "Option.bind (mget (ta_open a) k) (\<lambda>b. bucket_bar b False)")
    case (Some fin)
    then obtain b where b: "mget (ta_open a) k = Some b" "bucket_bar b False = Some fin"
      by (auto simp: bind_eq_Some_conv)
    define a1 where "a1 = a\<lparr>ta_open := mdel k (ta_open a),
      ta_finalizedAfter := (if ta_finalizedAfter a < k then k else ta_finalizedAfter a)\<rparr>"
    have "open_volume a1 + b_V fin = open_volume a"
      using sum_del[OF Cons.prems b(1), of tb_v] bucket_bar_volume[OF b(2)] by (simp add: open_volume_def a1_def)
    then show ?thesis using Cons.IH[of a1] Cons.prems Some bucket_bar_volume[OF b(2)]
      by (simp add: Let_def split_beta a1_def[symmetric] final_volume_def) (simp add: a1_def)
  qed (use Cons.prems in \<open>simp add: final_volume_def\<close>)
qed (simp add: final_volume_def)

lemma tick_volume:
  "tb_v (volume_tick t (last_tick t (range_tick t b))) = tb_v b + (if tk_VolumeEligible t then tk_Volume t else 0)"
  by (simp add: volume_tick_def last_tick_def range_tick_def)

lemma final_volume_append [simp]: "final_volume (xs @ ys) = final_volume xs + final_volume ys"
  by (simp add: final_volume_def)

lemma addTick_volume:
  assumes "keys_distinct (ta_open a)"
  shows "keys_distinct (ta_open (fst (addTick off t g a))) \<and> ta_late a \<le> ta_late (fst (addTick off t g a)) \<and>
    (ta_late (fst (addTick off t g a)) = ta_late a \<longrightarrow>
       open_volume (fst (addTick off t g a)) + final_volume (snd (addTick off t g a)) =
       open_volume a + op_volume (AggTick t g))"
proof -
  define bucket where "bucket = BucketStartMs off (tk_TsMs t) (ta_tf a)"
  define c where "c = (if mhas (ta_open a) bucket then (a, [])
      else close_older (sort (filter (\<lambda>k. k < bucket) (map fst (ta_open a)))) a)"
  define b where "b = (case mget (ta_open (fst c)) bucket of None \<Rightarrow> new_bucket (fst c) bucket g | Some b \<Rightarrow> b)"
  define b' where "b' = volume_tick t (last_tick t (range_tick t b))"
  define a' where "a' = (trust_tick t (fst c))\<lparr>ta_open := mput bucket b' (ta_open (fst c))\<rparr>"
  define live where "live = (case bucket_bar b' True of None \<Rightarrow> [] | Some s \<Rightarrow> [s])"
  have c: "keys_distinct (ta_open (fst c))" "open_volume (fst c) + final_volume (snd c) = open_volume a"
    "ta_late (fst c) = ta_late a"
    using close_older_volume[OF assms] assms by (auto simp: c_def final_volume_def)
  have "(case mget (ta_open (fst c)) bucket of None \<Rightarrow> 0 | Some v \<Rightarrow> tb_v v) = tb_v b"
    by (simp add: b_def new_bucket_def split: option.split)
  then have put: "open_volume a' = open_volume (fst c) + (if tk_VolumeEligible t then tk_Volume t else 0)"
    using sum_put[OF c(1), of tb_v bucket b'] by (simp add: open_volume_def a'_def b'_def tick_volume)
  have live: "final_volume live = 0"
    using bucket_bar_volume[of b' True] by (auto simp: live_def final_volume_def split: option.split)
  have a': "keys_distinct (ta_open a')" "ta_late a' = ta_late a" using c by (simp_all add: a'_def trust_tick_def)
  consider (late) "0 \<le> ta_finalizedAfter a \<and> bucket \<le> ta_finalizedAfter a"
    | (none) "\<not> (0 \<le> ta_finalizedAfter a \<and> bucket \<le> ta_finalizedAfter a)"
        "\<not> tk_RangeEligible t \<and> \<not> tk_LastEligible t \<and> \<not> tk_VolumeEligible t"
    | (some) "\<not> (0 \<le> ta_finalizedAfter a \<and> bucket \<le> ta_finalizedAfter a)"
        "\<not> (\<not> tk_RangeEligible t \<and> \<not> tk_LastEligible t \<and> \<not> tk_VolumeEligible t)"
    by blast
  then show ?thesis
  proof cases
    case late
    then show ?thesis using assms by (auto simp: addTick_def Let_def bucket_def)
  next
    case none
    then have "addTick off t g a = c"
      by (auto simp: addTick_def Let_def bucket_def[symmetric] c_def[symmetric] split_beta)
    then show ?thesis using c none by simp
  next
    case some
    have "addTick off t g a = (a', snd c @ live)"
      unfolding addTick_def Let_def split_beta bucket_def[symmetric] c_def[symmetric] b_def[symmetric]
        b'_def[symmetric] a'_def[symmetric] live_def[symmetric] if_not_P[OF some(1)] if_not_P[OF some(2)] by (rule refl)
    then show ?thesis using c put live a' by simp
  qed
qed

lemma run_volume:
  "keys_distinct (ta_open a) \<Longrightarrow> ta_late a \<le> ta_late (fst (agg_run off xs a)) \<and>
   (ta_late (fst (agg_run off xs a)) = ta_late a \<longrightarrow>
      open_volume (fst (agg_run off xs a)) + final_volume (snd (agg_run off xs a)) =
      open_volume a + sum_list (map op_volume xs))"
proof (induction xs arbitrary: a)
  case (Cons x xs)
  have one: "keys_distinct (ta_open (fst (agg_step off x a))) \<and> ta_late a \<le> ta_late (fst (agg_step off x a)) \<and>
    (ta_late (fst (agg_step off x a)) = ta_late a \<longrightarrow>
       open_volume (fst (agg_step off x a)) + final_volume (snd (agg_step off x a)) = open_volume a + op_volume x)"
  proof (cases x)
    case (AggTick t g)
    then show ?thesis using addTick_volume[OF Cons.prems, of off t g] by simp
  next
    case (AggSeed price fallback tsMs)
    have anchored: "tb_v (anchor_bucket p b) = tb_v b" for p b by (simp add: anchor_bucket_def)
    show ?thesis using AggSeed Cons.prems
      by (auto simp: seedAnchorAt_def Let_def open_volume_def final_volume_def case_prod_unfold anchored comp_def)
  qed
  then show ?case using Cons.IH[of "fst (agg_step off x a)"] by (auto simp: Let_def split_beta)
qed (simp add: final_volume_def)

text \<open>C33. When no print was dropped as late, the volumes of the final bars and of the open buckets add up to the eligible volume of the prints.\<close>

theorem volume_conserved:
  assumes "agg_run off xs (newTickAgg symbol tf) = (a, out)" and "ta_late a = 0"
  shows "final_volume out + open_volume a = sum_list (map op_volume xs)"
  using run_volume[of "newTickAgg symbol tf" off xs] assms by (simp add: newTickAgg_def open_volume_def)

section \<open>Witnesses\<close>

text \<open>Three prints in two adjacent ten-second buckets: the second bucket closes the first.\<close>

definition print_at :: "int \<Rightarrow> int \<Rightarrow> tick" where
  "print_at ms p = tick0\<lparr>tk_Symbol := ''AAPL'', tk_TsMs := 1720015200000 + ms, tk_Price := whole p,
     tk_Volume := 100, tk_Condition := TradeConditionAutomaticMatch\<rparr>"

definition stamped_print :: "int \<Rightarrow> int \<Rightarrow> tick" where
  "stamped_print ms p = (print_at ms p)\<lparr>tk_RangeEligible := True, tk_LastEligible := True, tk_VolumeEligible := True\<rparr>"

definition sample_ops :: "agg_op list" where
  "sample_ops = [AggTick (stamped_print 0 5) False, AggTick (stamped_print 4000 7) False, AggTick (stamped_print 12000 6) False]"

definition sample_out :: "bar list" where
  "sample_out = snd (agg_run ny2024 sample_ops (newTickAgg ''AAPL'' TF10s))"

lemma sample_good: "\<forall>x \<in> set sample_ops. good_op ny2024 TF10s x"
  by code_simp

lemma sample_facts: "length sample_out = 4 \<and> \<not> b_InProgress (sample_out ! 2) \<and> b_H (sample_out ! 2) = whole 7"
  by code_simp

lemma finalized_buckets_stay_closed_witness:
  "b_BucketMs (sample_out ! 2) < b_BucketMs (sample_out ! 3)"
  using finalized_buckets_stay_closed[OF sample_good prod.collapse[symmetric], where symbol = "''AAPL''" and i = 2 and j = 3, folded sample_out_def]
    sample_facts by simp

lemma sample_stamped:
  "\<forall>x \<in> set sample_ops. case x of
      AggTick t g \<Rightarrow> t \<in> set (snd (stamp_all ny2024 eligibility0 [print_at 0 5, print_at 4000 7, print_at 12000 6])) \<and>
        0 \<le> BucketStartMs ny2024 (tk_TsMs t) TF10s
    | AggSeed price fallback tsMs \<Rightarrow> price \<noteq> NaN \<and> fallback \<noteq> NaN"
  by code_simp

lemma stamped_bars_in_shape_witness:
  "b_L (sample_out ! 2) \<le> b_O (sample_out ! 2) \<and> b_C (sample_out ! 2) \<le> b_H (sample_out ! 2)"
  using stamped_bars_in_shape[OF sample_stamped, of "sample_out ! 2" "''AAPL''"] sample_facts
    nth_mem[of 2 sample_out] by (simp add: sample_out_def)

lemma sample_late: "ta_late (fst (agg_run ny2024 sample_ops (newTickAgg ''AAPL'' TF10s))) = 0"
  by code_simp

lemma volume_conserved_witness:
  "final_volume sample_out + open_volume (fst (agg_run ny2024 sample_ops (newTickAgg ''AAPL'' TF10s))) = 300"
  using volume_conserved[OF prod.collapse[symmetric] sample_late]
  by (simp add: sample_out_def sample_ops_def stamped_print_def print_at_def)

end
