(* ===== verification/Bars.thy ===== *)
theory Bars
  imports TickAgg
begin

text \<open>
  \<open>internal/md/bars.go\<close>: every derived bar series of one symbol. The state is
  \<open>symbolBars\<close> together with the core's \<open>seeding\<close> flag and the stream of what leaves the
  engine: bar updates, snapshots, prepends, mismatches and the requests to rebuild
  indicators. The engine of all symbols is one such state per symbol; a batch carries one
  symbol, so an operation touches one of them. The recorder's evidence is left out, as in
  \<open>TickAgg\<close>. A mismatch is kept as the values it compares, not as their text.
\<close>

section \<open>Series\<close>

text \<open>\<open>sort.Search(n, f)\<close>: binary search for the first index at which \<open>f\<close> holds.\<close>

function sort_search :: "(nat \<Rightarrow> bool) \<Rightarrow> nat \<Rightarrow> nat \<Rightarrow> nat" where
  "sort_search f i j =
     (if i < j then let h = (i + j) div 2 in
        if \<not> f h then sort_search f (h + 1) j else sort_search f i h
      else i)"
  by pat_completeness auto

termination by (relation "measure (\<lambda>(f, i, j). j - i)") auto

declare sort_search.simps [simp del]

type_synonym series = "bar list"

definition idx :: "series \<Rightarrow> int \<Rightarrow> nat" where
  "idx s bucketMs = sort_search (\<lambda>i. bucketMs \<le> b_BucketMs (s ! i)) 0 (length s)"

definition series_get :: "series \<Rightarrow> int \<Rightarrow> bar option" where
  "series_get s bucketMs =
     (let i = idx s bucketMs in
      if i < length s \<and> b_BucketMs (s ! i) = bucketMs then Some (s ! i) else None)"

definition upsert :: "bar \<Rightarrow> series \<Rightarrow> series \<times> bool" where
  "upsert b s =
     (let i = idx s (b_BucketMs b) in
      if i < length s \<and> b_BucketMs (s ! i) = b_BucketMs b
      then (if bar_eq (s ! i) b then (s, False) else (s[i := b], True))
      else (take i s @ b # drop i s, True))"

definition series_last :: "series \<Rightarrow> bar option" where
  "series_last s = (if s = [] then None else Some (last s))"

definition maxBucket :: "series \<Rightarrow> int" where
  "maxBucket s = (case series_last s of Some b \<Rightarrow> b_BucketMs b | None \<Rightarrow> - 1)"

definition rangeBars :: "series \<Rightarrow> int \<Rightarrow> int \<Rightarrow> bar list" where
  "rangeBars s lo hi = drop (idx s lo) (take (idx s hi) s)"

definition finalized :: "series \<Rightarrow> bar list" where
  "finalized s = filter (\<lambda>b. \<not> b_InProgress b) s"

section \<open>The state of a symbol\<close>

definition cascadeTFs :: "timeframe list" where
  "cascadeTFs = [TF5m, TF15m, TF30m, TF60m]"

definition seedHist1mTFs :: "timeframe list" where
  "seedHist1mTFs = [TF1m, TF5m, TF15m, TF30m, TF60m, TFDay, TFWeek, TFMonth]"

definition seedDailyTFs :: "timeframe list" where
  "seedDailyTFs = [TFDay, TFWeek, TFMonth]"

definition seedOlder1mTFs :: "timeframe list" where
  "seedOlder1mTFs = [TF1m, TF5m, TF15m, TF30m, TF60m]"

definition seedTicksTFs :: "timeframe list" where
  "seedTicksTFs = [TF10s, TF1m, TF5m, TF15m, TF30m, TF60m]"

datatype mismatch = PriceDiffers string f64 f64 | VolumeDiffers int int

datatype bar_event =
    BarUpdate bar
  | BarSnapshot timeframe "bar list"
  | BarPrepend timeframe "bar list"
  | MismatchUpdate int "mismatch list"
  | ReseedSymbol
  | ReseedSymTF timeframe

record symbol_bars =
  sb_symbol :: string
  sb_agg10 :: tick_agg
  sb_shadow :: tick_agg
  sb_series :: "timeframe \<Rightarrow> series"
  sb_shadowFinals :: "(int, bar) gomap"
  sb_compared :: "(int, bool) gomap"
  sb_dailyOfficial :: "(int, bool) gomap"
  sb_gapPending :: bool
  sb_curDay :: int

record bars_state = symbol_bars +
  sb_seeding :: bool
  sb_out :: "bar_event list"
  sb_views :: "(timeframe \<Rightarrow> series) list"

definition newSymbolBars :: "string \<Rightarrow> bars_state" where
  "newSymbolBars symbol = \<lparr>sb_symbol = symbol, sb_agg10 = newTickAgg symbol TF10s,
     sb_shadow = newTickAgg symbol TF1m, sb_series = (\<lambda>_. []), sb_shadowFinals = [],
     sb_compared = [], sb_dailyOfficial = [], sb_gapPending = False, sb_curDay = 0,
     sb_seeding = False, sb_out = [], sb_views = []\<rparr>"

text \<open>With each emission goes a view: the series as they stand then, which an indicator called
  from \<open>barOut\<close> reads back through \<open>finalizedBars\<close>.\<close>

definition emit :: "bar_event \<Rightarrow> bars_state \<Rightarrow> bars_state" where
  "emit u s = s\<lparr>sb_out := sb_out s @ [u], sb_views := sb_views s @ [sb_series s]\<rparr>"

text \<open>\<open>Core.barOut\<close>: silent while a seed runs. The sink for finalized bars and the indicators
  consume exactly the bars emitted here, in this order.\<close>

definition barOut :: "bar \<Rightarrow> bars_state \<Rightarrow> bars_state" where
  "barOut b s = (if sb_seeding s then s else emit (BarUpdate b) s)"

definition set_series :: "timeframe \<Rightarrow> series \<Rightarrow> bars_state \<Rightarrow> bars_state" where
  "set_series tf xs s = s\<lparr>sb_series := (sb_series s)(tf := xs)\<rparr>"

text \<open>\<open>if series.upsert(b) { c.barOut(b) }\<close>, and whether it changed anything.\<close>

definition put_bar :: "timeframe \<Rightarrow> bar \<Rightarrow> bars_state \<Rightarrow> bars_state \<times> bool" where
  "put_bar tf b s =
     (let (xs, changed) = upsert b (sb_series s tf);
          s = set_series tf xs s
      in (if changed then barOut b s else s, changed))"

definition markGaps :: "bars_state \<Rightarrow> bars_state" where
  "markGaps s = s\<lparr>sb_gapPending := True\<rparr>"

definition bars_seedAnchor :: "f64 \<Rightarrow> f64 \<Rightarrow> int \<Rightarrow> bars_state \<Rightarrow> bars_state" where
  "bars_seedAnchor price fallback tsMs s =
     (let price = (if price \<le> 0 then fallback else price) in
      if price \<le> 0 then s
      else s\<lparr>sb_agg10 := seedAnchorAt price 0 tsMs (sb_agg10 s),
             sb_shadow := seedAnchorAt price 0 tsMs (sb_shadow s)\<rparr>)"

definition finalizedBars :: "bars_state \<Rightarrow> timeframe \<Rightarrow> bar list" where
  "finalizedBars s tf = finalized (sb_series s tf)"

section \<open>Folding bars\<close>

definition bar0 :: bar where
  "bar0 = \<lparr>b_Symbol = '''', b_TF = TFStr '''', b_BucketMs = 0, b_O = 0, b_H = 0, b_L = 0, b_C = 0,
     b_V = 0, b_BuyV = 0, b_SellV = 0, b_Ticks = 0, b_InProgress = False, b_Gap = False,
     b_VolumeOnly = False\<rparr>"

definition fold_into :: "bar \<Rightarrow> bar \<Rightarrow> bar" where
  "fold_into nb mb = nb\<lparr>b_H := math_max (b_H nb) (b_H mb), b_L := math_min (b_L nb) (b_L mb),
     b_V := b_V nb + b_V mb, b_BuyV := b_BuyV nb + b_BuyV mb, b_SellV := b_SellV nb + b_SellV mb,
     b_Ticks := b_Ticks nb + b_Ticks mb\<rparr>"

text \<open>\<open>members\<close> is not empty: every caller looks first.\<close>

definition foldBars :: "string \<Rightarrow> timeframe \<Rightarrow> int \<Rightarrow> bar list \<Rightarrow> bar" where
  "foldBars symbol tf bucket members =
     foldl fold_into
       (bar0\<lparr>b_Symbol := symbol, b_TF := tf, b_BucketMs := bucket, b_O := b_O (hd members),
             b_H := b_H (hd members), b_L := b_L (hd members), b_C := b_C (last members)\<rparr>) members"

text \<open>\<open>cascade\<close>: recompute the higher intraday bars over the minute \<open>m\<close>.\<close>

definition cascade_one :: "tz \<Rightarrow> int \<Rightarrow> int \<Rightarrow> timeframe \<Rightarrow> bars_state \<Rightarrow> bars_state" where
  "cascade_one off anchorSecs m tf s =
     (let oneM = sb_series s TF1m;
          spanMs = fst (IntradaySpanSecs tf) * 1000;
          hb = BucketStartMsAnchored off m tf anchorSecs;
          members = rangeBars oneM hb (hb + spanMs)
      in if members = [] then s
         else fst (put_bar tf ((foldBars (sb_symbol s) tf hb members)
                \<lparr>b_InProgress := maxBucket oneM < hb + spanMs\<rparr>) s))"

definition cascade :: "tz \<Rightarrow> int \<Rightarrow> int \<Rightarrow> bars_state \<Rightarrow> bars_state" where
  "cascade off anchorSecs m s = fold (cascade_one off anchorSecs m) cascadeTFs s"

definition derive_one :: "tz \<Rightarrow> int \<Rightarrow> int \<Rightarrow> timeframe \<Rightarrow> bars_state \<Rightarrow> bars_state" where
  "derive_one off day newest tf s =
     (let hb = BucketStartMs off day tf;
          members = filter (\<lambda>d. BucketStartMs off (b_BucketMs d) tf = hb) (sb_series s TFDay);
          anyInProgress = list_ex b_InProgress members
      in if members = [] then s
         else fst (put_bar tf ((foldBars (sb_symbol s) tf hb members)
                \<lparr>b_InProgress := anyInProgress \<or> BucketStartMs off newest tf = hb\<rparr>) s))"

definition deriveWM :: "tz \<Rightarrow> int \<Rightarrow> bars_state \<Rightarrow> bars_state" where
  "deriveWM off day s =
     fold (derive_one off day (maxBucket (sb_series s TFDay))) [TFWeek, TFMonth] s"

definition deriveDaily :: "tz \<Rightarrow> int \<Rightarrow> bars_state \<Rightarrow> bars_state" where
  "deriveDaily off m s =
     (let day = BucketStartMs off m TFDay in
      if mget0 False (sb_dailyOfficial s) day then s
      else let members = rangeBars (sb_series s TF1m) day (day + 86400000) in
           if members = [] then s
           else let (s, changed) = put_bar TFDay ((foldBars (sb_symbol s) TFDay day members)
                      \<lparr>b_InProgress := True\<rparr>) s
                in if changed then deriveWM off day s else s)"

section \<open>Checking the provider's minutes against the prints\<close>

text \<open>The clamp of a ten-second bar into its official minute: only when open and close fit.\<close>

definition trim10sBarToAuthRange :: "bar \<Rightarrow> bar \<Rightarrow> bar \<times> bool" where
  "trim10sBarToAuthRange original auth =
     (if b_InProgress original \<or> b_O original < b_L auth \<or> b_H auth < b_O original \<or>
         b_C original < b_L auth \<or> b_H auth < b_C original then (original, False)
      else let trimmed = original\<lparr>b_H := math_min (b_H original) (b_H auth),
                 b_L := math_max (b_L original) (b_L auth)\<rparr>
           in (trimmed, \<not> bar_eq trimmed original))"

definition trim10sToAuthRange :: "bar \<Rightarrow> bars_state \<Rightarrow> bars_state" where
  "trim10sToAuthRange auth s =
     fold (\<lambda>original s. let (trimmed, changed) = trim10sBarToAuthRange original auth in
             if changed then fst (put_bar TF10s trimmed s) else s)
       (rangeBars (sb_series s TF10s) (b_BucketMs auth) (b_BucketMs auth + 60000)) s"

text \<open>Go's \<open>int64(x)\<close> of a float in range: towards zero.\<close>

fun trunc64 :: "f64 \<Rightarrow> int" where
  "trunc64 (Fin q) = (if 0 \<le> q then \<lfloor>q\<rfloor> else \<lceil>q\<rceil>)"
| "trunc64 _ = - (2 ^ 63)"

definition price_details :: "string \<Rightarrow> f64 \<Rightarrow> f64 \<Rightarrow> mismatch list" where
  "price_details name a b = (if fconst (1 / 1000000) < \<bar>a - b\<bar> then [PriceDiffers name a b] else [])"

definition volume_details :: "int \<Rightarrow> int \<Rightarrow> mismatch list" where
  "volume_details av sv =
     (let dv = av - sv; dv = (if dv < 0 then - dv else dv);
          volTol = trunc64 (float_of_int av * fconst (2 / 100));
          volTol = (if volTol < 100 then 100 else volTol)
      in if volTol < dv then [VolumeDiffers av sv] else [])"

definition validate :: "int \<Rightarrow> bars_state \<Rightarrow> bars_state" where
  "validate bucketMs s =
     (if sb_seeding s then s
      else if mget0 False (sb_compared s) bucketMs then s
      else case mget (sb_shadowFinals s) bucketMs of
        None \<Rightarrow> s
      | Some shadow \<Rightarrow>
          (case series_get (sb_series s TF1m) bucketMs of
             None \<Rightarrow> s
           | Some auth \<Rightarrow>
               if b_InProgress auth then s
               else let s = s\<lparr>sb_compared := mput bucketMs True (sb_compared s)\<rparr>;
                        details = price_details ''O'' (b_O auth) (b_O shadow) @
                          price_details ''H'' (b_H auth) (b_H shadow) @
                          price_details ''L'' (b_L auth) (b_L shadow) @
                          price_details ''C'' (b_C auth) (b_C shadow) @
                          volume_details (b_V auth) (b_V shadow)
                    in if details = [] then s
                       else trim10sToAuthRange auth (emit (MismatchUpdate bucketMs details) s)))"

section \<open>Prints\<close>

definition with_delta :: "bar \<Rightarrow> bar \<Rightarrow> bar" where
  "with_delta sh b = b\<lparr>b_BuyV := b_BuyV sh, b_SellV := b_SellV sh, b_Ticks := b_Ticks sh\<rparr>"

text \<open>The minute is changed in place through the pointer \<open>get\<close> returned.\<close>

definition mergeShadowDelta :: "tz \<Rightarrow> int \<Rightarrow> bar \<Rightarrow> bool \<Rightarrow> bars_state \<Rightarrow> bars_state" where
  "mergeShadowDelta off anchorSecs shadow final s =
     (case series_get (sb_series s TF1m) (b_BucketMs shadow) of
        None \<Rightarrow> s
      | Some ab \<Rightarrow>
          if \<not> final \<and> \<not> b_InProgress ab then s
          else if b_BuyV ab = b_BuyV shadow \<and> b_SellV ab = b_SellV shadow \<and> b_Ticks ab = b_Ticks shadow then s
          else let ab = with_delta shadow ab;
                   oneM = sb_series s TF1m;
                   s = set_series TF1m (oneM[idx oneM (b_BucketMs shadow) := ab]) s
               in cascade off anchorSecs (b_BucketMs ab) (barOut ab s))"

definition fillDelta :: "bars_state \<Rightarrow> bar \<Rightarrow> bar" where
  "fillDelta s b =
     (case mget (sb_shadowFinals s) (b_BucketMs b) of
        Some sf \<Rightarrow> with_delta sf b
      | None \<Rightarrow>
          (case openBar (sb_shadow s) (b_BucketMs b) of
             Some ob \<Rightarrow> with_delta ob b
           | None \<Rightarrow> b))"

definition put_10s :: "bar \<Rightarrow> bars_state \<Rightarrow> bars_state" where
  "put_10s b s =
     (let s = (if b_Gap b \<and> b_InProgress b then s\<lparr>sb_gapPending := False\<rparr> else s)
      in barOut b (set_series TF10s (fst (upsert b (sb_series s TF10s))) s))"

definition put_shadow :: "tz \<Rightarrow> int \<Rightarrow> bar \<Rightarrow> bars_state \<Rightarrow> bars_state" where
  "put_shadow off anchorSecs b s =
     (if b_InProgress b then mergeShadowDelta off anchorSecs b False s
      else validate (b_BucketMs b) (mergeShadowDelta off anchorSecs b True
             (s\<lparr>sb_shadowFinals := mput (b_BucketMs b) b (sb_shadowFinals s)\<rparr>)))"

definition bars_applyTick :: "tz \<Rightarrow> int \<Rightarrow> tick \<Rightarrow> bars_state \<Rightarrow> bars_state" where
  "bars_applyTick off anchorSecs t s =
     (let day = DayMs off (tk_TsMs t);
          s = (if day \<noteq> sb_curDay s
               then s\<lparr>sb_curDay := day, sb_shadowFinals := [], sb_compared := []\<rparr> else s);
          (agg10, out10) = addTick off t (sb_gapPending s) (sb_agg10 s);
          s = fold put_10s out10 (s\<lparr>sb_agg10 := agg10\<rparr>);
          (shadow, out1m) = addTick off t False (sb_shadow s)
      in fold (put_shadow off anchorSecs) out1m (s\<lparr>sb_shadow := shadow\<rparr>))"

definition bars_applyTicks :: "tz \<Rightarrow> int \<Rightarrow> tick list \<Rightarrow> bars_state \<Rightarrow> bars_state" where
  "bars_applyTicks off anchorSecs ts s = fold (bars_applyTick off anchorSecs) ts s"

section \<open>Minutes and history\<close>

definition bar_of :: "string \<Rightarrow> timeframe \<Rightarrow> kbar \<Rightarrow> bool \<Rightarrow> bar" where
  "bar_of symbol tf raw inProgress = bar0\<lparr>b_Symbol := symbol, b_TF := tf, b_BucketMs := kb_BucketMs raw,
     b_O := kb_O raw, b_H := kb_H raw, b_L := kb_L raw, b_C := kb_C raw, b_V := kb_Volume raw,
     b_InProgress := inProgress\<rparr>"

text \<open>One round of \<open>apply1m\<close>: the watermark rule, then everything derived from the minute.\<close>

definition finalize_last :: "bars_state \<Rightarrow> bars_state \<times> int" where
  "finalize_last s =
     (case series_last (sb_series s TF1m) of
        Some l \<Rightarrow>
          if b_InProgress l
          then let l = l\<lparr>b_InProgress := False\<rparr> in
               (barOut l (set_series TF1m (butlast (sb_series s TF1m) @ [l]) s), b_BucketMs l)
          else (s, - 1)
      | None \<Rightarrow> (s, - 1))"

definition put_1m :: "bar \<Rightarrow> bars_state \<Rightarrow> bars_state \<times> int" where
  "put_1m nb s =
     (case series_last (sb_series s TF1m) of
        None \<Rightarrow> (barOut nb (set_series TF1m (fst (upsert nb (sb_series s TF1m))) s), - 1)
      | Some l \<Rightarrow>
          if b_BucketMs l < b_BucketMs nb
          then let (s, finalizedPrev) = finalize_last s
               in (barOut nb (set_series TF1m (fst (upsert nb (sb_series s TF1m))) s), finalizedPrev)
          else if b_BucketMs nb = b_BucketMs l
          then (fst (put_bar TF1m (nb\<lparr>b_InProgress := b_InProgress l\<rparr>) s), - 1)
          else let (s, changed) = put_bar TF1m (nb\<lparr>b_InProgress := False\<rparr>) s
               in (if changed then validate (b_BucketMs nb) s else s, - 1))"

definition apply_minute :: "tz \<Rightarrow> int \<Rightarrow> kbar \<Rightarrow> bars_state \<Rightarrow> bars_state" where
  "apply_minute off anchorSecs raw s =
     (let s = bars_seedAnchor (kb_C raw) 0 (kb_BucketMs raw) s;
          nb = fillDelta s (bar_of (kb_Symbol raw) TF1m raw True);
          (s, finalizedPrev) = put_1m nb s;
          s = (if 0 \<le> finalizedPrev then cascade off anchorSecs finalizedPrev (validate finalizedPrev s) else s)
      in deriveDaily off (b_BucketMs nb) (cascade off anchorSecs (b_BucketMs nb) s))"

definition apply1m :: "tz \<Rightarrow> int \<Rightarrow> kbar list \<Rightarrow> bars_state \<Rightarrow> bars_state" where
  "apply1m off anchorSecs raws s = fold (apply_minute off anchorSecs) raws s"

definition emitSeedSnapshots :: "timeframe list \<Rightarrow> bars_state \<Rightarrow> bars_state" where
  "emitSeedSnapshots tfs s =
     fold (\<lambda>tf s. if sb_series s tf = [] then s else emit (BarSnapshot tf (sb_series s tf)) s) tfs s"

definition emitTickSeedSnapshots :: "bars_state \<Rightarrow> bars_state" where
  "emitTickSeedSnapshots s = emitSeedSnapshots seedTicksTFs s"

text \<open>The bucket the live stream is forming, \<open>-1\<close> when there is none.\<close>

definition forming :: "series \<Rightarrow> int" where
  "forming xs = (case series_last xs of
     Some l \<Rightarrow> if b_InProgress l then b_BucketMs l else - 1 | None \<Rightarrow> - 1)"

text \<open>The round shared by \<open>seedHistory1m\<close> and \<open>seedOlder1m\<close>.\<close>

definition seed_minute :: "tz \<Rightarrow> int \<Rightarrow> int \<Rightarrow> kbar \<Rightarrow> bars_state \<Rightarrow> bars_state" where
  "seed_minute off anchorSecs live raw s =
     (if kb_BucketMs raw = live then s
      else let s = bars_seedAnchor (kb_C raw) 0 (kb_BucketMs raw) s;
               nb = fillDelta s (bar_of (sb_symbol s) TF1m raw False);
               (s, changed) = put_bar TF1m nb s
           in if changed
              then deriveDaily off (b_BucketMs nb) (cascade off anchorSecs (b_BucketMs nb) s) else s)"

definition seedHistory1m :: "tz \<Rightarrow> int \<Rightarrow> kbar list \<Rightarrow> bars_state \<Rightarrow> bars_state" where
  "seedHistory1m off anchorSecs raws s =
     (if raws = [] then s
      else let live = forming (sb_series s TF1m);
               s = fold (seed_minute off anchorSecs live) raws (s\<lparr>sb_seeding := True\<rparr>);
               s = s\<lparr>sb_seeding := False\<rparr>
           in emit ReseedSymbol (emitSeedSnapshots seedHist1mTFs s))"

definition seed_10s :: "tz \<Rightarrow> int \<Rightarrow> kbar \<Rightarrow> bars_state \<Rightarrow> bars_state" where
  "seed_10s off live raw s =
     (if kb_BucketMs raw = live then s
      else let nb = bar_of (sb_symbol s) TF10s raw False;
               nb = (case series_get (sb_series s TF1m) (BucketStartMs off (kb_BucketMs raw) TF1m) of
                       Some auth \<Rightarrow> if b_InProgress auth then nb else fst (trim10sBarToAuthRange nb auth)
                     | None \<Rightarrow> nb);
               s = set_series TF10s (fst (upsert nb (sb_series s TF10s))) s
           in bars_seedAnchor (kb_C raw) 0 (kb_BucketMs raw) s)"

definition seedHistory10s :: "tz \<Rightarrow> kbar list \<Rightarrow> bars_state \<Rightarrow> bars_state" where
  "seedHistory10s off raws s =
     (if raws = [] then s
      else let live = forming (sb_series s TF10s);
               s = fold (seed_10s off live) raws (s\<lparr>sb_seeding := True\<rparr>);
               s = s\<lparr>sb_seeding := False\<rparr>
           in emit (ReseedSymTF TF10s) (emitSeedSnapshots [TF10s] s))"

definition prev_oldest :: "bars_state \<Rightarrow> timeframe \<Rightarrow> int" where
  "prev_oldest s tf = (case sb_series s tf of [] \<Rightarrow> 2 ^ 63 - 1 | b # bs \<Rightarrow> b_BucketMs b)"

definition seedOlder1m :: "tz \<Rightarrow> int \<Rightarrow> kbar list \<Rightarrow> bars_state \<Rightarrow> bars_state" where
  "seedOlder1m off anchorSecs raws s0 =
     (if raws = [] then s0
      else let live = forming (sb_series s0 TF1m);
               s = fold (seed_minute off anchorSecs live) raws (s0\<lparr>sb_seeding := True\<rparr>);
               s = s\<lparr>sb_seeding := False\<rparr>;
               s = fold (\<lambda>tf s. let newer = takeWhile (\<lambda>b. b_BucketMs b < prev_oldest s0 tf) (sb_series s tf)
                                in if newer = [] then s else emit (BarPrepend tf newer) s) seedOlder1mTFs s
           in emit ReseedSymbol s)"

definition seed_day :: "tz \<Rightarrow> kbar \<Rightarrow> bars_state \<Rightarrow> bars_state" where
  "seed_day off raw s =
     (let nb = bar_of (sb_symbol s) TFDay raw False;
          s = s\<lparr>sb_dailyOfficial := mput (kb_BucketMs raw) True (sb_dailyOfficial s)\<rparr>;
          (s, changed) = put_bar TFDay nb s
      in if changed then deriveWM off (kb_BucketMs raw) s else s)"

definition seedDaily :: "tz \<Rightarrow> kbar list \<Rightarrow> bars_state \<Rightarrow> bars_state" where
  "seedDaily off raws s =
     (if raws = [] then s
      else let s = fold (seed_day off) raws (s\<lparr>sb_seeding := True\<rparr>);
               s = s\<lparr>sb_seeding := False\<rparr>
           in emit ReseedSymbol (emitSeedSnapshots seedDailyTFs s))"

text \<open>The session-ticks seed of \<open>Core.seedSessionTicks\<close>, after de-duplication and stamping.\<close>

definition seed_ticks :: "tz \<Rightarrow> int \<Rightarrow> tick list \<Rightarrow> bars_state \<Rightarrow> bars_state" where
  "seed_ticks off anchorSecs ts s =
     (let s = bars_applyTicks off anchorSecs ts (s\<lparr>sb_seeding := True\<rparr>);
          s = s\<lparr>sb_seeding := False\<rparr>
      in emit ReseedSymbol (emitTickSeedSnapshots s))"

section \<open>Binary search and ascending series\<close>

lemma sort_search_bounds: "i \<le> j \<Longrightarrow> i \<le> sort_search f i j \<and> sort_search f i j \<le> j"
proof (induction f i j rule: sort_search.induct)
  case (1 f i j)
  then show ?case by (subst (1 2) sort_search.simps) (fastforce simp: Let_def)
qed

lemma sort_search_spec:
  assumes "\<And>k l. k \<le> l \<Longrightarrow> l < n \<Longrightarrow> f k \<Longrightarrow> f l"
  shows "i \<le> j \<Longrightarrow> j \<le> n \<Longrightarrow> (\<forall>k < i. \<not> f k) \<Longrightarrow> (\<forall>k. j \<le> k \<and> k < n \<longrightarrow> f k) \<Longrightarrow>
    (\<forall>k < sort_search f i j. \<not> f k) \<and> (\<forall>k. sort_search f i j \<le> k \<and> k < n \<longrightarrow> f k)"
proof (induction "j - i" arbitrary: i j rule: less_induct)
  case less
  show ?case
  proof (cases "i < j")
    case True
    define h where "h = (i + j) div 2"
    have h: "i \<le> h" "h < j" using True by (auto simp: h_def)
    show ?thesis
    proof (cases "f h")
      case True
      have "(\<forall>k < sort_search f i h. \<not> f k) \<and> (\<forall>k. sort_search f i h \<le> k \<and> k < n \<longrightarrow> f k)"
      proof (rule less.hyps)
        show "\<forall>k. h \<le> k \<and> k < n \<longrightarrow> f k" using assms[of h] True by blast
      qed (use h less.prems in \<open>simp_all\<close>)
      moreover have "sort_search f i j = sort_search f i h"
        using \<open>i < j\<close> True by (simp add: sort_search.simps[of f i j] Let_def h_def)
      ultimately show ?thesis by (simp only:)
    next
      case False
      have "\<not> f k" if "k < h + 1" for k using assms[of k h] False that h less.prems(2) by force
      note low = this
      have "(\<forall>k < sort_search f (h + 1) j. \<not> f k) \<and> (\<forall>k. sort_search f (h + 1) j \<le> k \<and> k < n \<longrightarrow> f k)"
        by (rule less.hyps) (use h less.prems low in \<open>simp_all\<close>)
      moreover have "sort_search f i j = sort_search f (h + 1) j"
        using \<open>i < j\<close> False by (simp add: sort_search.simps[of f i j] Let_def h_def)
      ultimately show ?thesis by (simp only:)
    qed
  qed (use less.prems in \<open>simp add: sort_search.simps\<close>)
qed

definition asc :: "series \<Rightarrow> bool" where
  "asc s \<longleftrightarrow> sorted_wrt (<) (map b_BucketMs s)"

lemma asc_nth: "asc s \<Longrightarrow> i < j \<Longrightarrow> j < length s \<Longrightarrow> b_BucketMs (s ! i) < b_BucketMs (s ! j)"
  using sorted_wrt_nth_less[of "(<)" "map b_BucketMs s" i j] by (simp add: asc_def)

lemma in_drop_nth: "b \<in> set (drop n s) \<Longrightarrow> \<exists>j. n \<le> j \<and> j < length s \<and> s ! j = b"
  unfolding in_set_conv_nth by (clarsimp, metis add.commute le_add2 less_diff_conv)

lemma in_take_nth: "b \<in> set (take n s) \<Longrightarrow> \<exists>j < n. j < length s \<and> s ! j = b"
  by (auto simp: in_set_conv_nth)

lemma asc_filter: "asc s \<Longrightarrow> asc (filter P s)"
  by (auto simp: asc_def sorted_wrt_map intro: sorted_wrt_filter)

lemma idx_spec:
  assumes "asc s"
  shows "idx s k \<le> length s" "take (idx s k) s = filter (\<lambda>b. b_BucketMs b < k) s"
    "drop (idx s k) s = filter (\<lambda>b. k \<le> b_BucketMs b) s"
proof -
  let ?f = "\<lambda>i. k \<le> b_BucketMs (s ! i)"
  have mono: "?f l" if "i \<le> l" "l < length s" "?f i" for i l
    using asc_nth[OF assms, of i l] that by (cases "i = l") auto
  have "(\<forall>i < idx s k. \<not> ?f i) \<and> (\<forall>i. idx s k \<le> i \<and> i < length s \<longrightarrow> ?f i)"
    unfolding idx_def by (rule sort_search_spec[OF mono]) auto
  then have lo: "\<forall>b \<in> set (take (idx s k) s). b_BucketMs b < k"
    and hi: "\<forall>b \<in> set (drop (idx s k) s). k \<le> b_BucketMs b"
    by (fastforce dest!: in_take_nth in_drop_nth)+
  show "idx s k \<le> length s" using sort_search_bounds[of 0 "length s"] by (simp add: idx_def)
  have "filter (\<lambda>b. b_BucketMs b < k) (take (idx s k) s @ drop (idx s k) s) = take (idx s k) s"
    unfolding filter_append using lo hi by (simp add: filter_id_conv filter_empty_conv not_less)
  then show "take (idx s k) s = filter (\<lambda>b. b_BucketMs b < k) s" by simp
  have "filter (\<lambda>b. k \<le> b_BucketMs b) (take (idx s k) s @ drop (idx s k) s) = drop (idx s k) s"
    unfolding filter_append using lo hi by (simp add: filter_id_conv filter_empty_conv not_le)
  then show "drop (idx s k) s = filter (\<lambda>b. k \<le> b_BucketMs b) s" by simp
qed

lemma range_filter:
  assumes "asc s" "lo \<le> hi"
  shows "rangeBars s lo hi = filter (\<lambda>b. lo \<le> b_BucketMs b \<and> b_BucketMs b < hi) s"
proof -
  let ?xs = "filter (\<lambda>b. b_BucketMs b < hi) s"
  have "filter (\<lambda>b. b_BucketMs b < lo) ?xs = filter (\<lambda>b. b_BucketMs b < lo) s"
    using assms(2) by (auto intro: filter_cong)
  then have "take (idx s lo) s = take (idx ?xs lo) ?xs"
    using idx_spec(2)[OF assms(1), of lo] idx_spec(2)[OF asc_filter[OF assms(1)], of "\<lambda>b. b_BucketMs b < hi" lo] by simp
  then have "idx s lo = idx ?xs lo"
    using idx_spec(1)[OF assms(1), of lo] idx_spec(1)[OF asc_filter[OF assms(1)], of "\<lambda>b. b_BucketMs b < hi" lo]
    by (metis length_take min.absorb2)
  then show ?thesis
    using idx_spec(2)[OF assms(1), of hi] idx_spec(3)[OF asc_filter[OF assms(1)], of "\<lambda>b. b_BucketMs b < hi" lo]
    by (simp add: rangeBars_def conj_commute)
qed

lemma at_idx:
  assumes "asc s"
  shows "idx s k < length s \<and> b_BucketMs (s ! idx s k) = k \<longleftrightarrow> k \<in> b_BucketMs ` set s"
    and "b \<in> set s \<Longrightarrow> b_BucketMs b = k \<Longrightarrow> idx s k < length s \<and> s ! idx s k = b"
proof -
  have one: "idx s k < length s \<and> s ! idx s k = b" if b: "b \<in> set s" "b_BucketMs b = k" for b
  proof -
    have "b \<in> set (drop (idx s k) s)" using b idx_spec(3)[OF assms, of k] by simp
    then obtain j where j: "idx s k \<le> j" "j < length s" "s ! j = b" using in_drop_nth by fast
    have len: "idx s k < length s" using j by simp
    then have "s ! idx s k \<in> set (drop (idx s k) s)" by (metis Cons_nth_drop_Suc list.set_intros(1))
    then have "k \<le> b_BucketMs (s ! idx s k)" using idx_spec(3)[OF assms, of k] by simp
    then have "j = idx s k" using asc_nth[OF assms, of "idx s k" j] j b by (cases "idx s k < j") auto
    then show ?thesis using j by simp
  qed
  show "idx s k < length s \<and> b_BucketMs (s ! idx s k) = k \<longleftrightarrow> k \<in> b_BucketMs ` set s"
  proof
    assume "idx s k < length s \<and> b_BucketMs (s ! idx s k) = k"
    then show "k \<in> b_BucketMs ` set s" by (intro image_eqI[of _ _ "s ! idx s k"]) simp_all
  next
    assume "k \<in> b_BucketMs ` set s"
    then obtain b where "b \<in> set s" "b_BucketMs b = k" by auto
    then show "idx s k < length s \<and> b_BucketMs (s ! idx s k) = k" using one[of b] by simp
  qed
  show "b \<in> set s \<Longrightarrow> b_BucketMs b = k \<Longrightarrow> idx s k < length s \<and> s ! idx s k = b" by (rule one)
qed

lemma series_get_iff: "asc s \<Longrightarrow> series_get s k = Some b \<longleftrightarrow> b \<in> set s \<and> b_BucketMs b = k"
  using at_idx[of s] by (fastforce simp: series_get_def Let_def split: if_splits)

lemma series_get_None: "asc s \<Longrightarrow> series_get s k = None \<longleftrightarrow> k \<notin> b_BucketMs ` set s"
  using at_idx(1)[of s k] by (auto simp: series_get_def Let_def)

definition put :: "bar \<Rightarrow> series \<Rightarrow> series" where
  "put b s = filter (\<lambda>c. b_BucketMs c < b_BucketMs b) s @ b # filter (\<lambda>c. b_BucketMs b < b_BucketMs c) s"

lemma set_put: "set (put b s) = insert b {c \<in> set s. b_BucketMs c \<noteq> b_BucketMs b}"
  by (auto simp: put_def)

lemma asc_put: "asc s \<Longrightarrow> asc (put b s)"
  using asc_filter[of s "\<lambda>c. b_BucketMs c < b_BucketMs b"] asc_filter[of s "\<lambda>c. b_BucketMs b < b_BucketMs c"]
  by (auto simp: asc_def put_def sorted_wrt_append intro: less_trans)

lemma set_at_idx:
  assumes "asc s" "idx s (b_BucketMs b) < length s" "b_BucketMs (s ! idx s (b_BucketMs b)) = b_BucketMs b"
  shows "s[idx s (b_BucketMs b) := b] = put b s"
proof -
  let ?i = "idx s (b_BucketMs b)"
  have d: "drop ?i s = s ! ?i # drop (Suc ?i) s" using assms(2) by (simp add: Cons_nth_drop_Suc)
  have "filter (\<lambda>c. b_BucketMs b < b_BucketMs c) s =
      filter (\<lambda>c. b_BucketMs b < b_BucketMs c) (filter (\<lambda>c. b_BucketMs b \<le> b_BucketMs c) s)"
    by (auto intro: filter_cong)
  also have "\<dots> = filter (\<lambda>c. b_BucketMs b < b_BucketMs c) (drop (Suc ?i) s)"
    using idx_spec(3)[OF assms(1), of "b_BucketMs b"] d assms(3) by (metis filter.simps(2) less_irrefl)
  also have "\<dots> = drop (Suc ?i) s"
  proof -
    have "b_BucketMs b < b_BucketMs c" if "c \<in> set (drop (Suc ?i) s)" for c
    proof -
      obtain j where "Suc ?i \<le> j" "j < length s" "s ! j = c" using in_drop_nth \<open>c \<in> _\<close> by fast
      then show ?thesis using asc_nth[OF assms(1), of ?i j] assms(3) by simp
    qed
    then show ?thesis by (simp add: filter_id_conv)
  qed
  finally show ?thesis using idx_spec(2)[OF assms(1), of "b_BucketMs b"] assms(2) by (simp add: put_def upd_conv_take_nth_drop)
qed

lemma upsert_put: "asc s \<Longrightarrow> fst (upsert b s) = put b s"
proof -
  assume a: "asc s"
  let ?i = "idx s (b_BucketMs b)"
  show ?thesis
  proof (cases "?i < length s \<and> b_BucketMs (s ! ?i) = b_BucketMs b")
    case True
    have "bar_eq (s ! ?i) b \<Longrightarrow> s = s[?i := b]" using bar_eq_imp[of "s ! ?i" b] by (metis list_update_id)
    then show ?thesis using True set_at_idx[OF a] by (auto simp: upsert_def Let_def)
  next
    case False
    then have no: "b_BucketMs b \<notin> b_BucketMs ` set s" using at_idx(1)[OF a] by simp
    have "filter (\<lambda>c. b_BucketMs b \<le> b_BucketMs c) s = filter (\<lambda>c. b_BucketMs b < b_BucketMs c) s"
      using no by (auto intro!: filter_cong simp: order_le_less)
    then show ?thesis using False idx_spec(2,3)[OF a, of "b_BucketMs b"] by (auto simp: upsert_def Let_def put_def)
  qed
qed

lemma upsert_same: "\<not> snd (upsert b s) \<Longrightarrow> fst (upsert b s) = s"
  by (auto simp: upsert_def Let_def split: if_splits)

section \<open>Every series stays ascending, and minutes decide the higher bars\<close>

definition bars_asc :: "bars_state \<Rightarrow> bool" where
  "bars_asc s \<longleftrightarrow> (\<forall>tf. asc (sb_series s tf))"

lemma barOut_simps [simp]:
  "sb_series (barOut b s) = sb_series s" "sb_symbol (barOut b s) = sb_symbol s"
  by (simp_all add: barOut_def emit_def)

lemma put_bar_series:
  assumes "asc (sb_series s tf)"
  shows "sb_series (fst (put_bar tf b s)) = (sb_series s)(tf := put b (sb_series s tf))"
    and "sb_symbol (fst (put_bar tf b s)) = sb_symbol s"
    and "\<not> snd (put_bar tf b s) \<Longrightarrow> put b (sb_series s tf) = sb_series s tf"
  using upsert_put[OF assms, of b] upsert_same[of b "sb_series s tf"]
  by (auto simp: put_bar_def set_series_def Let_def split_beta)

text \<open>The members of a higher bucket, and the bar they make.\<close>

definition members_of :: "(int \<Rightarrow> int) \<Rightarrow> int \<Rightarrow> series \<Rightarrow> bar list" where
  "members_of hb h oneM = filter (\<lambda>b. hb (b_BucketMs b) = h) oneM"

definition same_but_forming :: "bar \<Rightarrow> bar \<Rightarrow> bool" where
  "same_but_forming a b \<longleftrightarrow> a\<lparr>b_InProgress := False\<rparr> = b\<lparr>b_InProgress := False\<rparr>"

definition cons_at :: "tz \<Rightarrow> int \<Rightarrow> timeframe \<Rightarrow> bars_state \<Rightarrow> int \<Rightarrow> bool" where
  "cons_at off anchorSecs tf s h \<longleftrightarrow>
     (let members = members_of (\<lambda>m. BucketStartMsAnchored off m tf anchorSecs) h (sb_series s TF1m) in
      case series_get (sb_series s tf) h of
        None \<Rightarrow> members = []
      | Some b \<Rightarrow> members \<noteq> [] \<and> same_but_forming b (foldBars (sb_symbol s) tf h members))"

text \<open>Consistent but for the buckets of the minutes in \<open>D\<close>.\<close>

definition cons_but :: "tz \<Rightarrow> int \<Rightarrow> timeframe \<Rightarrow> int set \<Rightarrow> bars_state \<Rightarrow> bool" where
  "cons_but off anchorSecs tf D s \<longleftrightarrow>
     (\<forall>h. h \<notin> (\<lambda>m. BucketStartMsAnchored off m tf anchorSecs) ` D \<longrightarrow> cons_at off anchorSecs tf s h)"

lemma anchored_grid:
  assumes "whole_hours off" "intraday tf"
  shows "bucket_grid (\<lambda>m. BucketStartMsAnchored off m tf a) (span_ms tf)"
  using floor_grid[of "span_ms tf" "anchor_of tf a * 1000"] intraday_span[OF assms(2)]
  by (simp add: bucket_floor[OF assms] span_ms_def)

lemma cascade_intraday: "tf \<in> set cascadeTFs \<Longrightarrow> intraday tf \<and> tf \<noteq> TF1m \<and> tf \<noteq> TF10s"
  by (auto simp: cascadeTFs_def intraday_def)

lemma range_members:
  assumes "whole_hours off" "tf \<in> set cascadeTFs" "asc oneM"
    and "hb = (\<lambda>m. BucketStartMsAnchored off m tf a)"
  shows "rangeBars oneM (hb m) (hb m + span_ms tf) = members_of hb (hb m) oneM"
proof -
  note g = anchored_grid[OF assms(1) conjunct1[OF cascade_intraday[OF assms(2)]], of a, folded assms(4)]
  have "hb m \<le> hb m + span_ms tf" using bucket_grid.span_pos[OF g] by simp
  then show ?thesis
    using range_filter[OF assms(3)] bucket_grid.same_bucket_iff[OF g] by (simp add: members_of_def)
qed

lemma get_put: "asc xs \<Longrightarrow> series_get (put b xs) k = (if k = b_BucketMs b then Some b else series_get xs k)"
proof -
  assume a: "asc xs"
  have "series_get (put b xs) k = Some c \<longleftrightarrow> (if k = b_BucketMs b then c = b else series_get xs k = Some c)" for c
    using series_get_iff[OF asc_put[OF a], of b k c] series_get_iff[OF a, of k c] by (auto simp: set_put)
  then show ?thesis by (cases "series_get (put b xs) k") (metis option.exhaust option.inject, metis option.inject)
qed

lemma foldBars_bucket [simp]: "b_BucketMs (foldBars sb tf h ms) = h"
proof -
  have "b_BucketMs (foldl fold_into nb ms) = b_BucketMs nb" for nb
    by (induction ms arbitrary: nb) (simp_all add: fold_into_def)
  then show ?thesis by (simp add: foldBars_def)
qed

text \<open>What an operation leaves alone when it is not about minutes.\<close>

definition keeps :: "bars_state \<Rightarrow> bars_state \<Rightarrow> bool" where
  "keeps s s' \<longleftrightarrow> sb_symbol s' = sb_symbol s \<and>
     (\<forall>tf \<in> insert TF1m (set cascadeTFs). sb_series s' tf = sb_series s tf) \<and> (bars_asc s \<longrightarrow> bars_asc s')"

definition dirty :: "tz \<Rightarrow> int \<Rightarrow> int set \<Rightarrow> bars_state \<Rightarrow> bool" where
  "dirty off a D s \<longleftrightarrow> bars_asc s \<and> (\<forall>tf \<in> set cascadeTFs. cons_but off a tf D s)"

lemma keeps_refl [simp]: "keeps s s"
  by (simp add: keeps_def)

lemma keeps_trans: "keeps s t \<Longrightarrow> keeps t u \<Longrightarrow> keeps s u"
  by (simp add: keeps_def)

lemma keeps_fold: "(\<And>x s. keeps s (f x s)) \<Longrightarrow> keeps s (fold f xs s)"
  by (induction xs arbitrary: s) (auto intro: keeps_trans)

lemma keepsI: "sb_symbol s' = sb_symbol s \<Longrightarrow> sb_series s' = sb_series s \<Longrightarrow> keeps s s'"
  by (simp add: keeps_def bars_asc_def)

lemma keeps_dirty: "keeps s s' \<Longrightarrow> dirty off a D s \<Longrightarrow> dirty off a D s'"
proof -
  assume k: "keeps s s'" and d: "dirty off a D s"
  have "cons_at off a tf s' h = cons_at off a tf s h" if "tf \<in> set cascadeTFs" for tf h
  proof -
    have e: "sb_symbol s' = sb_symbol s" "sb_series s' TF1m = sb_series s TF1m" "sb_series s' tf = sb_series s tf"
      using k that by (simp_all add: keeps_def)
    show ?thesis unfolding cons_at_def e ..
  qed
  then show "dirty off a D s'" using k d by (simp add: dirty_def cons_but_def keeps_def)
qed

definition leaf :: "timeframe \<Rightarrow> bool" where
  "leaf tf \<longleftrightarrow> tf \<notin> insert TF1m (set cascadeTFs)"

lemma leaf_simps [simp]: "leaf TF10s" "leaf TFDay" "leaf TFWeek" "leaf TFMonth"
  by (simp_all add: leaf_def cascadeTFs_def)

lemma keeps_put_leaf: "leaf tf \<Longrightarrow> keeps s (fst (put_bar tf b s))"
proof -
  assume l: "leaf tf"
  have other: "sb_series (fst (put_bar tf b s)) tf' = sb_series s tf'" if "tf' \<noteq> tf" for tf'
    using that by (simp add: put_bar_def set_series_def Let_def split_beta)
  moreover have "sb_symbol (fst (put_bar tf b s)) = sb_symbol s"
    by (simp add: put_bar_def set_series_def Let_def split_beta)
  moreover have "bars_asc (fst (put_bar tf b s))" if "bars_asc s"
  proof -
    have "asc (sb_series s tf)" using that by (simp add: bars_asc_def)
    then show ?thesis using that asc_put put_bar_series(1)[of s tf b] by (simp add: bars_asc_def)
  qed
  moreover have "\<forall>tf' \<in> insert TF1m (set cascadeTFs). sb_series (fst (put_bar tf b s)) tf' = sb_series s tf'"
    using other l by (metis leaf_def)
  ultimately show ?thesis by (simp add: keeps_def)
qed

lemma keeps_cong: "keeps s t \<Longrightarrow> sb_symbol u = sb_symbol t \<Longrightarrow> sb_series u = sb_series t \<Longrightarrow> keeps s u"
  by (simp add: keeps_def bars_asc_def)

lemma keeps_set_leaf: "leaf tf \<Longrightarrow> keeps s (set_series tf (fst (upsert b (sb_series s tf))) s)"
  by (rule keeps_cong[OF keeps_put_leaf[of tf s b]]) (simp_all add: put_bar_def Let_def split_beta)

lemma keeps_emit [simp]: "keeps s (emit u s)" "keeps s (barOut b s)"
  by (auto intro: keepsI simp: emit_def barOut_def)

lemma keeps_anchor [simp]: "keeps s (bars_seedAnchor p f t s)"
  by (auto intro: keepsI simp: bars_seedAnchor_def Let_def)

lemma keeps_trim [simp]: "keeps s (trim10sToAuthRange auth s)"
  unfolding trim10sToAuthRange_def by (rule keeps_fold) (auto simp: Let_def split_beta intro: keeps_put_leaf)

lemma keeps_validate [simp]: "keeps s (validate k s)"
proof -
  have "keeps s (trim10sToAuthRange auth (emit u (s\<lparr>sb_compared := c\<rparr>)))" for auth u c
    using keeps_trans[OF keepsI[of "s\<lparr>sb_compared := c\<rparr>" s]] keeps_trans[OF keeps_emit(1) keeps_trim] by simp
  moreover have "keeps s (s\<lparr>sb_compared := c\<rparr>)" for c by (rule keepsI) simp_all
  ultimately show ?thesis by (simp add: validate_def Let_def split: option.split)
qed

lemma keeps_derive_one: "leaf tf \<Longrightarrow> keeps s (derive_one off d n tf s)"
  by (simp add: derive_one_def Let_def keeps_put_leaf)

lemma keeps_deriveWM [simp]: "keeps s (deriveWM off d s)"
  using keeps_trans[OF keeps_derive_one[of TFWeek s] keeps_derive_one[of TFMonth]] by (simp add: deriveWM_def)

lemma keeps_deriveDaily [simp]: "keeps s (deriveDaily off m s)"
proof -
  have "keeps s (deriveWM off d (fst (put_bar TFDay b s)))" for d b
    by (rule keeps_trans[OF keeps_put_leaf keeps_deriveWM]) simp
  then show ?thesis by (auto simp: deriveDaily_def Let_def split_beta intro: keeps_put_leaf)
qed

lemma keeps_seed_day [simp]: "keeps s (seed_day off raw s)"
proof -
  let ?s = "s\<lparr>sb_dailyOfficial := mput (kb_BucketMs raw) True (sb_dailyOfficial s)\<rparr>"
  have one: "keeps s (fst (put_bar TFDay b ?s))" for b
    by (rule keeps_trans[OF keepsI[of ?s] keeps_put_leaf]) simp_all
  have "keeps s (deriveWM off d (fst (put_bar TFDay b ?s)))" for b d
    by (rule keeps_trans[OF one keeps_deriveWM])
  then show ?thesis using one by (simp add: seed_day_def Let_def split_beta)
qed

lemma keeps_seed_10s [simp]: "keeps s (seed_10s off live raw s)"
proof -
  have "keeps s (bars_seedAnchor p f t (set_series TF10s (fst (upsert b (sb_series s TF10s))) s))" for p f t b
    by (rule keeps_trans[OF keeps_set_leaf keeps_anchor]) simp
  then show ?thesis by (simp add: seed_10s_def Let_def)
qed

lemma keeps_put_10s [simp]: "keeps s (put_10s b s)"
proof -
  have one: "keeps s (barOut b (set_series TF10s (fst (upsert b (sb_series s TF10s))) s))" for s
    by (rule keeps_trans[OF keeps_set_leaf keeps_emit(2)]) simp
  have "keeps s (s\<lparr>sb_gapPending := False\<rparr>)" by (rule keepsI) simp_all
  then show ?thesis using one keeps_trans[OF _ one] by (simp add: put_10s_def Let_def)
qed

lemma keeps_snapshots [simp]: "keeps s (emitSeedSnapshots tfs s)"
  unfolding emitSeedSnapshots_def by (rule keeps_fold) simp

text \<open>A fold looks at everything but the forming flag.\<close>

abbreviation settled :: "bar \<Rightarrow> bar" where
  "settled b \<equiv> b\<lparr>b_InProgress := False\<rparr>"

lemma foldBars_settled: "foldBars sb tf h (map settled ms) = foldBars sb tf h ms"
proof -
  have "foldl fold_into nb (map settled ms) = foldl fold_into nb ms" for nb
    by (induction ms arbitrary: nb) (simp_all add: fold_into_def)
  then show ?thesis by (cases "ms = []") (simp_all add: foldBars_def hd_map last_map)
qed

lemma foldBars_cong: "map settled ms = map settled ns \<Longrightarrow> foldBars sb tf h ms = foldBars sb tf h ns"
  by (metis foldBars_settled)

lemma members_settled:
  "map settled xs = map settled ys \<Longrightarrow> map settled (members_of hb h xs) = map settled (members_of hb h ys)"
proof -
  have m: "map settled (members_of hb h zs) = members_of hb h (map settled zs)" for zs
    by (simp add: members_of_def filter_map comp_def)
  show "map settled xs = map settled ys \<Longrightarrow> ?thesis" by (simp add: m)
qed

lemma cons_at_cong:
  assumes "sb_symbol t = sb_symbol s" "sb_series t tf = sb_series s tf"
    and "map settled (members_of hb h (sb_series t TF1m)) = map settled (members_of hb h (sb_series s TF1m))"
    and "hb = (\<lambda>m. BucketStartMsAnchored off m tf a)"
  shows "cons_at off a tf t h = cons_at off a tf s h"
proof -
  let ?ms = "\<lambda>s. members_of hb h (sb_series s TF1m)"
  have e: "(?ms t = []) = (?ms s = [])" using assms(3) by (metis Nil_is_map_conv)
  have f: "foldBars (sb_symbol s) tf h (?ms t) = foldBars (sb_symbol s) tf h (?ms s)"
    by (rule foldBars_cong[OF assms(3)])
  show ?thesis unfolding cons_at_def Let_def assms(1,2) assms(4)[symmetric] e f ..
qed

lemma filter_put_other: "asc xs \<Longrightarrow> (\<And>c. c \<in> insert b (set xs) \<Longrightarrow> P c \<Longrightarrow> b_BucketMs c \<noteq> b_BucketMs b) \<Longrightarrow>
  filter P (put b xs) = filter P xs"
proof -
  assume a: "asc xs" and n: "\<And>c. c \<in> insert b (set xs) \<Longrightarrow> P c \<Longrightarrow> b_BucketMs c \<noteq> b_BucketMs b"
  have "xs = filter (\<lambda>c. b_BucketMs c < b_BucketMs b) xs @ filter (\<lambda>c. b_BucketMs b \<le> b_BucketMs c) xs"
    using idx_spec(2,3)[OF a, of "b_BucketMs b"] by (metis append_take_drop_id)
  then have "filter P xs = filter P (filter (\<lambda>c. b_BucketMs c < b_BucketMs b) xs) @
      filter P (filter (\<lambda>c. b_BucketMs b \<le> b_BucketMs c) xs)" by (metis filter_append)
  also have "filter P (filter (\<lambda>c. b_BucketMs b \<le> b_BucketMs c) xs) =
      filter P (filter (\<lambda>c. b_BucketMs b < b_BucketMs c) xs)"
    using n by (force intro!: filter_cong simp: order_le_less)
  also have "\<not> P b" using n[of b] by auto
  ultimately show ?thesis by (simp add: put_def)
qed

text \<open>Putting a minute dirties its own higher buckets only.\<close>

lemma put_minute_dirty:
  assumes "dirty off a D s" "sb_series t = (sb_series s)(TF1m := put b (sb_series s TF1m))"
    and "sb_symbol t = sb_symbol s"
  shows "dirty off a (insert (b_BucketMs b) D) t"
  unfolding dirty_def
proof
  have asc: "asc (sb_series s TF1m)" using assms(1) by (simp add: dirty_def bars_asc_def)
  show "bars_asc t" using assms(1,2) asc_put[OF asc] by (simp add: dirty_def bars_asc_def)
  show "\<forall>tf \<in> set cascadeTFs. cons_but off a tf (insert (b_BucketMs b) D) t"
  proof
    fix tf assume tf: "tf \<in> set cascadeTFs"
    let ?hb = "\<lambda>m. BucketStartMsAnchored off m tf a"
    have "cons_at off a tf t h = cons_at off a tf s h" if "h \<noteq> ?hb (b_BucketMs b)" for h
    proof (rule cons_at_cong[OF assms(3) _ _ refl])
      show "sb_series t tf = sb_series s tf" using assms(2) cascade_intraday[OF tf] by simp
      have "members_of ?hb h (put b (sb_series s TF1m)) = members_of ?hb h (sb_series s TF1m)"
        unfolding members_of_def by (rule filter_put_other[OF asc]) (use that in auto)
      then show "map settled (members_of ?hb h (sb_series t TF1m)) = map settled (members_of ?hb h (sb_series s TF1m))"
        using assms(2) by simp
    qed
    then show "cons_but off a tf (insert (b_BucketMs b) D) t"
      using assms(1) tf by (auto simp: cons_but_def dirty_def)
  qed
qed

lemma settle_minute_dirty:
  assumes "dirty off a D s" "sb_series t = (sb_series s)(TF1m := xs)" "sb_symbol t = sb_symbol s"
    and "map settled xs = map settled (sb_series s TF1m)"
  shows "dirty off a D t"
  unfolding dirty_def
proof
  have "map b_BucketMs xs = map b_BucketMs (map settled xs)" by (simp add: comp_def)
  also have "\<dots> = map b_BucketMs (sb_series s TF1m)" unfolding assms(4) by (simp add: comp_def)
  finally show "bars_asc t" using assms(1,2) by (simp add: dirty_def bars_asc_def asc_def)
  show "\<forall>tf \<in> set cascadeTFs. cons_but off a tf D t"
  proof
    fix tf assume tf: "tf \<in> set cascadeTFs"
    have "cons_at off a tf t h = cons_at off a tf s h" for h
      using assms(2) cascade_intraday[OF tf] members_settled[OF assms(4)]
      by (intro cons_at_cong[OF assms(3) _ _ refl]) simp_all
    then show "cons_but off a tf D t" using assms(1) tf by (simp add: cons_but_def dirty_def)
  qed
qed

text \<open>One round of the cascade.\<close>

lemma cascade_one_dirty:
  assumes "whole_hours off" "tf \<in> set cascadeTFs" "bars_asc s"
  shows "sb_symbol (cascade_one off a m tf s) = sb_symbol s" "bars_asc (cascade_one off a m tf s)"
    and "tf' \<noteq> tf \<Longrightarrow> sb_series (cascade_one off a m tf s) tf' = sb_series s tf'"
    and "cons_but off a tf D s \<Longrightarrow> cons_but off a tf D (cascade_one off a m tf s)"
    and "m \<in> b_BucketMs ` set (sb_series s TF1m) \<Longrightarrow> cons_but off a tf (insert m D) s \<Longrightarrow>
      cons_but off a tf D (cascade_one off a m tf s)"
proof -
  define hb where "hb = (\<lambda>m. BucketStartMsAnchored off m tf a)"
  define ms where "ms = members_of hb (hb m) (sb_series s TF1m)"
  define nb where "nb = (foldBars (sb_symbol s) tf (hb m) ms)\<lparr>b_InProgress := maxBucket (sb_series s TF1m) < hb m + span_ms tf\<rparr>"
  have asc: "asc (sb_series s tf)" "asc (sb_series s TF1m)" using assms(3) by (simp_all add: bars_asc_def)
  have run: "cascade_one off a m tf s = (if ms = [] then s else fst (put_bar tf nb s))"
    using range_members[OF assms(1,2) asc(2) hb_def, of m]
    by (simp add: cascade_one_def Let_def ms_def nb_def hb_def span_ms_def)
  note p = put_bar_series[OF asc(1), of nb]
  show sb: "sb_symbol (cascade_one off a m tf s) = sb_symbol s" using run p by simp
  show "bars_asc (cascade_one off a m tf s)" using run p assms(3) asc_put[OF asc(1)] by (simp add: bars_asc_def)
  show other: "sb_series (cascade_one off a m tf s) tf' = sb_series s tf'" if "tf' \<noteq> tf" for tf' using run p that by simp
  have tf: "TF1m \<noteq> tf" using cascade_intraday[OF assms(2)] by auto
  have key: "b_BucketMs nb = hb m" by (simp add: nb_def)
  have at: "cons_at off a tf (cascade_one off a m tf s) h = (if h = hb m \<and> ms \<noteq> [] then True else cons_at off a tf s h)" for h
  proof (cases "ms = []")
    case False
    have "series_get (sb_series (cascade_one off a m tf s) tf) h = (if h = hb m then Some nb else series_get (sb_series s tf) h)"
      using run p False get_put[OF asc(1), of nb h] key by simp
    moreover have "same_but_forming nb (foldBars (sb_symbol s) tf (hb m) ms)" by (simp add: nb_def same_but_forming_def)
    ultimately show ?thesis
      unfolding cons_at_def sb other[OF tf]
      using False by (simp add: Let_def hb_def[symmetric] ms_def[symmetric])
  qed (simp add: run)
  show "cons_but off a tf D s \<Longrightarrow> cons_but off a tf D (cascade_one off a m tf s)"
    by (simp add: cons_but_def at)
  assume "m \<in> b_BucketMs ` set (sb_series s TF1m)"
  then have "ms \<noteq> []" by (auto simp: ms_def members_of_def filter_empty_conv)
  then show "cons_but off a tf (insert m D) s \<Longrightarrow> cons_but off a tf D (cascade_one off a m tf s)"
    by (auto simp: cons_but_def at hb_def)
qed

lemma cascade_dirty:
  assumes "whole_hours off" "bars_asc s"
  shows "sb_symbol (cascade off a m s) = sb_symbol s" "sb_series (cascade off a m s) TF1m = sb_series s TF1m"
    and "dirty off a D s \<Longrightarrow> dirty off a D (cascade off a m s)"
    and "m \<in> b_BucketMs ` set (sb_series s TF1m) \<Longrightarrow> dirty off a (insert m D) s \<Longrightarrow>
      dirty off a D (cascade off a m s)"
proof -
  have one: "sb_symbol (fold (cascade_one off a m) tfs s) = sb_symbol s \<and>
      bars_asc (fold (cascade_one off a m) tfs s) \<and>
      (\<forall>tf. tf \<notin> set tfs \<longrightarrow> sb_series (fold (cascade_one off a m) tfs s) tf = sb_series s tf) \<and>
      (\<forall>tf \<in> set cascadeTFs. \<forall>D. cons_but off a tf D s \<longrightarrow> cons_but off a tf D (fold (cascade_one off a m) tfs s)) \<and>
      (m \<in> b_BucketMs ` set (sb_series s TF1m) \<longrightarrow> (\<forall>tf \<in> set tfs. \<forall>D. cons_but off a tf (insert m D) s \<longrightarrow>
         cons_but off a tf D (fold (cascade_one off a m) tfs s)))"
    if "set tfs \<subseteq> set cascadeTFs" "bars_asc s" for tfs s
    using that
  proof (induction tfs arbitrary: s)
    case (Cons tf tfs)
    let ?t = "cascade_one off a m tf s"
    have tf: "tf \<in> set cascadeTFs" using Cons.prems(1) by simp
    note c = cascade_one_dirty[OF assms(1) tf Cons.prems(2), where a = a and m = m]
    have minute: "sb_series ?t TF1m = sb_series s TF1m" using c(3)[where tf' = TF1m] cascade_intraday[OF tf] by auto
    have at: "cons_but off a tf' D ?t = cons_but off a tf' D s" if "tf' \<noteq> tf" for tf' D
      unfolding cons_but_def cons_at_def c(1) c(3)[OF that] minute ..
    have IH: "sb_symbol (fold (cascade_one off a m) tfs ?t) = sb_symbol ?t"
      "bars_asc (fold (cascade_one off a m) tfs ?t)"
      "\<And>tf. tf \<notin> set tfs \<Longrightarrow> sb_series (fold (cascade_one off a m) tfs ?t) tf = sb_series ?t tf"
      "\<And>tf D. tf \<in> set cascadeTFs \<Longrightarrow> cons_but off a tf D ?t \<Longrightarrow> cons_but off a tf D (fold (cascade_one off a m) tfs ?t)"
      "\<And>tf D. m \<in> b_BucketMs ` set (sb_series ?t TF1m) \<Longrightarrow> tf \<in> set tfs \<Longrightarrow> cons_but off a tf (insert m D) ?t \<Longrightarrow>
         cons_but off a tf D (fold (cascade_one off a m) tfs ?t)"
      using Cons.IH[of ?t] Cons.prems(1) c(2) by simp_all
    have keep: "cons_but off a tf' D ?t" if "cons_but off a tf' D s" for tf' D
      using that c(4)[where D = D] at[of tf' D] by (cases "tf' = tf") simp_all
    have fix_head: "cons_but off a tf D (fold (cascade_one off a m) tfs ?t)"
      if "m \<in> b_BucketMs ` set (sb_series s TF1m)" "cons_but off a tf (insert m D) s" for D
      using IH(4)[OF tf] c(5)[where D = D] that by simp
    have fix_tail: "cons_but off a tf' D (fold (cascade_one off a m) tfs ?t)"
      if "m \<in> b_BucketMs ` set (sb_series s TF1m)" "tf' \<in> set tfs" "cons_but off a tf' (insert m D) s" for tf' D
      using IH(5)[of tf' D] keep[OF that(3)] that minute by simp
    show ?case using IH(1-3) IH(4)[OF _ keep] c(1,3) fix_head fix_tail by auto
  qed simp
  have "TF1m \<notin> set cascadeTFs" by (simp add: cascadeTFs_def)
  then show "sb_symbol (cascade off a m s) = sb_symbol s" "sb_series (cascade off a m s) TF1m = sb_series s TF1m"
    "dirty off a D s \<Longrightarrow> dirty off a D (cascade off a m s)"
    "m \<in> b_BucketMs ` set (sb_series s TF1m) \<Longrightarrow> dirty off a (insert m D) s \<Longrightarrow> dirty off a D (cascade off a m s)"
    using one[OF order_refl assms(2)] by (simp_all add: cascade_def dirty_def)
qed

abbreviation bars_inv :: "tz \<Rightarrow> int \<Rightarrow> bars_state \<Rightarrow> bool" where
  "bars_inv off a \<equiv> dirty off a {}"

lemma bars_inv_asc [simp]: "dirty off a D s \<Longrightarrow> bars_asc s" "dirty off a D s \<Longrightarrow> asc (sb_series s tf)"
  by (simp_all add: dirty_def bars_asc_def)

lemma in_put: "b_BucketMs b \<in> b_BucketMs ` set (put b xs)"
  by (simp add: set_put)

text \<open>A minute put by hand, then announced and cascaded.\<close>

lemma put_then_cascade:
  assumes "whole_hours off" "bars_inv off a s" "keeps ((s\<lparr>sb_series := (sb_series s)(TF1m := put b (sb_series s TF1m))\<rparr>)) t"
  shows "bars_inv off a (cascade off a (b_BucketMs b) t)"
proof -
  let ?u = "s\<lparr>sb_series := (sb_series s)(TF1m := put b (sb_series s TF1m))\<rparr>"
  have "dirty off a {b_BucketMs b} ?u" using put_minute_dirty[OF assms(2), of ?u b] by simp
  then have t: "dirty off a {b_BucketMs b} t" by (rule keeps_dirty[OF assms(3)])
  have "sb_series t TF1m = put b (sb_series s TF1m)" using assms(3) by (simp add: keeps_def)
  then show ?thesis using cascade_dirty(4)[OF assms(1), of t "b_BucketMs b" a "{}"] t in_put[of b] by simp
qed

lemma merge_inv:
  assumes "whole_hours off" "bars_inv off a s"
  shows "bars_inv off a (mergeShadowDelta off a sh final s)"
proof (cases "series_get (sb_series s TF1m) (b_BucketMs sh)")
  case (Some ab)
  let ?xs = "sb_series s TF1m"
  have asc: "asc ?xs" using assms(2) by simp
  have ab: "ab \<in> set ?xs" "b_BucketMs ab = b_BucketMs sh" using Some series_get_iff[OF asc] by auto
  let ?nb = "with_delta sh ab"
  have nb: "b_BucketMs ?nb = b_BucketMs sh" using ab by (simp add: with_delta_def)
  have "?xs[idx ?xs (b_BucketMs sh) := ?nb] = put ?nb ?xs"
    using set_at_idx[OF asc, of ?nb] at_idx(2)[OF asc ab] ab nb by simp
  then have "keeps (s\<lparr>sb_series := (sb_series s)(TF1m := put ?nb ?xs)\<rparr>)
      (barOut ?nb (set_series TF1m (?xs[idx ?xs (b_BucketMs sh) := ?nb]) s))"
    by (auto intro: keepsI simp: set_series_def barOut_def emit_def)
  from put_then_cascade[OF assms this] show ?thesis using Some assms(2) by (simp add: mergeShadowDelta_def Let_def)
qed (use assms in \<open>simp add: mergeShadowDelta_def\<close>)

lemma keeps_inv: "keeps s t \<Longrightarrow> bars_inv off a s \<Longrightarrow> bars_inv off a t"
  by (rule keeps_dirty)

lemma fold_inv: "(\<And>x s. bars_inv off a s \<Longrightarrow> bars_inv off a (f x s)) \<Longrightarrow> bars_inv off a s \<Longrightarrow> bars_inv off a (fold f xs s)"
  by (induction xs arbitrary: s) auto

lemma put_shadow_inv:
  assumes "whole_hours off" "bars_inv off a s"
  shows "bars_inv off a (put_shadow off a b s)"
proof -
  have "bars_inv off a (s\<lparr>sb_shadowFinals := m\<rparr>)" for m
    by (rule keeps_inv[OF keepsI assms(2)]) simp_all
  from merge_inv[OF assms(1) this] merge_inv[OF assms] show ?thesis
    by (auto simp: put_shadow_def intro: keeps_inv[OF keeps_validate])
qed

lemma applyTick_inv:
  assumes "whole_hours off" "bars_inv off a s"
  shows "bars_inv off a (bars_applyTick off a t s)"
proof -
  define s1 where "s1 = (if DayMs off (tk_TsMs t) \<noteq> sb_curDay s
    then s\<lparr>sb_curDay := DayMs off (tk_TsMs t), sb_shadowFinals := [], sb_compared := []\<rparr> else s)"
  define s2 where "s2 = fold put_10s (snd (addTick off t (sb_gapPending s1) (sb_agg10 s1)))
    (s1\<lparr>sb_agg10 := fst (addTick off t (sb_gapPending s1) (sb_agg10 s1))\<rparr>)"
  have "keeps s s1" by (rule keepsI) (simp_all add: s1_def)
  moreover have "keeps s1 s2" unfolding s2_def
    by (rule keeps_trans[OF keepsI keeps_fold]) simp_all
  ultimately have "bars_inv off a s2" using assms(2) by (blast intro: keeps_inv)
  then have "bars_inv off a (s2\<lparr>sb_shadow := sh\<rparr>)" for sh by (rule keeps_inv[OF keepsI, rotated 2]) simp_all
  then show ?thesis
    unfolding bars_applyTick_def Let_def split_beta s1_def[symmetric] s2_def[symmetric]
    by (rule fold_inv[rotated]) (rule put_shadow_inv[OF assms(1)])
qed

lemma series_last_asc: "asc xs \<Longrightarrow> series_last xs = Some l \<Longrightarrow> (\<exists>ys. xs = ys @ [l] \<and> (\<forall>c \<in> set ys. b_BucketMs c < b_BucketMs l))"
  by (cases xs rule: rev_cases) (auto simp: series_last_def asc_def sorted_wrt_append)

lemma finalize_inv:
  assumes "bars_inv off a s"
  shows "bars_inv off a (fst (finalize_last s))"
    and "map b_BucketMs (sb_series (fst (finalize_last s)) TF1m) = map b_BucketMs (sb_series s TF1m)"
proof -
  have asc: "asc (sb_series s TF1m)" using assms by simp
  have "bars_inv off a (fst (finalize_last s)) \<and>
    map b_BucketMs (sb_series (fst (finalize_last s)) TF1m) = map b_BucketMs (sb_series s TF1m)"
  proof (cases "series_last (sb_series s TF1m)")
    case (Some l)
    then obtain ys where ys: "sb_series s TF1m = ys @ [l]" using series_last_asc[OF asc] by blast
    have "bars_inv off a (set_series TF1m (ys @ [settled l]) s)"
      by (rule settle_minute_dirty[OF assms, where xs = "ys @ [settled l]"]) (simp_all add: set_series_def ys)
    then have "bars_inv off a (barOut (settled l) (set_series TF1m (ys @ [settled l]) s))"
      by (rule keeps_inv[OF keeps_emit(2)])
    then show ?thesis using Some assms ys by (simp add: finalize_last_def Let_def set_series_def)
  qed (use assms in \<open>simp add: finalize_last_def\<close>)
  then show "bars_inv off a (fst (finalize_last s))"
    and "map b_BucketMs (sb_series (fst (finalize_last s)) TF1m) = map b_BucketMs (sb_series s TF1m)" by auto
qed

definition has_minute :: "int \<Rightarrow> bars_state \<Rightarrow> bool" where
  "has_minute m s \<longleftrightarrow> m \<in> b_BucketMs ` set (sb_series s TF1m)"

lemma keeps_minute: "keeps s t \<Longrightarrow> has_minute m t \<longleftrightarrow> has_minute m s"
  by (simp add: keeps_def has_minute_def)

lemma set_minute:
  assumes "bars_inv off a s"
  shows "dirty off a {b_BucketMs b} (set_series TF1m (fst (upsert b (sb_series s TF1m))) s) \<and>
    has_minute (b_BucketMs b) (set_series TF1m (fst (upsert b (sb_series s TF1m))) s)"
proof -
  have "fst (upsert b (sb_series s TF1m)) = put b (sb_series s TF1m)" using assms by (simp add: upsert_put)
  then show ?thesis using put_minute_dirty[OF assms, of "set_series TF1m (put b (sb_series s TF1m)) s" b] in_put[of b]
    by (simp add: set_series_def has_minute_def)
qed

lemma put_bar_keeps: "keeps (set_series tf (fst (upsert b (sb_series s tf))) s) (fst (put_bar tf b s))"
  by (simp add: put_bar_def Let_def split_beta)

lemma put_1m_dirty:
  assumes "bars_inv off a s"
  shows "dirty off a {b_BucketMs b} (fst (put_1m b s)) \<and> has_minute (b_BucketMs b) (fst (put_1m b s))"
proof -
  define good where "good t \<longleftrightarrow> dirty off a {b_BucketMs b} t \<and> has_minute (b_BucketMs b) t" for t
  have k: "good t \<Longrightarrow> keeps t u \<Longrightarrow> good u" for t u
    using keeps_dirty[of t u off a] keeps_minute[of t u] by (simp add: good_def)
  have set: "good (set_series TF1m (fst (upsert b (sb_series t TF1m))) t)" if "bars_inv off a t" for t
    using set_minute[OF that, of b] by (simp add: good_def)
  have out: "good (barOut b (set_series TF1m (fst (upsert b (sb_series t TF1m))) t))" if "bars_inv off a t" for t
    by (rule k[OF set[OF that]]) simp
  have bar: "good (fst (put_bar TF1m c s))" if "b_BucketMs c = b_BucketMs b" for c
    using keeps_dirty[OF put_bar_keeps] keeps_minute[OF put_bar_keeps, of "b_BucketMs c" TF1m c s] set_minute[OF assms, of c] that
    by (simp add: good_def)
  have "good (fst (put_1m b s))"
  proof (cases "series_last (sb_series s TF1m)")
    case None
    then show ?thesis using out[OF assms] by (simp add: put_1m_def)
  next
    case (Some l)
    consider "b_BucketMs l < b_BucketMs b" | "b_BucketMs b = b_BucketMs l" | "b_BucketMs b < b_BucketMs l" by linarith
    then show ?thesis
    proof cases
      case 1
      then show ?thesis using Some out[OF finalize_inv(1)[OF assms]] by (simp add: put_1m_def Let_def split_beta)
    next
      case 2
      then show ?thesis using Some bar[of "b\<lparr>b_InProgress := b_InProgress l\<rparr>"] by (simp add: put_1m_def)
    next
      case 3
      have "good (fst (put_bar TF1m (settled b) s))" using bar[of "settled b"] by simp
      then show ?thesis using Some 3 k[OF _ keeps_validate] by (simp add: put_1m_def Let_def split_beta)
    qed
  qed
  then show ?thesis by (simp add: good_def)
qed

lemma fillDelta_bucket [simp]: "b_BucketMs (fillDelta s b) = b_BucketMs b"
  by (simp add: fillDelta_def with_delta_def split: option.split)

lemma apply_minute_inv:
  assumes "whole_hours off" "bars_inv off a s"
  shows "bars_inv off a (apply_minute off a raw s)"
proof -
  define s1 where "s1 = bars_seedAnchor (kb_C raw) 0 (kb_BucketMs raw) s"
  define nb where "nb = fillDelta s1 (bar_of (kb_Symbol raw) TF1m raw True)"
  define s2 where "s2 = fst (put_1m nb s1)"
  define f where "f = snd (put_1m nb s1)"
  define s3 where "s3 = (if 0 \<le> f then cascade off a f (validate f s2) else s2)"
  have "bars_inv off a s1" by (rule keeps_inv[OF _ assms(2)]) (simp add: s1_def)
  from put_1m_dirty[OF this] have s2: "dirty off a {b_BucketMs nb} s2" "has_minute (b_BucketMs nb) s2"
    by (auto simp: s2_def)
  have v: "dirty off a {b_BucketMs nb} (validate f s2)" "has_minute (b_BucketMs nb) (validate f s2)"
    using keeps_dirty[OF keeps_validate s2(1)] keeps_minute[OF keeps_validate] s2(2) by auto
  have s3: "dirty off a {b_BucketMs nb} s3" "has_minute (b_BucketMs nb) s3"
    using cascade_dirty(2,3)[OF assms(1), where s = "validate f s2" and m = f and a = a] v s2 by (auto simp: s3_def has_minute_def)
  have "bars_inv off a (cascade off a (b_BucketMs nb) s3)"
    using cascade_dirty(4)[OF assms(1), of s3 "b_BucketMs nb" a "{}"] s3 by (simp add: has_minute_def)
  then have "bars_inv off a (deriveDaily off (b_BucketMs nb) (cascade off a (b_BucketMs nb) s3))"
    by (rule keeps_inv[OF keeps_deriveDaily])
  moreover have "apply_minute off a raw s = deriveDaily off (b_BucketMs nb) (cascade off a (b_BucketMs nb) s3)"
    unfolding apply_minute_def Let_def split_beta s1_def[symmetric] nb_def[symmetric] s2_def[symmetric]
      f_def[symmetric] s3_def[symmetric] by (rule refl)
  ultimately show ?thesis by simp
qed

lemma seed_minute_inv:
  assumes "whole_hours off" "bars_inv off a s"
  shows "bars_inv off a (seed_minute off a live raw s)"
proof (cases "kb_BucketMs raw = live")
  case False
  define s1 where "s1 = bars_seedAnchor (kb_C raw) 0 (kb_BucketMs raw) s"
  define nb where "nb = fillDelta s1 (bar_of (sb_symbol s1) TF1m raw False)"
  have s1: "bars_inv off a s1" by (rule keeps_inv[OF _ assms(2)]) (simp add: s1_def)
  have d: "dirty off a {b_BucketMs nb} (fst (put_bar TF1m nb s1))" "has_minute (b_BucketMs nb) (fst (put_bar TF1m nb s1))"
    using keeps_dirty[OF put_bar_keeps] keeps_minute[OF put_bar_keeps, of "b_BucketMs nb" TF1m nb s1] set_minute[OF s1, of nb]
    by simp_all
  have "bars_inv off a (cascade off a (b_BucketMs nb) (fst (put_bar TF1m nb s1)))"
    using cascade_dirty(4)[OF assms(1), of "fst (put_bar TF1m nb s1)" "b_BucketMs nb" a "{}"] d by (simp add: has_minute_def)
  then have "bars_inv off a (deriveDaily off (b_BucketMs nb) (cascade off a (b_BucketMs nb) (fst (put_bar TF1m nb s1))))"
    by (rule keeps_inv[OF keeps_deriveDaily])
  moreover have "bars_inv off a (fst (put_bar TF1m nb s1))" if "\<not> snd (put_bar TF1m nb s1)"
  proof -
    have same: "put nb (sb_series s1 TF1m) = sb_series s1 TF1m" using put_bar_series(3)[OF _ that] s1 by simp
    have "keeps s1 (fst (put_bar TF1m nb s1))"
      using put_bar_series[of s1 TF1m nb] s1 same by (intro keepsI) simp_all
    then show ?thesis by (rule keeps_inv[OF _ s1])
  qed
  ultimately show ?thesis using False
    by (simp add: seed_minute_def Let_def split_beta s1_def[symmetric] nb_def[symmetric])
qed (use assms in \<open>simp add: seed_minute_def\<close>)

text \<open>Everything that reaches the bars of a symbol.\<close>

datatype bars_op =
    OpTicks "tick list"
  | OpSeedTicks "tick list"
  | OpMinutes "kbar list"
  | OpHistory1m "kbar list"
  | OpHistory10s "kbar list"
  | OpOlder1m "kbar list"
  | OpDaily "kbar list"
  | OpQuote f64 f64 int
  | OpGap

fun bars_step :: "tz \<Rightarrow> int \<Rightarrow> bars_op \<Rightarrow> bars_state \<Rightarrow> bars_state" where
  "bars_step off a (OpTicks ts) s = bars_applyTicks off a ts s"
| "bars_step off a (OpSeedTicks ts) s = seed_ticks off a ts s"
| "bars_step off a (OpMinutes raws) s = apply1m off a raws s"
| "bars_step off a (OpHistory1m raws) s = seedHistory1m off a raws s"
| "bars_step off a (OpHistory10s raws) s = seedHistory10s off raws s"
| "bars_step off a (OpOlder1m raws) s = seedOlder1m off a raws s"
| "bars_step off a (OpDaily raws) s = seedDaily off raws s"
| "bars_step off a (OpQuote price prevClose tsMs) s = bars_seedAnchor price prevClose tsMs s"
| "bars_step off a OpGap s = markGaps s"

lemma set_seeding_inv [simp]: "bars_inv off a (s\<lparr>sb_seeding := b\<rparr>) \<longleftrightarrow> bars_inv off a s"
  using keeps_inv[OF keepsI, of "s\<lparr>sb_seeding := b\<rparr>" s] keeps_inv[OF keepsI, of s "s\<lparr>sb_seeding := b\<rparr>"] by auto

lemma seeded_inv:
  assumes "bars_inv off a s" "\<And>x t. bars_inv off a t \<Longrightarrow> bars_inv off a (f x t)"
  shows "bars_inv off a ((fold f xs (s\<lparr>sb_seeding := True\<rparr>))\<lparr>sb_seeding := False\<rparr>)"
  using fold_inv[of off a f, OF assms(2)] assms(1) by simp

lemma emitted_inv: "bars_inv off a s \<Longrightarrow> bars_inv off a (emit u (emitSeedSnapshots tfs s))"
  by (rule keeps_inv[OF keeps_trans[OF keeps_snapshots keeps_emit(1)]])

lemma prepends_inv:
  assumes "bars_inv off a s"
  shows "bars_inv off a (emit u (fold (\<lambda>tf s. let newer = g tf s in if newer = [] then s else emit (BarPrepend tf newer) s) tfs s))"
  by (rule keeps_inv[OF keeps_trans[OF keeps_fold keeps_emit(1)] assms]) (simp add: Let_def)

lemma step_inv:
  assumes "whole_hours off" "bars_inv off a s"
  shows "bars_inv off a (bars_step off a x s)"
proof -
  note seed = seeded_inv[OF assms(2), of "seed_minute off a l" for l, OF seed_minute_inv[OF assms(1)]]
  have leaf: "bars_inv off a ((fold f xs (s\<lparr>sb_seeding := True\<rparr>))\<lparr>sb_seeding := False\<rparr>)"
    if "\<And>x t. keeps t (f x t)" for f :: "kbar \<Rightarrow> bars_state \<Rightarrow> bars_state" and xs
    by (rule seeded_inv[OF assms(2)]) (rule keeps_inv[OF that])
  have ticks: "bars_inv off a t \<Longrightarrow> bars_inv off a (bars_applyTicks off a ts t)" for ts t
    unfolding bars_applyTicks_def by (rule fold_inv[OF applyTick_inv[OF assms(1)]])
  show ?thesis
  proof (cases x)
    case (OpSeedTicks ts)
    have "bars_inv off a ((bars_applyTicks off a ts (s\<lparr>sb_seeding := True\<rparr>))\<lparr>sb_seeding := False\<rparr>)"
      using ticks[of "s\<lparr>sb_seeding := True\<rparr>"] assms(2) by simp
    then show ?thesis using OpSeedTicks emitted_inv by (simp add: seed_ticks_def emitTickSeedSnapshots_def Let_def)
  next
    case (OpMinutes raws)
    then show ?thesis using fold_inv[OF apply_minute_inv[OF assms(1)] assms(2)] by (simp add: apply1m_def)
  next
    case (OpOlder1m raws)
    then show ?thesis using prepends_inv[OF seed] assms(2) by (simp add: seedOlder1m_def Let_def)
  next
    case (OpGap)
    have "keeps s (markGaps s)" by (rule keepsI) (simp_all add: markGaps_def)
    then show ?thesis using OpGap keeps_inv[OF _ assms(2)] by simp
  qed (use assms(2) ticks emitted_inv[OF seed] emitted_inv[OF leaf] keeps_inv[OF keeps_anchor assms(2)] in
      \<open>simp_all add: seedHistory1m_def seedHistory10s_def seedDaily_def Let_def\<close>)
qed

lemma new_inv: "bars_inv off a (newSymbolBars symbol)"
  by (simp add: dirty_def bars_asc_def asc_def cons_but_def cons_at_def newSymbolBars_def members_of_def
      series_get_def Let_def)

lemma bars_events: "whole_hours off \<Longrightarrow> event_fold (\<lambda>s x. bars_step off a x s) (bars_inv off a) (\<lambda>s t. True)"
  by unfold_locales (auto intro: step_inv)

interpretation ny_bars: event_fold "\<lambda>s x. bars_step ny2024 AnchorSecsDefault x s"
    "bars_inv ny2024 AnchorSecsDefault" "\<lambda>s t. True"
  by (rule bars_events[OF ny2024_whole])

text \<open>C34. After any operations on a symbol each 5, 15, 30 and 60 minute bucket has a bar exactly when it has minutes, and that bar is the fold of those minutes, whatever mix of live minutes, prints and history seeds came, the forming flag aside.\<close>

theorem higher_bars_fold_minutes:
  assumes "whole_hours off" "tf \<in> set cascadeTFs"
    and "s = foldl (\<lambda>s x. bars_step off anchorSecs x s) (newSymbolBars symbol) ops"
    and "members = filter (\<lambda>b. BucketStartMsAnchored off (b_BucketMs b) tf anchorSecs = h) (sb_series s TF1m)"
  shows "case series_get (sb_series s tf) h of
      None \<Rightarrow> members = []
    | Some b \<Rightarrow> members \<noteq> [] \<and>
        b\<lparr>b_InProgress := False\<rparr> = (foldBars (sb_symbol s) tf h members)\<lparr>b_InProgress := False\<rparr>"
proof -
  have "bars_inv off anchorSecs s"
    unfolding assms(3) by (rule event_fold.inv_fold[OF bars_events[OF assms(1)] new_inv])
  then have "cons_at off anchorSecs tf s h" using assms(2) by (simp add: dirty_def cons_but_def)
  then show ?thesis
    unfolding cons_at_def Let_def members_of_def same_but_forming_def assms(4)[symmetric] .
qed

text \<open>C35. Every series a symbol ever reaches is strictly ascending, so the binary search refines finite maps: get is lookup, upsert is update, and a range is the bars between its ends.\<close>

theorem series_refine_maps:
  assumes "whole_hours off"
    and "s = foldl (\<lambda>s x. bars_step off anchorSecs x s) (newSymbolBars symbol) ops"
  shows "sorted_wrt (<) (map b_BucketMs (sb_series s tf)) \<and>
    series_get (sb_series s tf) k = map_of (map (\<lambda>b. (b_BucketMs b, b)) (sb_series s tf)) k \<and>
    series_get (fst (upsert b (sb_series s tf))) k =
      ((series_get (sb_series s tf))(b_BucketMs b \<mapsto> b)) k \<and>
    (lo \<le> hi \<longrightarrow> rangeBars (sb_series s tf) lo hi =
      filter (\<lambda>c. lo \<le> b_BucketMs c \<and> b_BucketMs c < hi) (sb_series s tf))"
proof -
  have "bars_inv off anchorSecs s"
    unfolding assms(2) by (rule event_fold.inv_fold[OF bars_events[OF assms(1)] new_inv])
  then have asc: "asc (sb_series s tf)" by simp
  have dist: "distinct (map b_BucketMs (sb_series s tf))" using asc strict_sorted_iff by (auto simp: asc_def)
  have "series_get (sb_series s tf) k = map_of (map (\<lambda>b. (b_BucketMs b, b)) (sb_series s tf)) k"
  proof (cases "series_get (sb_series s tf) k")
    case None
    then have "map_of (map (\<lambda>b. (b_BucketMs b, b)) (sb_series s tf)) k = None"
      using series_get_None[OF asc, of k] by (auto simp: map_of_eq_None_iff)
    then show ?thesis using None by simp
  next
    case (Some c)
    then have "(k, c) \<in> set (map (\<lambda>b. (b_BucketMs b, b)) (sb_series s tf))" using series_get_iff[OF asc] by auto
    then show ?thesis using Some dist by (simp add: comp_def)
  qed
  then show ?thesis using asc get_put[OF asc] upsert_put[OF asc] range_filter[OF asc] by (simp add: asc_def fun_upd_def)
qed

section \<open>What a history seed leaves\<close>

text \<open>Every higher intraday bar is in progress, and no minute is later than \<open>m\<close>.\<close>

definition all_open :: "bars_state \<Rightarrow> bool" where
  "all_open s \<longleftrightarrow> (\<forall>tf \<in> set cascadeTFs. \<forall>b \<in> set (sb_series s tf). b_InProgress b)"

definition up_to :: "int \<Rightarrow> bars_state \<Rightarrow> bool" where
  "up_to m s \<longleftrightarrow> (\<forall>b \<in> set (sb_series s TF1m). b_BucketMs b \<le> m)"

lemma keeps_open: "keeps s t \<Longrightarrow> all_open s \<Longrightarrow> all_open t" "keeps s t \<Longrightarrow> up_to m s \<Longrightarrow> up_to m t"
  by (auto simp: keeps_def all_open_def up_to_def)

lemma max_up_to: "asc xs \<Longrightarrow> (\<forall>b \<in> set xs. b_BucketMs b \<le> m) \<Longrightarrow> 0 \<le> m \<Longrightarrow> maxBucket xs \<le> m"
  by (cases xs rule: rev_cases) (auto simp: maxBucket_def series_last_def)

lemma cascade_one_open:
  assumes "whole_hours off" "tf \<in> set cascadeTFs" "bars_asc s" "all_open s" "maxBucket (sb_series s TF1m) \<le> m"
  shows "all_open (cascade_one off a m tf s) \<and> sb_series (cascade_one off a m tf s) TF1m = sb_series s TF1m"
proof -
  note g = anchored_grid[OF assms(1) conjunct1[OF cascade_intraday[OF assms(2)]], of a]
  define nb where "nb = (foldBars (sb_symbol s) tf (BucketStartMsAnchored off m tf a)
      (rangeBars (sb_series s TF1m) (BucketStartMsAnchored off m tf a) (BucketStartMsAnchored off m tf a + span_ms tf)))
    \<lparr>b_InProgress := maxBucket (sb_series s TF1m) < BucketStartMsAnchored off m tf a + span_ms tf\<rparr>"
  have "b_InProgress nb" using bucket_grid.bucket_lt[OF g, of m] assms(5) by (simp add: nb_def)
  moreover have "cascade_one off a m tf s = s \<or> cascade_one off a m tf s = fst (put_bar tf nb s)"
    by (simp add: cascade_one_def Let_def nb_def span_ms_def)
  moreover have "TF1m \<noteq> tf" using cascade_intraday[OF assms(2)] by auto
  ultimately show ?thesis using assms(3,4) put_bar_series(1)[of s tf nb]
    by (auto simp: all_open_def bars_asc_def set_put split: if_splits)
qed

lemma cascade_open:
  assumes "whole_hours off" "bars_asc s" "all_open s" "maxBucket (sb_series s TF1m) \<le> m"
  shows "all_open (cascade off a m s)"
proof -
  have "bars_asc s \<Longrightarrow> all_open s \<Longrightarrow> maxBucket (sb_series s TF1m) \<le> m \<Longrightarrow> set tfs \<subseteq> set cascadeTFs \<Longrightarrow>
      all_open (fold (cascade_one off a m) tfs s)" for tfs s
  proof (induction tfs arbitrary: s)
    case (Cons tf tfs)
    then show ?case using cascade_one_open[OF assms(1), of tf s m a] cascade_one_dirty(2)[OF assms(1), of tf s a m] by simp
  qed simp
  then show ?thesis using assms by (simp add: cascade_def)
qed

lemma seed_minute_open:
  assumes "whole_hours off" "bars_inv off a s" "all_open s" "up_to (kb_BucketMs raw) s" "0 \<le> kb_BucketMs raw"
  shows "all_open (seed_minute off a live raw s) \<and> up_to (kb_BucketMs raw) (seed_minute off a live raw s)"
proof (cases "kb_BucketMs raw = live")
  case False
  define m where "m = kb_BucketMs raw"
  define s1 where "s1 = bars_seedAnchor (kb_C raw) 0 (kb_BucketMs raw) s"
  define nb where "nb = fillDelta s1 (bar_of (sb_symbol s1) TF1m raw False)"
  define s2 where "s2 = fst (put_bar TF1m nb s1)"
  have k: "keeps s s1" by (simp add: s1_def)
  have s1: "bars_inv off a s1" by (rule keeps_inv[OF k assms(2)])
  have key: "b_BucketMs nb = m" by (simp add: nb_def bar_of_def m_def)
  have p: "sb_series s2 = (sb_series s1)(TF1m := put nb (sb_series s1 TF1m))" unfolding s2_def by (rule put_bar_series) (use s1 in simp)
  have asc2: "bars_asc s2" using s1 by (auto simp: p bars_asc_def intro: asc_put)
  have "all_open s1" "up_to m s1" using keeps_open[OF k] assms(3,4) by (simp_all add: m_def)
  then have s2: "all_open s2" "up_to m s2" using key
    by (auto simp: all_open_def up_to_def p set_put dest: cascade_intraday)
  have "maxBucket (sb_series s2 TF1m) \<le> m"
    using max_up_to[of "sb_series s2 TF1m" m] asc2 s2(2) assms(5) by (simp add: bars_asc_def up_to_def m_def)
  then have "all_open (cascade off a m s2)" by (rule cascade_open[OF assms(1) asc2 s2(1)])
  moreover have "up_to m (cascade off a m s2)" using s2(2) cascade_dirty(2)[OF assms(1) asc2] by (simp add: up_to_def)
  ultimately have "all_open (deriveDaily off m (cascade off a m s2))" "up_to m (deriveDaily off m (cascade off a m s2))"
    using keeps_open[OF keeps_deriveDaily] by blast+
  moreover have "seed_minute off a live raw s =
      (if snd (put_bar TF1m nb s1) then deriveDaily off (b_BucketMs nb) (cascade off a (b_BucketMs nb) s2) else s2)"
    using False by (simp add: seed_minute_def Let_def split_beta s1_def[symmetric] nb_def[symmetric] s2_def[symmetric])
  ultimately show ?thesis using s2 unfolding key m_def by simp
qed (use assms in \<open>simp add: seed_minute_def\<close>)

lemma up_to_mono: "up_to m s \<Longrightarrow> m \<le> n \<Longrightarrow> up_to n s"
  by (force simp: up_to_def)

lemma seed_open:
  "whole_hours off \<Longrightarrow> bars_inv off a s \<Longrightarrow> all_open s \<Longrightarrow> (\<And>r. r \<in> set raws \<Longrightarrow> up_to (kb_BucketMs r) s \<and> 0 \<le> kb_BucketMs r) \<Longrightarrow>
    sorted (map kb_BucketMs raws) \<Longrightarrow> all_open (fold (seed_minute off a live) raws s)"
proof (induction raws arbitrary: s)
  case (Cons raw raws)
  have step: "all_open (seed_minute off a live raw s) \<and> up_to (kb_BucketMs raw) (seed_minute off a live raw s)"
    using seed_minute_open[OF Cons.prems(1-3), of raw live] Cons.prems(4)[of raw] by simp
  show ?case unfolding fold.simps comp_apply
  proof (rule Cons.IH[OF Cons.prems(1) seed_minute_inv[OF Cons.prems(1,2)]])
    show "up_to (kb_BucketMs r) (seed_minute off a live raw s) \<and> 0 \<le> kb_BucketMs r" if "r \<in> set raws" for r
      using step up_to_mono[of "kb_BucketMs raw" "seed_minute off a live raw s" "kb_BucketMs r"] Cons.prems(4)[of r] Cons.prems(5) that by simp
  qed (use step Cons.prems(5) in simp_all)
qed simp

text \<open>C36. A cold seed of any minutes in ascending order (on whole-hour zone offsets) leaves every 5, 15, 30 and 60 minute bucket that has minutes with a bar that is in progress: however many of those buckets are complete, the list of final bars of the timeframe is empty.\<close>

theorem seed_leaves_complete_bar_open:
  assumes "whole_hours off" "sorted (map kb_BucketMs raws)" "\<forall>r \<in> set raws. 0 \<le> kb_BucketMs r" "tf \<in> set cascadeTFs"
    and "s = seedHistory1m off anchorSecs raws (newSymbolBars symbol)"
  shows "finalizedBars s tf = [] \<and>
    (\<forall>b \<in> set (sb_series s TF1m). \<exists>c. series_get (sb_series s tf) (BucketStartMsAnchored off (b_BucketMs b) tf anchorSecs) = Some c \<and>
      b_InProgress c)"
proof -
  have new: "all_open (newSymbolBars symbol\<lparr>sb_seeding := True\<rparr>)" "up_to m (newSymbolBars symbol\<lparr>sb_seeding := True\<rparr>)" for m
    by (simp_all add: all_open_def up_to_def newSymbolBars_def)
  have inv: "bars_inv off anchorSecs s"
    using step_inv[OF assms(1), of anchorSecs "newSymbolBars symbol" "OpHistory1m raws"] new_inv assms(5) by simp
  have fold: "all_open (fold (seed_minute off anchorSecs live) raws (newSymbolBars symbol\<lparr>sb_seeding := True\<rparr>))" for live
    by (rule seed_open[OF assms(1) _ new(1) _ assms(2)]) (use new assms(3) new_inv in auto)
  have "all_open s"
  proof (cases "raws = []")
    case True
    then show ?thesis using new(1) assms(5) by (simp add: seedHistory1m_def all_open_def)
  next
    case False
    have e: "sb_series (emit u t) = sb_series t" for u t by (simp add: emit_def)
    have "sb_series (emitSeedSnapshots tfs t) = sb_series t" for tfs t
      unfolding emitSeedSnapshots_def by (induction tfs arbitrary: t) (simp_all add: e)
    then show ?thesis using fold[of "forming (sb_series (newSymbolBars symbol) TF1m)"] False assms(5)
      by (simp add: seedHistory1m_def Let_def all_open_def e)
  qed
  then have opened: "\<forall>c \<in> set (sb_series s tf). b_InProgress c" using assms(4) by (simp add: all_open_def)
  have "\<exists>c. series_get (sb_series s tf) (BucketStartMsAnchored off (b_BucketMs b) tf anchorSecs) = Some c \<and> b_InProgress c"
    if b: "b \<in> set (sb_series s TF1m)" for b
  proof -
    have "cons_at off anchorSecs tf s (BucketStartMsAnchored off (b_BucketMs b) tf anchorSecs)"
      using inv assms(4) by (simp add: dirty_def cons_but_def)
    moreover have "members_of (\<lambda>m. BucketStartMsAnchored off m tf anchorSecs) (BucketStartMsAnchored off (b_BucketMs b) tf anchorSecs)
        (sb_series s TF1m) \<noteq> []" using b by (auto simp: members_of_def filter_empty_conv)
    ultimately obtain c where c: "series_get (sb_series s tf) (BucketStartMsAnchored off (b_BucketMs b) tf anchorSecs) = Some c"
      by (auto simp: cons_at_def Let_def split: option.splits)
    have "asc (sb_series s tf)" using inv by simp
    then show ?thesis using c series_get_iff[of "sb_series s tf"] opened by blast
  qed
  then show ?thesis using opened by (auto simp: finalizedBars_def finalized_def filter_empty_conv)
qed

section \<open>Witnesses\<close>

text \<open>The minutes 10:03 to 10:05 of 2024-07-03, seeded into an empty symbol.\<close>

definition minute :: "nat \<Rightarrow> kbar" where
  "minute i = \<lparr>kb_Symbol = ''AAPL'', kb_BucketMs = 1720015200000 + 60000 * int i,
     kb_O = whole 100, kb_H = whole (101 + int i), kb_L = whole 99, kb_C = whole 100,
     kb_Volume = 10, kb_Turnover = 0, kb_Source = source0\<rparr>"

definition seeded :: bars_state where
  "seeded = foldl (\<lambda>s x. bars_step ny2024 AnchorSecsDefault x s) (newSymbolBars ''AAPL'')
     [OpHistory1m (map minute [3, 4, 5])]"

definition seeded_5m :: "bar option" where
  "seeded_5m = series_get (sb_series seeded TF5m) 1720015200000"

definition view :: "bars_state \<Rightarrow> (int \<times> f64 \<times> bool) option \<times> bool \<times> int \<times> bool \<times> bar list" where
  "view s = (map_option (\<lambda>b. (b_V b, b_H b, b_InProgress b)) (series_get (sb_series s TF5m) 1720015200000),
     series_get (sb_series s TF1m) 1720015440000 = None, maxBucket (sb_series s TF1m),
     list_all (\<lambda>b. \<not> b_InProgress b) (sb_series s TF1m), finalizedBars s TF5m)"

lemma seeded_view: "view seeded = (Some (20, whole 105, True), False, 1720015500000, True, [])"
  by code_simp

lemma seeded_5m_code: "map_option (\<lambda>b. (b_V b, b_H b, b_InProgress b)) seeded_5m = Some (20, whole 105, True)"
  using seeded_view by (simp add: view_def seeded_5m_def)

lemma higher_bars_fold_minutes_witness:
  "map_option settled seeded_5m = Some (settled (foldBars (sb_symbol seeded) TF5m 1720015200000
     (filter (\<lambda>b. BucketStartMsAnchored ny2024 (b_BucketMs b) TF5m AnchorSecsDefault = 1720015200000)
        (sb_series seeded TF1m))))"
  using higher_bars_fold_minutes[OF ny2024_whole _ seeded_def refl, of TF5m 1720015200000] seeded_5m_code
  by (auto simp: seeded_5m_def[symmetric] cascadeTFs_def split: option.splits)

lemma series_refine_maps_witness:
  "series_get (sb_series seeded TF1m) 1720015440000 \<noteq> None \<and>
   sorted_wrt (<) (map b_BucketMs (sb_series seeded TF1m))"
proof -
  have "series_get (sb_series seeded TF1m) 1720015440000 \<noteq> None" using seeded_view by (simp add: view_def)
  moreover have "sorted_wrt (<) (map b_BucketMs (sb_series seeded TF1m))"
    using series_refine_maps[OF ny2024_whole seeded_def] by blast
  ultimately show ?thesis by simp
qed

text \<open>The five-minute bar of 10:00 is complete, a minute after it is known, and no minute is forming; still
  the bar is in progress. Only the live path (\<open>apply1m\<close>) recomputes the bucket it leaves.\<close>

lemma seed_leaves_complete_bar_open_witness:
  "maxBucket (sb_series seeded TF1m) = 1720015500000 \<and>
   list_all (\<lambda>b. \<not> b_InProgress b) (sb_series seeded TF1m) \<and> seeded_5m \<noteq> None \<and> finalizedBars seeded TF5m = []"
proof -
  have "finalizedBars seeded TF5m = []"
    using seed_leaves_complete_bar_open[OF ny2024_whole, of "map minute [3, 4, 5]" TF5m seeded AnchorSecsDefault "''AAPL''"]
    by (simp add: seeded_def minute_def cascadeTFs_def)
  moreover have "maxBucket (sb_series seeded TF1m) = 1720015500000" "list_all (\<lambda>b. \<not> b_InProgress b) (sb_series seeded TF1m)"
    "seeded_5m \<noteq> None" using seeded_view by (simp_all add: view_def seeded_5m_def) (auto simp: view_def seeded_5m_def)
  ultimately show ?thesis by simp
qed

end
