(* ===== verification/BarStream.thy ===== *)
theory BarStream
  imports Bars
begin

text \<open>
  What the stream of a symbol's bar events tells a listener that cannot see the series. For the
  day, the minute and the four higher intraday frames every change of a series outside a history
  seed is announced by exactly one \<open>BarUpdate\<close>, whose view is the series after it; a bar already
  final is never announced as forming again; and every history seed ends with a request to
  rebuild. The indicators live on this contract.

  Ten-second, week and month bars are left out: a seed may store as final a ten-second bar that
  live prints form again, and a week reopens when a day inside it is derived anew.
\<close>

section \<open>Paths\<close>

definition charted :: "timeframe list" where
  "charted = TFDay # TF1m # cascadeTFs"

definition no_final :: "int \<Rightarrow> series \<Rightarrow> bool" where
  "no_final k x \<longleftrightarrow> (\<forall>b \<in> set x. b_BucketMs b = k \<longrightarrow> b_InProgress b)"

text \<open>The events lead a listener of one frame from the series \<open>x\<close> to the series \<open>y\<close>.\<close>

fun path :: "string \<Rightarrow> timeframe \<Rightarrow> series \<Rightarrow> (bar_event \<times> (timeframe \<Rightarrow> series)) list \<Rightarrow> series \<Rightarrow> bool" where
  "path symbol tf x [] y \<longleftrightarrow> x = y"
| "path symbol tf x ((BarUpdate b, v) # es) y \<longleftrightarrow>
     (if b_TF b = tf
      then b_Symbol b = symbol \<and> v tf = put b x \<and> (b_InProgress b \<longrightarrow> no_final (b_BucketMs b) x) \<and> path symbol tf (v tf) es y
      else path symbol tf x es y)"
| "path symbol tf x ((ReseedSymbol, v) # es) y \<longleftrightarrow> asc (v tf) \<and> path symbol tf (v tf) es y"
| "path symbol tf x ((ReseedSymTF t, v) # es) y \<longleftrightarrow>
     (if t = tf then asc (v tf) \<and> path symbol tf (v tf) es y else path symbol tf x es y)"
| "path symbol tf x (e # es) y \<longleftrightarrow> path symbol tf x es y"

lemma path_append: "path symbol tf x es y \<Longrightarrow> path symbol tf y fs z \<Longrightarrow> path symbol tf x (es @ fs) z"
  by (induction symbol tf x es y rule: path.induct) (auto split: if_splits)

definition streams :: "timeframe \<Rightarrow> bars_state \<Rightarrow> bars_state \<Rightarrow> bool" where
  "streams tf s t \<longleftrightarrow> (\<exists>es. sb_out t = sb_out s @ map fst es \<and> sb_views t = sb_views s @ map snd es \<and>
     path (sb_symbol s) tf (sb_series s tf) es (sb_series t tf))"

lemma streams_trans: "streams tf s t \<Longrightarrow> streams tf t u \<Longrightarrow> sb_symbol t = sb_symbol s \<Longrightarrow> streams tf s u"
  unfolding streams_def by (elim exE) (rule_tac x = "es @ esa" in exI, auto intro: path_append)

lemma streams_same: "sb_out t = sb_out s \<Longrightarrow> sb_views t = sb_views s \<Longrightarrow> sb_series t tf = sb_series s tf \<Longrightarrow> streams tf s t"
  unfolding streams_def by (intro exI[of _ "[]"]) simp

definition plain_event :: "bar_event \<Rightarrow> bool" where
  "plain_event e \<longleftrightarrow> (\<forall>b. e \<noteq> BarUpdate b) \<and> e \<noteq> ReseedSymbol \<and> (\<forall>tf. e \<noteq> ReseedSymTF tf)"

lemma streams_plain: "plain_event e \<Longrightarrow> streams tf s (emit e s)"
  unfolding streams_def by (intro exI[of _ "[(e, sb_series s)]"]) (cases e; simp add: emit_def plain_event_def)

lemma streams_update:
  assumes "sb_series u (b_TF b) = put b (sb_series s (b_TF b))" "\<And>tf. tf \<noteq> b_TF b \<Longrightarrow> sb_series u tf = sb_series s tf"
    "sb_out u = sb_out s" "sb_views u = sb_views s"
    "b_TF b = tf \<Longrightarrow> b_Symbol b = sb_symbol s \<and> (b_InProgress b \<longrightarrow> no_final (b_BucketMs b) (sb_series s tf))"
  shows "streams tf s (emit (BarUpdate b) u)"
  unfolding streams_def by (intro exI[of _ "[(BarUpdate b, sb_series u)]"]) (use assms in \<open>auto simp: emit_def\<close>)

section \<open>What the engine keeps for its listeners\<close>

definition agg_frame :: "tick_agg \<Rightarrow> bool" where
  "agg_frame a \<longleftrightarrow> ta_tf a = TF10s \<and> (\<forall>k b. mget (ta_open a) k = Some b \<longrightarrow> tb_tf b = TF10s)"

definition chart_inv :: "bars_state \<Rightarrow> bool" where
  "chart_inv s \<longleftrightarrow> bars_asc s \<and> agg_frame (sb_agg10 s) \<and>
     (\<forall>b \<in> set (sb_series s TF10s). b_TF b = TF10s) \<and>
     (\<forall>b \<in> set (sb_series s TF1m). b_TF b = TF1m \<and> b_Symbol b = sb_symbol s) \<and>
     (\<forall>tf \<in> set cascadeTFs. \<forall>b \<in> set (sb_series s tf). \<not> b_InProgress b \<longrightarrow>
        (\<exists>c \<in> set (sb_series s TF1m). b_BucketMs b + span_ms tf \<le> b_BucketMs c)) \<and>
     (\<forall>b \<in> set (sb_series s TFDay). \<not> b_InProgress b \<longrightarrow> mget0 False (sb_dailyOfficial s) (b_BucketMs b))"

definition chart_step :: "bars_state \<Rightarrow> bars_state \<Rightarrow> bool" where
  "chart_step s t \<longleftrightarrow> (chart_inv s \<longrightarrow> chart_inv t \<and> sb_symbol t = sb_symbol s \<and> sb_seeding t = sb_seeding s \<and>
     (if sb_seeding s then sb_out t = sb_out s \<and> sb_views t = sb_views s else \<forall>tf \<in> set charted. streams tf s t))"

lemma chart_step_refl [simp]: "chart_step s s"
  by (simp add: chart_step_def streams_same)

lemma chart_step_mono: "(chart_inv s \<Longrightarrow> chart_step s t) \<Longrightarrow> chart_step s t"
  by (auto simp: chart_step_def)

lemma chart_step_inv: "chart_step s t \<Longrightarrow> chart_inv s \<Longrightarrow> chart_inv t"
  by (simp add: chart_step_def)

lemma chart_inv_agg: "chart_inv s \<Longrightarrow> agg_frame (sb_agg10 s)"
  by (simp add: chart_inv_def)

lemma chart_step_trans: "chart_step s t \<Longrightarrow> chart_step t u \<Longrightarrow> chart_step s u"
  unfolding chart_step_def by (auto intro: streams_trans split: if_splits)

lemma chart_step_fold: "(\<And>x s. chart_step s (f x s)) \<Longrightarrow> chart_step s (fold f xs s)"
  by (induction xs arbitrary: s) (auto intro: chart_step_trans)

lemma chart_step_same:
  assumes "sb_symbol t = sb_symbol s" "sb_series t = sb_series s" "sb_agg10 t = sb_agg10 s" "sb_dailyOfficial t = sb_dailyOfficial s"
    "sb_seeding t = sb_seeding s" "sb_out t = sb_out s" "sb_views t = sb_views s"
  shows "chart_step s t"
  using assms by (simp add: chart_step_def chart_inv_def bars_asc_def streams_same)

lemma chart_step_plain: "plain_event e \<Longrightarrow> \<not> sb_seeding s \<Longrightarrow> chart_step s (emit e s)"
  using streams_plain[of e _ s] by (simp add: chart_step_def chart_inv_def bars_asc_def emit_def)

text \<open>A bar put into its series and announced: what has to be known of it.\<close>

definition put_ok :: "timeframe \<Rightarrow> bar \<Rightarrow> bars_state \<Rightarrow> bool" where
  "put_ok tf b s \<longleftrightarrow> b_TF b = tf \<and>
     (tf \<in> set charted \<longrightarrow> b_Symbol b = sb_symbol s \<and> (b_InProgress b \<longrightarrow> no_final (b_BucketMs b) (sb_series s tf))) \<and>
     (tf \<in> set cascadeTFs \<and> \<not> b_InProgress b \<longrightarrow> (\<exists>c \<in> set (sb_series s TF1m). b_BucketMs b + span_ms tf \<le> b_BucketMs c)) \<and>
     (tf = TFDay \<and> \<not> b_InProgress b \<longrightarrow> mget0 False (sb_dailyOfficial s) (b_BucketMs b))"

lemma charted_simps [simp]: "TF1m \<in> set charted" "TFDay \<in> set charted" "set cascadeTFs \<subseteq> set charted"
  "TF10s \<notin> set charted" "TFWeek \<notin> set charted" "TFMonth \<notin> set charted"
  "TF1m \<notin> set cascadeTFs" "TFDay \<notin> set cascadeTFs" "TF10s \<notin> set cascadeTFs" "TFWeek \<notin> set cascadeTFs" "TFMonth \<notin> set cascadeTFs"
  by (auto simp: charted_def cascadeTFs_def)

lemma cascade_charted: "tf \<in> set cascadeTFs \<Longrightarrow> tf \<in> set charted"
  by (simp add: charted_def)

lemma later_put: "\<exists>c \<in> set xs. k \<le> b_BucketMs c \<Longrightarrow> \<exists>c \<in> set (put b xs). k \<le> b_BucketMs c"
  by (auto simp: set_put)

lemma chart_inv_put:
  assumes "chart_inv s" "put_ok tf b s"
  shows "chart_inv (set_series tf (put b (sb_series s tf)) s)"
proof -
  let ?u = "set_series tf (put b (sb_series s tf)) s"
  have u: "sb_series ?u tf' = (if tf' = tf then put b (sb_series s tf) else sb_series s tf')" for tf'
    by (simp add: set_series_def)
  have rest: "sb_agg10 ?u = sb_agg10 s" "sb_symbol ?u = sb_symbol s" "sb_dailyOfficial ?u = sb_dailyOfficial s"
    by (simp_all add: set_series_def)
  have a: "asc (sb_series s tf')" for tf' using assms(1) by (simp add: chart_inv_def bars_asc_def)
  have i10: "c \<in> set (sb_series s TF10s) \<Longrightarrow> b_TF c = TF10s"
    and i1m: "c \<in> set (sb_series s TF1m) \<Longrightarrow> b_TF c = TF1m \<and> b_Symbol c = sb_symbol s"
    and ihi: "tf' \<in> set cascadeTFs \<Longrightarrow> c \<in> set (sb_series s tf') \<Longrightarrow> \<not> b_InProgress c \<Longrightarrow>
      \<exists>d \<in> set (sb_series s TF1m). b_BucketMs c + span_ms tf' \<le> b_BucketMs d"
    and iday: "c \<in> set (sb_series s TFDay) \<Longrightarrow> \<not> b_InProgress c \<Longrightarrow> mget0 False (sb_dailyOfficial s) (b_BucketMs c)"
    for c tf'
    using assms(1) unfolding chart_inv_def by blast+
  have otf: "b_TF b = tf" and osym: "tf = TF1m \<Longrightarrow> b_Symbol b = sb_symbol s"
    and ohi: "tf \<in> set cascadeTFs \<Longrightarrow> \<not> b_InProgress b \<Longrightarrow> \<exists>d \<in> set (sb_series s TF1m). b_BucketMs b + span_ms tf \<le> b_BucketMs d"
    and oday: "tf = TFDay \<Longrightarrow> \<not> b_InProgress b \<Longrightarrow> mget0 False (sb_dailyOfficial s) (b_BucketMs b)"
    using assms(2) unfolding put_ok_def by auto
  have m: "c = b \<and> tf' = tf \<or> c \<in> set (sb_series s tf')" if "c \<in> set (sb_series ?u tf')" for c tf'
    using that by (auto simp: u set_put split: if_splits)
  have later: "\<exists>c \<in> set (sb_series ?u TF1m). k \<le> b_BucketMs c" if "\<exists>c \<in> set (sb_series s TF1m). k \<le> b_BucketMs c" for k
    using later_put[OF that] that by (simp add: u)
  have "bars_asc ?u" by (simp add: bars_asc_def u a asc_put)
  moreover have "b_TF c = TF10s" if "c \<in> set (sb_series ?u TF10s)" for c
    using m[OF that] i10[of c] otf by auto
  moreover have "b_TF c = TF1m \<and> b_Symbol c = sb_symbol s" if "c \<in> set (sb_series ?u TF1m)" for c
    using m[OF that] i1m[of c] otf osym by auto
  moreover have "\<exists>d \<in> set (sb_series ?u TF1m). b_BucketMs c + span_ms tf' \<le> b_BucketMs d"
    if "tf' \<in> set cascadeTFs" "c \<in> set (sb_series ?u tf')" "\<not> b_InProgress c" for tf' c
    using m[OF that(2)] ihi[OF that(1) _ that(3)] ohi that(1,3) by (intro later) auto
  moreover have "mget0 False (sb_dailyOfficial s) (b_BucketMs c)" if "c \<in> set (sb_series ?u TFDay)" "\<not> b_InProgress c" for c
    using m[OF that(1)] iday[of c] oday that(2) by auto
  moreover have "agg_frame (sb_agg10 s)" using assms(1) by (simp add: chart_inv_def)
  ultimately show ?thesis unfolding chart_inv_def rest by blast
qed

lemma chart_step_put:
  assumes "put_ok tf b s"
  shows "chart_step s (barOut b (set_series tf (put b (sb_series s tf)) s))"
proof (cases "chart_inv s")
  case True
  let ?u = "set_series tf (put b (sb_series s tf)) s"
  have inv: "chart_inv ?u" by (rule chart_inv_put[OF True assms])
  then have "chart_inv (barOut b ?u)" by (simp add: chart_inv_def barOut_def emit_def bars_asc_def)
  moreover have "streams tf' s (emit (BarUpdate b) ?u)" if "tf' \<in> set charted" for tf'
    using assms that by (intro streams_update) (auto simp: put_ok_def set_series_def)
  ultimately show ?thesis by (simp add: chart_step_def barOut_def set_series_def emit_def)
qed (simp add: chart_step_def)

lemma chart_step_put_bar:
  assumes "put_ok tf b s"
  shows "chart_step s (fst (put_bar tf b s))"
proof (cases "chart_inv s")
  case True
  then have a: "asc (sb_series s tf)" by (simp add: chart_inv_def bars_asc_def)
  show ?thesis
  proof (cases "snd (put_bar tf b s)")
    case True
    then have "fst (put_bar tf b s) = barOut b (set_series tf (put b (sb_series s tf)) s)"
      using upsert_put[OF a] by (simp add: put_bar_def Let_def split_beta)
    then show ?thesis using chart_step_put[OF assms] by simp
  next
    case False
    then have "fst (put_bar tf b s) = s" using upsert_same[of b "sb_series s tf"]
      by (simp add: put_bar_def Let_def split_beta set_series_def split: if_splits)
    then show ?thesis by simp
  qed
qed (simp add: chart_step_def)

lemma put_ok_leaf: "tf \<notin> set charted \<Longrightarrow> b_TF b = tf \<Longrightarrow> put_ok tf b s"
  by (auto simp: put_ok_def dest: cascade_charted)

lemma foldBars_fields: "b_TF (foldBars sb tf h ms) = tf \<and> b_Symbol (foldBars sb tf h ms) = sb"
proof -
  have "b_TF (foldl fold_into nb ms) = b_TF nb \<and> b_Symbol (foldl fold_into nb ms) = b_Symbol nb" for nb
    by (induction ms arbitrary: nb) (simp_all add: fold_into_def)
  then show ?thesis by (simp add: foldBars_def)
qed

lemma chart_step_cascade_one:
  assumes "tf \<in> set cascadeTFs"
  shows "chart_step s (cascade_one off a m tf s)"
proof (cases "chart_inv s")
  case True
  let ?oneM = "sb_series s TF1m"
  define hb where "hb = BucketStartMsAnchored off m tf a"
  define ms where "ms = rangeBars ?oneM hb (hb + span_ms tf)"
  define nb where "nb = (foldBars (sb_symbol s) tf hb ms)\<lparr>b_InProgress := maxBucket ?oneM < hb + span_ms tf\<rparr>"
  have run: "cascade_one off a m tf s = (if ms = [] then s else fst (put_bar tf nb s))"
    by (simp add: cascade_one_def Let_def ms_def nb_def hb_def span_ms_def)
  show ?thesis
  proof (cases "ms = []")
    case False
    have asc: "asc ?oneM" using True by (simp add: chart_inv_def bars_asc_def)
    have ne: "?oneM \<noteq> []" using False by (auto simp: ms_def rangeBars_def)
    then have max: "maxBucket ?oneM = b_BucketMs (last ?oneM)" "last ?oneM \<in> set ?oneM"
      by (simp_all add: maxBucket_def series_last_def)
    have le: "b_BucketMs c \<le> maxBucket ?oneM" if "c \<in> set ?oneM" for c
    proof -
      obtain ys where ys: "?oneM = ys @ [last ?oneM]" "\<forall>c \<in> set ys. b_BucketMs c < b_BucketMs (last ?oneM)"
        using series_last_asc[OF asc, of "last ?oneM"] ne by (auto simp: series_last_def)
      then show ?thesis using that max(1) by (metis Un_iff empty_iff less_imp_le list.set(1) list.set(2) insert_iff order_refl set_append)
    qed
    have nb: "b_TF nb = tf" "b_Symbol nb = sb_symbol s" "b_BucketMs nb = hb" "b_InProgress nb \<longleftrightarrow> maxBucket ?oneM < hb + span_ms tf"
      using foldBars_fields by (simp_all add: nb_def)
    have "no_final hb (sb_series s tf)" if "maxBucket ?oneM < hb + span_ms tf"
    proof (unfold no_final_def, intro ballI impI, rule ccontr)
      fix b assume b: "b \<in> set (sb_series s tf)" "b_BucketMs b = hb" "\<not> b_InProgress b"
      then obtain c where "c \<in> set ?oneM" "hb + span_ms tf \<le> b_BucketMs c"
        using True assms unfolding chart_inv_def by blast
      then show False using le[of c] that by simp
    qed
    moreover have "tf \<noteq> TFDay" using assms by auto
    ultimately have "put_ok tf nb s" using nb max assms by (auto simp: put_ok_def not_less)
    then show ?thesis using chart_step_put_bar False run by simp
  qed (simp add: run)
qed (simp add: chart_step_def)

lemma chart_step_cascade: "chart_step s (cascade off a m s)"
proof -
  have "set tfs \<subseteq> set cascadeTFs \<Longrightarrow> chart_step s (fold (cascade_one off a m) tfs s)" for tfs s
  proof (induction tfs arbitrary: s)
    case (Cons tf tfs)
    have "chart_step s (cascade_one off a m tf s)" using Cons.prems by (intro chart_step_cascade_one) simp
    then show ?case using Cons by (auto intro: chart_step_trans)
  qed simp
  then show ?thesis by (simp add: cascade_def)
qed

lemma chart_step_deriveWM: "chart_step s (deriveWM off d s)"
proof -
  have one: "chart_step s (derive_one off d n tf s)" if "tf \<in> {TFWeek, TFMonth}" for tf n s
    using that foldBars_fields by (auto simp: derive_one_def Let_def intro!: chart_step_put_bar put_ok_leaf)
  show ?thesis unfolding deriveWM_def
    using chart_step_trans[OF one one] by simp
qed

lemma chart_step_deriveDaily: "chart_step s (deriveDaily off m s)"
proof (cases "chart_inv s")
  case True
  define day where "day = BucketStartMs off m TFDay"
  define ms where "ms = rangeBars (sb_series s TF1m) day (day + 86400000)"
  define nb where "nb = (foldBars (sb_symbol s) TFDay day ms)\<lparr>b_InProgress := True\<rparr>"
  have run: "deriveDaily off m s = (if mget0 False (sb_dailyOfficial s) day \<or> ms = [] then s
      else if snd (put_bar TFDay nb s) then deriveWM off day (fst (put_bar TFDay nb s)) else fst (put_bar TFDay nb s))"
    by (simp add: deriveDaily_def Let_def day_def ms_def nb_def split_beta)
  show ?thesis
  proof (cases "mget0 False (sb_dailyOfficial s) day")
    case False
    have "no_final day (sb_series s TFDay)" using True False unfolding chart_inv_def no_final_def by blast
    then have "put_ok TFDay nb s" using foldBars_fields by (simp add: put_ok_def nb_def)
    note p = chart_step_put_bar[OF this]
    show ?thesis using p chart_step_trans[OF p chart_step_deriveWM] by (simp add: run)
  qed (simp add: run)
qed (simp add: chart_step_def)

section \<open>Checks and ten-second bars\<close>

lemma chart_step_set_10s: "b_TF b = TF10s \<Longrightarrow> chart_step s (fst (put_bar TF10s b s))"
  by (rule chart_step_put_bar) (simp add: put_ok_leaf)

lemma chart_step_trim:
  assumes "chart_inv s"
  shows "chart_step s (trim10sToAuthRange auth s)"
proof -
  have "\<forall>b \<in> set bs. b_TF b = TF10s \<Longrightarrow> chart_step t (fold (\<lambda>original s.
      let (trimmed, changed) = trim10sBarToAuthRange original auth in
      if changed then fst (put_bar TF10s trimmed s) else s) bs t)" for bs t
  proof (induction bs arbitrary: t)
    case (Cons b bs)
    have "b_TF (fst (trim10sBarToAuthRange b auth)) = TF10s" using Cons.prems by (simp add: trim10sBarToAuthRange_def Let_def)
    then show ?case using Cons chart_step_set_10s[of "fst (trim10sBarToAuthRange b auth)" t]
      by (auto simp: Let_def split_beta intro: chart_step_trans)
  qed simp
  moreover have "\<forall>b \<in> set (rangeBars (sb_series s TF10s) lo hi). b_TF b = TF10s" for lo hi
    using assms by (auto simp: chart_inv_def rangeBars_def dest!: in_set_dropD in_set_takeD)
  ultimately show ?thesis unfolding trim10sToAuthRange_def by blast
qed

lemma chart_step_validate: "chart_step s (validate k s)"
proof (rule chart_step_mono)
  assume inv: "chart_inv s"
  have st: "chart_step s (trim10sToAuthRange auth (emit (MismatchUpdate k d) (s\<lparr>sb_compared := m\<rparr>)))"
    if "\<not> sb_seeding s" for auth d m
  proof -
    let ?t = "s\<lparr>sb_compared := m\<rparr>"
    have 1: "chart_step s ?t" by (rule chart_step_same) simp_all
    have 2: "chart_step ?t (emit (MismatchUpdate k d) ?t)"
      by (rule chart_step_plain) (use that in \<open>simp_all add: plain_event_def\<close>)
    have "chart_inv (emit (MismatchUpdate k d) ?t)" using chart_step_trans[OF 1 2] inv by (simp add: chart_step_def)
    from chart_step_trans[OF chart_step_trans[OF 1 2] chart_step_trim[OF this]] show ?thesis .
  qed
  have same: "chart_step s (s\<lparr>sb_compared := m\<rparr>)" for m by (rule chart_step_same) simp_all
  show "chart_step s (validate k s)"
    using st same by (auto simp: validate_def Let_def split: option.split)
qed

section \<open>Minutes\<close>

lemma asc_unique: "asc xs \<Longrightarrow> b \<in> set xs \<Longrightarrow> c \<in> set xs \<Longrightarrow> b_BucketMs b = b_BucketMs c \<Longrightarrow> b = c"
  using series_get_iff[of xs "b_BucketMs c"] by (metis option.inject)

lemma forming_no_final: "asc xs \<Longrightarrow> b \<in> set xs \<Longrightarrow> b_InProgress b \<Longrightarrow> no_final (b_BucketMs b) xs"
  unfolding no_final_def by (metis asc_unique)

lemma later_no_final: "\<forall>c \<in> set xs. b_BucketMs c < k \<Longrightarrow> no_final k xs"
  by (auto simp: no_final_def)

lemma chart_step_anchor [simp]: "chart_step s (bars_seedAnchor p f ts s)"
proof (cases "chart_inv s")
  case True
  have "agg_frame a \<Longrightarrow> agg_frame (seedAnchorAt p' f' ts' a)" for p' f' ts' a
    by (auto simp: agg_frame_def seedAnchorAt_def Let_def anchor_bucket_def map_of_map[of _ "ta_open a"] split: if_splits)
  then show ?thesis using True
    by (auto simp: bars_seedAnchor_def Let_def chart_step_def chart_inv_def bars_asc_def streams_same)
qed (simp add: chart_step_def)

lemma finalize_last_step:
  assumes "chart_inv s"
  shows "chart_step s (fst (finalize_last s))"
    and "\<forall>c \<in> set (sb_series (fst (finalize_last s)) TF1m). b_BucketMs c \<le> maxBucket (sb_series s TF1m)"
proof -
  let ?xs = "sb_series s TF1m"
  have asc: "asc ?xs" using assms by (simp add: chart_inv_def bars_asc_def)
  have le: "\<forall>c \<in> set ?xs. b_BucketMs c \<le> maxBucket ?xs"
  proof (cases "series_last ?xs")
    case (Some l)
    then obtain ys where "?xs = ys @ [l]" "\<forall>c \<in> set ys. b_BucketMs c < b_BucketMs l" using series_last_asc[OF asc] by blast
    then show ?thesis using Some by (auto simp: maxBucket_def)
  qed (simp add: series_last_def split: if_splits)
  have "chart_step s (fst (finalize_last s)) \<and>
      (\<forall>c \<in> set (sb_series (fst (finalize_last s)) TF1m). b_BucketMs c \<le> maxBucket (sb_series s TF1m))"
  proof (cases "\<exists>l. series_last ?xs = Some l \<and> b_InProgress l")
    case True
    then obtain l where l: "series_last ?xs = Some l" "b_InProgress l" by blast
    let ?l = "l\<lparr>b_InProgress := False\<rparr>"
    obtain ys where ys: "?xs = ys @ [l]" "\<forall>c \<in> set ys. b_BucketMs c < b_BucketMs l" using series_last_asc[OF asc l(1)] by blast
    have "filter (\<lambda>c. b_BucketMs c < b_BucketMs l) ys = ys" "filter (\<lambda>c. b_BucketMs l < b_BucketMs c) ys = []"
      using ys(2) by (auto simp: filter_id_conv filter_empty_conv)
    then have put: "butlast ?xs @ [?l] = put ?l ?xs" using ys(1) by (simp add: put_def)
    have run: "fst (finalize_last s) = barOut ?l (set_series TF1m (put ?l ?xs) s)"
      using l put by (simp add: finalize_last_def Let_def)
    have "l \<in> set ?xs" using ys(1) by simp
    then have "b_TF l = TF1m" "b_Symbol l = sb_symbol s" using assms unfolding chart_inv_def by blast+
    then have "put_ok TF1m ?l s" by (simp add: put_ok_def)
    moreover have "\<forall>c \<in> set (put ?l ?xs). b_BucketMs c \<le> maxBucket ?xs" using le \<open>l \<in> set ?xs\<close> by (auto simp: set_put)
    ultimately show ?thesis using chart_step_put unfolding run by (simp add: set_series_def)
  next
    case False
    then have "fst (finalize_last s) = s" by (auto simp: finalize_last_def split: option.split)
    then show ?thesis using le by simp
  qed
  then show "chart_step s (fst (finalize_last s))"
    "\<forall>c \<in> set (sb_series (fst (finalize_last s)) TF1m). b_BucketMs c \<le> maxBucket (sb_series s TF1m)" by auto
qed

lemma chart_step_upsert:
  assumes "put_ok tf b s"
  shows "chart_step s (barOut b (set_series tf (fst (upsert b (sb_series s tf))) s))"
proof (rule chart_step_mono)
  assume "chart_inv s"
  then have "asc (sb_series s tf)" by (simp add: chart_inv_def bars_asc_def)
  then show ?thesis using chart_step_put[OF assms] by (simp add: upsert_put)
qed

lemma put_1m_step:
  assumes "b_TF nb = TF1m" "b_Symbol nb = sb_symbol s" "b_InProgress nb"
  shows "chart_step s (fst (put_1m nb s))"
proof (rule chart_step_mono)
  assume inv: "chart_inv s"
  let ?xs = "sb_series s TF1m"
  have asc: "asc ?xs" using inv by (simp add: chart_inv_def bars_asc_def)
  show ?thesis
  proof (cases "series_last ?xs")
    case None
    then have "?xs = []" by (simp add: series_last_def split: if_splits)
    then have "put_ok TF1m nb s" using assms by (simp add: put_ok_def no_final_def)
    from chart_step_upsert[OF this] show ?thesis using None by (simp add: put_1m_def)
  next
    case (Some l)
    obtain ys where ys: "?xs = ys @ [l]" "\<forall>c \<in> set ys. b_BucketMs c < b_BucketMs l" using series_last_asc[OF asc Some] by blast
    consider "b_BucketMs l < b_BucketMs nb" | "b_BucketMs nb = b_BucketMs l" | "b_BucketMs nb < b_BucketMs l" by linarith
    then show ?thesis
    proof cases
      case 1
      let ?s1 = "fst (finalize_last s)"
      note f = finalize_last_step[OF inv]
      have "sb_symbol ?s1 = sb_symbol s" using f(1) inv by (simp add: chart_step_def)
      moreover have "\<forall>c \<in> set (sb_series ?s1 TF1m). b_BucketMs c < b_BucketMs nb"
        using f(2) 1 Some by (fastforce simp: maxBucket_def)
      ultimately have "put_ok TF1m nb ?s1" using assms by (simp add: put_ok_def later_no_final)
      from chart_step_trans[OF f(1) chart_step_upsert[OF this]] show ?thesis
        using 1 Some by (simp add: put_1m_def Let_def split_beta)
    next
      case 2
      have "l \<in> set ?xs" using ys(1) by simp
      then have "put_ok TF1m (nb\<lparr>b_InProgress := b_InProgress l\<rparr>) s"
        using assms 2 forming_no_final[OF asc] by (simp add: put_ok_def)
      from chart_step_put_bar[OF this] show ?thesis using 2 Some by (simp add: put_1m_def Let_def split_beta)
    next
      case 3
      have "put_ok TF1m (nb\<lparr>b_InProgress := False\<rparr>) s" using assms by (simp add: put_ok_def)
      note p = chart_step_put_bar[OF this]
      show ?thesis using 3 Some p chart_step_trans[OF p chart_step_validate] by (simp add: put_1m_def Let_def split_beta)
    qed
  qed
qed

lemma fillDelta_fields [simp]: "b_TF (fillDelta s b) = b_TF b" "b_Symbol (fillDelta s b) = b_Symbol b"
    "b_InProgress (fillDelta s b) = b_InProgress b"
  by (simp_all add: fillDelta_def with_delta_def split: option.split)

lemma bar_of_fields [simp]: "b_TF (bar_of sb tf raw ip) = tf" "b_Symbol (bar_of sb tf raw ip) = sb" "b_InProgress (bar_of sb tf raw ip) = ip"
    "b_BucketMs (bar_of sb tf raw ip) = kb_BucketMs raw"
  by (simp_all add: bar_of_def)

lemma chart_step_symbol: "chart_step s t \<Longrightarrow> chart_inv s \<Longrightarrow> sb_symbol t = sb_symbol s"
  by (simp add: chart_step_def)

lemma chart_step_minute:
  assumes "kb_Symbol raw = sb_symbol s"
  shows "chart_step s (apply_minute off a raw s)"
proof (rule chart_step_mono)
  assume inv: "chart_inv s"
  define s1 where "s1 = bars_seedAnchor (kb_C raw) 0 (kb_BucketMs raw) s"
  define nb where "nb = fillDelta s1 (bar_of (kb_Symbol raw) TF1m raw True)"
  define s2 where "s2 = fst (put_1m nb s1)"
  define f where "f = snd (put_1m nb s1)"
  define s3 where "s3 = (if 0 \<le> f then cascade off a f (validate f s2) else s2)"
  have run: "apply_minute off a raw s = deriveDaily off (b_BucketMs nb) (cascade off a (b_BucketMs nb) s3)"
    unfolding apply_minute_def Let_def split_beta s1_def[symmetric] nb_def[symmetric] s2_def[symmetric]
      f_def[symmetric] s3_def[symmetric] by (rule refl)
  have 1: "chart_step s s1" by (simp add: s1_def)
  have "sb_symbol s1 = sb_symbol s" using chart_step_symbol[OF 1 inv] .
  then have 2: "chart_step s1 s2" unfolding s2_def using assms by (intro put_1m_step) (simp_all add: nb_def)
  have 3: "chart_step s2 s3"
    using chart_step_trans[OF chart_step_validate chart_step_cascade] by (simp add: s3_def)
  have 4: "chart_step s3 (deriveDaily off (b_BucketMs nb) (cascade off a (b_BucketMs nb) s3))"
    by (rule chart_step_trans[OF chart_step_cascade chart_step_deriveDaily])
  show "chart_step s (apply_minute off a raw s)"
    unfolding run by (rule chart_step_trans[OF 1 chart_step_trans[OF 2 chart_step_trans[OF 3 4]]])
qed

lemma chart_step_minutes:
  assumes "\<forall>raw \<in> set raws. kb_Symbol raw = sb_symbol s"
  shows "chart_step s (apply1m off a raws s)"
proof -
  have "\<forall>raw \<in> set raws. kb_Symbol raw = sb_symbol s \<Longrightarrow> chart_inv s \<Longrightarrow> chart_step s (fold (apply_minute off a) raws s)" for raws s
  proof (induction raws arbitrary: s)
    case (Cons raw raws)
    have st: "chart_step s (apply_minute off a raw s)" using Cons.prems(1) by (intro chart_step_minute) simp
    then have "chart_inv (apply_minute off a raw s)" "sb_symbol (apply_minute off a raw s) = sb_symbol s"
      using Cons.prems(2) by (simp_all add: chart_step_def)
    then show ?case using Cons st by (auto intro: chart_step_trans)
  qed simp
  then show ?thesis unfolding apply1m_def using assms chart_step_mono by blast
qed

section \<open>Prints\<close>

lemma chart_step_merge: "chart_step s (mergeShadowDelta off a shadow final s)"
proof (rule chart_step_mono)
  assume inv: "chart_inv s"
  let ?xs = "sb_series s TF1m"
  have asc: "asc ?xs" using inv by (simp add: chart_inv_def bars_asc_def)
  show "chart_step s (mergeShadowDelta off a shadow final s)"
  proof (cases "series_get ?xs (b_BucketMs shadow)")
    case (Some ab)
    let ?nb = "with_delta shadow ab"
    have ab: "ab \<in> set ?xs" "b_BucketMs ab = b_BucketMs shadow" using Some series_get_iff[OF asc] by auto
    have nb: "b_BucketMs ?nb = b_BucketMs shadow" "b_TF ?nb = b_TF ab" "b_Symbol ?nb = b_Symbol ab" "b_InProgress ?nb = b_InProgress ab"
      using ab by (simp_all add: with_delta_def)
    have put: "?xs[idx ?xs (b_BucketMs shadow) := ?nb] = put ?nb ?xs"
      using set_at_idx[OF asc, of ?nb] at_idx(2)[OF asc ab] ab nb by simp
    have "b_TF ab = TF1m" "b_Symbol ab = sb_symbol s" using inv ab(1) unfolding chart_inv_def by blast+
    then have "put_ok TF1m ?nb s" using nb ab forming_no_final[OF asc ab(1)] by (simp add: put_ok_def)
    from chart_step_trans[OF chart_step_put[OF this] chart_step_cascade] show ?thesis
      using Some by (simp add: mergeShadowDelta_def Let_def put)
  qed (simp add: mergeShadowDelta_def)
qed

lemma chart_step_shadow: "chart_step s (put_shadow off a b s)"
proof -
  have same: "chart_step s (s\<lparr>sb_shadowFinals := m\<rparr>)" for m by (rule chart_step_same) simp_all
  show ?thesis unfolding put_shadow_def
    using chart_step_merge chart_step_trans[OF same chart_step_trans[OF chart_step_merge chart_step_validate]] by simp
qed

lemma bucket_bar_frame: "bucket_bar b ip = Some c \<Longrightarrow> b_TF c = tb_tf b"
  by (auto simp: bucket_bar_def Let_def split: if_splits)

lemma close_older_frame:
  "agg_frame a \<Longrightarrow> close_older ks a = (a', out) \<Longrightarrow> agg_frame a' \<and> (\<forall>c \<in> set out. b_TF c = TF10s)"
proof (induction ks arbitrary: a a' out)
  case (Cons k ks)
  show ?case
  proof (cases "Option.bind (mget (ta_open a) k) (\<lambda>b. bucket_bar b False)")
    case (Some fin)
    let ?a = "a\<lparr>ta_open := mdel k (ta_open a), ta_finalizedAfter := (if ta_finalizedAfter a < k then k else ta_finalizedAfter a)\<rparr>"
    have a: "agg_frame ?a" using Cons.prems(1) by (auto simp: agg_frame_def split: if_splits)
    obtain rest where rest: "close_older ks ?a = (a', rest)" "out = fin # rest"
      using Cons.prems(2) Some by (auto simp: Let_def split: prod.splits)
    have "b_TF fin = TF10s" using Some Cons.prems(1) bucket_bar_frame
      by (cases "mget (ta_open a) k") (auto simp: agg_frame_def)
    then show ?thesis using Cons.IH[OF a rest(1)] rest(2) by simp
  qed (use Cons.prems in simp)
qed simp

lemma addTick_frame:
  assumes "agg_frame a" "addTick off t g a = (a', out)"
  shows "agg_frame a' \<and> (\<forall>c \<in> set out. b_TF c = TF10s)"
proof -
  define bucket where "bucket = BucketStartMs off (tk_TsMs t) (ta_tf a)"
  show ?thesis
  proof (cases "0 \<le> ta_finalizedAfter a \<and> bucket \<le> ta_finalizedAfter a")
    case True
    then show ?thesis using assms by (auto simp: addTick_def bucket_def Let_def agg_frame_def)
  next
    case False
    obtain a1 out1 where 1: "(if mhas (ta_open a) bucket then (a, [])
        else close_older (sort (filter (\<lambda>k. k < bucket) (map fst (ta_open a)))) a) = (a1, out1)" by fastforce
    have f1: "agg_frame a1 \<and> (\<forall>c \<in> set out1. b_TF c = TF10s)"
      using 1 assms(1) close_older_frame[OF assms(1)] by (auto split: if_splits)
    let ?b = "case mget (ta_open a1) bucket of None \<Rightarrow> new_bucket a1 bucket g | Some b \<Rightarrow> b"
    let ?c = "volume_tick t (last_tick t (range_tick t ?b))"
    have "tb_tf ?b = TF10s" using f1 by (auto simp: agg_frame_def new_bucket_def split: option.split)
    then have c: "tb_tf ?c = TF10s" by (simp add: volume_tick_def last_tick_def range_tick_def)
    have a2: "agg_frame ((trust_tick t a1)\<lparr>ta_open := mput bucket ?c (ta_open a1)\<rparr>)"
      using f1 c by (auto simp: agg_frame_def trust_tick_def split: if_splits)
    have "(a', out) = (if \<not> tk_RangeEligible t \<and> \<not> tk_LastEligible t \<and> \<not> tk_VolumeEligible t then (a1, out1)
        else ((trust_tick t a1)\<lparr>ta_open := mput bucket ?c (ta_open a1)\<rparr>,
              out1 @ (case bucket_bar ?c True of None \<Rightarrow> [] | Some s \<Rightarrow> [s])))"
      using assms(2)[symmetric] by (simp only: addTick_def bucket_def[symmetric] Let_def if_not_P[OF False] 1 prod.case)
    then show ?thesis using f1 a2 bucket_bar_frame[of ?c True] c
      by (auto split: if_splits option.splits)
  qed
qed

lemma chart_step_put_10s: "b_TF b = TF10s \<Longrightarrow> chart_step s (put_10s b s)"
proof -
  assume b: "b_TF b = TF10s"
  have same: "chart_step s (s\<lparr>sb_gapPending := g\<rparr>)" for g by (rule chart_step_same) simp_all
  have up: "chart_step t (barOut b (set_series TF10s (fst (upsert b (sb_series t TF10s))) t))" for t
    by (rule chart_step_upsert) (simp add: put_ok_leaf b)
  show ?thesis unfolding put_10s_def Let_def using up same chart_step_trans[OF same up] by simp
qed

lemma chart_step_tick: "chart_step s (bars_applyTick off a t s)"
proof (rule chart_step_mono)
  assume inv: "chart_inv s"
  define s1 where "s1 = (if DayMs off (tk_TsMs t) \<noteq> sb_curDay s
    then s\<lparr>sb_curDay := DayMs off (tk_TsMs t), sb_shadowFinals := [], sb_compared := []\<rparr> else s)"
  obtain agg out where ao: "addTick off t (sb_gapPending s1) (sb_agg10 s1) = (agg, out)" by fastforce
  define s2 where "s2 = s1\<lparr>sb_agg10 := agg\<rparr>"
  define s3 where "s3 = fold put_10s out s2"
  obtain sh outm where so: "addTick off t False (sb_shadow s3) = (sh, outm)" by fastforce
  have run: "bars_applyTick off a t s = fold (put_shadow off a) outm (s3\<lparr>sb_shadow := sh\<rparr>)"
    unfolding bars_applyTick_def Let_def s1_def[symmetric] ao prod.case s2_def[symmetric] s3_def[symmetric] so ..
  have 1: "chart_step s s1" unfolding s1_def by (rule chart_step_same) simp_all
  then have "agg_frame (sb_agg10 s1)" using inv by (intro chart_inv_agg chart_step_inv[OF 1])
  from addTick_frame[OF this ao] have f: "agg_frame agg" "\<forall>c \<in> set out. b_TF c = TF10s" by auto
  have 2: "chart_step s1 s2"
    using f(1) by (auto simp: s2_def chart_step_def chart_inv_def bars_asc_def streams_same)
  have "\<forall>c \<in> set out. b_TF c = TF10s \<Longrightarrow> chart_step u (fold put_10s out u)" for u out
    by (induction out arbitrary: u) (auto intro: chart_step_trans[OF chart_step_put_10s])
  then have 3: "chart_step s2 s3" using f(2) by (simp add: s3_def)
  have 4: "chart_step s3 (s3\<lparr>sb_shadow := sh\<rparr>)" by (rule chart_step_same) simp_all
  have 5: "chart_step (s3\<lparr>sb_shadow := sh\<rparr>) (fold (put_shadow off a) outm (s3\<lparr>sb_shadow := sh\<rparr>))"
    by (rule chart_step_fold) (rule chart_step_shadow)
  show "chart_step s (bars_applyTick off a t s)" unfolding run
    by (rule chart_step_trans[OF 1 chart_step_trans[OF 2 chart_step_trans[OF 3 chart_step_trans[OF 4 5]]]])
qed

lemma chart_step_ticks: "chart_step s (bars_applyTicks off a ts s)"
  unfolding bars_applyTicks_def by (rule chart_step_fold) (rule chart_step_tick)

section \<open>History seeds\<close>

definition plain_only :: "bars_state \<Rightarrow> bars_state \<Rightarrow> bool" where
  "plain_only s t \<longleftrightarrow> (\<exists>es. (\<forall>e \<in> set es. plain_event (fst e)) \<and>
     t = s\<lparr>sb_out := sb_out s @ map fst es, sb_views := sb_views s @ map snd es\<rparr>)"

lemma plain_only_refl [simp]: "plain_only s s"
  unfolding plain_only_def by (intro exI[of _ "[]"]) simp

lemma plain_only_emit: "plain_event u \<Longrightarrow> plain_only s (emit u s)"
  unfolding plain_only_def by (intro exI[of _ "[(u, sb_series s)]"]) (simp add: emit_def)

lemma plain_only_trans: "plain_only s t \<Longrightarrow> plain_only t u \<Longrightarrow> plain_only s u"
  unfolding plain_only_def by (elim exE) (rule_tac x = "es @ esa" in exI, auto)

lemma plain_only_fold: "(\<And>x s. plain_only s (f x s)) \<Longrightarrow> plain_only s (fold f xs s)"
  by (induction xs arbitrary: s) (auto intro: plain_only_trans)

lemma plain_snapshots: "plain_only s (emitSeedSnapshots tfs s)"
  unfolding emitSeedSnapshots_def
  by (rule plain_only_fold) (auto intro: plain_only_emit simp: plain_event_def)

lemma path_plain: "\<forall>e \<in> set es. plain_event (fst e) \<Longrightarrow> path symbol tf x (es @ fs) y = path symbol tf x fs y"
proof (induction es)
  case (Cons e es)
  obtain u v where "e = (u, v)" by (cases e)
  then show ?case using Cons by (cases u) (auto simp: plain_event_def)
qed simp

lemma chart_step_set_seeding: "chart_inv (s\<lparr>sb_seeding := b\<rparr>) = chart_inv s"
  by (simp add: chart_inv_def bars_asc_def)

text \<open>A batch put silently, announced by snapshots and a request to rebuild.\<close>

lemma chart_step_seed:
  assumes "\<not> sb_seeding s" "chart_step (s\<lparr>sb_seeding := True\<rparr>) u" "plain_only (u\<lparr>sb_seeding := False\<rparr>) w"
  shows "chart_step s (emit ReseedSymbol w)"
proof (rule chart_step_mono)
  assume inv: "chart_inv s"
  then have u: "chart_inv u" "sb_symbol u = sb_symbol s" "sb_out u = sb_out s" "sb_views u = sb_views s"
    using assms(2) by (simp_all add: chart_step_def chart_step_set_seeding)
  obtain es where es: "\<forall>e \<in> set es. plain_event (fst e)"
      "w = u\<lparr>sb_seeding := False, sb_out := sb_out s @ map fst es, sb_views := sb_views s @ map snd es\<rparr>"
    using assms(3) u by (auto simp: plain_only_def)
  have "chart_inv (emit ReseedSymbol w)" using u(1) by (simp add: es(2) chart_inv_def bars_asc_def emit_def)
  moreover have "streams tf s (emit ReseedSymbol w)" for tf
  proof -
    have "asc (sb_series u tf)" using u(1) by (simp add: chart_inv_def bars_asc_def)
    then show ?thesis unfolding streams_def
      by (intro exI[of _ "es @ [(ReseedSymbol, sb_series u)]"]) (simp add: es emit_def path_plain)
  qed
  ultimately show "chart_step s (emit ReseedSymbol w)"
    using assms(1) u(2) by (simp add: chart_step_def es(2) emit_def)
qed

lemma chart_step_seed_minute: "chart_step s (seed_minute off a live raw s)"
proof (cases "kb_BucketMs raw = live")
  case False
  define s1 where "s1 = bars_seedAnchor (kb_C raw) 0 (kb_BucketMs raw) s"
  define nb where "nb = fillDelta s1 (bar_of (sb_symbol s1) TF1m raw False)"
  have 1: "chart_step s s1" by (simp add: s1_def)
  have "put_ok TF1m nb s1" by (simp add: put_ok_def nb_def)
  note 2 = chart_step_put_bar[OF this]
  have 3: "chart_step t (deriveDaily off k (cascade off a k t))" for t k
    by (rule chart_step_trans[OF chart_step_cascade chart_step_deriveDaily])
  have "seed_minute off a live raw s = (if snd (put_bar TF1m nb s1)
      then deriveDaily off (b_BucketMs nb) (cascade off a (b_BucketMs nb) (fst (put_bar TF1m nb s1)))
      else fst (put_bar TF1m nb s1))"
    using False by (simp add: seed_minute_def Let_def split_beta s1_def nb_def)
  then show ?thesis using chart_step_trans[OF 1 2] chart_step_trans[OF chart_step_trans[OF 1 2] 3] by simp
qed (simp add: seed_minute_def)

lemma chart_step_seed_day: "chart_step s (seed_day off raw s)"
proof -
  define s1 where "s1 = s\<lparr>sb_dailyOfficial := mput (kb_BucketMs raw) True (sb_dailyOfficial s)\<rparr>"
  define nb where "nb = bar_of (sb_symbol s) TFDay raw False"
  have 1: "chart_step s s1"
    by (auto simp: s1_def chart_step_def chart_inv_def bars_asc_def streams_same)
  have "put_ok TFDay nb s1" by (simp add: put_ok_def nb_def s1_def)
  note 2 = chart_step_put_bar[OF this]
  have "seed_day off raw s = (if snd (put_bar TFDay nb s1) then deriveWM off (kb_BucketMs raw) (fst (put_bar TFDay nb s1))
      else fst (put_bar TFDay nb s1))"
    by (simp add: seed_day_def Let_def split_beta s1_def nb_def)
  then show ?thesis using chart_step_trans[OF 1 2] chart_step_trans[OF chart_step_trans[OF 1 2] chart_step_deriveWM] by simp
qed

lemma seed_10s_charted: "tf \<noteq> TF10s \<Longrightarrow> sb_series (fold (seed_10s off live) raws s) tf = sb_series s tf"
proof (induction raws arbitrary: s)
  case (Cons raw raws)
  have "sb_series (seed_10s off live raw s) tf = sb_series s tf"
    using Cons.prems by (simp add: seed_10s_def Let_def bars_seedAnchor_def set_series_def)
  then show ?case using Cons by simp
qed simp

lemma seed_10s_inv: "chart_inv s \<Longrightarrow> chart_inv (seed_10s off live raw s) \<and> sb_symbol (seed_10s off live raw s) = sb_symbol s \<and>
    sb_out (seed_10s off live raw s) = sb_out s \<and> sb_views (seed_10s off live raw s) = sb_views s \<and>
    sb_seeding (seed_10s off live raw s) = sb_seeding s"
proof -
  assume inv: "chart_inv s"
  define nb where "nb = (case series_get (sb_series s TF1m) (BucketStartMs off (kb_BucketMs raw) TF1m) of
       Some auth \<Rightarrow> if b_InProgress auth then bar_of (sb_symbol s) TF10s raw False
         else fst (trim10sBarToAuthRange (bar_of (sb_symbol s) TF10s raw False) auth)
     | None \<Rightarrow> bar_of (sb_symbol s) TF10s raw False)"
  define u where "u = set_series TF10s (put nb (sb_series s TF10s)) s"
  have a: "asc (sb_series s TF10s)" using inv by (simp add: chart_inv_def bars_asc_def)
  have nb: "b_TF nb = TF10s" by (auto simp: nb_def trim10sBarToAuthRange_def Let_def split: option.split)
  have u: "chart_inv u" unfolding u_def by (rule chart_inv_put[OF inv]) (simp add: put_ok_leaf nb)
  have run: "seed_10s off live raw s = (if kb_BucketMs raw = live then s else bars_seedAnchor (kb_C raw) 0 (kb_BucketMs raw) u)"
    unfolding seed_10s_def Let_def nb_def[symmetric] upsert_put[OF a] u_def[symmetric] ..
  show ?thesis using inv chart_step_inv[OF chart_step_anchor u] unfolding run
    by (simp add: bars_seedAnchor_def Let_def u_def set_series_def)
qed

lemma seed_10s_fold: "chart_inv s \<Longrightarrow> (let t = fold (seed_10s off live) raws s in chart_inv t \<and> sb_symbol t = sb_symbol s \<and>
    sb_out t = sb_out s \<and> sb_views t = sb_views s \<and> sb_seeding t = sb_seeding s)"
proof (induction raws arbitrary: s)
  case (Cons raw raws)
  then show ?case using seed_10s_inv[OF Cons.prems, of off live raw] Cons.IH[of "seed_10s off live raw s"] by (simp add: Let_def)
qed simp

lemma chart_step_history10s:
  assumes "\<not> sb_seeding s"
  shows "chart_step s (seedHistory10s off raws s)"
proof (cases "raws = []")
  case False
  show ?thesis
  proof (rule chart_step_mono)
    assume inv: "chart_inv s"
    define u where "u = fold (seed_10s off (forming (sb_series s TF10s))) raws (s\<lparr>sb_seeding := True\<rparr>)"
    have u: "chart_inv u" "sb_symbol u = sb_symbol s" "sb_out u = sb_out s" "sb_views u = sb_views s"
      using seed_10s_fold[of "s\<lparr>sb_seeding := True\<rparr>" off _ raws] inv
      by (simp_all add: u_def Let_def chart_step_set_seeding)
    have same: "sb_series u tf = sb_series s tf" if "tf \<noteq> TF10s" for tf
      using seed_10s_charted[OF that] by (simp add: u_def)
    obtain es where es: "\<forall>e \<in> set es. plain_event (fst e)"
        "emitSeedSnapshots [TF10s] (u\<lparr>sb_seeding := False\<rparr>) =
         u\<lparr>sb_seeding := False, sb_out := sb_out s @ map fst es, sb_views := sb_views s @ map snd es\<rparr>"
      using plain_snapshots[of "u\<lparr>sb_seeding := False\<rparr>" "[TF10s]"] u by (auto simp: plain_only_def)
    have run: "seedHistory10s off raws s = emit (ReseedSymTF TF10s) (emitSeedSnapshots [TF10s] (u\<lparr>sb_seeding := False\<rparr>))"
      using False by (simp add: seedHistory10s_def Let_def u_def)
    have "chart_inv (seedHistory10s off raws s)" using u(1) by (simp add: run es(2) chart_inv_def bars_asc_def emit_def)
    moreover have "streams tf s (seedHistory10s off raws s)" if "tf \<in> set charted" for tf
      unfolding streams_def run
      by (intro exI[of _ "es @ [(ReseedSymTF TF10s, sb_series u)]"])
        (use that same[of tf] in \<open>auto simp: es emit_def path_plain\<close>)
    ultimately show "chart_step s (seedHistory10s off raws s)"
      using assms u(2) by (simp add: chart_step_def run es(2) emit_def)
  qed
qed (simp add: seedHistory10s_def)

section \<open>Every operation\<close>

text \<open>A live batch of minutes carries the symbol's own bars.\<close>

fun own_symbol :: "string \<Rightarrow> bars_op \<Rightarrow> bool" where
  "own_symbol symbol (OpMinutes raws) \<longleftrightarrow> list_all (\<lambda>raw. kb_Symbol raw = symbol) raws"
| "own_symbol symbol _ \<longleftrightarrow> True"

lemma chart_step_op:
  assumes "own_symbol (sb_symbol s) op1" "\<not> sb_seeding s"
  shows "chart_step s (bars_step off a op1 s)"
proof -
  note seed = chart_step_seed[OF assms(2)]
  have fold: "chart_step (s\<lparr>sb_seeding := True\<rparr>) (fold f xs (s\<lparr>sb_seeding := True\<rparr>))"
    if "\<And>x t. chart_step t (f x t)" for f :: "kbar \<Rightarrow> bars_state \<Rightarrow> bars_state" and xs
    by (rule chart_step_fold) (rule that)
  have prepend: "plain_only t (fold (\<lambda>tf s. let newer = g tf s in if newer = [] then s else emit (BarPrepend tf newer) s) tfs t)"
    for g :: "timeframe \<Rightarrow> bars_state \<Rightarrow> bar list" and tfs t
    by (rule plain_only_fold) (auto simp: Let_def plain_event_def intro: plain_only_emit)
  show ?thesis
  proof (cases op1)
    case (OpSeedTicks ts)
    then show ?thesis using seed[OF chart_step_ticks plain_snapshots]
      by (simp add: seed_ticks_def emitTickSeedSnapshots_def Let_def)
  next
    case (OpMinutes raws)
    then show ?thesis using chart_step_minutes[of raws s] assms(1) by (simp add: list_all_iff)
  next
    case (OpHistory1m raws)
    then show ?thesis using seed[OF fold[OF chart_step_seed_minute] plain_snapshots]
      by (simp add: seedHistory1m_def Let_def)
  next
    case (OpOlder1m raws)
    then show ?thesis using seed[OF fold[OF chart_step_seed_minute] prepend]
      by (simp add: seedOlder1m_def Let_def)
  next
    case (OpDaily raws)
    then show ?thesis using seed[OF fold[OF chart_step_seed_day] plain_snapshots]
      by (simp add: seedDaily_def Let_def)
  next
    case OpGap
    have "chart_step s (markGaps s)" by (rule chart_step_same) (simp_all add: markGaps_def)
    then show ?thesis using OpGap by simp
  qed (use chart_step_ticks chart_step_history10s[OF assms(2)] in simp_all)
qed

lemma chart_inv_new: "chart_inv (newSymbolBars symbol)"
  by (simp add: chart_inv_def newSymbolBars_def bars_asc_def asc_def agg_frame_def newTickAgg_def)

end
