(* ===== verification/Indicators.thy ===== *)
theory Indicators
  imports BarStream
begin

text \<open>
  The chart indicators: the calculators of \<open>internal/md/ind_calcs.go\<close> (VWAP, SMA, EMA, MACD) and
  the registry of \<open>internal/md/indicator.go\<close>, which keeps the instances the charts asked for,
  feeds them every bar \<open>barOut\<close> emits, and rebuilds them after history.

  An instance is a pointer shared by the two maps of the registry; here the second map holds its
  ID, and an operation writes the changed instance back under it. What a \<open>finalizedBars\<close> call
  returns is an argument \<open>fin\<close>. The stream of \<open>IndicatorUpdate\<close>s is lossless.
\<close>

section \<open>Specifications\<close>

datatype indicator_type = IndVWAP | IndEMA | IndSMA | IndMACD | IndOther string

record indicator_spec =
  is_Symbol :: string
  is_TF :: timeframe
  is_Type :: indicator_type
  is_Params :: "(string, f64) gomap"

text \<open>\<open>maps.Equal\<close>\<close>

definition params_equal :: "(string, f64) gomap \<Rightarrow> (string, f64) gomap \<Rightarrow> bool" where
  "params_equal a b \<longleftrightarrow> length a = length b \<and>
     list_all (\<lambda>(k, v). case mget b k of None \<Rightarrow> False | Some w \<Rightarrow> feq v w) a"

definition specEqual :: "indicator_spec \<Rightarrow> indicator_spec \<Rightarrow> bool" where
  "specEqual a b \<longleftrightarrow> is_Symbol a = is_Symbol b \<and> is_TF a = is_TF b \<and> is_Type a = is_Type b \<and>
     params_equal (is_Params a) (is_Params b)"

definition paramOr :: "(string, f64) gomap \<Rightarrow> string \<Rightarrow> f64 \<Rightarrow> f64" where
  "paramOr p key dflt = (case mget p key of Some v \<Rightarrow> v | None \<Rightarrow> dflt)"

definition intParam :: "(string, f64) gomap \<Rightarrow> string \<Rightarrow> f64 \<Rightarrow> nat option" where
  "intParam p key dflt =
     (let v = paramOr p key dflt; n = trunc64 v in
      if \<not> feq (float_of_int n) v \<or> n < 1 \<or> n > 400 then None else Some (nat n))"

section \<open>Calculators\<close>

record slot_point =
  sp_slot :: string
  sp_value :: f64
  sp_ok :: bool

definition no_point :: "string \<Rightarrow> slot_point" where
  "no_point slot = \<lparr>sp_slot = slot, sp_value = 0, sp_ok = False\<rparr>"

definition ok_point :: "string \<Rightarrow> f64 \<Rightarrow> slot_point" where
  "ok_point slot v = \<lparr>sp_slot = slot, sp_value = v, sp_ok = True\<rparr>"

record vwap_calc =
  vw_day :: int
  vw_cumPV :: f64
  vw_cumV :: f64

definition typical :: "bar \<Rightarrow> f64" where
  "typical b = (b_H b + b_L b + b_C b) / Fin 3"

definition vwap_fold :: "tz \<Rightarrow> bar \<Rightarrow> vwap_calc \<Rightarrow> vwap_calc" where
  "vwap_fold off b v =
     (let d = BucketStartMs off (b_BucketMs b) TFDay;
          v = (if d \<noteq> vw_day v then \<lparr>vw_day = d, vw_cumPV = 0, vw_cumV = 0\<rparr> else v)
      in v\<lparr>vw_cumPV := vw_cumPV v + typical b * float_of_int (b_V b), vw_cumV := vw_cumV v + float_of_int (b_V b)\<rparr>)"

definition vwap_points :: "tz \<Rightarrow> bar \<Rightarrow> vwap_calc \<Rightarrow> slot_point list" where
  "vwap_points off b v =
     (let (pv, vol) = (if BucketStartMs off (b_BucketMs b) TFDay \<noteq> vw_day v then (0, 0) else (vw_cumPV v, vw_cumV v));
          pv = pv + typical b * float_of_int (b_V b);
          vol = vol + float_of_int (b_V b)
      in if vol = 0 then [no_point ''line''] else [ok_point ''line'' (pv / vol)])"

record sma_calc =
  sm_period :: nat
  sm_win :: "f64 list"
  sm_sum :: f64

definition newSMACalc :: "nat \<Rightarrow> sma_calc" where
  "newSMACalc period = \<lparr>sm_period = period, sm_win = [], sm_sum = 0\<rparr>"

definition sma_fold :: "f64 \<Rightarrow> sma_calc \<Rightarrow> sma_calc" where
  "sma_fold v s =
     (let s = s\<lparr>sm_win := sm_win s @ [v], sm_sum := sm_sum s + v\<rparr> in
      if length (sm_win s) \<ge> sm_period s
      then s\<lparr>sm_sum := sm_sum s - hd (sm_win s), sm_win := tl (sm_win s)\<rparr> else s)"

definition sma_points :: "f64 \<Rightarrow> sma_calc \<Rightarrow> slot_point list" where
  "sma_points v s =
     (if int (length (sm_win s)) < int (sm_period s) - 1 then [no_point ''line'']
      else [ok_point ''line'' ((sm_sum s + v) / float_of_int (int (sm_period s)))])"

record ema_state =
  em_period :: nat
  em_alpha :: f64
  em_count :: nat
  em_seed :: f64
  em_val :: f64

definition newEMAState :: "nat \<Rightarrow> ema_state" where
  "newEMAState period = \<lparr>em_period = period, em_alpha = Fin 2 / float_of_int (int period + 1), em_count = 0,
     em_seed = 0, em_val = 0\<rparr>"

definition ema_fold :: "f64 \<Rightarrow> ema_state \<Rightarrow> ema_state" where
  "ema_fold v e =
     (let e = e\<lparr>em_count := em_count e + 1\<rparr> in
      if em_count e < em_period e then e\<lparr>em_seed := em_seed e + v\<rparr>
      else if em_count e = em_period e
      then e\<lparr>em_val := (em_seed e + v) / float_of_int (int (em_period e))\<rparr>
      else e\<lparr>em_val := em_alpha e * v + (1 - em_alpha e) * em_val e\<rparr>)"

definition ema_preview :: "f64 \<Rightarrow> ema_state \<Rightarrow> f64 \<times> bool" where
  "ema_preview v e =
     (if em_count e + 1 < em_period e then (0, False)
      else if em_count e + 1 = em_period e then ((em_seed e + v) / float_of_int (int (em_period e)), True)
      else (em_alpha e * v + (1 - em_alpha e) * em_val e, True))"

text \<open>\<open>EMA\<close>: the one-shot average of a slice of closes.\<close>

definition EMA :: "f64 list \<Rightarrow> nat \<Rightarrow> f64 \<times> bool" where
  "EMA closes period =
     (if length closes < period then (0, False)
      else (em_val (fold ema_fold closes (newEMAState period)), True))"

definition macd_fold :: "f64 \<Rightarrow> ema_state \<times> ema_state \<times> ema_state \<Rightarrow> ema_state \<times> ema_state \<times> ema_state" where
  "macd_fold v m = (case m of (fast, slow, sig) \<Rightarrow>
     let fast = ema_fold v fast; slow = ema_fold v slow in
     (fast, slow, if em_count fast \<ge> em_period fast \<and> em_count slow \<ge> em_period slow
                  then ema_fold (em_val fast - em_val slow) sig else sig))"

definition macd_points :: "f64 \<Rightarrow> ema_state \<times> ema_state \<times> ema_state \<Rightarrow> slot_point list" where
  "macd_points v m = (case m of (fast, slow, sig) \<Rightarrow>
     let (fv, fok) = ema_preview v fast; (sv, sok) = ema_preview v slow in
     if \<not> fok \<or> \<not> sok then [no_point ''macd'', no_point ''signal'', no_point ''hist'']
     else let macd = fv - sv; (sigv, sigok) = ema_preview macd sig in
          ok_point ''macd'' macd #
          (if sigok then [ok_point ''signal'' sigv, ok_point ''hist'' (macd - sigv)]
           else [no_point ''signal'', no_point ''hist'']))"

datatype calc = VwapCalc vwap_calc | SmaCalc sma_calc | EmaCalc ema_state
  | MacdCalc "ema_state \<times> ema_state \<times> ema_state"

definition newCalc :: "indicator_spec \<Rightarrow> calc option" where
  "newCalc spec = (case is_Type spec of
     IndVWAP \<Rightarrow> Some (VwapCalc \<lparr>vw_day = 0, vw_cumPV = 0, vw_cumV = 0\<rparr>)
   | IndSMA \<Rightarrow> map_option (\<lambda>n. SmaCalc (newSMACalc n)) (intParam (is_Params spec) ''period'' (Fin 20))
   | IndEMA \<Rightarrow> map_option (\<lambda>n. EmaCalc (newEMAState n)) (intParam (is_Params spec) ''period'' (Fin 9))
   | IndMACD \<Rightarrow>
       Option.bind (intParam (is_Params spec) ''fast'' (Fin 12)) (\<lambda>fast.
       Option.bind (intParam (is_Params spec) ''slow'' (Fin 26)) (\<lambda>slow.
       map_option (\<lambda>sig. MacdCalc (newEMAState fast, newEMAState slow, newEMAState sig))
         (intParam (is_Params spec) ''signal'' (Fin 9))))
   | IndOther _ \<Rightarrow> None)"

fun calc_slots :: "calc \<Rightarrow> string list" where
  "calc_slots (MacdCalc m) = [''macd'', ''signal'', ''hist'']"
| "calc_slots _ = [''line'']"

fun calc_fold :: "tz \<Rightarrow> bar \<Rightarrow> calc \<Rightarrow> calc" where
  "calc_fold off b (VwapCalc v) = VwapCalc (vwap_fold off b v)"
| "calc_fold off b (SmaCalc s) = SmaCalc (sma_fold (b_C b) s)"
| "calc_fold off b (EmaCalc e) = EmaCalc (ema_fold (b_C b) e)"
| "calc_fold off b (MacdCalc m) = MacdCalc (macd_fold (b_C b) m)"

fun calc_points :: "tz \<Rightarrow> bar \<Rightarrow> calc \<Rightarrow> slot_point list" where
  "calc_points off b (VwapCalc v) = vwap_points off b v"
| "calc_points off b (SmaCalc s) = sma_points (b_C b) s"
| "calc_points off b (EmaCalc e) = (case ema_preview (b_C b) e of (v, k) \<Rightarrow> [\<lparr>sp_slot = ''line'', sp_value = v, sp_ok = k\<rparr>])"
| "calc_points off b (MacdCalc m) = macd_points (b_C b) m"

section \<open>The registry\<close>

record point =
  po_TimeMs :: int
  po_Value :: f64

record ind_instance =
  in_id :: string
  in_spec :: indicator_spec
  in_c :: calc
  in_owners :: "(nat, unit) gomap"
  in_lastFolded :: int
  in_series :: "(string, point list) gomap"

record indicator_update =
  iu_InstanceID :: string
  iu_SeriesKey :: string
  iu_Points :: "point list"
  iu_Snapshot :: bool

record indicator_set =
  si_byID :: "(string, ind_instance) gomap"
  si_bySymTF :: "(string \<times> timeframe, string list) gomap"
  si_out :: "indicator_update list"

definition newIndicatorSet :: indicator_set where
  "newIndicatorSet = \<lparr>si_byID = [], si_bySymTF = [], si_out = []\<rparr>"

definition seriesKey :: "string \<Rightarrow> ind_instance \<Rightarrow> string" where
  "seriesKey slot i = (if length (calc_slots (in_c i)) = 1 then in_id i else in_id i @ ''#'' @ slot)"

definition ind_emit :: "indicator_update \<Rightarrow> indicator_set \<Rightarrow> indicator_set" where
  "ind_emit u s = s\<lparr>si_out := si_out s @ [u]\<rparr>"

definition ind_put :: "ind_instance \<Rightarrow> indicator_set \<Rightarrow> indicator_set" where
  "ind_put i s = s\<lparr>si_byID := mput (in_id i) i (si_byID s)\<rparr>"

definition add_point :: "int \<Rightarrow> slot_point \<Rightarrow> ind_instance \<Rightarrow> ind_instance" where
  "add_point bucketMs p i =
     (if sp_ok p
      then i\<lparr>in_series := mput (sp_slot p)
               (mget0 [] (in_series i) (sp_slot p) @ [\<lparr>po_TimeMs = bucketMs, po_Value = sp_value p\<rparr>]) (in_series i)\<rparr>
      else i)"

definition foldFinal :: "tz \<Rightarrow> bar \<Rightarrow> ind_instance \<Rightarrow> ind_instance" where
  "foldFinal off b i =
     (let i = fold (add_point (b_BucketMs b)) (calc_points off b (in_c i)) i
      in i\<lparr>in_c := calc_fold off b (in_c i), in_lastFolded := b_BucketMs b\<rparr>)"

definition emitSnapshots :: "ind_instance \<Rightarrow> indicator_set \<Rightarrow> indicator_set" where
  "emitSnapshots i s =
     fold (\<lambda>slot s. ind_emit \<lparr>iu_InstanceID = in_id i, iu_SeriesKey = seriesKey slot i,
        iu_Points = mget0 [] (in_series i) slot, iu_Snapshot = True\<rparr> s) (calc_slots (in_c i)) s"

text \<open>\<open>reseed\<close> on the instance alone, and with the snapshots it publishes.\<close>

definition rebuilt :: "tz \<Rightarrow> bar list \<Rightarrow> ind_instance \<Rightarrow> ind_instance" where
  "rebuilt off bars i = (case newCalc (in_spec i) of
     None \<Rightarrow> i
   | Some c \<Rightarrow> fold (foldFinal off) bars (i\<lparr>in_c := c, in_lastFolded := - 1, in_series := []\<rparr>))"

definition reseed :: "tz \<Rightarrow> (string \<Rightarrow> timeframe \<Rightarrow> bar list) \<Rightarrow> ind_instance \<Rightarrow> indicator_set \<Rightarrow> indicator_set" where
  "reseed off fin i s =
     (if newCalc (in_spec i) = None then s
      else let i = rebuilt off (fin (is_Symbol (in_spec i)) (is_TF (in_spec i))) i
           in emitSnapshots i (ind_put i s))"

definition spec_key :: "indicator_spec \<Rightarrow> string \<times> timeframe" where
  "spec_key spec = (is_Symbol spec, is_TF spec)"

text \<open>The loops that drop an instance from its list, and the list when it is empty.\<close>

definition unlist :: "string \<Rightarrow> string \<times> timeframe \<Rightarrow> (string \<times> timeframe, string list) gomap \<Rightarrow>
    (string \<times> timeframe, string list) gomap" where
  "unlist iid key m =
     (let m = (if mhas m key then mput key (remove1 iid (mget0 [] m key)) m else m)
      in if mget0 [] m key = [] then mdel key m else m)"

definition enlist :: "string \<Rightarrow> string \<times> timeframe \<Rightarrow> (string \<times> timeframe, string list) gomap \<Rightarrow>
    (string \<times> timeframe, string list) gomap" where
  "enlist iid key m = mput key (mget0 [] m key @ [iid]) m"

definition respec :: "tz \<Rightarrow> (string \<Rightarrow> timeframe \<Rightarrow> bar list) \<Rightarrow> indicator_spec \<Rightarrow> ind_instance \<Rightarrow> indicator_set \<Rightarrow> indicator_set" where
  "respec off fin spec i s =
     (if newCalc spec = None then s
      else let oldKey = spec_key (in_spec i); newKey = spec_key spec;
               s = (if oldKey \<noteq> newKey
                    then s\<lparr>si_bySymTF := enlist (in_id i) newKey (unlist (in_id i) oldKey (si_bySymTF s))\<rparr> else s);
               i = i\<lparr>in_spec := spec\<rparr>
           in reseed off fin i (ind_put i s))"

definition ind_ensure :: "tz \<Rightarrow> (string \<Rightarrow> timeframe \<Rightarrow> bar list) \<Rightarrow> nat \<Rightarrow> string \<Rightarrow> indicator_spec \<Rightarrow> indicator_set \<Rightarrow> indicator_set" where
  "ind_ensure off fin connID iid spec s =
     (case mget (si_byID s) iid of
        Some i \<Rightarrow>
          let i = i\<lparr>in_owners := mput connID () (in_owners i)\<rparr>; s = ind_put i s in
          if \<not> specEqual (in_spec i) spec then respec off fin spec i s else emitSnapshots i s
      | None \<Rightarrow>
          (case newCalc spec of
             None \<Rightarrow> s
           | Some ca \<Rightarrow>
               let i = \<lparr>in_id = iid, in_spec = spec, in_c = ca, in_owners = [(connID, ())], in_lastFolded = - 1, in_series = []\<rparr>;
                   s = (ind_put i s)\<lparr>si_bySymTF := enlist iid (spec_key spec) (si_bySymTF s)\<rparr>
               in reseed off fin i s))"

definition ind_release :: "nat \<Rightarrow> string \<Rightarrow> indicator_set \<Rightarrow> indicator_set" where
  "ind_release connID iid s =
     (case mget (si_byID s) iid of
        None \<Rightarrow> s
      | Some i \<Rightarrow>
          let i = i\<lparr>in_owners := mdel connID (in_owners i)\<rparr> in
          if in_owners i \<noteq> [] then ind_put i s
          else s\<lparr>si_byID := mdel iid (si_byID s), si_bySymTF := unlist iid (spec_key (in_spec i)) (si_bySymTF s)\<rparr>)"

text \<open>The loops over a list of instances; a listed ID is always there.\<close>

definition reseed_id :: "tz \<Rightarrow> (string \<Rightarrow> timeframe \<Rightarrow> bar list) \<Rightarrow> string \<Rightarrow> indicator_set \<Rightarrow> indicator_set" where
  "reseed_id off fin iid s = (case mget (si_byID s) iid of None \<Rightarrow> s | Some i \<Rightarrow> reseed off fin i s)"

definition reseedSymbol :: "tz \<Rightarrow> (string \<Rightarrow> timeframe \<Rightarrow> bar list) \<Rightarrow> string \<Rightarrow> indicator_set \<Rightarrow> indicator_set" where
  "reseedSymbol off fin symbol s =
     fold (\<lambda>(k, ids) s. if fst k \<noteq> symbol then s else fold (reseed_id off fin) ids s) (si_bySymTF s) s"

definition reseedSymTF :: "tz \<Rightarrow> (string \<Rightarrow> timeframe \<Rightarrow> bar list) \<Rightarrow> string \<Rightarrow> timeframe \<Rightarrow> indicator_set \<Rightarrow> indicator_set" where
  "reseedSymTF off fin symbol tf s = fold (reseed_id off fin) (mget0 [] (si_bySymTF s) (symbol, tf)) s"

definition emit_point :: "ind_instance \<Rightarrow> int \<Rightarrow> slot_point \<Rightarrow> indicator_set \<Rightarrow> indicator_set" where
  "emit_point i bucketMs p s =
     (if sp_ok p
      then ind_emit \<lparr>iu_InstanceID = in_id i, iu_SeriesKey = seriesKey (sp_slot p) i,
             iu_Points = [\<lparr>po_TimeMs = bucketMs, po_Value = sp_value p\<rparr>], iu_Snapshot = False\<rparr> s
      else s)"

definition onBar_one :: "tz \<Rightarrow> (string \<Rightarrow> timeframe \<Rightarrow> bar list) \<Rightarrow> bar \<Rightarrow> ind_instance \<Rightarrow> indicator_set \<Rightarrow> indicator_set" where
  "onBar_one off fin b i s =
     (if b_InProgress b \<and> b_BucketMs b \<le> in_lastFolded i then s
      else if b_InProgress b then fold (emit_point i (b_BucketMs b)) (calc_points off b (in_c i)) s
      else if b_BucketMs b > in_lastFolded i
      then ind_put (foldFinal off b i) (fold (emit_point i (b_BucketMs b)) (calc_points off b (in_c i)) s)
      else reseed off fin i s)"

definition onBar :: "tz \<Rightarrow> (string \<Rightarrow> timeframe \<Rightarrow> bar list) \<Rightarrow> bar \<Rightarrow> indicator_set \<Rightarrow> indicator_set" where
  "onBar off fin b s =
     fold (\<lambda>iid s. case mget (si_byID s) iid of None \<Rightarrow> s | Some i \<Rightarrow> onBar_one off fin b i s)
       (mget0 [] (si_bySymTF s) (b_Symbol b, b_TF b)) s"

end
