(* ===== verification/IndicatorLaw.thy ===== *)
theory IndicatorLaw
  imports Indicators
begin

text \<open>
  The law of the indicator stream: at every moment an instance is what a rebuild from the
  finalized bars would make of it. The registry's two maps agree, so every bar reaches every
  instance that wants it, and each of its three answers to a bar (a forming point, a final point
  folded in, a rebuild) keeps the law along the paths of \<open>BarStream\<close>.
\<close>

section \<open>Instances\<close>

lemma add_point_simps [simp]:
  "in_id (add_point k p i) = in_id i" "in_spec (add_point k p i) = in_spec i" "in_owners (add_point k p i) = in_owners i"
  "in_c (add_point k p i) = in_c i" "in_lastFolded (add_point k p i) = in_lastFolded i"
  by (simp_all add: add_point_def)

lemma add_points_simps [simp]:
  "in_id (fold (add_point k) ps i) = in_id i" "in_spec (fold (add_point k) ps i) = in_spec i"
  "in_owners (fold (add_point k) ps i) = in_owners i" "in_c (fold (add_point k) ps i) = in_c i"
  "in_lastFolded (fold (add_point k) ps i) = in_lastFolded i"
  by (induction ps arbitrary: i) simp_all

lemma foldFinal_simps [simp]:
  "in_id (foldFinal off b i) = in_id i" "in_spec (foldFinal off b i) = in_spec i" "in_owners (foldFinal off b i) = in_owners i"
  "in_lastFolded (foldFinal off b i) = b_BucketMs b"
  by (simp_all add: foldFinal_def Let_def)

lemma foldFinals_simps [simp]:
  "in_id (fold (foldFinal off) bs i) = in_id i" "in_spec (fold (foldFinal off) bs i) = in_spec i"
  "in_owners (fold (foldFinal off) bs i) = in_owners i"
  by (induction bs arbitrary: i) simp_all

lemma foldFinals_last: "in_lastFolded (fold (foldFinal off) bs i) = (if bs = [] then in_lastFolded i else b_BucketMs (last bs))"
  by (induction bs arbitrary: i) auto

lemma rebuilt_simps [simp]:
  "in_id (rebuilt off bs i) = in_id i" "in_spec (rebuilt off bs i) = in_spec i" "in_owners (rebuilt off bs i) = in_owners i"
  by (simp_all add: rebuilt_def split: option.split)

lemma rebuilt_cong:
  assumes "in_id j = in_id i" "in_spec j = in_spec i" "in_owners j = in_owners i" "newCalc (in_spec i) \<noteq> None"
  shows "rebuilt off bs j = rebuilt off bs i"
proof -
  obtain c where c: "newCalc (in_spec i) = Some c" using assms(4) by blast
  have "j\<lparr>in_c := c, in_lastFolded := - 1, in_series := []\<rparr> = i\<lparr>in_c := c, in_lastFolded := - 1, in_series := []\<rparr>"
    using assms(1-3) by (cases i; cases j) simp
  then show ?thesis using c assms(2) by (simp add: rebuilt_def)
qed

text \<open>The law of one instance: a rebuild changes nothing.\<close>

definition current :: "tz \<Rightarrow> bar list \<Rightarrow> ind_instance \<Rightarrow> bool" where
  "current off bars i \<longleftrightarrow> newCalc (in_spec i) \<noteq> None \<and> rebuilt off bars i = i"

lemma current_rebuilt: "newCalc (in_spec i) \<noteq> None \<Longrightarrow> current off bars (rebuilt off bars i)"
  using rebuilt_cong[of "rebuilt off bars i" i off bars] by (simp add: current_def)

lemma current_last: "current off bars i \<Longrightarrow> in_lastFolded i = (if bars = [] then - 1 else b_BucketMs (last bars))"
proof -
  assume c: "current off bars i"
  then obtain k where "newCalc (in_spec i) = Some k" by (auto simp: current_def)
  then have "in_lastFolded (rebuilt off bars i) = (if bars = [] then - 1 else b_BucketMs (last bars))"
    by (simp add: rebuilt_def foldFinals_last)
  then show ?thesis using c by (simp add: current_def)
qed

lemma current_fold:
  assumes "current off bars i"
  shows "current off (bars @ [b]) (foldFinal off b i)"
proof -
  have k: "newCalc (in_spec i) \<noteq> None" using assms by (simp add: current_def)
  have "rebuilt off (bars @ [b]) (foldFinal off b i) = rebuilt off (bars @ [b]) i"
    by (rule rebuilt_cong) (simp_all add: k)
  also have "\<dots> = foldFinal off b (rebuilt off bars i)"
    using k by (auto simp: rebuilt_def)
  finally show ?thesis using assms by (simp add: current_def)
qed

section \<open>A bar put into a series\<close>

lemma finalized_put_forming:
  assumes "no_final (b_BucketMs b) x" "b_InProgress b" "asc x"
  shows "finalized (put b x) = finalized x"
proof -
  have "filter (\<lambda>c. \<not> b_InProgress c) (put b x) =
      filter (\<lambda>c. \<not> b_InProgress c) (filter (\<lambda>c. b_BucketMs c < b_BucketMs b) x) @
      filter (\<lambda>c. \<not> b_InProgress c) (filter (\<lambda>c. b_BucketMs b < b_BucketMs c) x)"
    using assms(2) by (simp add: put_def)
  also have "filter (\<lambda>c. \<not> b_InProgress c) (filter (\<lambda>c. b_BucketMs b < b_BucketMs c) x) =
      filter (\<lambda>c. \<not> b_InProgress c) (filter (\<lambda>c. b_BucketMs b \<le> b_BucketMs c) x)"
    unfolding filter_filter using assms(1) by (intro filter_cong) (auto simp: no_final_def order_le_less)
  also have "filter (\<lambda>c. \<not> b_InProgress c) (filter (\<lambda>c. b_BucketMs c < b_BucketMs b) x) @
      filter (\<lambda>c. \<not> b_InProgress c) (filter (\<lambda>c. b_BucketMs b \<le> b_BucketMs c) x) =
      filter (\<lambda>c. \<not> b_InProgress c) (take (idx x (b_BucketMs b)) x @ drop (idx x (b_BucketMs b)) x)"
    unfolding filter_append idx_spec(2,3)[OF assms(3)] ..
  finally show ?thesis by (simp add: finalized_def)
qed

lemma finalized_put_final:
  assumes "\<not> b_InProgress b" "asc x" "finalized x = [] \<or> b_BucketMs (last (finalized x)) < b_BucketMs b"
  shows "finalized (put b x) = finalized x @ [b]"
proof -
  have all: "b_BucketMs c < b_BucketMs b" if "c \<in> set (finalized x)" for c
  proof -
    have "asc (finalized x)" unfolding finalized_def by (rule asc_filter[OF assms(2)])
    moreover have ne: "finalized x \<noteq> []" using that by auto
    ultimately obtain ys where "finalized x = ys @ [last (finalized x)]"
      "\<forall>d \<in> set ys. b_BucketMs d < b_BucketMs (last (finalized x))"
      using series_last_asc[of "finalized x" "last (finalized x)"] by (auto simp: series_last_def)
    then show ?thesis using assms(3) ne that by (metis Un_iff empty_iff insert_iff less_trans list.set(1) list.set(2) set_append)
  qed
  have "filter (\<lambda>c. \<not> b_InProgress c) (filter (\<lambda>c. b_BucketMs b < b_BucketMs c) x) = []"
    using all by (fastforce simp: finalized_def filter_empty_conv)
  moreover have "filter (\<lambda>c. \<not> b_InProgress c) (filter (\<lambda>c. b_BucketMs c < b_BucketMs b) x) = filter (\<lambda>c. \<not> b_InProgress c) x"
    unfolding filter_filter using all by (intro filter_cong) (auto simp: finalized_def)
  ultimately show ?thesis using assms(1) by (simp add: finalized_def put_def)
qed

section \<open>The registry\<close>

definition ind_wf :: "indicator_set \<Rightarrow> bool" where
  "ind_wf s \<longleftrightarrow>
     (\<forall>k i. mget (si_byID s) k = Some i \<longrightarrow> in_id i = k \<and> newCalc (in_spec i) \<noteq> None \<and>
        k \<in> set (mget0 [] (si_bySymTF s) (spec_key (in_spec i)))) \<and>
     (\<forall>key. distinct (mget0 [] (si_bySymTF s) key)) \<and> keys_distinct (si_bySymTF s) \<and>
     (\<forall>key. \<forall>k \<in> set (mget0 [] (si_bySymTF s) key). \<exists>i. mget (si_byID s) k = Some i \<and> spec_key (in_spec i) = key)"

text \<open>An update of some instances that keeps what the registry files them by.\<close>

definition ind_map :: "(ind_instance \<Rightarrow> ind_instance) \<Rightarrow> indicator_set \<Rightarrow> indicator_set \<Rightarrow> bool" where
  "ind_map h s t \<longleftrightarrow> si_bySymTF t = si_bySymTF s \<and> (\<forall>k. mget (si_byID t) k = map_option h (mget (si_byID s) k))"

definition keeps_key :: "(ind_instance \<Rightarrow> ind_instance) \<Rightarrow> bool" where
  "keeps_key h \<longleftrightarrow> (\<forall>i. in_id (h i) = in_id i \<and> in_spec (h i) = in_spec i)"

lemma ind_map_wf: "ind_map h s t \<Longrightarrow> keeps_key h \<Longrightarrow> ind_wf s \<Longrightarrow> ind_wf t"
  unfolding ind_wf_def ind_map_def keeps_key_def by (auto 0 3) metis

lemma ind_emit_simps [simp]: "si_byID (ind_emit u s) = si_byID s" "si_bySymTF (ind_emit u s) = si_bySymTF s"
  by (simp_all add: ind_emit_def)

lemma emitSnapshots_simps [simp]: "si_byID (emitSnapshots i s) = si_byID s" "si_bySymTF (emitSnapshots i s) = si_bySymTF s"
proof -
  have "si_byID (fold (\<lambda>x s. ind_emit (f x) s) xs s) = si_byID s \<and> si_bySymTF (fold (\<lambda>x s. ind_emit (f x) s) xs s) = si_bySymTF s"
    for f :: "string \<Rightarrow> indicator_update" and xs by (induction xs arbitrary: s) simp_all
  then show "si_byID (emitSnapshots i s) = si_byID s" "si_bySymTF (emitSnapshots i s) = si_bySymTF s"
    by (simp_all add: emitSnapshots_def)
qed

lemma emit_points_simps [simp]:
  "si_byID (fold (emit_point i k) ps s) = si_byID s" "si_bySymTF (fold (emit_point i k) ps s) = si_bySymTF s"
  by (induction ps arbitrary: s) (simp_all add: emit_point_def)

lemma ind_put_simps [simp]: "si_byID (ind_put i s) = mput (in_id i) i (si_byID s)" "si_bySymTF (ind_put i s) = si_bySymTF s"
  by (simp_all add: ind_put_def)

lemma reseed_byID:
  "newCalc (in_spec i) \<noteq> None \<Longrightarrow>
   si_byID (reseed off fin i s) = mput (in_id i) (rebuilt off (fin (is_Symbol (in_spec i)) (is_TF (in_spec i))) i) (si_byID s)"
  "si_bySymTF (reseed off fin i s) = si_bySymTF s"
  by (auto simp: reseed_def Let_def)

text \<open>A loop over IDs, each round changing its own instance by \<open>h\<close>.\<close>

definition round_of :: "(ind_instance \<Rightarrow> ind_instance) \<Rightarrow> (string \<Rightarrow> indicator_set \<Rightarrow> indicator_set) \<Rightarrow> bool" where
  "round_of h g \<longleftrightarrow> (\<forall>k s. ind_wf s \<longrightarrow> si_bySymTF (g k s) = si_bySymTF s \<and>
     (\<forall>k'. mget (si_byID (g k s)) k' = (if k' = k then map_option h (mget (si_byID s) k') else mget (si_byID s) k')))"

lemma round_map: "round_of h g \<Longrightarrow> ind_wf s \<Longrightarrow> ind_map (\<lambda>i. if in_id i = k then h i else i) s (g k s)"
  unfolding round_of_def ind_map_def ind_wf_def by (auto simp: map_option_case split: option.split)

lemma rounds:
  assumes "round_of h g" "keeps_key h" "ind_wf s" "distinct ks \<or> (\<forall>i. h (h i) = h i)"
  shows "ind_map (\<lambda>i. if in_id i \<in> set ks then h i else i) s (fold g ks s)"
  using assms(3,4)
proof (induction ks arbitrary: s)
  case Nil
  then show ?case by (simp add: ind_map_def option.map_ident)
next
  case (Cons k ks)
  have 1: "ind_map (\<lambda>i. if in_id i = k then h i else i) s (g k s)" by (rule round_map[OF assms(1) Cons.prems(1)])
  then have wf: "ind_wf (g k s)" using assms(2) Cons.prems(1) by (auto intro: ind_map_wf simp: keeps_key_def)
  have 2: "ind_map (\<lambda>i. if in_id i \<in> set ks then h i else i) (g k s) (fold g ks (g k s))"
    using Cons.prems(2) by (intro Cons.IH[OF wf]) auto
  show ?case unfolding ind_map_def
  proof (intro conjI allI)
    show "si_bySymTF (fold g (k # ks) s) = si_bySymTF s" using 1 2 by (simp add: ind_map_def)
    fix k'
    show "mget (si_byID (fold g (k # ks) s)) k' = map_option (\<lambda>i. if in_id i \<in> set (k # ks) then h i else i) (mget (si_byID s) k')"
      using 1 2 assms(2) Cons.prems(2) by (cases "mget (si_byID s) k'") (auto simp: ind_map_def keeps_key_def)
  qed
qed

lemma ind_map_cong:
  "ind_map h s t \<Longrightarrow> (\<And>k i. mget (si_byID s) k = Some i \<Longrightarrow> h i = h' i) \<Longrightarrow> ind_map h' s t"
  by (auto simp: ind_map_def map_option_case split: option.split)

lemma wf_listed:
  assumes "ind_wf s" "mget (si_byID s) k = Some i"
  shows "in_id i \<in> set (mget0 [] (si_bySymTF s) key) \<longleftrightarrow> spec_key (in_spec i) = key"
  using assms unfolding ind_wf_def by (metis option.inject)

definition onBar_inst :: "tz \<Rightarrow> (string \<Rightarrow> timeframe \<Rightarrow> bar list) \<Rightarrow> bar \<Rightarrow> ind_instance \<Rightarrow> ind_instance" where
  "onBar_inst off fin b i =
     (if b_InProgress b then i else if b_BucketMs b > in_lastFolded i then foldFinal off b i
      else rebuilt off (fin (is_Symbol (in_spec i)) (is_TF (in_spec i))) i)"

lemma onBar_map:
  assumes "ind_wf s"
  shows "ind_map (\<lambda>i. if spec_key (in_spec i) = (b_Symbol b, b_TF b) then onBar_inst off fin b i else i) s (onBar off fin b s)"
proof -
  let ?g = "\<lambda>iid s. case mget (si_byID s) iid of None \<Rightarrow> s | Some i \<Rightarrow> onBar_one off fin b i s"
  let ?ids = "mget0 [] (si_bySymTF s) (b_Symbol b, b_TF b)"
  have "round_of (onBar_inst off fin b) ?g"
    unfolding round_of_def ind_wf_def
    by (auto simp: onBar_one_def onBar_inst_def reseed_byID split: option.split)
  moreover have "keeps_key (onBar_inst off fin b)" by (simp add: keeps_key_def onBar_inst_def)
  moreover have "distinct ?ids" using assms by (simp add: ind_wf_def)
  ultimately have "ind_map (\<lambda>i. if in_id i \<in> set ?ids then onBar_inst off fin b i else i) s (onBar off fin b s)"
    unfolding onBar_def using rounds assms by blast
  then show ?thesis by (rule ind_map_cong) (simp add: wf_listed[OF assms])
qed

definition reseed_inst :: "tz \<Rightarrow> (string \<Rightarrow> timeframe \<Rightarrow> bar list) \<Rightarrow> ind_instance \<Rightarrow> ind_instance" where
  "reseed_inst off fin i = rebuilt off (fin (is_Symbol (in_spec i)) (is_TF (in_spec i))) i"

lemma reseed_round: "round_of (reseed_inst off fin) (reseed_id off fin)"
  unfolding round_of_def ind_wf_def
  by (auto simp: reseed_id_def reseed_inst_def reseed_byID split: option.split)

lemma reseed_inst_idem: "reseed_inst off fin (reseed_inst off fin i) = reseed_inst off fin i"
proof (cases "newCalc (in_spec i)")
  case None
  then show ?thesis by (simp add: reseed_inst_def rebuilt_def)
next
  case (Some c)
  then show ?thesis using rebuilt_cong[of "reseed_inst off fin i" i off] by (simp add: reseed_inst_def)
qed

lemma keeps_key_reseed: "keeps_key (reseed_inst off fin)"
  by (simp add: keeps_key_def reseed_inst_def)

lemma reseedSymTF_map:
  assumes "ind_wf s"
  shows "ind_map (\<lambda>i. if spec_key (in_spec i) = (symbol, tf) then reseed_inst off fin i else i) s (reseedSymTF off fin symbol tf s)"
  unfolding reseedSymTF_def
  by (rule ind_map_cong[OF rounds[OF reseed_round keeps_key_reseed assms]])
    (simp_all add: reseed_inst_idem wf_listed[OF assms])

lemma fold_lists: "fold (\<lambda>(k, ids) s. if fst k \<noteq> symbol then s else fold g ids s) m s =
    fold g (concat (map snd (filter (\<lambda>(k, ids). fst k = symbol) m))) s"
  by (induction m arbitrary: s) auto

lemma reseedSymbol_map:
  assumes "ind_wf s"
  shows "ind_map (\<lambda>i. if is_Symbol (in_spec i) = symbol then reseed_inst off fin i else i) s (reseedSymbol off fin symbol s)"
proof -
  let ?ids = "concat (map snd (filter (\<lambda>(k, ids). fst k = symbol) (si_bySymTF s)))"
  have listed: "in_id i \<in> set ?ids \<longleftrightarrow> is_Symbol (in_spec i) = symbol" if i: "mget (si_byID s) k = Some i" for k i
  proof -
    have "in_id i \<in> set ?ids \<longleftrightarrow> (\<exists>key ids. (key, ids) \<in> set (si_bySymTF s) \<and> fst key = symbol \<and> in_id i \<in> set ids)"
      by fastforce
    also have "\<dots> \<longleftrightarrow> (\<exists>key. fst key = symbol \<and> in_id i \<in> set (mget0 [] (si_bySymTF s) key))"
      using assms unfolding ind_wf_def mget0_def
      by (auto dest: in_set_mget mget_in_set split: option.splits)
    also have "\<dots> \<longleftrightarrow> is_Symbol (in_spec i) = symbol"
      using wf_listed[OF assms i] by (auto simp: spec_key_def)
    finally show ?thesis .
  qed
  have "ind_map (\<lambda>i. if in_id i \<in> set ?ids then reseed_inst off fin i else i) s (reseedSymbol off fin symbol s)"
    unfolding reseedSymbol_def fold_lists by (rule rounds[OF reseed_round keeps_key_reseed assms]) (simp add: reseed_inst_idem)
  then show ?thesis by (rule ind_map_cong) (rule if_cong[OF listed refl refl])
qed

section \<open>The law along a path\<close>

text \<open>What the core does with an event of \<open>symbol\<close>: \<open>finalizedBars\<close> reads the event's view.\<close>

definition fin_at :: "string \<Rightarrow> (timeframe \<Rightarrow> series) \<Rightarrow> (string \<Rightarrow> timeframe \<Rightarrow> bar list) \<Rightarrow> string \<Rightarrow> timeframe \<Rightarrow> bar list" where
  "fin_at symbol v fin0 sy tf = (if sy = symbol then finalized (v tf) else fin0 sy tf)"

fun ind_event :: "tz \<Rightarrow> string \<Rightarrow> (string \<Rightarrow> timeframe \<Rightarrow> bar list) \<Rightarrow> bar_event \<times> (timeframe \<Rightarrow> series) \<Rightarrow> indicator_set \<Rightarrow> indicator_set" where
  "ind_event off symbol fin0 (BarUpdate b, v) s = onBar off (fin_at symbol v fin0) b s"
| "ind_event off symbol fin0 (ReseedSymbol, v) s = reseedSymbol off (fin_at symbol v fin0) symbol s"
| "ind_event off symbol fin0 (ReseedSymTF tf, v) s = reseedSymTF off (fin_at symbol v fin0) symbol tf s"
| "ind_event off symbol fin0 (e, v) s = s"

text \<open>The law for the instances of one symbol and frame whose finalized bars are \<open>F\<close>.\<close>

definition law_at :: "tz \<Rightarrow> string \<times> timeframe \<Rightarrow> bar list \<Rightarrow> indicator_set \<Rightarrow> bool" where
  "law_at off key F s \<longleftrightarrow> (\<forall>k i. mget (si_byID s) k = Some i \<longrightarrow> spec_key (in_spec i) = key \<longrightarrow> current off F i)"

lemma law_map:
  assumes "ind_map h s t" "keeps_key h" "ind_wf s" "law_at off key F s"
    "\<And>i. spec_key (in_spec i) = key \<Longrightarrow> current off F i \<Longrightarrow> current off F' (h i)"
  shows "law_at off key F' t"
  using assms unfolding law_at_def ind_map_def keeps_key_def by (auto 0 3)

lemma event_wf: "ind_wf s \<Longrightarrow> ind_wf (ind_event off symbol fin0 (e, v) s)"
proof (cases e)
  case (BarUpdate b)
  then show "ind_wf s \<Longrightarrow> ?thesis"
    using ind_map_wf[OF onBar_map] by (simp add: keeps_key_def onBar_inst_def)
next
  case ReseedSymbol
  then show "ind_wf s \<Longrightarrow> ?thesis"
    using ind_map_wf[OF reseedSymbol_map] by (simp add: keeps_key_def reseed_inst_def)
next
  case (ReseedSymTF tf)
  then show "ind_wf s \<Longrightarrow> ?thesis"
    using ind_map_wf[OF reseedSymTF_map] by (simp add: keeps_key_def reseed_inst_def)
qed simp_all

lemma law_onBar:
  assumes "ind_wf s" "law_at off (b_Symbol b, b_TF b) (finalized x) s" "asc x" "v (b_TF b) = put b x"
    "b_InProgress b \<Longrightarrow> no_final (b_BucketMs b) x" "fin (b_Symbol b) (b_TF b) = finalized (v (b_TF b))"
  shows "law_at off (b_Symbol b, b_TF b) (finalized (v (b_TF b))) (onBar off fin b s)"
proof (rule law_map[OF onBar_map[OF assms(1)] _ assms(1,2)])
  show "keeps_key (\<lambda>i. if spec_key (in_spec i) = (b_Symbol b, b_TF b) then onBar_inst off fin b i else i)"
    by (simp add: keeps_key_def onBar_inst_def)
  fix i assume i: "spec_key (in_spec i) = (b_Symbol b, b_TF b)" "current off (finalized x) i"
  have re: "current off (finalized (v (b_TF b))) (rebuilt off (finalized (v (b_TF b))) i)"
    using i(2) by (intro current_rebuilt) (simp add: current_def)
  have fin: "fin (is_Symbol (in_spec i)) (is_TF (in_spec i)) = finalized (v (b_TF b))"
    using i(1) assms(6) by (simp add: spec_key_def)
  consider "b_InProgress b" | "\<not> b_InProgress b" "b_BucketMs b > in_lastFolded i" | "\<not> b_InProgress b" "\<not> b_BucketMs b > in_lastFolded i"
    by blast
  then have "current off (finalized (v (b_TF b))) (onBar_inst off fin b i)"
  proof cases
    case 1
    then show ?thesis using i(2) finalized_put_forming[OF assms(5)[OF 1] 1 assms(3)] assms(4) by (simp add: onBar_inst_def)
  next
    case 2
    have "finalized x = [] \<or> b_BucketMs (last (finalized x)) < b_BucketMs b"
      using 2(2) current_last[OF i(2)] by (simp split: if_splits)
    then show ?thesis using 2 current_fold[OF i(2)] finalized_put_final[OF 2(1) assms(3)] assms(4) by (simp add: onBar_inst_def)
  next
    case 3
    then show ?thesis using re fin by (simp add: onBar_inst_def)
  qed
  then show "current off (finalized (v (b_TF b))) (if spec_key (in_spec i) = (b_Symbol b, b_TF b) then onBar_inst off fin b i else i)"
    using i(1) by simp
qed

lemma law_onBar_other:
  assumes "ind_wf s" "law_at off key F s" "key \<noteq> (b_Symbol b, b_TF b)"
  shows "law_at off key F (onBar off fin b s)"
  by (rule law_map[OF onBar_map[OF assms(1)] _ assms(1,2)]) (use assms(3) in \<open>auto simp: keeps_key_def onBar_inst_def\<close>)

lemma law_reseed:
  assumes "ind_wf s" "law_at off (symbol, tf) F s" "fin symbol tf = F'"
  shows "law_at off (symbol, tf) F' (reseedSymbol off fin symbol s)" "law_at off (symbol, tf) F' (reseedSymTF off fin symbol tf s)"
proof -
  have re: "spec_key (in_spec i) = (symbol, tf) \<Longrightarrow> current off F i \<Longrightarrow> current off F' (reseed_inst off fin i)" for i
    using current_rebuilt[of i off F'] assms(3) by (auto simp: reseed_inst_def spec_key_def current_def)
  show "law_at off (symbol, tf) F' (reseedSymbol off fin symbol s)"
    by (rule law_map[OF reseedSymbol_map[OF assms(1)] _ assms(1,2)])
      (use re in \<open>auto simp: keeps_key_def reseed_inst_def spec_key_def\<close>)
  show "law_at off (symbol, tf) F' (reseedSymTF off fin symbol tf s)"
    by (rule law_map[OF reseedSymTF_map[OF assms(1)] _ assms(1,2)])
      (use re in \<open>auto simp: keeps_key_def reseed_inst_def spec_key_def\<close>)
qed

lemma law_reseed_other:
  assumes "ind_wf s" "law_at off key F s"
  shows "fst key \<noteq> symbol \<Longrightarrow> law_at off key F (reseedSymbol off fin symbol s)"
    and "key \<noteq> (symbol, tf) \<Longrightarrow> law_at off key F (reseedSymTF off fin symbol tf s)"
proof -
  show "fst key \<noteq> symbol \<Longrightarrow> law_at off key F (reseedSymbol off fin symbol s)"
    by (rule law_map[OF reseedSymbol_map[OF assms(1)] _ assms]) (auto simp: keeps_key_def reseed_inst_def spec_key_def)
  show "key \<noteq> (symbol, tf) \<Longrightarrow> law_at off key F (reseedSymTF off fin symbol tf s)"
    by (rule law_map[OF reseedSymTF_map[OF assms(1)] _ assms]) (auto simp: keeps_key_def reseed_inst_def)
qed

lemma law_path:
  assumes "ind_wf s" "law_at off (symbol, tf) (finalized x) s" "asc x" "path symbol tf x es y"
  shows "ind_wf (fold (ind_event off symbol fin0) es s) \<and> law_at off (symbol, tf) (finalized y) (fold (ind_event off symbol fin0) es s)"
  using assms
proof (induction es arbitrary: x s)
  case (Cons p es)
  obtain e v where p: "p = (e, v)" by (cases p)
  let ?t = "ind_event off symbol fin0 (e, v) s"
  have wf: "ind_wf ?t" by (rule event_wf[OF Cons.prems(1)])
  have "\<exists>x'. law_at off (symbol, tf) (finalized x') ?t \<and> asc x' \<and> path symbol tf x' es y"
  proof (cases e)
    case (BarUpdate b)
    show ?thesis
    proof (cases "b_TF b = tf")
      case True
      then have c: "b_Symbol b = symbol" "v tf = put b x" "b_InProgress b \<longrightarrow> no_final (b_BucketMs b) x" "path symbol tf (v tf) es y"
        using Cons.prems(4) unfolding p BarUpdate path.simps if_P[OF True] by blast+
      have "law_at off (symbol, tf) (finalized (v tf)) ?t"
        using law_onBar[of s off b x v "fin_at symbol v fin0"] Cons.prems(1-3) c True by (simp add: BarUpdate fin_at_def)
      moreover have "asc (v tf)" unfolding c(2) by (rule asc_put[OF Cons.prems(3)])
      ultimately show ?thesis using c(4) by blast
    next
      case False
      then show ?thesis using Cons.prems law_onBar_other[OF Cons.prems(1,2)] by (intro exI[of _ x]) (auto simp: p BarUpdate)
    qed
  next
    case ReseedSymbol
    then show ?thesis using Cons.prems(4) law_reseed(1)[OF Cons.prems(1,2), of "fin_at symbol v fin0"]
      by (intro exI[of _ "v tf"]) (auto simp: p fin_at_def)
  next
    case (ReseedSymTF t)
    show ?thesis
    proof (cases "t = tf")
      case True
      then show ?thesis using Cons.prems(4) law_reseed(2)[OF Cons.prems(1,2), of "fin_at symbol v fin0"]
        by (intro exI[of _ "v tf"]) (auto simp: p ReseedSymTF fin_at_def)
    next
      case False
      then show ?thesis using Cons.prems law_reseed_other(2)[OF Cons.prems(1,2)]
        by (intro exI[of _ x]) (auto simp: p ReseedSymTF)
    qed
  qed (use Cons.prems in \<open>auto simp: p intro!: exI[of _ x]\<close>)
  then show ?case using Cons.IH[OF wf] by (auto simp: p)
qed simp

lemma law_path_other:
  assumes "ind_wf s" "law_at off (sy, tf) F s" "sy \<noteq> symbol" "path symbol tf x es y"
  shows "law_at off (sy, tf) F (fold (ind_event off symbol fin0) es s)"
  using assms
proof (induction es arbitrary: x s)
  case (Cons p es)
  obtain e v where p: "p = (e, v)" by (cases p)
  let ?t = "ind_event off symbol fin0 (e, v) s"
  have wf: "ind_wf ?t" by (rule event_wf[OF Cons.prems(1)])
  have "law_at off (sy, tf) F ?t \<and> (\<exists>x'. path symbol tf x' es y)"
  proof (cases e)
    case (BarUpdate b)
    have "(sy, tf) \<noteq> (b_Symbol b, b_TF b)" using Cons.prems(3,4) by (auto simp: p BarUpdate split: if_splits)
    then show ?thesis using Cons.prems(4) law_onBar_other[OF Cons.prems(1,2)] by (auto simp: p BarUpdate split: if_splits)
  next
    case ReseedSymbol
    then show ?thesis using Cons.prems(3,4) law_reseed_other(1)[OF Cons.prems(1,2)] by (auto simp: p)
  next
    case (ReseedSymTF t)
    then show ?thesis using Cons.prems(3,4) law_reseed_other(2)[OF Cons.prems(1,2)] by (auto simp: p split: if_splits)
  qed (use Cons.prems in \<open>auto simp: p\<close>)
  then show ?case using Cons.IH[OF wf _ Cons.prems(3)] by (auto simp: p)
qed simp

section \<open>Requests\<close>

lemma unlist_get: "mget0 [] (unlist iid key m) k = (if k = key then remove1 iid (mget0 [] m key) else mget0 [] m k)"
  by (auto simp: unlist_def Let_def mget0_def mhas_def split: option.splits)

lemma enlist_get: "mget0 [] (enlist iid key m) k = (if k = key then mget0 [] m key @ [iid] else mget0 [] m k)"
  by (simp add: enlist_def)

lemma lists_distinct [simp]: "keys_distinct m \<Longrightarrow> keys_distinct (unlist iid key m)" "keys_distinct m \<Longrightarrow> keys_distinct (enlist iid key m)"
  by (simp_all add: unlist_def enlist_def Let_def)

lemma add_point_owners: "add_point k p (i\<lparr>in_owners := os\<rparr>) = (add_point k p i)\<lparr>in_owners := os\<rparr>"
  by (simp add: add_point_def)

lemma add_points_owners: "fold (add_point k) ps (i\<lparr>in_owners := os\<rparr>) = (fold (add_point k) ps i)\<lparr>in_owners := os\<rparr>"
  by (induction ps arbitrary: i) (simp_all add: add_point_owners)

lemma foldFinal_owners: "foldFinal off b (i\<lparr>in_owners := os\<rparr>) = (foldFinal off b i)\<lparr>in_owners := os\<rparr>"
  by (simp add: foldFinal_def add_points_owners Let_def)

lemma foldFinals_owners: "fold (foldFinal off) bs (i\<lparr>in_owners := os\<rparr>) = (fold (foldFinal off) bs i)\<lparr>in_owners := os\<rparr>"
  by (induction bs arbitrary: i) (simp_all add: foldFinal_owners)

lemma owners_first: "i\<lparr>in_owners := os, in_c := c, in_lastFolded := - 1, in_series := []\<rparr> =
    i\<lparr>in_c := c, in_lastFolded := - 1, in_series := [], in_owners := os\<rparr>"
  by (cases i) simp

lemma rebuilt_owners: "rebuilt off F (i\<lparr>in_owners := os\<rparr>) = (rebuilt off F i)\<lparr>in_owners := os\<rparr>"
proof (cases "newCalc (in_spec i)")
  case (Some c)
  then show ?thesis by (simp add: rebuilt_def owners_first foldFinals_owners)
qed (simp add: rebuilt_def)

lemma current_owners: "current off F i \<Longrightarrow> current off F (i\<lparr>in_owners := os\<rparr>)"
  by (simp add: current_def rebuilt_owners)

text \<open>All the instances, each at its own frame.\<close>

definition law_all :: "tz \<Rightarrow> (string \<Rightarrow> timeframe \<Rightarrow> bar list) \<Rightarrow> indicator_set \<Rightarrow> bool" where
  "law_all off fin s \<longleftrightarrow> (\<forall>k i. mget (si_byID s) k = Some i \<longrightarrow> is_TF (in_spec i) \<in> set charted \<longrightarrow>
     current off (fin (is_Symbol (in_spec i)) (is_TF (in_spec i))) i)"

lemma law_all_at: "law_all off fin s \<longleftrightarrow> (\<forall>sy. \<forall>tf \<in> set charted. law_at off (sy, tf) (fin sy tf) s)"
  unfolding law_all_def law_at_def spec_key_def by blast

definition req_ok :: "tz \<Rightarrow> (string \<Rightarrow> timeframe \<Rightarrow> bar list) \<Rightarrow> indicator_set \<Rightarrow> bool" where
  "req_ok off fin s \<longleftrightarrow> ind_wf s \<and> law_all off fin s"

lemma wf_old:
  assumes "ind_wf s" "mget (si_byID s) k = Some i"
  shows "in_id i = k" "newCalc (in_spec i) \<noteq> None" "k \<in> set (mget0 [] (si_bySymTF s) (spec_key (in_spec i)))"
  using assms by (simp_all add: ind_wf_def)

lemma wf_back: "ind_wf s \<Longrightarrow> k \<in> set (mget0 [] (si_bySymTF s) key) \<Longrightarrow> \<exists>i. mget (si_byID s) k = Some i \<and> spec_key (in_spec i) = key"
  unfolding ind_wf_def by blast

lemma wf_lists: "ind_wf s \<Longrightarrow> distinct (mget0 [] (si_bySymTF s) key)" "ind_wf s \<Longrightarrow> keys_distinct (si_bySymTF s)"
  unfolding ind_wf_def by blast+

lemma wf_intro:
  assumes "\<And>k i. mget (si_byID s) k = Some i \<Longrightarrow> in_id i = k \<and> newCalc (in_spec i) \<noteq> None \<and> k \<in> set (mget0 [] (si_bySymTF s) (spec_key (in_spec i)))"
    "\<And>key. distinct (mget0 [] (si_bySymTF s) key)" "keys_distinct (si_bySymTF s)"
    "\<And>key k. k \<in> set (mget0 [] (si_bySymTF s) key) \<Longrightarrow> \<exists>i. mget (si_byID s) k = Some i \<and> spec_key (in_spec i) = key"
  shows "ind_wf s"
  using assms unfolding ind_wf_def by blast

lemma req_cong: "req_ok off fin s \<Longrightarrow> si_byID t = si_byID s \<Longrightarrow> si_bySymTF t = si_bySymTF s \<Longrightarrow> req_ok off fin t"
  unfolding req_ok_def ind_wf_def law_all_def by presburger

text \<open>An instance changed where it is.\<close>

lemma reput_wf:
  assumes "ind_wf s" "mget (si_byID s) k = Some i" "in_id j = k" "newCalc (in_spec j) \<noteq> None" "spec_key (in_spec j) = spec_key (in_spec i)"
    "si_byID t = mput k j (si_byID s)" "si_bySymTF t = si_bySymTF s"
  shows "ind_wf t"
proof (rule wf_intro, goal_cases)
  case (1 k' i')
  then show ?case using wf_old[OF assms(1), of k' i'] wf_old[OF assms(1,2)] assms(3-7) by (auto split: if_splits)
next
  case (4 key k')
  then show ?case using wf_back[OF assms(1), of k' key] assms(2,5,6,7) by auto
qed (use wf_lists[OF assms(1)] assms(7) in simp_all)

lemma req_reput:
  assumes "req_ok off fin s" "mget (si_byID s) k = Some i" "in_id j = k" "in_spec j = in_spec i"
    "is_TF (in_spec j) \<in> set charted \<Longrightarrow> current off (fin (is_Symbol (in_spec j)) (is_TF (in_spec j))) j"
    "si_byID t = mput k j (si_byID s)" "si_bySymTF t = si_bySymTF s"
  shows "req_ok off fin t"
proof -
  have wf: "ind_wf s" and law: "law_all off fin s" using assms(1) by (simp_all add: req_ok_def)
  have "ind_wf t" by (rule reput_wf[OF wf assms(2,3) _ _ assms(6,7)]) (use wf_old[OF wf assms(2)] assms(4) in simp_all)
  moreover have "law_all off fin t" using law assms(5,6) unfolding law_all_def by simp
  ultimately show ?thesis by (simp add: req_ok_def)
qed

lemma req_reseed:
  assumes "req_ok off fin s" "mget (si_byID s) k = Some i" "in_id j = k" "in_spec j = in_spec i"
  shows "req_ok off fin (reseed off fin j s)"
proof -
  have k: "newCalc (in_spec j) \<noteq> None" using assms wf_old[of s k i] by (simp add: req_ok_def)
  show ?thesis
    by (rule req_reput[OF assms(1,2), of "rebuilt off (fin (is_Symbol (in_spec j)) (is_TF (in_spec j))) j"])
      (simp_all add: assms(3,4) reseed_byID k[unfolded assms(4)] current_rebuilt)
qed

text \<open>An instance put under a new ID or a new key, with the lists to match, still to be rebuilt.\<close>

lemma filed_wf:
  assumes "ind_wf s" "in_id i = k" "newCalc (in_spec i) \<noteq> None" "si_byID t = mput k i (si_byID s)"
    and "case mget (si_byID s) k of None \<Rightarrow> si_bySymTF t = enlist k (spec_key (in_spec i)) (si_bySymTF s)
      | Some j \<Rightarrow> si_bySymTF t = (if spec_key (in_spec j) \<noteq> spec_key (in_spec i)
          then enlist k (spec_key (in_spec i)) (unlist k (spec_key (in_spec j)) (si_bySymTF s)) else si_bySymTF s)"
  shows "ind_wf t"
proof (cases "mget (si_byID s) k")
  case None
  have no: "k \<notin> set (mget0 [] (si_bySymTF s) key)" for key using wf_back[OF assms(1), of k key] None by auto
  have get: "mget (si_byID t) k' = (if k' = k then Some i else mget (si_byID s) k')" for k' using assms(4) by simp
  have l: "mget0 [] (si_bySymTF t) key = (if key = spec_key (in_spec i) then mget0 [] (si_bySymTF s) key @ [k]
      else mget0 [] (si_bySymTF s) key)" for key
    using assms(5) None by (simp add: enlist_get)
  show ?thesis
  proof (rule wf_intro, goal_cases)
    case (1 k' i')
    then show ?case using wf_old[OF assms(1), of k' i'] assms(2,3) by (auto simp: get l split: if_splits)
  next
    case (2 key)
    then show ?case using wf_lists(1)[OF assms(1), of key] no[of key] by (cases "key = spec_key (in_spec i)") (simp_all add: l)
  next
    case 3
    then show ?case using wf_lists(2)[OF assms(1)] assms(5) None by simp
  next
    case (4 key k')
    then show ?case using wf_back[OF assms(1), of k' key] no[of key] by (auto simp: get l split: if_splits)
  qed
next
  case (Some j)
  have kj: "k \<in> set (mget0 [] (si_bySymTF s) key) \<longleftrightarrow> key = spec_key (in_spec j)" for key
    using wf_listed[OF assms(1) Some, of key] wf_old[OF assms(1) Some] by auto
  show ?thesis
  proof (cases "spec_key (in_spec j) = spec_key (in_spec i)")
    case True
    then show ?thesis using reput_wf[OF assms(1) Some assms(2,3) _ assms(4)] assms(5) Some by simp
  next
    case False
    then have l: "mget0 [] (si_bySymTF t) key = (if key = spec_key (in_spec i) then mget0 [] (si_bySymTF s) key @ [k]
        else if key = spec_key (in_spec j) then remove1 k (mget0 [] (si_bySymTF s) key) else mget0 [] (si_bySymTF s) key)" for key
      using assms(5) Some by (simp add: enlist_get unlist_get)
    have d: "distinct (mget0 [] (si_bySymTF s) key)" for key by (rule wf_lists(1)[OF assms(1)])
    have kd: "keys_distinct (si_bySymTF t)" using wf_lists(2)[OF assms(1)] assms(5) Some False by simp
    have get: "mget (si_byID t) k' = (if k' = k then Some i else mget (si_byID s) k')" for k' using assms(4) by simp
    have old: "in_id i' = k' \<and> newCalc (in_spec i') \<noteq> None \<and> k' \<in> set (mget0 [] (si_bySymTF s) (spec_key (in_spec i')))"
      if "mget (si_byID s) k' = Some i'" for k' i' using wf_old[OF assms(1) that] by simp
    have listed: "\<exists>i'. mget (si_byID s) k' = Some i' \<and> spec_key (in_spec i') = key" if "k' \<in> set (mget0 [] (si_bySymTF s) key)" for k' key
      by (rule wf_back[OF assms(1) that])
    show ?thesis
    proof (rule wf_intro, goal_cases)
      case (1 k' i')
      then show ?case using old[of k' i'] assms(2,3) by (auto simp: get l in_set_remove1 split: if_splits)
    next
      case (2 key)
      then show ?case using d[of key] kj[of key] False
        by (cases "key = spec_key (in_spec i)"; cases "key = spec_key (in_spec j)") (simp_all add: l)
    next
      case 3
      then show ?case by (rule kd)
    next
      case (4 key k')
      show ?case
      proof (cases "k' = k")
        case True
        then have "key = spec_key (in_spec i)" using 4 kj[of key] d[of key] by (auto simp: l split: if_splits)
        then show ?thesis using True by (simp add: get)
      next
        case False
        then have "k' \<in> set (mget0 [] (si_bySymTF s) key)" using 4 by (auto simp: l split: if_splits dest: in_set_remove1)
        then show ?thesis using listed False by (simp add: get)
      qed
    qed
  qed
qed

lemma filed_req:
  assumes "req_ok off fin s" "in_id i = k" "newCalc (in_spec i) \<noteq> None"
    "si_byID t = mput k (rebuilt off (fin (is_Symbol (in_spec i)) (is_TF (in_spec i))) i) (si_byID s)"
    and "case mget (si_byID s) k of None \<Rightarrow> si_bySymTF t = enlist k (spec_key (in_spec i)) (si_bySymTF s)
      | Some j \<Rightarrow> si_bySymTF t = (if spec_key (in_spec j) \<noteq> spec_key (in_spec i)
          then enlist k (spec_key (in_spec i)) (unlist k (spec_key (in_spec j)) (si_bySymTF s)) else si_bySymTF s)"
  shows "req_ok off fin t"
proof -
  let ?i = "rebuilt off (fin (is_Symbol (in_spec i)) (is_TF (in_spec i))) i"
  have "ind_wf t"
    using assms by (intro filed_wf[of s ?i k t]) (simp_all add: req_ok_def split: option.splits)
  moreover have "law_all off fin t"
    using assms(1,4) current_rebuilt[OF assms(3)] by (simp add: req_ok_def law_all_def)
  ultimately show ?thesis by (simp add: req_ok_def)
qed

lemma mput_twice: "mput k v (mput k w m) = mput k v m"
  by (induction m) auto

lemma ensure_ok:
  assumes "req_ok off fin s"
  shows "req_ok off fin (ind_ensure off fin conn iid spec s)"
proof (cases "mget (si_byID s) iid")
  case None
  show ?thesis
  proof (cases "newCalc spec")
    case (Some c)
    let ?i = "\<lparr>in_id = iid, in_spec = spec, in_c = c, in_owners = [(conn, ())], in_lastFolded = - 1, in_series = []\<rparr>"
    show ?thesis
      by (rule filed_req[OF assms, of ?i iid])
        (simp_all add: ind_ensure_def \<open>mget (si_byID s) iid = None\<close> Some reseed_byID mput_twice Let_def)
  qed (simp add: assms ind_ensure_def None)
next
  case (Some i)
  let ?i = "i\<lparr>in_owners := mput conn () (in_owners i)\<rparr>"
  have wf: "ind_wf s" using assms by (simp add: req_ok_def)
  have iid: "in_id i = iid" by (rule wf_old(1)[OF wf Some])
  have cur: "is_TF (in_spec i) \<in> set charted \<Longrightarrow> current off (fin (is_Symbol (in_spec i)) (is_TF (in_spec i))) ?i"
    using assms Some current_owners unfolding req_ok_def law_all_def by blast
  have put: "req_ok off fin (ind_put ?i s)"
    by (rule req_reput[OF assms Some, of ?i]) (use iid cur in simp_all)
  show ?thesis
  proof (cases "specEqual (in_spec i) spec \<or> newCalc spec = None")
    case True
    then have "si_byID (ind_ensure off fin conn iid spec s) = si_byID (ind_put ?i s)"
      "si_bySymTF (ind_ensure off fin conn iid spec s) = si_bySymTF (ind_put ?i s)"
      by (auto simp: ind_ensure_def Some respec_def Let_def)
    then show ?thesis by (rule req_cong[OF put])
  next
    case False
    show ?thesis
      by (rule filed_req[OF put, of "?i\<lparr>in_spec := spec\<rparr>" iid])
        (use False in \<open>auto simp: ind_ensure_def Some respec_def Let_def reseed_byID mput_twice iid\<close>)
  qed
qed

lemma release_ok:
  assumes "req_ok off fin s"
  shows "req_ok off fin (ind_release conn iid s)"
proof (cases "mget (si_byID s) iid")
  case None
  then show ?thesis using assms by (simp add: ind_release_def)
next
  case (Some i)
  let ?i = "i\<lparr>in_owners := mdel conn (in_owners i)\<rparr>"
  have wf: "ind_wf s" using assms by (simp add: req_ok_def)
  have iid: "in_id i = iid" by (rule wf_old(1)[OF wf Some])
  have cur: "is_TF (in_spec i) \<in> set charted \<Longrightarrow> current off (fin (is_Symbol (in_spec i)) (is_TF (in_spec i))) ?i"
    using assms Some current_owners unfolding req_ok_def law_all_def by blast
  show ?thesis
  proof (cases "mdel conn (in_owners i) = []")
    case False
    then have "ind_release conn iid s = ind_put ?i s" by (simp add: ind_release_def Some)
    then show ?thesis using req_reput[OF assms Some, of ?i] iid cur by simp
  next
    case True
    let ?t = "ind_release conn iid s"
    have get: "mget (si_byID ?t) k = (if k = iid then None else mget (si_byID s) k)" for k
      using True by (simp add: ind_release_def Some)
    have lists: "si_bySymTF ?t = unlist iid (spec_key (in_spec i)) (si_bySymTF s)"
      using True by (simp add: ind_release_def Some)
    have l: "mget0 [] (si_bySymTF ?t) key = (if key = spec_key (in_spec i) then remove1 iid (mget0 [] (si_bySymTF s) key)
        else mget0 [] (si_bySymTF s) key)" for key
      by (simp add: lists unlist_get)
    have kj: "iid \<in> set (mget0 [] (si_bySymTF s) key) \<longleftrightarrow> key = spec_key (in_spec i)" for key
      using wf_listed[OF wf Some, of key] iid by auto
    have "ind_wf ?t"
    proof (rule wf_intro, goal_cases)
      case (1 k' i')
      then show ?case using wf_old[OF wf, of k' i'] by (auto simp: get l in_set_remove1 split: if_splits)
    next
      case (2 key)
      then show ?case using wf_lists(1)[OF wf, of key] by (cases "key = spec_key (in_spec i)") (simp_all add: l)
    next
      case 3
      then show ?case unfolding lists using wf_lists(2)[OF wf] by simp
    next
      case (4 key k')
      then have "k' \<in> set (mget0 [] (si_bySymTF s) key)" "k' \<noteq> iid"
        using kj[of key] wf_lists(1)[OF wf, of key] by (auto simp: l split: if_splits dest: in_set_remove1)
      then show ?case using wf_back[OF wf] by (simp add: get)
    qed
    moreover have "law_all off fin ?t" using assms by (simp add: req_ok_def law_all_def get)
    ultimately show ?thesis by (simp add: req_ok_def)
  qed
qed

end
