(* ===== verification/ExecLane.thy ===== *)
theory ExecLane
  imports Feed Prelude
begin

text \<open>
  The execution lane of the market-data core, \<open>internal/md/execution.go\<close>: the ordered, lossless
  evidence the trading core acts on. It carries live prints, the top of an acknowledged book,
  candles whose every minute was observed, and gap marks that void what went before.

  The lane is the code's \<open>executionState\<close> with two more fields: whether the lane is on
  (\<open>c.execution != nil\<close>) and what was sent on it so far. A send blocks until it is taken or the
  core stops, so the stream is a list. An operation takes the instant the core set
  before it (\<open>currentTime\<close>). A symbol's record is a pointer: an operation takes it and writes it back.
\<close>

section \<open>Events and state\<close>

text \<open>\<open>md.EligiblePrint\<close>\<close>

record md_print =
  mp_Symbol :: string
  mp_ReceiptMs :: int
  mp_Price :: f64
  mp_TsMs :: int
  mp_RecvTsMs :: int
  mp_Seq :: int
  mp_Gap :: bool

definition md_print0 :: md_print where
  "md_print0 = \<lparr>mp_Symbol = '''', mp_ReceiptMs = 0, mp_Price = 0, mp_TsMs = 0, mp_RecvTsMs = 0,
     mp_Seq = 0, mp_Gap = False\<rparr>"

definition gap_print :: "int \<Rightarrow> md_print" where
  "gap_print ms = md_print0\<lparr>mp_Gap := True, mp_RecvTsMs := ms\<rparr>"

definition print_of :: "tick \<Rightarrow> md_print" where
  "print_of t = \<lparr>mp_Symbol = tk_Symbol t, mp_ReceiptMs = sr_ReceiptMs (tk_Source t), mp_Price = tk_Price t,
     mp_TsMs = tk_TsMs t, mp_RecvTsMs = tk_RecvTsMs t, mp_Seq = tk_Seq t, mp_Gap = False\<rparr>"

record execution_book =
  xb_ReceiptMs :: int
  xb_BidTsMs :: "int option"
  xb_AskTsMs :: "int option"
  xb_Coverage :: nat
  xb_Symbol :: string
  xb_Bid :: f64
  xb_Ask :: f64
  xb_Generation :: nat

record execution_candle =
  xc_Symbol :: string
  xc_Timeframe :: string
  xc_StartMs :: int
  xc_EndMs :: int
  xc_Low :: f64
  xc_High :: f64
  xc_Verified :: bool

text \<open>\<open>ExecutionEvent\<close> has three pointers of which the code sets one.\<close>

datatype execution_event = XPrint md_print | XBook execution_book | XCandle execution_candle

record execution_range =
  xr_start :: int
  xr_low :: f64
  xr_high :: f64

definition range0 :: execution_range where
  "range0 = \<lparr>xr_start = 0, xr_low = 0, xr_high = 0\<rparr>"

definition coverage0 :: coverage where
  "coverage0 = \<lparr>cov_Verified = False, cov_Revision = 0, cov_SinceMs = 0\<rparr>"

record execution_symbol =
  xs_minuteCompletedThrough :: int
  xs_minuteCoverage :: coverage
  xs_coverage :: coverage
  xs_since :: int
  xs_ten :: execution_range
  xs_minutes :: "(int, kbar) gomap"
  xs_sent :: "(string, int) gomap"

record execution_state =
  xe_generation :: nat
  xe_sourceConnection :: nat
  xe_sourceLoss :: nat
  xe_symbols :: "(string, execution_symbol) gomap"

record exec_lane = execution_state +
  xl_on :: bool
  xl_out :: "execution_event list"

definition lane0 :: "bool \<Rightarrow> exec_lane" where
  "lane0 enabled = \<lparr>xe_generation = 0, xe_sourceConnection = 0, xe_sourceLoss = 0, xe_symbols = [],
     xl_on = enabled, xl_out = []\<rparr>"

section \<open>Operations\<close>

definition executionEmit :: "execution_event \<Rightarrow> exec_lane \<Rightarrow> exec_lane" where
  "executionEmit e x = (if xl_on x then x\<lparr>xl_out := xl_out x @ [e]\<rparr> else x)"

definition executionGap :: "int \<Rightarrow> exec_lane \<Rightarrow> exec_lane" where
  "executionGap ms x =
     (if \<not> xl_on x then x
      else executionEmit (XPrint (gap_print ms))
             (x\<lparr>xe_generation := xe_generation x + 1, xe_symbols := []\<rparr>))"

definition executionSource :: "source_ref \<Rightarrow> int \<Rightarrow> exec_lane \<Rightarrow> exec_lane" where
  "executionSource r ms x =
     (if \<not> xl_on x \<or> sr_Connection r = 0 then x
      else if sr_Connection r \<noteq> xe_sourceConnection x \<or> sr_Loss r \<noteq> xe_sourceLoss x
      then (executionGap ms x)\<lparr>xe_sourceConnection := sr_Connection r, xe_sourceLoss := sr_Loss r\<rparr>
      else x)"

definition newExecutionSymbol :: "int \<Rightarrow> execution_symbol" where
  "newExecutionSymbol ms = \<lparr>xs_minuteCompletedThrough = 0, xs_minuteCoverage = coverage0,
     xs_coverage = coverage0, xs_since = ms, xs_ten = range0, xs_minutes = [], xs_sent = []\<rparr>"

definition put_symbol :: "string \<Rightarrow> execution_symbol \<Rightarrow> exec_lane \<Rightarrow> exec_lane" where
  "put_symbol symbol s x = x\<lparr>xe_symbols := mput symbol s (xe_symbols x)\<rparr>"

definition executionSymbol :: "string \<Rightarrow> int \<Rightarrow> exec_lane \<Rightarrow> execution_symbol \<times> exec_lane" where
  "executionSymbol symbol ms x =
     (case mget (xe_symbols x) symbol of
        Some s \<Rightarrow> (s, x)
      | None \<Rightarrow> let s = newExecutionSymbol ms in (s, put_symbol symbol s x))"

definition best_price :: "book_level list \<Rightarrow> f64" where
  "best_price ls = (case ls of [] \<Rightarrow> 0 | l # _ \<Rightarrow> bl_price l)"

definition top_of :: "feed_book \<Rightarrow> nat \<Rightarrow> nat \<Rightarrow> execution_book" where
  "top_of bk revision generation = \<lparr>xb_ReceiptMs = sr_ReceiptMs (fb_source bk), xb_BidTsMs = fb_bidTsMs bk,
     xb_AskTsMs = fb_askTsMs bk, xb_Coverage = revision, xb_Symbol = fb_symbol bk,
     xb_Bid = best_price (fb_bids bk), xb_Ask = best_price (fb_asks bk), xb_Generation = generation\<rparr>"

definition executionBook :: "feed_book \<Rightarrow> bool \<Rightarrow> nat \<Rightarrow> exec_lane \<Rightarrow> exec_lane" where
  "executionBook bk verified revision x =
     (if \<not> xl_on x \<or> \<not> verified then x
      else let generation = (if xe_generation x = 0 then 1 else xe_generation x)
           in executionEmit (XBook (top_of bk revision generation)) (x\<lparr>xe_generation := generation\<rparr>))"

definition executionPrice :: "f64 \<Rightarrow> bool" where
  "executionPrice p \<longleftrightarrow> p > 0 \<and> \<not> is_nan p \<and> \<not> is_inf p"

definition minute_usable :: "coverage \<Rightarrow> execution_symbol \<Rightarrow> kbar \<Rightarrow> bool" where
  "minute_usable cov s b \<longleftrightarrow>
     \<not> (kb_BucketMs b < xs_since s \<or> kb_BucketMs b < cov_SinceMs cov \<or> kb_Volume b \<le> 0 \<or>
        \<not> executionPrice (kb_L b) \<or> \<not> executionPrice (kb_H b) \<or> kb_L b > kb_H b)"

definition executionMinute :: "int \<Rightarrow> coverage \<Rightarrow> kbar \<Rightarrow> exec_lane \<Rightarrow> exec_lane" where
  "executionMinute nw cov b x =
     (case mget (xe_symbols x) (kb_Symbol b) of
        None \<Rightarrow> x
      | Some s \<Rightarrow>
          if cov_Verified (xs_minuteCoverage s) \<and> cov_Revision (xs_minuteCoverage s) \<noteq> cov_Revision cov
          then executionGap nw x
          else let s = s\<lparr>xs_minuteCoverage := cov\<rparr>;
                   s = (if \<not> minute_usable cov s b then s
                        else s\<lparr>xs_minutes := mput (kb_BucketMs b) b (xs_minutes s),
                               xs_minuteCompletedThrough :=
                                 (if kb_BucketMs b > xs_minuteCompletedThrough s then kb_BucketMs b
                                  else xs_minuteCompletedThrough s)\<rparr>)
               in put_symbol (kb_Symbol b) s x)"

definition executionMinutes :: "int \<Rightarrow> kbar list \<Rightarrow> bool \<Rightarrow> coverage \<Rightarrow> exec_lane \<Rightarrow> exec_lane" where
  "executionMinutes nw bars seed cov x =
     (if \<not> xl_on x \<or> seed \<or> \<not> cov_Verified cov then x else fold (executionMinute nw cov) bars x)"

text \<open>The first part of \<open>executionTick\<close>: another subscription revision starts the evidence afresh.\<close>

definition tick_coverage :: "int \<Rightarrow> tick \<Rightarrow> coverage \<Rightarrow> execution_symbol \<Rightarrow> exec_lane \<Rightarrow> execution_symbol \<times> exec_lane" where
  "tick_coverage nw t cov s x =
     (if cov_Revision (xs_coverage s) = cov_Revision cov then (s, x)
      else let (s, x) = (if cov_Verified (xs_coverage s)
                         then executionSymbol (tk_Symbol t) (tk_TsMs t) (executionGap nw x) else (s, x));
               s = s\<lparr>xs_coverage := cov\<rparr>
           in (if cov_SinceMs cov > xs_since s then s\<lparr>xs_since := cov_SinceMs cov\<rparr> else s, x))"

definition candle_of :: "string \<Rightarrow> string \<Rightarrow> int \<Rightarrow> int \<Rightarrow> f64 \<Rightarrow> f64 \<Rightarrow> execution_candle" where
  "candle_of symbol tf start hi low high = \<lparr>xc_Symbol = symbol, xc_Timeframe = tf, xc_StartMs = start,
     xc_EndMs = hi, xc_Low = low, xc_High = high, xc_Verified = True\<rparr>"

text \<open>The ten-second candle: sent when a print of a later bucket comes.\<close>

definition ten_close :: "string \<Rightarrow> int \<Rightarrow> execution_symbol \<Rightarrow> exec_lane \<Rightarrow> execution_symbol \<times> exec_lane" where
  "ten_close symbol start s x =
     (let r = xs_ten s in
      if xr_start r \<noteq> 0 \<and> start > xr_start r
      then (s\<lparr>xs_ten := range0\<rparr>,
            if xr_start r \<ge> xs_since s \<and> xr_low r > 0
            then executionEmit (XCandle (candle_of symbol ''10s'' (xr_start r) (xr_start r + 10000) (xr_low r) (xr_high r))) x
            else x)
      else (s, x))"

definition ten_range :: "int \<Rightarrow> tick \<Rightarrow> execution_symbol \<Rightarrow> execution_symbol" where
  "ten_range start t s =
     (let r = xs_ten s;
          r = (if xr_start r = 0 then r\<lparr>xr_start := start\<rparr> else r);
          r = (if tk_RangeEligible t \<and> start = xr_start r
               then r\<lparr>xr_low := (if xr_low r = 0 \<or> tk_Price t < xr_low r then tk_Price t else xr_low r),
                      xr_high := math_max (xr_high r) (tk_Price t)\<rparr>
               else r)
      in s\<lparr>xs_ten := r\<rparr>)"

text \<open>The loop over the minutes of \<open>[ms, hi)\<close>: \<open>None\<close> when one is missing.\<close>

function minute_range :: "(int, kbar) gomap \<Rightarrow> int \<Rightarrow> int \<Rightarrow> f64 \<Rightarrow> f64 \<Rightarrow> (f64 \<times> f64) option" where
  "minute_range m ms hi low high =
     (if \<not> ms < hi then Some (low, high)
      else case mget m ms of
             None \<Rightarrow> None
           | Some b \<Rightarrow> minute_range m (ms + 60000) hi
               (if low = 0 \<or> kb_L b < low then kb_L b else low) (math_max high (kb_H b)))"
  by pat_completeness auto

termination by (relation "measure (\<lambda>(m, ms, hi, low, high). nat (hi - ms))") auto

declare minute_range.simps [simp del]

definition minuteFrames :: "(string \<times> timeframe) list" where
  "minuteFrames = [(''1m'', TF1m), (''5m'', TF5m), (''15m'', TF15m), (''30m'', TF30m), (''60m'', TF60m)]"

definition minute_candle :: "tz \<Rightarrow> tick \<Rightarrow> string \<times> timeframe \<Rightarrow> execution_symbol \<times> exec_lane \<Rightarrow> execution_symbol \<times> exec_lane" where
  "minute_candle off t f sx =
     (case (f, sx) of ((name, tf), (s, x)) \<Rightarrow>
        let hi = BucketStartMs off (tk_TsMs t) tf;
            lo = hi - fst (IntradaySpanSecs tf) * 1000
        in if lo < xs_since s \<or> lo \<le> mget0 0 (xs_sent s) name \<or> hi > xs_minuteCompletedThrough s
           then (s, x)
           else case minute_range (xs_minutes s) lo hi 0 0 of
                  None \<Rightarrow> (s, x)
                | Some (low, high) \<Rightarrow>
                    (s\<lparr>xs_sent := mput name lo (xs_sent s)\<rparr>,
                     executionEmit (XCandle (candle_of (tk_Symbol t) name lo hi low high)) x))"

definition old_minutes :: "int \<Rightarrow> execution_symbol \<Rightarrow> execution_symbol" where
  "old_minutes tsMs s = s\<lparr>xs_minutes := filter (\<lambda>(ms, b). \<not> ms < tsMs - 2 * 60 * 60 * 1000) (xs_minutes s)\<rparr>"

definition executionTick :: "tz \<Rightarrow> int \<Rightarrow> tick \<Rightarrow> coverage \<Rightarrow> exec_lane \<Rightarrow> exec_lane" where
  "executionTick off nw t cov x =
     (if \<not> xl_on x \<or> tk_Delivery t \<noteq> DeliveryRealtime \<or> tk_Seq t \<le> 0 \<or> \<not> executionPrice (tk_Price t) then x
      else let (s, x) = executionSymbol (tk_Symbol t) (tk_TsMs t) x;
               (s, x) = tick_coverage nw t cov s x;
               start = BucketStartMs off (tk_TsMs t) TF10s;
               (s, x) = ten_close (tk_Symbol t) start s x;
               s = ten_range start t s;
               (s, x) = fold (minute_candle off t) minuteFrames (s, x);
               x = put_symbol (tk_Symbol t) (old_minutes (tk_TsMs t) s) x
           in if tk_LastEligible t then executionEmit (XPrint (print_of t)) x else x)"

section \<open>Runs\<close>

text \<open>What the core calls on the lane, each call with its instant.\<close>

datatype lane_op =
    LaneTick tick coverage
  | LaneMinutes "kbar list" bool coverage
  | LaneBook feed_book bool nat
  | LaneGap
  | LaneSource source_ref

fun lane_step :: "tz \<Rightarrow> int \<times> lane_op \<Rightarrow> exec_lane \<Rightarrow> exec_lane" where
  "lane_step off (ms, LaneTick t cov) x = executionTick off ms t cov x"
| "lane_step off (ms, LaneMinutes bars seed cov) x = executionMinutes ms bars seed cov x"
| "lane_step off (ms, LaneBook bk verified revision) x = executionBook bk verified revision x"
| "lane_step off (ms, LaneGap) x = executionGap ms x"
| "lane_step off (ms, LaneSource r) x = executionSource r ms x"

definition lane_run :: "tz \<Rightarrow> (int \<times> lane_op) list \<Rightarrow> exec_lane" where
  "lane_run off ops = fold (lane_step off) ops (lane0 True)"

lemma lane_run_Nil [simp]: "lane_run off [] = lane0 True"
  by (simp add: lane_run_def)

lemma lane_run_snoc [simp]: "lane_run off (ops @ [op]) = lane_step off op (lane_run off ops)"
  by (simp add: lane_run_def)

section \<open>What a minute candle spans\<close>

lemma map_of_filter: "map_of (filter (\<lambda>(k, v). P k) m) k = (if P k then map_of m k else None)"
  by (induction m) auto

lemma executionPrice_iff: "executionPrice p \<longleftrightarrow> (\<exists>q. p = Fin q \<and> 0 < q)"
  by (cases p) (auto simp: executionPrice_def is_nan_def is_inf_def zero_f64_def)

lemma math_max_Fin [simp]: "math_max (Fin a) (Fin b) = Fin (max a b)"
  by (simp add: max_def)

definition minute_good :: "kbar \<Rightarrow> bool" where
  "minute_good b \<longleftrightarrow> 0 < kb_Volume b \<and> executionPrice (kb_L b) \<and> executionPrice (kb_H b) \<and> kb_L b \<le> kb_H b"

text \<open>A low and a high as the code keeps them: both zero before the first value.\<close>

definition range_good :: "f64 \<Rightarrow> f64 \<Rightarrow> bool" where
  "range_good low high \<longleftrightarrow> low = 0 \<and> high = 0 \<or> executionPrice low \<and> executionPrice high \<and> low \<le> high"

lemma range_good_step:
  assumes "range_good low high" "executionPrice l" "executionPrice h" "l \<le> h"
  defines "low' \<equiv> if low = 0 \<or> l < low then l else low" and "high' \<equiv> math_max high h"
  shows "range_good low' high'" "low' \<noteq> 0" "low' \<le> l" "h \<le> high'" "low \<noteq> 0 \<Longrightarrow> low' \<le> low" "high \<le> high'"
    "low' = low \<and> low \<noteq> 0 \<or> low' = l" "high' = high \<and> high \<noteq> 0 \<or> high' = h"
  using assms(1-4) unfolding low'_def high'_def
  by (auto simp: range_good_def executionPrice_iff zero_f64_def max_def split: if_splits)

text \<open>The starts of the minutes of a span.\<close>

definition minutes_in :: "int \<Rightarrow> int \<Rightarrow> int set" where
  "minutes_in lo hi = {k. lo \<le> k \<and> k < hi \<and> 60000 dvd k - lo}"

lemma minutes_in_step: "minutes_in ms hi = (if ms < hi then insert ms (minutes_in (ms + 60000) hi) else {})"
proof (intro set_eqI)
  fix k :: int
  have far: "60000 dvd k - ms \<Longrightarrow> ms \<le> k \<Longrightarrow> k \<noteq> ms \<Longrightarrow> ms + 60000 \<le> k"
    using zdvd_imp_le[of 60000 "k - ms"] by linarith
  have "k - ms = (k - (ms + 60000)) + 60000" by simp
  then have "60000 dvd k - ms \<longleftrightarrow> 60000 dvd k - (ms + 60000)" by (simp only: dvd_add_triv_right_iff)
  then show "k \<in> minutes_in ms hi \<longleftrightarrow> k \<in> (if ms < hi then insert ms (minutes_in (ms + 60000) hi) else {})"
    unfolding minutes_in_def mem_Collect_eq using far
    by (cases "ms < hi"; cases "k = ms"; cases "60000 dvd k - ms") (simp_all, linarith+)
qed

definition spanned :: "(int, kbar) gomap \<Rightarrow> int set \<Rightarrow> f64 \<Rightarrow> f64 \<Rightarrow> bool" where
  "spanned m K l h \<longleftrightarrow> (\<forall>k \<in> K. \<exists>b. mget m k = Some b \<and> l \<le> kb_L b \<and> kb_H b \<le> h)"

definition attained :: "(int, kbar) gomap \<Rightarrow> int set \<Rightarrow> (kbar \<Rightarrow> f64) \<Rightarrow> f64 \<Rightarrow> bool" where
  "attained m K f v \<longleftrightarrow> (\<exists>k \<in> K. \<exists>b. mget m k = Some b \<and> v = f b)"

lemma minute_range_spec:
  assumes "\<forall>k b. mget m k = Some b \<longrightarrow> minute_good b"
  shows "minute_range m ms hi low high = Some (l, h) \<Longrightarrow> range_good low high \<Longrightarrow>
    range_good l h \<and> (ms < hi \<longrightarrow> l \<noteq> 0) \<and> (low \<noteq> 0 \<longrightarrow> l \<noteq> 0 \<and> l \<le> low) \<and> high \<le> h \<and>
    spanned m (minutes_in ms hi) l h \<and>
    (l = low \<or> attained m (minutes_in ms hi) kb_L l) \<and> (h = high \<or> attained m (minutes_in ms hi) kb_H h)"
  using assms
proof (induction m ms hi low high rule: minute_range.induct)
  case (1 m ms hi low high)
  show ?case
  proof (cases "ms < hi")
    case False
    then show ?thesis using "1.prems"(1,2) minutes_in_step[of ms hi]
      by (auto simp: minute_range.simps spanned_def range_good_def executionPrice_iff zero_f64_def)
  next
    case True
    then obtain b where b: "mget m ms = Some b"
      using "1.prems"(1) by (auto simp: minute_range.simps split: option.splits)
    define low' where "low' = (if low = 0 \<or> kb_L b < low then kb_L b else low)"
    define high' where "high' = math_max high (kb_H b)"
    have r: "minute_range m (ms + 60000) hi low' high' = Some (l, h)"
      using "1.prems"(1) True b by (subst (asm) minute_range.simps) (simp add: low'_def high'_def)
    have g: "minute_good b" using "1.prems"(3) b by blast
    then have st: "range_good low' high'" "low' \<noteq> 0" "low' \<le> kb_L b" "kb_H b \<le> high'" "low \<noteq> 0 \<Longrightarrow> low' \<le> low" "high \<le> high'"
      "low' = low \<or> low' = kb_L b" "high' = high \<or> high' = kb_H b"
      using range_good_step[of low high "kb_L b" "kb_H b", folded low'_def high'_def] "1.prems"(2)
      unfolding minute_good_def by blast+
    note IH = "1.IH"[OF _ b, folded low'_def high'_def, OF _ r st(1) "1.prems"(3)]
    note step = minutes_in_step[of ms hi]
    show ?thesis using IH st True b f64_le_trans[of l low' low] f64_le_trans[of high high' h]
        f64_le_trans[of l low' "kb_L b"] f64_le_trans[of "kb_H b" high' h]
      unfolding step by (auto simp: spanned_def attained_def)
  qed
qed

section \<open>Evidence since the last gap\<close>

definition lane_frames :: "(string \<times> timeframe) list" where
  "lane_frames = (''10s'', TF10s) # minuteFrames"

lemma frames_intraday: "(name, tf) \<in> set lane_frames \<Longrightarrow> intraday tf"
  by (auto simp: lane_frames_def minuteFrames_def intraday_def)

text \<open>The span of a candle, and for a minute frame what its minutes were: bars with property \<open>D\<close>.\<close>

definition on_minutes :: "(kbar \<Rightarrow> bool) \<Rightarrow> execution_candle \<Rightarrow> bool" where
  "on_minutes D c \<longleftrightarrow>
     (\<forall>k \<in> minutes_in (xc_StartMs c) (xc_EndMs c). \<exists>b. D b \<and> kb_Symbol b = xc_Symbol c \<and> kb_BucketMs b = k \<and>
        xc_Low c \<le> kb_L b \<and> kb_H b \<le> xc_High c) \<and>
     (\<exists>b. D b \<and> kb_Symbol b = xc_Symbol c \<and> kb_BucketMs b \<in> minutes_in (xc_StartMs c) (xc_EndMs c) \<and> xc_Low c = kb_L b) \<and>
     (\<exists>b. D b \<and> kb_Symbol b = xc_Symbol c \<and> kb_BucketMs b \<in> minutes_in (xc_StartMs c) (xc_EndMs c) \<and> xc_High c = kb_H b)"

definition candle_ok :: "tz \<Rightarrow> (kbar \<Rightarrow> bool) \<Rightarrow> execution_candle \<Rightarrow> bool" where
  "candle_ok off D c \<longleftrightarrow> xc_Verified c \<and> executionPrice (xc_Low c) \<and> executionPrice (xc_High c) \<and> xc_Low c \<le> xc_High c \<and>
     (\<exists>tf. (xc_Timeframe c, tf) \<in> set lane_frames \<and> xc_EndMs c = xc_StartMs c + span_ms tf \<and>
        BucketStartMs off (xc_StartMs c) tf = xc_StartMs c) \<and>
     (xc_Timeframe c \<noteq> ''10s'' \<longrightarrow> on_minutes D c)"

fun event_ok :: "tz \<Rightarrow> (kbar \<Rightarrow> bool) \<Rightarrow> execution_event \<Rightarrow> bool" where
  "event_ok off D (XCandle c) = candle_ok off D c"
| "event_ok off D _ = True"

definition lane_emits :: "tz \<Rightarrow> (kbar \<Rightarrow> bool) \<Rightarrow> exec_lane \<Rightarrow> exec_lane \<Rightarrow> bool" where
  "lane_emits off D x y \<longleftrightarrow> (\<exists>es. xl_out y = xl_out x @ es \<and> (\<forall>e \<in> set es. event_ok off D e))"

lemma lane_emits_refl [simp]: "lane_emits off D x x" and lane_emits_same: "xl_out y = xl_out x \<Longrightarrow> lane_emits off D x y"
  by (simp_all add: lane_emits_def)

lemma lane_emits_trans: "lane_emits off D x y \<Longrightarrow> lane_emits off D y z \<Longrightarrow> lane_emits off D x z"
  by (fastforce simp: lane_emits_def)

lemma emits_one: "event_ok off D e \<Longrightarrow> lane_emits off D x (executionEmit e x)"
  by (simp add: lane_emits_def executionEmit_def)

definition symbol_ok :: "tz \<Rightarrow> (kbar \<Rightarrow> bool) \<Rightarrow> string \<Rightarrow> execution_symbol \<Rightarrow> bool" where
  "symbol_ok off D symbol s \<longleftrightarrow>
     (\<forall>k b. mget (xs_minutes s) k = Some b \<longrightarrow> minute_good b \<and> kb_BucketMs b = k \<and> kb_Symbol b = symbol \<and> D b) \<and>
     range_good (xr_low (xs_ten s)) (xr_high (xs_ten s)) \<and>
     (xr_start (xs_ten s) = 0 \<or> BucketStartMs off (xr_start (xs_ten s)) TF10s = xr_start (xs_ten s))"

definition lane_ok :: "tz \<Rightarrow> (kbar \<Rightarrow> bool) \<Rightarrow> exec_lane \<Rightarrow> bool" where
  "lane_ok off D x \<longleftrightarrow> (\<forall>symbol s. mget (xe_symbols x) symbol = Some s \<longrightarrow> symbol_ok off D symbol s)"

lemma lane_ok_empty [simp]: "xe_symbols x = [] \<Longrightarrow> lane_ok off D x"
  by (simp add: lane_ok_def)

lemma lane_ok_put: "lane_ok off D x \<Longrightarrow> symbol_ok off D symbol s \<Longrightarrow> lane_ok off D (put_symbol symbol s x)"
  by (simp add: lane_ok_def put_symbol_def)

lemma lane_ok_emit [simp]: "lane_ok off D (executionEmit e x) = lane_ok off D x"
  by (simp add: lane_ok_def executionEmit_def)

lemma symbol_ok_new [simp]: "symbol_ok off D symbol (newExecutionSymbol ts)"
  by (simp add: symbol_ok_def newExecutionSymbol_def range0_def range_good_def)

lemma lane_ok_mono: "lane_ok off D x \<Longrightarrow> (\<And>b. D b \<Longrightarrow> D' b) \<Longrightarrow> lane_ok off D' x"
  unfolding lane_ok_def symbol_ok_def by blast

lemma put_symbol_out [simp]: "xl_out (put_symbol symbol s x) = xl_out x" "xl_on (put_symbol symbol s x) = xl_on x"
  by (simp_all add: put_symbol_def)

lemma executionEmit_on [simp]: "xl_on (executionEmit e x) = xl_on x"
  by (simp add: executionEmit_def)

lemma executionGap_simps [simp]:
  "xl_on (executionGap ms x) = xl_on x" "xl_on x \<Longrightarrow> xe_symbols (executionGap ms x) = []"
  "xl_on x \<Longrightarrow> xl_out (executionGap ms x) = xl_out x @ [XPrint (gap_print ms)]"
  by (simp_all add: executionGap_def executionEmit_def)

text \<open>How many gaps have been announced.\<close>

fun is_gap :: "execution_event \<Rightarrow> bool" where
  "is_gap (XPrint p) = mp_Gap p"
| "is_gap _ = False"

definition gaps :: "execution_event list \<Rightarrow> nat" where
  "gaps es = length (filter is_gap es)"

lemma gaps_simps [simp]: "gaps [] = 0" "gaps (es @ es') = gaps es + gaps es'" "gaps (e # es) = (if is_gap e then 1 else 0) + gaps es"
  by (simp_all add: gaps_def)

lemma is_gap_print [simp]: "mp_Gap (gap_print ms)" "\<not> mp_Gap (print_of t)"
  by (simp_all add: gap_print_def print_of_def)

definition quiet :: "tz \<Rightarrow> (kbar \<Rightarrow> bool) \<Rightarrow> exec_lane \<Rightarrow> exec_lane \<Rightarrow> bool" where
  "quiet off D x y \<longleftrightarrow> xl_on y = xl_on x \<and> (\<exists>es. xl_out y = xl_out x @ es \<and> (\<forall>e \<in> set es. event_ok off D e \<and> \<not> is_gap e))"

lemma quiet_refl [simp]: "quiet off D x x"
  by (simp add: quiet_def)

lemma quiet_trans: "quiet off D x y \<Longrightarrow> quiet off D y z \<Longrightarrow> quiet off D x z"
  by (fastforce simp: quiet_def)

lemma quiet_emit: "event_ok off D e \<Longrightarrow> \<not> is_gap e \<Longrightarrow> quiet off D x (executionEmit e x)"
  by (simp add: quiet_def executionEmit_def)

lemma quiet_put [simp]: "quiet off D x (put_symbol symbol s x)"
  by (simp add: quiet_def)

lemma quiet_gaps: "quiet off D x y \<Longrightarrow> gaps (xl_out y) = gaps (xl_out x)"
  by (auto simp: quiet_def gaps_def filter_empty_conv)

lemma quiet_emits: "quiet off D x y \<Longrightarrow> lane_emits off D x y"
  by (auto simp: quiet_def lane_emits_def)

lemma executionSymbol_ok:
  assumes "executionSymbol symbol ts x = (s, y)" "lane_ok off D x"
  shows "symbol_ok off D symbol s" "lane_ok off D y" "quiet off E x y"
  using assms lane_ok_put[of off D x symbol "newExecutionSymbol ts"]
  by (auto simp: executionSymbol_def lane_ok_def Let_def split: option.splits)

lemma ten_close_ok:
  assumes "ten_close symbol start s x = (s', y)" "symbol_ok off D symbol s" "lane_ok off D x"
  shows "symbol_ok off D symbol s'" "lane_ok off D y" "quiet off D x y"
proof -
  let ?c = "candle_of symbol ''10s'' (xr_start (xs_ten s)) (xr_start (xs_ten s) + 10000) (xr_low (xs_ten s)) (xr_high (xs_ten s))"
  have "candle_ok off D ?c" if "xr_start (xs_ten s) \<noteq> 0" "0 < xr_low (xs_ten s)"
    using that assms(2)
    by (auto simp: candle_ok_def candle_of_def symbol_ok_def range_good_def lane_frames_def span_ms_def zero_f64_def)
  then have "quiet off D x (executionEmit (XCandle ?c) x)" if "xr_start (xs_ten s) \<noteq> 0" "0 < xr_low (xs_ten s)"
    using that quiet_emit[of off D "XCandle ?c"] by simp
  moreover have "symbol_ok off D symbol (s\<lparr>xs_ten := range0\<rparr>)"
    using assms(2) by (simp add: symbol_ok_def range0_def range_good_def)
  ultimately show "symbol_ok off D symbol s'" "lane_ok off D y" "quiet off D x y"
    using assms by (auto simp: ten_close_def Let_def split: if_splits)
qed

lemma ten_range_ok:
  assumes "symbol_ok off D symbol s" "executionPrice (tk_Price t)" "BucketStartMs off start TF10s = start"
  shows "symbol_ok off D symbol (ten_range start t s)"
  using assms range_good_step[of "xr_low (xs_ten s)" "xr_high (xs_ten s)" "tk_Price t" "tk_Price t"] f64_le_refl[of "tk_Price t"]
  by (auto simp: symbol_ok_def ten_range_def Let_def executionPrice_def is_nan_def)

lemma mod_sub_self: "a mod n = 0 \<Longrightarrow> (a - n) mod n = 0" for a n :: int
  by simp

lemma frame_start:
  assumes "whole_hours off" "intraday tf"
  shows "BucketStartMs off (BucketStartMs off t tf - span_ms tf) tf = BucketStartMs off t tf - span_ms tf"
proof -
  let ?c = "anchor_of tf AnchorSecsDefault * 1000"
  note B = bucket_floor[OF assms, of _ AnchorSecsDefault, folded BucketStartMs_def]
  have "BucketStartMs off t tf - ?c = (t - ?c) - (t - ?c) mod span_ms tf" unfolding B by simp
  then have "(BucketStartMs off t tf - ?c) mod span_ms tf = 0" by (simp only: minus_mod_eq_mult_div mod_mult_self1_is_0)
  then have "(BucketStartMs off t tf - ?c - span_ms tf) mod span_ms tf = 0" by (rule mod_sub_self)
  moreover have "BucketStartMs off t tf - ?c - span_ms tf = BucketStartMs off t tf - span_ms tf - ?c" by linarith
  ultimately have "(BucketStartMs off t tf - span_ms tf - ?c) mod span_ms tf = 0" by (simp only:)
  then show ?thesis unfolding B[of "BucketStartMs off t tf - span_ms tf"] by simp
qed

lemma frame_span_pos: "intraday tf \<Longrightarrow> 0 < span_ms tf"
  using intraday_span[of tf] by (simp add: span_ms_def)

lemma minute_candle_ok:
  assumes "minute_candle off t f (s, x) = (s', y)" "f \<in> set minuteFrames" "whole_hours off"
    "symbol_ok off D (tk_Symbol t) s" "lane_ok off D x"
  shows "symbol_ok off D (tk_Symbol t) s' \<and> lane_ok off D y \<and> quiet off D x y"
proof -
  obtain name tf where f: "f = (name, tf)" by (cases f)
  let ?hi = "BucketStartMs off (tk_TsMs t) tf"
  let ?lo = "?hi - span_ms tf"
  have n: "(name, tf) \<in> set lane_frames" "name \<noteq> ''10s''" "intraday tf"
    using assms(2) f by (auto simp: lane_frames_def minuteFrames_def intraday_def)
  note fb = frame_start[OF assms(3) n(3), of "tk_TsMs t"] frame_span_pos[OF n(3)]
  have "event_ok off D (XCandle (candle_of (tk_Symbol t) name ?lo ?hi low high))"
    if r: "minute_range (xs_minutes s) ?lo ?hi 0 0 = Some (low, high)" for low high
  proof -
    let ?K = "minutes_in ?lo ?hi"
    have m: "\<forall>k b. mget (xs_minutes s) k = Some b \<longrightarrow> minute_good b"
      and d: "\<And>k b. mget (xs_minutes s) k = Some b \<Longrightarrow> kb_BucketMs b = k \<and> kb_Symbol b = tk_Symbol t \<and> D b"
      using assms(4) by (auto simp: symbol_ok_def)
    have z: "range_good 0 0" by (simp add: range_good_def)
    note sp = minute_range_spec[OF m r z]
    have low: "range_good low high" "low \<noteq> 0" "spanned (xs_minutes s) ?K low high" "attained (xs_minutes s) ?K kb_L low"
      using sp fb(2) by auto
    have "high \<noteq> 0" using low(1,2) by (auto simp: range_good_def executionPrice_iff zero_f64_def)
    then have high: "attained (xs_minutes s) ?K kb_H high" using sp by auto
    have "on_minutes D (candle_of (tk_Symbol t) name ?lo ?hi low high)"
      using low(3,4) high d unfolding on_minutes_def spanned_def attained_def candle_of_def
      by simp (metis (no_types, lifting))
    then show ?thesis using low(1,2) fb n by (auto simp: candle_ok_def candle_of_def range_good_def)
  qed
  then show ?thesis using assms(1,4,5) quiet_emit[of off D]
    unfolding f minute_candle_def
    by (auto simp: Let_def span_ms_def symbol_ok_def split: if_splits option.splits prod.splits)
qed

lemma minute_candles_ok:
  assumes "whole_hours off"
  shows "set fs \<subseteq> set minuteFrames \<Longrightarrow> fold (minute_candle off t) fs (s, x) = (s', y) \<Longrightarrow>
    symbol_ok off D (tk_Symbol t) s \<Longrightarrow> lane_ok off D x \<Longrightarrow>
    symbol_ok off D (tk_Symbol t) s' \<and> lane_ok off D y \<and> quiet off D x y"
proof (induction fs arbitrary: s x)
  case (Cons f fs)
  obtain s1 x1 where 1: "minute_candle off t f (s, x) = (s1, x1)" by fastforce
  note st = minute_candle_ok[OF 1 _ assms Cons.prems(3,4)]
  then show ?case using Cons.IH[of s1 x1] Cons.prems(1,2) 1 quiet_trans[of off D x x1 y] by simp
qed simp

text \<open>The evidence kept over a step: what was there, unless a gap was announced.\<close>

definition kept :: "(kbar \<Rightarrow> bool) \<Rightarrow> exec_lane \<Rightarrow> exec_lane \<Rightarrow> kbar \<Rightarrow> bool" where
  "kept D x y b \<longleftrightarrow> D b \<and> gaps (xl_out y) = gaps (xl_out x)"

lemma kept_quiet: "quiet off E x y \<Longrightarrow> kept D x y = D"
  using quiet_gaps by (auto simp: kept_def)

lemma kept_refl [simp]: "kept D x x = D"
  by (simp add: kept_def fun_eq_iff)

definition gap_step :: "tz \<Rightarrow> exec_lane \<Rightarrow> exec_lane \<Rightarrow> bool" where
  "gap_step off x y \<longleftrightarrow> xl_on y = xl_on x \<and> (\<exists>p. xl_out y = xl_out x @ [XPrint p] \<and> mp_Gap p)"

lemma gap_step_gap [simp]: "xl_on x \<Longrightarrow> gap_step off x (executionGap ms x)"
  by (simp add: gap_step_def)

lemma gap_step_gaps: "gap_step off x y \<Longrightarrow> gaps (xl_out y) = gaps (xl_out x) + 1"
  by (auto simp: gap_step_def)

lemma gap_step_emits: "gap_step off x y \<Longrightarrow> lane_emits off D x y"
  by (auto simp: gap_step_def lane_emits_def)

lemma tick_coverage_ok:
  assumes "tick_coverage nw t cov s x = (s', y)" "xl_on x" "symbol_ok off D (tk_Symbol t) s" "lane_ok off D x"
  shows "(y = x \<or> (\<exists>z. gap_step off x z \<and> quiet off E z y)) \<and>
    symbol_ok off (kept D x y) (tk_Symbol t) s' \<and> lane_ok off (kept D x y) y"
proof (cases "cov_Revision (xs_coverage s) \<noteq> cov_Revision cov \<and> cov_Verified (xs_coverage s)")
  case False
  then have "y = x" "symbol_ok off D (tk_Symbol t) s'"
    using assms(1,3) by (auto simp: tick_coverage_def symbol_ok_def Let_def split: if_splits)
  then show ?thesis using assms(4) by simp
next
  case True
  let ?z = "executionGap nw x"
  obtain s1 where s1: "executionSymbol (tk_Symbol t) (tk_TsMs t) ?z = (s1, y)"
    and s': "s' = (let s1 = s1\<lparr>xs_coverage := cov\<rparr> in if cov_SinceMs cov > xs_since s1 then s1\<lparr>xs_since := cov_SinceMs cov\<rparr> else s1)"
    using True assms(1) by (auto simp: tick_coverage_def Let_def split: prod.splits if_splits)
  have z: "lane_ok off F ?z" for F using assms(2) by simp
  note es = executionSymbol_ok[OF s1 z]
  have "symbol_ok off F (tk_Symbol t) s'" for F
    using es(1)[of F] unfolding s' by (simp add: symbol_ok_def Let_def)
  then show ?thesis using es gap_step_gap[OF assms(2)] by blast
qed

lemma executionTick_ok:
  assumes "whole_hours off" "xl_on x" "lane_ok off D x" and y_def: "y = executionTick off nw t cov x"
  shows "xl_on y" "lane_ok off (kept D x y) y" "lane_emits off (kept D x y) x y"
proof -
  have "xl_on y \<and> lane_ok off (kept D x y) y \<and> lane_emits off (kept D x y) x y"
  proof (cases "tk_Delivery t \<noteq> DeliveryRealtime \<or> tk_Seq t \<le> 0 \<or> \<not> executionPrice (tk_Price t)")
    case True
    then have "y = x" by (simp add: y_def executionTick_def)
    then show ?thesis using assms(2,3) by simp
  next
    case False
    let ?sy = "tk_Symbol t" and ?start = "BucketStartMs off (tk_TsMs t) TF10s"
    obtain s1 x1 where 1: "executionSymbol ?sy (tk_TsMs t) x = (s1, x1)" by fastforce
    obtain s2 x2 where 2: "tick_coverage nw t cov s1 x1 = (s2, x2)" by fastforce
    obtain s3 x3 where 3: "ten_close ?sy ?start s2 x2 = (s3, x3)" by fastforce
    obtain s4 x4 where 4: "fold (minute_candle off t) minuteFrames (ten_range ?start t s3, x3) = (s4, x4)" by fastforce
    let ?x5 = "put_symbol ?sy (old_minutes (tk_TsMs t) s4) x4"
    have y: "y = (if tk_LastEligible t then executionEmit (XPrint (print_of t)) ?x5 else ?x5)"
      using False assms(2) 1 2 3 4 by (simp add: y_def executionTick_def Let_def)
    let ?E = "kept D x1 x2"
    note o1 = executionSymbol_ok[OF 1 assms(3)]
    have on1: "xl_on x1" using o1(3) assms(2) by (simp add: quiet_def)
    note o2 = tick_coverage_ok[OF 2 on1 o1(1,2), where E = ?E]
    note o3 = ten_close_ok[OF 3 conjunct1[OF conjunct2[OF o2]] conjunct2[OF conjunct2[OF o2]]]
    have grid: "BucketStartMs off ?start TF10s = ?start"
      using intraday_grid[OF assms(1), of TF10s] by (intro bucket_grid.bucket_idem) (auto simp: intraday_def)
    note o4 = minute_candles_ok[OF assms(1) subset_refl 4 ten_range_ok[OF o3(1) _ grid] o3(2)]
    have o4: "symbol_ok off ?E ?sy s4" "lane_ok off ?E x4" "quiet off ?E x3 x4" using o4 False by auto
    have "symbol_ok off ?E ?sy (old_minutes (tk_TsMs t) s4)"
      using o4(1) by (auto simp: symbol_ok_def old_minutes_def map_of_filter)
    then have y_ok: "lane_ok off ?E y" using o4(2) lane_ok_put by (simp add: y)
    have "quiet off ?E x2 ?x5" by (rule quiet_trans[OF o3(3) quiet_trans[OF o4(3) quiet_put]])
    then have q: "quiet off ?E x2 y"
      using quiet_trans[OF _ quiet_emit[of off ?E "XPrint (print_of t)" ?x5]] by (simp add: y)
    have k: "kept D x y = ?E"
      using quiet_gaps[OF o1(3)] quiet_gaps[OF q] by (simp add: kept_def fun_eq_iff)
    have "lane_emits off ?E x1 x2" using o2 gap_step_emits quiet_emits lane_emits_trans lane_emits_refl by metis
    then have "lane_emits off ?E x y" using quiet_emits[OF o1(3)] quiet_emits[OF q] lane_emits_trans by blast
    moreover have "xl_on y" using q o2 on1 by (auto simp: quiet_def gap_step_def)
    ultimately show ?thesis using y_ok by (simp add: k)
  qed
  then show "xl_on y" "lane_ok off (kept D x y) y" "lane_emits off (kept D x y) x y" by auto
qed

lemma executionMinute_ok:
  assumes "xl_on x" "lane_ok off D x"
  shows "xl_on (executionMinute nw cov b x) \<and>
    lane_ok off (\<lambda>c. kept D x (executionMinute nw cov b x) c \<or> c = b) (executionMinute nw cov b x) \<and>
    lane_emits off E x (executionMinute nw cov b x)"
proof (cases "mget (xe_symbols x) (kb_Symbol b)")
  case None
  then have "executionMinute nw cov b x = x" by (simp add: executionMinute_def)
  then show ?thesis using assms lane_ok_mono by (metis (no_types, lifting) lane_emits_refl kept_refl)
next
  case (Some s)
  show ?thesis
  proof (cases "cov_Verified (xs_minuteCoverage s) \<and> cov_Revision (xs_minuteCoverage s) \<noteq> cov_Revision cov")
    case True
    then have "executionMinute nw cov b x = executionGap nw x" using Some by (simp add: executionMinute_def)
    then show ?thesis using assms(1) gap_step_emits[OF gap_step_gap] by simp
  next
    case False
    define s' where "s' = (let s = s\<lparr>xs_minuteCoverage := cov\<rparr> in
       if \<not> minute_usable cov s b then s
       else s\<lparr>xs_minutes := mput (kb_BucketMs b) b (xs_minutes s),
              xs_minuteCompletedThrough := (if kb_BucketMs b > xs_minuteCompletedThrough s then kb_BucketMs b
                 else xs_minuteCompletedThrough s)\<rparr>)"
    have e: "executionMinute nw cov b x = put_symbol (kb_Symbol b) s' x"
      unfolding executionMinute_def s'_def Some option.case if_not_P[OF False] Let_def ..
    have s: "symbol_ok off D (kb_Symbol b) s" using assms(2) Some by (simp add: lane_ok_def)
    have "minute_usable cov (s\<lparr>xs_minuteCoverage := cov\<rparr>) b \<Longrightarrow> minute_good b"
      by (auto simp: minute_usable_def minute_good_def executionPrice_iff)
    then have "symbol_ok off (\<lambda>c. D c \<or> c = b) (kb_Symbol b) s'"
      using s by (auto simp: s'_def symbol_ok_def Let_def)
    moreover have "lane_ok off (\<lambda>c. D c \<or> c = b) x" by (rule lane_ok_mono[OF assms(2)]) simp
    ultimately have "lane_ok off (\<lambda>c. D c \<or> c = b) (put_symbol (kb_Symbol b) s' x)" by (rule lane_ok_put[rotated])
    then show ?thesis unfolding e using assms(1) kept_quiet[OF quiet_put] quiet_emits[OF quiet_put] by simp
  qed
qed

lemma executionMinutes_fold:
  "xl_on x \<Longrightarrow> lane_ok off D x \<Longrightarrow> (let y = fold (executionMinute nw cov) bars x in
     xl_on y \<and> lane_ok off (\<lambda>c. kept D x y c \<or> c \<in> set bars) y \<and> lane_emits off E x y)"
proof (induction bars arbitrary: x D)
  case Nil
  then show ?case using lane_ok_mono[of off D x "\<lambda>c. D c \<or> c \<in> {}"] by simp
next
  case (Cons b bars)
  let ?z = "executionMinute nw cov b x"
  let ?y = "fold (executionMinute nw cov) bars ?z"
  note z = executionMinute_ok[OF Cons.prems, of nw cov b]
  have y: "xl_on ?y" "lane_ok off (\<lambda>c. kept (\<lambda>c. kept D x ?z c \<or> c = b) ?z ?y c \<or> c \<in> set bars) ?y" "lane_emits off E ?z ?y"
    using Cons.IH[of ?z "\<lambda>c. kept D x ?z c \<or> c = b"] z by (auto simp: Let_def)
  have "lane_ok off (\<lambda>c. kept D x ?y c \<or> c \<in> set (b # bars)) ?y"
    by (rule lane_ok_mono[OF y(2)]) (auto simp: kept_def)
  then show ?case using y z lane_emits_trans by (simp add: Let_def) blast
qed

text \<open>What a call brings: the minutes of an acknowledged live delivery.\<close>

fun delivers :: "int \<times> lane_op \<Rightarrow> kbar \<Rightarrow> bool" where
  "delivers (nw, LaneMinutes bars seed cov) b \<longleftrightarrow> \<not> seed \<and> cov_Verified cov \<and> b \<in> set bars"
| "delivers _ b \<longleftrightarrow> False"

lemma lane_step_ok:
  assumes "whole_hours off" "xl_on x" "lane_ok off D x" and y_def: "y = lane_step off op x"
  shows "xl_on y \<and> lane_ok off (\<lambda>b. kept D x y b \<or> delivers op b) y \<and> lane_emits off (kept D x y) x y"
proof -
  obtain nw o1 where op: "op = (nw, o1)" by fastforce
  have keep: "xl_on z \<and> lane_ok off (\<lambda>b. kept D x z b \<or> delivers op b) z \<and> lane_emits off (kept D x z) x z"
    if z: "lane_ok off D z" "quiet off (kept D x z) x z" for z
  proof -
    have "lane_ok off (\<lambda>b. kept D x z b \<or> delivers op b) z"
      by (rule lane_ok_mono[OF z(1)]) (simp add: kept_quiet[OF z(2)])
    then show ?thesis using assms(2) z(2) quiet_emits by (simp add: quiet_def)
  qed
  have gap: "xe_symbols z = [] \<Longrightarrow> gap_step off x z \<Longrightarrow>
      xl_on z \<and> lane_ok off (\<lambda>b. kept D x z b \<or> delivers op b) z \<and> lane_emits off (kept D x z) x z" for z
    using assms(2) gap_step_emits by (auto simp: gap_step_def)
  show ?thesis
  proof (cases o1)
    case (LaneTick t cov)
    then have "y = executionTick off nw t cov x" by (simp add: y_def op)
    note t = executionTick_ok[OF assms(1-3) this]
    show ?thesis using t lane_ok_mono[OF t(2)] by simp
  next
    case (LaneMinutes bars seed cov)
    show ?thesis
    proof (cases "seed \<or> \<not> cov_Verified cov")
      case True
      then have "y = x" by (auto simp: y_def op LaneMinutes executionMinutes_def)
      then show ?thesis using keep[of x] assms(3) by simp
    next
      case False
      then have "y = fold (executionMinute nw cov) bars x" "delivers op = (\<lambda>b. b \<in> set bars)"
        using assms(2) by (auto simp: y_def op LaneMinutes executionMinutes_def fun_eq_iff)
      then show ?thesis using executionMinutes_fold[OF assms(2,3), of nw cov bars "kept D x y"] by (simp add: Let_def)
    qed
  next
    case (LaneBook bk verified revision)
    show ?thesis
    proof (cases verified)
      case False
      then have "y = x" by (simp add: y_def op LaneBook executionBook_def)
      then show ?thesis using keep[of x] assms(3) by simp
    next
      case True
      then obtain b g where y: "y = executionEmit (XBook b) (x\<lparr>xe_generation := g\<rparr>)"
        using assms(2) by (simp add: y_def op LaneBook executionBook_def Let_def)
      have "quiet off (kept D x y) x y" using assms(2) by (simp add: y quiet_def executionEmit_def)
      moreover have "lane_ok off D y" using assms(3) unfolding y lane_ok_emit by (simp add: lane_ok_def)
      ultimately show ?thesis by (rule keep[rotated])
    qed
  next
    case LaneGap
    then show ?thesis using gap[of "executionGap nw x"] assms(2) by (simp add: y_def op)
  next
    case (LaneSource r)
    let ?z = "(executionGap nw x)\<lparr>xe_sourceConnection := sr_Connection r, xe_sourceLoss := sr_Loss r\<rparr>"
    have "y = x \<or> y = ?z" using assms(2) by (simp add: y_def op LaneSource executionSource_def)
    then show ?thesis using keep[of x] gap[of ?z] assms(2,3) by (auto simp: gap_step_def)
  qed
qed

section \<open>Runs of the lane\<close>

text \<open>The minutes delivered live by \<open>ops\<close> after which no gap was announced.\<close>

definition evidence :: "tz \<Rightarrow> (int \<times> lane_op) list \<Rightarrow> kbar \<Rightarrow> bool" where
  "evidence off ops b \<longleftrightarrow> (\<exists>i < length ops. delivers (ops ! i) b \<and>
     gaps (xl_out (lane_run off (take (i + 1) ops))) = gaps (xl_out (lane_run off ops)))"

text \<open>What the last of the calls \<open>ops @ [op]\<close> sends.\<close>

definition sent_by :: "tz \<Rightarrow> (int \<times> lane_op) list \<Rightarrow> int \<times> lane_op \<Rightarrow> execution_event list" where
  "sent_by off ops op = drop (length (xl_out (lane_run off ops))) (xl_out (lane_run off (ops @ [op])))"

lemma evidence_snoc:
  assumes "kept (evidence off ops) (lane_run off ops) (lane_run off (ops @ [op])) b \<or> delivers op b"
  shows "evidence off (ops @ [op]) b"
  using assms
proof
  assume "delivers op b"
  then show ?thesis unfolding evidence_def by (intro exI[of _ "length ops"]) simp
next
  assume k: "kept (evidence off ops) (lane_run off ops) (lane_run off (ops @ [op])) b"
  then obtain i where "i < length ops" "delivers (ops ! i) b"
    "gaps (xl_out (lane_run off (take (i + 1) ops))) = gaps (xl_out (lane_run off ops))"
    by (auto simp: kept_def evidence_def)
  then show ?thesis using k unfolding evidence_def kept_def by (intro exI[of _ i]) (simp add: nth_append)
qed

lemma lane_run_ok: "whole_hours off \<Longrightarrow> xl_on (lane_run off ops) \<and> lane_ok off (evidence off ops) (lane_run off ops)"
proof (induction ops rule: rev_induct)
  case Nil
  then show ?case by (simp add: lane0_def)
next
  case (snoc op ops)
  then have "xl_on (lane_run off ops)" "lane_ok off (evidence off ops) (lane_run off ops)" by auto
  note st = lane_step_ok[OF snoc.prems this refl, of op]
  have "lane_ok off (evidence off (ops @ [op])) (lane_run off (ops @ [op]))"
    using st evidence_snoc[of off ops op] lane_ok_mono by (metis (no_types, lifting) lane_run_snoc)
  then show ?case using st by simp
qed

lemma sent_by_ok:
  assumes "whole_hours off" "e \<in> set (sent_by off ops op)"
  shows "event_ok off (kept (evidence off ops) (lane_run off ops) (lane_run off (ops @ [op]))) e"
proof -
  have ok: "xl_on (lane_run off ops)" "lane_ok off (evidence off ops) (lane_run off ops)"
    using lane_run_ok[OF assms(1), of ops] by auto
  have "lane_emits off (kept (evidence off ops) (lane_run off ops) (lane_run off (ops @ [op]))) (lane_run off ops) (lane_run off (ops @ [op]))"
    using lane_step_ok[OF assms(1) ok refl, of op] by simp
  then show ?thesis using assms(2) by (auto simp: sent_by_def lane_emits_def simp del: lane_run_snoc)
qed

text \<open>C39. A minute or higher candle the execution lane sends spans a nonempty run of minutes, each of which was delivered to the lane as a live, acknowledged minute bar after the last gap mark; its low and high are the lowest low and the highest high of those minutes.\<close>

theorem candles_rest_on_minutes:
  assumes "whole_hours off" "XCandle c \<in> set (sent_by off ops op)" "xc_Timeframe c \<noteq> ''10s''"
  shows "xc_StartMs c < xc_EndMs c \<and>
    on_minutes (\<lambda>b. \<exists>i < length ops. delivers (ops ! i) b \<and>
      gaps (xl_out (lane_run off (take (i + 1) ops))) = gaps (xl_out (lane_run off (ops @ [op])))) c"
proof -
  have ok: "candle_ok off (kept (evidence off ops) (lane_run off ops) (lane_run off (ops @ [op]))) c"
    using sent_by_ok[OF assms(1,2)] by simp
  then have "xc_StartMs c < xc_EndMs c" using frame_span_pos frames_intraday by (fastforce simp: candle_ok_def)
  moreover have "on_minutes (kept (evidence off ops) (lane_run off ops) (lane_run off (ops @ [op]))) c"
    using ok assms(3) by (simp add: candle_ok_def)
  ultimately show ?thesis unfolding on_minutes_def kept_def evidence_def by (smt (verit, best))
qed

text \<open>A first minute observed from its start, and the print that closes it.\<close>

definition lane_print :: "int \<Rightarrow> int \<Rightarrow> tick" where
  "lane_print seq ts = tick0\<lparr>tk_Symbol := ''AAPL'', tk_Seq := seq, tk_TsMs := ts, tk_Price := whole 100,
     tk_Volume := 5, tk_Delivery := DeliveryRealtime, tk_RangeEligible := True, tk_LastEligible := True\<rparr>"

definition lane_minute :: "int \<Rightarrow> kbar" where
  "lane_minute ts = \<lparr>kb_Symbol = ''AAPL'', kb_BucketMs = ts, kb_O = whole 100, kb_H = whole 101,
     kb_L = whole 99, kb_C = whole 100, kb_Volume = 10, kb_Turnover = 0, kb_Source = source0\<rparr>"

definition lane_cov :: coverage where
  "lane_cov = \<lparr>cov_Verified = True, cov_Revision = 1, cov_SinceMs = 1720015200000\<rparr>"

definition lane_ops :: "(int \<times> lane_op) list" where
  "lane_ops = [(1720015200100, LaneTick (lane_print 1 1720015200000) lane_cov),
     (1720015261000, LaneMinutes [lane_minute 1720015200000, lane_minute 1720015260000] False lane_cov)]"

definition lane_last :: "int \<times> lane_op" where
  "lane_last = (1720015262000, LaneTick (lane_print 2 1720015261500) lane_cov)"

definition lane_candle :: execution_candle where
  "lane_candle = candle_of ''AAPL'' ''1m'' 1720015200000 1720015260000 (whole 99) (whole 101)"

lemma lane_candle_sent: "XCandle lane_candle \<in> set (sent_by ny2024 lane_ops lane_last)"
  by code_simp

lemma candles_rest_on_minutes_witness:
  "\<exists>b i. i < 2 \<and> delivers (lane_ops ! i) b \<and> kb_L b = xc_Low lane_candle"
proof -
  have "on_minutes (\<lambda>b. \<exists>i < length lane_ops. delivers (lane_ops ! i) b \<and>
      gaps (xl_out (lane_run ny2024 (take (i + 1) lane_ops))) = gaps (xl_out (lane_run ny2024 (lane_ops @ [lane_last])))) lane_candle"
    using candles_rest_on_minutes[OF ny2024_whole lane_candle_sent] by (simp add: lane_candle_def candle_of_def)
  moreover have "length lane_ops = 2" by (simp add: lane_ops_def)
  ultimately show ?thesis unfolding on_minutes_def by metis
qed

end
