(* ===== verification/Luld.thy ===== *)
theory Luld
  imports ExecLane
begin

text \<open>
  The local estimate of the limit-up limit-down band, \<open>internal/md/luld.go\<close>, and the reviewed
  list of symbols it serves, \<open>luld_registry.go\<close>.

  A date of the list is its day number: the code compares and prints year, month and day only.
  An instant is epoch milliseconds, and \<open>zero_time\<close> is Go's zero time. The list's JSON is read by
  the standard library: \<open>loadLULDRegistry\<close> takes the document it returns, \<open>None\<close> when it fails.
\<close>

section \<open>The registry\<close>

type_synonym luld_tier = string

definition luldTier1 :: luld_tier where "luldTier1 = ''T1''"
definition luldTier2 :: luld_tier where "luldTier2 = ''T2''"

record luld_entry =
  le_Tier :: luld_tier
  le_Multiplier :: f64
  le_Provenance :: string

definition luld_entry0 :: luld_entry where
  "luld_entry0 = \<lparr>le_Tier = '''', le_Multiplier = 0, le_Provenance = ''''\<rparr>"

record luld_registry =
  lr_asOf :: int
  lr_validThrough :: int
  lr_sources :: "string list"
  lr_symbols :: "(string, luld_entry) gomap"

record luld_document =
  ld_AsOf :: string
  ld_ValidThrough :: string
  ld_Sources :: "string list"
  ld_Symbols :: "(string, luld_entry) gomap"

datatype luld_error = RegistryJSON | RegistryAsOf | RegistryValidThrough | AsOfAfterValidThrough
  | NoSources | EmptySource nat | NoSymbols | InvalidSymbol string | InvalidTier string luld_tier
  | MissingProvenance string | InvalidMultiplier string f64

text \<open>\<open>time.Parse("2006-01-02", s)\<close> and its inverse \<open>Format\<close>.\<close>

definition date_digit :: "char \<Rightarrow> int option" where
  "date_digit c = (let n = (of_char c :: int) in if 48 \<le> n \<and> n \<le> 57 then Some (n - 48) else None)"

definition digit_char :: "int \<Rightarrow> char" where
  "digit_char n = char_of (48 + n mod 10)"

fun date_digits :: "string \<Rightarrow> int \<Rightarrow> int option" where
  "date_digits [] n = Some n"
| "date_digits (c # cs) n = (case date_digit c of None \<Rightarrow> None | Some d \<Rightarrow> date_digits cs (10 * n + d))"

fun parse_date :: "string \<Rightarrow> int option" where
  "parse_date [y1, y2, y3, y4, s1, m1, m2, s2, d1, d2] =
     (case (date_digits [y1, y2, y3, y4] 0, date_digits [m1, m2] 0, date_digits [d1, d2] 0) of
        (Some y, Some m, Some d) \<Rightarrow>
          if s1 = CHR ''-'' \<and> s2 = CHR ''-'' \<and> 1 \<le> m \<and> m \<le> 12 \<and> 1 \<le> d \<and> d \<le> daysInMonth y m
          then Some (days_from_civil y m d) else None
      | _ \<Rightarrow> None)"
| "parse_date _ = None"

definition format_date :: "int \<Rightarrow> string" where
  "format_date day = (case civil_from_days day of (y, m, d) \<Rightarrow>
     [digit_char (y div 1000), digit_char (y div 100), digit_char (y div 10), digit_char y, CHR ''-'',
      digit_char (m div 10), digit_char m, CHR ''-'', digit_char (d div 10), digit_char d])"

text \<open>\<open>^US\.[A-Z][A-Z0-9.-]*$\<close>\<close>

definition upper :: "char \<Rightarrow> bool" where
  "upper c \<longleftrightarrow> (let n = (of_char c :: int) in 65 \<le> n \<and> n \<le> 90)"

fun registrySymbol :: "string \<Rightarrow> bool" where
  "registrySymbol (c1 # c2 # c3 # c # cs) \<longleftrightarrow> [c1, c2, c3] = ''US.'' \<and> upper c \<and>
     list_all (\<lambda>c. upper c \<or> date_digit c \<noteq> None \<or> c = CHR ''.'' \<or> c = CHR ''-'') cs"
| "registrySymbol _ \<longleftrightarrow> False"

definition check_entry :: "string \<Rightarrow> luld_entry \<Rightarrow> luld_error + luld_entry" where
  "check_entry symbol entry =
     (if \<not> registrySymbol symbol then Inl (InvalidSymbol symbol)
      else if le_Tier entry \<noteq> luldTier1 \<and> le_Tier entry \<noteq> luldTier2 then Inl (InvalidTier symbol (le_Tier entry))
      else if le_Provenance entry = '''' then Inl (MissingProvenance symbol)
      else let entry = (if le_Multiplier entry = 0 then entry\<lparr>le_Multiplier := 1\<rparr> else entry)
           in if \<not> is_nan (le_Multiplier entry) \<and> \<not> is_inf (le_Multiplier entry) \<and> le_Multiplier entry \<ge> 1
              then Inr entry
              else Inl (InvalidMultiplier symbol (le_Multiplier entry)))"

fun check_entries :: "(string \<times> luld_entry) list \<Rightarrow> (string, luld_entry) gomap \<Rightarrow> luld_error + (string, luld_entry) gomap" where
  "check_entries [] m = Inr m"
| "check_entries ((symbol, entry) # es) m =
     (case check_entry symbol entry of Inl e \<Rightarrow> Inl e | Inr entry \<Rightarrow> check_entries es (mput symbol entry m))"

fun empty_source :: "nat \<Rightarrow> string list \<Rightarrow> nat option" where
  "empty_source i [] = None"
| "empty_source i (s # ss) = (if s = '''' then Some i else empty_source (i + 1) ss)"

definition loadLULDRegistry :: "luld_document option \<Rightarrow> luld_error + luld_registry" where
  "loadLULDRegistry doc = (case doc of
     None \<Rightarrow> Inl RegistryJSON
   | Some doc \<Rightarrow>
       (case parse_date (ld_AsOf doc) of
          None \<Rightarrow> Inl RegistryAsOf
        | Some asOf \<Rightarrow>
            (case parse_date (ld_ValidThrough doc) of
               None \<Rightarrow> Inl RegistryValidThrough
             | Some validThrough \<Rightarrow>
                 if asOf > validThrough then Inl AsOfAfterValidThrough
                 else if ld_Sources doc = [] then Inl NoSources
                 else case empty_source 0 (ld_Sources doc) of
                        Some i \<Rightarrow> Inl (EmptySource i)
                      | None \<Rightarrow>
                          if ld_Symbols doc = [] then Inl NoSymbols
                          else case check_entries (ld_Symbols doc) (ld_Symbols doc) of
                                 Inl e \<Rightarrow> Inl e
                               | Inr symbols \<Rightarrow> Inr \<lparr>lr_asOf = asOf, lr_validThrough = validThrough,
                                   lr_sources = ld_Sources doc, lr_symbols = symbols\<rparr>)))"

definition registry_lookup :: "tz \<Rightarrow> luld_registry \<Rightarrow> string \<Rightarrow> int \<Rightarrow> luld_entry \<times> bool" where
  "registry_lookup off r symbol nw =
     (case (civil_from_days (et_day off nw), civil_from_days (lr_validThrough r)) of ((y, m, d), (vy, vm, vd)) \<Rightarrow>
        if y > vy \<or> y = vy \<and> (m > vm \<or> m = vm \<and> d > vd) then (luld_entry0, False)
        else (mget0 luld_entry0 (lr_symbols r) symbol, mhas (lr_symbols r) symbol))"

section \<open>The calculator\<close>

definition luldCoverageWindow :: int where "luldCoverageWindow = 5 * 60000"
definition luldWarmup :: int where "luldWarmup = 5 * 60000"
definition luldRefCadence :: int where "luldRefCadence = 30000"
definition luldRefThreshold :: f64 where "luldRefThreshold = fconst (1 / 100)"

datatype luld_state = LULDUnset | LULDUnavailable | LULDWarming | LULDEstimated | LULDFrozen

datatype luld_reason = NoReason | OutsideRTH | TierUnknown | RegistryExpired | PreviousClose | Warming
  | ProviderStatusReason | TransportReason

record estimated_luld =
  el_Lower :: f64
  el_Upper :: f64
  el_Reference :: f64
  el_Tier :: string
  el_State :: luld_state
  el_Reason :: luld_reason
  el_RegistryAsOf :: string

definition estimated0 :: estimated_luld where
  "estimated0 = \<lparr>el_Lower = 0, el_Upper = 0, el_Reference = 0, el_Tier = '''', el_State = LULDUnset,
     el_Reason = NoReason, el_RegistryAsOf = ''''\<rparr>"

record luld_calc =
  lc_symbol :: string
  lc_registry :: luld_registry
  lc_prints :: "(int \<times> f64) list"
  lc_sessionDate :: int
  lc_epochStart :: int
  lc_hasPrint :: bool
  lc_prevClose :: f64
  lc_effectiveRef :: f64
  lc_effectiveAt :: int
  lc_lastBand :: "estimated_luld option"
  lc_providerStatus :: provider_status
  lc_providerFrozen :: bool
  lc_transportFrozen :: bool

definition newLULDCalculator :: "string \<Rightarrow> luld_registry \<Rightarrow> luld_calc" where
  "newLULDCalculator symbol registry = \<lparr>lc_symbol = symbol, lc_registry = registry, lc_prints = [],
     lc_sessionDate = zero_time, lc_epochStart = zero_time, lc_hasPrint = False, lc_prevClose = 0,
     lc_effectiveRef = 0, lc_effectiveAt = zero_time, lc_lastBand = None,
     lc_providerStatus = ProviderStatusUnknown, lc_providerFrozen = False, lc_transportFrozen = False\<rparr>"

definition resetCoverage :: "luld_calc \<Rightarrow> luld_calc" where
  "resetCoverage c = c\<lparr>lc_prints := [], lc_epochStart := zero_time, lc_hasPrint := False,
     lc_effectiveRef := 0, lc_effectiveAt := zero_time\<rparr>"

text \<open>The same year and day of the year is the same civil day.\<close>

definition resetSession :: "tz \<Rightarrow> int \<Rightarrow> luld_calc \<Rightarrow> luld_calc" where
  "resetSession off nw c =
     (let date = ds_date (Schedule off nw) in
      if lc_sessionDate c = zero_time then c\<lparr>lc_sessionDate := date\<rparr>
      else if et_day off (lc_sessionDate c) = et_day off date then c
      else (resetCoverage (c\<lparr>lc_sessionDate := date\<rparr>))\<lparr>lc_lastBand := None\<rparr>)"

definition luld_prune :: "int \<Rightarrow> luld_calc \<Rightarrow> luld_calc" where
  "luld_prune nw c = c\<lparr>lc_prints := filter (\<lambda>p. \<not> fst p < nw - luldCoverageWindow) (lc_prints c)\<rparr>"

definition recomputeReference :: "int \<Rightarrow> luld_calc \<Rightarrow> luld_calc" where
  "recomputeReference nw c =
     (if lc_epochStart c = zero_time \<or> \<not> lc_hasPrint c \<or> nw < lc_epochStart c + luldWarmup then c
      else if lc_prints c = [] then c
      else let candidate = fsum (map snd (lc_prints c)) / float_of_int (int (length (lc_prints c))) in
           if lc_effectiveRef c = 0 then c\<lparr>lc_effectiveRef := candidate, lc_effectiveAt := nw\<rparr>
           else if nw - lc_effectiveAt c < luldRefCadence \<or>
                   \<bar>candidate - lc_effectiveRef c\<bar> / lc_effectiveRef c < luldRefThreshold then c
           else c\<lparr>lc_effectiveRef := candidate, lc_effectiveAt := nw\<rparr>)"

definition luld_finitePositive :: "f64 \<Rightarrow> bool" where
  "luld_finitePositive v \<longleftrightarrow> v > 0 \<and> \<not> is_nan v \<and> \<not> is_inf v"

definition onQuote :: "tz \<Rightarrow> feed_quote \<Rightarrow> int \<Rightarrow> luld_calc \<Rightarrow> luld_calc" where
  "onQuote off q nw c =
     (let c = (resetSession off nw c)\<lparr>lc_prevClose := q_PrevClose q\<rparr>;
          c = (if q_ProviderSuspended q \<or> q_ProviderStatus q = ProviderStatusNonnormal
               then (let c = c\<lparr>lc_providerFrozen := True\<rparr> in
                     if q_ProviderStatus q = ProviderStatusNonnormal
                     then c\<lparr>lc_providerStatus := q_ProviderStatus q\<rparr> else c)
               else if q_ProviderStatus q = ProviderStatusNormal
               then (let c = (if lc_providerFrozen c \<or> lc_providerStatus c \<noteq> ProviderStatusNormal
                              then resetCoverage (c\<lparr>lc_providerFrozen := False\<rparr>) else c)
                     in c\<lparr>lc_providerStatus := q_ProviderStatus q\<rparr>)
               else c)
      in if PhaseAt off nw = RTH \<and> \<not> lc_providerFrozen c \<and> \<not> lc_transportFrozen c \<and> lc_epochStart c = zero_time
         then c\<lparr>lc_epochStart := nw\<rparr> else c)"

definition onPrint :: "tz \<Rightarrow> tick \<Rightarrow> int \<Rightarrow> luld_calc \<Rightarrow> luld_calc" where
  "onPrint off t nw c =
     (if tk_Symbol t \<noteq> lc_symbol c \<or> \<not> tk_LastEligible t \<or> \<not> luld_finitePositive (tk_Price t) \<or>
         lc_providerFrozen c \<or> lc_transportFrozen c then c
      else if PhaseAt off (tk_TsMs t) \<noteq> RTH then c
      else let c = resetSession off nw c;
               c = (if lc_epochStart c = zero_time then c\<lparr>lc_epochStart := nw\<rparr> else c);
               c = c\<lparr>lc_prints := lc_prints c @ [(tk_TsMs t, tk_Price t)], lc_hasPrint := True\<rparr>
           in recomputeReference nw (luld_prune nw c))"

definition onTransport :: "tz \<Rightarrow> bool \<Rightarrow> int \<Rightarrow> luld_calc \<Rightarrow> luld_calc" where
  "onTransport off down nw c =
     (let c = resetSession off nw c in
      if lc_transportFrozen c = down then c else resetCoverage (c\<lparr>lc_transportFrozen := down\<rparr>))"

definition luld_unavailable :: "luld_calc \<Rightarrow> luld_reason \<Rightarrow> luld_entry \<Rightarrow> estimated_luld" where
  "luld_unavailable c reason entry =
     (let band = estimated0\<lparr>el_State := LULDUnavailable, el_Reason := reason, el_Tier := ''UNKNOWN''\<rparr> in
      if le_Tier entry \<noteq> ''''
      then band\<lparr>el_Tier := le_Tier entry, el_RegistryAsOf := format_date (lr_asOf (lc_registry c))\<rparr> else band)"

definition luldWidth :: "tz \<Rightarrow> f64 \<Rightarrow> f64 \<Rightarrow> luld_tier \<Rightarrow> int \<Rightarrow> f64" where
  "luldWidth off reference prevClose tier nw =
     (let width = (if prevClose > Fin 3
                   then (if tier = luldTier1 then reference * fconst (5 / 100) else reference * fconst (10 / 100))
                   else if prevClose \<ge> fconst (75 / 100) then reference * fconst (20 / 100)
                   else math_min (fconst (15 / 100)) (reference * fconst (75 / 100)));
          sched = Schedule off nw
      in if (tier = luldTier1 \<or> prevClose \<le> Fin 3) \<and> ds_tradingDay sched \<and> \<not> nw < ds_close sched - 25 * 60000
         then width * Fin 2 else width)"

definition roundLULDCents :: "f64 \<Rightarrow> f64" where
  "roundLULDCents v = math_round (v * Fin 100) / Fin 100"

definition luld_band :: "tz \<Rightarrow> int \<Rightarrow> luld_entry \<Rightarrow> luld_calc \<Rightarrow> estimated_luld" where
  "luld_band off nw entry c =
     (let width = luldWidth off (lc_effectiveRef c) (lc_prevClose c) (le_Tier entry) nw * le_Multiplier entry
      in estimated0\<lparr>el_Lower := roundLULDCents (lc_effectiveRef c - width),
           el_Upper := roundLULDCents (lc_effectiveRef c + width), el_Reference := lc_effectiveRef c\<rparr>)"

definition luld_advance :: "tz \<Rightarrow> int \<Rightarrow> luld_calc \<Rightarrow> luld_calc \<times> estimated_luld" where
  "luld_advance off nw c =
     (let c = recomputeReference nw (luld_prune nw (resetSession off nw c));
          known = mhas (lr_symbols (lc_registry c)) (lc_symbol c);
          entry = mget0 luld_entry0 (lr_symbols (lc_registry c)) (lc_symbol c);
          active = snd (registry_lookup off (lc_registry c) (lc_symbol c) nw);
          base = estimated0\<lparr>el_Tier := le_Tier entry, el_RegistryAsOf := format_date (lr_asOf (lc_registry c))\<rparr>
      in if \<not> active then (c, luld_unavailable c (if known then RegistryExpired else TierUnknown) entry)
         else if PhaseAt off nw \<noteq> RTH
         then (c, base\<lparr>el_State := LULDUnavailable, el_Reason := OutsideRTH\<rparr>)
         else if \<not> luld_finitePositive (lc_prevClose c)
         then (c, base\<lparr>el_State := LULDUnavailable, el_Reason := PreviousClose\<rparr>)
         else if lc_providerFrozen c \<or> lc_transportFrozen c
         then (c, (case lc_lastBand c of None \<Rightarrow> base | Some b \<Rightarrow> b)
                  \<lparr>el_State := LULDFrozen,
                   el_Reason := (if lc_providerFrozen c then ProviderStatusReason else TransportReason)\<rparr>)
         else if lc_epochStart c = zero_time \<or> \<not> lc_hasPrint c \<or> nw < lc_epochStart c + luldWarmup \<or>
                 lc_effectiveRef c \<le> 0
         then (c, base\<lparr>el_State := LULDWarming, el_Reason := Warming\<rparr>)
         else let band = (luld_band off nw entry c)\<lparr>el_State := LULDEstimated, el_Reason := NoReason,
                    el_Tier := le_Tier entry, el_RegistryAsOf := format_date (lr_asOf (lc_registry c))\<rparr>
              in (c\<lparr>lc_lastBand := Some band\<rparr>, band))"

section \<open>Runs\<close>

datatype luld_op = LuldQuote feed_quote | LuldPrint tick | LuldTransport bool | LuldAdvance

fun luld_step :: "tz \<Rightarrow> int \<times> luld_op \<Rightarrow> luld_calc \<Rightarrow> luld_calc" where
  "luld_step off (nw, LuldQuote q) c = onQuote off q nw c"
| "luld_step off (nw, LuldPrint t) c = onPrint off t nw c"
| "luld_step off (nw, LuldTransport down) c = onTransport off down nw c"
| "luld_step off (nw, LuldAdvance) c = fst (luld_advance off nw c)"

definition luld_run :: "tz \<Rightarrow> string \<Rightarrow> luld_registry \<Rightarrow> (int \<times> luld_op) list \<Rightarrow> luld_calc" where
  "luld_run off symbol r ops = fold (luld_step off) ops (newLULDCalculator symbol r)"

lemma luld_run_Nil [simp]: "luld_run off symbol r [] = newLULDCalculator symbol r"
  and luld_run_snoc [simp]: "luld_run off symbol r (ops @ [op]) = luld_step off op (luld_run off symbol r ops)"
  by (simp_all add: luld_run_def)

text \<open>A call that voids the coverage: the transport goes down, or the provider reports a suspension
  or an abnormal status.\<close>

fun stops_transport :: "luld_op \<Rightarrow> bool" where
  "stops_transport (LuldTransport down) = down"
| "stops_transport _ = False"

fun stops_provider :: "luld_op \<Rightarrow> bool" where
  "stops_provider (LuldQuote q) \<longleftrightarrow> q_ProviderSuspended q \<or> q_ProviderStatus q = ProviderStatusNonnormal"
| "stops_provider _ = False"

lemma resetCoverage_simps [simp]:
  "lc_epochStart (resetCoverage c) = zero_time" "lc_sessionDate (resetCoverage c) = lc_sessionDate c"
  "lc_providerFrozen (resetCoverage c) = lc_providerFrozen c" "lc_transportFrozen (resetCoverage c) = lc_transportFrozen c"
  "lc_registry (resetCoverage c) = lc_registry c" "lc_symbol (resetCoverage c) = lc_symbol c"
  "lc_effectiveRef (resetCoverage c) = 0" "lc_hasPrint (resetCoverage c) = False" "lc_prints (resetCoverage c) = []"
  by (simp_all add: resetCoverage_def)

lemma luld_recompute_simps [simp]:
  "lc_epochStart (recomputeReference nw c) = lc_epochStart c" "lc_sessionDate (recomputeReference nw c) = lc_sessionDate c"
  "lc_providerFrozen (recomputeReference nw c) = lc_providerFrozen c" "lc_transportFrozen (recomputeReference nw c) = lc_transportFrozen c"
  "lc_registry (recomputeReference nw c) = lc_registry c" "lc_symbol (recomputeReference nw c) = lc_symbol c"
  "lc_prevClose (recomputeReference nw c) = lc_prevClose c"
  by (simp_all add: recomputeReference_def Let_def)

lemma prune_simps [simp]:
  "lc_epochStart (luld_prune nw c) = lc_epochStart c" "lc_sessionDate (luld_prune nw c) = lc_sessionDate c"
  "lc_providerFrozen (luld_prune nw c) = lc_providerFrozen c" "lc_transportFrozen (luld_prune nw c) = lc_transportFrozen c"
  "lc_registry (luld_prune nw c) = lc_registry c" "lc_symbol (luld_prune nw c) = lc_symbol c"
  "lc_prevClose (luld_prune nw c) = lc_prevClose c"
  by (simp_all add: luld_prune_def)

lemma resetSession_simps [simp]:
  "lc_providerFrozen (resetSession off nw c) = lc_providerFrozen c" "lc_transportFrozen (resetSession off nw c) = lc_transportFrozen c"
  "lc_registry (resetSession off nw c) = lc_registry c" "lc_symbol (resetSession off nw c) = lc_symbol c"
  "lc_prevClose (resetSession off nw c) = lc_prevClose c"
  by (simp_all add: resetSession_def resetCoverage_def Let_def)

lemma resetSession_epoch: "lc_epochStart (resetSession off nw c) \<in> {lc_epochStart c, zero_time}"
  by (simp add: resetSession_def Let_def)

definition day_known :: "tz \<Rightarrow> luld_calc \<Rightarrow> bool" where
  "day_known off c \<longleftrightarrow> (lc_epochStart c \<noteq> zero_time \<longrightarrow>
     lc_sessionDate c \<noteq> zero_time \<and> et_day off (lc_epochStart c) = et_day off (lc_sessionDate c))"

lemma session_date:
  assumes "tz_ok off" "172800000 \<le> nw"
  shows "ds_date (Schedule off nw) \<noteq> zero_time" "et_day off (ds_date (Schedule off nw)) = et_day off nw"
proof -
  have d: "ds_date (Schedule off nw) = midnight_of off (et_day off nw)"
    by (simp add: Schedule_def Let_def)
  have D: "1 \<le> et_day off nw" using et_day_pos assms by blast
  show "et_day off (ds_date (Schedule off nw)) = et_day off nw" using d et_day_midnight[OF assms(1) D] by simp
  have "0 \<le> midnight_of off (et_day off nw)"
    using off_cases[OF assms(1), of "86400 * et_day off nw - off (86400 * et_day off nw)"]
      off_cases[OF assms(1), of "86400 * et_day off nw"] D by (auto simp: midnight_of_def time_Date_def)
  then show "ds_date (Schedule off nw) \<noteq> zero_time" unfolding d by (simp add: zero_time_def)
qed

lemma resetSession_day:
  assumes "tz_ok off" "172800000 \<le> nw" "day_known off c"
  shows "day_known off (resetSession off nw c)" "lc_sessionDate (resetSession off nw c) \<noteq> zero_time"
    "et_day off (lc_sessionDate (resetSession off nw c)) = et_day off nw"
  using session_date[OF assms(1,2)] assms(3) by (auto simp: resetSession_def Let_def day_known_def)

text \<open>What one call does to the coverage epoch and the two freezes.\<close>

definition epoch_step :: "int \<Rightarrow> luld_op \<Rightarrow> luld_calc \<Rightarrow> luld_calc \<Rightarrow> bool" where
  "epoch_step nw op c c' \<longleftrightarrow>
     lc_epochStart c' \<in> {lc_epochStart c, zero_time, nw} \<and>
     (lc_transportFrozen c \<and> \<not> lc_transportFrozen c' \<longrightarrow> lc_epochStart c' \<in> {zero_time, nw}) \<and>
     (lc_providerFrozen c \<and> \<not> lc_providerFrozen c' \<longrightarrow> lc_epochStart c' \<in> {zero_time, nw}) \<and>
     (stops_transport op \<longrightarrow> lc_transportFrozen c') \<and> (stops_provider op \<longrightarrow> lc_providerFrozen c') \<and>
     lc_registry c' = lc_registry c \<and> lc_symbol c' = lc_symbol c"

lemma advance_fst [simp]:
  "lc_epochStart (fst (luld_advance off nw c)) = lc_epochStart (resetSession off nw c)"
  "lc_sessionDate (fst (luld_advance off nw c)) = lc_sessionDate (resetSession off nw c)"
  "lc_providerFrozen (fst (luld_advance off nw c)) = lc_providerFrozen c"
  "lc_transportFrozen (fst (luld_advance off nw c)) = lc_transportFrozen c"
  "lc_registry (fst (luld_advance off nw c)) = lc_registry c"
  "lc_symbol (fst (luld_advance off nw c)) = lc_symbol c"
  "lc_prevClose (fst (luld_advance off nw c)) = lc_prevClose c"
  by (simp_all add: luld_advance_def Let_def)

lemma luld_step_epoch: "epoch_step nw op c (luld_step off (nw, op) c)"
proof (cases op)
  case (LuldQuote q)
  then show ?thesis using resetSession_epoch[of off nw c] by (auto simp: epoch_step_def onQuote_def Let_def)
next
  case (LuldPrint t)
  then show ?thesis using resetSession_epoch[of off nw c] by (auto simp: epoch_step_def onPrint_def Let_def)
next
  case (LuldTransport down)
  then show ?thesis using resetSession_epoch[of off nw c] by (auto simp: epoch_step_def onTransport_def Let_def)
next
  case LuldAdvance
  then show ?thesis using resetSession_epoch[of off nw c] by (auto simp: epoch_step_def)
qed

lemma luld_step_day:
  assumes "tz_ok off" "172800000 \<le> nw" "day_known off c"
  shows "day_known off (luld_step off (nw, op) c)"
proof -
  note r = resetSession_day[OF assms]
  show ?thesis
  proof (cases op)
    case (LuldQuote q)
    then show ?thesis using r by (auto simp: onQuote_def Let_def day_known_def)
  next
    case (LuldPrint t)
    then show ?thesis using r assms(3) by (auto simp: onPrint_def Let_def day_known_def)
  next
    case (LuldTransport down)
    then show ?thesis using r by (auto simp: onTransport_def Let_def day_known_def)
  next
    case LuldAdvance
    then show ?thesis using r by (auto simp: day_known_def)
  qed
qed

definition covered_since :: "(int \<times> luld_op) list \<Rightarrow> luld_calc \<Rightarrow> bool" where
  "covered_since ops c \<longleftrightarrow> (\<forall>(t, op) \<in> set ops.
     (stops_transport op \<longrightarrow> lc_transportFrozen c \<or> lc_epochStart c = zero_time \<or> t \<le> lc_epochStart c) \<and>
     (stops_provider op \<longrightarrow> lc_providerFrozen c \<or> lc_epochStart c = zero_time \<or> t \<le> lc_epochStart c))"

lemma covered_step:
  assumes "covered_since ops c" "epoch_step nw op c c'" "\<forall>(t, op) \<in> set ops. t \<le> nw"
  shows "covered_since (ops @ [(nw, op)]) c'"
  using assms unfolding covered_since_def epoch_step_def by fastforce

lemma luld_run_ok:
  assumes "tz_ok off"
  shows "sorted (map fst ops) \<Longrightarrow> \<forall>(t, op) \<in> set ops. 172800000 \<le> t \<Longrightarrow>
    day_known off (luld_run off symbol r ops) \<and> covered_since ops (luld_run off symbol r ops) \<and>
    lc_registry (luld_run off symbol r ops) = r \<and> lc_symbol (luld_run off symbol r ops) = symbol"
proof (induction ops rule: rev_induct)
  case Nil
  then show ?case by (simp add: day_known_def covered_since_def newLULDCalculator_def)
next
  case (snoc p ops)
  obtain nw op where p: "p = (nw, op)" by (cases p)
  let ?c = "luld_run off symbol r ops"
  have IH: "day_known off ?c" "covered_since ops ?c" "lc_registry ?c = r" "lc_symbol ?c = symbol"
    using snoc by (auto simp: sorted_append)
  have le: "\<forall>(t, op) \<in> set ops. t \<le> nw" using snoc.prems(1) by (auto simp: sorted_append p)
  have nw: "172800000 \<le> nw" using snoc.prems(2) by (simp add: p)
  note e = luld_step_epoch[of nw op ?c off]
  show ?case using luld_step_day[OF assms nw IH(1), of op] covered_step[OF IH(2) e le] e IH(3,4)
    by (simp add: p epoch_step_def)
qed

lemma estimated_cases:
  assumes "luld_advance off nw c0 = (c, v)" "el_State v = LULDEstimated"
  shows "snd (registry_lookup off (lc_registry c0) (lc_symbol c0) nw)" "PhaseAt off nw = RTH"
    "luld_finitePositive (lc_prevClose c)" "\<not> lc_providerFrozen c" "\<not> lc_transportFrozen c"
    "lc_epochStart c \<noteq> zero_time" "lc_epochStart c + luldWarmup \<le> nw" "lc_hasPrint c" "\<not> lc_effectiveRef c \<le> 0"
    "let entry = mget0 luld_entry0 (lr_symbols (lc_registry c0)) (lc_symbol c0) in
     v = (luld_band off nw entry c)\<lparr>el_State := LULDEstimated, el_Reason := NoReason,
       el_Tier := le_Tier entry, el_RegistryAsOf := format_date (lr_asOf (lc_registry c0))\<rparr>"
  using assms by (auto simp: luld_advance_def luld_unavailable_def estimated0_def luld_band_def Let_def split: if_splits)


section \<open>Bands\<close>

definition entry_good :: "luld_entry \<Rightarrow> bool" where
  "entry_good e \<longleftrightarrow> le_Tier e \<in> {luldTier1, luldTier2} \<and> (\<exists>m \<ge> 1. le_Multiplier e = Fin m)"

lemma check_entry_good: "check_entry symbol e = Inr e' \<Longrightarrow> entry_good e'"
  by (cases "le_Multiplier e'")
    (auto simp: check_entry_def entry_good_def Let_def is_nan_def is_inf_def one_f64_def split: if_splits)

lemma check_entries_good:
  "check_entries es m = Inr m' \<Longrightarrow> mget m' k = Some e \<Longrightarrow> entry_good e \<or> k \<notin> fst ` set es \<and> mget m k = Some e"
proof (induction es m rule: check_entries.induct)
  case (2 symbol entry es m)
  then obtain e1 where "check_entry symbol entry = Inr e1" "check_entries es (mput symbol e1 m) = Inr m'"
    by (auto split: sum.splits)
  then show ?case using 2 check_entry_good[of symbol entry e1] by (auto split: if_splits)
qed simp

lemma loaded_entry_good:
  assumes "loadLULDRegistry doc = Inr r" "mhas (lr_symbols r) symbol"
  shows "entry_good (mget0 luld_entry0 (lr_symbols r) symbol)"
proof -
  obtain es where es: "check_entries es es = Inr (lr_symbols r)"
    using assms(1) by (auto simp: loadLULDRegistry_def split: option.splits if_splits sum.splits)
  obtain e where e: "mget (lr_symbols r) symbol = Some e" using assms(2) by (auto simp: mhas_def)
  then show ?thesis using check_entries_good[OF es e] by (auto simp: mget0_def map_of_eq_None_iff[symmetric])
qed

lemma f64_nonneg_fl: "0 \<le> q \<Longrightarrow> (0 :: f64) \<le> fl q"
  using fl_mono[of 0 q] by (simp add: zero_f64_def)

lemma f64_nonneg_mul: "(0 :: f64) \<le> x \<Longrightarrow> 0 < m \<Longrightarrow> 0 \<le> x * Fin m"
  using f64_nonneg_fl by (cases x) (auto simp: zero_f64_def)

lemma fl_infs [simp]: "fl q \<le> PInf" "NInf \<le> fl q"
  using fl_not_nan[of q] by (cases "fl q"; simp)+

lemma luld_min_nonneg: "(0 :: f64) \<le> x \<Longrightarrow> 0 \<le> y \<Longrightarrow> 0 \<le> math_min x y"
  by (cases x; cases y) (auto simp: zero_f64_def)

lemma luldWidth_nonneg: "0 < q \<Longrightarrow> 0 \<le> luldWidth off (Fin q) p tier nw"
proof -
  assume q: "0 < q"
  have part: "0 \<le> Fin q * fconst x" if "0 \<le> x" for x
    using f64_nonneg_mul[OF f64_nonneg_fl[OF that] q] by (simp add: fconst_def f64_mul_comm)
  have "0 \<le> math_min (fconst (15 / 100)) (Fin q * fconst (75 / 100))"
    by (intro luld_min_nonneg part) (simp_all add: fconst_def f64_nonneg_fl)
  then show ?thesis unfolding luldWidth_def Let_def
    by (auto intro!: part f64_nonneg_mul)
qed

lemma roundLULDCents_mono: "x \<le> y \<Longrightarrow> roundLULDCents x \<le> roundLULDCents y"
proof -
  have mul: "x \<le> y \<Longrightarrow> x * Fin 100 \<le> y * Fin 100" for x y :: f64
    by (cases x; cases y) (auto intro: fl_mono)
  have div: "x \<le> y \<Longrightarrow> x / Fin 100 \<le> y / Fin 100" for x y :: f64
    by (cases x; cases y) (auto intro: fl_mono divide_right_mono)
  have round: "math_round x \<le> math_round y" if "x \<le> y" for x y :: f64
  proof (cases "\<exists>a b. x = Fin a \<and> y = Fin b")
    case True
    then obtain a b where xy: "x = Fin a" "y = Fin b" by blast
    then have ab: "x = Fin a" "y = Fin b" "a \<le> b" using that by simp_all
    have up: "\<lfloor>a + 1/2\<rfloor> \<le> \<lfloor>b + 1/2\<rfloor>" "\<lfloor>1/2 - b\<rfloor> \<le> \<lfloor>1/2 - a\<rfloor>"
      using ab(3) by (simp_all add: floor_mono)
    have pos: "0 \<le> \<lfloor>b + 1/2\<rfloor>" if "0 \<le> b" using that by simp
    have neg: "0 \<le> \<lfloor>1/2 - a\<rfloor>" if "a < 0" using that by simp
    show ?thesis using up pos neg ab by (auto simp del: zero_le_floor)
  next
    case False
    then show ?thesis using that by (cases x; cases y) auto
  qed
  assume "x \<le> y"
  then show ?thesis unfolding roundLULDCents_def by (intro div round mul)
qed

theorem estimate_brackets_reference:
  assumes "loadLULDRegistry doc = Inr r" "tz_ok off" "sorted (map fst ops)" "\<forall>(t, op) \<in> set ops. 172800000 \<le> t"
    "luld_advance off nw (luld_run off symbol r ops) = (c, v)" "el_State v = LULDEstimated"
    "el_Reference v = Fin q" "f64_ok (Fin q)"
  shows "0 < q \<and> el_Lower v \<le> roundLULDCents (Fin q) \<and> roundLULDCents (Fin q) \<le> el_Upper v \<and>
    el_Tier v \<in> {luldTier1, luldTier2} \<and> mhas (lr_symbols r) symbol"
proof -
  note run = luld_run_ok[OF assms(2-4), of symbol r]
  note e = estimated_cases[OF assms(5,6)]
  have listed: "mhas (lr_symbols r) symbol"
    using e(1) run by (auto simp: registry_lookup_def split: prod.splits if_splits)
  define entry where "entry = mget0 luld_entry0 (lr_symbols r) symbol"
  obtain m where m: "1 \<le> m" "le_Multiplier entry = Fin m" "le_Tier entry \<in> {luldTier1, luldTier2}"
    using loaded_entry_good[OF assms(1) listed] by (auto simp: entry_def entry_good_def)
  have ref: "lc_effectiveRef c = Fin q" "el_Tier v = le_Tier entry"
    using e(10) assms(7) run by (simp_all add: Let_def luld_band_def entry_def)
  then have q: "0 < q" using e(9) by (simp add: zero_f64_def)
  define w where "w = luldWidth off (Fin q) (lc_prevClose c) (le_Tier entry) nw * Fin m"
  have w: "0 \<le> w" unfolding w_def by (intro f64_nonneg_mul luldWidth_nonneg q) (use m(1) in simp)
  have "el_Lower v = roundLULDCents (Fin q - w)" "el_Upper v = roundLULDCents (Fin q + w)"
    using e(10) run ref(1) m(2) by (simp_all add: Let_def luld_band_def w_def entry_def)
  moreover have "Fin q - w \<le> Fin q" "Fin q \<le> Fin q + w"
    using f64_sub_nonneg_le[OF assms(8) w] f64_add_nonneg_le[OF assms(8) w] by auto
  ultimately show ?thesis using roundLULDCents_mono q m(3) ref(2) listed by auto
qed

section \<open>Examples\<close>

definition luld_doc :: luld_document where
  "luld_doc = \<lparr>ld_AsOf = ''2024-07-01'', ld_ValidThrough = ''2024-10-01'', ld_Sources = [''plan''],
     ld_Symbols = [(''US.AAPL'', \<lparr>le_Tier = ''T1'', le_Multiplier = 0, le_Provenance = ''index''\<rparr>)]\<rparr>"

definition luld_list :: luld_registry where
  "luld_list = \<lparr>lr_asOf = days_from_civil 2024 7 1, lr_validThrough = days_from_civil 2024 10 1,
     lr_sources = [''plan''],
     lr_symbols = [(''US.AAPL'', \<lparr>le_Tier = ''T1'', le_Multiplier = 1, le_Provenance = ''index''\<rparr>)]\<rparr>"

lemma luld_doc_loads: "loadLULDRegistry (Some luld_doc) = Inr luld_list"
  by code_simp

definition luld_quote :: "provider_status \<Rightarrow> feed_quote" where
  "luld_quote st = \<lparr>q_Symbol = ''US.AAPL'', q_TsMs = 0, q_Last = whole 100, q_Open = whole 100, q_High = whole 100,
     q_Low = whole 100, q_PrevClose = whole 100, q_Volume = 0, q_Turnover = 0, q_ProviderSuspended = False,
     q_ProviderStatus = st, q_Source = source0\<rparr>"

definition luld_print :: "int \<Rightarrow> tick" where
  "luld_print ts = tick0\<lparr>tk_Symbol := ''US.AAPL'', tk_TsMs := ts, tk_Price := whole 100, tk_LastEligible := True\<rparr>"

text \<open>10:00 on 3 July 2024: the feed comes back, the provider is normal, one print, five minutes on.\<close>

definition luld_ops :: "(int \<times> luld_op) list" where
  "luld_ops = [(1720015200000, LuldTransport True), (1720015201000, LuldTransport False),
     (1720015202000, LuldQuote (luld_quote ProviderStatusNormal)), (1720015203000, LuldPrint (luld_print 1720015203000))]"

definition luld_shown :: "luld_calc \<times> estimated_luld" where
  "luld_shown = luld_advance ny2024 1720015502000 (luld_run ny2024 ''US.AAPL'' luld_list luld_ops)"

lemma luld_shown_value:
  "snd luld_shown = \<lparr>el_Lower = Fin 95, el_Upper = Fin 105, el_Reference = Fin 100, el_Tier = ''T1'',
     el_State = LULDEstimated, el_Reason = NoReason, el_RegistryAsOf = ''2024-07-01''\<rparr>"
  by code_simp

lemma luld_shown_estimated: "el_State (snd luld_shown) = LULDEstimated \<and> el_Reference (snd luld_shown) = whole 100"
  by (simp add: luld_shown_value)

lemma luld_ops_times: "sorted (map fst luld_ops)" "\<forall>(t, op) \<in> set luld_ops. 172800000 \<le> t \<and> t \<le> 1720015502000"
  by (simp_all add: luld_ops_def)


lemma estimate_brackets_reference_witness:
  "el_Lower (snd luld_shown) \<le> roundLULDCents (whole 100) \<and> roundLULDCents (whole 100) \<le> el_Upper (snd luld_shown)"
proof -
  have "\<forall>(t, op) \<in> set luld_ops. 172800000 \<le> t" using luld_ops_times(2) by auto
  note f = estimate_brackets_reference[OF luld_doc_loads ny2024_ok luld_ops_times(1) this, of 1720015502000 "''US.AAPL''"
      "fst luld_shown" "snd luld_shown" 100]
  have "f64_ok (Fin 100)" using whole_ok[of 100] by simp
  then show ?thesis using f luld_shown_estimated by (simp add: luld_shown_def)
qed

text \<open>A print of yesterday's regular session that arrives before the open starts the epoch (\<open>onPrint\<close>
  asks for the phase of the print, not of the moment): an estimate then stands one second after
  the open, with one second of coverage.\<close>

lemma early_epoch_skips_warm_up:
  "el_State (snd (luld_advance ny2024 1720013402000 (luld_run ny2024 ''US.AAPL'' luld_list
     [(1720008000000, LuldQuote (luld_quote ProviderStatusNormal)),
      (1720008001000, LuldPrint (luld_print 1719950000000)),
      (1720013401000, LuldPrint (luld_print 1720013401000))]))) = LULDEstimated"
  "ds_open (Schedule ny2024 1720013402000) = 1720013400000"
  by code_simp+

end
