(* ===== verification/MdCore.thy ===== *)
theory MdCore
  imports IndicatorLaw Luld Tape Eligibility
begin

text \<open>
  The market-data core of \<open>internal/md/core.go\<close>: one goroutine that owns the books, the quotes, the
  tapes, the bars, the indicators, the price-band calculators and the execution lane, fed by one
  inbox. A run is the list of messages it applies, each with the clock's reading.

  What the channels carry is kept as lists: \<open>Updates\<close>, \<open>Marks\<close> and \<open>Books\<close> are sent without
  blocking, and what a full channel would drop stays in the list here. Recording is off
  (\<open>Config.Recorder\<close> is nil). The list of limit-up limit-down tiers is an argument.
\<close>

section \<open>State\<close>

record md_config =
  cf_TapeRing :: nat
  cf_AnchorSecs :: int
  cf_ExecutionData :: bool
  cf_luldRegistry :: luld_registry

text \<open>The events of a feed, \<open>feed.Event\<close>.\<close>

datatype feed_event =
    TicksEvent "tick list" bool coverage
  | QuoteEvent feed_quote bool
  | BookEvent feed_book bool bool nat
  | Bars1mEvent "kbar list" bool coverage
  | ConnUpEvent
  | ConnDownEvent
  | ResyncedEvent
  | DataGapEvent

fun EventSource :: "feed_event \<Rightarrow> source_ref" where
  "EventSource (TicksEvent ts seed cov) = (case ts of [] \<Rightarrow> source0 | t # _ \<Rightarrow> tk_Source t)"
| "EventSource (Bars1mEvent bs seed cov) = (case bs of [] \<Rightarrow> source0 | b # _ \<Rightarrow> kb_Source b)"
| "EventSource (BookEvent bk seed verified revision) = fb_source bk"
| "EventSource (QuoteEvent q seed) = q_Source q"
| "EventSource _ = source0"

text \<open>The inbox; \<open>TimeMsg\<close> is the second of \<open>Run\<close>'s ticker.\<close>

datatype in_msg =
    EventMsg feed_event int
  | EnsureIndicatorMsg nat string indicator_spec
  | ReleaseIndicatorMsg nat string
  | SeedDailyMsg string "kbar list"
  | SeedHistory1mMsg string "kbar list"
  | SeedHistory10sMsg string "kbar list"
  | SeedChartHistoryMsg string "kbar list" "kbar list" "kbar list"
  | SeedOlder1mMsg string "kbar list"
  | SeedSessionTicksMsg string "tick list"
  | HistoryBarrierMsg string
  | TimeMsg

datatype md_update =
    QuoteUpdate feed_quote
  | BookUpdate feed_book
  | TapeUpdate string "tick list"
  | UBar string bar_event
  | UIndicator indicator_update
  | ConnUpdate bool
  | ResyncedUpdate
  | HistoryReadyUpdate string bool
  | IndicatorReadyUpdate string string
  | EstimatedLULDUpdate string estimated_luld

record md_mark =
  mk_Symbol :: string
  mk_Price :: f64
  mk_TsMs :: int

record md_core =
  mc_books :: "(string, feed_book) gomap"
  mc_quotes :: "(string, feed_quote) gomap"
  mc_tapes :: "(string, ring) gomap"
  mc_dedup :: dedup_state
  mc_eligibility :: "(string, eligibility_state) gomap"
  mc_luld :: "(string, luld_calc) gomap"
  mc_luldVisible :: "(string, estimated_luld) gomap"
  mc_bars :: "(string, bars_state) gomap"
  mc_inds :: indicator_set
  mc_now :: int
  mc_lane :: exec_lane
  mc_updates :: "md_update list"
  mc_marks :: "md_mark list"
  mc_eligiblePrints :: "md_print list"
  mc_bookOut :: "feed_book list"

definition with_defaults :: "md_config \<Rightarrow> md_config" where
  "with_defaults cfg = cfg\<lparr>cf_TapeRing := (if cf_TapeRing cfg = 0 then 65536 else cf_TapeRing cfg),
     cf_AnchorSecs := (if cf_AnchorSecs cfg = 0 then AnchorSecsDefault else cf_AnchorSecs cfg)\<rparr>"

definition newMdCore :: "md_config \<Rightarrow> int \<Rightarrow> md_core" where
  "newMdCore cfg clk = \<lparr>mc_books = [], mc_quotes = [], mc_tapes = [], mc_dedup = dedup0, mc_eligibility = [],
     mc_luld = [], mc_luldVisible = [], mc_bars = [], mc_inds = newIndicatorSet, mc_now = clk,
     mc_lane = lane0 (cf_ExecutionData cfg), mc_updates = [], mc_marks = [], mc_eligiblePrints = [], mc_bookOut = []\<rparr>"

definition core_emit :: "md_update \<Rightarrow> md_core \<Rightarrow> md_core" where
  "core_emit u s = s\<lparr>mc_updates := mc_updates s @ [u]\<rparr>"

definition eligible_print :: "md_print \<Rightarrow> md_core \<Rightarrow> md_core" where
  "eligible_print p s = s\<lparr>mc_eligiblePrints := mc_eligiblePrints s @ [p]\<rparr>"

definition on_lane :: "(exec_lane \<Rightarrow> exec_lane) \<Rightarrow> md_core \<Rightarrow> md_core" where
  "on_lane f s = s\<lparr>mc_lane := f (mc_lane s)\<rparr>"

definition currentTime :: "int \<Rightarrow> md_core \<Rightarrow> int" where
  "currentTime clk s = (if mc_now s \<noteq> zero_time then mc_now s else clk)"

definition bookStore_set :: "feed_book \<Rightarrow> md_core \<Rightarrow> md_core" where
  "bookStore_set b s = s\<lparr>mc_books := mput (fb_symbol b) b (mc_books s)\<rparr>"

definition quoteStore_set :: "feed_quote \<Rightarrow> md_core \<Rightarrow> md_core" where
  "quoteStore_set q s = s\<lparr>mc_quotes := mput (q_Symbol q) q (mc_quotes s)\<rparr>"

section \<open>Bars and indicators\<close>

definition sym_bars :: "string \<Rightarrow> md_core \<Rightarrow> bars_state" where
  "sym_bars symbol s = (case mget (mc_bars s) symbol of None \<Rightarrow> newSymbolBars symbol | Some sb \<Rightarrow> sb)"

definition core_finalized :: "md_core \<Rightarrow> string \<Rightarrow> timeframe \<Rightarrow> bar list" where
  "core_finalized s symbol tf = (case mget (mc_bars s) symbol of None \<Rightarrow> [] | Some sb \<Rightarrow> finalizedBars sb tf)"

text \<open>A call into the registry; the updates it appended go out.\<close>

definition on_indicators :: "(indicator_set \<Rightarrow> indicator_set) \<Rightarrow> md_core \<Rightarrow> md_core" where
  "on_indicators f s = (let i = f (mc_inds s)
     in s\<lparr>mc_inds := i, mc_updates := mc_updates s @ map UIndicator (drop (length (si_out (mc_inds s))) (si_out i))\<rparr>)"

text \<open>\<open>barOut\<close> and the seeds' calls, one event of the bar engine: it is published, then the
  indicators see it with the series as they stood.\<close>

fun published :: "string \<Rightarrow> bar_event \<Rightarrow> md_update list" where
  "published symbol ReseedSymbol = []"
| "published symbol (ReseedSymTF tf) = []"
| "published symbol e = [UBar symbol e]"

definition bar_event_out :: "tz \<Rightarrow> string \<Rightarrow> (string \<Rightarrow> timeframe \<Rightarrow> bar list) \<Rightarrow> bar_event \<times> (timeframe \<Rightarrow> series) \<Rightarrow> md_core \<Rightarrow> md_core" where
  "bar_event_out off symbol fin0 ev s =
     on_indicators (ind_event off symbol fin0 ev) (s\<lparr>mc_updates := mc_updates s @ published symbol (fst ev)\<rparr>)"

text \<open>A call into the bar engine for one symbol, its events dispatched in their order.\<close>

definition on_bars :: "tz \<Rightarrow> string \<Rightarrow> (bars_state \<Rightarrow> bars_state) \<Rightarrow> md_core \<Rightarrow> md_core" where
  "on_bars off symbol f s =
     (let sb = f ((sym_bars symbol s)\<lparr>sb_out := [], sb_views := []\<rparr>);
          fin0 = core_finalized s
      in fold (bar_event_out off symbol fin0) (zip (sb_out sb) (sb_views sb)) (s\<lparr>mc_bars := mput symbol sb (mc_bars s)\<rparr>))"

definition core_seedAnchor :: "tz \<Rightarrow> string \<Rightarrow> f64 \<Rightarrow> f64 \<Rightarrow> int \<Rightarrow> md_core \<Rightarrow> md_core" where
  "core_seedAnchor off symbol price fallback tsMs s =
     (if (if price \<le> 0 then fallback else price) \<le> 0 then s
      else on_bars off symbol (bars_seedAnchor price fallback tsMs) s)"

definition core_markGaps :: "md_core \<Rightarrow> md_core" where
  "core_markGaps s = s\<lparr>mc_bars := map (\<lambda>(symbol, sb). (symbol, markGaps sb)) (mc_bars s)\<rparr>"

text \<open>A seed of history, which an empty batch does not start.\<close>

definition core_seed :: "tz \<Rightarrow> string \<Rightarrow> kbar list \<Rightarrow> (kbar list \<Rightarrow> bars_state \<Rightarrow> bars_state) \<Rightarrow> md_core \<Rightarrow> md_core" where
  "core_seed off symbol raws f s = (if raws = [] then s else on_bars off symbol (f raws) s)"

section \<open>Price bands\<close>

definition luldFor :: "md_config \<Rightarrow> string \<Rightarrow> md_core \<Rightarrow> luld_calc" where
  "luldFor cfg symbol s = (case mget (mc_luld s) symbol of
     None \<Rightarrow> newLULDCalculator symbol (cf_luldRegistry cfg) | Some c \<Rightarrow> c)"

definition on_luld :: "md_config \<Rightarrow> string \<Rightarrow> (luld_calc \<Rightarrow> luld_calc) \<Rightarrow> md_core \<Rightarrow> md_core" where
  "on_luld cfg symbol f s = s\<lparr>mc_luld := mput symbol (f (luldFor cfg symbol s)) (mc_luld s)\<rparr>"

text \<open>Go's \<open>==\<close> on \<open>EstimatedLULD\<close>\<close>

definition luld_eq :: "estimated_luld \<Rightarrow> estimated_luld \<Rightarrow> bool" where
  "luld_eq a b \<longleftrightarrow> feq (el_Lower a) (el_Lower b) \<and> feq (el_Upper a) (el_Upper b) \<and>
     feq (el_Reference a) (el_Reference b) \<and> el_Tier a = el_Tier b \<and> el_State a = el_State b \<and>
     el_Reason a = el_Reason b \<and> el_RegistryAsOf a = el_RegistryAsOf b"

definition publishLULD :: "md_config \<Rightarrow> tz \<Rightarrow> int \<Rightarrow> string \<Rightarrow> md_core \<Rightarrow> md_core" where
  "publishLULD cfg off nw symbol s =
     (if symbol = '''' then s
      else let (c, value) = luld_advance off nw (luldFor cfg symbol s);
               s = on_luld cfg symbol (\<lambda>_. c) s
           in case mget (mc_luldVisible s) symbol of
                Some previous \<Rightarrow>
                  if luld_eq previous value then s
                  else core_emit (EstimatedLULDUpdate symbol value) (s\<lparr>mc_luldVisible := mput symbol value (mc_luldVisible s)\<rparr>)
              | None \<Rightarrow>
                  core_emit (EstimatedLULDUpdate symbol value) (s\<lparr>mc_luldVisible := mput symbol value (mc_luldVisible s)\<rparr>))"

definition luld_symbols :: "md_core \<Rightarrow> string list" where
  "luld_symbols s = sort (map fst (mc_luld s))"

definition advanceTransport :: "md_config \<Rightarrow> tz \<Rightarrow> bool \<Rightarrow> int \<Rightarrow> md_core \<Rightarrow> md_core" where
  "advanceTransport cfg off down nw s =
     fold (\<lambda>symbol s. publishLULD cfg off nw symbol (on_luld cfg symbol (onTransport off down nw) s)) (luld_symbols s) s"

definition applyTime :: "md_config \<Rightarrow> tz \<Rightarrow> int \<Rightarrow> md_core \<Rightarrow> md_core" where
  "applyTime cfg off nw s = fold (publishLULD cfg off nw) (luld_symbols s) (s\<lparr>mc_now := nw\<rparr>)"

text \<open>The loop that hands a batch of prints to the calculators, then publishes for the symbols
  it touched.\<close>

definition luld_prints :: "md_config \<Rightarrow> tz \<Rightarrow> int \<Rightarrow> tick list \<Rightarrow> md_core \<Rightarrow> md_core" where
  "luld_prints cfg off nw ts s =
     fold (publishLULD cfg off nw) (remdups (map tk_Symbol ts))
       (fold (\<lambda>t. on_luld cfg (tk_Symbol t) (onPrint off t nw)) ts s)"

section \<open>Prints\<close>

definition stampEligibility :: "tz \<Rightarrow> tick list \<Rightarrow> md_core \<Rightarrow> tick list \<times> md_core" where
  "stampEligibility off ts s =
     (case ts of [] \<Rightarrow> (ts, s)
      | t # _ \<Rightarrow>
          let (e, ts) = stamp_all off (mget0 eligibility0 (mc_eligibility s) (tk_Symbol t)) ts
          in (ts, s\<lparr>mc_eligibility := mput (tk_Symbol t) e (mc_eligibility s)\<rparr>))"

text \<open>One round of the loop of \<open>applyTicks\<close>. The ring never fails: its capacity is positive.\<close>

definition append_tape :: "md_config \<Rightarrow> string \<Rightarrow> tick \<Rightarrow> md_core \<Rightarrow> md_core" where
  "append_tape cfg symbol t s =
     (let tape = (case mget (mc_tapes s) symbol of None \<Rightarrow> newRing (cf_TapeRing cfg) | Some r \<Rightarrow> r)
      in case ring_append t tape of None \<Rightarrow> s | Some r \<Rightarrow> s\<lparr>mc_tapes := mput symbol r (mc_tapes s)\<rparr>)"

definition apply_tick :: "md_config \<Rightarrow> tz \<Rightarrow> int \<Rightarrow> string \<Rightarrow> bool \<Rightarrow> coverage \<Rightarrow> tick \<Rightarrow> md_core \<Rightarrow> md_core" where
  "apply_tick cfg off nw symbol seed cov t s =
     (let s = append_tape cfg symbol t s;
          s = (if \<not> seed \<and> cov_Verified cov then on_lane (executionTick off nw t cov) s else s)
      in if \<not> seed \<and> tk_LastEligible t \<and> tk_Delivery t = DeliveryRealtime \<and> tk_Seq t > 0
         then eligible_print (print_of t) s else s)"

definition mark_last :: "tick list \<Rightarrow> md_core \<Rightarrow> md_core" where
  "mark_last ts s =
     (case rev (filter tk_LastEligible ts) of [] \<Rightarrow> s
      | t # _ \<Rightarrow> s\<lparr>mc_marks := mc_marks s @ [\<lparr>mk_Symbol = tk_Symbol t, mk_Price = tk_Price t, mk_TsMs = tk_TsMs t\<rparr>]\<rparr>)"

definition core_applyTicks :: "md_config \<Rightarrow> tz \<Rightarrow> int \<Rightarrow> tick list \<Rightarrow> bool \<Rightarrow> coverage \<Rightarrow> md_core \<Rightarrow> md_core" where
  "core_applyTicks cfg off clk ticks seed cov s =
     (if ticks = [] then s
      else let symbol = tk_Symbol (hd ticks);
               (d, accepted) = dedupTicks off (mc_dedup s) ticks;
               s = s\<lparr>mc_dedup := d\<rparr> in
           if accepted = [] then s
           else let (accepted, s) = stampEligibility off accepted s;
                    nw = currentTime clk s;
                    s = fold (apply_tick cfg off nw symbol seed cov) accepted s;
                    s = on_bars off (tk_Symbol (hd accepted)) (bars_applyTicks off (cf_AnchorSecs cfg) accepted) s;
                    s = luld_prints cfg off nw accepted s
                in mark_last accepted (core_emit (TapeUpdate symbol accepted) s))"

text \<open>The prints of a session put back after a restart: no tape, no mark.\<close>

definition core_seedSessionTicks :: "md_config \<Rightarrow> tz \<Rightarrow> int \<Rightarrow> string \<Rightarrow> tick list \<Rightarrow> md_core \<Rightarrow> md_core" where
  "core_seedSessionTicks cfg off clk symbol ticks s =
     (if ticks = [] then s
      else let (d, accepted) = dedupTicks off (mc_dedup s) ticks;
               s = s\<lparr>mc_dedup := d\<rparr> in
           if accepted = [] then s
           else let (accepted, s) = stampEligibility off accepted s;
                    s = luld_prints cfg off clk accepted (s\<lparr>mc_now := clk\<rparr>)
                in on_bars off symbol (seed_ticks off (cf_AnchorSecs cfg) accepted) s)"

section \<open>The loop\<close>

definition core_tickSnapshots :: "tz \<Rightarrow> string \<Rightarrow> md_core \<Rightarrow> md_core" where
  "core_tickSnapshots off symbol s =
     (if mhas (mc_bars s) symbol then on_bars off symbol emitTickSeedSnapshots s else s)"

fun apply_event :: "md_config \<Rightarrow> tz \<Rightarrow> int \<Rightarrow> int \<Rightarrow> feed_event \<Rightarrow> md_core \<Rightarrow> md_core" where
  "apply_event cfg off clk ms (TicksEvent ticks seed cov) s =
     (if seed \<and> ticks \<noteq> []
      then let symbol = tk_Symbol (hd ticks)
           in core_emit (HistoryReadyUpdate symbol False)
                (core_tickSnapshots off symbol (core_applyTicks cfg off clk ticks seed cov s))
      else core_applyTicks cfg off clk ticks seed cov s)"
| "apply_event cfg off clk ms (QuoteEvent q seed) s =
     (let s = quoteStore_set q s;
          s = core_seedAnchor off (q_Symbol q) (q_Last q) (q_PrevClose q) (q_TsMs q) s;
          s = core_emit (QuoteUpdate q) s
      in publishLULD cfg off ms (q_Symbol q) (on_luld cfg (q_Symbol q) (onQuote off q ms) s))"
| "apply_event cfg off clk ms (BookEvent bk seed verified revision) s =
     (let s = core_emit (BookUpdate bk) (bookStore_set bk s);
          s = s\<lparr>mc_bookOut := mc_bookOut s @ [bk]\<rparr>
      in on_lane (executionBook bk verified revision) s)"
| "apply_event cfg off clk ms (Bars1mEvent bars seed cov) s =
     (let s = on_lane (executionMinutes (currentTime clk s) bars seed cov) s in
      if bars = [] then s
      else let symbol = kb_Symbol (hd bars) in
           if seed
           then core_emit (HistoryReadyUpdate symbol False) (on_bars off symbol (seedHistory1m off (cf_AnchorSecs cfg) bars) s)
           else on_bars off symbol (apply1m off (cf_AnchorSecs cfg) bars) s)"
| "apply_event cfg off clk ms ConnUpEvent s =
     core_emit (ConnUpdate True) (advanceTransport cfg off False ms (on_lane (executionGap ms) s))"
| "apply_event cfg off clk ms ConnDownEvent s =
     core_emit (ConnUpdate False)
       (eligible_print (gap_print ms) (advanceTransport cfg off True ms (on_lane (executionGap ms) s)))"
| "apply_event cfg off clk ms ResyncedEvent s =
     core_emit ResyncedUpdate (eligible_print (gap_print ms) (core_markGaps (on_lane (executionGap ms) s)))"
| "apply_event cfg off clk ms DataGapEvent s =
     eligible_print (gap_print ms) (core_markGaps (on_lane (executionGap ms) s))"

definition applyEventAt :: "md_config \<Rightarrow> tz \<Rightarrow> int \<Rightarrow> feed_event \<Rightarrow> int \<Rightarrow> md_core \<Rightarrow> md_core" where
  "applyEventAt cfg off clk ev ms s =
     (let ms = (if ms = zero_time then currentTime clk s else ms)
      in apply_event cfg off clk ms ev (on_lane (executionSource (EventSource ev) ms) (s\<lparr>mc_now := ms\<rparr>)))"

fun core_apply :: "md_config \<Rightarrow> tz \<Rightarrow> int \<times> in_msg \<Rightarrow> md_core \<Rightarrow> md_core" where
  "core_apply cfg off (clk, EventMsg ev ms) s = applyEventAt cfg off clk ev ms s"
| "core_apply cfg off (clk, EnsureIndicatorMsg conn iid spec) s =
     core_emit (IndicatorReadyUpdate (is_Symbol spec) iid) (on_indicators (ind_ensure off (core_finalized s) conn iid spec) s)"
| "core_apply cfg off (clk, ReleaseIndicatorMsg conn iid) s = on_indicators (ind_release conn iid) s"
| "core_apply cfg off (clk, SeedDailyMsg symbol raws) s = core_seed off symbol raws (seedDaily off) s"
| "core_apply cfg off (clk, SeedHistory1mMsg symbol raws) s = core_seed off symbol raws (seedHistory1m off (cf_AnchorSecs cfg)) s"
| "core_apply cfg off (clk, SeedHistory10sMsg symbol raws) s = core_seed off symbol raws (seedHistory10s off) s"
| "core_apply cfg off (clk, SeedChartHistoryMsg symbol daily bars1m bars10s) s =
     core_emit (HistoryReadyUpdate symbol True)
       (core_seed off symbol bars10s (seedHistory10s off)
         (core_seed off symbol bars1m (seedHistory1m off (cf_AnchorSecs cfg))
           (core_seed off symbol daily (seedDaily off) s)))"
| "core_apply cfg off (clk, SeedOlder1mMsg symbol raws) s = core_seed off symbol raws (seedOlder1m off (cf_AnchorSecs cfg)) s"
| "core_apply cfg off (clk, SeedSessionTicksMsg symbol ticks) s = core_seedSessionTicks cfg off clk symbol ticks s"
| "core_apply cfg off (clk, HistoryBarrierMsg symbol) s = core_emit (HistoryReadyUpdate symbol True) s"
| "core_apply cfg off (clk, TimeMsg) s = applyTime cfg off clk s"

definition md_run :: "md_config \<Rightarrow> tz \<Rightarrow> int \<Rightarrow> (int \<times> in_msg) list \<Rightarrow> md_core" where
  "md_run cfg off clk ops = fold (core_apply (with_defaults cfg) off) ops (newMdCore cfg clk)"

end
