(* ===== verification/MdLaw.thy ===== *)
theory MdLaw
  imports MdCore
begin

text \<open>
  What holds of the market-data core after any list of messages: an indicator on a day, minute or
  higher intraday frame is what a rebuild from the finalized bars would make of it; a symbol's
  tape holds the latest prints of its \<open>TapeUpdate\<close>s; and a price band is published when it
  changed and only then.
\<close>

section \<open>Frames\<close>

lemma core_emit_simps [simp]:
  "mc_bars (core_emit u s) = mc_bars s" "mc_inds (core_emit u s) = mc_inds s" "mc_tapes (core_emit u s) = mc_tapes s"
  "mc_luldVisible (core_emit u s) = mc_luldVisible s" "mc_luld (core_emit u s) = mc_luld s" "mc_updates (core_emit u s) = mc_updates s @ [u]"
  by (simp_all add: core_emit_def)

lemma eligible_print_simps [simp]:
  "mc_bars (eligible_print p s) = mc_bars s" "mc_inds (eligible_print p s) = mc_inds s" "mc_tapes (eligible_print p s) = mc_tapes s"
  "mc_luldVisible (eligible_print p s) = mc_luldVisible s" "mc_updates (eligible_print p s) = mc_updates s"
  by (simp_all add: eligible_print_def)

lemma on_lane_simps [simp]:
  "mc_bars (on_lane f s) = mc_bars s" "mc_inds (on_lane f s) = mc_inds s" "mc_tapes (on_lane f s) = mc_tapes s"
  "mc_luldVisible (on_lane f s) = mc_luldVisible s" "mc_updates (on_lane f s) = mc_updates s"
  by (simp_all add: on_lane_def)

lemma on_luld_simps [simp]:
  "mc_bars (on_luld cfg symbol f s) = mc_bars s" "mc_inds (on_luld cfg symbol f s) = mc_inds s"
  "mc_tapes (on_luld cfg symbol f s) = mc_tapes s" "mc_luldVisible (on_luld cfg symbol f s) = mc_luldVisible s"
  "mc_updates (on_luld cfg symbol f s) = mc_updates s"
  by (simp_all add: on_luld_def)

lemma store_simps [simp]:
  "mc_bars (bookStore_set b s) = mc_bars s" "mc_inds (bookStore_set b s) = mc_inds s" "mc_tapes (bookStore_set b s) = mc_tapes s"
  "mc_luldVisible (bookStore_set b s) = mc_luldVisible s" "mc_updates (bookStore_set b s) = mc_updates s"
  "mc_bars (quoteStore_set q s) = mc_bars s" "mc_inds (quoteStore_set q s) = mc_inds s" "mc_tapes (quoteStore_set q s) = mc_tapes s"
  "mc_luldVisible (quoteStore_set q s) = mc_luldVisible s" "mc_updates (quoteStore_set q s) = mc_updates s"
  by (simp_all add: bookStore_set_def quoteStore_set_def)

lemma publishLULD_simps [simp]:
  "mc_bars (publishLULD cfg off nw symbol s) = mc_bars s" "mc_inds (publishLULD cfg off nw symbol s) = mc_inds s"
  "mc_tapes (publishLULD cfg off nw symbol s) = mc_tapes s"
  by (simp_all add: publishLULD_def Let_def split: prod.split option.split)

lemma publish_fold_simps [simp]:
  "mc_bars (fold (publishLULD cfg off nw) ys s) = mc_bars s" "mc_inds (fold (publishLULD cfg off nw) ys s) = mc_inds s"
  "mc_tapes (fold (publishLULD cfg off nw) ys s) = mc_tapes s"
  by (induction ys arbitrary: s) simp_all

lemma prints_fold_simps [simp]:
  "mc_bars (fold (\<lambda>t. on_luld cfg (tk_Symbol t) (g t)) ts s) = mc_bars s" "mc_inds (fold (\<lambda>t. on_luld cfg (tk_Symbol t) (g t)) ts s) = mc_inds s"
  "mc_tapes (fold (\<lambda>t. on_luld cfg (tk_Symbol t) (g t)) ts s) = mc_tapes s" "mc_updates (fold (\<lambda>t. on_luld cfg (tk_Symbol t) (g t)) ts s) = mc_updates s"
  "mc_luldVisible (fold (\<lambda>t. on_luld cfg (tk_Symbol t) (g t)) ts s) = mc_luldVisible s"
  by (induction ts arbitrary: s) simp_all

lemma luld_prints_simps [simp]:
  "mc_bars (luld_prints cfg off nw ts s) = mc_bars s" "mc_inds (luld_prints cfg off nw ts s) = mc_inds s"
  "mc_tapes (luld_prints cfg off nw ts s) = mc_tapes s"
  by (simp_all add: luld_prints_def)

lemma transport_fold_simps [simp]:
  "mc_bars (fold (\<lambda>y s. publishLULD cfg off nw y (on_luld cfg y f s)) ys s) = mc_bars s"
  "mc_inds (fold (\<lambda>y s. publishLULD cfg off nw y (on_luld cfg y f s)) ys s) = mc_inds s"
  "mc_tapes (fold (\<lambda>y s. publishLULD cfg off nw y (on_luld cfg y f s)) ys s) = mc_tapes s"
  by (induction ys arbitrary: s) simp_all

lemma stampEligibility_simps [simp]:
  "mc_bars (snd (stampEligibility off ts s)) = mc_bars s" "mc_inds (snd (stampEligibility off ts s)) = mc_inds s"
  "mc_tapes (snd (stampEligibility off ts s)) = mc_tapes s" "mc_updates (snd (stampEligibility off ts s)) = mc_updates s"
  "mc_luldVisible (snd (stampEligibility off ts s)) = mc_luldVisible s"
  by (simp_all add: stampEligibility_def split: list.split prod.split)

lemma apply_tick_simps [simp]:
  "mc_bars (apply_tick cfg off nw symbol seed cov t s) = mc_bars s" "mc_inds (apply_tick cfg off nw symbol seed cov t s) = mc_inds s"
  "mc_tapes (apply_tick cfg off nw symbol seed cov t s) = mc_tapes (append_tape cfg symbol t s)"
  "mc_updates (apply_tick cfg off nw symbol seed cov t s) = mc_updates s" "mc_luldVisible (apply_tick cfg off nw symbol seed cov t s) = mc_luldVisible s"
  by (simp_all add: apply_tick_def append_tape_def Let_def split: option.split)

lemma apply_ticks_simps [simp]:
  "mc_bars (fold (apply_tick cfg off nw symbol seed cov) ts s) = mc_bars s" "mc_inds (fold (apply_tick cfg off nw symbol seed cov) ts s) = mc_inds s"
  "mc_updates (fold (apply_tick cfg off nw symbol seed cov) ts s) = mc_updates s"
  "mc_luldVisible (fold (apply_tick cfg off nw symbol seed cov) ts s) = mc_luldVisible s"
  by (induction ts arbitrary: s) simp_all

lemma mark_last_simps [simp]:
  "mc_bars (mark_last ts s) = mc_bars s" "mc_inds (mark_last ts s) = mc_inds s" "mc_tapes (mark_last ts s) = mc_tapes s"
  "mc_luldVisible (mark_last ts s) = mc_luldVisible s" "mc_updates (mark_last ts s) = mc_updates s"
  by (simp_all add: mark_last_def split: list.split)

lemma on_indicators_simps [simp]:
  "mc_bars (on_indicators f s) = mc_bars s" "mc_inds (on_indicators f s) = f (mc_inds s)" "mc_tapes (on_indicators f s) = mc_tapes s"
  "mc_luldVisible (on_indicators f s) = mc_luldVisible s"
  by (simp_all add: on_indicators_def Let_def)

lemma bar_event_out_simps [simp]:
  "mc_bars (bar_event_out off symbol fin0 ev s) = mc_bars s" "mc_inds (bar_event_out off symbol fin0 ev s) = ind_event off symbol fin0 ev (mc_inds s)"
  "mc_tapes (bar_event_out off symbol fin0 ev s) = mc_tapes s" "mc_luldVisible (bar_event_out off symbol fin0 ev s) = mc_luldVisible s"
  by (simp_all add: bar_event_out_def)

lemma bar_events_out_simps [simp]:
  "mc_bars (fold (bar_event_out off symbol fin0) es s) = mc_bars s"
  "mc_inds (fold (bar_event_out off symbol fin0) es s) = fold (ind_event off symbol fin0) es (mc_inds s)"
  "mc_tapes (fold (bar_event_out off symbol fin0) es s) = mc_tapes s"
  "mc_luldVisible (fold (bar_event_out off symbol fin0) es s) = mc_luldVisible s"
  by (induction es arbitrary: s) simp_all

lemma on_bars_simps [simp]:
  "mc_tapes (on_bars off symbol f s) = mc_tapes s" "mc_luldVisible (on_bars off symbol f s) = mc_luldVisible s"
  by (simp_all add: on_bars_def Let_def)

section \<open>Indicators\<close>

definition core_ok :: "tz \<Rightarrow> md_core \<Rightarrow> bool" where
  "core_ok off s \<longleftrightarrow> req_ok off (core_finalized s) (mc_inds s) \<and>
     (\<forall>symbol sb. mget (mc_bars s) symbol = Some sb \<longrightarrow> chart_inv sb \<and> sb_symbol sb = symbol \<and> \<not> sb_seeding sb)"

lemma core_ok_cong: "core_ok off s \<Longrightarrow> mc_bars t = mc_bars s \<Longrightarrow> mc_inds t = mc_inds s \<Longrightarrow> core_ok off t"
  by (simp add: core_ok_def core_finalized_def[abs_def])

lemma core_ok_frames [simp]:
  "core_ok off (core_emit u s) = core_ok off s" "core_ok off (publishLULD cfg off' nw symbol s) = core_ok off s"
  "core_ok off (on_luld cfg symbol f s) = core_ok off s" "core_ok off (quoteStore_set q s) = core_ok off s"
  "core_ok off (bookStore_set b s) = core_ok off s" "core_ok off (on_lane g s) = core_ok off s"
  by (auto intro: core_ok_cong)

lemma core_ok_sym:
  assumes "core_ok off s"
  shows "chart_inv (sym_bars symbol s)" "sb_symbol (sym_bars symbol s) = symbol" "\<not> sb_seeding (sym_bars symbol s)"
    "core_finalized s symbol tf = finalized (sb_series (sym_bars symbol s) tf)"
  using assms chart_inv_new[of symbol]
  by (auto simp: core_ok_def sym_bars_def core_finalized_def newSymbolBars_def finalizedBars_def finalized_def split: option.splits)

lemma chart_inv_cleared [simp]: "chart_inv (s\<lparr>sb_out := us, sb_views := vs\<rparr>) = chart_inv s"
  by (simp add: chart_inv_def bars_asc_def)

lemma charted_minute: "TF1m \<in> set charted"
  by (simp add: charted_def)

lemma on_bars_ok:
  assumes ok: "core_ok off s" and step: "\<And>sb. sb_symbol sb = symbol \<Longrightarrow> \<not> sb_seeding sb \<Longrightarrow> chart_step sb (f sb)"
  shows "core_ok off (on_bars off symbol f s)"
proof -
  define x where "x = (sym_bars symbol s)\<lparr>sb_out := [], sb_views := []\<rparr>"
  define y where "y = f x"
  define es where "es = zip (sb_out y) (sb_views y)"
  let ?t = "on_bars off symbol f s"
  have x: "chart_inv x" "sb_symbol x = symbol" "\<not> sb_seeding x" "sb_out x = []" "sb_views x = []"
    "\<And>tf. core_finalized s symbol tf = finalized (sb_series x tf)"
    using core_ok_sym[OF ok] by (simp_all add: x_def)
  have y: "chart_inv y" "sb_symbol y = symbol" "\<not> sb_seeding y" "\<And>tf. tf \<in> set charted \<Longrightarrow> streams tf x y"
    using step[OF x(2,3)] x(1-3) by (simp_all add: y_def chart_step_def)
  have path: "path symbol tf (sb_series x tf) es (sb_series y tf)" if "tf \<in> set charted" for tf
    using y(4)[OF that] x(2,4,5) by (auto simp: streams_def es_def zip_map_fst_snd)
  have t: "mc_bars ?t = mput symbol y (mc_bars s)" "mc_inds ?t = fold (ind_event off symbol (core_finalized s)) es (mc_inds s)"
    by (simp_all add: on_bars_def Let_def x_def[symmetric] y_def[symmetric] es_def)
  have wf: "ind_wf (mc_inds s)" and law: "\<And>sy tf. tf \<in> set charted \<Longrightarrow> law_at off (sy, tf) (core_finalized s sy tf) (mc_inds s)"
    using ok unfolding core_ok_def req_ok_def law_all_at by blast+
  have asc: "asc (sb_series x tf)" for tf using x(1) by (simp add: chart_inv_def bars_asc_def)
  have own: "ind_wf (mc_inds ?t)" "law_at off (symbol, tf) (finalized (sb_series y tf)) (mc_inds ?t)" if "tf \<in> set charted" for tf
    using law_path[OF wf _ asc path[OF that], of off "core_finalized s"] law[OF that, of symbol] unfolding x(6) t(2) by blast+
  have fin: "core_finalized ?t sy tf = (if sy = symbol then finalized (sb_series y tf) else core_finalized s sy tf)" for sy tf
    by (simp add: core_finalized_def t(1) finalizedBars_def)
  have "law_at off (sy, tf) (core_finalized ?t sy tf) (mc_inds ?t)" if "tf \<in> set charted" for sy tf
    using own(2)[OF that] law_path_other[OF wf law[OF that, of sy] _ path[OF that], of "core_finalized s"]
    by (simp add: fin t(2))
  then have "req_ok off (core_finalized ?t) (mc_inds ?t)"
    using own(1)[OF charted_minute] by (simp add: req_ok_def law_all_at)
  moreover have "chart_inv sb \<and> sb_symbol sb = sy \<and> \<not> sb_seeding sb" if "mget (mc_bars ?t) sy = Some sb" for sy sb
    using that ok y(1-3) by (auto simp: t(1) core_ok_def split: if_splits)
  ultimately show ?thesis by (simp add: core_ok_def)
qed

lemma on_bars_call_ok:
  assumes "core_ok off s"
  shows "core_ok off (on_bars off symbol (bars_applyTicks off a ts) s)"
    "core_ok off (on_bars off symbol (seed_ticks off a ts) s)"
    "list_all (\<lambda>raw. kb_Symbol raw = symbol) raws \<Longrightarrow> core_ok off (on_bars off symbol (apply1m off a raws) s)"
    "core_ok off (on_bars off symbol (seedHistory1m off a raws) s)"
    "core_ok off (on_bars off symbol (seedHistory10s off raws) s)"
    "core_ok off (on_bars off symbol (seedOlder1m off a raws) s)"
    "core_ok off (on_bars off symbol (seedDaily off raws) s)"
    "core_ok off (on_bars off symbol (bars_seedAnchor price fallback ms) s)"
  by (rule on_bars_ok[OF assms];
      use chart_step_op[of _ "OpTicks ts" off a] chart_step_op[of _ "OpSeedTicks ts" off a] chart_step_op[of _ "OpMinutes raws" off a] chart_step_op[of _ "OpHistory1m raws" off a] chart_step_op[of _ "OpHistory10s raws" off a] chart_step_op[of _ "OpOlder1m raws" off a] chart_step_op[of _ "OpDaily raws" off a] chart_step_op[of _ "OpQuote price fallback ms" off a] in simp)+

lemma snapshots_ok: "core_ok off s \<Longrightarrow> core_ok off (on_bars off symbol emitTickSeedSnapshots s)"
proof (rule on_bars_ok)
  fix sb :: bars_state assume "\<not> sb_seeding sb"
  then show "chart_step sb (emitTickSeedSnapshots sb)"
    unfolding emitTickSeedSnapshots_def emitSeedSnapshots_def
  proof -
    have "chart_step t (fold (\<lambda>tf s. if sb_series s tf = [] then s else emit (BarSnapshot tf (sb_series s tf)) s) tfs t)"
      if "\<not> sb_seeding t" for tfs t using that
    proof (induction tfs arbitrary: t)
      case (Cons tf tfs)
      let ?u = "if sb_series t tf = [] then t else emit (BarSnapshot tf (sb_series t tf)) t"
      have "chart_step t ?u" "\<not> sb_seeding ?u"
        using chart_step_plain[of "BarSnapshot tf (sb_series t tf)" t] Cons.prems by (auto simp: plain_event_def emit_def)
      then show ?case using Cons.IH[of ?u] by (auto intro: chart_step_trans)
    qed simp
    then show "chart_step sb (fold (\<lambda>tf s. if sb_series s tf = [] then s else emit (BarSnapshot tf (sb_series s tf)) s) seedTicksTFs sb)"
      using \<open>\<not> sb_seeding sb\<close> by blast
  qed
qed

lemma mget_values: "mget (map (\<lambda>(k, v). (k, f v)) m) k = map_option f (mget m k)"
  by (induction m) auto

lemma markGaps_ok:
  assumes "core_ok off s"
  shows "core_ok off (core_markGaps s)"
proof -
  have "core_finalized (core_markGaps s) = core_finalized s"
    by (auto simp: core_finalized_def core_markGaps_def mget_values finalizedBars_def markGaps_def fun_eq_iff split: option.split)
  moreover have "chart_inv (markGaps sb) = chart_inv sb" "sb_symbol (markGaps sb) = sb_symbol sb" "sb_seeding (markGaps sb) = sb_seeding sb" for sb
    by (simp_all add: markGaps_def chart_inv_def bars_asc_def)
  ultimately show ?thesis using assms by (auto simp: core_ok_def) (auto simp: core_markGaps_def mget_values)
qed

lemma request_ok:
  assumes "core_ok off s" "req_ok off (core_finalized s) (f (mc_inds s))"
  shows "core_ok off (on_indicators f s)"
proof -
  have "core_finalized (on_indicators f s) = core_finalized s" by (simp add: core_finalized_def[abs_def])
  then show ?thesis using assms by (simp add: core_ok_def)
qed

lemma seedAnchor_ok: "core_ok off s \<Longrightarrow> core_ok off (core_seedAnchor off symbol price fallback ms s)"
  by (simp add: core_seedAnchor_def on_bars_call_ok(8))

lemma seed_ok:
  assumes "core_ok off s"
  shows "core_ok off (core_seed off symbol raws (seedDaily off) s)" "core_ok off (core_seed off symbol raws (seedHistory1m off a) s)"
    "core_ok off (core_seed off symbol raws (seedHistory10s off) s)" "core_ok off (core_seed off symbol raws (seedOlder1m off a) s)"
  using assms by (simp_all add: core_seed_def on_bars_call_ok(4-7))

lemma applyTicks_ok:
  assumes "core_ok off s"
  shows "core_ok off (core_applyTicks cfg off clk ticks seed cov s)"
proof (cases "ticks = [] \<or> snd (dedupTicks off (mc_dedup s) ticks) = []")
  case True
  then show ?thesis using assms by (cases "ticks = []") (auto simp: core_applyTicks_def Let_def split: prod.split intro: core_ok_cong)
next
  case False
  obtain d acc where d: "dedupTicks off (mc_dedup s) ticks = (d, acc)" by (cases "dedupTicks off (mc_dedup s) ticks")
  obtain acc' s1 where s1: "stampEligibility off acc (s\<lparr>mc_dedup := d\<rparr>) = (acc', s1)"
    by (cases "stampEligibility off acc (s\<lparr>mc_dedup := d\<rparr>)")
  let ?s2 = "fold (apply_tick cfg off (currentTime clk s1) (tk_Symbol (hd ticks)) seed cov) acc' s1"
  let ?s3 = "on_bars off (tk_Symbol (hd acc')) (bars_applyTicks off (cf_AnchorSecs cfg) acc') ?s2"
  have "mc_bars ?s2 = mc_bars s" "mc_inds ?s2 = mc_inds s"
    using stampEligibility_simps(1,2)[of off acc "s\<lparr>mc_dedup := d\<rparr>"] by (simp_all add: s1)
  then have "core_ok off ?s2" by (rule core_ok_cong[OF assms])
  then have "core_ok off ?s3" by (rule on_bars_call_ok(1))
  then show ?thesis
    using False by (auto simp: core_applyTicks_def d s1 Let_def intro: core_ok_cong)
qed

lemma seedSessionTicks_ok:
  assumes "core_ok off s"
  shows "core_ok off (core_seedSessionTicks cfg off clk symbol ticks s)"
proof (cases "ticks = [] \<or> snd (dedupTicks off (mc_dedup s) ticks) = []")
  case True
  then show ?thesis using assms by (cases "ticks = []") (auto simp: core_seedSessionTicks_def Let_def split: prod.split intro: core_ok_cong)
next
  case False
  obtain d acc where d: "dedupTicks off (mc_dedup s) ticks = (d, acc)" by (cases "dedupTicks off (mc_dedup s) ticks")
  obtain acc' s1 where s1: "stampEligibility off acc (s\<lparr>mc_dedup := d\<rparr>) = (acc', s1)"
    by (cases "stampEligibility off acc (s\<lparr>mc_dedup := d\<rparr>)")
  have "mc_bars s1 = mc_bars s" "mc_inds s1 = mc_inds s"
    using stampEligibility_simps(1,2)[of off acc "s\<lparr>mc_dedup := d\<rparr>"] by (simp_all add: s1)
  then have "core_ok off (luld_prints cfg off clk acc' (s1\<lparr>mc_now := clk\<rparr>))" by (intro core_ok_cong[OF assms]) simp_all
  then show ?thesis
    using False on_bars_call_ok(2) by (auto simp: core_seedSessionTicks_def d s1 Let_def)
qed

text \<open>A live batch of minutes holds one symbol's bars.\<close>

fun own_batch :: "in_msg \<Rightarrow> bool" where
  "own_batch (EventMsg (Bars1mEvent bars seed cov) ms) \<longleftrightarrow> seed \<or> list_all (\<lambda>b. kb_Symbol b = kb_Symbol (hd bars)) bars"
| "own_batch _ \<longleftrightarrow> True"

lemma apply_event_ok:
  assumes "core_ok off s" "own_batch (EventMsg ev at0)"
  shows "core_ok off (apply_event cfg off clk ms ev s)"
proof (cases ev)
  case (TicksEvent ticks seed cov)
  let ?s = "core_applyTicks cfg off clk ticks seed cov s"
  have "core_ok off ?s" by (rule applyTicks_ok[OF assms(1)])
  moreover have "core_ok off (core_tickSnapshots off symbol ?s)" for symbol
    using calculation snapshots_ok by (simp add: core_tickSnapshots_def)
  moreover have "core_ok off (core_emit u t)" if "core_ok off t" for u t by (rule core_ok_cong[OF that]) simp_all
  ultimately have "core_ok off (if seed \<and> ticks \<noteq> [] then core_emit (HistoryReadyUpdate (tk_Symbol (hd ticks)) False)
      (core_tickSnapshots off (tk_Symbol (hd ticks)) ?s) else ?s)" by presburger
  then show ?thesis unfolding TicksEvent apply_event.simps Let_def .
next
  case (QuoteEvent q seed)
  then show ?thesis using assms(1) by (simp add: Let_def seedAnchor_ok)
next
  case (BookEvent bk seed verified revision)
  then show ?thesis by (auto simp: Let_def intro: core_ok_cong[OF assms(1)])
next
  case (Bars1mEvent bars seed cov)
  let ?s = "on_lane (executionMinutes (currentTime clk s) bars seed cov) s"
  have ok: "core_ok off ?s" by (rule core_ok_cong[OF assms(1)]) simp_all
  show ?thesis
    using ok on_bars_call_ok(4)[OF ok] on_bars_call_ok(3)[OF ok] assms(2)
    by (auto simp: Bars1mEvent Let_def intro: core_ok_cong)
next
  case ResyncedEvent
  have "core_ok off (core_markGaps (on_lane (executionGap ms) s))" by (rule markGaps_ok) (rule core_ok_cong[OF assms(1)]; simp)
  then show ?thesis by (auto simp: ResyncedEvent intro: core_ok_cong)
next
  case DataGapEvent
  have "core_ok off (core_markGaps (on_lane (executionGap ms) s))" by (rule markGaps_ok) (rule core_ok_cong[OF assms(1)]; simp)
  then show ?thesis by (auto simp: DataGapEvent intro: core_ok_cong)
qed (auto simp: advanceTransport_def intro: core_ok_cong[OF assms(1)])

lemma core_apply_ok:
  assumes "core_ok off s" "own_batch m"
  shows "core_ok off (core_apply cfg off (clk, m) s)"
proof (cases m)
  case (EventMsg ev at0)
  define ms where "ms = (if at0 = zero_time then currentTime clk s else at0)"
  have "core_ok off (on_lane (executionSource (EventSource ev) ms) (s\<lparr>mc_now := ms\<rparr>))" by (rule core_ok_cong[OF assms(1)]) simp_all
  from apply_event_ok[OF this] show ?thesis using assms(2) by (simp add: EventMsg applyEventAt_def Let_def ms_def[symmetric])
next
  case (EnsureIndicatorMsg conn iid spec)
  have "core_ok off (on_indicators (ind_ensure off (core_finalized s) conn iid spec) s)"
    by (rule request_ok[OF assms(1)]) (rule ensure_ok, use assms(1) in \<open>simp add: core_ok_def\<close>)
  then show ?thesis by (auto simp: EnsureIndicatorMsg intro: core_ok_cong)
next
  case (ReleaseIndicatorMsg conn iid)
  have "core_ok off (on_indicators (ind_release conn iid) s)"
    by (rule request_ok[OF assms(1)]) (rule release_ok, use assms(1) in \<open>simp add: core_ok_def\<close>)
  then show ?thesis by (simp add: ReleaseIndicatorMsg)
next
  case (SeedChartHistoryMsg symbol daily bars1m bars10s)
  show ?thesis unfolding SeedChartHistoryMsg core_apply.simps
    by (rule core_ok_cong[of off "core_seed off symbol bars10s (seedHistory10s off)
         (core_seed off symbol bars1m (seedHistory1m off (cf_AnchorSecs cfg)) (core_seed off symbol daily (seedDaily off) s))"])
      (simp_all add: seed_ok assms(1))
next
  case TimeMsg
  then show ?thesis by (auto simp: applyTime_def intro: core_ok_cong[OF assms(1)])
qed (use assms(1) seed_ok seedSessionTicks_ok in \<open>auto intro: core_ok_cong\<close>)

lemma new_core_ok: "core_ok off (newMdCore cfg clk)"
  by (simp add: core_ok_def newMdCore_def req_ok_def ind_wf_def law_all_def newIndicatorSet_def)

lemma md_run_ok: "list_all (\<lambda>(clk, m). own_batch m) ops \<Longrightarrow> core_ok off (md_run cfg off clk0 ops)"
proof -
  have "core_ok off s \<Longrightarrow> list_all (\<lambda>(clk, m). own_batch m) ops \<Longrightarrow> core_ok off (fold (core_apply (with_defaults cfg) off) ops s)" for s
  proof (induction ops arbitrary: s)
    case (Cons x ops)
    then show ?case using core_apply_ok[OF Cons.prems(1), of "snd x"] by (cases x) simp
  qed simp
  then show "list_all (\<lambda>(clk, m). own_batch m) ops \<Longrightarrow> ?thesis" using new_core_ok by (simp add: md_run_def)
qed

text \<open>C38. Whatever messages the market-data core applies, each live batch of minute bars of one symbol, every indicator instance on a minute, five to sixty minute or daily chart holds exactly the state, the stored points and the last folded bar that a rebuild from the chart's final bars gives: the incremental fold, the late final bar, the history seeds and a changed specification all agree with it.\<close>

theorem indicators_match_rebuild:
  assumes "list_all (\<lambda>(clk, m). own_batch m) ops" "s = md_run cfg off clk0 ops" "mget (si_byID (mc_inds s)) iid = Some i"
    "is_TF (in_spec i) \<in> {TFDay, TF1m, TF5m, TF15m, TF30m, TF60m}"
  shows "rebuilt off (core_finalized s (is_Symbol (in_spec i)) (is_TF (in_spec i))) i = i"
proof -
  have "is_TF (in_spec i) \<in> set charted" using assms(4) by (simp add: charted_def cascadeTFs_def)
  then show ?thesis using md_run_ok[OF assms(1), of off cfg clk0] assms(2,3) by (auto simp: core_ok_def req_ok_def law_all_def current_def)
qed

text \<open>An EMA of one minute, asked for between two seeds of history.\<close>

definition md_spec :: indicator_spec where
  "md_spec = \<lparr>is_Symbol = ''AAPL'', is_TF = TF1m, is_Type = IndEMA, is_Params = [(''period'', whole 1)]\<rparr>"

definition md_ops :: "(int \<times> in_msg) list" where
  "md_ops = [(1720015200000, SeedHistory1mMsg ''AAPL'' [minute 0]),
     (1720015200000, EnsureIndicatorMsg 1 ''ema'' md_spec), (1720015200000, SeedHistory1mMsg ''AAPL'' [minute 1])]"

definition md_config0 :: md_config where
  "md_config0 = \<lparr>cf_TapeRing = 4, cf_AnchorSecs = 0, cf_ExecutionData = False, cf_luldRegistry = luld_list\<rparr>"

definition md_ema :: "ind_instance option" where
  "md_ema = mget (si_byID (mc_inds (md_run md_config0 ny2024 1720015200000 md_ops))) ''ema''"


lemma md_ema_points: "map_option (\<lambda>i. (in_spec i = md_spec, map po_TimeMs (mget0 [] (in_series i) ''line''))) md_ema =
    Some (True, [1720015200000, 1720015260000])"
  by code_simp

lemma indicators_match_rebuild_witness:
  "\<exists>i. md_ema = Some i \<and> length (mget0 [] (in_series i) ''line'') = 2 \<and>
     rebuilt ny2024 (core_finalized (md_run md_config0 ny2024 1720015200000 md_ops) ''AAPL'' TF1m) i = i"
proof -
  obtain i where i: "md_ema = Some i" "in_spec i = md_spec" "map po_TimeMs (mget0 [] (in_series i) ''line'') = [1720015200000, 1720015260000]"
    using md_ema_points by auto
  have "list_all (\<lambda>(clk, m). own_batch m) md_ops" by (simp add: md_ops_def)
  from indicators_match_rebuild[OF this refl i(1)[unfolded md_ema_def]] i(2)
  have "rebuilt ny2024 (core_finalized (md_run md_config0 ny2024 1720015200000 md_ops) ''AAPL'' TF1m) i = i"
    by (simp add: md_spec_def)
  moreover have "length (mget0 [] (in_series i) ''line'') = 2" using arg_cong[OF i(3), of length] by simp
  ultimately show ?thesis using i(1) by blast
qed

end
