(* ===== verification/LaneBridge.thy ===== *)
theory LaneBridge
  imports ExecLane TrailPrice Protection
begin

text \<open>
  The seam between the two cores, \<open>markBridge\<close> of \<open>cmd/etape/main.go\<close>: what the market-data
  core sends on its execution lane is fed to the trading core as prints, tops of book and
  candles. The candle part is the contract of a candle trail: everything the lane sends passes
  the trading core's own checks.
\<close>

section \<open>The bridge\<close>

datatype lane_feed =
    FeedEligiblePrint eligible_print
  | FeedTrailBook trail_book
  | FeedTrailCandle trail_candle

definition bridge_print :: "md_print \<Rightarrow> eligible_print" where
  "bridge_print p = \<lparr>ep_symbol = mp_Symbol p, ep_receiptMs = mp_ReceiptMs p, ep_price = mp_Price p,
     ep_tsMs = mp_TsMs p, ep_recvTsMs = mp_RecvTsMs p, ep_seq = mp_Seq p, ep_gap = mp_Gap p\<rparr>"

definition bridge_candle :: "execution_candle \<Rightarrow> trail_candle" where
  "bridge_candle b = candle0\<lparr>tk_symbol := xc_Symbol b, tk_timeframe := xc_Timeframe b,
     tk_startMs := xc_StartMs b, tk_endMs := xc_EndMs b, tk_low := xc_Low b, tk_high := xc_High b,
     tk_verified := xc_Verified b\<rparr>"

definition bridge_book :: "execution_book \<Rightarrow> trail_book" where
  "bridge_book b = trail_book0\<lparr>tb_symbol := xb_Symbol b, tb_bid := xb_Bid b, tb_ask := xb_Ask b,
     tb_generation := xb_Generation b, tb_coverage := xb_Coverage b, tb_receiptMs := xb_ReceiptMs b,
     tb_bidTsMs := xb_BidTsMs b, tb_askTsMs := xb_AskTsMs b\<rparr>"

fun markBridge :: "execution_event \<Rightarrow> lane_feed" where
  "markBridge (XPrint p) = FeedEligiblePrint (bridge_print p)"
| "markBridge (XBook b) = FeedTrailBook (bridge_book b)"
| "markBridge (XCandle b) = FeedTrailCandle (bridge_candle b)"

section \<open>Candles the trading core accepts\<close>

lemma frame_tf_of: "(name, tf) \<in> set lane_frames \<Longrightarrow> tf_of name = tf"
  by (auto simp: lane_frames_def minuteFrames_def tf_of_def)

lemma bridged_good:
  assumes "candle_ok off D c" "xc_EndMs c \<le> now"
  shows "good_candle off now (bridge_candle c)"
proof -
  obtain tf where tf: "(xc_Timeframe c, tf) \<in> set lane_frames" "xc_EndMs c = xc_StartMs c + span_ms tf"
      "BucketStartMs off (xc_StartMs c) tf = xc_StartMs c"
    using assms(1) by (auto simp: candle_ok_def)
  have "tf_of (xc_Timeframe c) = tf" "intraday tf" using frame_tf_of frames_intraday tf(1) by blast+
  moreover have "xc_Verified c" "executionPrice (xc_Low c)" "executionPrice (xc_High c)" "xc_Low c \<le> xc_High c"
    using assms(1) by (auto simp: candle_ok_def)
  ultimately show ?thesis using tf(2,3) assms(2)
    by (auto simp: good_candle_def bridge_candle_def candle0_def intraday_def span_ms_def executionPrice_iff
        finitePositive_iff split: prod.splits)
qed

lemma handled_candle:
  assumes "good_candle off now b"
  shows "\<exists>h. mget (handleTrailCandle off now lastEligible b candles) (candle_key (tk_symbol b) (tk_timeframe b)) = Some h \<and>
    (h = b\<lparr>tk_afterSeq := ep_seq (mget0 print0 lastEligible (tk_symbol b))\<rparr> \<or>
     mget candles (candle_key (tk_symbol b) (tk_timeframe b)) = Some h \<and> tk_startMs b < tk_startMs h)"
  using assms by (auto simp: handleTrailCandle_def Let_def split: option.splits)

theorem candles_reach_trails:
  assumes "whole_hours off" "XCandle c \<in> set (sent_by off ops op)" "xc_EndMs c \<le> now"
    "markBridge (XCandle c) = FeedTrailCandle b"
  shows "\<exists>h. mget (handleTrailCandle off now lastEligible b candles) (candle_key (xc_Symbol c) (xc_Timeframe c)) = Some h \<and>
    (h = b\<lparr>tk_afterSeq := ep_seq (mget0 print0 lastEligible (xc_Symbol c))\<rparr> \<or>
     mget candles (candle_key (xc_Symbol c) (xc_Timeframe c)) = Some h \<and> xc_StartMs c < tk_startMs h)"
proof -
  have b: "b = bridge_candle c" using assms(4) by simp
  have "good_candle off now b"
    using bridged_good[OF _ assms(3)] sent_by_ok[OF assms(1,2)] by (simp add: b)
  from handled_candle[OF this] show ?thesis by (simp add: b bridge_candle_def candle0_def)
qed

lemma candles_reach_trails_witness:
  "\<exists>h. mget (handleTrailCandle ny2024 1720015262000 [] (bridge_candle lane_candle) []) (candle_key ''AAPL'' ''1m'') = Some h \<and>
    tk_low h = whole 99 \<and> tk_high h = whole 101"
  using candles_reach_trails[OF ny2024_whole lane_candle_sent, of 1720015262000 "bridge_candle lane_candle" "[]" "[]"]
  by (auto simp: lane_candle_def candle_of_def bridge_candle_def)

end
