(* ===== verification/CoreRecover.thy ===== *)
theory CoreRecover
  imports CoreInputs
begin

text \<open>
  A new core and its recovery at boot: \<open>NewCore\<close>, \<open>Recover\<close>, \<open>recoverCycles\<close>, \<open>seedTrades\<close>
  (\<open>core.go\<close>) and \<open>recoverTrail\<close> (\<open>trailing.go\<close>). What the store and the brokers answer is the
  record \<open>boot\<close>: the decoded events of the log, the histories the closed orders are rebuilt from,
  the snapshots, the cycle checkpoint and fills. Each answer may be an error, as in the code.
\<close>

section \<open>A new core\<close>

record core_config =
  cg_venues :: "venue_id list"
  cg_gate :: gate_config
  cg_brokers :: "(venue_id, capabilities) gomap"
  cg_startingBalance :: "(venue_id, f64) gomap"
  cg_activeVenue :: venue_id
  cg_liveIdentity :: "(venue_id, string) gomap"
  cg_liveAck :: "(venue_id, string) gomap"
  cg_liveLITAck :: "(venue_id, string) gomap"

definition boot_state :: "core_config \<Rightarrow> exec_state" where
  "boot_state cfg = SetActiveVenue (cg_activeVenue cfg)
     (foldl (\<lambda>s v. SetAccountFresh v True s) (NewState (cg_venues cfg)) (map fst (gc_accountRequired (cg_gate cfg))))"

definition NewCore :: "tz \<Rightarrow> outside \<Rightarrow> core_config \<Rightarrow> core" where
  "NewCore off os cfg = \<lparr>cr_tz = off, cr_outside = os, cr_turn = 0, cr_trace = [], cr_stuck = False,
     cr_venues = cg_venues cfg, cr_gate = cg_gate cfg, cr_brokers = cg_brokers cfg,
     cr_startingBalance = cg_startingBalance cfg, cr_state = boot_state cfg,
     cr_marks = [], cr_trades = NewRoundTripAggregator, cr_positionOpens = NewRoundTripAggregator,
     cr_cycles = newCycleProjection, cr_closed = newClosedOrders, cr_heldDemand = None, cr_printHealthy = False,
     cr_lastPrintGapMs = 0, cr_lastPrintSeq = [], cr_lastPrintDay = [], cr_lastEligible = [],
     cr_protectionPrices = [], cr_protectionPending = [], cr_protectionBooks = [], cr_trailBooks = [],
     cr_trailCycles = [], cr_trailCandles = [], cr_trailBookGeneration = 0,
     cr_heldLiveIdentity = cg_liveIdentity cfg, cr_heldLiveAck = cg_liveAck cfg, cr_heldLiveLITAck = cg_liveLITAck cfg,
     cr_shutdownHeld = shutdown0, cr_positionExecIDs = [], cr_protectionChecks = [], cr_protectionRevision = [],
     cr_trailPositionChecks = []\<rparr>"

section \<open>What boot reads\<close>

type_synonym decoded = "string + event"

record boot =
  bt_log :: "string + decoded list"
  bt_history :: "string + (decoded \<times> int) list"
  bt_histories :: "(string list \<Rightarrow> string + decoded list) option"
  bt_snapshot :: "venue_id \<Rightarrow> string + (account_snapshot \<times> exec_position list \<times> exec_order list)"
  bt_checkpoint :: "(venue_id \<Rightarrow> string + cycle_checkpoint option) option"
  bt_venueFills :: "venue_id \<Rightarrow> string + fill_row list"
  bt_fills :: "string + fill_row list"

section \<open>Loops that may return an error\<close>

definition each_order_err :: "(venue_id \<Rightarrow> exec_order \<Rightarrow> string option exec) \<Rightarrow> string option exec" where
  "each_order_err f = do {
     vs \<leftarrow> gets (\<lambda>c. map fst (st_venues (st c)));
     vs \<leftarrow> range_keys vs;
     each_err vs (\<lambda>v. each_order_of_err v (f v))
   }"

section \<open>Replay\<close>

definition replay_one :: "event \<Rightarrow> core \<Rightarrow> core" where
  "replay_one ev c =
     (let c = c\<lparr>cr_state := Apply (cr_state c) ev\<rparr> in
      case ev of OrderFilled f _ _ _ execID \<Rightarrow> if execID \<noteq> '''' then mark_exec (f_venue f) execID c else c | _ \<Rightarrow> c)"

definition replay_log :: "decoded list \<Rightarrow> string option exec" where
  "replay_log evs = each_err evs (\<lambda>d. case d of
     Inl err \<Rightarrow> return (Some err) | Inr ev \<Rightarrow> do { modify (replay_one ev); return None })"

text \<open>An action requested before the restart is unknown now.\<close>

definition restarted :: "order_action \<Rightarrow> order_action" where
  "restarted a = (if a_phase a = ActionRequested
     then a\<lparr>a_phase := ActionUnknown, a_reason := ''engine restarted before venue confirmation''\<rparr> else a)"

definition unsettle_actions :: "string option exec" where
  "unsettle_actions = each_order_err (\<lambda>v o1. case o_action o1 of
     None \<Rightarrow> return None
   | Some a \<Rightarrow> if \<not> Working o1 \<or> a_phase a \<noteq> ActionRequested then return None
       else do {
         ts \<leftarrow> gets now;
         appendAndFold (OrderActionChanged v (o_id o1) (restarted a) ts) SrcReconcile
       })"

definition replay_closed :: "(decoded \<times> int) list \<Rightarrow> string option exec" where
  "replay_closed evs = each_err evs (\<lambda>(d, seq). case d of
     Inl err \<Rightarrow> return (Some err) | Inr ev \<Rightarrow> do { modify (closed_event ev seq); return None })"

section \<open>Venue snapshots\<close>

text \<open>The accumulators: the orders the broker knows, and those that are not the core's.\<close>

definition recover_order :: "venue_id \<Rightarrow> exec_order list \<Rightarrow> exec_order \<Rightarrow> exec_order list exec" where
  "recover_order v external o0 = do {
     let o1 = o0\<lparr>o_venue := v\<rparr>;
     known \<leftarrow> gets (\<lambda>c. known_order c (o_id o1));
     if known then do {
       upd (ReconcileOpenOrders v [o1]);
       modify (adopt_closed [o1]);
       return external
     }
     else if isEngineOrderID (o_id o1)
     then do {
       err \<leftarrow> appendAndFold (OrderSubmitted o1) SrcReconcile;
       return (if err = None then external else external @ [o1])
     }
     else return (external @ [o1])
   }"

definition recover_venue :: "boot \<Rightarrow> venue_id \<Rightarrow> string option exec" where
  "recover_venue bt v = do {
     b \<leftarrow> gets (\<lambda>c. has_broker c v);
     if \<not> b then return None
     else case bt_snapshot bt v of
       Inl err \<Rightarrow> return None
     | Inr (acct, ps, orders) \<Rightarrow> do {
         upd (ReconcileAccount acct);
         modify (reconcile_opens v ps);
         upd (ReconcilePositions v ps);
         upd (SetPositionsReady v True);
         external \<leftarrow> each_acc orders [] (recover_order v);
         upd (ReconcileExternalOpenOrders v external);
         or_return (confirmFlatRiskEntries v '''') (do { maybeClearFlattenPending v; return None })
       }
   }"

text \<open>The orders the brokers reported.\<close>

definition found_orders :: "core \<Rightarrow> boot \<Rightarrow> string list" where
  "found_orders c bt = concat (map (\<lambda>v. if has_broker c v
     then (case bt_snapshot bt v of Inl err \<Rightarrow> [] | Inr (acct, ps, orders) \<Rightarrow> map o_id orders) else []) (cr_venues c))"

section \<open>Actions from the history\<close>

definition same_action :: "order_action \<Rightarrow> order_action \<Rightarrow> bool" where
  "same_action a b \<longleftrightarrow> a_kind a = a_kind b \<and> a_phase a = a_phase b \<and> feq (a_previousLimitPrice a) (a_previousLimitPrice b) \<and>
     feq (a_previousStopPrice a) (a_previousStopPrice b) \<and> feq (a_requestedLimitPrice a) (a_requestedLimitPrice b) \<and>
     feq (a_requestedStopPrice a) (a_requestedStopPrice b) \<and> feq (a_requestedQty a) (a_requestedQty b) \<and>
     a_reason a = a_reason b"

primrec last_actions :: "decoded list \<Rightarrow> (string, order_action) gomap \<Rightarrow> string + (string, order_action) gomap" where
  "last_actions [] m = Inr m"
| "last_actions (d # ds) m = (case d of
     Inl err \<Rightarrow> Inl err
   | Inr ev \<Rightarrow> last_actions ds (case ev of OrderActionChanged v i a ts \<Rightarrow> mput i a m | _ \<Rightarrow> m))"

definition working_ids :: "core \<Rightarrow> string list" where
  "working_ids c = sort (concat (map (\<lambda>(_, vs). map fst (filter (\<lambda>(_, o1). Working o1) (vs_orders vs))) (st_venues (st c))))"

definition restore_action :: "(string, order_action) gomap \<Rightarrow> string \<Rightarrow> string option exec" where
  "restore_action actions i = do {
     venue \<leftarrow> gets (\<lambda>c. OrderVenue (st c) i);
     current \<leftarrow> gets (\<lambda>c. the_order c i);
     ts \<leftarrow> gets now;
     case (venue, mget actions i) of
       (Some v, Some a) \<Rightarrow>
         if (case o_action current of None \<Rightarrow> True | Some b \<Rightarrow> \<not> same_action b (restarted a))
         then appendAndFold (OrderActionChanged v i (restarted a) ts) SrcReconcile
         else return None
     | _ \<Rightarrow> return None
   }"

definition restore_actions :: "boot \<Rightarrow> string option exec" where
  "restore_actions bt = (case bt_histories bt of
     None \<Rightarrow> return None
   | Some read \<Rightarrow> do {
       ids \<leftarrow> gets working_ids;
       case read ids of
         Inl err \<Rightarrow> return (Some err)
       | Inr ds \<Rightarrow> (case last_actions ds [] of
           Inl err \<Rightarrow> return (Some err)
         | Inr actions \<Rightarrow> each_err ids (restore_action actions))
     })"

section \<open>Held orders\<close>

definition recoverTrail :: "calls \<Rightarrow> exec_order \<Rightarrow> bool \<Rightarrow> unit exec" where
  "recoverTrail K o1 found = (case trail_of o1 of
     None \<Rightarrow> return ()
   | Some t \<Rightarrow>
       if h_childClientID (held_of o1) = '''' then retireTrail K o1 ''prior engine run expired''
       else do {
         err \<leftarrow> saveTrail o1 (t\<lparr>t_retired := True\<rparr>) (if found then HeldWorking else HeldUnknown)
           ''prior engine run; reconcile child cancellation'';
         current \<leftarrow> gets (\<lambda>c. the_order c (o_id o1));
         ts \<leftarrow> gets now;
         if err \<noteq> None then return ()
         else if found then requestHeldVenueCancel current ''prior engine run expired''
         else append_quiet (OrderActionChanged (o_venue current) (o_id current)
           (action0\<lparr>a_kind := ActionCancel, a_phase := ActionUnknown, a_reason := ''prior engine run; broker child outcome unknown''\<rparr>)
           ts) SrcReconcile
       })"

text \<open>The held state a restart leaves; \<open>None\<close> where it stays as it was.\<close>

definition recovered_held :: "held_order \<Rightarrow> bool \<Rightarrow> held_order option" where
  "recovered_held h found =
     (if h_phase h = HeldWaiting \<or> h_phase h = HeldArmed
      then Some (h\<lparr>h_phase := HeldPaused, h_pausedReason := ''engine restarted; resume manually''\<rparr>)
      else if h_phase h = HeldActivating
      then if found then Some (h\<lparr>h_phase := HeldWorking, h_pausedReason := ''''\<rparr>)
           else Some (h\<lparr>h_phase := HeldUnknown, h_pausedReason := ''restart during activation; reconcile manually, no repost''\<rparr>)
      else if h_phase h = HeldCancelRequested
      then if found then Some (h\<lparr>h_cancelRequested := True, h_cancelSent := True, h_pausedReason := ''cancel resubmitted for reconciliation''\<rparr>)
           else Some (h\<lparr>h_cancelRequested := True, h_phase := HeldUnknown, h_pausedReason := ''cancel outcome unknown after restart''\<rparr>)
      else None)"

definition recover_held :: "calls \<Rightarrow> string list \<Rightarrow> string \<Rightarrow> unit exec" where
  "recover_held K found i = do {
     o1 \<leftarrow> gets (\<lambda>c. the_order c i);
     ts \<leftarrow> gets now;
     if o_held o1 = None then return ()
     else if trail_of o1 \<noteq> None then recoverTrail K o1 (i \<in> set found)
     else case recovered_held (held_of o1) (i \<in> set found) of
       None \<Rightarrow> return ()
     | Some h \<Rightarrow> do {
         append_quiet (HeldOrderChanged (o_venue o1) (o_id o1) h ts) SrcReconcile;
         whenM (h_phase h = HeldCancelRequested \<and> i \<in> set found) (cancel_child (o_venue o1) i)
       }
   }"

text \<open>Unknown actions of orders the broker reported.\<close>

definition close_price :: "f64 \<Rightarrow> f64 \<Rightarrow> bool" where
  "close_price actual wanted \<longleftrightarrow> feq wanted 0 \<or> \<bar>actual - wanted\<bar> < fconst (1 / 100000000)"

definition replace_matches :: "exec_order \<Rightarrow> order_action \<Rightarrow> bool" where
  "replace_matches o1 a \<longleftrightarrow> close_price (o_limitPrice o1) (a_requestedLimitPrice a) \<and>
     close_price (o_stopPrice o1) (a_requestedStopPrice a) \<and> close_price (o_qty o1) (a_requestedQty a)"

definition recover_action :: "string list \<Rightarrow> exec_order \<Rightarrow> unit exec" where
  "recover_action found o1 = do {
     ts \<leftarrow> gets now;
     case o_action o1 of
       None \<Rightarrow> return ()
     | Some a \<Rightarrow>
         let confirm = append_quiet (OrderActionChanged (o_venue o1) (o_id o1) (a\<lparr>a_phase := ActionConfirmed, a_reason := ''''\<rparr>) ts) SrcReconcile
         in if \<not> Working o1 \<or> o_id o1 \<notin> set found \<or> a_phase a \<noteq> ActionUnknown then return ()
            else if a_kind a = ActionSubmit then confirm
            else if a_kind a = ActionCancel then whenM (o_held o1 = None) (cancel_child (o_venue o1) (o_id o1))
            else whenM (a_kind a = ActionReplace \<and> replace_matches o1 a) confirm
   }"

section \<open>Projections\<close>

definition fill_of_row :: "venue_id \<Rightarrow> fill_row \<Rightarrow> exec_fill option" where
  "fill_of_row v r = (case sideFromString (fr_side r) of (side, ok) \<Rightarrow>
     if ok then Some \<lparr>f_venue = v, f_orderID = fr_orderID r, f_symbol = fr_symbol r, f_side = side, f_qty = fr_qty r,
        f_price = fr_price r, f_tsMs = fr_tsMs r\<rparr> else None)"

definition set_cycles :: "(cycle_projection \<Rightarrow> cycle_projection) \<Rightarrow> core \<Rightarrow> core" where
  "set_cycles f c = c\<lparr>cr_cycles := f (cr_cycles c)\<rparr>"

definition recover_cycle :: "boot \<Rightarrow> int \<Rightarrow> venue_id \<Rightarrow> unit exec" where
  "recover_cycle bt start_ms v = do {
     vs \<leftarrow> touch v;
     let fresh_cycle = modify (set_cycles (cycle_bootstrap v start_ms (map snd (vs_positions vs))));
     case bt_checkpoint bt of
       None \<Rightarrow> fresh_cycle
     | Some load \<Rightarrow> (case load v of
         Inr (Some cp) \<Rightarrow>
           if cc_startMs cp \<noteq> start_ms then fresh_cycle
           else do {
             modify (set_cycles (cycle_restore cp));
             case bt_venueFills bt v of
               Inl err \<Rightarrow> return ()
             | Inr rows \<Rightarrow> modify (set_cycles (\<lambda>p. foldl cycle_applyFill p (List.map_filter (fill_of_row v) rows)))
           }
       | _ \<Rightarrow> fresh_cycle)
   }"

definition recoverCycles :: "boot \<Rightarrow> unit exec" where
  "recoverCycles bt = do {
     start_ms \<leftarrow> gets (\<lambda>c. TradingCycleStart (cr_tz c) (now c));
     vs \<leftarrow> gets cr_venues;
     each vs (recover_cycle bt start_ms)
   }"

definition seedTrades :: "boot \<Rightarrow> unit exec" where
  "seedTrades bt = (case bt_fills bt of
     Inl err \<Rightarrow> return ()
   | Inr rows \<Rightarrow> do {
       let fills = List.map_filter (\<lambda>r. fill_of_row (fr_venue r) r) rows;
       modify (\<lambda>c. c\<lparr>cr_positionOpens := rebuildOpenPositions
         (concat (map (\<lambda>v. map snd (vs_positions (venue_at (st c) v))) (cr_venues c))) fills (cr_positionOpens c),
         cr_trades := foldl Trip_fill (cr_trades c) fills\<rparr>)
     })"

section \<open>Recover\<close>

definition verified_checks :: "core \<Rightarrow> core" where
  "verified_checks c = foldl (\<lambda>c v. if PositionsReady (st c) v
     then c\<lparr>cr_protectionChecks := mput v \<lparr>pc_inFlight = False, pc_verified = True, pc_failed = False,
            pc_revision = mget0 0 (cr_protectionRevision c) v, pc_nextMs = now c + protectionCheckInterval\<rparr> (cr_protectionChecks c)\<rparr>
     else c) c (cr_venues c)"

definition recover_rest :: "calls \<Rightarrow> boot \<Rightarrow> unit exec" where
  "recover_rest K bt = do {
     found \<leftarrow> gets (\<lambda>c. found_orders c bt);
     ids \<leftarrow> gets heldOrderIDs;
     each ids (recover_held K found);
     each_order (recover_action found);
     syncRiskVenue K '''';
     modify verified_checks;
     refreshProtectionWarnings;
     recoverCycles bt;
     seedTrades bt
   }"

definition Recover :: "calls \<Rightarrow> boot \<Rightarrow> string option exec" where
  "Recover K bt = do {
     modify (\<lambda>c. c\<lparr>cr_closed := newClosedOrders\<rparr>);
     case bt_log bt of
       Inl err \<Rightarrow> return (Some err)
     | Inr evs \<Rightarrow> or_return (replay_log evs) (or_return unsettle_actions (
         case bt_history bt of
           Inl err \<Rightarrow> return (Some err)
         | Inr hist \<Rightarrow> or_return (replay_closed hist) (do {
             modify (\<lambda>c. c\<lparr>cr_closed := seedState (cr_state c) (cr_closed c)\<rparr>);
             venues \<leftarrow> gets cr_venues;
             or_return (each_err venues (recover_venue bt)) (or_return (restore_actions bt) (do {
               recover_rest K bt;
               return None
             }))
           })))
   }"

section \<open>A life\<close>

text \<open>One run of the engine: recovery, whatever its result, a turn per input, then possibly the shutdown,
  which \<open>Run\<close> reaches at the start of a turn, after the evidence that is due.\<close>

definition run_turns :: "calls \<Rightarrow> input list \<Rightarrow> unit exec" where
  "run_turns K is = each is (turn K)"

definition life :: "calls \<Rightarrow> boot \<Rightarrow> input list \<Rightarrow> bool \<Rightarrow> unit exec" where
  "life K bt is stop = do {
     _ \<leftarrow> Recover K bt;
     run_turns K is;
     whenM stop (do { _ \<leftarrow> protectionDeadline K; shutdownHeldOrders K })
   }"

end
