(* ===== verification/CoreLaw.thy ===== *)
theory CoreLaw
  imports CoreRecover
begin

text \<open>
  What the core's handlers have in common, as interfaces: \<open>quiet_law I\<close> says the invariant \<open>I\<close>
  survives what every handler is made of, logging an event, a change of state that is not logged,
  starting an effect that posts no order, and \<open>twins\<close> runs of the handlers keep it; \<open>post_law\<close> adds
  the POSTs, \<open>boot_law\<close> that no print has been trusted yet. Every handler is proved once, against an
  abstract invariant and at any recursion depth.
\<close>

section \<open>State changes that are not logged\<close>

inductive unlogged :: "(exec_state \<Rightarrow> exec_state) \<Rightarrow> bool" where
  un_touch: "unlogged (\<lambda>s. snd (Venue s v))"
| un_account: "unlogged (ReconcileAccount a)"
| un_positions: "unlogged (ReconcilePositions v ps)"
| un_position: "unlogged (ReconcilePosition p)"
| un_ready: "unlogged (SetPositionsReady v ready)"
| un_open: "unlogged (ReconcileOpenOrders v orders)"
| un_external: "unlogged (ReconcileExternalOpenOrders v orders)"
| un_one: "unlogged (SetExternalOrder v o1 working)"
| un_disarmed: "unlogged (SetMasterArmed False)"
| un_active: "unlogged (SetActiveVenue v)"
| un_fresh: "unlogged (SetAccountFresh v fresh)"
| un_move: "unlogged (move_position e)"
| un_replay: "unlogged (\<lambda>s. Apply s ev)"

section \<open>Intents\<close>

text \<open>The events already in the log that an effect at a venue needs.\<close>

fun backed :: "effect \<Rightarrow> effect list \<Rightarrow> bool" where
  "backed (PostedOrder req guarded) tr = (\<exists>ts. Logged (OrderSubmitted (native_order req ts guarded)) SrcLocal \<in> set tr)"
| "backed (PostedChild req) tr = (\<exists>h ts. Logged (HeldOrderChanged (r_venue req) (r_clientOrderID req) h ts) SrcLocal \<in> set tr \<and>
     h_phase h = HeldActivating \<and> h_childClientID h = r_clientOrderID req)"
| "backed (SentReplace v i rr) tr = (\<exists>o1 ts. Logged (OrderActionChanged v i (replace_action o1 rr) ts) SrcLocal \<in> set tr)"
| "backed (SentFlatten v) tr = (\<exists>ts. Logged (FlattenPendingChanged v True ts) SrcLocal \<in> set tr)"
| "backed _ tr = True"

fun posts :: "effect \<Rightarrow> bool" where
  "posts (PostedOrder req guarded) = True"
| "posts (PostedChild req) = True"
| "posts _ = False"

fun logs :: "effect \<Rightarrow> bool" where
  "logs (Logged ev src) = True"
| "logs _ = False"

section \<open>Changes that touch neither log nor state\<close>

definition framed :: "(core \<Rightarrow> core) \<Rightarrow> bool" where
  "framed f \<longleftrightarrow> (\<forall>c. cr_trace (f c) = cr_trace c \<and> cr_state (f c) = cr_state c \<and>
     cr_outside (f c) = cr_outside c \<and> (cr_printHealthy (f c) \<longrightarrow> cr_printHealthy c) \<and> (cr_stuck c \<longrightarrow> cr_stuck (f c)))"

lemma framed_verified: "framed verified_checks"
proof -
  have "framed (\<lambda>c. foldl (\<lambda>c v. if PositionsReady (st c) v
     then c\<lparr>cr_protectionChecks := mput v \<lparr>pc_inFlight = False, pc_verified = True, pc_failed = False,
            pc_revision = mget0 0 (cr_protectionRevision c) v, pc_nextMs = now c + protectionCheckInterval\<rparr> (cr_protectionChecks c)\<rparr>
     else c) c vs)" for vs
    by (induction vs rule: rev_induct) (auto simp: framed_def)
  then show ?thesis by (simp add: framed_def verified_checks_def)
qed

lemmas framed_defs = framed_def next_turn_def mark_exec_def project_fill_def bump_revision_def closed_event_def
  forget_order_def forget_prices_def drop_cycle_def put_cycle_def put_pending_def drop_pending_def put_check_def drop_check_def
  change_check_def reconcile_opens_def adopt_closed_def clear_evidence_def enter_day_def store_print_def
  expire_candidates_def set_cycles_def put_ack_def put_lit_ack_def

lemma framed_store_book: "framed (store_book b)"
  by (simp add: framed_def store_book_def split: prod.splits)

definition kept :: "(core \<Rightarrow> bool) \<Rightarrow> calls \<Rightarrow> calls \<Rightarrow> bool" where
  "kept I K K' \<longleftrightarrow> (\<forall>v i. twins cr_stuck I (k_cancel K v i) (k_cancel K' v i)) \<and>
     (\<forall>entry reconciling. twins cr_stuck I (k_sync K entry reconciling) (k_sync K' entry reconciling))"

lemma kept_cancel [twin_rules]: "kept I K K' \<Longrightarrow> twins cr_stuck I (k_cancel K v i) (k_cancel K' v i)"
  by (simp add: kept_def)

lemma kept_sync [twin_rules]: "kept I K K' \<Longrightarrow> twins cr_stuck I (k_sync K entry r) (k_sync K' entry r)"
  by (simp add: kept_def)

definition synced :: "(core \<Rightarrow> bool) \<Rightarrow> calls \<Rightarrow> calls \<Rightarrow> bool" where
  "synced I K K' \<longleftrightarrow> (\<forall>entry reconciling. twins cr_stuck I (syncRiskProtection K entry reconciling) (syncRiskProtection K' entry reconciling))"

lemma twins_synced [twin_rules]: "synced I K K' \<Longrightarrow> twins cr_stuck I (syncRiskProtection K entry r) (syncRiskProtection K' entry r)"
  by (simp add: synced_def)

text \<open>The store takes an event at some time; every logged event needs that.\<close>

definition appends :: "core \<Rightarrow> bool" where
  "appends c \<longleftrightarrow> (\<exists>k seq. os_append (cr_outside c) k = Inr seq)"

section \<open>Handlers that post nothing\<close>

locale quiet_law =
  fixes I :: "core \<Rightarrow> bool"
  assumes frame: "I c \<Longrightarrow> cr_trace c' = cr_trace c \<Longrightarrow> cr_state c' = cr_state c \<Longrightarrow> cr_outside c' = cr_outside c \<Longrightarrow>
      (cr_printHealthy c' \<Longrightarrow> cr_printHealthy c) \<Longrightarrow> I c'"
    and logged: "I c \<Longrightarrow> appends c \<Longrightarrow> I (fold_event ev src c)"
    and changed: "I c \<Longrightarrow> unlogged f \<Longrightarrow> I (c\<lparr>cr_state := f (cr_state c)\<rparr>)"
    and started: "I c \<Longrightarrow> \<not> posts e \<Longrightarrow> \<not> logs e \<Longrightarrow> backed e (cr_trace c) \<Longrightarrow> I (effect e c)"
begin

lemma k_modify:
  "(\<And>c. I c \<Longrightarrow> I (f c)) \<Longrightarrow> (\<And>c. cr_stuck c \<Longrightarrow> cr_stuck (f c)) \<Longrightarrow> twins cr_stuck I (modify f) (modify f)"
  unfolding twins_def by (rule twinI) auto

lemma k_framed [twin_rules]: "framed f \<Longrightarrow> twins cr_stuck I (modify f) (modify f)"
  by (rule k_modify) (auto simp: framed_def elim: frame)

lemma k_upd [twin_rules]: "unlogged f \<Longrightarrow> twins cr_stuck I (upd f) (upd f)"
  unfolding upd_def by (rule k_modify) (auto intro: changed)

lemma k_start: "\<not> posts e \<Longrightarrow> \<not> logs e \<Longrightarrow> (\<And>tr. backed e tr) \<Longrightarrow> twins cr_stuck I (start e) (start e)"
  unfolding start_def by (rule k_modify) (erule (2) started, simp, simp add: effect_def)

lemma k_ask [twin_rules]: "twins cr_stuck I (ask f) (ask f)"
  unfolding ask_def by (intro twin_rules) (simp add: framed_defs)

lemma k_next_id [twin_rules]: "twins cr_stuck I next_id next_id"
  unfolding next_id_def by (rule k_ask)

lemma k_range [twin_rules]: "twins cr_stuck I (range_keys ks) (range_keys ks)"
  unfolding range_keys_def by (intro twin_rules)

lemma k_touch [twin_rules]: "twins cr_stuck I (touch v) (touch v)"
  unfolding touch_def by (intro twin_rules unlogged.intros)

lemma k_effect [twin_rules]: "twins cr_stuck I (applyPositionEffect e) (applyPositionEffect e)"
  unfolding applyPositionEffect_def by (intro twin_rules unlogged.intros; simp add: framed_defs)

lemma k_fill [twin_rules]: "twins cr_stuck I (applyPositionFill f q i p h) (applyPositionFill f q i p h)"
  unfolding applyPositionFill_def by (intro twin_rules; simp add: framed_defs)

lemma k_project [twin_rules]: "twins cr_stuck I (emitForEvent ev) (emitForEvent ev)"
  unfolding emitForEvent_def by (cases ev; simp; intro twin_rules; simp add: framed_defs)

lemma k_fill_positions [twin_rules]: "twins cr_stuck I (fill_positions ev p h) (fill_positions ev p h)"
  unfolding fill_positions_def by (cases ev; simp; intro twin_rules)

text \<open>An answer of the store was one it could give, and the fold that follows relies on that.\<close>

lemma k_ask_append:
  "twin cr_stuck I (ask os_append) (ask os_append) (\<lambda>r c. I c \<and> (case r of Inl w \<Rightarrow> True | Inr seq \<Rightarrow> appends c))"
proof (rule twinI)
  fix c r c'
  assume I: "I c" and run: "run_state (ask os_append) c = (r, c')"
  then have c': "c' = next_turn c" "r = os_append (cr_outside c) (cr_turn c)" by (simp_all add: ask_def)
  have "I c'" by (rule frame [OF I]) (simp_all add: c' next_turn_def)
  moreover have "case r of Inl w \<Rightarrow> True | Inr seq \<Rightarrow> appends c'"
    using c' by (auto simp: appends_def next_turn_def split: sum.split)
  ultimately show "(I c' \<and> (case r of Inl w \<Rightarrow> True | Inr seq \<Rightarrow> appends c')) \<and> (cr_stuck c \<longrightarrow> cr_stuck c') \<and>
      (\<not> cr_stuck c' \<longrightarrow> run_state (ask os_append) c = (r, c'))"
    using run c' by (simp add: next_turn_def)
qed

lemma k_fold:
  "twin cr_stuck (\<lambda>c. I c \<and> appends c) (modify (fold_event ev src)) (modify (fold_event ev src))
     (\<lambda>_ c. I c \<and> Logged ev src \<in> set (cr_trace c))"
  by (rule twinI) (use logged in \<open>force simp: fold_event_def\<close>)

text \<open>The law also holds for the invariant together with an event known to be in the log.\<close>

lemma with_log: "quiet_law (\<lambda>c. I c \<and> L \<in> set (cr_trace c))"
  by unfold_locales (auto intro: frame logged changed started simp: fold_event_def effect_def)

lemma k_rest:
  "twins cr_stuck (\<lambda>c. I c \<and> L \<in> set (cr_trace c))
     (do { modify (bump_revision v); fill_positions ev p h; modify (closed_event ev seq); emitForEvent ev; return r })
     (do { modify (bump_revision v); fill_positions ev p h; modify (closed_event ev seq); emitForEvent ev; return r })"
  by (intro twin_rules quiet_law.k_framed [OF with_log] quiet_law.k_fill_positions [OF with_log]
      quiet_law.k_project [OF with_log]; simp add: framed_defs)

text \<open>After an append that went well the event is in the log.\<close>

lemma k_append_logged: "twin cr_stuck I (appendAndFold ev src) (appendAndFold ev src)
  (\<lambda>r c. I c \<and> (r = None \<longrightarrow> Logged ev src \<in> set (cr_trace c)))"
proof -
  let ?Q = "\<lambda>r c. I c \<and> (r = None \<longrightarrow> Logged ev src \<in> set (cr_trace c))"
  let ?A = "\<lambda>c. I c \<and> appends c"
  have rest: "twin cr_stuck ?A
      (do { modify (fold_event ev src); modify (bump_revision v); fill_positions ev p h; modify (closed_event ev seq);
            emitForEvent ev; return None })
      (do { modify (fold_event ev src); modify (bump_revision v); fill_positions ev p h; modify (closed_event ev seq);
            emitForEvent ev; return None }) ?Q" for v p h seq
    by (rule twin_bind [OF k_fold]) (rule twin_post [OF twins_twin [OF k_rest]], simp)
  have read: "twin cr_stuck ?A (gets g) (gets g) (\<lambda>_. ?A)" for g :: "core \<Rightarrow> 'b"
    by (rule twin_post [OF twin_gets]) simp
  have some: "twin cr_stuck I (return (Some w)) (return (Some w)) ?Q" for w
    by (rule twinI) auto
  show ?thesis
    unfolding appendAndFold_def
    by (rule twin_bind [OF k_ask_append]) (auto split: sum.split intro: some twin_bind [OF read] rest)
qed

lemma k_append [twin_rules]: "twins cr_stuck I (appendAndFold ev src) (appendAndFold ev src)"
  unfolding twins_def by (rule twin_post [OF k_append_logged]) simp

lemma k_quiet [twin_rules]: "twins cr_stuck I (append_quiet ev src) (append_quiet ev src)"
  unfolding append_quiet_def by (intro twin_rules)

lemma k_persistRisk [twin_rules]: "twins cr_stuck I (persistRisk e r) (persistRisk e r)"
  unfolding persistRisk_def by (intro twin_rules)

lemma k_changeHeld [twin_rules]: "twins cr_stuck I (changeHeld o1 p r b) (changeHeld o1 p r b)"
  unfolding changeHeld_def by (intro twin_rules)

lemma k_release_demand [twin_rules]: "twins cr_stuck I (start (ReleasedDemand i)) (start (ReleasedDemand i))"
  by (rule k_start) simp_all

lemma k_acquire_demand [twin_rules]: "twins cr_stuck I (start (AcquiredDemand i s)) (start (AcquiredDemand i s))"
  by (rule k_start) simp_all

lemma k_book_demand [twin_rules]: "twins cr_stuck I (start (EnsuredBook i s)) (start (EnsuredBook i s))"
  by (rule k_start) simp_all

lemma k_sent_cancel [twin_rules]: "twins cr_stuck I (start (SentCancel v i)) (start (SentCancel v i))"
  by (rule k_start) simp_all

lemma k_sent_reset [twin_rules]: "twins cr_stuck I (start (SentReset v q)) (start (SentReset v q))"
  by (rule k_start) simp_all

lemma k_asked_positions [twin_rules]: "twins cr_stuck I (start (AskedPositions v r)) (start (AskedPositions v r))"
  by (rule k_start) simp_all

lemma k_asked_protection [twin_rules]: "twins cr_stuck I (start (AskedProtection v r)) (start (AskedProtection v r))"
  by (rule k_start) simp_all

lemma k_checkpoint [twin_rules]: "twins cr_stuck I (start (SavedCheckpoint p)) (start (SavedCheckpoint p))"
  by (rule k_start) simp_all

lemma k_cancel_action [twin_rules]:
  "twins cr_stuck I (startVenueAction v i ActionCancel r) (startVenueAction v i ActionCancel r)"
  unfolding startVenueAction_def by (simp add: k_sent_cancel)

lemma k_releaseHeld [twin_rules]: "twins cr_stuck I (releaseHeld i) (releaseHeld i)"
  unfolding releaseHeld_def by (intro twin_rules; simp add: framed_defs)

lemma k_expireHeld [twin_rules]: "twins cr_stuck I (expireHeld o1) (expireHeld o1)"
  unfolding expireHeld_def by (intro twin_rules)

lemma k_requestCancel [twin_rules]: "twins cr_stuck I (requestHeldVenueCancel o1 r) (requestHeldVenueCancel o1 r)"
  unfolding requestHeldVenueCancel_def by (intro twin_rules)

lemma k_pauseVenue [twin_rules]: "twins cr_stuck I (pauseHeldVenue v r) (pauseHeldVenue v r)"
  unfolding pauseHeldVenue_def by (intro twin_rules)

lemma k_pauseReducing [twin_rules]: "twins cr_stuck I (pauseHeldReducingVenue v r) (pauseHeldReducingVenue v r)"
  unfolding pauseHeldReducingVenue_def by (intro twin_rules)

lemma k_saveTrail [twin_rules]: "twins cr_stuck I (saveTrail o1 t p r) (saveTrail o1 t p r)"
  unfolding saveTrail_def by (intro twin_rules)

lemma k_cycle [twin_rules]: "twins cr_stuck I (trailPositionCycle v s) (trailPositionCycle v s)"
  unfolding trailPositionCycle_def by (intro twin_rules; simp add: framed_defs)

lemma k_syncCycles [twin_rules]: "twins cr_stuck I syncTrailPositionCycles syncTrailPositionCycles"
  unfolding syncTrailPositionCycles_def by (intro twin_rules)

lemma k_price_accepted [twin_rules]: "twins cr_stuck I (price_accepted p) (price_accepted p)"
  unfolding price_accepted_def by (intro twin_rules; simp add: framed_defs)

lemma k_observe [twin_rules]: "twins cr_stuck I (observe_price p) (observe_price p)"
  unfolding observe_price_def by (intro twin_rules; simp add: framed_defs)

lemma k_requestBook [twin_rules]: "twins cr_stuck I (requestProtectionBook o1) (requestProtectionBook o1)"
  unfolding requestProtectionBook_def by (intro twin_rules; simp add: framed_defs)

lemma k_defer [twin_rules]: "twins cr_stuck I (deferProtection o1 p) (deferProtection o1 p)"
  unfolding deferProtection_def by (intro twin_rules; simp add: framed_defs)

lemma k_valid [twin_rules]: "twins cr_stuck I (validProtection o1 a) (validProtection o1 a)"
  unfolding validProtection_def by (intro twin_rules)

lemma k_ready [twin_rules]: "twins cr_stuck I (setPositionsReady v b) (setPositionsReady v b)"
  unfolding setPositionsReady_def by (intro twin_rules unlogged.intros)

lemma k_clearFlatten [twin_rules]: "twins cr_stuck I (maybeClearFlattenPending v) (maybeClearFlattenPending v)"
  unfolding maybeClearFlattenPending_def by (intro twin_rules)

lemma k_confirmSubmit [twin_rules]: "twins cr_stuck I (confirmSellSubmit v i) (confirmSellSubmit v i)"
  unfolding confirmSellSubmit_def by (intro twin_rules)

lemma k_cancelRiskBuys [twin_rules]: "kept I K K' \<Longrightarrow> twins cr_stuck I (cancelRiskBuys K o1 r) (cancelRiskBuys K' o1 r)"
  unfolding cancelRiskBuys_def by (intro twin_rules)

lemma k_failRisk [twin_rules]: "kept I K K' \<Longrightarrow> twins cr_stuck I (failRisk K o1 r) (failRisk K' o1 r)"
  unfolding failRisk_def by (intro twin_rules)

lemma k_beginExit [twin_rules]: "kept I K K' \<Longrightarrow> twins cr_stuck I (beginRiskExit K o1) (beginRiskExit K' o1)"
  unfolding beginRiskExit_def by (intro twin_rules)

lemma k_cancelProtection [twin_rules]:
  "kept I K K' \<Longrightarrow> twins cr_stuck I (cancelRiskProtection K o1) (cancelRiskProtection K' o1)"
  unfolding cancelRiskProtection_def by (intro twin_rules)

lemma k_retireTrail [twin_rules]: "kept I K K' \<Longrightarrow> twins cr_stuck I (retireTrail K o1 r) (retireTrail K' o1 r)"
  unfolding retireTrail_def by (intro twin_rules)

lemma k_rejectTrail [twin_rules]: "kept I K K' \<Longrightarrow> twins cr_stuck I (rejectTrail K o1 r) (rejectTrail K' o1 r)"
  unfolding rejectTrail_def by (intro twin_rules)

lemma k_reject_held [twin_rules]: "twins cr_stuck I (reject_held o1 r) (reject_held o1 r)"
  unfolding reject_held_def by (intro twin_rules)

lemma k_apply_adds [twin_rules]: "twins cr_stuck I (apply_adds cushion adds stop) (apply_adds cushion adds stop)"
proof (induction adds arbitrary: stop)
  case Nil
  show ?case by (simp add: twins_return)
next
  case (Cons add adds)
  show ?case unfolding apply_adds.simps by (intro twin_rules Cons)
qed

lemma k_applyStops [twin_rules]: "twins cr_stuck I (applyRiskAddStops o1 r s) (applyRiskAddStops o1 r s)"
  unfolding applyRiskAddStops_def by (intro twin_rules)

lemma k_demand [twin_rules]: "twins cr_stuck I (acquireHeldDemand o1) (acquireHeldDemand o1)"
  unfolding acquireHeldDemand_def by (intro twin_rules)

lemma k_cancel_held [twin_rules]: "kept I K K' \<Longrightarrow> twins cr_stuck I (cancel_held K o1) (cancel_held K' o1)"
  unfolding cancel_held_def by (intro twin_rules)

lemma k_cancel_order [twin_rules]: "kept I K K' \<Longrightarrow> twins cr_stuck I (cancel_order K o1) (cancel_order K' o1)"
  unfolding cancel_order_def by (intro twin_rules)

lemma k_cancel_linked [twin_rules]: "kept I K K' \<Longrightarrow> twins cr_stuck I (cancel_linked K o1) (cancel_linked K' o1)"
  unfolding cancel_linked_def by (intro twin_rules)

lemma k_handleCancel [twin_rules]: "kept I K K' \<Longrightarrow> twins cr_stuck I (handleCancel K v i) (handleCancel K' v i)"
  unfolding handleCancel_def by (intro twin_rules)

lemma k_stuck: "twins cr_stuck I stuck m"
proof -
  have "I (c\<lparr>cr_stuck := True\<rparr>)" if "I c" for c by (rule frame [OF that]) simp_all
  then show ?thesis unfolding twins_def stuck_def by (intro twinI) auto
qed

lemma k_bottom: "twins cr_stuck I (do { stuck; return a }) m"
proof -
  have "I (c\<lparr>cr_stuck := True\<rparr>)" if "I c" for c by (rule frame [OF that]) simp_all
  then show ?thesis unfolding twins_def stuck_def by (intro twinI) auto
qed

lemma kept_zero: "kept I (knot 0) K"
  by (simp add: kept_def k_stuck k_bottom)

lemma kept_Suc:
  "kept I K K' \<Longrightarrow> synced I K K' \<Longrightarrow>
    kept I \<lparr>k_cancel = handleCancel K, k_sync = syncRiskProtection K\<rparr> \<lparr>k_cancel = handleCancel K', k_sync = syncRiskProtection K'\<rparr>"
  by (simp add: kept_def k_handleCancel twins_synced)

lemma kept_induct:
  assumes "\<And>K K'. kept I K K' \<Longrightarrow> synced I K K'"
  shows "kept I (knot n) (knot (Suc n))"
  by (induction n) (auto simp del: knot.simps(1) intro: kept_zero kept_Suc assms)

lemma kept_left: "kept I K K' \<Longrightarrow> kept I K K"
  unfolding kept_def by (blast intro: twins_left)

lemma k_each_order_of [twin_rules]: "(\<And>o1. twins cr_stuck I (f o1) (f' o1)) \<Longrightarrow> twins cr_stuck I (each_order_of v f) (each_order_of v f')"
  unfolding each_order_of_def by (intro twin_rules)

lemma k_each_order [twin_rules]: "(\<And>o1. twins cr_stuck I (f o1) (f' o1)) \<Longrightarrow> twins cr_stuck I (each_order f) (each_order f')"
  unfolding each_order_def by (intro twin_rules)

lemma k_each_held [twin_rules]: "(\<And>o1. twins cr_stuck I (f o1) (f' o1)) \<Longrightarrow> twins cr_stuck I (each_held f) (each_held f')"
  unfolding each_held_def by (intro twin_rules)

lemma k_each_order_of_err [twin_rules]:
  "(\<And>o1. twins cr_stuck I (f o1) (f' o1)) \<Longrightarrow> twins cr_stuck I (each_order_of_err v f) (each_order_of_err v f')"
  unfolding each_order_of_err_def by (intro twin_rules)

lemma k_each_order_err [twin_rules]:
  "(\<And>v o1. twins cr_stuck I (f v o1) (f' v o1)) \<Longrightarrow> twins cr_stuck I (each_order_err f) (each_order_err f')"
  unfolding each_order_err_def by (intro twin_rules)

lemma k_disarmRisk [twin_rules]: "kept I K K' \<Longrightarrow> twins cr_stuck I (disarmRiskEntries K v b) (disarmRiskEntries K' v b)"
  unfolding disarmRiskEntries_def by (intro twin_rules)

lemma k_disarmHeld [twin_rules]: "kept I K K' \<Longrightarrow> twins cr_stuck I (disarmHeld K v b) (disarmHeld K' v b)"
  unfolding disarmHeld_def by (intro twin_rules)

lemma k_disarm [twin_rules]: "kept I K K' \<Longrightarrow> twins cr_stuck I (handleArm K False) (handleArm K' False)"
  unfolding handleArm_def by (intro twin_rules unlogged.intros)

lemma k_auto_disarm [twin_rules]: "kept I K K' \<Longrightarrow> twins cr_stuck I (auto_disarm K) (auto_disarm K')"
  unfolding auto_disarm_def by (intro twin_rules unlogged.intros)

lemma k_setActive [twin_rules]: "kept I K K' \<Longrightarrow> twins cr_stuck I (handleSetActiveVenue K v) (handleSetActiveVenue K' v)"
  unfolding handleSetActiveVenue_def by (intro twin_rules unlogged.intros)

lemma k_handleKill [twin_rules]: "kept I K K' \<Longrightarrow> twins cr_stuck I (handleKill K v) (handleKill K' v)"
  unfolding handleKill_def by (intro twin_rules unlogged.intros)

lemma k_block_order [twin_rules]: "twins cr_stuck I (block_order req r) (block_order req r)"
  unfolding block_order_def by (intro twin_rules)

lemma k_riskAdd [twin_rules]: "twins cr_stuck I (riskAddProtection v s) (riskAddProtection v s)"
  unfolding riskAddProtection_def by (intro twin_rules)

lemma k_release_pair [twin_rules]: "twins cr_stuck I (release_pair i j b) (release_pair i j b)"
  unfolding release_pair_def by (intro twin_rules)

lemma k_trail_demand [twin_rules]: "twins cr_stuck I (trail_demand d config i s) (trail_demand d config i s)"
  unfolding trail_demand_def by (intro twin_rules)

lemma k_checkTrails [twin_rules]: "kept I K K' \<Longrightarrow> twins cr_stuck I (checkTrailPositions K) (checkTrailPositions K')"
  unfolding checkTrailPositions_def by (intro twin_rules)

lemma k_reset [twin_rules]: "twins cr_stuck I (handleResetBalance v) (handleResetBalance v)"
  unfolding handleResetBalance_def by (intro twin_rules)

lemma k_attribution [twin_rules]: "twins cr_stuck I (trailAttributionReason v r) (trailAttributionReason v r)"
  unfolding trailAttributionReason_def by (intro twin_rules)

lemma k_startCheck [twin_rules]: "twins cr_stuck I (startTrailPositionCheck v) (startTrailPositionCheck v)"
  unfolding startTrailPositionCheck_def by (intro twin_rules; simp add: framed_defs)

lemma k_checkAbsolute [twin_rules]:
  "twins cr_stuck I (checkAbsoluteTrailAttribution be earlier) (checkAbsoluteTrailAttribution be earlier)"
  unfolding checkAbsoluteTrailAttribution_def by (intro twin_rules; simp add: framed_defs)

lemma k_confirmFlat [twin_rules]: "twins cr_stuck I (confirmFlatRiskEntries v s) (confirmFlatRiskEntries v s)"
  unfolding confirmFlatRiskEntries_def by (intro twin_rules)

lemma k_startProtection [twin_rules]: "twins cr_stuck I (startProtectionCheck v) (startProtectionCheck v)"
  unfolding startProtectionCheck_def by (intro twin_rules; simp add: framed_defs)

lemma k_refresh [twin_rules]: "twins cr_stuck I refreshProtectionWarnings refreshProtectionWarnings"
  unfolding refreshProtectionWarnings_def by (intro twin_rules; simp add: framed_defs)

lemma k_unready [twin_rules]: "twins cr_stuck I (unready_venue v r) (unready_venue v r)"
  unfolding unready_venue_def by (intro twin_rules)

lemma k_bump [twin_rules]: "twins cr_stuck I (bump v) (bump v)"
  unfolding bump_def by (intro twin_rules; simp add: framed_defs)

lemma k_cancel_child [twin_rules]: "twins cr_stuck I (cancel_child v i) (cancel_child v i)"
  unfolding cancel_child_def by (intro twin_rules)

lemma k_outcomes [twin_rules]:
  "twins cr_stuck I (activation_outcome v i r) (activation_outcome v i r)"
  "twins cr_stuck I (action_outcome v i k r) (action_outcome v i k r)"
  "twins cr_stuck I (submit_outcome v i b r) (submit_outcome v i b r)"
  unfolding activation_outcome_def action_outcome_def submit_outcome_def by (intro twin_rules)+

lemma k_child_accepted [twin_rules]: "twins cr_stuck I (child_accepted o1 i) (child_accepted o1 i)"
  unfolding child_accepted_def by (intro twin_rules)

lemma k_lifecycle_held [twin_rules]: "twins cr_stuck I (lifecycle_held e o1) (lifecycle_held e o1)"
  unfolding lifecycle_held_def by (cases e; simp; intro twin_rules)

lemma k_lifecycle [twin_rules]: "twins cr_stuck I (lifecycle e) (lifecycle e)"
  unfolding lifecycle_def by (intro twin_rules)

lemma k_broker_account [twin_rules]: "kept I K K' \<Longrightarrow> twins cr_stuck I (broker_account K a) (broker_account K' a)"
  unfolding broker_account_def by (intro twin_rules unlogged.intros)

lemma k_account_fresh [twin_rules]: "kept I K K' \<Longrightarrow> twins cr_stuck I (account_fresh K v b) (account_fresh K' v b)"
  unfolding account_fresh_def by (intro twin_rules unlogged.intros)

lemma k_positions [twin_rules]: "twins cr_stuck I (broker_positions v ps) (broker_positions v ps)"
  unfolding broker_positions_def by (intro twin_rules unlogged.intros; simp add: framed_defs)

lemma k_position [twin_rules]: "twins cr_stuck I (broker_position p) (broker_position p)"
  unfolding broker_position_def by (intro twin_rules unlogged.intros)

lemma k_broker_effect [twin_rules]: "twins cr_stuck I (broker_effect e) (broker_effect e)"
  unfolding broker_effect_def by (intro twin_rules)

lemma k_external [twin_rules]: "twins cr_stuck I (external_order v o1 b) (external_order v o1 b)"
  unfolding external_order_def by (intro twin_rules unlogged.intros)

lemma k_adopt_one [twin_rules]: "twins cr_stuck I (adopt_one v acc o1) (adopt_one v acc o1)"
  unfolding adopt_one_def by (intro twin_rules)

lemma k_syncVenue [twin_rules]: "synced I K K' \<Longrightarrow> twins cr_stuck I (syncRiskVenue K v) (syncRiskVenue K' v)"
  unfolding syncRiskVenue_def by (intro twin_rules)

lemma k_conn_down [twin_rules]: "twins cr_stuck I (conn_down v) (conn_down v)"
  unfolding conn_down_def by (intro twin_rules; simp add: framed_defs)

lemma k_print_gap [twin_rules]: "twins cr_stuck I (print_gap p) (print_gap p)"
  unfolding print_gap_def by (intro twin_rules; simp add: framed_defs)

lemma k_observe_for [twin_rules]: "twins cr_stuck I (observe_for_protection p) (observe_for_protection p)"
  unfolding observe_for_protection_def by (intro twin_rules)

lemma k_expireHeldOrders [twin_rules]: "kept I K K' \<Longrightarrow> twins cr_stuck I (expireHeldOrders K) (expireHeldOrders K')"
  unfolding expireHeldOrders_def by (intro twin_rules)

lemma k_rollCycle [twin_rules]: "twins cr_stuck I rollCycle rollCycle"
  unfolding rollCycle_def by (intro twin_rules; simp add: framed_defs)

lemma k_feed_mark [twin_rules]: "twins cr_stuck I (feed_mark s p) (feed_mark s p)"
  unfolding feed_mark_def by (intro twin_rules; simp add: framed_defs)

lemma k_handleCandle [twin_rules]: "twins cr_stuck I (handleCandle b) (handleCandle b)"
  unfolding handleCandle_def by (intro twin_rules; simp add: framed_defs)

lemma k_shutdown_cancel [twin_rules]: "twins cr_stuck I (shutdown_cancel o1 i) (shutdown_cancel o1 i)"
  unfolding shutdown_cancel_def by (intro twin_rules)

lemma k_shutdown_working [twin_rules]: "twins cr_stuck I (shutdown_working s o1 i) (shutdown_working s o1 i)"
  unfolding shutdown_working_def by (intro twin_rules)

lemma k_shutdown_phase [twin_rules]: "twins cr_stuck I (shutdown_phase s o1 i) (shutdown_phase s o1 i)"
  unfolding shutdown_phase_def by (intro twin_rules)

lemma k_shutdown_one [twin_rules]: "kept I K K' \<Longrightarrow> twins cr_stuck I (shutdown_one K s i) (shutdown_one K' s i)"
  unfolding shutdown_one_def by (intro twin_rules)

lemma k_shutdown: "kept I K K' \<Longrightarrow> twins cr_stuck I (shutdownHeldOrders K) (shutdownHeldOrders K')"
  unfolding shutdownHeldOrders_def by (intro twin_rules; simp add: framed_defs)

lemma k_replay_one: "twins cr_stuck I (modify (replay_one ev)) (modify (replay_one ev))"
proof (rule k_modify)
  fix c
  assume "I c"
  then have applied: "I (c\<lparr>cr_state := Apply (cr_state c) ev\<rparr>)" by (rule changed [where f = "\<lambda>s. Apply s ev"]) (rule un_replay)
  show "I (replay_one ev c)"
    by (rule frame [OF applied]; cases ev; simp add: replay_one_def mark_exec_def Let_def split: if_splits)
next
  show "cr_stuck c \<Longrightarrow> cr_stuck (replay_one ev c)" for c by (simp add: replay_one_def mark_exec_def Let_def split: event.split)
qed

lemma k_replay_log [twin_rules]: "twins cr_stuck I (replay_log evs) (replay_log evs)"
  unfolding replay_log_def by (intro twin_rules k_replay_one)

lemma k_unsettle [twin_rules]: "twins cr_stuck I unsettle_actions unsettle_actions"
  unfolding unsettle_actions_def by (intro twin_rules)

lemma k_replay_closed [twin_rules]: "twins cr_stuck I (replay_closed evs) (replay_closed evs)"
  unfolding replay_closed_def by (intro twin_rules; simp add: framed_defs)

lemma k_recover_order [twin_rules]: "twins cr_stuck I (recover_order v ext o1) (recover_order v ext o1)"
  unfolding recover_order_def by (intro twin_rules unlogged.intros; simp add: framed_defs)

lemma k_recover_venue [twin_rules]: "twins cr_stuck I (recover_venue bt v) (recover_venue bt v)"
  unfolding recover_venue_def by (intro twin_rules unlogged.intros; simp add: framed_defs)

lemma k_restore_action [twin_rules]: "twins cr_stuck I (restore_action actions i) (restore_action actions i)"
  unfolding restore_action_def by (intro twin_rules)

lemma k_restore_actions [twin_rules]: "twins cr_stuck I (restore_actions bt) (restore_actions bt)"
  unfolding restore_actions_def by (intro twin_rules)

lemma k_recoverTrail [twin_rules]: "kept I K K' \<Longrightarrow> twins cr_stuck I (recoverTrail K o1 b) (recoverTrail K' o1 b)"
  unfolding recoverTrail_def by (intro twin_rules)

lemma k_recover_held [twin_rules]: "kept I K K' \<Longrightarrow> twins cr_stuck I (recover_held K found i) (recover_held K' found i)"
  unfolding recover_held_def by (intro twin_rules)

lemma k_recover_action [twin_rules]: "twins cr_stuck I (recover_action found o1) (recover_action found o1)"
  unfolding recover_action_def by (intro twin_rules)

lemma k_recover_cycle [twin_rules]: "twins cr_stuck I (recover_cycle bt ms v) (recover_cycle bt ms v)"
  unfolding recover_cycle_def by (intro twin_rules; simp add: framed_defs)

lemma k_recoverCycles [twin_rules]: "twins cr_stuck I (recoverCycles bt) (recoverCycles bt)"
  unfolding recoverCycles_def by (intro twin_rules)

lemma k_seedTrades [twin_rules]: "twins cr_stuck I (seedTrades bt) (seedTrades bt)"
  unfolding seedTrades_def by (intro twin_rules; simp add: framed_defs)

lemma k_recover_rest [twin_rules]:
  "kept I K K' \<Longrightarrow> synced I K K' \<Longrightarrow> twins cr_stuck I (recover_rest K bt) (recover_rest K' bt)"
  unfolding recover_rest_def by (intro twin_rules framed_verified)

lemma k_Recover [twin_rules]: "kept I K K' \<Longrightarrow> synced I K K' \<Longrightarrow> twins cr_stuck I (Recover K bt) (Recover K' bt)"
  unfolding Recover_def by (intro twin_rules; simp add: framed_defs)

end

end
