(* ===== verification/CoreSafety.thy ===== *)
theory CoreSafety
  imports CoreLaw
begin

text \<open>
  The handlers that may post, at a \<open>post_law\<close>, and the boot, at a \<open>boot_law\<close>; then the laws'
  instances on the model: durable intents before every POST, a well-formed state, independence of
  the recursion depth, a silent recovery.
\<close>

lemma backed_submit: "Logged (OrderSubmitted (native_order req ts g)) SrcLocal \<in> set tr \<Longrightarrow> backed (PostedOrder req g) tr"
  by auto

lemma backed_replace: "Logged (OrderActionChanged v i (replace_action o1 rr) ts) SrcLocal \<in> set tr \<Longrightarrow> backed (SentReplace v i rr) tr"
  by auto

lemma backed_flatten: "Logged (FlattenPendingChanged v True ts) SrcLocal \<in> set tr \<Longrightarrow> backed (SentFlatten v) tr"
  by auto

definition kept_log :: "(core \<Rightarrow> bool) \<Rightarrow> calls \<Rightarrow> calls \<Rightarrow> bool" where
  "kept_log I K K' \<longleftrightarrow> (\<forall>L. kept (\<lambda>c. I c \<and> L \<in> set (cr_trace c)) K K')"

section \<open>Handlers that may post\<close>

text \<open>\<open>placed I K K'\<close>: submits may be placed; the one handler that posts an order of its own.\<close>

definition placed :: "(core \<Rightarrow> bool) \<Rightarrow> calls \<Rightarrow> calls \<Rightarrow> bool" where
  "placed I K K' \<longleftrightarrow> (\<forall>cm route req d. twins cr_stuck I (place_submit K cm route req d) (place_submit K' cm route req d))"

lemma twins_placed [twin_rules]: "placed I K K' \<Longrightarrow> twins cr_stuck I (place_submit K cm route req d) (place_submit K' cm route req d)"
  by (simp add: placed_def)

text \<open>The invariant survives the POST of a child the held gate has passed.\<close>

definition sends :: "(core \<Rightarrow> bool) \<Rightarrow> order_request \<Rightarrow> bool" where
  "sends I req \<longleftrightarrow> (\<forall>c. I c \<longrightarrow> backed (PostedChild req) (cr_trace c) \<longrightarrow> I (effect (PostedChild req) c))"

locale child_law = quiet_law +
  assumes posted: "I c \<Longrightarrow> \<not> posts e \<Longrightarrow> \<not> logs e \<Longrightarrow> backed e (cr_trace c) \<Longrightarrow> I (effect e c)"
    and child: "I c \<Longrightarrow> fst (heldGate c req i) \<Longrightarrow> sends I req"
    and healthy: "I c \<Longrightarrow> I (c\<lparr>cr_printHealthy := True\<rparr>)"
begin

text \<open>What follows an append knows its event in the log when the append went well.\<close>

lemma p_append_bind:
  assumes "\<And>w. twins cr_stuck I (f (Some w)) (f' (Some w))"
    and "twin cr_stuck (\<lambda>c. I c \<and> Logged ev src \<in> set (cr_trace c)) (f None) (f' None) (\<lambda>_. I)"
  shows "twins cr_stuck I (appendAndFold ev src \<bind> f) (appendAndFold ev src \<bind> f')"
  unfolding twins_def
proof (rule twin_bind [OF k_append_logged])
  fix r
  show "twin cr_stuck (\<lambda>c. I c \<and> (r = None \<longrightarrow> Logged ev src \<in> set (cr_trace c))) (f r) (f' r) (\<lambda>_. I)"
    by (cases r) (auto intro: twin_pre [OF assms(2)] twin_pre [OF twins_twin [OF assms(1)]])
qed

lemma p_start:
  assumes "\<And>c. I c \<Longrightarrow> backed e (cr_trace c) \<Longrightarrow> I (effect e c)" "\<And>tr. L \<in> set tr \<Longrightarrow> backed e tr"
  shows "twin cr_stuck (\<lambda>c. I c \<and> L \<in> set (cr_trace c)) (start e) (start e) (\<lambda>_. I)"
  unfolding start_def
proof (rule twinI)
  fix s :: core and a :: unit and s'
  assume s: "I s \<and> L \<in> set (cr_trace s)" and "run_state (modify (effect e)) s = (a, s')"
  then have "s' = effect e s" by simp
  moreover have "I (effect e s)" using s assms by blast
  ultimately show "I s' \<and> (cr_stuck s \<longrightarrow> cr_stuck s') \<and> (\<not> cr_stuck s' \<longrightarrow> run_state (modify (effect e)) s = (a, s'))"
    by (simp add: effect_def)
qed

lemma p_start_bind:
  assumes "\<And>c. I c \<Longrightarrow> backed e (cr_trace c) \<Longrightarrow> I (effect e c)" "\<And>tr. L \<in> set tr \<Longrightarrow> backed e tr" "twins cr_stuck I m m'"
  shows "twin cr_stuck (\<lambda>c. I c \<and> L \<in> set (cr_trace c)) (start e \<bind> (\<lambda>_. m)) (start e \<bind> (\<lambda>_. m')) (\<lambda>_. I)"
  by (rule twin_bind [OF p_start twins_twin [OF assms(3)]]) (fact assms)+

lemma p_append_start:
  assumes "\<not> posts e" "\<not> logs e" "\<And>tr. Logged ev src \<in> set tr \<Longrightarrow> backed e tr" "\<And>w. twins cr_stuck I (g w) (g w)"
  shows "twins cr_stuck I
     (appendAndFold ev src \<bind> (\<lambda>err. case err of None \<Rightarrow> start e \<bind> (\<lambda>_. return a) | Some w \<Rightarrow> g w))
     (appendAndFold ev src \<bind> (\<lambda>err. case err of None \<Rightarrow> start e \<bind> (\<lambda>_. return a) | Some w \<Rightarrow> g w))"
proof (rule p_append_bind; simp add: assms)
  have "I (effect e c)" if "I c" "backed e (cr_trace c)" for c
    by (rule posted [OF that(1) assms(1,2) that(2)])
  then show "twin cr_stuck (\<lambda>c. I c \<and> Logged ev src \<in> set (cr_trace c))
     (start e \<bind> (\<lambda>_. return a)) (start e \<bind> (\<lambda>_. return a)) (\<lambda>_. I)"
    by (intro p_start_bind assms twins_return)
qed

lemmas straight_rules = twins_gets_bind twins_Let twins_if twins_return

lemma k_replace_at_venue [twin_rules]: "twins cr_stuck I (replace_at_venue o1 cm) (replace_at_venue o1 cm)"
proof -
  have kind: "ActionReplace \<noteq> ActionCancel" by simp
  show ?thesis
    unfolding replace_at_venue_def startVenueAction_def if_not_P [OF kind]
    by (intro straight_rules p_append_start backed_replace; simp)
qed

lemma p_post:
  assumes "r_venue child = o_venue o1" "r_clientOrderID child = o_id o1" "sends I child"
  shows "twin cr_stuck (\<lambda>c. I c \<and> Logged (HeldOrderChanged (o_venue o1) (o_id o1) (activated_held o1 q) ts) SrcLocal \<in> set (cr_trace c))
     (start (PostedChild child)) (start (PostedChild child)) (\<lambda>_. I)"
proof (rule p_start)
  show "I (effect (PostedChild child) c)" if "I c" "backed (PostedChild child) (cr_trace c)" for c
    using that assms(3) unfolding sends_def by blast
  have "h_phase (activated_held o1 q) = HeldActivating" "h_childClientID (activated_held o1 q) = r_clientOrderID child"
    using assms(2) by (simp_all add: activated_held_def Let_def)
  then show "backed (PostedChild child) tr"
    if "Logged (HeldOrderChanged (o_venue o1) (o_id o1) (activated_held o1 q) ts) SrcLocal \<in> set tr" for tr
    using that assms(1,2) by (auto intro!: exI [of _ "activated_held o1 q"])
qed

lemma p_post_when:
  assumes "r_venue child = o_venue o1" "r_clientOrderID child = o_id o1" "sends I child"
  shows "twin cr_stuck (\<lambda>c. I c \<and> Logged (HeldOrderChanged (o_venue o1) (o_id o1) (activated_held o1 q) ts) SrcLocal \<in> set (cr_trace c))
     (do { b \<leftarrow> gets g; whenM (P b) (start (PostedChild child)) })
     (do { b \<leftarrow> gets g; whenM (P b) (start (PostedChild child)) }) (\<lambda>_. I)"
proof (rule twin_bind [OF twin_gets])
  fix b
  show "twin cr_stuck (\<lambda>c. (I c \<and> Logged (HeldOrderChanged (o_venue o1) (o_id o1) (activated_held o1 q) ts) SrcLocal \<in> set (cr_trace c)) \<and> b = g c)
     (whenM (P b) (start (PostedChild child))) (whenM (P b) (start (PostedChild child))) (\<lambda>_. I)"
  proof (cases "P b")
    case True
    then show ?thesis by (simp add: whenM_def) (rule twin_pre [OF p_post [OF assms, where q = q and ts = ts]], simp)
  next
    case False
    then show ?thesis by (simp add: whenM_def) (rule twin_pre [OF twins_twin [OF twins_return]], simp)
  qed
qed

lemma k_post_child [twin_rules]:
  "r_venue child = o_venue o1 \<Longrightarrow> r_clientOrderID child = o_id o1 \<Longrightarrow>
    twins cr_stuck I (post_child o1 child) (post_child o1 child)"
  unfolding post_child_def
  by (intro straight_rules k_reject_held p_append_bind; simp; intro twin_rules p_post_when child)

lemma k_activate_child [twin_rules]: "twins cr_stuck I (activate_child o1) (activate_child o1)"
  unfolding activate_child_def by (intro twin_rules; simp add: child_request_def)

lemma k_activate_exit [twin_rules]: "kept I K K' \<Longrightarrow> twins cr_stuck I (activate_exit K o1) (activate_exit K' o1)"
  unfolding activate_exit_def by (intro twin_rules)

lemma k_activate_entry [twin_rules]: "kept I K K' \<Longrightarrow> twins cr_stuck I (activate_entry K o1) (activate_entry K' o1)"
  unfolding activate_entry_def by (intro twin_rules)

lemma k_activateHeld [twin_rules]: "kept I K K' \<Longrightarrow> twins cr_stuck I (activateHeld K o1) (activateHeld K' o1)"
  unfolding activateHeld_def by (intro twin_rules)

lemma k_trailQuote [twin_rules]: "kept I K K' \<Longrightarrow> twins cr_stuck I (activateTrailQuote K o1) (activateTrailQuote K' o1)"
  unfolding activateTrailQuote_def by (intro twin_rules)

lemma k_trail_saved [twin_rules]: "kept I K K' \<Longrightarrow> twins cr_stuck I (trail_saved K o1 p b t) (trail_saved K' o1 p b t)"
  unfolding trail_saved_def by (intro twin_rules)

lemma k_trail_moved [twin_rules]: "kept I K K' \<Longrightarrow> twins cr_stuck I (trail_moved K o1 p a b t) (trail_moved K' o1 p a b t)"
  unfolding trail_moved_def by (intro twin_rules)

lemma k_advance_in_session [twin_rules]:
  "kept I K K' \<Longrightarrow> twins cr_stuck I (advance_in_session K o1 p d a t) (advance_in_session K' o1 p d a t)"
  unfolding advance_in_session_def
  by (intro twins_bind twins_if twin_rules; simp split: trail_result.split; intro allI impI conjI twin_rules)

lemma k_advanceTrailPrice [twin_rules]:
  "kept I K K' \<Longrightarrow> twins cr_stuck I (advanceTrailPrice K o1 p d a) (advanceTrailPrice K' o1 p d a)"
  unfolding advanceTrailPrice_def by (intro twin_rules)

lemma k_advanceTrail [twin_rules]: "kept I K K' \<Longrightarrow> twins cr_stuck I (advanceTrail K o1 p d) (advanceTrail K' o1 p d)"
  unfolding advanceTrail_def by (intro twin_rules)

lemma k_protectedStop [twin_rules]:
  "kept I K K' \<Longrightarrow> twins cr_stuck I (activateProtectedStop K o1 p) (activateProtectedStop K' o1 p)"
  unfolding activateProtectedStop_def by (intro twin_rules)

lemma k_authorize [twin_rules]: "kept I K K' \<Longrightarrow> twins cr_stuck I (authorizeProtection K o1 a) (authorizeProtection K' o1 a)"
  unfolding authorizeProtection_def by (intro twin_rules; simp add: framed_defs)

lemma k_sync_open [twin_rules]: "kept I K K' \<Longrightarrow> twins cr_stuck I (sync_open K e r s) (sync_open K' e r s)"
  unfolding sync_open_def by (intro twin_rules)

lemma k_sync_closing [twin_rules]: "kept I K K' \<Longrightarrow> twins cr_stuck I (sync_closing K e r s b) (sync_closing K' e r s b)"
  unfolding sync_closing_def by (intro twin_rules)

lemma k_syncRisk [twin_rules]: "kept I K K' \<Longrightarrow> twins cr_stuck I (syncRiskProtection K e b) (syncRiskProtection K' e b)"
  unfolding syncRiskProtection_def by (intro twin_rules)

lemma kept_deeper: "kept I (knot n) (knot (Suc n))"
  by (rule kept_induct) (simp add: synced_def k_syncRisk)

lemma kept_knot: "kept I (knot n) (knot n)"
  by (rule kept_left [OF kept_deeper])

lemma synced_deeper: "synced I (knot n) (knot (Suc n))"
  by (simp add: synced_def k_syncRisk kept_deeper del: knot.simps)

lemma k_submit_held [twin_rules]: "kept I K K' \<Longrightarrow> twins cr_stuck I (submit_held K cm req d) (submit_held K' cm req d)"
  unfolding submit_held_def by (intro twin_rules)

lemma k_handleSubmit [twin_rules]: "kept I K K' \<Longrightarrow> placed I K K' \<Longrightarrow> twins cr_stuck I (handleSubmit K cm) (handleSubmit K' cm)"
  unfolding handleSubmit_def by (intro twin_rules)

lemma k_replace_pretrigger [twin_rules]:
  "kept I K K' \<Longrightarrow> twins cr_stuck I (replace_pretrigger K o1 cm) (replace_pretrigger K' o1 cm)"
  unfolding replace_pretrigger_def by (intro twin_rules)

lemma k_replaceSingle [twin_rules]: "kept I K K' \<Longrightarrow> twins cr_stuck I (handleReplaceSingle K cm) (handleReplaceSingle K' cm)"
  unfolding handleReplaceSingle_def by (intro twin_rules)

lemma k_crossed_buy [twin_rules]: "kept I K K' \<Longrightarrow> twins cr_stuck I (activate_crossed_buy K o1) (activate_crossed_buy K' o1)"
  unfolding activate_crossed_buy_def by (intro twin_rules)

lemma k_replaceRiskAdd [twin_rules]:
  "kept I K K' \<Longrightarrow> twins cr_stuck I (replaceRiskAdd K cm e r s) (replaceRiskAdd K' cm e r s)"
  unfolding replaceRiskAdd_def by (intro twin_rules)

lemma k_working_leg [twin_rules]: "kept I K K' \<Longrightarrow> twins cr_stuck I (replace_working_leg K cm o1) (replace_working_leg K' cm o1)"
  unfolding replace_working_leg_def by (intro twin_rules)

lemma k_commit_drag [twin_rules]: "kept I K K' \<Longrightarrow> twins cr_stuck I (commit_drag K o1 e s) (commit_drag K' o1 e s)"
  unfolding commit_drag_def by (intro twin_rules)

lemma k_waiting_leg [twin_rules]:
  "kept I K K' \<Longrightarrow> twins cr_stuck I (replace_waiting_leg K cm o1 e r) (replace_waiting_leg K' cm o1 e r)"
  unfolding replace_waiting_leg_def by (intro twin_rules)

lemma k_replaceRisk [twin_rules]: "kept I K K' \<Longrightarrow> twins cr_stuck I (replaceRisk K cm o1) (replaceRisk K' cm o1)"
  unfolding replaceRisk_def by (intro twin_rules)

lemma k_handleReplace [twin_rules]: "kept I K K' \<Longrightarrow> twins cr_stuck I (handleReplace K cm) (handleReplace K' cm)"
  unfolding handleReplace_def by (intro twin_rules)

lemma k_open_plan [twin_rules]: "kept I K K' \<Longrightarrow> twins cr_stuck I (open_plan K cm e s b ms) (open_plan K' cm e s b ms)"
  unfolding open_plan_def by (intro twin_rules)

lemma k_build_plan [twin_rules]:
  "kept I K K' \<Longrightarrow> twins cr_stuck I (build_plan K cm o1 s req q l) (build_plan K' cm o1 s req q l)"
  unfolding build_plan_def by (intro twin_rules)

lemma k_handleRiskEntry [twin_rules]: "kept I K K' \<Longrightarrow> twins cr_stuck I (handleRiskEntry K cm) (handleRiskEntry K' cm)"
  unfolding handleRiskEntry_def by (intro twin_rules)

lemma k_place_trail [twin_rules]:
  "kept I K K' \<Longrightarrow> twins cr_stuck I (place_trail K cm config d i) (place_trail K' cm config d i)"
  unfolding place_trail_def by (intro twin_rules)

lemma k_handleSubmitTrail [twin_rules]: "kept I K K' \<Longrightarrow> twins cr_stuck I (handleSubmitTrail K cm) (handleSubmitTrail K' cm)"
  unfolding handleSubmitTrail_def by (intro twin_rules)

lemma k_configureTrail [twin_rules]:
  "kept I K K' \<Longrightarrow> twins cr_stuck I (configureTrail K v i p s config) (configureTrail K' v i p s config)"
  unfolding configureTrail_def by (intro twin_rules)

lemma k_resumed [twin_rules]: "kept I K K' \<Longrightarrow> twins cr_stuck I (resumed K o1) (resumed K' o1)"
  unfolding resumed_def by (intro twin_rules)

lemma k_handleResume [twin_rules]: "kept I K K' \<Longrightarrow> twins cr_stuck I (handleResumeHeld K v i) (handleResumeHeld K' v i)"
  unfolding handleResumeHeld_def by (intro twin_rules)

lemma with_log_child: "child_law (\<lambda>c. I c \<and> L \<in> set (cr_trace c))"
proof (rule child_law.intro [OF with_log child_law_axioms.intro])
  fix c e req i
  assume c: "I c \<and> L \<in> set (cr_trace c)"
  show "I (effect e c) \<and> L \<in> set (cr_trace (effect e c))" if "\<not> posts e" "\<not> logs e" "backed e (cr_trace c)"
    using posted [of c e] c that by (simp add: effect_def)
  show "sends (\<lambda>c. I c \<and> L \<in> set (cr_trace c)) req" if "fst (heldGate c req i)"
    using child [OF _ that] c by (simp add: sends_def effect_def)
  show "I (c\<lparr>cr_printHealthy := True\<rparr>) \<and> L \<in> set (cr_trace (c\<lparr>cr_printHealthy := True\<rparr>))"
    using c healthy [of c] by simp
qed

text \<open>The venue is told to flatten after the position checks; the intent is still in the log by then.\<close>

lemma p_flatten:
  assumes "kept (\<lambda>c. I c \<and> Logged (FlattenPendingChanged v True ts) SrcLocal \<in> set (cr_trace c)) K K'"
  shows "twin cr_stuck (\<lambda>c. I c \<and> Logged (FlattenPendingChanged v True ts) SrcLocal \<in> set (cr_trace c))
     (do { setPositionsReady v False; checkTrailPositions K; start (SentFlatten v); return a })
     (do { setPositionsReady v False; checkTrailPositions K'; start (SentFlatten v); return a }) (\<lambda>_. I)"
  by (intro twin_bind [OF twins_twin [OF quiet_law.k_ready [OF with_log]]]
      twin_bind [OF twins_twin [OF quiet_law.k_checkTrails [OF with_log assms]]]
      p_start_bind backed_flatten twins_return) (simp_all add: posted)

lemma kept_logD: "kept_log I K K' \<Longrightarrow> kept (\<lambda>c. I c \<and> L \<in> set (cr_trace c)) K K'"
  by (simp add: kept_log_def)

lemma k_handleFlatten [twin_rules]:
  assumes "kept I K K'" and "kept_log I K K'"
  shows "twins cr_stuck I (handleFlatten K v) (handleFlatten K' v)"
  unfolding handleFlatten_def
  by (intro twins_bind [OF k_disarmRisk] twins_bind [OF k_pauseReducing] straight_rules twins_option assms;
      intro p_append_bind; simp; intro p_flatten kept_logD assms twins_return)

lemma kept_log_knot: "kept_log I (knot n) (knot n)"
  unfolding kept_log_def using child_law.kept_knot [OF with_log_child] by blast

lemma kept_log_deeper: "kept_log I (knot n) (knot (Suc n))"
  unfolding kept_log_def using child_law.kept_deeper [OF with_log_child] by blast

lemma k_acknowledge [twin_rules]:
  "twins cr_stuck I (acknowledge put_ack v i) (acknowledge put_ack v i)"
  "twins cr_stuck I (acknowledge put_lit_ack v i) (acknowledge put_lit_ack v i)"
  unfolding acknowledge_def by (intro twin_rules; simp add: framed_defs)+

lemma k_handleCmd [twin_rules]:
  "cmd \<noteq> Arm \<Longrightarrow> kept I K K' \<Longrightarrow> kept_log I K K' \<Longrightarrow> placed I K K' \<Longrightarrow> twins cr_stuck I (handleCmd K cmd) (handleCmd K' cmd)"
  unfolding handleCmd_def by (cases cmd; simp; intro twin_rules; simp add: framed_defs)

lemma k_open_orders [twin_rules]: "kept I K K' \<Longrightarrow> synced I K K' \<Longrightarrow> twins cr_stuck I (open_orders K v os) (open_orders K' v os)"
  unfolding open_orders_def by (intro twin_rules unlogged.intros)

lemma k_close_shared [twin_rules]: "kept I K K' \<Longrightarrow> twins cr_stuck I (close_shared K i s) (close_shared K' i s)"
  unfolding close_shared_def by (intro twin_rules)

lemma k_retire_one [twin_rules]: "kept I K K' \<Longrightarrow> twins cr_stuck I (retire_one K b i a) (retire_one K' b i a)"
  unfolding retire_one_def
  by (intro twins_bind twins_gets; simp split: option.split prod.split; intro allI impI conjI twin_rules)

lemma k_retireOwnership [twin_rules]:
  "kept I K K' \<Longrightarrow> twins cr_stuck I (retireReducedOwnership K b) (retireReducedOwnership K' b)"
  unfolding retireReducedOwnership_def by (intro twin_rules)

lemma k_settle_check [twin_rules]: "kept I K K' \<Longrightarrow> twins cr_stuck I (settle_check K v b) (settle_check K' v b)"
  unfolding settle_check_def by (intro twin_rules; simp add: framed_defs)

lemma k_take_snapshot [twin_rules]:
  "kept I K K' \<Longrightarrow> synced I K K' \<Longrightarrow> twins cr_stuck I (take_snapshot K e b) (take_snapshot K' e b)"
  unfolding take_snapshot_def by (intro twin_rules unlogged.intros; simp add: framed_defs)

lemma k_snapshot_event [twin_rules]:
  "kept I K K' \<Longrightarrow> synced I K K' \<Longrightarrow> twins cr_stuck I (broker_snapshot_event K e b) (broker_snapshot_event K' e b)"
  unfolding broker_snapshot_event_def by (intro twin_rules)

lemma k_broker_case [twin_rules]:
  "kept I K K' \<Longrightarrow> synced I K K' \<Longrightarrow> twins cr_stuck I (broker_case K be b) (broker_case K' be b)"
  unfolding broker_case_def by (cases be; simp; intro twin_rules)

lemma k_riskBrokerEvent [twin_rules]: "kept I K K' \<Longrightarrow> twins cr_stuck I (riskBrokerEvent K i) (riskBrokerEvent K' i)"
  unfolding riskBrokerEvent_def by (intro twin_rules)

lemma k_handle_report [twin_rules]:
  "kept I K K' \<Longrightarrow> synced I K K' \<Longrightarrow> twins cr_stuck I (handle_report K be) (handle_report K' be)"
  unfolding handle_report_def by (intro twin_rules)

lemma k_finishTrail [twin_rules]:
  "kept I K K' \<Longrightarrow> synced I K K' \<Longrightarrow> twins cr_stuck I (finishTrailPositionCheck K v r s) (finishTrailPositionCheck K' v r s)"
  unfolding finishTrailPositionCheck_def
  by (intro twins_bind twins_gets; simp split: option.split sum.split; intro allI impI conjI twin_rules)

lemma k_finishProtection [twin_rules]:
  "kept I K K' \<Longrightarrow> synced I K K' \<Longrightarrow> twins cr_stuck I (finishProtectionCheck K v r s) (finishProtectionCheck K' v r s)"
  unfolding finishProtectionCheck_def by (intro twin_rules; simp add: framed_defs)

lemma k_handleBroker [twin_rules]:
  "kept I K K' \<Longrightarrow> synced I K K' \<Longrightarrow> twins cr_stuck I (handleBrokerEvent K be) (handleBrokerEvent K' be)"
  unfolding handleBrokerEvent_def by (cases be; simp; intro twin_rules)

lemma k_resolve_one [twin_rules]: "kept I K K' \<Longrightarrow> twins cr_stuck I (resolve_one K s p bk i) (resolve_one K' s p bk i)"
  unfolding resolve_one_def by (intro twin_rules; simp add: framed_defs)

lemma k_resolve [twin_rules]: "kept I K K' \<Longrightarrow> twins cr_stuck I (resolveProtection K s) (resolveProtection K' s)"
  unfolding resolveProtection_def by (intro twin_rules)

lemma k_print_to_order [twin_rules]: "kept I K K' \<Longrightarrow> twins cr_stuck I (print_to_order K p o1) (print_to_order K' p o1)"
  unfolding print_to_order_def by (intro twin_rules)

lemma k_trust [twin_rules]: "twins cr_stuck I trust_prints trust_prints"
  unfolding trust_prints_def by (rule k_modify) (auto intro: healthy)

lemma k_handlePrint [twin_rules]: "kept I K K' \<Longrightarrow> twins cr_stuck I (handleEligiblePrint K p) (handleEligiblePrint K' p)"
  unfolding handleEligiblePrint_def by (intro twin_rules; simp add: framed_defs Let_def)

lemma k_book_candidate [twin_rules]: "kept I K K' \<Longrightarrow> twins cr_stuck I (book_candidate K s) (book_candidate K' s)"
  unfolding book_candidate_def by (intro twin_rules; simp add: framed_defs)

lemma k_handleBook [twin_rules]: "kept I K K' \<Longrightarrow> twins cr_stuck I (handleTrailBook K b) (handleTrailBook K' b)"
  unfolding handleTrailBook_def by (intro twin_rules framed_store_book)

lemma k_deadline_one [twin_rules]: "kept I K K' \<Longrightarrow> twins cr_stuck I (deadline_one K f i) (deadline_one K' f i)"
  unfolding deadline_one_def by (intro twin_rules; simp add: framed_defs)

lemma k_deadline [twin_rules]: "kept I K K' \<Longrightarrow> twins cr_stuck I (protectionDeadline K) (protectionDeadline K')"
  unfolding protectionDeadline_def by (intro twin_rules; simp add: framed_defs)

lemma k_handle:
  "i \<noteq> Command Arm \<Longrightarrow> kept I K K' \<Longrightarrow> kept_log I K K' \<Longrightarrow> synced I K K' \<Longrightarrow> placed I K K' \<Longrightarrow>
    twins cr_stuck I (handle K i) (handle K' i)"
  unfolding handle_def by (cases i; simp; intro twin_rules; simp)

end

section \<open>Laws with orders of the core's own\<close>

definition free_turn :: "input \<Rightarrow> bool" where
  "free_turn i \<longleftrightarrow> i \<noteq> Command Arm"

locale post_law = child_law +
  assumes submitted: "I c \<Longrightarrow> backed (PostedOrder req g) (cr_trace c) \<Longrightarrow> I (effect (PostedOrder req g) c)"
    and armed: "I c \<Longrightarrow> I (c\<lparr>cr_state := SetMasterArmed True (cr_state c)\<rparr>)"
begin

lemma p_submit:
  "twin cr_stuck (\<lambda>c. I c \<and> Logged (OrderSubmitted (native_order req ts g)) SrcLocal \<in> set (cr_trace c))
     (start (PostedOrder req g)) (start (PostedOrder req g)) (\<lambda>_. I)"
proof -
  have "I (effect (PostedOrder req g) c)" if "I c" "Logged (OrderSubmitted (native_order req ts g)) SrcLocal \<in> set (cr_trace c)" for c
    by (rule submitted [OF that(1) backed_submit [OF that(2)]])
  then show ?thesis unfolding start_def by (intro twinI) (auto simp: effect_def)
qed

lemma k_submit_native [twin_rules]: "twins cr_stuck I (submit_native req) (submit_native req)"
  unfolding submit_native_def
  by (intro straight_rules p_append_bind; simp; intro twin_rules twin_bind [OF p_submit twins_twin])

lemma k_place_submit: "kept I K K' \<Longrightarrow> placed I K K'"
  unfolding placed_def place_submit_def by (intro allI twin_rules)

lemma k_arm: "kept I K K' \<Longrightarrow> twins cr_stuck I (handleArm K True) (handleArm K' True)"
proof -
  have "twins cr_stuck I (upd (SetMasterArmed True)) (upd (SetMasterArmed True))"
    unfolding upd_def by (rule k_modify) (auto intro: armed)
  then show ?thesis by (auto simp: handleArm_def whenM_def intro!: twins_bind twins_return)
qed

lemma turn_deeper: "twins cr_stuck I (turn (knot n) i) (turn (knot (Suc n)) i)"
proof -
  note deeper = kept_deeper kept_log_deeper synced_deeper k_place_submit [OF kept_deeper]
  have "twins cr_stuck I (handle (knot n) i) (handle (knot (Suc n)) i)"
  proof (cases "i = Command Arm")
    case True
    show ?thesis unfolding True handle_def handleCmd_def input.case command.case
      by (intro twins_bind k_arm k_refresh kept_deeper twins_return)
  next
    case False
    then show ?thesis by (intro k_handle deeper)
  qed
  then show ?thesis unfolding turn_def by (intro twins_bind k_deadline kept_deeper)
qed

lemma life_deeper: "twins cr_stuck I (life (knot n) bt is stop) (life (knot (Suc n)) bt is stop)"
  unfolding life_def run_turns_def
  by (intro twins_bind k_Recover kept_deeper synced_deeper twins_option twins_return twins_each turn_deeper twins_when k_shutdown k_deadline)

end

lemma admit_armed: "fst (admit_submit c cm req) \<Longrightarrow> st_masterArmed (cr_state c)"
  by (auto simp: admit_submit_def Evaluate_def EvaluateDeferredAdmission_def split: if_splits)

locale disarmed_law = child_law +
  assumes disarmed: "I c \<Longrightarrow> \<not> st_masterArmed (cr_state c)"
begin

lemma k_not_placed: "kept I K K' \<Longrightarrow> placed I K K'"
  unfolding placed_def place_submit_def
  by (intro allI twins_gets_bind straight_rules twins_option k_block_order k_submit_held;
      use admit_armed disarmed in blast)

lemma turn_deeper: "free_turn i \<Longrightarrow> twins cr_stuck I (turn (knot n) i) (turn (knot (Suc n)) i)"
  unfolding turn_def free_turn_def
  by (intro twins_bind k_deadline k_handle kept_deeper kept_log_deeper synced_deeper k_not_placed)

lemma life_deeper:
  "(\<And>i. i \<in> set is \<Longrightarrow> free_turn i) \<Longrightarrow> twins cr_stuck I (life (knot n) bt is stop) (life (knot (Suc n)) bt is stop)"
  unfolding life_def run_turns_def
  by (intro twins_bind k_Recover kept_deeper synced_deeper twins_option twins_return twins_each turn_deeper twins_when k_shutdown k_deadline)

end

locale boot_law = quiet_law +
  assumes unhealthy: "I c \<Longrightarrow> \<not> cr_printHealthy c"
begin

lemma b_sync_open: "kept I K K' \<Longrightarrow> twins cr_stuck I (sync_open K e r s) (sync_open K' e r s)"
  unfolding sync_open_def
  by (intro twins_gets_bind twin_rules; use unhealthy in blast)

lemma late_exit_paused: "\<not> cr_printHealthy c \<Longrightarrow> phase_of (late_exit c entry stop qty i r) = HeldPaused"
  by (auto simp: late_exit_def Let_def phase_of_def held_of_def split: option.split)

lemma b_sync_closing: "kept I K K' \<Longrightarrow> twins cr_stuck I (sync_closing K e r s b) (sync_closing K' e r s b)"
  unfolding sync_closing_def
  by (intro twins_gets_bind twin_rules; use unhealthy late_exit_paused in force)

lemma b_sync: "kept I K K' \<Longrightarrow> synced I K K'"
  unfolding synced_def syncRiskProtection_def by (intro allI twin_rules b_sync_open b_sync_closing)

lemma kept_deeper: "kept I (knot n) (knot (Suc n))"
  by (rule kept_induct) (rule b_sync)

lemma recover_deeper: "twins cr_stuck I (Recover (knot n) bt) (Recover (knot (Suc n)) bt)"
  by (intro k_Recover kept_deeper b_sync)

end

end
