(* ===== verification/CoreSample.thy ===== *)
theory CoreSample
  imports CoreSafety
begin

text \<open>A small concrete engine: one venue, the sample gate of Gate, an outside that answers every question, a boot
  whose log cannot be read (so that recovery stops at once), and one limit order.\<close>

definition sample_caps :: capabilities where
  "sample_caps = \<lparr>cb_flattenAll = True, cb_overnightSession = False, cb_resetBalance = True, cb_marketOutsideRTH = True,
     cb_calculatedDayPnL = False\<rparr>"

definition sample_config :: core_config where
  "sample_config = \<lparr>cg_venues = [''sim''], cg_gate = sample_gate, cg_brokers = [(''sim'', sample_caps)],
     cg_startingBalance = [], cg_activeVenue = ''sim'', cg_liveIdentity = [], cg_liveAck = [], cg_liveLITAck = []\<rparr>"

definition sample_outside :: outside where
  "sample_outside = \<lparr>os_now = (\<lambda>k. 1705000000000 + int k), os_append = (\<lambda>k. Inr (int k)),
     os_id = (\<lambda>k. ''ET'' @ replicate k (CHR ''A'')), os_acquire = (\<lambda>k. None), os_coverage = (\<lambda>k s. 0),
     os_cancel = (\<lambda>k. None), os_range = (\<lambda>k ks. ks)\<rparr>"

definition full_disk :: outside where
  "full_disk = sample_outside\<lparr>os_append := (\<lambda>k. Inl ''disk full'')\<rparr>"

definition sample_boot :: boot where
  "sample_boot = \<lparr>bt_log = Inl ''disk error'', bt_history = Inr [], bt_histories = None,
     bt_snapshot = (\<lambda>v. Inr (account0\<lparr>ac_venue := v\<rparr>, [], [])), bt_checkpoint = None,
     bt_venueFills = (\<lambda>v. Inr []), bt_fills = Inr []\<rparr>"

definition sample_submit :: submit_order where
  "sample_submit = \<lparr>so_venue = ''sim'', so_symbol = ''AAPL'', so_side = SideBuy, so_type = TypeLimit, so_tif = TIFDay,
     so_session = SessionAuto, so_qty = Fin 5, so_deferredPositionPct = 0, so_limitPrice = Fin 10, so_stopPrice = 0,
     so_routeExpected = HeldRouteStr '''', so_routeDeadlineMs = 0\<rparr>"

definition sample_core :: core where
  "sample_core = NewCore est sample_outside sample_config"

definition sample_gap :: eligible_print where
  "sample_gap = print0\<lparr>ep_symbol := ''AAPL'', ep_recvTsMs := 1705000000000, ep_gap := True\<rparr>"

end
