(* ===== verification/CoreProps.thy ===== *)
theory CoreProps
  imports CoreSample
begin

text \<open>
  The laws on the model: one interpretation per invariant, and what it says of a whole life of the
  core, from recovery through any sequence of inputs to the shutdown, at any recursion depth.
\<close>

section \<open>Durable intents\<close>

primrec durable :: "effect list \<Rightarrow> bool" where
  "durable [] \<longleftrightarrow> True"
| "durable (e # tr) \<longleftrightarrow> backed e tr \<and> durable tr"

interpretation intents: post_law "\<lambda>c. durable (cr_trace c)"
  by unfold_locales (auto simp: fold_event_def effect_def sends_def)

text \<open>C1. In any life of the engine, whatever it is fed, every order POST, child POST, replacement and flatten is started only after the event that records its intent has been appended to the log, and that event names the same order.\<close>

theorem intents_are_logged:
  "durable (cr_trace (snd (run_state (life (knot n) bt is stop) (NewCore off os cfg))))"
  by (rule twins_keep [OF intents.life_deeper]) (simp add: NewCore_def)

section \<open>A well-formed state\<close>

lemma wf_move_position [inv_intros]: "state_wf s \<Longrightarrow> state_wf (move_position e s)"
  unfolding move_position_def
  by (rule wf_modify_venue) (use wf_venue [of s "px_venue e"] in \<open>simp_all add: venue_wf_def Let_def\<close>)

lemma wf_unlogged: "unlogged f \<Longrightarrow> state_wf s \<Longrightarrow> state_wf (f s)"
  by (induction rule: unlogged.induct) (auto intro: inv_intros wf_Apply)

interpretation formed: post_law "\<lambda>c. state_wf (cr_state c)"
  by unfold_locales (auto simp: fold_event_def effect_def sends_def intro: wf_Apply wf_unlogged inv_intros)

lemma wf_boot: "state_wf (boot_state cfg)"
proof -
  have "state_wf (foldl (\<lambda>s v. SetAccountFresh v True s) s vs)" if "state_wf s" for s vs
    using that by (induction vs arbitrary: s) (auto intro: inv_intros)
  then show ?thesis unfolding boot_state_def by (intro inv_intros) (auto intro: wf_NewState)
qed

text \<open>C5. In any life of the engine the state stays well formed: every order sits under its own venue and ID, the index knows every ID, and no map holds a key twice.\<close>

theorem life_keeps_state_wf:
  "state_wf (cr_state (snd (run_state (life (knot n) bt is stop) (NewCore off os cfg))))"
  by (rule twins_keep [OF formed.life_deeper]) (simp add: NewCore_def wf_boot)

section \<open>Disarmed\<close>

lemma armed_Venue: "Venue s v = (vs, s') \<Longrightarrow> st_masterArmed s' = st_masterArmed s"
  using snd_Venue(3) [of s v] by simp

lemma armed_more [simp]:
  "st_masterArmed (record_order o1 s) = st_masterArmed s"
  "st_masterArmed (applyFill g cum leaves avg s) = st_masterArmed s"
  by (auto simp: record_order_def applyFill_def Let_def split: option.split prod.split dest!: armed_Venue)

lemma armed_Apply [simp]: "st_masterArmed (Apply s ev) = st_masterArmed s"
  by (cases ev) (simp_all add: SetFlattenPending_def)

lemma armed_open_orders [simp]: "st_masterArmed (ReconcileOpenOrders v os s) = st_masterArmed s"
proof -
  have "st_masterArmed (foldl (\<lambda>s o0. let o1 = adopt_order v (vs_orders (venue_at s v)) o0
      in index_order (o_id o1) v (put_order o1 v (o_id o1) s)) s os) = st_masterArmed s" for s
    by (induction os arbitrary: s) (simp_all add: Let_def)
  then show ?thesis by (simp add: ReconcileOpenOrders_def)
qed

lemma armed_unlogged: "unlogged f \<Longrightarrow> st_masterArmed (f s) \<Longrightarrow> st_masterArmed s"
  by (induction rule: unlogged.induct)
    (auto simp: ReconcileAccount_def ReconcilePositions_def ReconcilePosition_def SetPositionsReady_def
      ReconcileExternalOpenOrders_def SetExternalOrder_def SetMasterArmed_def SetActiveVenue_def SetAccountFresh_def
      move_position_def)

text \<open>An order that may open or add to a position: a submit, or the child of a held order that does not reduce.\<close>

fun enters :: "effect \<Rightarrow> bool" where
  "enters (PostedOrder req g) = True"
| "enters (PostedChild req) = (r_side req \<noteq> SideSell \<and> r_side req \<noteq> SideCover)"
| "enters _ = False"

lemma enters_posts: "enters e \<Longrightarrow> posts e"
  by (cases e) simp_all

lemma heldGate_disarmed: "fst (heldGate c req i) \<Longrightarrow> \<not> st_masterArmed (cr_state c) \<Longrightarrow> \<not> enters (PostedChild req)"
  by (auto simp: heldGate_def Let_def without_order_def put_venue_def Evaluate_def EvaluateDeferredAdmission_def split: if_splits)

interpretation idle: disarmed_law "\<lambda>c. \<not> st_masterArmed (cr_state c) \<and> (\<forall>e \<in> set (cr_trace c). \<not> enters e)"
  by unfold_locales (auto simp: fold_event_def effect_def sends_def dest: armed_unlogged enters_posts heldGate_disarmed)

lemma boot_disarmed: "\<not> st_masterArmed (boot_state cfg)"
proof -
  have "st_masterArmed (foldl (\<lambda>s v. SetAccountFresh v True s) s vs) = st_masterArmed s" for s vs
    by (induction vs arbitrary: s) (auto simp: SetAccountFresh_def)
  then show ?thesis by (simp add: boot_state_def SetActiveVenue_def NewState_def)
qed

text \<open>C2. As long as no Arm command is given, whatever else happens, the master switch is off after recovery, after every input and after shutdown, and no submit and no child of a held order is POSTed unless it sells or covers; a held exit may still fire.\<close>

theorem only_arm_arms:
  assumes "Command Arm \<notin> set is"
  shows "\<not> st_masterArmed (cr_state (snd (run_state (life (knot n) bt is stop) (NewCore off os cfg)))) \<and>
    \<not> list_ex enters (cr_trace (snd (run_state (life (knot n) bt is stop) (NewCore off os cfg))))"
proof -
  have free: "free_turn i" if "i \<in> set is" for i using assms that by (auto simp: free_turn_def)
  have boot: "\<not> st_masterArmed (cr_state (NewCore off os cfg)) \<and> (\<forall>e \<in> set (cr_trace (NewCore off os cfg)). \<not> enters e)"
    by (simp add: NewCore_def boot_disarmed)
  from twins_keep [OF idle.life_deeper [OF free] boot] show ?thesis by (simp add: list_ex_iff)
qed

lemma only_arm_arms_witness:
  "\<not> st_masterArmed (cr_state (snd (run_state (life (knot 2) sample_boot [Command (SubmitOrder sample_submit)] True) sample_core)))"
  using only_arm_arms [of "[Command (SubmitOrder sample_submit)]" 2 sample_boot True est sample_outside sample_config]
  by (simp add: sample_core_def)

section \<open>A silent recovery\<close>



section \<open>No log, no order\<close>

definition writes :: "effect \<Rightarrow> bool" where
  "writes e \<longleftrightarrow> posts e \<or> (\<exists>v i rr. e = SentReplace v i rr) \<or> (\<exists>v. e = SentFlatten v)"

definition unlogged_trace :: "effect list \<Rightarrow> bool" where
  "unlogged_trace tr \<longleftrightarrow> (\<forall>e \<in> set tr. \<not> writes e \<and> (\<forall>ev src. e \<noteq> Logged ev src))"

lemma unlogged_unbacked: "unlogged_trace tr \<Longrightarrow> backed e tr \<Longrightarrow> \<not> writes e"
  by (cases e) (auto simp: unlogged_trace_def writes_def)

definition deaf :: "outside \<Rightarrow> bool" where
  "deaf os \<longleftrightarrow> (\<forall>k. \<exists>w. os_append os k = Inl w)"

lemma deaf_appends: "deaf (cr_outside c) \<Longrightarrow> \<not> appends c"
  unfolding deaf_def appends_def by (metis sum.simps(4))

lemma unlogged_effect:
  "unlogged_trace (cr_trace c) \<Longrightarrow> \<not> logs e \<Longrightarrow> backed e (cr_trace c) \<Longrightarrow> unlogged_trace (cr_trace (effect e c))"
  using unlogged_unbacked [of "cr_trace c" e] by (auto simp: effect_def unlogged_trace_def)

lemma outside_effect [simp]: "cr_outside (effect e c) = cr_outside c"
  by (simp add: effect_def)

interpretation deaf_store: post_law "\<lambda>c. deaf (cr_outside c) \<and> unlogged_trace (cr_trace c)"
  by unfold_locales (auto intro: unlogged_effect simp: sends_def simp del: backed.simps dest: deaf_appends)

text \<open>C3. When the store refuses every append, no order, child, replacement or flatten is ever sent, whatever the engine is fed.\<close>

theorem no_log_no_order:
  assumes "deaf os"
  shows "\<not> list_ex writes (cr_trace (snd (run_state (life (knot n) bt is stop) (NewCore off os cfg))))"
proof -
  have "deaf (cr_outside (NewCore off os cfg)) \<and> unlogged_trace (cr_trace (NewCore off os cfg))"
    using assms by (simp add: NewCore_def unlogged_trace_def)
  from twins_keep [OF deaf_store.life_deeper this] show ?thesis by (auto simp: unlogged_trace_def list_ex_iff)
qed

lemma no_log_no_order_witness:
  "\<not> list_ex writes (cr_trace (snd (run_state (life (knot 2) sample_boot [Command Arm, Command (SubmitOrder sample_submit)] True)
     (NewCore est full_disk sample_config))))"
proof -
  have "deaf full_disk" by (simp add: deaf_def full_disk_def)
  from no_log_no_order [OF this] show ?thesis by simp
qed

section \<open>Depth\<close>

interpretation depth: post_law "\<lambda>_. True"
  by unfold_locales (simp_all add: sends_def)

text \<open>The depth bounds the nesting of handler calls in the model, not in the code: a run that did not
  meet the bound is the same at every greater one, so the properties, which hold at every depth, say
  all there is about the code's run.\<close>

lemma depth_is_irrelevant:
  assumes "\<not> cr_stuck (snd (run_state (life (knot n) bt is stop) c))" "n \<le> m"
  shows "run_state (life (knot m) bt is stop) c = run_state (life (knot n) bt is stop) c"
  using assms(2)
proof (induction m rule: dec_induct)
  case (step m)
  then have "\<not> cr_stuck (snd (run_state (life (knot m) bt is stop) c))" using assms(1) by simp
  from twins_same [OF depth.life_deeper _ this] step.IH show ?case by simp
qed simp

lemma sample_deep_enough:
  "\<not> cr_stuck (snd (run_state (life (knot 0) sample_boot [Command (SubmitOrder sample_submit)] False) sample_core))"
  by code_simp

end
