(* ===== verification/CoreRuns.thy ===== *)
theory CoreRuns
  imports CoreProps
begin

text \<open>What single handlers do, as equations on the run: appends, plain submits, a gap in the prints.\<close>

section \<open>Runs of the primitives\<close>

lemma run_ask [simp]: "run_state (ask f) c = (f (cr_outside c) (cr_turn c), next_turn c)"
  by (simp add: ask_def)

lemma run_start [simp]: "run_state (start e) c = ((), effect e c)"
  by (simp add: start_def)

lemma run_when [simp]: "run_state (whenM b m) c = (if b then run_state m c else ((), c))"
  by (simp add: whenM_def)

definition appended :: "event \<Rightarrow> event_source \<Rightarrow> int \<Rightarrow> core \<Rightarrow> core" where
  "appended ev src seq c = closed_event ev seq (bump_revision (Event_Venue ev) (fold_event ev src (next_turn c)))"

text \<open>The append of an event that is no fill.\<close>

fun fills :: "event \<Rightarrow> bool" where
  "fills (OrderFilled f cum leaves avg i) = True"
| "fills _ = False"

lemma run_append:
  "\<not> fills ev \<Longrightarrow> run_state (appendAndFold ev src) c = (case os_append (cr_outside c) (cr_turn c) of
      Inl w \<Rightarrow> (Some w, next_turn c) | Inr seq \<Rightarrow> (None, appended ev src seq c))"
  by (cases ev) (auto simp: appendAndFold_def fill_positions_def emitForEvent_def appended_def split: sum.split)

lemma run_append_quiet:
  "\<not> fills ev \<Longrightarrow> run_state (append_quiet ev src) c = (case os_append (cr_outside c) (cr_turn c) of
      Inl w \<Rightarrow> ((), next_turn c) | Inr seq \<Rightarrow> ((), appended ev src seq c))"
  by (simp add: append_quiet_def run_append split: sum.split)

lemma appended_simps [simp]:
  "cr_trace (appended ev src seq c) = Logged ev src # cr_trace c"
  "cr_state (appended ev src seq c) = Apply (cr_state c) ev"
  "cr_outside (appended ev src seq c) = cr_outside c"
  "cr_turn (appended ev src seq c) = cr_turn c + 1"
  "cr_brokers (appended ev src seq c) = cr_brokers c"
  "cr_protectionPrices (appended ev src seq c) = cr_protectionPrices c"
  "cr_protectionPending (appended ev src seq c) = cr_protectionPending c"
  "cr_trailBooks (appended ev src seq c) = cr_trailBooks c"
  "cr_trailCandles (appended ev src seq c) = cr_trailCandles c"
  "cr_lastEligible (appended ev src seq c) = cr_lastEligible c"
  "cr_printHealthy (appended ev src seq c) = cr_printHealthy c"
  by (simp_all add: appended_def closed_event_def bump_revision_def fold_event_def next_turn_def)

lemma next_turn_simps [simp]:
  "cr_trace (next_turn c) = cr_trace c" "cr_state (next_turn c) = cr_state c" "cr_outside (next_turn c) = cr_outside c"
  "cr_turn (next_turn c) = cr_turn c + 1" "cr_brokers (next_turn c) = cr_brokers c" "cr_gate (next_turn c) = cr_gate c"
  "cr_marks (next_turn c) = cr_marks c" "cr_tz (next_turn c) = cr_tz c"
  "cr_trailPositionChecks (next_turn c) = cr_trailPositionChecks c"
  "cr_protectionPrices (next_turn c) = cr_protectionPrices c"
  "cr_protectionPending (next_turn c) = cr_protectionPending c"
  "cr_trailBooks (next_turn c) = cr_trailBooks c" "cr_trailCandles (next_turn c) = cr_trailCandles c"
  "cr_lastEligible (next_turn c) = cr_lastEligible c" "cr_printHealthy (next_turn c) = cr_printHealthy c"
  by (simp_all add: next_turn_def)

section \<open>Plain submits\<close>

text \<open>A market, limit or stop order needs no custody of the engine.\<close>

definition plain_submit :: "submit_order \<Rightarrow> bool" where
  "plain_submit cm \<longleftrightarrow> so_type cm \<noteq> TypeStopLimit \<and> so_type cm \<noteq> TypeLimitIfTouched \<and> so_type cm \<noteq> TypeTrailingStop"

text \<open>All that a plain submit has to pass, at the core that has minted its ID.\<close>

definition may_submit :: "core \<Rightarrow> submit_order \<Rightarrow> order_request \<Rightarrow> bool" where
  "may_submit c cm req \<longleftrightarrow>
     submit_shape cm req = None \<and> fst (Evaluate (st c) (cr_gate c) req (mark_of c)) \<and>
     (requiresReductionGuard c req \<longrightarrow> fst (checkSellLeaves c req (r_qty req) '''')) \<and>
     (case mget (cr_brokers c) (r_venue req) of None \<Rightarrow> False
      | Some caps \<Rightarrow> (r_session req = SessionOvernight \<longrightarrow> cb_overnightSession caps) \<and>
          (r_type req = TypeMarket \<longrightarrow> PhaseAt (cr_tz c) (now c) = RTH \<or> cb_marketOutsideRTH caps)) \<and>
     \<not> isl (os_append (cr_outside c) (cr_turn c))"

lemma plain_not_deferred: "plain_submit cm \<Longrightarrow> submit_shape cm (submit_request cm i) = None \<Longrightarrow> \<not> deferred_size cm"
  by (auto simp: plain_submit_def submit_shape_def Let_def split: if_splits)

definition arm :: "core \<Rightarrow> core" where
  "arm c = c\<lparr>cr_state := SetMasterArmed True (cr_state c)\<rparr>"

text \<open>C6. A market, limit or stop submit is acknowledged and POSTed, with its OrderSubmitted appended just before, exactly when its shape, the gate, the share guard, the venue and the log let it pass; otherwise it is refused and at most an OrderBlocked is appended.\<close>

theorem plain_submit_posts_iff_admitted:
  assumes "plain_submit cm"
  shows "let c1 = next_turn c; req = submit_request cm (os_id (cr_outside c) (cr_turn c)); g = requiresReductionGuard c1 req in
    case run_state (handleSubmit K cm) c of (ack, c') \<Rightarrow>
      if may_submit c1 cm req
      then ak_accepted ack \<and> ak_orderID ack = r_clientOrderID req \<and>
        cr_trace c' = PostedOrder req g # Logged (OrderSubmitted (native_order req (now c1) g)) SrcLocal # cr_trace c
      else \<not> ak_accepted ack \<and> (cr_trace c' = cr_trace c \<or>
        (\<exists>why ts. cr_trace c' = Logged (OrderBlocked (r_venue req) (r_clientOrderID req) req why ts) SrcLocal # cr_trace c))"
proof -
  define c1 where "c1 = next_turn c"
  define req where "req = submit_request cm (os_id (cr_outside c) (cr_turn c))"
  have type: "r_type req = so_type cm" by (simp add: req_def submit_request_def)
  have c1: "cr_trace c1 = cr_trace c" by (simp add: c1_def)
  have route: "route_submit c1 cm req = Inr (RouteNative, req, zero_time)"
    using assms by (simp add: route_submit_def type plain_submit_def)
  show ?thesis
  proof (cases "submit_shape cm req")
    case (Some why)
    then show ?thesis using assms
      by (simp add: handleSubmit_def plain_submit_def next_id_def Let_def may_submit_def c1_def [symmetric] req_def [symmetric] c1)
  next
    case None
    then have fixed: "\<not> deferred_size cm" using plain_not_deferred [OF assms] unfolding req_def by blast
    have run: "run_state (handleSubmit K cm) c = run_state (place_submit K cm RouteNative req zero_time) c1"
      using assms None fixed route
      by (simp add: handleSubmit_def plain_submit_def next_id_def Let_def c1_def [symmetric] req_def [symmetric])
    show ?thesis unfolding Let_def c1_def [symmetric] req_def [symmetric] run using fixed None
      by (auto simp: place_submit_def admit_submit_def may_submit_def submit_native_def block_order_def run_append
          run_append_quiet acked_def nacked_def c1 effect_def split: option.split sum.split if_splits)
  qed
qed

lemma plain_submit_posts_iff_admitted_witness:
  "case run_state (handleSubmit (knot 0) sample_submit) (arm sample_core) of (ack, c') \<Rightarrow>
     ak_accepted ack \<and> (\<exists>req g. PostedOrder req g \<in> set (cr_trace c'))"
proof -
  have plain: "plain_submit sample_submit" by (simp add: plain_submit_def sample_submit_def)
  have "may_submit (next_turn (arm sample_core)) sample_submit
      (submit_request sample_submit (os_id (cr_outside (arm sample_core)) (cr_turn (arm sample_core))))"
    by code_simp
  with plain_submit_posts_iff_admitted [OF plain, of "arm sample_core" "knot 0"] show ?thesis
    by (auto simp: Let_def split: prod.splits)
qed

section \<open>Replacements\<close>

text \<open>A working order of the venue that no plan and no custody holds, with no action in doubt.\<close>

definition venue_order :: "core \<Rightarrow> venue_id \<Rightarrow> string \<Rightarrow> exec_order \<Rightarrow> bool" where
  "venue_order c v i o1 \<longleftrightarrow> OrderVenue (st c) i = Some v \<and> order_at (st c) v i = Some o1 \<and> o_held o1 = None \<and>
     o_riskEntry o1 = None \<and> o_riskEntryID o1 = '''' \<and> \<not> unresolved o1 \<and> mhas (cr_brokers c) v"

text \<open>The request a replacement with a quantity and a price of its own sends.\<close>

definition raise_request :: "replace_order \<Rightarrow> exec_order \<Rightarrow> replace_request" where
  "raise_request cm o1 = \<lparr>rr_qty = ro_qty cm, rr_limitPrice = ro_limitPrice cm,
     rr_stopPrice = (if ro_stopPrice cm \<le> 0 then o_stopPrice o1 else ro_stopPrice cm)\<rparr>"

text \<open>The core under another gate and another position of the master switch.\<close>

definition regated :: "gate_config \<Rightarrow> bool \<Rightarrow> core \<Rightarrow> core" where
  "regated gate switch c = c\<lparr>cr_gate := gate, cr_state := (cr_state c)\<lparr>st_masterArmed := switch\<rparr>\<rparr>"

text \<open>C8. A replacement of a working venue order that is no exit, with a larger quantity and a price of its own, is logged and sent whatever the gate's limits are and whether or not the master switch is armed.\<close>

theorem replacement_passes_no_gate:
  assumes "state_wf (cr_state c)" "venue_order c (ro_venue cm) (ro_orderID cm) o1"
    and "\<not> requiresReductionGuard c (venue_request o1)" "\<not> isl (os_append (cr_outside c) (cr_turn c))"
    and "\<not> ro_qty cm \<le> 0" "\<not> ro_qty cm \<le> o_executedQty o1" "\<not> ro_limitPrice cm \<le> 0"
  shows "case run_state (handleReplace K cm) (regated gate switch c) of (ack, c') \<Rightarrow>
    ak_accepted ack \<and>
    cr_trace c' = SentReplace (ro_venue cm) (ro_orderID cm) (raise_request cm o1) #
      Logged (OrderActionChanged (ro_venue cm) (ro_orderID cm) (replace_action o1 (raise_request cm o1)) (now c)) SrcLocal # cr_trace c"
proof -
  let ?c = "regated gate switch c"
  have at: "OrderVenue (st c) (ro_orderID cm) = Some (ro_venue cm)" "order_at (st c) (ro_venue cm) (ro_orderID cm) = Some o1"
    using assms(2) by (simp_all add: venue_order_def)
  then have ids: "o_id o1 = ro_orderID cm" "o_venue o1 = ro_venue cm" using assms(1) by (auto simp: state_wf_def)
  have found: "OrderVenue (st ?c) (ro_orderID cm) = Some (ro_venue cm)" "the_order ?c (ro_orderID cm) = o1"
      "mget0 order0 (vs_orders (venue_at (st ?c) (ro_venue cm))) (ro_orderID cm) = o1"
    using at by (simp_all add: regated_def the_order_def order_at_def mget0_def OrderVenue_def venue_at_def)
  have guard: "\<not> requiresReductionGuard ?c (venue_request o1)"
    using assms(3) by (simp add: regated_def requiresReductionGuard_def reducesPosition_def VenuePositionShares_def venue_at_def)
  obtain seq where seq: "os_append (cr_outside c) (cr_turn c) = Inr seq"
    using assms(4) by (cases "os_append (cr_outside c) (cr_turn c)") simp_all
  obtain b where b: "mget (cr_brokers c) (ro_venue cm) = Some b"
    using assms(2) by (auto simp: venue_order_def mhas_def)
  have same: "now ?c = now c" "cr_outside ?c = cr_outside c" "cr_turn ?c = cr_turn c" "cr_brokers ?c = cr_brokers c"
      "cr_trace ?c = cr_trace c"
    by (simp_all add: regated_def now_def)
  show ?thesis using assms(2,5,6,7) ids guard seq b same
    by (simp add: handleReplace_def handleReplaceSingle_def replace_at_venue_def startVenueAction_def found venue_order_def
      run_append raise_request_def Let_def acked_def effect_def)
qed

text \<open>The sample order at the venue, and a replacement to 100000 shares at 10 dollars.\<close>

definition sample_working :: core where
  "sample_working = sample_core\<lparr>cr_state := Apply (cr_state sample_core)
     (OrderSubmitted (newOrderFromRequest (submit_request sample_submit ''ET'') 1705000000000))\<rparr>"

definition sample_raise :: replace_order where
  "sample_raise = \<lparr>ro_expectedRiskEntryPhase = '''', ro_venue = ''sim'', ro_orderID = ''ET'', ro_qty = Fin 100000,
     ro_limitPrice = Fin 10, ro_stopPrice = 0, ro_expectedHeldPhase = HeldPhaseStr ''''\<rparr>"

lemma replacement_passes_no_gate_witness:
  "\<not> fst (Evaluate (st sample_working) sample_gate ((submit_request sample_submit ''ET2'')\<lparr>r_qty := Fin 100000\<rparr>) (\<lambda>_. None)) \<and>
   (\<exists>rr. rr_qty rr = Fin 100000 \<and> SentReplace ''sim'' ''ET'' rr \<in>
      set (cr_trace (snd (run_state (handleReplace (knot 0) sample_raise) (regated sample_gate False sample_working)))))"
proof
  let ?o = "the_order sample_working ''ET''"
  have refused: "\<not> fst (Evaluate (st sample_working) sample_gate
      ((submit_request sample_submit ''ET2'')\<lparr>r_qty := Fin 100000\<rparr>) (\<lambda>_. None))"
    by code_simp
  then show "\<not> fst (Evaluate (st sample_working) sample_gate
      ((submit_request sample_submit ''ET2'')\<lparr>r_qty := Fin 100000\<rparr>) (\<lambda>_. None))" .
  have wf: "state_wf (st sample_working)"
    by (simp add: sample_working_def sample_core_def NewCore_def wf_boot wf_Apply del: Apply.simps)
  have ord: "venue_order sample_working (ro_venue sample_raise) (ro_orderID sample_raise) ?o" by code_simp
  have guard: "\<not> requiresReductionGuard sample_working (venue_request ?o)" by code_simp
  have log: "\<not> isl (os_append (cr_outside sample_working) (cr_turn sample_working))" by code_simp
  have sizes: "\<not> ro_qty sample_raise \<le> 0" "\<not> ro_qty sample_raise \<le> o_executedQty ?o" "\<not> ro_limitPrice sample_raise \<le> 0"
    by code_simp+
  from replacement_passes_no_gate [OF wf ord guard log sizes, of "knot 0" sample_gate False]
  show "\<exists>rr. rr_qty rr = Fin 100000 \<and> SentReplace ''sim'' ''ET'' rr \<in>
      set (cr_trace (snd (run_state (handleReplace (knot 0) sample_raise) (regated sample_gate False sample_working))))"
    by (intro exI [of _ "raise_request sample_raise ?o"]) (auto simp: sample_raise_def raise_request_def split: prod.splits)
qed

section \<open>Print gaps\<close>

definition no_evidence :: "core \<Rightarrow> bool" where
  "no_evidence c \<longleftrightarrow> cr_protectionPrices c = [] \<and> cr_protectionPending c = [] \<and> cr_trailBooks c = [] \<and>
     cr_trailCandles c = [] \<and> cr_lastEligible c = [] \<and> \<not> cr_printHealthy c"

definition waiting :: "core \<Rightarrow> string \<Rightarrow> bool" where
  "waiting c i \<longleftrightarrow> Working (the_order c i) \<and> pretrigger (the_order c i)"

lemma the_order_simps [simp]:
  "the_order (next_turn c) i = the_order c i"
  by (simp add: the_order_def split: option.split)

lemma the_order_alt:
  "the_order c i = (case OrderVenue (st c) i of None \<Rightarrow> order0
     | Some v \<Rightarrow> (case order_at (st c) v i of None \<Rightarrow> order0 | Some o1 \<Rightarrow> o1))"
  by (simp add: the_order_def order_at_def mget0_def split: option.split)

lemma the_order_cases:
  assumes "state_wf (st c)" "o_held (the_order c i) \<noteq> None"
  obtains v o1 where "OrderVenue (st c) i = Some v" "order_at (st c) v i = Some o1" "the_order c i = o1" "o_id o1 = i" "o_venue o1 = v"
proof -
  obtain v where v: "OrderVenue (st c) i = Some v"
    using assms(2) by (cases "OrderVenue (st c) i") (auto simp: the_order_def order0_def)
  then have "the_order c i = mget0 order0 (vs_orders (venue_at (st c) v)) i" by (simp add: the_order_def)
  with assms(2) obtain o1 where "order_at (st c) v i = Some o1" "the_order c i = o1"
    by (cases "order_at (st c) v i") (auto simp: mget0_def order_at_def order0_def)
  with v that assms(1) show ?thesis by (auto simp: state_wf_def)
qed

lemma waiting_held:
  assumes "state_wf (st c)" "waiting c i"
  shows "i \<in> set (heldOrderIDs c)"
proof -
  from assms(2) have held: "o_held (the_order c i) \<noteq> None" "Working (the_order c i)"
    by (auto simp: waiting_def pretrigger_def)
  from the_order_cases [OF assms(1) held(1)] obtain v o1
    where o1: "order_at (st c) v i = Some o1" "the_order c i = o1" by metis
  then have "mhas (st_venues (st c)) v"
    by (auto simp: order_at_def venue_at_def mget0_def newVenueState_def mhas_def split: option.splits)
  then obtain vs where vs: "mget (st_venues (st c)) v = Some vs" "mget (vs_orders vs) i = Some o1"
    using o1 by (auto simp: order_at_def venue_at_def mget0_def mhas_def)
  have "(v, vs) \<in> set (st_venues (st c))" "(i, o1) \<in> set (vs_orders vs)" by (rule mget_in_set [OF vs(1)], rule mget_in_set [OF vs(2)])
  moreover from held o1(2) have "o_held o1 \<noteq> None" "Working o1" by simp_all
  ultimately have "i \<in> fst ` {x \<in> set (vs_orders vs). o_held (snd x) \<noteq> None \<and> Working (snd x)}"
    by (intro image_eqI [of _ _ "(i, o1)"]) simp_all
  with \<open>(v, vs) \<in> set (st_venues (st c))\<close>
  have "i \<in> (\<Union>(_, vs) \<in> set (st_venues (st c)). fst ` {x \<in> set (vs_orders vs). o_held (snd x) \<noteq> None \<and> Working (snd x)})"
    by (intro UN_I [of "(v, vs)"]) simp_all
  then show ?thesis by (simp add: heldOrderIDs_def case_prod_unfold)
qed

text \<open>Pausing one order, when the store takes it.\<close>

definition pause_order :: "string \<Rightarrow> exec_order \<Rightarrow> unit exec" where
  "pause_order why o1 = whenM (pretrigger o1) (changeHeld o1 HeldPaused why False)"

definition takes_all :: "core \<Rightarrow> bool" where
  "takes_all c \<longleftrightarrow> (\<forall>k. \<exists>seq. os_append (cr_outside c) k = Inr seq)"

text \<open>The order the gap leaves: the held state paused with the reason, everything else as \<open>HeldOrderChanged\<close>
  carries it over.\<close>

definition paused_order :: "string \<Rightarrow> int \<Rightarrow> exec_order \<Rightarrow> exec_order" where
  "paused_order why ts o1 =
     (apply_held ((held_of o1)\<lparr>h_phase := HeldPaused, h_pausedReason := why, h_cancelRequested := False\<rparr>) o1)\<lparr>o_updatedMs := ts\<rparr>"

definition became_paused :: "string \<Rightarrow> exec_order \<Rightarrow> exec_order \<Rightarrow> bool" where
  "became_paused why o1 o2 \<longleftrightarrow> (\<exists>ts. o2 = paused_order why ts o1) \<and> phase_of o2 = HeldPaused \<and>
     h_pausedReason (held_of o2) = why \<and> o_status o2 = o_status o1 \<and> o_executedQty o2 = o_executedQty o1"

definition after_pause :: "string \<Rightarrow> exec_order \<Rightarrow> exec_order \<Rightarrow> bool" where
  "after_pause why o1 o2 \<longleftrightarrow> (if pretrigger o1 then became_paused why o1 o2 else o2 = o1)"

definition paused_step :: "string \<Rightarrow> core \<Rightarrow> string \<Rightarrow> core \<Rightarrow> bool" where
  "paused_step why c i c' \<longleftrightarrow> state_wf (st c') \<and> takes_all c' \<and> (no_evidence c' \<longleftrightarrow> no_evidence c) \<and>
     (\<forall>k. if k = i then after_pause why (the_order c k) (the_order c' k) else the_order c' k = the_order c k)"

lemma paused_order_facts:
  "phase_of (paused_order why ts o1) = HeldPaused" "h_pausedReason (held_of (paused_order why ts o1)) = why"
  "o_status (paused_order why ts o1) = o_status o1" "o_executedQty (paused_order why ts o1) = o_executedQty o1"
  by (auto simp: paused_order_def apply_held_def Let_def phase_of_def held_of_def split: option.split)

lemma became_paused_idle: "became_paused why o1 o2 \<Longrightarrow> \<not> pretrigger o2"
  by (auto simp: became_paused_def pretrigger_def)

lemma pause_one:
  assumes wf: "state_wf (st c)" and ok: "takes_all c"
    and run: "run_state (pause_order why (the_order c i)) c = (u, c')"
  shows "paused_step why c i c'"
proof (cases "pretrigger (the_order c i)")
  case False
  then show ?thesis using assms by (auto simp: paused_step_def pause_order_def after_pause_def)
next
  case True
  then obtain h where h: "o_held (the_order c i) = Some h" by (auto simp: pretrigger_def)
  then obtain v o1 where o1: "OrderVenue (st c) i = Some v" "order_at (st c) v i = Some o1" "the_order c i = o1"
      "o_id o1 = i" "o_venue o1 = v"
    using the_order_cases [OF wf] by (metis option.distinct(1))
  obtain seq where seq: "os_append (cr_outside c) (cr_turn c) = Inr seq" using ok by (auto simp: takes_all_def)
  let ?h = "h\<lparr>h_phase := HeldPaused, h_pausedReason := why, h_cancelRequested := False\<rparr>"
  have c': "c' = appended (HeldOrderChanged v i ?h (now c)) SrcLocal seq c"
    using run True h o1 seq by (simp add: pause_order_def changeHeld_def run_append_quiet)
  have new: "the_order c' k = (if k = i then (apply_held ?h o1)\<lparr>o_updatedMs := now c\<rparr> else the_order c k)" for k
    using o1 by (auto simp: c' the_order_alt order_at_mutate OrderVenue_def split: option.split)
  have "after_pause why (the_order c i) (the_order c' i)"
    using True h o1(3) paused_order_facts[of why "now c" o1]
    by (auto simp: after_pause_def became_paused_def new paused_order_def held_of_def)
  moreover have "state_wf (st c')" "takes_all c'" "no_evidence c' = no_evidence c"
    using wf ok by (simp_all add: c' takes_all_def no_evidence_def wf_Apply del: Apply.simps)
  ultimately show ?thesis by (simp add: paused_step_def new)
qed

lemma pause_each:
  "state_wf (st c) \<Longrightarrow> takes_all c \<Longrightarrow>
    run_state (each ids (\<lambda>i. do { o1 \<leftarrow> gets (\<lambda>c. the_order c i); pause_order why o1 })) c = (u, c') \<Longrightarrow>
    (no_evidence c' \<longleftrightarrow> no_evidence c) \<and>
    (\<forall>k. if k \<in> set ids then after_pause why (the_order c k) (the_order c' k) else the_order c' k = the_order c k)"
proof (induction ids arbitrary: c)
  case (Cons i ids)
  obtain u1 c1 where one: "run_state (pause_order why (the_order c i)) c = (u1, c1)" by (cases "run_state (pause_order why (the_order c i)) c")
  from pause_one [OF Cons.prems(1,2) one] have step: "paused_step why c i c1" .
  from Cons.prems(3) one
  have "run_state (each ids (\<lambda>i. do { o1 \<leftarrow> gets (\<lambda>c. the_order c i); pause_order why o1 })) c1 = (u, c')" by simp
  from Cons.IH [OF _ _ this] step
  have rest: "no_evidence c' \<longleftrightarrow> no_evidence c"
    "\<And>k. if k \<in> set ids then after_pause why (the_order c1 k) (the_order c' k) else the_order c' k = the_order c1 k"
    "\<And>k. if k = i then after_pause why (the_order c k) (the_order c1 k) else the_order c1 k = the_order c k"
    by (simp_all add: paused_step_def)
  have twice: "after_pause why o1 o2 \<Longrightarrow> after_pause why o2 o3 \<Longrightarrow> after_pause why o1 o3" for o1 o2 o3
    using became_paused_idle[of why o1 o2] by (auto simp: after_pause_def split: if_splits)
  have "if k \<in> set (i # ids) then after_pause why (the_order c k) (the_order c' k) else the_order c' k = the_order c k" for k
    using rest(2)[of k] rest(3)[of k] twice by (cases "k = i"; cases "k \<in> set ids") auto
  with rest(1) show ?case by blast
qed simp

text \<open>C7. After a gap in the prints all price evidence is gone, no preview is trusted, and no held order waits for a trigger any more: when the store takes the appends, each order that did is paused with the gap as its reason, its status and executed quantity unchanged and nothing else altered but what the held-order event carries over, and an order that did not wait for a trigger is untouched.\<close>

theorem gap_stops_triggers:
  assumes "ep_gap p" "state_wf (cr_state c)" "takes_all c"
  shows "let c' = snd (run_state (handleEligiblePrint K p) c) in
    no_evidence c' \<and> (\<forall>symbol. previewEligible c' symbol = None) \<and> (\<forall>i. \<not> waiting c' i) \<and>
    (\<forall>i. waiting c i \<longrightarrow> became_paused ''eligible-print gap; resume manually'' (the_order c i) (the_order c' i)) \<and>
    (\<forall>i. \<not> pretrigger (the_order c i) \<longrightarrow> the_order c' i = the_order c i)"
proof -
  define c1 where "c1 = clear_evidence (if ep_recvTsMs p \<le> 0 then now c else ep_recvTsMs p) c"
  let ?why = "''eligible-print gap; resume manually''"
  obtain u c' where run: "run_state (each_held (pause_order ?why)) c1 = (u, c')"
    by (cases "run_state (each_held (pause_order ?why)) c1")
  have c1: "state_wf (st c1)" "takes_all c1" "no_evidence c1"
    using assms(2,3) by (simp_all add: c1_def clear_evidence_def takes_all_def no_evidence_def)
  have same: "the_order c1 i = the_order c i" for i by (simp add: c1_def clear_evidence_def the_order_def split: option.split)
  have run': "run_state (each (heldOrderIDs c1) (\<lambda>i. do { o1 \<leftarrow> gets (\<lambda>c. the_order c i); pause_order ?why o1 })) c1 = (u, c')"
    using run by (simp add: each_held_def)
  have each: "no_evidence c'"
    "\<And>k. if k \<in> set (heldOrderIDs c1) then after_pause ?why (the_order c k) (the_order c' k) else the_order c' k = the_order c k"
    using pause_each [OF c1(1,2) run', unfolded same] c1(3) by blast+
  have listed: "i \<in> set (heldOrderIDs c1)" if "waiting c i" for i
    using waiting_held [OF c1(1)] that by (simp add: waiting_def same)
  have paused: "became_paused ?why (the_order c i) (the_order c' i)" if "waiting c i" for i
    using each(2)[of i] listed[OF that] that by (simp add: after_pause_def waiting_def)
  have kept: "the_order c' i = the_order c i" if "\<not> pretrigger (the_order c i)" for i
    using each(2)[of i] that by (auto simp: after_pause_def split: if_splits)
  have quiet: "\<not> waiting c' i" for i
    using each(2)[of i] listed[of i] became_paused_idle
    by (cases "i \<in> set (heldOrderIDs c1)") (auto simp: waiting_def after_pause_def split: if_splits)
  have "previewEligible c' symbol = None" for symbol
    using each(1) by (simp add: previewEligible_def no_evidence_def)
  moreover have "snd (run_state (handleEligiblePrint K p) c) = c'"
    using assms(1) run by (simp add: handleEligiblePrint_def print_gap_def pause_order_def [abs_def] c1_def [symmetric])
  ultimately show ?thesis using each(1) paused kept quiet by (simp add: Let_def)
qed

text \<open>A working stop in custody, waiting for its trigger.\<close>

definition waiting_stop :: exec_order where
  "waiting_stop = order0\<lparr>o_venue := ''sim'', o_id := ''ET9'', o_symbol := ''AAPL'', o_side := SideSell, o_type := TypeStopLimit,
     o_qty := Fin 5, o_leavesQty := Fin 5, o_stopPrice := Fin 9, o_limitPrice := Fin 8, o_held := Some held0\<rparr>"

definition sample_waiting :: core where
  "sample_waiting = sample_core\<lparr>cr_state := Apply (cr_state sample_core) (OrderSubmitted waiting_stop)\<rparr>"

lemma gap_stops_triggers_witness:
  "waiting sample_waiting ''ET9'' \<and>
   phase_of (the_order (snd (run_state (handleEligiblePrint (knot 0) sample_gap) sample_waiting)) ''ET9'') = HeldPaused"
proof -
  have w: "waiting sample_waiting ''ET9''" by code_simp
  have "ep_gap sample_gap" "state_wf (st sample_waiting)" "takes_all sample_waiting"
    by (simp_all add: sample_gap_def sample_waiting_def sample_core_def NewCore_def wf_boot wf_Apply takes_all_def sample_outside_def
      del: Apply.simps)
  from gap_stops_triggers [OF this, of "knot 0"] w show ?thesis by (auto simp: Let_def became_paused_def)
qed

end
