(* ===== verification/VolumeProfile.thy ===== *)
theory VolumeProfile
  imports Bars
begin

text \<open>
  \<open>internal/md/volume_profile.go\<close>: the volume-by-price profile of a viewport. Reports are
  identified by symbol, day and sequence; a report delivered twice with different contents
  counts as a conflict and is left out. The iteration order of Go's map is the parameter
  \<open>ord\<close>; the context is one that is not cancelled. \<open>None\<close> is a run-time panic.
\<close>

section \<open>Definitions\<close>

definition VolumeProfileMaxPrints :: nat where
  "VolumeProfileMaxPrints = 96000"

datatype vp_error = ErrInvalidSelection | ErrVolumeProfileTooLarge

record vp_row =
  vr_Lower :: f64
  vr_Upper :: f64
  vr_Volume :: int

record volume_profile =
  vp_Rows :: "vp_row list"
  vp_Total :: int
  vp_POC :: "f64 option"
  vp_VAH :: "f64 option"
  vp_VAL :: "f64 option"
  vp_Reasons :: "string list"

definition profile0 :: volume_profile where
  "profile0 = \<lparr>vp_Rows = [], vp_Total = 0, vp_POC = None, vp_VAH = None, vp_VAL = None, vp_Reasons = []\<rparr>"

definition VolumeEligibleCondition :: "trade_condition \<Rightarrow> bool" where
  "VolumeEligibleCondition c = cp_volumeEligible (conditionPolicyFor c)"

type_synonym vp_identity = "string \<times> int \<times> int"

record vp_report =
  rp_TsMs :: int
  rp_Price :: f64
  rp_Volume :: int
  rp_Condition :: trade_condition
  rp_eligible :: bool
  rp_conflict :: bool

definition add_reason :: "string \<Rightarrow> string list \<Rightarrow> string list" where
  "add_reason r rs = (if r \<in> set rs then rs else rs @ [r])"

text \<open>The first loop: one report per identity, and the reasons met on the way.\<close>

definition collect_report :: "tz \<Rightarrow> int \<Rightarrow> int \<Rightarrow> tick \<Rightarrow>
    (vp_identity, vp_report) gomap \<times> string list \<Rightarrow> (vp_identity, vp_report) gomap \<times> string list" where
  "collect_report off lo hi t = (\<lambda>(reports, reasons).
     let inRange = (lo \<le> tk_TsMs t \<and> tk_TsMs t < hi) in
     if tk_Seq t \<le> 0 then (reports, if inRange then add_reason ''missing_sequence'' reasons else reasons)
     else if tk_TsMs t \<le> 0 \<or> 253402300799999 < tk_TsMs t then (reports, add_reason ''invalid_report'' reasons)
     else let key = (tk_Symbol t, DayMs off (tk_TsMs t), tk_Seq t);
              eligible = VolumeEligibleCondition (tk_Condition t)
          in case mget reports key of
               Some prev \<Rightarrow> (mput key (prev\<lparr>rp_conflict := rp_conflict prev \<or> rp_TsMs prev \<noteq> tk_TsMs t \<or>
                   \<not> feq (rp_Price prev) (tk_Price t) \<or> rp_Volume prev \<noteq> tk_Volume t \<or>
                   rp_eligible prev \<noteq> eligible\<rparr>) reports, reasons)
             | None \<Rightarrow> (mput key \<lparr>rp_TsMs = tk_TsMs t, rp_Price = tk_Price t, rp_Volume = tk_Volume t,
                   rp_Condition = tk_Condition t, rp_eligible = eligible, rp_conflict = False\<rparr> reports, reasons))"

text \<open>The second loop: the samples inside the viewport, their bounds and their volume.\<close>

record vp_selection =
  se_Total :: int
  se_Reasons :: "string list"
  se_lo :: f64
  se_hi :: f64
  se_selected :: "(f64 \<times> int) list"

definition select_one :: "int \<Rightarrow> int \<Rightarrow> vp_report \<Rightarrow> vp_selection \<Rightarrow> vp_selection option" where
  "select_one lo hi r s =
     (if rp_conflict r
      then Some (s\<lparr>se_Reasons := add_reason ''conflicting_reports'' (se_Reasons s)\<rparr>)
      else if rp_TsMs r < lo \<or> hi \<le> rp_TsMs r then Some s
      else if \<not> rp_eligible r
      then Some (if rp_Condition r = TradeConditionUnknown
                 then s\<lparr>se_Reasons := add_reason ''unknown_condition'' (se_Reasons s)\<rparr> else s)
      else if rp_Volume r \<le> 0 \<or> rp_Price r \<le> 0 \<or> is_nan (rp_Price r) \<or> is_inf (rp_Price r)
      then Some (s\<lparr>se_Reasons := add_reason ''invalid_report'' (se_Reasons s)\<rparr>)
      else if 9007199254740991 - se_Total s < rp_Volume r then None
      else Some (s\<lparr>se_Total := se_Total s + rp_Volume r, se_lo := go_min (se_lo s) (rp_Price r),
                  se_hi := go_max (se_hi s) (rp_Price r),
                  se_selected := se_selected s @ [(rp_Price r, rp_Volume r)]\<rparr>))"

fun select_reports :: "int \<Rightarrow> int \<Rightarrow> vp_report list \<Rightarrow> vp_selection \<Rightarrow> vp_selection \<times> bool" where
  "select_reports lo hi [] s = (s, True)"
| "select_reports lo hi (r # rs) s =
     (case select_one lo hi r s of None \<Rightarrow> (s, False) | Some s \<Rightarrow> select_reports lo hi rs s)"

definition row_index :: "f64 \<Rightarrow> f64 \<Rightarrow> nat \<Rightarrow> f64 \<Rightarrow> nat" where
  "row_index lo width n price =
     (if 0 < width
      then nat (min (int n - 1) (max 0 (trunc64 (math_floor ((price - lo) / width)))))
      else 0)"

definition empty_rows :: "f64 \<Rightarrow> f64 \<Rightarrow> f64 \<Rightarrow> nat \<Rightarrow> vp_row list" where
  "empty_rows lo hi width n =
     (let rows = map (\<lambda>i. \<lparr>vr_Lower = lo + float_of_int (int i) * width,
                          vr_Upper = lo + float_of_int (int i + 1) * width, vr_Volume = 0\<rparr>) [0..<n]
      in rows[n - 1 := (rows ! (n - 1))\<lparr>vr_Upper := hi\<rparr>])"

definition add_sample :: "f64 \<Rightarrow> f64 \<Rightarrow> nat \<Rightarrow> f64 \<times> int \<Rightarrow> vp_row list \<Rightarrow> vp_row list" where
  "add_sample lo width n = (\<lambda>(price, volume) rows.
     let i = row_index lo width n price
     in rows[i := (rows ! i)\<lparr>vr_Volume := vr_Volume (rows ! i) + volume\<rparr>])"

definition center :: "vp_row \<Rightarrow> f64" where
  "center r = vr_Lower r + (vr_Upper r - vr_Lower r) / fconst 2"

definition distance :: "nat \<Rightarrow> nat \<Rightarrow> f64" where
  "distance n i = \<bar>float_of_int (2 * int i + 1 - int n)\<bar>"

definition point_of_control :: "int list \<Rightarrow> nat" where
  "point_of_control vols =
     fold (\<lambda>i poc. if vols ! poc < vols ! i \<or>
             (vols ! i = vols ! poc \<and> distance (length vols) i < distance (length vols) poc) then i else poc)
       [1..<length vols] 0"

text \<open>The loop that widens the value area, one row at a time.\<close>

function value_area :: "int list \<Rightarrow> nat \<Rightarrow> int \<Rightarrow> nat \<Rightarrow> nat \<Rightarrow> int \<Rightarrow> (nat \<times> nat) option" where
  "value_area vols poc target left right volume =
     (if volume < target
      then let n = length vols;
               chooseLeft = (if 0 < left \<and> right + 1 < n
                 then let a = vols ! (left - 1); b = vols ! (right + 1)
                      in b < a \<or> (a = b \<and> int poc - (int left - 1) \<le> int right + 1 - int poc)
                 else right + 1 = n)
           in if 0 < left \<and> chooseLeft
              then value_area vols poc target (left - 1) right (volume + vols ! (left - 1))
              else if right + 1 < n
              then value_area vols poc target left (right + 1) (volume + vols ! (right + 1))
              else None
      else Some (left, right))"
  by pat_completeness auto

termination
  by (relation "measure (\<lambda>(vols, poc, target, left, right, volume). left + (length vols - right))") auto

declare value_area.simps [simp del]

definition area_target :: "int \<Rightarrow> int \<Rightarrow> int" where
  "area_target t valueArea = t sdiv 100 * valueArea + (t smod 100 * valueArea + 99) sdiv 100"

text \<open>What follows the selection, on a selection that has volume.\<close>

definition profile_rows :: "vp_selection \<Rightarrow> nat \<Rightarrow> vp_row list" where
  "profile_rows s rowCount =
     (let width = (se_hi s - se_lo s) / float_of_int (int rowCount);
          (n, width) = (if feq (se_hi s) (se_lo s) \<or> feq width 0 then (1, 0) else (rowCount, width))
      in fold (add_sample (se_lo s) width n) (se_selected s) (empty_rows (se_lo s) (se_hi s) width n))"

definition with_area :: "volume_profile \<Rightarrow> vp_row list \<Rightarrow> nat \<Rightarrow> int \<Rightarrow> volume_profile option" where
  "with_area out rows poc valueArea =
     map_option (\<lambda>(left, right). out\<lparr>vp_Rows := rows, vp_POC := Some (center (rows ! poc)),
         vp_VAH := Some (vr_Upper (rows ! right)), vp_VAL := Some (vr_Lower (rows ! left))\<rparr>)
       (value_area (map vr_Volume rows) poc (area_target (vp_Total out) valueArea) poc poc (vr_Volume (rows ! poc)))"

definition finish_profile :: "vp_selection \<Rightarrow> nat \<Rightarrow> int \<Rightarrow> volume_profile option" where
  "finish_profile s rowCount valueArea =
     (let out = profile0\<lparr>vp_Total := se_Total s, vp_Reasons := sort (se_Reasons s)\<rparr>
      in if se_Total s = 0 then Some out
         else with_area out (profile_rows s rowCount) (point_of_control (map vr_Volume (profile_rows s rowCount))) valueArea)"

definition CalculateVolumeProfile :: "tz \<Rightarrow>
    ((vp_identity, vp_report) gomap \<Rightarrow> (vp_identity, vp_report) gomap) \<Rightarrow>
    tick list \<Rightarrow> int \<Rightarrow> int \<Rightarrow> int \<Rightarrow> int \<Rightarrow> (volume_profile \<times> vp_error option) option" where
  "CalculateVolumeProfile off ord ticks lo hi rowCount valueArea =
     (if lo \<le> 0 \<or> hi \<le> lo \<or> rowCount < 1 \<or> 200 < rowCount \<or> valueArea < 1 \<or> 100 < valueArea
      then Some (profile0, Some ErrInvalidSelection)
      else if VolumeProfileMaxPrints < length ticks then Some (profile0, Some ErrVolumeProfileTooLarge)
      else let (reports, reasons) = fold (collect_report off lo hi) ticks ([], []);
               (s, ok) = select_reports lo hi (map snd (ord reports))
                 \<lparr>se_Total = 0, se_Reasons = reasons, se_lo = PInf, se_hi = NInf, se_selected = []\<rparr>
           in if \<not> ok
              then Some (profile0\<lparr>vp_Total := se_Total s, vp_Reasons := se_Reasons s\<rparr>, Some ErrVolumeProfileTooLarge)
              else map_option (\<lambda>p. (p, None)) (finish_profile s (nat rowCount) valueArea))"

section \<open>The value area is always reached\<close>

lemma value_area_spec:
  assumes "\<forall>v \<in> set vols. 0 \<le> v" "target \<le> sum_list vols"
  shows "left \<le> poc \<Longrightarrow> poc \<le> right \<Longrightarrow> right < length vols \<Longrightarrow> volume = (\<Sum>i = left..right. vols ! i) \<Longrightarrow>
    \<exists>l r. value_area vols poc target left right volume = Some (l, r) \<and> l \<le> poc \<and> poc \<le> r \<and> r < length vols \<and>
      target \<le> (\<Sum>i = l..r. vols ! i)"
proof (induction "left + (length vols - right)" arbitrary: left right volume rule: less_induct)
  case less
  let ?n = "length vols"
  define goleft where "goleft = (if 0 < left \<and> right + 1 < ?n
      then let a = vols ! (left - 1); b = vols ! (right + 1)
           in b < a \<or> (a = b \<and> int poc - (int left - 1) \<le> int right + 1 - int poc)
      else right + 1 = ?n)"
  have eq: "value_area vols poc target left right volume =
     (if volume < target
      then if 0 < left \<and> goleft then value_area vols poc target (left - 1) right (volume + vols ! (left - 1))
           else if right + 1 < ?n then value_area vols poc target left (right + 1) (volume + vols ! (right + 1))
           else None
      else Some (left, right))"
    by (subst value_area.simps) (simp add: Let_def goleft_def)
  show ?case
  proof (cases "volume < target")
    case False
    then show ?thesis using eq less.prems by simp
  next
    case True
    consider (left) "0 < left \<and> goleft" | (right) "\<not> (0 < left \<and> goleft)" "right + 1 < ?n"
      | (none) "\<not> (0 < left \<and> goleft)" "\<not> right + 1 < ?n" by blast
    then show ?thesis
    proof cases
      case left
      then have "{left - 1..right} = insert (left - 1) {left..right}" "left - 1 \<notin> {left..right}"
        using less.prems by auto
      then have "volume + vols ! (left - 1) = (\<Sum>i = left - 1..right. vols ! i)"
        using left less.prems by simp
      then show ?thesis using less.hyps[of "left - 1" right "volume + vols ! (left - 1)"] left less.prems eq True by auto
    next
      case right
      have "volume + vols ! (right + 1) = (\<Sum>i = left..right + 1. vols ! i)" using less.prems by simp
      then show ?thesis using less.hyps[of left "right + 1" "volume + vols ! (right + 1)"] right less.prems eq True by auto
    next
      case none
      then have "right + 1 = ?n" "left = 0" using less.prems(3) by (auto simp: goleft_def)
      then have "volume = sum_list vols" using less.prems(4) by (simp add: sum_list_sum_nth atLeast0AtMost lessThan_Suc_atMost
            flip: atLeast0LessThan atLeastLessThanSuc_atLeastAtMost)
      then show ?thesis using True assms(2) by simp
    qed
  qed
qed

lemma poc_spec:
  assumes "vols \<noteq> []"
  shows "point_of_control vols < length vols \<and> (\<forall>i < length vols. vols ! i \<le> vols ! point_of_control vols)"
proof -
  define step where "step = (\<lambda>i poc. if vols ! poc < vols ! i \<or>
    (vols ! i = vols ! poc \<and> distance (length vols) i < distance (length vols) poc) then i else poc)"
  have "k \<le> length vols \<Longrightarrow> 0 < k \<Longrightarrow> fold step [1..<k] 0 < k \<and> (\<forall>i < k. vols ! i \<le> vols ! fold step [1..<k] 0)" for k
  proof (induction k)
    case (Suc k)
    show ?case
    proof (cases "k = 0")
      case False
      then have IH: "fold step [1..<k] 0 < k" "\<forall>i < k. vols ! i \<le> vols ! fold step [1..<k] 0" using Suc by auto
      have "fold step [1..<Suc k] 0 = step k (fold step [1..<k] 0)" using False by simp
      then show ?thesis using IH by (auto simp: step_def less_Suc_eq intro: order_trans[OF _ less_imp_le])
    qed simp
  qed simp
  from this[of "length vols"] show ?thesis using assms by (simp add: point_of_control_def step_def)
qed

lemma area_target_bounds:
  assumes "0 \<le> t" "1 \<le> v" "v \<le> 100"
  shows "area_target t v \<le> t" "v * t \<le> 100 * area_target t v"
proof -
  define q r where "q = t div 100" and "r = t mod 100"
  have t: "t = 100 * q + r" "0 \<le> r" "r < 100" "0 \<le> q" using assms(1) by (auto simp: q_def r_def)
  have rv: "0 \<le> r * v" "r * v \<le> 100 * r" using t assms mult_left_mono[of v 100 r] by auto
  have "t sdiv 100 = q" using assms(1) by (simp add: sdiv_pos_eq q_def)
  moreover have "t smod 100 = r" using assms(1) by (simp add: smod_pos r_def)
  ultimately have e: "area_target t v = q * v + (r * v + 99) div 100" using rv by (simp add: area_target_def sdiv_pos_eq)
  have d: "r * v \<le> 100 * ((r * v + 99) div 100)" "(r * v + 99) div 100 \<le> r" using rv by linarith+
  have "q * v \<le> q * 100" using t(4) assms(3) by (rule mult_left_mono[rotated])
  then show "area_target t v \<le> t" unfolding e using d(2) t(1) by linarith
  have "v * t = 100 * (q * v) + r * v" unfolding t(1) by (simp add: algebra_simps)
  then show "v * t \<le> 100 * area_target t v" unfolding e using d(1) by (simp add: algebra_simps)
qed

definition selection_ok :: "vp_selection \<Rightarrow> bool" where
  "selection_ok s \<longleftrightarrow> se_Total s = sum_list (map snd (se_selected s)) \<and> (\<forall>v \<in> snd ` set (se_selected s). 0 < v)"

lemma select_one_ok: "select_one lo hi r s = Some t \<Longrightarrow> selection_ok s \<Longrightarrow> selection_ok t"
  by (auto simp: select_one_def selection_ok_def split: if_splits)

lemma select_ok: "selection_ok s \<Longrightarrow> selection_ok (fst (select_reports lo hi rs s))"
  by (induction rs arbitrary: s) (auto split: option.split dest: select_one_ok)

definition row_sum :: "vp_row list \<Rightarrow> int" where
  "row_sum rows = sum_list (map vr_Volume rows)"

lemma row_index_less: "0 < n \<Longrightarrow> row_index lo width n p < n"
  by (auto simp: row_index_def nat_less_iff)

lemma sum_list_upd: "i < length xs \<Longrightarrow> sum_list (xs[i := x]) = sum_list xs - xs ! i + (x :: int)"
  by (induction xs arbitrary: i) (auto simp: nth_Cons split: nat.split)

lemma add_sample_sum:
  assumes "length rows = n" "0 < n"
  shows "row_sum (add_sample lo width n (p, v) rows) = row_sum rows + v \<and>
    length (add_sample lo width n (p, v) rows) = n"
proof -
  have i: "row_index lo width n p < length (map vr_Volume rows)" using row_index_less[OF assms(2)] assms(1) by simp
  show ?thesis using assms i sum_list_upd[OF i, of "map vr_Volume rows ! row_index lo width n p + v"]
    by (simp add: add_sample_def row_sum_def Let_def map_update)
qed

lemma add_sample_nonneg:
  assumes "length rows = n" "0 < n" "\<forall>r \<in> set rows. 0 \<le> vr_Volume r" "0 < v"
  shows "\<forall>r \<in> set (add_sample lo width n (p, v) rows). 0 \<le> vr_Volume r"
proof -
  have "0 \<le> vr_Volume (rows ! row_index lo width n p)" using row_index_less[OF assms(2)] assms(1,3) by simp
  then show ?thesis using assms(3,4) set_update_subset_insert[of rows "row_index lo width n p"]
    by (fastforce simp: add_sample_def Let_def)
qed

lemma fold_samples:
  assumes "length rows = n" "0 < n" "\<forall>r \<in> set rows. 0 \<le> vr_Volume r" "\<forall>v \<in> snd ` set xs. 0 < v"
  shows "row_sum (fold (add_sample lo width n) xs rows) = row_sum rows + sum_list (map snd xs) \<and>
    length (fold (add_sample lo width n) xs rows) = n \<and>
    (\<forall>r \<in> set (fold (add_sample lo width n) xs rows). 0 \<le> vr_Volume r)"
  using assms
proof (induction xs arbitrary: rows)
  case (Cons x xs)
  obtain p v where x: "x = (p, v)" by fastforce
  show ?case using Cons.IH[of "add_sample lo width n x rows"] Cons.prems
      add_sample_sum[OF Cons.prems(1,2), of lo width p v] add_sample_nonneg[OF Cons.prems(1-3), of v lo width p]
    by (simp add: x)
qed simp

lemma empty_rows_ok:
  "length (empty_rows lo hi width n) = n" "row_sum (empty_rows lo hi width n) = 0"
  "\<forall>r \<in> set (empty_rows lo hi width n). 0 \<le> vr_Volume r"
proof -
  let ?rows = "map (\<lambda>i. \<lparr>vr_Lower = lo + float_of_int (int i) * width,
    vr_Upper = lo + float_of_int (int i + 1) * width, vr_Volume = 0\<rparr>) [0..<n]"
  show len: "length (empty_rows lo hi width n) = n" by (simp add: empty_rows_def Let_def)
  have zero: "map vr_Volume (empty_rows lo hi width n) = replicate n 0"
    by (rule nth_equalityI) (auto simp: len, auto simp: empty_rows_def Let_def nth_list_update)
  then show "row_sum (empty_rows lo hi width n) = 0" by (simp add: row_sum_def sum_list_replicate)
  have "vr_Volume ` set (empty_rows lo hi width n) \<subseteq> {0}" using zero by (metis list.set_map set_replicate_conv_if subsetI empty_iff)
  then show "\<forall>r \<in> set (empty_rows lo hi width n). 0 \<le> vr_Volume r" by force
qed

lemma profile_rows_ok:
  assumes "selection_ok s" "0 < rowCount"
  shows "row_sum (profile_rows s rowCount) = se_Total s \<and> profile_rows s rowCount \<noteq> [] \<and>
    (\<forall>r \<in> set (profile_rows s rowCount). 0 \<le> vr_Volume r)"
proof -
  have all: "row_sum (fold (add_sample lo width n) (se_selected s) (empty_rows lo hi width n)) = se_Total s \<and>
      fold (add_sample lo width n) (se_selected s) (empty_rows lo hi width n) \<noteq> [] \<and>
      (\<forall>r \<in> set (fold (add_sample lo width n) (se_selected s) (empty_rows lo hi width n)). 0 \<le> vr_Volume r)"
    if "0 < n" for lo hi width n
    using fold_samples[OF empty_rows_ok(1)[of lo hi width n] that empty_rows_ok(3), of "se_selected s" lo width]
      empty_rows_ok(2)[of lo hi width n] assms(1) that by (auto simp: selection_ok_def)
  let ?w = "(se_hi s - se_lo s) / float_of_int (int rowCount)"
  show ?thesis
    using all[of "Suc 0" "se_lo s" 0 "se_hi s"] all[OF assms(2), of "se_lo s" ?w "se_hi s"]
    by (cases "feq (se_hi s) (se_lo s) \<or> feq ?w 0") (simp_all add: profile_rows_def Let_def)
qed

text \<open>C37. The value-area loop ends without leaving the rows: the calculation always returns, and a profile with volume has rows that hold exactly the total, the point of control at a largest row, and a value area around it that holds at least the asked percentage.\<close>

theorem value_area_reached:
  "\<exists>p e. CalculateVolumeProfile off ord ticks lo hi rowCount valueArea = Some (p, e) \<and>
    (e = None \<and> vp_Total p \<noteq> 0 \<longrightarrow>
      sum_list (map vr_Volume (vp_Rows p)) = vp_Total p \<and>
      (\<exists>left poc right. left \<le> poc \<and> poc \<le> right \<and> right < length (vp_Rows p) \<and>
        vp_POC p = Some (center (vp_Rows p ! poc)) \<and>
        vp_VAL p = Some (vr_Lower (vp_Rows p ! left)) \<and> vp_VAH p = Some (vr_Upper (vp_Rows p ! right)) \<and>
        (\<forall>r \<in> set (vp_Rows p). vr_Volume r \<le> vr_Volume (vp_Rows p ! poc)) \<and>
        valueArea * vp_Total p \<le> 100 * (\<Sum>i = left..right. vr_Volume (vp_Rows p ! i))))"
proof (cases "lo \<le> 0 \<or> hi \<le> lo \<or> rowCount < 1 \<or> 200 < rowCount \<or> valueArea < 1 \<or> 100 < valueArea \<or>
    VolumeProfileMaxPrints < length ticks")
  case True
  then show ?thesis by (auto simp: CalculateVolumeProfile_def)
next
  case False
  define c where "c = fold (collect_report off lo hi) ticks ([], [])"
  define s where "s = fst (select_reports lo hi (map snd (ord (fst c)))
    \<lparr>se_Total = 0, se_Reasons = snd c, se_lo = PInf, se_hi = NInf, se_selected = []\<rparr>)"
  define ok where "ok = snd (select_reports lo hi (map snd (ord (fst c)))
    \<lparr>se_Total = 0, se_Reasons = snd c, se_lo = PInf, se_hi = NInf, se_selected = []\<rparr>)"
  have s: "selection_ok s" unfolding s_def by (rule select_ok) (simp add: selection_ok_def)
  have "0 \<le> sum_list (map snd (se_selected s))"
    by (rule sum_list_nonneg) (use s in \<open>auto simp: selection_ok_def intro: less_imp_le\<close>)
  then have pos: "0 \<le> se_Total s" using s by (simp add: selection_ok_def)
  define rows where "rows = profile_rows s (nat rowCount)"
  define vols where "vols = map vr_Volume rows"
  define poc where "poc = point_of_control vols"
  have rows: "row_sum rows = se_Total s" "vols \<noteq> []" "\<forall>v \<in> set vols. 0 \<le> v"
    using profile_rows_ok[OF s, of "nat rowCount"] False by (auto simp: rows_def vols_def)
  have tgt: "area_target (se_Total s) valueArea \<le> sum_list vols"
      "valueArea * se_Total s \<le> 100 * area_target (se_Total s) valueArea"
    using area_target_bounds[OF pos, of valueArea] False rows(1) by (simp_all add: row_sum_def vols_def)
  note poc = poc_spec[OF rows(2), folded poc_def]
  obtain l r where lr: "value_area vols poc (area_target (se_Total s) valueArea) poc poc (vols ! poc) = Some (l, r)"
    "l \<le> poc" "poc \<le> r" "r < length vols" "area_target (se_Total s) valueArea \<le> (\<Sum>i = l..r. vols ! i)"
    using value_area_spec[OF rows(3) tgt(1), of poc poc poc] poc by auto
  have run: "CalculateVolumeProfile off ord ticks lo hi rowCount valueArea =
    (if \<not> ok then Some (profile0\<lparr>vp_Total := se_Total s, vp_Reasons := se_Reasons s\<rparr>, Some ErrVolumeProfileTooLarge)
     else if se_Total s = 0 then Some (profile0\<lparr>vp_Total := se_Total s, vp_Reasons := sort (se_Reasons s)\<rparr>, None)
     else Some (profile0\<lparr>vp_Total := se_Total s, vp_Reasons := sort (se_Reasons s), vp_Rows := rows,
       vp_POC := Some (center (rows ! poc)), vp_VAH := Some (vr_Upper (rows ! r)), vp_VAL := Some (vr_Lower (rows ! l))\<rparr>, None))"
  proof -
    have "poc < length rows" using poc by (simp add: vols_def)
    then have "with_area (profile0\<lparr>vp_Total := se_Total s, vp_Reasons := sort (se_Reasons s)\<rparr>) rows poc valueArea =
      Some (profile0\<lparr>vp_Total := se_Total s, vp_Reasons := sort (se_Reasons s), vp_Rows := rows,
       vp_POC := Some (center (rows ! poc)), vp_VAH := Some (vr_Upper (rows ! r)), vp_VAL := Some (vr_Lower (rows ! l))\<rparr>)"
      using lr(1) by (simp add: with_area_def vols_def[symmetric] profile0_def) (simp add: vols_def)
    then show ?thesis
      using False unfolding CalculateVolumeProfile_def finish_profile_def Let_def split_beta c_def[symmetric] s_def[symmetric]
        ok_def[symmetric] rows_def[symmetric] vols_def[symmetric] poc_def[symmetric] by simp
  qed
  have "valueArea * se_Total s \<le> 100 * (\<Sum>i = l..r. vr_Volume (rows ! i))"
  proof -
    have "(\<Sum>i = l..r. vols ! i) = (\<Sum>i = l..r. vr_Volume (rows ! i))"
      using lr(4) by (intro sum.cong) (auto simp: vols_def)
    then show ?thesis using tgt(2) lr(5) by linarith
  qed
  moreover have "\<forall>x \<in> set rows. vr_Volume x \<le> vr_Volume (rows ! poc)"
    using poc by (auto simp: vols_def in_set_conv_nth)
  ultimately show ?thesis using rows(1) lr(2-4) unfolding run by (auto simp: row_sum_def vols_def profile0_def)
qed

section \<open>The map's iteration order does not matter\<close>

definition usable :: "int \<Rightarrow> int \<Rightarrow> vp_report \<Rightarrow> bool" where
  "usable lo hi r \<longleftrightarrow> \<not> rp_conflict r \<and> lo \<le> rp_TsMs r \<and> rp_TsMs r < hi \<and> rp_eligible r \<and>
     0 < rp_Volume r \<and> \<not> rp_Price r \<le> 0 \<and> \<not> is_nan (rp_Price r) \<and> \<not> is_inf (rp_Price r)"

definition reason_of :: "int \<Rightarrow> int \<Rightarrow> vp_report \<Rightarrow> string option" where
  "reason_of lo hi r =
     (if rp_conflict r then Some ''conflicting_reports''
      else if rp_TsMs r < lo \<or> hi \<le> rp_TsMs r then None
      else if \<not> rp_eligible r then (if rp_Condition r = TradeConditionUnknown then Some ''unknown_condition'' else None)
      else if usable lo hi r then None else Some ''invalid_report'')"

definition samples :: "int \<Rightarrow> int \<Rightarrow> vp_report list \<Rightarrow> (f64 \<times> int) list" where
  "samples lo hi rs = map (\<lambda>r. (rp_Price r, rp_Volume r)) (filter (usable lo hi) rs)"

lemma select_one_eq:
  "select_one lo hi r s =
     (if usable lo hi r
      then if 9007199254740991 < se_Total s + rp_Volume r then None
           else Some (s\<lparr>se_Total := se_Total s + rp_Volume r, se_lo := go_min (se_lo s) (rp_Price r),
                  se_hi := go_max (se_hi s) (rp_Price r), se_selected := se_selected s @ [(rp_Price r, rp_Volume r)]\<rparr>)
      else Some (case reason_of lo hi r of None \<Rightarrow> s
             | Some x \<Rightarrow> s\<lparr>se_Reasons := add_reason x (se_Reasons s)\<rparr>))"
  by (auto simp: select_one_def usable_def reason_of_def)

lemma set_add_reason [simp]: "set (add_reason r rs) = insert r (set rs)"
  by (auto simp: add_reason_def)

lemma distinct_add_reason [simp]: "distinct rs \<Longrightarrow> distinct (add_reason r rs)"
  by (simp add: add_reason_def)

definition selected_by :: "int \<Rightarrow> int \<Rightarrow> vp_report list \<Rightarrow> vp_selection \<Rightarrow> vp_selection \<Rightarrow> bool" where
  "selected_by lo hi rs s t \<longleftrightarrow>
     se_Total t = se_Total s + sum_list (map snd (samples lo hi rs)) \<and>
     se_lo t = foldl go_min (se_lo s) (map fst (samples lo hi rs)) \<and>
     se_hi t = foldl go_max (se_hi s) (map fst (samples lo hi rs)) \<and>
     se_selected t = se_selected s @ samples lo hi rs \<and>
     set (se_Reasons t) = set (se_Reasons s) \<union> (\<Union>r \<in> set rs. set_option (reason_of lo hi r)) \<and>
     (distinct (se_Reasons s) \<longrightarrow> distinct (se_Reasons t))"

lemma samples_Cons:
  "samples lo hi (r # rs) = (if usable lo hi r then [(rp_Price r, rp_Volume r)] else []) @ samples lo hi rs"
  by (simp add: samples_def)

lemma samples_nonneg: "0 \<le> sum_list (map snd (samples lo hi rs))"
  by (rule sum_list_nonneg) (auto simp: samples_def usable_def)

lemma select_reports_eq:
  "se_Total s \<le> 9007199254740991 \<Longrightarrow>
   (if se_Total s + sum_list (map snd (samples lo hi rs)) \<le> 9007199254740991
    then snd (select_reports lo hi rs s) \<and> selected_by lo hi rs s (fst (select_reports lo hi rs s))
    else \<not> snd (select_reports lo hi rs s))"
proof (induction rs arbitrary: s)
  case Nil
  then show ?case by (simp add: samples_def selected_by_def)
next
  case (Cons r rs)
  note nn = samples_nonneg[of lo hi rs]
  consider (big) "usable lo hi r" "9007199254740991 < se_Total s + rp_Volume r"
    | (use) "usable lo hi r" "\<not> 9007199254740991 < se_Total s + rp_Volume r"
    | (skip) "\<not> usable lo hi r" by blast
  then show ?case
  proof cases
    case big
    then have "select_reports lo hi (r # rs) s = (s, False)" by (simp add: select_one_eq)
    then show ?thesis using big nn by (simp add: samples_Cons)
  next
    case use
    define t where "t = s\<lparr>se_Total := se_Total s + rp_Volume r, se_lo := go_min (se_lo s) (rp_Price r),
      se_hi := go_max (se_hi s) (rp_Price r), se_selected := se_selected s @ [(rp_Price r, rp_Volume r)]\<rparr>"
    have run: "select_reports lo hi (r # rs) s = select_reports lo hi rs t"
      using use by (simp add: select_one_eq t_def)
    have none: "reason_of lo hi r = None" using use(1) by (auto simp: reason_of_def usable_def)
    have tot: "se_Total t + sum_list (map snd (samples lo hi rs)) = se_Total s + sum_list (map snd (samples lo hi (r # rs)))"
      using use(1) by (simp add: t_def samples_Cons)
    have "selected_by lo hi rs t u \<Longrightarrow> selected_by lo hi (r # rs) s u" for u
      using use(1) none by (simp add: selected_by_def t_def samples_Cons add.assoc)
    then show ?thesis using Cons.IH[of t] use(2) unfolding run tot by (auto simp: t_def)
  next
    case skip
    define t where "t = (case reason_of lo hi r of None \<Rightarrow> s | Some x \<Rightarrow> s\<lparr>se_Reasons := add_reason x (se_Reasons s)\<rparr>)"
    have run: "select_reports lo hi (r # rs) s = select_reports lo hi rs t"
      using skip by (simp add: select_one_eq t_def)
    have tot: "se_Total t = se_Total s" "samples lo hi (r # rs) = samples lo hi rs"
      using skip by (simp_all add: t_def samples_Cons split: option.split)
    have "selected_by lo hi rs t u \<Longrightarrow> selected_by lo hi (r # rs) s u" for u
      using tot(2) by (cases "reason_of lo hi r") (simp_all add: selected_by_def t_def)
    then show ?thesis using Cons.IH[of t] Cons.prems unfolding run tot by auto
  qed
qed

lemma add_sample_comm: "add_sample lo width n x \<circ> add_sample lo width n y = add_sample lo width n y \<circ> add_sample lo width n x"
proof
  fix rows
  obtain p v q w where xy: "x = (p, v)" "y = (q, w)" by fastforce
  define i j where "i = row_index lo width n p" and "j = row_index lo width n q"
  have "(rows[j := b])[i := a] = (rows[i := a])[j := b]" if "i \<noteq> j" for a b :: vp_row
    using that by (simp add: list_update_swap)
  then show "(add_sample lo width n x \<circ> add_sample lo width n y) rows = (add_sample lo width n y \<circ> add_sample lo width n x) rows"
    by (cases "i = j"; cases "j < length rows")
      (auto simp: xy add_sample_def Let_def i_def[symmetric] j_def[symmetric] list_update_swap list_update_beyond not_less add_ac)
qed

lemma go_min_comm: "go_min (go_min a x) y = go_min (go_min a y) x"
  by (cases a; cases x; cases y) (auto simp: go_min_def is_nan_def)

lemma go_max_comm: "go_max (go_max a x) y = go_max (go_max a y) x"
  by (cases a; cases x; cases y) (auto simp: go_max_def is_nan_def)

lemma foldl_perm:
  assumes "\<And>a x y. f (f a x) y = f (f a y) x" "mset xs = mset ys"
  shows "foldl f a xs = foldl f a ys"
proof -
  have "fold (\<lambda>x a. f a x) xs = fold (\<lambda>x a. f a x) ys"
    by (rule fold_multiset_equiv[OF _ assms(2)]) (auto simp: assms(1))
  then show ?thesis by (simp add: foldl_conv_fold)
qed

text \<open>What a caller can see: the error, and the profile when there is none.\<close>

definition visible :: "(volume_profile \<times> vp_error option) option \<Rightarrow> (volume_profile option \<times> vp_error option) option" where
  "visible = map_option (\<lambda>(p, e). (if e = None then Some p else None, e))"

theorem profile_map_order:
  assumes "\<And>m. mset (ord1 m) = mset m" "\<And>m. mset (ord2 m) = mset m"
  shows "visible (CalculateVolumeProfile off ord1 ticks lo hi rowCount valueArea) =
    visible (CalculateVolumeProfile off ord2 ticks lo hi rowCount valueArea)"
proof -
  define c where "c = fold (collect_report off lo hi) ticks ([], [])"
  define s0 where "s0 = \<lparr>se_Total = 0, se_Reasons = snd c, se_lo = PInf, se_hi = NInf, se_selected = []\<rparr>"
  define sel where "sel ord = select_reports lo hi (map snd (ord (fst c))) s0"
    for ord :: "(vp_identity, vp_report) gomap \<Rightarrow> (vp_identity, vp_report) gomap"
  define body where "body s = map_option (\<lambda>p. (p, None :: vp_error option)) (finish_profile s (nat rowCount) valueArea)" for s
  have run: "visible (CalculateVolumeProfile off ord ticks lo hi rowCount valueArea) =
    (if lo \<le> 0 \<or> hi \<le> lo \<or> rowCount < 1 \<or> 200 < rowCount \<or> valueArea < 1 \<or> 100 < valueArea
     then Some (None, Some ErrInvalidSelection)
     else if VolumeProfileMaxPrints < length ticks \<or> \<not> snd (sel ord) then Some (None, Some ErrVolumeProfileTooLarge)
     else visible (body (fst (sel ord))))" for ord
    unfolding CalculateVolumeProfile_def Let_def split_beta c_def[symmetric] s0_def[symmetric] sel_def[symmetric] body_def
    by (simp add: visible_def)
  have distinct_c: "distinct (snd (fold (collect_report off lo hi) ts (m, rs)))" if "distinct rs" for ts m rs
    using that by (induction ts arbitrary: m rs) (auto simp: collect_report_def Let_def split: option.split)
  define rs where "rs ord = map snd (ord (fst c))" for ord :: "(vp_identity, vp_report) gomap \<Rightarrow> (vp_identity, vp_report) gomap"
  have mrs: "mset (rs ord1) = mset (rs ord2)" using assms by (simp add: rs_def)
  then have smp: "mset (samples lo hi (rs ord1)) = mset (samples lo hi (rs ord2))" by (simp add: samples_def mset_filter)
  have p: "se_Total s0 \<le> 9007199254740991" "distinct (se_Reasons s0)"
    using distinct_c[of "[]" ticks "[]"] by (simp_all add: s0_def c_def)
  note q = select_reports_eq[OF p(1), of lo hi "rs ord" for ord, folded sel_def[unfolded rs_def[symmetric]]]
  have sums: "sum_list (map snd (samples lo hi (rs ord1))) = sum_list (map snd (samples lo hi (rs ord2)))"
    using smp by (metis mset_map sum_mset_sum_list)
  have ok: "snd (sel ord1) \<longleftrightarrow> snd (sel ord2)" using q[of ord1] q[of ord2] sums by (auto split: if_splits)
  have "body (fst (sel ord1)) = body (fst (sel ord2))" if "snd (sel ord1)"
  proof -
    have s1: "selected_by lo hi (rs ord1) s0 (fst (sel ord1))" and s2: "selected_by lo hi (rs ord2) s0 (fst (sel ord2))"
      using q[of ord1] q[of ord2] that ok by (auto split: if_splits)
    have m: "mset (map fst (samples lo hi (rs ord1))) = mset (map fst (samples lo hi (rs ord2)))" using smp by (metis mset_map)
    have t: "se_Total (fst (sel ord1)) = se_Total (fst (sel ord2))" using s1 s2 sums by (simp add: selected_by_def)
    have b: "se_lo (fst (sel ord1)) = se_lo (fst (sel ord2))" "se_hi (fst (sel ord1)) = se_hi (fst (sel ord2))"
      using s1 s2 foldl_perm[where f = go_min, OF go_min_comm m] foldl_perm[where f = go_max, OF go_max_comm m] by (simp_all add: selected_by_def)
    have "set (rs ord1) = set (rs ord2)" using mrs by (metis set_mset_mset)
    then have r: "sort (se_Reasons (fst (sel ord1))) = sort (se_Reasons (fst (sel ord2)))"
      using s1 s2 p(2) by (intro sorted_distinct_set_unique) (simp_all add: selected_by_def)
    have f: "fold (add_sample l w n) (se_selected (fst (sel ord1))) rows = fold (add_sample l w n) (se_selected (fst (sel ord2))) rows"
      for l w n rows
    proof -
      have "fold (add_sample l w n) (samples lo hi (rs ord1)) = fold (add_sample l w n) (samples lo hi (rs ord2))"
        by (rule fold_multiset_equiv[OF _ smp]) (rule add_sample_comm)
      then show ?thesis using s1 s2 by (simp add: selected_by_def s0_def)
    qed
    show ?thesis unfolding body_def finish_profile_def profile_rows_def t b r f ..
  qed
  then show ?thesis unfolding run using ok by simp
qed

section \<open>Witnesses\<close>

definition vp_print :: "int \<Rightarrow> int \<Rightarrow> int \<Rightarrow> tick" where
  "vp_print k p v = (print_at (1000 * k) p)\<lparr>tk_Seq := k, tk_Volume := v\<rparr>"

definition vp_ticks :: "tick list" where
  "vp_ticks = [vp_print 1 10 100, vp_print 2 12 300, vp_print 3 11 50, vp_print 3 11 50]"

definition vp_selected :: "vp_selection \<times> bool" where
  "vp_selected = (let (reports, reasons) = fold (collect_report ny2024 1720015200000 1720015260000) vp_ticks ([], [])
     in select_reports 1720015200000 1720015260000 (map snd (id reports))
          \<lparr>se_Total = 0, se_Reasons = reasons, se_lo = PInf, se_hi = NInf, se_selected = []\<rparr>)"

lemma vp_selected_code: "map_prod se_Total id vp_selected = (450, True)"
  by code_simp

lemma finish_total: "finish_profile s n v = Some p \<Longrightarrow> vp_Total p = se_Total s"
  by (auto simp: finish_profile_def with_area_def profile0_def Let_def split: if_splits)

lemma value_area_reached_witness:
  "\<exists>p. CalculateVolumeProfile ny2024 id vp_ticks 1720015200000 1720015260000 2 70 = Some (p, None) \<and>
    sum_list (map vr_Volume (vp_Rows p)) = 450"
proof -
  let ?run = "CalculateVolumeProfile ny2024 id vp_ticks 1720015200000 1720015260000 2 70"
  have run: "?run = map_option (\<lambda>p. (p, None)) (finish_profile (fst vp_selected) 2 70)"
    using vp_selected_code unfolding CalculateVolumeProfile_def
    by (simp add: VolumeProfileMaxPrints_def vp_ticks_def[THEN arg_cong[where f = length]] vp_selected_def
        Let_def split_beta map_prod_def)
  obtain p e where pe: "?run = Some (p, e)"
    "e = None \<and> vp_Total p \<noteq> 0 \<longrightarrow> sum_list (map vr_Volume (vp_Rows p)) = vp_Total p"
    using value_area_reached[of ny2024 id vp_ticks 1720015200000 1720015260000 2 70] by blast
  then have "e = None" "vp_Total p = 450"
    using run finish_total[of "fst vp_selected" 2 70 p] vp_selected_code by (auto simp: map_prod_def split_beta)
  then show ?thesis using pe by simp
qed

lemma profile_map_order_witness:
  "visible (CalculateVolumeProfile ny2024 rev vp_ticks 1720015200000 1720015260000 2 70) =
   visible (CalculateVolumeProfile ny2024 id vp_ticks 1720015200000 1720015260000 2 70)"
  by (rule profile_map_order) simp_all

end
