(* ===== verification/Spec2Isabelle.thy ===== *)
theory Spec2Isabelle
  imports SimCalls MdLaw LaneBridge CoreRuns Gate Reconcile ClosedOrders RoundTrip TrailPrice Protection HeldRoute
    VolumeProfile Bars TickAgg Tape Eligibility Feed Session Float64 Prelude
begin

text \<open>
  eTape is a day-trading program: a Go engine (src/engine) and a browser interface. The engine has
  two cores, each a single goroutine that owns its state. The market-data core (internal/md) turns
  prints and history into a tape, bars, indicators, price bands and the evidence the engine acts on; the execution core (internal/exec) turns
  requests, broker updates and prints into events, appends them to a durable log, and folds the log
  into orders, positions and balances. This development models the computational part of both.

  \<^bold>\<open>Theories and the code they model\<close>

  \<^item> Prelude: Go's maps as association lists in first-insertion order (\<open>mget\<close>, \<open>mput\<close>, \<open>mdel\<close>) and
    generic lemmas. Float64: IEEE 754 binary64, a finite value being the rational it stands for and
    every operation the exact rational rounded once, to nearest, ties to even; NaN and infinities are
    values of their own; math.Floor, Ceil, Max, Min, Abs, Round and the conversions as Go defines them.
  \<^item> Session (internal/session): the exchange calendar, trading days and phases, trading cycles,
    intraday buckets. The zone offset of an instant is the parameter \<open>off\<close> (the Go library reads
    it from the time-zone database), with the laws of New York time as hypotheses.
  \<^item> ExecTypes (exec/types.go): orders, requests, their texts and Validate. ExecState
    (exec/events.go, exec/state.go): the events, their stored form, \<open>Apply\<close> and \<open>Replay\<close>.
    Reconcile (exec/reconcile.go): adoption of broker snapshots and the exposure queries.
    Gate (exec/gate.go): the pre-trade checks.
  \<^item> RoundTrip (exec/roundtrip.go, exec/cycle.go) and ClosedOrders (exec/closed.go): the projections
    of the log that feed the trade history, the trading-cycle result and the order history.
  \<^item> HeldRoute (exec/held_route.go and the session windows of exec/trailing*.go), TrailPrice (the
    price rules of exec/risk_entry.go, exec/trailing.go, exec/trailing_candles.go) and Protection
    (exec/protective_price.go): the decisions around orders the engine itself holds.
  \<^item> StepMonad: handlers as computations in the library's state monad, and rules that carry an
    invariant through two runs of one handler. CoreBase (the state of \<open>Core\<close> in exec/core.go and what
    it asks of the outside), CoreLog (\<open>appendAndFold\<close>, position effects, the small operations on held
    orders), CoreHeld (cancel, protection sync, activation, trails), CoreOrders and CoreCommands
    (\<open>handleCmd\<close> and every command), CoreInputs (broker events, prints, books, candles, timers, one
    turn of \<open>Run\<close>, shutdown), CoreRecover (\<open>NewCore\<close>, \<open>Recover\<close>, a life of the engine). They cover
    exec/core.go, held_lifecycle.go, held_demand.go, risk_entry.go, risk_add.go, trailing*.go,
    protective_price.go and protection_warnings.go. CoreLaw and CoreSafety hold the laws an invariant
    has to satisfy, CoreSample a small concrete engine, CoreProps and CoreRuns the theorems.
  \<^item> SimBroker (broker/sim/sim.go): the simulated venue of the practice and demo modes, every
    operation as a function of the instant of the call. SimLaw carries an invariant of it through
    all operations, SimFills the book walk and the lifetime of IOC and FOK orders, SimProps the
    account and the fold of the reports. SimCalls has the concurrency: goroutines that call the
    venue, send their events after the lock, and the engine that reads the channel.
  \<^item> Feed (feed/feed.go, feed/events.go, feed/recording.go), Eligibility (md/eligibility.go), Tape (md/tape.go and de-duplication in
    md/core.go), TickAgg (md/tickagg.go), Bars (md/bars.go), VolumeProfile (md/volume_profile.go):
    the path of a print from the feed to the chart. Indicators (md/ind_calcs.go, md/indicator.go):
    the calculators and the registry of instances; BarStream and IndicatorLaw relate what the bar
    engine emits to what an instance holds. Luld (md/luld.go, md/luld_registry.go): the price-band
    estimate. ExecLane (md/execution.go): prints, books and candles for the execution core, and
    LaneBridge (cmd/etape/main.go) their translation into its inputs. MdCore (md/core.go, md/book.go,
    md/quote.go): the core's loop over all of these, MdLaw its invariant.

  A record has the fields of the Go struct with a prefix of its own, a function the name of the Go
  function where HOL allows it. A panic or an error is a value (\<open>option\<close>, or a sum with an error
  type). Where the code iterates a Go map and the result could depend on the order, the order is the
  parameter \<open>ord\<close>, and a theorem shows that it does not matter.

  \<^bold>\<open>The execution core\<close>

  \<open>Core\<close> is one goroutine, so an input is handled by one sequential computation. What it starts in
  other goroutines (a POST, a cancel, a snapshot query) is an entry of the trace \<open>cr_trace\<close>, and what
  comes back is an input of its own, at any later time or never. What it asks synchronously (whether
  an append succeeds, the next order ID, whether a market-data lease is granted, the clock, the order
  in which a map is visited while the loop changes the state) is answered by \<open>cr_outside\<close>, numbered
  by \<open>cr_turn\<close>, with nothing assumed about the answers. \<open>life\<close> is recovery, any sequence of inputs,
  then possibly the shutdown. Sums over the orders of a map add in list order, and a pure query of a
  venue the state does not have reads an empty one without adding it. Order updates and log lines are
  left out; a nil pointer the code would panic on (a held order without its trail or plan) is read as
  absent.

  \<^bold>\<open>What the lemmas show\<close>

  \<^item> Execution: replay keeps orders, index and venues consistent; the trade projections agree with each
    other on whole shares, and the order history with the state on a log without late reports
    (\<open>history_refines_state\<close>); the gate's caps hold after the admitted order is folded; fills win
    races with cancels.
  \<^item> The core, through any life of the engine: no order leaves before its intent is in the log, and none
    at all when the log refuses; the state stays well formed; disarmed, only reducing orders leave;
    recovery places nothing and trusts no price; a gap in the prints pauses every order that waits for
    a trigger; a plain submit is placed exactly
    when the gate, the share guard, the venue and the log let it. A replacement of a working order is
    sent without any gate (\<open>replacement_passes_no_gate\<close>), unlike what the README says of every order.
  \<^item> The simulated venue, under any interleaving of its callers: in the order of the lock its reports
    follow the order protocol and the fill latency, and an order whose reports the engine read in that
    order is shown exactly as it rests; \<open>cancel_overtakes_fill\<close> is a run where the order is lost. The account is the balance of the fills; an
    IOC or FOK order does not linger; the book walk takes the depth within the limit.
  \<^item> Protection: a trail never loosens and is never set to an invalid stop; a price the observer accepts
    is connected to a supporting book or a second print; held deadlines lie ahead.
  \<^item> Market data: the stateful stamp equals a stateless rule; the ring is a bounded queue; overlapping
    deliveries join to the tape; finalized buckets stay closed and no volume is lost; higher bars are
    the folds of their minutes; the volume profile conserves volume and does not depend on map order;
    an indicator holds what a rebuild from the final bars gives; a price band is shown only on warm
    coverage; a candle for the execution core rests on minutes delivered since the last gap, and
    what the lane sends passes the execution core's own check.

  The locales state what a client relies on: \<open>event_fold\<close> (an invariant every event keeps, and a
  relation every event grows, along a log) with instances for the replayed state, a symbol's bars and
  a trail (the result of its steps); \<open>quiet_law\<close> and its extensions \<open>child_law\<close>, \<open>post_law\<close>, \<open>disarmed_law\<close> and \<open>boot_law\<close>
  (what an invariant of the core must survive: appends, changes outside the log, sends), in which
  every handler is carried once, with an instance per invariant; \<open>sim_law\<close> and \<open>fill_law\<close> (an
  invariant of the simulated venue that follows its events in a ghost), with an instance each for the
  protocol, the agreement with the log, the ledger and the immediate orders;
  \<open>sort_less\<close> (Go's sort with a less function) for the order history; \<open>bucket_grid\<close> for the
  intraday buckets.

  \<^bold>\<open>Bounds and termination\<close>

  Handlers of the core call each other through two of them, \<open>handleCancel\<close> and \<open>syncRiskProtection\<close>.
  \<open>knot n\<close> allows such calls nested to depth \<open>n\<close> and records in \<open>cr_stuck\<close> that one met the bottom.
  The safety theorems hold at every depth, and the lemma \<open>depth_is_irrelevant\<close> says that a run that
  did not meet the bottom is the run at every larger depth. No other definition uses fuel. Loops that are not structural have a measure: the calendar searches (days
  left in the searched range), the minutes of a candle (milliseconds left), the binary search (length of the interval), the value area (rows not
  yet inside it).

  \<^bold>\<open>Not modelled\<close>

  \<^item> int64 is \<open>int\<close>: the quantities here are times in milliseconds and share counts far below 2^63;
    the bounds the code itself checks (print counts, the profile's 2^53 volume cap) are in the model.
    Negative zero is not distinguished from zero.
  \<^item> JSON, SQLite, the clock, brokers and the feed are outside: the log is a list, a snapshot an
    argument, the time an argument.
  \<^item> That nested handler calls always end within some depth is not proved, nor anything about what the
    goroutines the core starts do before they report.
  \<^item> Full channels of the market-data core, which drop updates: its outputs are lists. Its recorder is
    off, and the recorder's evidence fields are left out.
  \<^item> Network clients (brokers, OpenD), the UI hub, the scanner, backfill and the demo market.
\<close>

end
